(* ===== verification/Prelude.thy ===== *)
theory Prelude
  imports Complex_Main "HOL-Library.Word" "HOL-Library.Monad_Syntax"
begin

text \<open>
  Shared vocabulary of the development.

  \<^item> The integer types of \<open>src/src/scriptvm/common.h\<close>: \<open>vmint\<close> is \<open>int64_t\<close> and \<open>vmuint\<close> is
    \<open>uint64_t\<close>; both are 64 bit words here, read with \<open>sint\<close> respectively \<open>uint\<close>.
  \<^item> Checked access to the C++ arrays of the sources (\<open>ArrayList\<close>, \<open>std::vector\<close>): \<open>nth_opt\<close>
    and \<open>upd_opt\<close> are \<open>None\<close> where the C++ code would touch memory outside of the array.
  \<^item> Computations that may hit such undefined behaviour, a null pointer or a hardware trap are
    functions into \<open>option\<close>; they are chained with the \<open>do\<close> notation of \<open>Monad_Syntax\<close>.
  \<^item> The collection \<open>vm_defs\<close> gathers the definitions a proof about a concrete program unfolds,
    and \<open>bind_elims\<close> the facts that take a successful chain of computations apart.
\<close>

unbundle bit_operations_syntax

type_synonym vmint = "64 word"
type_synonym vmuint = "64 word"

named_theorems vm_defs "definitions unfolded to evaluate a concrete virtual machine program"
named_theorems bind_elims "facts that take apart a successful chain of computations"

section \<open>Computations that may fail\<close>

lemma bind_SomeE [elim!]:
  assumes "Option.bind m f = Some y"
  obtains x where "m = Some x" and "f x = Some y"
  using assms by (cases m) auto

lemma bind_Some_iff [bind_elims]:
  "(Option.bind m f = Some y) = (\<exists>x. m = Some x \<and> f x = Some y)"
  by (cases m) auto

lemma bind_None_iff: "(Option.bind m f = None) = (m = None \<or> (\<exists>x. m = Some x \<and> f x = None))"
  by (cases m) auto

lemma bind_pair_Some_iff [bind_elims]:
  "(Option.bind m (\<lambda>(a, b). f a b) = Some y) = (\<exists>a b. m = Some (a, b) \<and> f a b = Some y)"
  by (cases m) auto

lemma bind_neq_None:
  assumes "m = Some x" and "f x \<noteq> None"
  shows "Option.bind m f \<noteq> None"
  using assms by simp

section \<open>Checked array access\<close>

definition nth_opt :: "'a list \<Rightarrow> nat \<Rightarrow> 'a option" where
  "nth_opt xs i = (if i < length xs then Some (xs ! i) else None)"

definition upd_opt :: "'a list \<Rightarrow> nat \<Rightarrow> 'a \<Rightarrow> 'a list option" where
  "upd_opt xs i v = (if i < length xs then Some (xs[i := v]) else None)"

lemma nth_opt_Some [simp]: "i < length xs \<Longrightarrow> nth_opt xs i = Some (xs ! i)"
  by (simp add: nth_opt_def)

lemma nth_opt_None [simp]: "length xs \<le> i \<Longrightarrow> nth_opt xs i = None"
  by (simp add: nth_opt_def)

lemma nth_opt_eq_Some_iff [bind_elims]: "(nth_opt xs i = Some v) = (i < length xs \<and> xs ! i = v)"
  by (auto simp: nth_opt_def)

lemma nth_opt_Cons_0 [simp]: "nth_opt (x # xs) 0 = Some x"
  by (simp add: nth_opt_def)

lemma nth_opt_Cons_Suc [simp]: "nth_opt (x # xs) (Suc i) = nth_opt xs i"
  by (simp add: nth_opt_def)

lemma upd_opt_Some [simp]: "i < length xs \<Longrightarrow> upd_opt xs i v = Some (xs[i := v])"
  by (simp add: upd_opt_def)

lemma upd_opt_eq_Some_iff [bind_elims]:
  "(upd_opt xs i v = Some ys) = (i < length xs \<and> ys = xs[i := v])"
  by (auto simp: upd_opt_def)

lemma length_upd_opt: "upd_opt xs i v = Some ys \<Longrightarrow> length ys = length xs"
  by (auto simp: upd_opt_def split: if_splits)

lemma nth_opt_upd_opt:
  "upd_opt xs i v = Some ys \<Longrightarrow> nth_opt ys j = (if j = i then Some v else nth_opt xs j)"
  by (auto simp: upd_opt_def nth_opt_def split: if_splits)

section \<open>Words\<close>

lemma sint_in_range64: "- (2 ^ 63) \<le> sint (w :: 64 word)" "sint (w :: 64 word) < 2 ^ 63"
  using sint_greater_eq [of w] sint_less [of w] by simp_all

lemma word_of_int_sint64 [simp]: "word_of_int (sint (w :: 64 word)) = w"
  by simp

lemma sint_word_of_int_small:
  assumes "- (2 ^ 63) \<le> k" and "k < 2 ^ 63"
  shows "sint (word_of_int k :: 64 word) = k"
proof -
  have "sint (word_of_int k :: 64 word) = signed_take_bit 63 k"
    by (simp add: signed_of_int)
  with assms show ?thesis
    by (simp add: signed_take_bit_int_eq_self)
qed

lemma uint_eq_sint_of_nonneg: "0 \<le> sint (a :: 64 word) \<Longrightarrow> uint a = sint a"
  using sint_in_range64 [of a] by (simp add: uint_sint take_bit_int_eq_self)

lemma unat_less_of_nonneg_sless:
  assumes "0 \<le> sint (a :: 64 word)" and "sint a < int n"
  shows "unat a < n"
  using assms uint_eq_sint_of_nonneg [of a] by (simp add: unat_eq_nat_uint nat_less_iff)

end
