(* ===== verification/Float32.thy ===== *)
theory Float32
  imports Prelude
begin

text \<open>
  The native floating point type \<open>vmfloat\<close> of the script engine (\<open>typedef float vmfloat\<close> in
  \<open>src/src/scriptvm/common.h\<close>), that is IEEE 754 binary32 with round to nearest, ties to even.
  A finite non-zero value is its exact rational value; results of arithmetic are rounded by
  \<open>round32\<close>. Conversions to \<open>vmint\<close> follow the x86-64 code the compilers generate: a value that is
  not a number or does not fit yields the \<^emph>\<open>integer indefinite\<close> value \<open>-2^63\<close>. All definitions are
  executable. The lemmas show that rounding is exact on the values of the format, that integers up
  to \<open>2^24\<close> are such values, that addition and multiplication commute, that one is neutral, and that
  the comparison is a total preorder apart from \<open>NaN\<close>.
\<close>

section \<open>Rounding\<close>

datatype vmfloat = NaN | Inf bool | Zero bool | Fin rat
  \<comment> \<open>\<open>Inf\<close> and \<open>Zero\<close> carry their sign bit (\<open>True\<close>: negative); \<open>Fin\<close> is non-zero\<close>

function ibits :: "int \<Rightarrow> int" where
  "ibits n = (if n \<le> 0 then 0 else 1 + ibits (n div 2))"
  by pat_completeness auto
termination
  by (relation "measure nat") auto

declare ibits.simps [simp del]

definition pow2 :: "int \<Rightarrow> rat" where
  "pow2 k = (if 0 \<le> k then Fract (2 ^ nat k) 1 else Fract 1 (2 ^ nat (- k)))"

definition ilog2 :: "rat \<Rightarrow> int" where
  "ilog2 x = (case quotient_of x of (n, d) \<Rightarrow>
     let k = ibits n - ibits d in if pow2 k \<le> x then k else k - 1)"

definition round_half_even :: "rat \<Rightarrow> int" where
  "round_half_even x = (let f = \<lfloor>x\<rfloor>; r = x - of_int f in
     if r < 1 / 2 then f else if 1 / 2 < r then f + 1 else if even f then f else f + 1)"

definition round32 :: "rat \<Rightarrow> vmfloat" where
  "round32 x = (if x = 0 then Zero False else
     let e = max (ilog2 \<bar>x\<bar>) (- 126); q = pow2 (e - 23);
         n = round_half_even (x / q); y = of_int n * q
     in if n = 0 then Zero (x < 0) else if 2 ^ 128 \<le> \<bar>y\<bar> then Inf (x < 0) else Fin y)"

section \<open>Arithmetic\<close>

fun fsign :: "vmfloat \<Rightarrow> bool" where
  "fsign NaN = False"
| "fsign (Inf s) = s"
| "fsign (Zero s) = s"
| "fsign (Fin x) = (x < 0)"

fun fadd :: "vmfloat \<Rightarrow> vmfloat \<Rightarrow> vmfloat" where
  "fadd NaN _ = NaN"
| "fadd _ NaN = NaN"
| "fadd (Inf s) (Inf t) = (if s = t then Inf s else NaN)"
| "fadd (Inf s) _ = Inf s"
| "fadd _ (Inf t) = Inf t"
| "fadd (Zero s) (Zero t) = Zero (s \<and> t)"
| "fadd (Zero _) (Fin y) = Fin y"
| "fadd (Fin x) (Zero _) = Fin x"
| "fadd (Fin x) (Fin y) = round32 (x + y)"

fun fneg :: "vmfloat \<Rightarrow> vmfloat" where
  "fneg NaN = NaN"
| "fneg (Inf s) = Inf (\<not> s)"
| "fneg (Zero s) = Zero (\<not> s)"
| "fneg (Fin x) = Fin (- x)"

fun fabs :: "vmfloat \<Rightarrow> vmfloat" where
  "fabs NaN = NaN"
| "fabs (Inf _) = Inf False"
| "fabs (Zero _) = Zero False"
| "fabs (Fin x) = Fin \<bar>x\<bar>"

fun fmul :: "vmfloat \<Rightarrow> vmfloat \<Rightarrow> vmfloat" where
  "fmul NaN _ = NaN"
| "fmul _ NaN = NaN"
| "fmul (Inf _) (Zero _) = NaN"
| "fmul (Zero _) (Inf _) = NaN"
| "fmul (Inf s) y = Inf (s \<noteq> fsign y)"
| "fmul x (Inf t) = Inf (fsign x \<noteq> t)"
| "fmul (Zero s) y = Zero (s \<noteq> fsign y)"
| "fmul x (Zero t) = Zero (fsign x \<noteq> t)"
| "fmul (Fin x) (Fin y) = round32 (x * y)"

fun fdiv :: "vmfloat \<Rightarrow> vmfloat \<Rightarrow> vmfloat" where
  "fdiv NaN _ = NaN"
| "fdiv _ NaN = NaN"
| "fdiv (Inf _) (Inf _) = NaN"
| "fdiv (Inf s) y = Inf (s \<noteq> fsign y)"
| "fdiv x (Inf t) = Zero (fsign x \<noteq> t)"
| "fdiv (Zero _) (Zero _) = NaN"
| "fdiv (Zero s) y = Zero (s \<noteq> fsign y)"
| "fdiv x (Zero t) = Inf (fsign x \<noteq> t)"
| "fdiv (Fin x) (Fin y) = round32 (x / y)"

instantiation vmfloat :: "{zero, one, plus, minus, uminus, times, inverse}"
begin

definition zero_vmfloat :: vmfloat where "zero_vmfloat = Zero False"
definition one_vmfloat :: vmfloat where "one_vmfloat = Fin 1"
definition plus_vmfloat :: "vmfloat \<Rightarrow> vmfloat \<Rightarrow> vmfloat" where "plus_vmfloat = fadd"
definition uminus_vmfloat :: "vmfloat \<Rightarrow> vmfloat" where "uminus_vmfloat = fneg"
definition minus_vmfloat :: "vmfloat \<Rightarrow> vmfloat \<Rightarrow> vmfloat" where
  "minus_vmfloat a b = fadd a (fneg b)"
definition times_vmfloat :: "vmfloat \<Rightarrow> vmfloat \<Rightarrow> vmfloat" where "times_vmfloat = fmul"
definition inverse_vmfloat :: "vmfloat \<Rightarrow> vmfloat" where "inverse_vmfloat = fdiv 1"
definition divide_vmfloat :: "vmfloat \<Rightarrow> vmfloat \<Rightarrow> vmfloat" where "divide_vmfloat = fdiv"

instance ..

end

section \<open>Comparison\<close>

text \<open>The C operators \<open>==\<close>, \<open><\<close> and \<open><=\<close>: false when an operand is \<open>NaN\<close>, and both zeros are equal.\<close>

fun frank :: "vmfloat \<Rightarrow> int \<times> rat" where
  "frank NaN = (2, 0)"
| "frank (Inf s) = (if s then - 1 else 1, 0)"
| "frank (Zero _) = (0, 0)"
| "frank (Fin x) = (0, x)"

definition feq :: "vmfloat \<Rightarrow> vmfloat \<Rightarrow> bool" where
  "feq a b = (a \<noteq> NaN \<and> b \<noteq> NaN \<and> frank a = frank b)"

definition flt :: "vmfloat \<Rightarrow> vmfloat \<Rightarrow> bool" where
  "flt a b = (a \<noteq> NaN \<and> b \<noteq> NaN \<and>
     (fst (frank a) < fst (frank b) \<or> fst (frank a) = fst (frank b) \<and> snd (frank a) < snd (frank b)))"

definition fle :: "vmfloat \<Rightarrow> vmfloat \<Rightarrow> bool" where
  "fle a b = (flt a b \<or> feq a b)"

section \<open>Conversions\<close>

definition float_of_int :: "int \<Rightarrow> vmfloat" where
  "float_of_int i = round32 (of_int i)"

definition float_of_vmint :: "vmint \<Rightarrow> vmfloat" where
  "float_of_vmint i = float_of_int (sint i)"

definition int_indefinite :: vmint where
  "int_indefinite = word_of_int (- (2 ^ 63))"

definition vmint_of_int :: "int \<Rightarrow> vmint" where
  "vmint_of_int k = (if - (2 ^ 63) \<le> k \<and> k < 2 ^ 63 then word_of_int k else int_indefinite)"

definition trunc_rat :: "rat \<Rightarrow> int" where
  "trunc_rat x = (if 0 \<le> x then \<lfloor>x\<rfloor> else - \<lfloor>- x\<rfloor>)"

definition round_away :: "rat \<Rightarrow> int" where
  "round_away x = (if 0 \<le> x then \<lfloor>x + 1 / 2\<rfloor> else - \<lfloor>- x + 1 / 2\<rfloor>)"

fun vmint_of_float :: "vmfloat \<Rightarrow> vmint" where \<comment> \<open>the cast \<open>vmint(f)\<close>\<close>
  "vmint_of_float (Fin x) = vmint_of_int (trunc_rat x)"
| "vmint_of_float (Zero _) = 0"
| "vmint_of_float _ = int_indefinite"

fun llroundf :: "vmfloat \<Rightarrow> vmint" where
  "llroundf (Fin x) = vmint_of_int (round_away x)"
| "llroundf (Zero _) = 0"
| "llroundf _ = int_indefinite"

definition integral_float :: "bool \<Rightarrow> int \<Rightarrow> vmfloat" where
  "integral_float s k = (if k = 0 then Zero s else Fin (of_int k))"

fun roundf :: "vmfloat \<Rightarrow> vmfloat" where
  "roundf (Fin x) = integral_float (x < 0) (round_away x)"
| "roundf f = f"

fun ceilf :: "vmfloat \<Rightarrow> vmfloat" where
  "ceilf (Fin x) = integral_float (x < 0) \<lceil>x\<rceil>"
| "ceilf f = f"

fun floorf :: "vmfloat \<Rightarrow> vmfloat" where
  "floorf (Fin x) = integral_float (x < 0) \<lfloor>x\<rfloor>"
| "floorf f = f"

section \<open>The logarithm of the rounding step\<close>

lemma pow2_powi: "pow2 k = 2 powi k"
proof (cases "0 \<le> k")
  case True
  then show ?thesis by (simp add: pow2_def power_int_def Fract_of_int_quotient)
next
  case False
  then have "pow2 k = inverse (2 ^ nat (- k))"
    by (simp only: pow2_def Fract_of_int_quotient if_False) (simp add: inverse_eq_divide)
  with False show ?thesis by (simp add: power_int_def power_one_over inverse_eq_divide)
qed

lemma pow2_pos [simp]: "0 < pow2 k"
  by (simp add: pow2_powi)

lemma pow2_add: "pow2 (a + b) = pow2 a * pow2 b"
  by (simp add: pow2_powi power_int_add)

lemma pow2_diff: "pow2 (a - b) = pow2 a / pow2 b"
  by (simp add: pow2_powi power_int_diff)

lemma pow2_mono: "a \<le> b \<Longrightarrow> pow2 a \<le> pow2 b"
  by (simp add: pow2_powi power_int_increasing)

lemma pow2_less_iff: "pow2 a < pow2 b \<longleftrightarrow> a < b"
  using pow2_mono [of b a] power_int_strict_increasing [of a b "2 :: rat"]
  by (auto simp: pow2_powi not_le [symmetric])

lemma pow2_nat: "0 \<le> k \<Longrightarrow> pow2 k = 2 ^ nat k"
  by (simp add: pow2_def Fract_of_int_quotient)

lemma ibits_bounds: "0 < n \<Longrightarrow> 0 < ibits n \<and> 2 ^ nat (ibits n - 1) \<le> n \<and> n < 2 ^ nat (ibits n)"
proof (induction n rule: ibits.induct)
  case (1 n)
  show ?case
  proof (cases "n = 1")
    case True
    have "ibits 1 = 1 + ibits 0" by (subst ibits.simps) simp
    also have "ibits 0 = 0" by (subst ibits.simps) simp
    finally show ?thesis using True by simp
  next
    case False
    with "1.prems" have n: "2 \<le> n" by simp
    then have IH: "0 < ibits (n div 2)" "2 ^ nat (ibits (n div 2) - 1) \<le> n div 2"
      "n div 2 < 2 ^ nat (ibits (n div 2))"
      using "1.IH" by auto
    have eq: "ibits n = 1 + ibits (n div 2)"
      using n by (subst ibits.simps) simp
    have "2 * 2 ^ nat (ibits (n div 2) - 1) \<le> n" and "n < 2 * 2 ^ nat (ibits (n div 2))"
      using IH by linarith+
    moreover have "nat (ibits n - 1) = Suc (nat (ibits (n div 2) - 1))"
      and "nat (ibits n) = Suc (nat (ibits (n div 2)))"
      using IH(1) eq by simp_all
    ultimately show ?thesis using IH(1) eq by simp
  qed
qed

lemma ibits_pow2: "0 < n \<Longrightarrow> pow2 (ibits n - 1) \<le> of_int n \<and> of_int n < pow2 (ibits n)"
  using ibits_bounds [of n] of_int_le_iff [of "2 ^ nat (ibits n - 1)" n, where ?'a = rat]
    of_int_less_iff [of n "2 ^ nat (ibits n)", where ?'a = rat]
  by (simp add: pow2_nat)

lemma ilog2_bounds:
  assumes "0 < x"
  shows "pow2 (ilog2 x) \<le> x \<and> x < pow2 (ilog2 x + 1)"
proof -
  obtain n d where q: "quotient_of x = (n, d)" by fastforce
  then have d: "0 < d" and x: "x = of_int n / of_int d"
    by (auto intro: quotient_of_denom_pos quotient_of_div)
  with assms have n: "0 < n"
    by (simp add: zero_less_divide_iff)
  note bn = ibits_pow2 [OF n] and bd = ibits_pow2 [OF d]
  define k where "k = ibits n - ibits d"
  have "x < pow2 (ibits n) / pow2 (ibits d - 1)"
    unfolding x using bn bd by (intro frac_less) (auto simp: n d less_imp_le)
  then have up: "x < pow2 (k + 1)"
    by (simp add: pow2_diff [symmetric] k_def algebra_simps)
  have "pow2 (ibits n - 1) / pow2 (ibits d) < x"
    unfolding x using bn bd by (intro frac_less2) (auto simp: n d less_imp_le)
  then have lo: "pow2 (k - 1) < x"
    by (simp add: pow2_diff [symmetric] k_def algebra_simps)
  show ?thesis
    using up lo by (auto simp: ilog2_def q k_def [symmetric] Let_def)
qed

section \<open>Rounding is exact on the values of the format\<close>

definition representable :: "rat \<Rightarrow> bool" where
  "representable x = (\<exists>m e. x = of_int m * pow2 e \<and> \<bar>m\<bar> < 2 ^ 24 \<and> - 149 \<le> e \<and> e \<le> 104)"

lemma round_half_even_of_int [simp]: "round_half_even (of_int n) = n"
  by (simp add: round_half_even_def)

lemma ilog2_le_of_less: "0 < x \<Longrightarrow> x < pow2 k \<Longrightarrow> ilog2 x < k"
  using ilog2_bounds [of x] by (meson le_less_trans pow2_less_iff)

lemma round32_exact:
  assumes "representable x" and "x \<noteq> 0"
  shows "round32 x = Fin x"
proof -
  from assms(1) obtain m e where x: "x = of_int m * pow2 e" and m: "\<bar>m\<bar> < 2 ^ 24"
    and e: "- 149 \<le> e" "e \<le> 104"
    by (auto simp: representable_def)
  have m0: "m \<noteq> 0" using assms(2) x by auto
  have absx: "\<bar>x\<bar> = of_int \<bar>m\<bar> * pow2 e"
    by (simp only: x abs_mult abs_of_pos [OF pow2_pos] of_int_abs)
  have "of_int \<bar>m\<bar> < (2 :: rat) ^ 24"
    using m of_int_less_iff [of "\<bar>m\<bar>" "2 ^ 24", where ?'a = rat] by simp
  then have "\<bar>x\<bar> < pow2 24 * pow2 e"
    unfolding absx by (intro mult_strict_right_mono) (simp_all add: pow2_nat)
  then have lt: "\<bar>x\<bar> < pow2 (24 + e)"
    by (simp only: pow2_add)
  define E where "E = max (ilog2 \<bar>x\<bar>) (- 126)"
  have "ilog2 \<bar>x\<bar> < 24 + e"
    using assms(2) lt by (intro ilog2_le_of_less) auto
  with e have Ee: "0 \<le> e - (E - 23)"
    by (auto simp: E_def)
  have "x / pow2 (E - 23) = of_int m * pow2 (e - (E - 23))"
    by (simp only: x pow2_diff) simp
  also have "\<dots> = of_int (m * 2 ^ nat (e - (E - 23)))"
    using Ee by (simp add: pow2_nat)
  finally have n: "round_half_even (x / pow2 (E - 23)) = m * 2 ^ nat (e - (E - 23))"
    by (simp only: round_half_even_of_int)
  have y: "of_int (m * 2 ^ nat (e - (E - 23))) * pow2 (E - 23) = x"
    using Ee by (simp add: x pow2_nat [symmetric] mult.assoc pow2_add [symmetric])
  have "pow2 (24 + e) \<le> pow2 128"
    using e by (intro pow2_mono) simp
  with lt have "\<bar>x\<bar> < 2 ^ 128"
    by (simp add: pow2_nat)
  with assms(2) show ?thesis
    unfolding round32_def Let_def E_def [symmetric] n y using m0 by simp
qed

lemma representable_int: "\<bar>n\<bar> \<le> 2 ^ 24 \<Longrightarrow> representable (of_int n)"
proof (cases "\<bar>n\<bar> = 2 ^ 24")
  case True
  then have n: "n = (sgn n * 2 ^ 23) * 2"
    by (auto simp: abs_if sgn_if split: if_splits)
  have "of_int n = of_int (sgn n * 2 ^ 23) * pow2 1"
    by (subst n) (simp add: pow2_nat)
  moreover have "\<bar>sgn n * 2 ^ 23\<bar> < (2 :: int) ^ 24"
    by (simp add: sgn_if)
  ultimately show ?thesis
    unfolding representable_def by (intro exI [of _ "sgn n * 2 ^ 23"] exI [of _ 1]) simp
next
  case False
  assume "\<bar>n\<bar> \<le> 2 ^ 24"
  with False show ?thesis
    unfolding representable_def by (intro exI [of _ n] exI [of _ 0]) (simp add: pow2_nat)
qed

theorem float_of_int_exact:
  "\<bar>n\<bar> \<le> 2 ^ 24 \<Longrightarrow> float_of_int n = (if n = 0 then Zero False else Fin (of_int n))"
proof (cases "n = 0")
  case True
  then show ?thesis by (simp add: float_of_int_def round32_def)
next
  case False
  assume "\<bar>n\<bar> \<le> 2 ^ 24"
  then have "round32 (of_int n) = Fin (of_int n)"
    using False by (intro round32_exact representable_int) simp_all
  with False show ?thesis by (simp add: float_of_int_def)
qed

definition wf_float :: "vmfloat \<Rightarrow> bool" where
  "wf_float f = (case f of Fin x \<Rightarrow> x \<noteq> 0 \<and> representable x | _ \<Rightarrow> True)"

lemma trunc_rat_of_int [simp]: "trunc_rat (of_int n) = n"
  by (simp add: trunc_rat_def)

lemma round_away_of_int [simp]: "round_away (of_int n) = n"
proof -
  have "\<lfloor>of_int k + 1 / 2 :: rat\<rfloor> = k" for k
    by (rule floor_unique) simp_all
  from this [of n] this [of "- n"] show ?thesis
    by (simp add: round_away_def)
qed

section \<open>Algebra of the operations\<close>

lemmas vmfloat_ops = plus_vmfloat_def minus_vmfloat_def times_vmfloat_def divide_vmfloat_def
  uminus_vmfloat_def zero_vmfloat_def one_vmfloat_def inverse_vmfloat_def

lemma fadd_commute: "fadd a b = fadd b a"
  by (cases a; cases b) (auto simp: add.commute)

lemma fmul_commute: "fmul a b = fmul b a"
  by (cases a; cases b) (auto simp: mult.commute)

lemma vmfloat_add_commute: "(a :: vmfloat) + b = b + a"
  by (simp add: vmfloat_ops fadd_commute)

lemma vmfloat_mult_commute: "(a :: vmfloat) * b = b * a"
  by (simp add: vmfloat_ops fmul_commute)

lemma fmul_one: "wf_float a \<Longrightarrow> a * 1 = a"
  by (cases a) (auto simp: vmfloat_ops wf_float_def round32_exact)

lemma fdiv_one_one [simp]: "(1 :: vmfloat) / 1 = 1"
  using round32_exact [of 1] representable_int [of 1] by (simp add: vmfloat_ops)

lemma fdiv_self: "wf_float a \<Longrightarrow> a = Fin x \<Longrightarrow> a / a = 1"
  using round32_exact [of 1] representable_int [of 1] by (auto simp: vmfloat_ops wf_float_def)

section \<open>Order\<close>

lemma feq_refl_iff: "feq a a = (a \<noteq> NaN)"
  by (simp add: feq_def)

lemma feq_sym: "feq a b = feq b a"
  by (auto simp: feq_def)

lemma flt_irrefl [simp]: "\<not> flt a a"
  by (simp add: flt_def)

lemma flt_asym: "flt a b \<Longrightarrow> \<not> flt b a"
  by (auto simp: flt_def)

lemma flt_trans: "flt a b \<Longrightarrow> flt b c \<Longrightarrow> flt a c"
  by (auto simp: flt_def)

lemma not_flt_trans:
  "a \<noteq> NaN \<Longrightarrow> b \<noteq> NaN \<Longrightarrow> c \<noteq> NaN \<Longrightarrow> \<not> flt b a \<Longrightarrow> \<not> flt c b \<Longrightarrow> \<not> flt c a"
  by (auto simp: flt_def)

lemma fle_iff_not_flt: "a \<noteq> NaN \<Longrightarrow> b \<noteq> NaN \<Longrightarrow> fle a b = (\<not> flt b a)"
  by (auto simp: fle_def flt_def feq_def prod_eq_iff)

lemma flt_total: "a \<noteq> NaN \<Longrightarrow> b \<noteq> NaN \<Longrightarrow> flt a b \<or> feq a b \<or> flt b a"
  by (auto simp: flt_def feq_def prod_eq_iff)

lemma flt_not_NaN: "flt a b \<Longrightarrow> a \<noteq> NaN \<and> b \<noteq> NaN"
  by (simp add: flt_def)

lemma flt_not_feq: "flt a b \<Longrightarrow> \<not> feq a b"
  by (auto simp: flt_def feq_def)

end
