(* ===== verification/VMTypes.thy ===== *)
theory VMTypes
  imports Float32
begin

text \<open>
  The enumerations and the unit arithmetic of the script engine's API, \<open>src/src/scriptvm/common.h\<close>
  and \<open>common.cpp\<close>, the qualifiers of \<open>tree.h\<close>, and the tolerant floating point comparison
  \<open>RTMathBase::fEqual32\<close> of \<open>src/src/common/RTMath.cpp\<close>, which the script functions use. Bit flags
  (\<open>StmtFlags_t\<close>, \<open>VMExecStatus_t\<close>) are 32 bit words combined with \<open>OR\<close> and tested with \<open>AND\<close>.
\<close>

section \<open>Enumerations\<close>

datatype ExprType_t = EMPTY_EXPR | INT_EXPR | INT_ARR_EXPR | STRING_EXPR | STRING_ARR_EXPR
  | REAL_EXPR | REAL_ARR_EXPR

type_synonym StmtFlags_t = "32 word"

definition STMT_SUCCESS :: StmtFlags_t where [simp]: "STMT_SUCCESS = 0"
definition STMT_ABORT_SIGNALLED :: StmtFlags_t where [simp]: "STMT_ABORT_SIGNALLED = 1"
definition STMT_SUSPEND_SIGNALLED :: StmtFlags_t where [simp]: "STMT_SUSPEND_SIGNALLED = 2"
definition STMT_ERROR_OCCURRED :: StmtFlags_t where [simp]: "STMT_ERROR_OCCURRED = 4"

type_synonym VMExecStatus_t = "32 word"

definition VM_EXEC_NOT_RUNNING :: VMExecStatus_t where [simp]: "VM_EXEC_NOT_RUNNING = 0"
definition VM_EXEC_RUNNING :: VMExecStatus_t where [simp]: "VM_EXEC_RUNNING = 1"
definition VM_EXEC_SUSPENDED :: VMExecStatus_t where [simp]: "VM_EXEC_SUSPENDED = 2"
definition VM_EXEC_ERROR :: VMExecStatus_t where [simp]: "VM_EXEC_ERROR = 4"

datatype VMEventHandlerType_t = VM_EVENT_HANDLER_INIT | VM_EVENT_HANDLER_NOTE
  | VM_EVENT_HANDLER_RELEASE | VM_EVENT_HANDLER_CONTROLLER | VM_EVENT_HANDLER_RPN
  | VM_EVENT_HANDLER_NRPN

datatype MetricPrefix_t = VM_NO_PREFIX | VM_KILO | VM_HECTO | VM_DECA | VM_DECI | VM_CENTI
  | VM_MILLI | VM_MICRO

definition VM_NO_FACTOR :: vmfloat where [vm_defs]: "VM_NO_FACTOR = Fin 1"

datatype StdUnit_t = VM_NO_UNIT | VM_SECOND | VM_HERTZ | VM_BEL

fun typeStr :: "ExprType_t \<Rightarrow> string" where
  "typeStr EMPTY_EXPR = ''empty''"
| "typeStr INT_EXPR = ''integer''"
| "typeStr INT_ARR_EXPR = ''integer array''"
| "typeStr REAL_EXPR = ''real number''"
| "typeStr REAL_ARR_EXPR = ''real number array''"
| "typeStr STRING_EXPR = ''string''"
| "typeStr STRING_ARR_EXPR = ''string array''"

definition isArray :: "ExprType_t \<Rightarrow> bool" where
  "isArray type \<longleftrightarrow> type = INT_ARR_EXPR \<or> type = REAL_ARR_EXPR \<or> type = STRING_ARR_EXPR"

definition isNumber :: "ExprType_t \<Rightarrow> bool" where
  "isNumber type \<longleftrightarrow> type = INT_EXPR \<or> type = REAL_EXPR"

fun unitTypeStr :: "StdUnit_t \<Rightarrow> string" where
  "unitTypeStr VM_NO_UNIT = ''none''"
| "unitTypeStr VM_SECOND = ''seconds''"
| "unitTypeStr VM_HERTZ = ''Hz''"
| "unitTypeStr VM_BEL = ''Bel''"

text \<open>\<open>None\<close> stands for the invalid value \<open>(ExprType_t) -1\<close> of the source.\<close>

definition exprTypeOfVarName :: "string \<Rightarrow> ExprType_t option" where
  "exprTypeOfVarName name = (case name of [] \<Rightarrow> None | prefix # _ \<Rightarrow>
     if prefix = CHR ''$'' then Some INT_EXPR
     else if prefix = CHR ''%'' then Some INT_ARR_EXPR
     else if prefix = CHR ''~'' then Some REAL_EXPR
     else if prefix = CHR ''?'' then Some REAL_ARR_EXPR
     else if prefix = CHR ''@'' then Some STRING_EXPR
     else if prefix = CHR ''!'' then Some STRING_ARR_EXPR
     else None)"

fun scalarTypeOfArray :: "ExprType_t \<Rightarrow> ExprType_t option" where
  "scalarTypeOfArray INT_ARR_EXPR = Some INT_EXPR"
| "scalarTypeOfArray REAL_ARR_EXPR = Some REAL_EXPR"
| "scalarTypeOfArray STRING_ARR_EXPR = Some STRING_EXPR"
| "scalarTypeOfArray _ = None" \<comment> \<open>\<open>assert(false)\<close>\<close>

datatype Qualifier_t = QUALIFIER_NONE | QUALIFIER_CONST | QUALIFIER_POLYPHONIC | QUALIFIER_PATCH

fun qualifierStr :: "Qualifier_t \<Rightarrow> string" where
  "qualifierStr QUALIFIER_NONE = ''none''"
| "qualifierStr QUALIFIER_CONST = ''const''"
| "qualifierStr QUALIFIER_POLYPHONIC = ''polyphonic''"
| "qualifierStr QUALIFIER_PATCH = ''patch''"

section \<open>Unit factors\<close>

fun unitFactor_of_prefix :: "MetricPrefix_t \<Rightarrow> vmfloat" where
  "unitFactor_of_prefix VM_NO_PREFIX = round32 1"
| "unitFactor_of_prefix VM_KILO = round32 1000"
| "unitFactor_of_prefix VM_HECTO = round32 100"
| "unitFactor_of_prefix VM_DECA = round32 10"
| "unitFactor_of_prefix VM_DECI = round32 (1 / 10)"
| "unitFactor_of_prefix VM_CENTI = round32 (1 / 100)"
| "unitFactor_of_prefix VM_MILLI = round32 (1 / 1000)"
| "unitFactor_of_prefix VM_MICRO = round32 (1 / 1000000)"

definition VMUnit_unitFactor1 :: "MetricPrefix_t \<Rightarrow> vmfloat" where
  "VMUnit_unitFactor1 prefix = unitFactor_of_prefix prefix"

definition VMUnit_unitFactor2 :: "MetricPrefix_t \<Rightarrow> MetricPrefix_t \<Rightarrow> vmfloat" where
  "VMUnit_unitFactor2 prefix1 prefix2 = unitFactor_of_prefix prefix1 * unitFactor_of_prefix prefix2"

text \<open>The loop over a prefix array stops at the first \<open>VM_NO_PREFIX\<close> or after \<open>size\<close> entries.\<close>

fun unitFactor_loop :: "vmfloat \<Rightarrow> MetricPrefix_t list \<Rightarrow> nat \<Rightarrow> vmfloat" where
  "unitFactor_loop f (p # ps) (Suc n) =
     (if p = VM_NO_PREFIX then f else unitFactor_loop (f * unitFactor_of_prefix p) ps n)"
| "unitFactor_loop f _ _ = f"

definition VMUnit_unitFactors :: "MetricPrefix_t list \<Rightarrow> nat \<Rightarrow> vmfloat" where
  "VMUnit_unitFactors prefixes n = unitFactor_loop VM_NO_FACTOR prefixes n"

section \<open>Tolerant comparison of real numbers\<close>

text \<open>
  \<open>epsilon\<close> and the powers of two are C doubles that represent the values below exactly, so the
  comparisons with them are made on exact values; only \<open>b - a\<close> is a rounded float operation.
\<close>

definition isinf :: "vmfloat \<Rightarrow> bool" where
  "isinf f = (case f of Inf _ \<Rightarrow> True | _ \<Rightarrow> False)"

definition isnan :: "vmfloat \<Rightarrow> bool" where
  "isnan f = (f = NaN)"

fun exact_abs_less :: "vmfloat \<Rightarrow> rat \<Rightarrow> bool" where
  "exact_abs_less (Fin x) y = (\<bar>x\<bar> < y)"
| "exact_abs_less (Zero _) y = (0 < y)"
| "exact_abs_less _ _ = False"

fun exact_abs_le :: "vmfloat \<Rightarrow> rat \<Rightarrow> bool" where
  "exact_abs_le (Fin x) y = (\<bar>x\<bar> \<le> y)"
| "exact_abs_le (Zero _) y = (0 \<le> y)"
| "exact_abs_le _ _ = False"

fun exact_value :: "vmfloat \<Rightarrow> rat" where
  "exact_value (Fin x) = x"
| "exact_value _ = 0"

definition fEqual32 :: "vmfloat \<Rightarrow> vmfloat \<Rightarrow> bool" where
  "fEqual32 a b =
     (if feq a b then True
      else if isinf a \<or> isinf b then isinf a = isinf b
      else if isnan a \<or> isnan b then isnan a = isnan b
      else let bits = 23 - 4 in
        if feq a 0 then exact_abs_less b (1 / 2 ^ bits)
        else if feq b 0 then exact_abs_less a (1 / 2 ^ bits)
        else let epsilon = \<bar>exact_value a / 2 ^ bits\<bar> in exact_abs_le (b - a) epsilon)"

section \<open>Facts\<close>

lemma VM_NO_FACTOR_eq_one: "VM_NO_FACTOR = 1"
  by (simp add: VM_NO_FACTOR_def one_vmfloat_def)

lemma VM_NO_FACTOR_neq_NaN [simp]: "VM_NO_FACTOR \<noteq> NaN"
  by (simp add: VM_NO_FACTOR_def)

lemma feq_VM_NO_FACTOR [simp]: "feq VM_NO_FACTOR VM_NO_FACTOR"
  by (simp add: feq_def VM_NO_FACTOR_def)

lemma unitFactor_of_prefix_values:
  "unitFactor_of_prefix VM_NO_PREFIX = Fin 1" "unitFactor_of_prefix VM_KILO = Fin 1000"
  "unitFactor_of_prefix VM_HECTO = Fin 100" "unitFactor_of_prefix VM_DECA = Fin 10"
  "unitFactor_of_prefix VM_DECI = Fin (13421773 / 134217728)"
  "unitFactor_of_prefix VM_CENTI = Fin (5368709 / 536870912)"
  "unitFactor_of_prefix VM_MILLI = Fin (8589935 / 8589934592)"
  "unitFactor_of_prefix VM_MICRO = Fin (8796093 / 8796093022208)"
  by code_simp+

lemma fEqual32_refl: "fEqual32 a a"
  by (cases a) (simp_all add: fEqual32_def feq_def isinf_def isnan_def)

lemma unitFactor_loop_no_prefix: "unitFactor_loop f (VM_NO_PREFIX # ps) n = f"
  by (cases n) simp_all

lemma stmt_flags_tests [simp]:
  "(STMT_ABORT_SIGNALLED OR STMT_ERROR_OCCURRED) AND STMT_SUSPEND_SIGNALLED = 0"
  "(STMT_ABORT_SIGNALLED OR STMT_ERROR_OCCURRED) AND STMT_ERROR_OCCURRED = 4"
  by simp_all

end
