(* ===== verification/VMTree.thy ===== *)
theory VMTree
  imports VMTypes
begin

text \<open>
  The data of the script virtual machine.

  \<^item> \<open>expr\<close> and \<open>stmt\<close> are the parsed script, one constructor per class of
    \<open>src/src/scriptvm/tree.h\<close>, with the constructor's members as arguments. Members of the C++
    objects that change while a script runs are not part of the tree: an object that has one carries
    a number, and the member is looked up in the state by that number (\<open>currentIndex\<close> of array
    element objects, \<open>fnResult\<close> of function call objects, the contents of array variables).
  \<^item> \<open>ExecContext\<close> is the class of the same name, \<open>vm\<close> the rest of the state a running script can
    reach: the global memories of \<open>ParserContext\<close>, the mutable members above, the objects built-in
    variables point into, and the input the C library delivers (random numbers, clocks).
  \<^item> \<open>clib\<close> is what the code takes from the C and C++ libraries beyond arithmetic: the transcendental
    functions and the text form of a floating point number.
\<close>

section \<open>Scripts\<close>

datatype CoreFn = Fn_message | Fn_exit | Fn_wait | Fn_abs | Fn_random | Fn_num_elements | Fn_inc
  | Fn_dec | Fn_in_range | Fn_sh_left | Fn_sh_right | Fn_msb | Fn_lsb | Fn_min | Fn_max
  | Fn_array_equal | Fn_search | Fn_sort | Fn_int_to_real | Fn_real_to_int | Fn_round | Fn_ceil
  | Fn_floor | Fn_sqrt | Fn_log | Fn_log2 | Fn_log10 | Fn_exp | Fn_pow | Fn_sin | Fn_cos | Fn_tan
  | Fn_asin | Fn_acos | Fn_atan

datatype RelationType = LESS_THAN | GREATER_THAN | LESS_OR_EQUAL | GREATER_OR_EQUAL | EQUAL
  | NOT_EQUAL

datatype CoreDynVar = NKSP_REAL_TIMER | NKSP_PERF_TIMER

record VariableDecl =
  vd_isPolyphonic :: bool
  vd_isConst :: bool
  vd_memPos :: nat
  vd_unitFactorMemPos :: nat
  vd_unitType :: StdUnit_t
  vd_isFinal :: bool

record VMRelPtr =
  rp_base :: nat
  rp_offset :: nat
  rp_readonly :: bool

datatype VMIntPtr = VMInt64RelPtr VMRelPtr | VMInt32RelPtr VMRelPtr | VMInt16RelPtr VMRelPtr
  | VMInt8RelPtr VMRelPtr

datatype expr =
    IntLiteral vmint vmfloat StdUnit_t bool
  | RealLiteral vmfloat vmfloat StdUnit_t bool
  | StringLiteral string
  | IntVariable VariableDecl
  | RealVariable VariableDecl
  | ConstIntVariable vmint vmfloat StdUnit_t bool
  | ConstRealVariable vmfloat vmfloat StdUnit_t bool
  | BuiltInIntVariable string VMIntPtr
  | IntArrayVariable nat bool
  | RealArrayVariable nat bool
  | BuiltInIntArrayVariable string nat bool
  | IntArrayElement nat expr expr
  | RealArrayElement nat expr expr
  | StringVariable nat
  | ConstStringVariable string
  | DynamicVariableCall string CoreDynVar
  | FunctionCall nat string "expr list" "CoreFn option"
  | Add expr expr
  | Sub expr expr
  | Mul expr expr
  | Div expr expr
  | Mod expr expr
  | Neg expr
  | ConcatString expr expr
  | Relation expr RelationType expr
  | Or expr expr
  | BitwiseOr expr expr
  | And expr expr
  | BitwiseAnd expr expr
  | Not expr
  | BitwiseNot expr
  | Final expr

datatype stmt =
    NoOperation
  | Assignment "expr option" expr
  | CallStatement expr
  | Statements "stmt list"
  | If expr "stmt list" "stmt list option"
  | SelectCase expr "(expr \<times> expr option \<times> stmt list) list"
  | While expr "stmt list option"
  | SyncBlock "stmt list option"

datatype StmtType_t = STMT_LEAF | STMT_LIST | STMT_BRANCH | STMT_LOOP | STMT_SYNC | STMT_NOOP

fun statementType :: "stmt \<Rightarrow> StmtType_t" where
  "statementType NoOperation = STMT_NOOP"
| "statementType (Assignment _ _) = STMT_LEAF"
| "statementType (CallStatement _) = STMT_LEAF"
| "statementType (Statements _) = STMT_LIST"
| "statementType (If _ _ _) = STMT_BRANCH"
| "statementType (SelectCase _ _) = STMT_BRANCH"
| "statementType (While _ _) = STMT_LOOP"
| "statementType (SyncBlock _) = STMT_SYNC"

section \<open>State\<close>

record StackFrame =
  sf_statement :: "stmt option"
  sf_subindex :: int

record ExecContext =
  polyphonicIntMemory :: "vmint list"
  polyphonicRealMemory :: "vmfloat list"
  polyphonicUnitFactorMemory :: "vmfloat list"
  status :: VMExecStatus_t
  flags :: StmtFlags_t
  stack :: "StackFrame list"
  stackFrame :: int
  suspendMicroseconds :: vmint
  instructionsCount :: nat
  exitRes :: "expr option"

datatype VMFnResult =
    VMEmptyResult StmtFlags_t
  | VMIntResult StmtFlags_t vmint vmfloat StdUnit_t
  | VMRealResult StmtFlags_t vmfloat vmfloat StdUnit_t
  | VMStringResult StmtFlags_t string

record 'v ArrayObject =
  ao_values :: "'v list"
  ao_unitFactors :: "vmfloat list"

record VMInt8Array =
  a8_data :: "8 word list"
  a8_size :: vmint

record vm =
  globalIntMemory :: "vmint list"
  globalRealMemory :: "vmfloat list"
  globalStrMemory :: "string list"
  globalUnitFactorMemory :: "vmfloat list"
  intArrays :: "vmint ArrayObject list"
  realArrays :: "vmfloat ArrayObject list"
  int8Arrays :: "VMInt8Array list"
  objectBytes :: "nat \<Rightarrow> 8 word list"
  currentIndex :: "nat \<Rightarrow> vmint"
  fnResult :: "nat \<Rightarrow> VMFnResult option"
  boundResult :: "CoreFn \<Rightarrow> nat option"
  execCtx :: ExecContext
  messages :: "string list"
  randStream :: "nat \<Rightarrow> int"
  randPos :: nat
  clockStream :: "nat \<Rightarrow> vmint"
  clockPos :: nat
  m_autoSuspend :: bool
  m_acceptExitRes :: bool

datatype LibmFn = Lm_sqrt | Lm_log | Lm_log2 | Lm_log10 | Lm_exp | Lm_sin | Lm_cos | Lm_tan
  | Lm_asin | Lm_acos | Lm_atan

record clib =
  cl_libm :: "LibmFn \<Rightarrow> vmfloat \<Rightarrow> vmfloat"
  cl_powf :: "vmfloat \<Rightarrow> vmfloat \<Rightarrow> vmfloat"
  cl_real_to_str :: "vmfloat \<Rightarrow> string" \<comment> \<open>\<open>ToString(vmfloat)\<close>\<close>
  cl_printf_f :: "vmfloat \<Rightarrow> string" \<comment> \<open>\<open>printf("%f")\<close>\<close>
  cl_lround_log10 :: "vmfloat \<Rightarrow> int" \<comment> \<open>\<open>lround(log10(x))\<close>\<close>
  cl_RAND_MAX :: int

type_synonym 'a eval = "vm \<Rightarrow> ('a \<times> vm) option"

section \<open>State access\<close>

definition upd_ctx :: "(ExecContext \<Rightarrow> ExecContext) \<Rightarrow> vm \<Rightarrow> vm" where
  [vm_defs]: "upd_ctx f s = s\<lparr>execCtx := f (execCtx s)\<rparr>"

definition set_flags :: "StmtFlags_t \<Rightarrow> vm \<Rightarrow> vm" where
  [vm_defs]: "set_flags f s = s\<lparr>execCtx := (execCtx s)\<lparr>flags := f\<rparr>\<rparr>"

definition printMsg :: "string \<Rightarrow> vm \<Rightarrow> vm" where
  [vm_defs]: "printMsg txt s = s\<lparr>messages := messages s @ [txt]\<rparr>"

text \<open>The decimal text of an integer, \<open>ToString(vmint)\<close>.\<close>

function decimal :: "int \<Rightarrow> string" where
  "decimal n = (let d = [''0123456789'' ! nat (n mod 10)] in
     if n < 10 then d else decimal (n div 10) @ d)"
  by pat_completeness auto
termination
  by (relation "measure nat") auto

declare decimal.simps [simp del]

definition int_to_str :: "int \<Rightarrow> string" where
  "int_to_str i = (if i < 0 then ''-'' @ decimal (- i) else decimal i)"

end
