(* ===== verification/VMExprs.thy ===== *)
theory VMExprs
  imports VMTree
begin

text \<open>
  The expression classes of \<open>src/src/scriptvm/tree.h\<close> and \<open>tree.cpp\<close>, and the conversions of
  \<open>common.cpp\<close>. An expression object is its table of virtual methods, the record \<open>node\<close>; each class
  is a definition \<open><Class>_node\<close> that builds the table of the object from the tables of its operands,
  with one definition per method that does more than return a constant. A method that evaluates
  takes the state and returns its value with the new state, or \<open>None\<close> where the C++ code
  dereferences a null pointer, leaves an array, or traps. \<open>isIntExpr\<close>, \<open>isRealExpr\<close>, \<open>isStringExpr\<close>
  say whether \<open>dynamic_cast\<close> to the interface of that name succeeds, that is whether the class
  derives from it; this differs from \<open>exprType\<close> for the classes that derive from several.
\<close>

section \<open>Expression objects\<close>

record 'v array_ops =
  arraySize :: "vm \<Rightarrow> vmint option"
  evalElement :: "vmuint \<Rightarrow> vm \<Rightarrow> 'v option"
  assignElement :: "vmuint \<Rightarrow> 'v \<Rightarrow> vm \<Rightarrow> vm option"
  unitFactorOfElement :: "vmuint \<Rightarrow> vm \<Rightarrow> vmfloat option"
  assignElementUnitFactor :: "vmuint \<Rightarrow> vmfloat \<Rightarrow> vm \<Rightarrow> vm option"

record rnode =
  exprType :: ExprType_t
  isConstExpr :: bool
  isPolyphonic :: bool
  isFinal :: bool
  unitType :: StdUnit_t
  isIntExpr :: bool
  isRealExpr :: bool
  isStringExpr :: bool
  evalInt :: "vmint eval"
  evalReal :: "vmfloat eval"
  evalStr :: "string eval"
  evalCastToStr :: "string eval"
  unitFactor :: "vm \<Rightarrow> vmfloat option"
  asIntArray :: "vmint array_ops option"
  asRealArray :: "vmfloat array_ops option"

text \<open>A variable is an expression that can also be assigned another expression.\<close>

record node = rnode +
  isVariable :: bool
  isAssignable :: bool
  assign :: "rnode \<Rightarrow> vm \<Rightarrow> vm option"

definition isNumberExpr :: "'a rnode_scheme \<Rightarrow> bool" where
  [vm_defs]: "isNumberExpr e = (isIntExpr e \<or> isRealExpr e)"

text \<open>\<open>asInt()->evalInt()\<close> and its like: a failed \<open>dynamic_cast\<close> gives a null pointer.\<close>

definition asInt_evalInt :: "'a rnode_scheme \<Rightarrow> vmint eval" where
  [vm_defs]: "asInt_evalInt e s = (if isIntExpr e then evalInt e s else None)"

definition asReal_evalReal :: "'a rnode_scheme \<Rightarrow> vmfloat eval" where
  [vm_defs]: "asReal_evalReal e s = (if isRealExpr e then evalReal e s else None)"

definition asNumber_unitFactor :: "'a rnode_scheme \<Rightarrow> vm \<Rightarrow> vmfloat option" where
  [vm_defs]: "asNumber_unitFactor e s = (if isNumberExpr e then unitFactor e s else None)"

definition isModifyable :: "node \<Rightarrow> bool" where
  "isModifyable e = (if isVariable e then isAssignable e else False)"

definition base_node :: node where
  "base_node = \<lparr>exprType = EMPTY_EXPR, isConstExpr = False, isPolyphonic = False, isFinal = False,
     unitType = VM_NO_UNIT, isIntExpr = False, isRealExpr = False, isStringExpr = False,
     evalInt = (\<lambda>s. None), evalReal = (\<lambda>s. None), evalStr = (\<lambda>s. None),
     evalCastToStr = (\<lambda>s. None), unitFactor = (\<lambda>s. None), asIntArray = None, asRealArray = None,
     isVariable = False, isAssignable = False, assign = (\<lambda>e s. None)\<rparr>"

section \<open>Units\<close>

definition convIntToUnitFactor :: "vmint \<Rightarrow> vmfloat \<Rightarrow> vmfloat \<Rightarrow> vmint" where
  "convIntToUnitFactor iValue srcFactor dstFactor =
     (let f = float_of_vmint iValue; factor = srcFactor / dstFactor in llroundf (f * factor))"

definition convRealToUnitFactor :: "vmfloat \<Rightarrow> vmfloat \<Rightarrow> vmfloat \<Rightarrow> vmfloat" where
  "convRealToUnitFactor fValue srcFactor dstFactor =
     (let factor = srcFactor / dstFactor in fValue * factor)"

definition unitFactorToShortStr :: "clib \<Rightarrow> vmfloat \<Rightarrow> string" where
  "unitFactorToShortStr L f =
     (let tens = cl_lround_log10 L f in
      if tens = 3 then ''k'' else if tens = 2 then ''h'' else if tens = 1 then ''da''
      else if tens = 0 then '''' else if tens = -1 then ''d'' else if tens = -2 then ''c''
      else if tens = -3 then ''m'' else if tens = -4 then ''md'' else if tens = -5 then ''mc''
      else if tens = -6 then ''u'' else ''*10^'' @ int_to_str tens)"

definition unitToStr :: "clib \<Rightarrow> StdUnit_t \<Rightarrow> vmfloat \<Rightarrow> string" where
  "unitToStr L type f =
     (let sType = (case type of VM_NO_UNIT \<Rightarrow> '''' | VM_SECOND \<Rightarrow> ''s'' | VM_HERTZ \<Rightarrow> ''Hz''
                               | VM_BEL \<Rightarrow> ''B'')
      in unitFactorToShortStr L f @ sType)"

definition evalIntToUnitFactor :: "'a rnode_scheme \<Rightarrow> vmfloat \<Rightarrow> vmint eval" where
  "evalIntToUnitFactor e uf s = do {
     (v, s) \<leftarrow> evalInt e s;
     this \<leftarrow> unitFactor e s;
     Some (llroundf (float_of_vmint v * (this / uf)), s) }"

definition evalRealToUnitFactor :: "'a rnode_scheme \<Rightarrow> vmfloat \<Rightarrow> vmfloat eval" where
  "evalRealToUnitFactor e uf s = do {
     (f, s) \<leftarrow> evalReal e s;
     this \<leftarrow> unitFactor e s;
     Some (f * (this / uf), s) }"

definition IntExpr_evalCastToStr ::
    "clib \<Rightarrow> vmint eval \<Rightarrow> (vm \<Rightarrow> vmfloat option) \<Rightarrow> StdUnit_t \<Rightarrow> string eval" where
  "IntExpr_evalCastToStr L ev uf ut s = do {
     (v, s) \<leftarrow> ev s;
     f \<leftarrow> uf s;
     Some (int_to_str (sint v) @ unitToStr L ut f, s) }"

definition RealExpr_evalCastToStr ::
    "clib \<Rightarrow> vmfloat eval \<Rightarrow> (vm \<Rightarrow> vmfloat option) \<Rightarrow> StdUnit_t \<Rightarrow> string eval" where
  "RealExpr_evalCastToStr L ev uf ut s = do {
     (v, s) \<leftarrow> ev s;
     f \<leftarrow> uf s;
     Some (cl_real_to_str L v @ unitToStr L ut f, s) }"

text \<open>The text of an array: the loop over the elements \<open>i\<close>, \<open>i + 1\<close>, up to the array's size.\<close>

fun array_str_loop :: "clib \<Rightarrow> ('v \<Rightarrow> string) \<Rightarrow> 'v array_ops \<Rightarrow> nat \<Rightarrow> nat \<Rightarrow> vm \<Rightarrow> string option" where
  "array_str_loop L show_v a i 0 s = Some ''''"
| "array_str_loop L show_v a i (Suc n) s = do {
     v \<leftarrow> evalElement a (of_nat i) s;
     factor \<leftarrow> unitFactorOfElement a (of_nat i) s;
     rest \<leftarrow> array_str_loop L show_v a (Suc i) n s;
     Some ((if i \<noteq> 0 then '','' else '''') @ show_v v @ unitFactorToShortStr L factor @ rest) }"

definition ArrayExpr_evalCastToStr :: "clib \<Rightarrow> ('v \<Rightarrow> string) \<Rightarrow> 'v array_ops \<Rightarrow> string eval" where
  "ArrayExpr_evalCastToStr L show_v a s = do {
     n \<leftarrow> arraySize a s;
     body \<leftarrow> array_str_loop L show_v a 0 (nat (sint n)) s;
     Some (''{'' @ body @ ''}'', s) }"

section \<open>Base classes\<close>

definition IntExpr_node ::
    "clib \<Rightarrow> vmint eval \<Rightarrow> (vm \<Rightarrow> vmfloat option) \<Rightarrow> StdUnit_t \<Rightarrow> node" where
  "IntExpr_node L ev uf ut = base_node\<lparr>exprType := INT_EXPR, isIntExpr := True, unitType := ut,
     evalInt := ev, unitFactor := uf, evalCastToStr := IntExpr_evalCastToStr L ev uf ut\<rparr>"

definition RealExpr_node ::
    "clib \<Rightarrow> vmfloat eval \<Rightarrow> (vm \<Rightarrow> vmfloat option) \<Rightarrow> StdUnit_t \<Rightarrow> node" where
  "RealExpr_node L ev uf ut = base_node\<lparr>exprType := REAL_EXPR, isRealExpr := True, unitType := ut,
     evalReal := ev, unitFactor := uf, evalCastToStr := RealExpr_evalCastToStr L ev uf ut\<rparr>"

definition StringExpr_node :: "string eval \<Rightarrow> node" where
  "StringExpr_node ev = base_node\<lparr>exprType := STRING_EXPR, isStringExpr := True,
     evalStr := ev, evalCastToStr := ev\<rparr>"

definition IntArrayExpr_node :: "clib \<Rightarrow> vmint array_ops \<Rightarrow> node" where
  "IntArrayExpr_node L a = base_node\<lparr>exprType := INT_ARR_EXPR, asIntArray := Some a,
     evalCastToStr := ArrayExpr_evalCastToStr L (\<lambda>v. int_to_str (sint v)) a\<rparr>"

definition RealArrayExpr_node :: "clib \<Rightarrow> vmfloat array_ops \<Rightarrow> node" where
  "RealArrayExpr_node L a = base_node\<lparr>exprType := REAL_ARR_EXPR, asRealArray := Some a,
     evalCastToStr := ArrayExpr_evalCastToStr L (cl_real_to_str L) a\<rparr>"

section \<open>Conversions of number expressions\<close>

definition evalCastInt :: "'a rnode_scheme \<Rightarrow> vmint eval" where
  "evalCastInt e s = (if exprType e = INT_EXPR then asInt_evalInt e s
     else do { (f, s) \<leftarrow> asReal_evalReal e s; Some (vmint_of_float f, s) })"

definition evalCastReal :: "'a rnode_scheme \<Rightarrow> vmfloat eval" where
  "evalCastReal e s = (if exprType e = REAL_EXPR then asReal_evalReal e s
     else do { (v, s) \<leftarrow> asInt_evalInt e s; Some (float_of_vmint v, s) })"

definition evalCastInt_prefix :: "'a rnode_scheme \<Rightarrow> MetricPrefix_t \<Rightarrow> vmint eval" where
  "evalCastInt_prefix e prefix s = do {
     (f, s) \<leftarrow> evalCastReal e s;
     u \<leftarrow> unitFactor e s;
     Some (vmint_of_float (f * (u / unitFactor_of_prefix prefix)), s) }"

definition evalCastInt_prefix2 ::
    "'a rnode_scheme \<Rightarrow> MetricPrefix_t \<Rightarrow> MetricPrefix_t \<Rightarrow> vmint eval" where
  "evalCastInt_prefix2 e prefix1 prefix2 s = do {
     (f, s) \<leftarrow> evalCastReal e s;
     u \<leftarrow> unitFactor e s;
     Some (vmint_of_float
       (f * (u / (unitFactor_of_prefix prefix1 * unitFactor_of_prefix prefix2))), s) }"

definition evalCastReal_prefix :: "'a rnode_scheme \<Rightarrow> MetricPrefix_t \<Rightarrow> vmfloat eval" where
  "evalCastReal_prefix e prefix s = do {
     (f, s) \<leftarrow> evalCastReal e s;
     u \<leftarrow> unitFactor e s;
     Some (f * (u / unitFactor_of_prefix prefix), s) }"

definition evalCastReal_prefix2 ::
    "'a rnode_scheme \<Rightarrow> MetricPrefix_t \<Rightarrow> MetricPrefix_t \<Rightarrow> vmfloat eval" where
  "evalCastReal_prefix2 e prefix1 prefix2 s = do {
     (f, s) \<leftarrow> evalCastReal e s;
     u \<leftarrow> unitFactor e s;
     Some (f * (u / (unitFactor_of_prefix prefix1 * unitFactor_of_prefix prefix2)), s) }"

definition evalInt_prefix :: "'a rnode_scheme \<Rightarrow> MetricPrefix_t \<Rightarrow> vmint eval" where
  "evalInt_prefix e prefix s = do {
     (v, s) \<leftarrow> evalInt e s;
     u \<leftarrow> unitFactor e s;
     Some (vmint_of_float (float_of_vmint v * (u / unitFactor_of_prefix prefix)), s) }"

definition evalInt_prefix2 ::
    "'a rnode_scheme \<Rightarrow> MetricPrefix_t \<Rightarrow> MetricPrefix_t \<Rightarrow> vmint eval" where
  "evalInt_prefix2 e prefix1 prefix2 s = do {
     (v, s) \<leftarrow> evalInt e s;
     u \<leftarrow> unitFactor e s;
     Some (vmint_of_float (float_of_vmint v *
       (u / (unitFactor_of_prefix prefix1 * unitFactor_of_prefix prefix2))), s) }"

definition evalReal_prefix :: "'a rnode_scheme \<Rightarrow> MetricPrefix_t \<Rightarrow> vmfloat eval" where
  "evalReal_prefix e prefix s = do {
     (f, s) \<leftarrow> evalReal e s;
     u \<leftarrow> unitFactor e s;
     Some (f * (u / unitFactor_of_prefix prefix), s) }"

definition evalReal_prefix2 ::
    "'a rnode_scheme \<Rightarrow> MetricPrefix_t \<Rightarrow> MetricPrefix_t \<Rightarrow> vmfloat eval" where
  "evalReal_prefix2 e prefix1 prefix2 s = do {
     (f, s) \<leftarrow> evalReal e s;
     u \<leftarrow> unitFactor e s;
     Some (f * (u / (unitFactor_of_prefix prefix1 * unitFactor_of_prefix prefix2)), s) }"

definition hasUnitFactorNow :: "'a rnode_scheme \<Rightarrow> vm \<Rightarrow> bool option" where
  "hasUnitFactorNow e s = do { u \<leftarrow> unitFactor e s; Some (\<not> feq u VM_NO_FACTOR) }"

end
