(* ===== verification/VMVariables.thy ===== *)
theory VMVariables
  imports VMExprs
begin

text \<open>
  The literal and variable classes of \<open>tree.h\<close> / \<open>tree.cpp\<close>: literals, global and polyphonic
  scalars, constants, built-in variables, arrays and array elements, strings, and the dynamic
  variables of \<open>CoreVMDynVars.cpp\<close>. A scalar lives in the global memory of the parser context or, when
  declared polyphonic, in the memory of the execution context (\<open>context->execContext\<close>, which
  \<open>ScriptVM::exec()\<close> sets before anything is evaluated).
\<close>

section \<open>Literals\<close>

definition IntLiteral_node :: "clib \<Rightarrow> vmint \<Rightarrow> vmfloat \<Rightarrow> StdUnit_t \<Rightarrow> bool \<Rightarrow> node" where
  "IntLiteral_node L val factor unit final =
     (IntExpr_node L (\<lambda>s. Some (val, s)) (\<lambda>s. Some factor) unit)
       \<lparr>isConstExpr := True, isPolyphonic := False, isFinal := final\<rparr>"

definition RealLiteral_node :: "clib \<Rightarrow> vmfloat \<Rightarrow> vmfloat \<Rightarrow> StdUnit_t \<Rightarrow> bool \<Rightarrow> node" where
  "RealLiteral_node L val factor unit final =
     (RealExpr_node L (\<lambda>s. Some (val, s)) (\<lambda>s. Some factor) unit)
       \<lparr>isConstExpr := True, isPolyphonic := False, isFinal := final\<rparr>"

definition StringLiteral_node :: "string \<Rightarrow> node" where
  "StringLiteral_node val =
     (StringExpr_node (\<lambda>s. Some (val, s)))\<lparr>isConstExpr := True, isPolyphonic := False\<rparr>"

section \<open>Scalar number variables\<close>

definition NumberVariable_unitFactor :: "VariableDecl \<Rightarrow> vm \<Rightarrow> vmfloat option" where
  "NumberVariable_unitFactor d s =
     (if vd_isPolyphonic d
      then nth_opt (polyphonicUnitFactorMemory (execCtx s)) (vd_unitFactorMemPos d)
      else nth_opt (globalUnitFactorMemory s) (vd_unitFactorMemPos d))"

definition NumberVariable_setUnitFactor :: "VariableDecl \<Rightarrow> vmfloat \<Rightarrow> vm \<Rightarrow> vm option" where
  "NumberVariable_setUnitFactor d f s =
     (if vd_isPolyphonic d
      then do { m \<leftarrow> upd_opt (polyphonicUnitFactorMemory (execCtx s)) (vd_unitFactorMemPos d) f;
                Some (s\<lparr>execCtx := (execCtx s)\<lparr>polyphonicUnitFactorMemory := m\<rparr>\<rparr>) }
      else do { m \<leftarrow> upd_opt (globalUnitFactorMemory s) (vd_unitFactorMemPos d) f;
                Some (s\<lparr>globalUnitFactorMemory := m\<rparr>) })"

definition IntVariable_store :: "VariableDecl \<Rightarrow> vmint \<Rightarrow> vm \<Rightarrow> vm option" where
  "IntVariable_store d v s =
     (if vd_isPolyphonic d
      then do { m \<leftarrow> upd_opt (polyphonicIntMemory (execCtx s)) (vd_memPos d) v;
                Some (s\<lparr>execCtx := (execCtx s)\<lparr>polyphonicIntMemory := m\<rparr>\<rparr>) }
      else do { m \<leftarrow> upd_opt (globalIntMemory s) (vd_memPos d) v;
                Some (s\<lparr>globalIntMemory := m\<rparr>) })"

definition IntVariable_assign :: "VariableDecl \<Rightarrow> rnode \<Rightarrow> vm \<Rightarrow> vm option" where
  "IntVariable_assign d e s =
     (if isIntExpr e
      then do { (v, s) \<leftarrow> evalInt e s;
                s \<leftarrow> IntVariable_store d v s;
                f \<leftarrow> unitFactor e s;
                NumberVariable_setUnitFactor d f s }
      else Some s)"

definition IntVariable_evalInt :: "VariableDecl \<Rightarrow> vmint eval" where
  "IntVariable_evalInt d s = do {
     v \<leftarrow> (if vd_isPolyphonic d then nth_opt (polyphonicIntMemory (execCtx s)) (vd_memPos d)
          else nth_opt (globalIntMemory s) (vd_memPos d));
     Some (v, s) }"

definition RealVariable_store :: "VariableDecl \<Rightarrow> vmfloat \<Rightarrow> vm \<Rightarrow> vm option" where
  "RealVariable_store d v s =
     (if vd_isPolyphonic d
      then do { m \<leftarrow> upd_opt (polyphonicRealMemory (execCtx s)) (vd_memPos d) v;
                Some (s\<lparr>execCtx := (execCtx s)\<lparr>polyphonicRealMemory := m\<rparr>\<rparr>) }
      else do { m \<leftarrow> upd_opt (globalRealMemory s) (vd_memPos d) v;
                Some (s\<lparr>globalRealMemory := m\<rparr>) })"

definition RealVariable_assign :: "VariableDecl \<Rightarrow> rnode \<Rightarrow> vm \<Rightarrow> vm option" where
  "RealVariable_assign d e s =
     (if isRealExpr e
      then do { (v, s) \<leftarrow> evalReal e s;
                s \<leftarrow> RealVariable_store d v s;
                f \<leftarrow> unitFactor e s;
                NumberVariable_setUnitFactor d f s }
      else Some s)"

definition RealVariable_evalReal :: "VariableDecl \<Rightarrow> vmfloat eval" where
  "RealVariable_evalReal d s = do {
     v \<leftarrow> (if vd_isPolyphonic d then nth_opt (polyphonicRealMemory (execCtx s)) (vd_memPos d)
          else nth_opt (globalRealMemory s) (vd_memPos d));
     Some (v, s) }"

definition IntVariable_node :: "clib \<Rightarrow> VariableDecl \<Rightarrow> node" where
  "IntVariable_node L d =
     (IntExpr_node L (IntVariable_evalInt d) (NumberVariable_unitFactor d) (vd_unitType d))
       \<lparr>isConstExpr := vd_isConst d, isPolyphonic := vd_isPolyphonic d, isFinal := vd_isFinal d,
        isVariable := True, isAssignable := \<not> vd_isConst d, assign := IntVariable_assign d\<rparr>"

definition RealVariable_node :: "clib \<Rightarrow> VariableDecl \<Rightarrow> node" where
  "RealVariable_node L d =
     (RealExpr_node L (RealVariable_evalReal d) (NumberVariable_unitFactor d) (vd_unitType d))
       \<lparr>isConstExpr := vd_isConst d, isPolyphonic := vd_isPolyphonic d, isFinal := vd_isFinal d,
        isVariable := True, isAssignable := \<not> vd_isConst d, assign := RealVariable_assign d\<rparr>"

definition ConstIntVariable_node :: "clib \<Rightarrow> vmint \<Rightarrow> vmfloat \<Rightarrow> StdUnit_t \<Rightarrow> bool \<Rightarrow> node" where
  "ConstIntVariable_node L val factor unit final =
     (IntExpr_node L (\<lambda>s. Some (val, s)) (\<lambda>s. Some factor) unit)
       \<lparr>isConstExpr := True, isPolyphonic := False, isFinal := final,
        isVariable := True, isAssignable := False, assign := (\<lambda>e s. Some s)\<rparr>"

definition ConstRealVariable_node :: "clib \<Rightarrow> vmfloat \<Rightarrow> vmfloat \<Rightarrow> StdUnit_t \<Rightarrow> bool \<Rightarrow> node" where
  "ConstRealVariable_node L val factor unit final =
     (RealExpr_node L (\<lambda>s. Some (val, s)) (\<lambda>s. Some factor) unit)
       \<lparr>isConstExpr := True, isPolyphonic := False, isFinal := final,
        isVariable := True, isAssignable := False, assign := (\<lambda>e s. Some s)\<rparr>"

section \<open>Built-in integer variables\<close>

text \<open>
  A \<open>VMIntPtr\<close> reads and writes an integer of 8, 16, 32 or 64 bit inside a C++ object, in the byte
  order of the machine (little endian). \<open>objectBytes\<close> holds the bytes of the objects.
\<close>

fun le_int :: "8 word list \<Rightarrow> int" where
  "le_int [] = 0"
| "le_int (b # bs) = uint b + 256 * le_int bs"

fun le_bytes :: "nat \<Rightarrow> int \<Rightarrow> 8 word list" where
  "le_bytes 0 k = []"
| "le_bytes (Suc n) k = word_of_int k # le_bytes n (k div 256)"

definition load_bytes :: "VMRelPtr \<Rightarrow> nat \<Rightarrow> vm \<Rightarrow> int option" where
  "load_bytes p n s = (let bs = objectBytes s (rp_base p) in
     if rp_offset p + n \<le> length bs then Some (le_int (take n (drop (rp_offset p) bs))) else None)"

definition store_bytes :: "VMRelPtr \<Rightarrow> nat \<Rightarrow> int \<Rightarrow> vm \<Rightarrow> vm option" where
  "store_bytes p n k s = (let bs = objectBytes s (rp_base p); off = rp_offset p in
     if off + n \<le> length bs
     then Some (s\<lparr>objectBytes := (objectBytes s)
            (rp_base p := take off bs @ le_bytes n k @ drop (off + n) bs)\<rparr>)
     else None)"

definition VMRelPtr_convert :: "VMRelPtr \<Rightarrow> VMRelPtr" where
  \<comment> \<open>the constructors \<open>VMInt64RelPtr(const VMRelPtr&)\<close> and its like\<close>
  "VMRelPtr_convert p = p\<lparr>rp_readonly := False\<rparr>"

fun VMIntPtr_evalInt :: "VMIntPtr \<Rightarrow> vm \<Rightarrow> vmint option" where
  "VMIntPtr_evalInt (VMInt64RelPtr p) s = map_option (\<lambda>k. word_of_int k) (load_bytes p 8 s)"
| "VMIntPtr_evalInt (VMInt32RelPtr p) s =
     map_option (\<lambda>k. word_of_int (sint (word_of_int k :: 32 word))) (load_bytes p 4 s)"
| "VMIntPtr_evalInt (VMInt16RelPtr p) s =
     map_option (\<lambda>k. word_of_int (sint (word_of_int k :: 16 word))) (load_bytes p 2 s)"
| "VMIntPtr_evalInt (VMInt8RelPtr p) s =
     map_option (\<lambda>k. word_of_int (uint (word_of_int k :: 8 word))) (load_bytes p 1 s)"

fun VMIntPtr_assign :: "VMIntPtr \<Rightarrow> vmint \<Rightarrow> vm \<Rightarrow> vm option" where
  "VMIntPtr_assign (VMInt64RelPtr p) i s = store_bytes p 8 (uint i) s"
| "VMIntPtr_assign (VMInt32RelPtr p) i s = store_bytes p 4 (uint i) s"
| "VMIntPtr_assign (VMInt16RelPtr p) i s = store_bytes p 2 (uint i) s"
| "VMIntPtr_assign (VMInt8RelPtr p) i s = store_bytes p 1 (uint i) s"

fun VMIntPtr_isAssignable :: "VMIntPtr \<Rightarrow> bool" where
  "VMIntPtr_isAssignable (VMInt64RelPtr p) = (\<not> rp_readonly p)"
| "VMIntPtr_isAssignable (VMInt32RelPtr p) = (\<not> rp_readonly p)"
| "VMIntPtr_isAssignable (VMInt16RelPtr p) = (\<not> rp_readonly p)"
| "VMIntPtr_isAssignable (VMInt8RelPtr p) = (\<not> rp_readonly p)"

definition BuiltInIntVariable_assign :: "VMIntPtr \<Rightarrow> rnode \<Rightarrow> vm \<Rightarrow> vm option" where
  "BuiltInIntVariable_assign ptr e s =
     (if \<not> isIntExpr e then Some s
      else do { (v, s) \<leftarrow> evalInt e s; VMIntPtr_assign ptr v s })"

definition BuiltInIntVariable_evalInt :: "VMIntPtr \<Rightarrow> vmint eval" where
  "BuiltInIntVariable_evalInt ptr s = do { v \<leftarrow> VMIntPtr_evalInt ptr s; Some (v, s) }"

definition BuiltInIntVariable_node :: "clib \<Rightarrow> VMIntPtr \<Rightarrow> node" where
  "BuiltInIntVariable_node L ptr =
     (IntExpr_node L (BuiltInIntVariable_evalInt ptr) (\<lambda>s. Some VM_NO_FACTOR) VM_NO_UNIT)
       \<lparr>isConstExpr := False, isPolyphonic := False, isFinal := False, isVariable := True,
        isAssignable := VMIntPtr_isAssignable ptr, assign := BuiltInIntVariable_assign ptr\<rparr>"

section \<open>Arrays\<close>

text \<open>
  An array variable owns its elements and their unit factors; \<open>a\<close> is the array's object. The index
  parameters are unsigned, so a negative \<open>vmint\<close> passed for one is a large number.
\<close>

definition IntArrayVariable_evalIntElement :: "nat \<Rightarrow> vmuint \<Rightarrow> vm \<Rightarrow> vmint option" where
  "IntArrayVariable_evalIntElement a i s = do {
     obj \<leftarrow> nth_opt (intArrays s) a;
     if length (ao_values obj) \<le> unat i then Some 0 else nth_opt (ao_values obj) (unat i) }"

definition IntArrayVariable_assignIntElement :: "nat \<Rightarrow> vmuint \<Rightarrow> vmint \<Rightarrow> vm \<Rightarrow> vm option" where
  "IntArrayVariable_assignIntElement a i v s = do {
     obj \<leftarrow> nth_opt (intArrays s) a;
     if length (ao_values obj) \<le> unat i then Some s
     else Some (s\<lparr>intArrays := (intArrays s)
                   [a := obj\<lparr>ao_values := (ao_values obj)[unat i := v]\<rparr>]\<rparr>) }"

definition IntArrayVariable_unitFactorOfElement :: "nat \<Rightarrow> vmuint \<Rightarrow> vm \<Rightarrow> vmfloat option" where
  "IntArrayVariable_unitFactorOfElement a i s = do {
     obj \<leftarrow> nth_opt (intArrays s) a;
     if length (ao_unitFactors obj) \<le> unat i then Some VM_NO_FACTOR
     else nth_opt (ao_unitFactors obj) (unat i) }"

definition IntArrayVariable_assignElementUnitFactor ::
    "nat \<Rightarrow> vmuint \<Rightarrow> vmfloat \<Rightarrow> vm \<Rightarrow> vm option" where
  "IntArrayVariable_assignElementUnitFactor a i f s = do {
     obj \<leftarrow> nth_opt (intArrays s) a;
     if length (ao_unitFactors obj) \<le> unat i then Some s
     else Some (s\<lparr>intArrays := (intArrays s)
                   [a := obj\<lparr>ao_unitFactors := (ao_unitFactors obj)[unat i := f]\<rparr>]\<rparr>) }"

definition IntArrayVariable_ops :: "nat \<Rightarrow> vmint array_ops" where
  "IntArrayVariable_ops a = \<lparr>
     arraySize = (\<lambda>s. do { obj \<leftarrow> nth_opt (intArrays s) a; Some (of_nat (length (ao_values obj))) }),
     evalElement = IntArrayVariable_evalIntElement a,
     assignElement = IntArrayVariable_assignIntElement a,
     unitFactorOfElement = IntArrayVariable_unitFactorOfElement a,
     assignElementUnitFactor = IntArrayVariable_assignElementUnitFactor a\<rparr>"

definition IntArrayVariable_node :: "clib \<Rightarrow> nat \<Rightarrow> bool \<Rightarrow> node" where
  "IntArrayVariable_node L a bConst = (IntArrayExpr_node L (IntArrayVariable_ops a))
     \<lparr>isConstExpr := bConst, isPolyphonic := False, isVariable := True,
      isAssignable := \<not> bConst, assign := (\<lambda>e s. Some s)\<rparr>"

definition RealArrayVariable_evalRealElement :: "nat \<Rightarrow> vmuint \<Rightarrow> vm \<Rightarrow> vmfloat option" where
  "RealArrayVariable_evalRealElement a i s = do {
     obj \<leftarrow> nth_opt (realArrays s) a;
     if length (ao_values obj) \<le> unat i then Some 0 else nth_opt (ao_values obj) (unat i) }"

definition RealArrayVariable_assignRealElement ::
    "nat \<Rightarrow> vmuint \<Rightarrow> vmfloat \<Rightarrow> vm \<Rightarrow> vm option" where
  "RealArrayVariable_assignRealElement a i v s = do {
     obj \<leftarrow> nth_opt (realArrays s) a;
     if length (ao_values obj) \<le> unat i then Some s
     else Some (s\<lparr>realArrays := (realArrays s)
                   [a := obj\<lparr>ao_values := (ao_values obj)[unat i := v]\<rparr>]\<rparr>) }"

definition RealArrayVariable_unitFactorOfElement :: "nat \<Rightarrow> vmuint \<Rightarrow> vm \<Rightarrow> vmfloat option" where
  "RealArrayVariable_unitFactorOfElement a i s = do {
     obj \<leftarrow> nth_opt (realArrays s) a;
     if length (ao_unitFactors obj) \<le> unat i then Some VM_NO_FACTOR
     else nth_opt (ao_unitFactors obj) (unat i) }"

definition RealArrayVariable_assignElementUnitFactor ::
    "nat \<Rightarrow> vmuint \<Rightarrow> vmfloat \<Rightarrow> vm \<Rightarrow> vm option" where
  "RealArrayVariable_assignElementUnitFactor a i f s = do {
     obj \<leftarrow> nth_opt (realArrays s) a;
     if length (ao_unitFactors obj) \<le> unat i then Some s
     else Some (s\<lparr>realArrays := (realArrays s)
                   [a := obj\<lparr>ao_unitFactors := (ao_unitFactors obj)[unat i := f]\<rparr>]\<rparr>) }"

definition RealArrayVariable_ops :: "nat \<Rightarrow> vmfloat array_ops" where
  "RealArrayVariable_ops a = \<lparr>
     arraySize = (\<lambda>s. do { obj \<leftarrow> nth_opt (realArrays s) a; Some (of_nat (length (ao_values obj))) }),
     evalElement = RealArrayVariable_evalRealElement a,
     assignElement = RealArrayVariable_assignRealElement a,
     unitFactorOfElement = RealArrayVariable_unitFactorOfElement a,
     assignElementUnitFactor = RealArrayVariable_assignElementUnitFactor a\<rparr>"

definition RealArrayVariable_node :: "clib \<Rightarrow> nat \<Rightarrow> bool \<Rightarrow> node" where
  "RealArrayVariable_node L a bConst = (RealArrayExpr_node L (RealArrayVariable_ops a))
     \<lparr>isConstExpr := bConst, isPolyphonic := False, isVariable := True,
      isAssignable := \<not> bConst, assign := (\<lambda>e s. Some s)\<rparr>"

text \<open>A built-in array stores its elements as \<open>int8_t\<close>.\<close>

definition BuiltInIntArrayVariable_evalIntElement :: "nat \<Rightarrow> vmuint \<Rightarrow> vm \<Rightarrow> vmint option" where
  "BuiltInIntArrayVariable_evalIntElement a i s = do {
     array \<leftarrow> nth_opt (int8Arrays s) a;
     if a8_size array \<le> i then Some 0
     else map_option (\<lambda>b. word_of_int (sint b)) (nth_opt (a8_data array) (unat i)) }"

definition BuiltInIntArrayVariable_assignIntElement ::
    "nat \<Rightarrow> vmuint \<Rightarrow> vmint \<Rightarrow> vm \<Rightarrow> vm option" where
  "BuiltInIntArrayVariable_assignIntElement a i v s = do {
     array \<leftarrow> nth_opt (int8Arrays s) a;
     if a8_size array \<le> i then Some s
     else do { d \<leftarrow> upd_opt (a8_data array) (unat i) (word_of_int (sint v));
               Some (s\<lparr>int8Arrays := (int8Arrays s)[a := array\<lparr>a8_data := d\<rparr>]\<rparr>) } }"

definition BuiltInIntArrayVariable_ops :: "nat \<Rightarrow> vmint array_ops" where
  "BuiltInIntArrayVariable_ops a = \<lparr>
     arraySize = (\<lambda>s. do { array \<leftarrow> nth_opt (int8Arrays s) a; Some (a8_size array) }),
     evalElement = BuiltInIntArrayVariable_evalIntElement a,
     assignElement = BuiltInIntArrayVariable_assignIntElement a,
     unitFactorOfElement = (\<lambda>i s. Some VM_NO_FACTOR),
     assignElementUnitFactor = (\<lambda>i f s. Some s)\<rparr>"

definition BuiltInIntArrayVariable_node :: "clib \<Rightarrow> nat \<Rightarrow> bool \<Rightarrow> node" where
  "BuiltInIntArrayVariable_node L a readonly = (IntArrayExpr_node L (BuiltInIntArrayVariable_ops a))
     \<lparr>isConstExpr := False, isPolyphonic := False, isVariable := True,
      isAssignable := \<not> readonly, assign := (\<lambda>e s. Some s)\<rparr>"

section \<open>Array elements\<close>

text \<open>
  An element object remembers the index it was last evaluated or assigned with, in \<open>currentIndex\<close>;
  \<open>n\<close> is the number of the object. The methods are the same for both element types, which the code
  writes twice; the type parameter stands for it.
\<close>

definition in_array :: "vmint \<Rightarrow> vmint \<Rightarrow> bool" where
  "in_array idx arr_size \<longleftrightarrow> \<not> (sint idx < 0 \<or> sint arr_size \<le> sint idx)"

definition ArrayElement_index :: "nat \<Rightarrow> node \<Rightarrow> vmint eval" where
  \<comment> \<open>\<open>vmint idx = currentIndex = index->evalInt()\<close>\<close>
  "ArrayElement_index n index s = do {
     (idx, s) \<leftarrow> evalInt index s;
     Some (idx, s\<lparr>currentIndex := (currentIndex s)(n := idx)\<rparr>) }"

definition ArrayElement_assign ::
    "nat \<Rightarrow> 'v array_ops option \<Rightarrow> node \<Rightarrow> 'v \<Rightarrow> vmfloat \<Rightarrow> vm \<Rightarrow> vm option" where
  "ArrayElement_assign n arr index v f s =
     (if \<not> isIntExpr index then Some s
      else do {
        (idx, s) \<leftarrow> ArrayElement_index n index s;
        a \<leftarrow> arr;
        arr_size \<leftarrow> arraySize a s;
        if \<not> in_array idx arr_size then Some s
        else do {
          s \<leftarrow> assignElement a idx v s;
          assignElementUnitFactor a idx f s } })"

definition ArrayElement_eval :: "nat \<Rightarrow> 'v::zero array_ops option \<Rightarrow> node \<Rightarrow> 'v eval" where
  "ArrayElement_eval n arr index s =
     (if \<not> isIntExpr index then Some (0, s)
      else do {
        (idx, s) \<leftarrow> ArrayElement_index n index s;
        a \<leftarrow> arr;
        arr_size \<leftarrow> arraySize a s;
        if \<not> in_array idx arr_size then Some (0, s)
        else do { v \<leftarrow> evalElement a idx s; Some (v, s) } })"

definition ArrayElement_unitFactor ::
    "nat \<Rightarrow> 'v array_ops option \<Rightarrow> node \<Rightarrow> vm \<Rightarrow> vmfloat option" where
  "ArrayElement_unitFactor n arr index s =
     (if \<not> isIntExpr index then Some VM_NO_FACTOR
      else do {
        a \<leftarrow> arr;
        arr_size \<leftarrow> arraySize a s;
        let idx = currentIndex s n in
        if \<not> in_array idx arr_size then Some 0
        else unitFactorOfElement a idx s })"

definition IntArrayElement_assign ::
    "nat \<Rightarrow> node \<Rightarrow> node \<Rightarrow> rnode \<Rightarrow> vm \<Rightarrow> vm option" where
  "IntArrayElement_assign n array index e s =
     (if \<not> isIntExpr e then Some s
      else do {
        (v, s) \<leftarrow> evalInt e s;
        f \<leftarrow> unitFactor e s;
        ArrayElement_assign n (asIntArray array) index v f s })"

definition RealArrayElement_assign ::
    "nat \<Rightarrow> node \<Rightarrow> node \<Rightarrow> rnode \<Rightarrow> vm \<Rightarrow> vm option" where
  "RealArrayElement_assign n array index e s =
     (if \<not> isRealExpr e then Some s
      else do {
        (v, s) \<leftarrow> evalReal e s;
        f \<leftarrow> unitFactor e s;
        ArrayElement_assign n (asRealArray array) index v f s })"

definition IntArrayElement_node :: "clib \<Rightarrow> nat \<Rightarrow> node \<Rightarrow> node \<Rightarrow> node" where
  "IntArrayElement_node L n array index =
     (let bConst = (if asIntArray array \<noteq> None then isConstExpr array else False) in
      (IntExpr_node L (ArrayElement_eval n (asIntArray array) index)
         (ArrayElement_unitFactor n (asIntArray array) index) VM_NO_UNIT)
        \<lparr>isConstExpr := bConst,
         isPolyphonic := (if asIntArray array \<noteq> None then isPolyphonic array else False),
         isFinal := False, isVariable := True, isAssignable := \<not> bConst,
         assign := IntArrayElement_assign n array index\<rparr>)"

definition RealArrayElement_node :: "clib \<Rightarrow> nat \<Rightarrow> node \<Rightarrow> node \<Rightarrow> node" where
  "RealArrayElement_node L n array index =
     (let bConst = (if asRealArray array \<noteq> None then isConstExpr array else False) in
      (RealExpr_node L (ArrayElement_eval n (asRealArray array) index)
         (ArrayElement_unitFactor n (asRealArray array) index) VM_NO_UNIT)
        \<lparr>isConstExpr := bConst,
         isPolyphonic := (if asRealArray array \<noteq> None then isPolyphonic array else False),
         isFinal := False, isVariable := True, isAssignable := \<not> bConst,
         assign := RealArrayElement_assign n array index\<rparr>)"

section \<open>Strings and dynamic variables\<close>

definition StringVariable_assign :: "nat \<Rightarrow> rnode \<Rightarrow> vm \<Rightarrow> vm option" where
  "StringVariable_assign memPos e s =
     (if isStringExpr e
      then do { (v, s) \<leftarrow> evalStr e s;
                m \<leftarrow> upd_opt (globalStrMemory s) memPos v;
                Some (s\<lparr>globalStrMemory := m\<rparr>) }
      else None)"

definition StringVariable_evalStr :: "nat \<Rightarrow> string eval" where
  "StringVariable_evalStr memPos s = do { v \<leftarrow> nth_opt (globalStrMemory s) memPos; Some (v, s) }"

definition StringVariable_node :: "nat \<Rightarrow> node" where
  "StringVariable_node memPos = (StringExpr_node (StringVariable_evalStr memPos))
     \<lparr>isConstExpr := False, isPolyphonic := False, isVariable := True, isAssignable := True,
      assign := StringVariable_assign memPos\<rparr>"

definition ConstStringVariable_node :: "string \<Rightarrow> node" where
  "ConstStringVariable_node val = (StringExpr_node (\<lambda>s. Some (val, s)))
     \<lparr>isConstExpr := True, isPolyphonic := False, isVariable := True, isAssignable := False,
      assign := (\<lambda>e s. Some s)\<rparr>"

text \<open>The timers of \<open>CoreVMDynVars.cpp\<close>: each evaluation takes the next reading of the clock.\<close>

fun CoreVMDynVar_evalInt :: "CoreDynVar \<Rightarrow> vmint eval" where
  "CoreVMDynVar_evalInt NKSP_REAL_TIMER s =
     Some (clockStream s (clockPos s), s\<lparr>clockPos := Suc (clockPos s)\<rparr>)"
| "CoreVMDynVar_evalInt NKSP_PERF_TIMER s =
     Some (clockStream s (clockPos s), s\<lparr>clockPos := Suc (clockPos s)\<rparr>)"

definition DynamicVariableCall_node :: "CoreDynVar \<Rightarrow> node" where
  "DynamicVariableCall_node v = base_node
     \<lparr>exprType := INT_EXPR, isConstExpr := False, isPolyphonic := False, isFinal := False,
      unitType := VM_NO_UNIT, isIntExpr := True, isStringExpr := True,
      evalInt := CoreVMDynVar_evalInt v, evalStr := (\<lambda>s. Some ('''', s)),
      evalCastToStr := (\<lambda>s. do { (i, s) \<leftarrow> CoreVMDynVar_evalInt v s; Some (int_to_str (sint i), s) }),
      unitFactor := (\<lambda>s. Some VM_NO_FACTOR), isVariable := True, isAssignable := False,
      assign := (\<lambda>e s. Some s)\<rparr>"

end
