(* ===== verification/VMOperators.thy ===== *)
theory VMOperators
  imports VMExprs "HOL-Library.Signed_Division"
begin

text \<open>
  The operator classes of \<open>tree.h\<close> / \<open>tree.cpp\<close>. \<open>Add\<close>, \<open>Sub\<close>, \<open>Mul\<close> and \<open>Div\<close> derive from both
  \<open>IntExpr\<close> and \<open>RealExpr\<close> (\<open>VaritypeScalarBinaryOp\<close>), as do \<open>Neg\<close> and \<open>Final\<close>; their \<open>exprType\<close>
  decides which of the two evaluations a caller asks for. Integers wrap around as the two's
  complement machine does; \<open>None\<close> is the result where the processor traps (division by zero and
  \<open>INT64_MIN / -1\<close>) or where a \<open>dynamic_cast\<close> result is used although it is null. Where C++ leaves
  the order in which two operands are evaluated open, the left one goes first.
\<close>

section \<open>Base classes\<close>

definition BinaryOp_node :: "node \<Rightarrow> node \<Rightarrow> node" where
  "BinaryOp_node lhs rhs = base_node
     \<lparr>isConstExpr := isConstExpr lhs \<and> isConstExpr rhs,
      isPolyphonic := isPolyphonic lhs \<or> isPolyphonic rhs\<rparr>"

definition NumberBinaryOp_isFinal :: "node \<Rightarrow> node \<Rightarrow> bool" where
  "NumberBinaryOp_isFinal l r \<longleftrightarrow> isFinal l \<or> isFinal r"

definition IntBinaryOp_node ::
    "clib \<Rightarrow> node \<Rightarrow> node \<Rightarrow> vmint eval \<Rightarrow> (vm \<Rightarrow> vmfloat option) \<Rightarrow> StdUnit_t \<Rightarrow> node" where
  "IntBinaryOp_node L lhs rhs ev uf ut = (BinaryOp_node lhs rhs)
     \<lparr>exprType := INT_EXPR, isFinal := NumberBinaryOp_isFinal lhs rhs, unitType := ut,
      isIntExpr := True, evalInt := ev, unitFactor := uf,
      evalCastToStr := IntExpr_evalCastToStr L ev uf ut\<rparr>"

definition VaritypeScalarBinaryOp_exprType :: "node \<Rightarrow> node \<Rightarrow> ExprType_t" where
  "VaritypeScalarBinaryOp_exprType lhs rhs =
     (if exprType lhs = REAL_EXPR \<or> exprType rhs = REAL_EXPR then REAL_EXPR else INT_EXPR)"

definition VaritypeScalarBinaryOp_evalCastToStr ::
    "clib \<Rightarrow> ExprType_t \<Rightarrow> vmint eval \<Rightarrow> vmfloat eval \<Rightarrow> (vm \<Rightarrow> vmfloat option) \<Rightarrow> StdUnit_t \<Rightarrow>
     string eval" where
  "VaritypeScalarBinaryOp_evalCastToStr L ty evi evr uf ut =
     (if ty = REAL_EXPR then RealExpr_evalCastToStr L evr uf ut
      else IntExpr_evalCastToStr L evi uf ut)"

definition VaritypeScalarBinaryOp_node ::
    "clib \<Rightarrow> node \<Rightarrow> node \<Rightarrow> vmint eval \<Rightarrow> vmfloat eval \<Rightarrow> (vm \<Rightarrow> vmfloat option) \<Rightarrow> StdUnit_t \<Rightarrow>
     node" where
  "VaritypeScalarBinaryOp_node L lhs rhs evi evr uf ut =
     (let ty = VaritypeScalarBinaryOp_exprType lhs rhs in
      (BinaryOp_node lhs rhs)
        \<lparr>exprType := ty, isFinal := NumberBinaryOp_isFinal lhs rhs, unitType := ut,
         isIntExpr := True, isRealExpr := True, evalInt := evi, evalReal := evr, unitFactor := uf,
         evalCastToStr := VaritypeScalarBinaryOp_evalCastToStr L ty evi evr uf ut\<rparr>)"

section \<open>Arithmetic\<close>

definition Add_evalInt :: "node \<Rightarrow> node \<Rightarrow> vmint eval" where
  "Add_evalInt lhs rhs s =
     (if \<not> isIntExpr lhs \<or> \<not> isIntExpr rhs then Some (0, s)
      else do {
        (lvalue, s) \<leftarrow> evalInt lhs s;
        (rvalue, s) \<leftarrow> evalInt rhs s;
        lf \<leftarrow> unitFactor lhs s;
        rf \<leftarrow> unitFactor rhs s;
        if feq lf rf then Some (lvalue + rvalue, s)
        else if flt lf rf then Some (lvalue + convIntToUnitFactor rvalue rf lf, s)
        else Some (convIntToUnitFactor lvalue lf rf + rvalue, s) })"

definition Add_evalReal :: "node \<Rightarrow> node \<Rightarrow> vmfloat eval" where
  "Add_evalReal lhs rhs s =
     (if \<not> isRealExpr lhs \<or> \<not> isRealExpr rhs then Some (0, s)
      else do {
        (lvalue, s) \<leftarrow> evalReal lhs s;
        (rvalue, s) \<leftarrow> evalReal rhs s;
        lf \<leftarrow> unitFactor lhs s;
        rf \<leftarrow> unitFactor rhs s;
        if feq lf rf then Some (lvalue + rvalue, s)
        else if flt lf rf then Some (lvalue + convRealToUnitFactor rvalue rf lf, s)
        else Some (convRealToUnitFactor lvalue lf rf + rvalue, s) })"

definition Add_unitFactor :: "node \<Rightarrow> node \<Rightarrow> vm \<Rightarrow> vmfloat option" where
  "Add_unitFactor lhs rhs s = do {
     lf \<leftarrow> asNumber_unitFactor lhs s;
     rf \<leftarrow> asNumber_unitFactor rhs s;
     Some (if flt lf rf then lf else rf) }"

definition Add_node :: "clib \<Rightarrow> node \<Rightarrow> node \<Rightarrow> node" where
  "Add_node L lhs rhs = VaritypeScalarBinaryOp_node L lhs rhs
     (Add_evalInt lhs rhs) (Add_evalReal lhs rhs) (Add_unitFactor lhs rhs) (unitType lhs)"

definition Sub_evalInt :: "node \<Rightarrow> node \<Rightarrow> vmint eval" where
  "Sub_evalInt lhs rhs s =
     (if \<not> isIntExpr lhs \<or> \<not> isIntExpr rhs then Some (0, s)
      else do {
        (lvalue, s) \<leftarrow> evalInt lhs s;
        (rvalue, s) \<leftarrow> evalInt rhs s;
        lf \<leftarrow> unitFactor lhs s;
        rf \<leftarrow> unitFactor rhs s;
        if feq lf rf then Some (lvalue - rvalue, s)
        else if flt lf rf then Some (lvalue - convIntToUnitFactor rvalue rf lf, s)
        else Some (convIntToUnitFactor lvalue lf rf - rvalue, s) })"

definition Sub_evalReal :: "node \<Rightarrow> node \<Rightarrow> vmfloat eval" where
  "Sub_evalReal lhs rhs s =
     (if \<not> isRealExpr lhs \<or> \<not> isRealExpr rhs then Some (0, s)
      else do {
        (lvalue, s) \<leftarrow> evalReal lhs s;
        (rvalue, s) \<leftarrow> evalReal rhs s;
        lf \<leftarrow> unitFactor lhs s;
        rf \<leftarrow> unitFactor rhs s;
        if feq lf rf then Some (lvalue - rvalue, s)
        else if flt lf rf then Some (lvalue - convRealToUnitFactor rvalue rf lf, s)
        else Some (convRealToUnitFactor lvalue lf rf - rvalue, s) })"

definition Sub_unitFactor :: "node \<Rightarrow> node \<Rightarrow> vm \<Rightarrow> vmfloat option" where
  "Sub_unitFactor lhs rhs s = do {
     lf \<leftarrow> asNumber_unitFactor lhs s;
     rf \<leftarrow> asNumber_unitFactor rhs s;
     Some (if flt lf rf then lf else rf) }"

definition Sub_node :: "clib \<Rightarrow> node \<Rightarrow> node \<Rightarrow> node" where
  "Sub_node L lhs rhs = VaritypeScalarBinaryOp_node L lhs rhs
     (Sub_evalInt lhs rhs) (Sub_evalReal lhs rhs) (Sub_unitFactor lhs rhs) (unitType lhs)"

definition Mul_evalInt :: "node \<Rightarrow> node \<Rightarrow> vmint eval" where
  "Mul_evalInt lhs rhs s =
     (if isIntExpr lhs \<and> isIntExpr rhs
      then do { (l, s) \<leftarrow> evalInt lhs s; (r, s) \<leftarrow> evalInt rhs s; Some (l * r, s) }
      else Some (0, s))"

definition Mul_evalReal :: "node \<Rightarrow> node \<Rightarrow> vmfloat eval" where
  "Mul_evalReal lhs rhs s =
     (if isRealExpr lhs \<and> isRealExpr rhs
      then do { (l, s) \<leftarrow> evalReal lhs s; (r, s) \<leftarrow> evalReal rhs s; Some (l * r, s) }
      else Some (0, s))"

definition Mul_unitFactor :: "node \<Rightarrow> node \<Rightarrow> vm \<Rightarrow> vmfloat option" where
  "Mul_unitFactor lhs rhs s = do {
     lf \<leftarrow> asNumber_unitFactor lhs s;
     rf \<leftarrow> asNumber_unitFactor rhs s;
     Some (lf * rf) }"

definition Mul_node :: "clib \<Rightarrow> node \<Rightarrow> node \<Rightarrow> node" where
  "Mul_node L lhs rhs = VaritypeScalarBinaryOp_node L lhs rhs
     (Mul_evalInt lhs rhs) (Mul_evalReal lhs rhs) (Mul_unitFactor lhs rhs)
     (if unitType lhs \<noteq> VM_NO_UNIT then unitType lhs else unitType rhs)"

text \<open>The machine's signed division instruction.\<close>

definition idiv64 :: "vmint \<Rightarrow> vmint \<Rightarrow> (vmint \<times> vmint) option" where
  "idiv64 l r =
     (let a = sint l; b = sint r in
      if b = 0 \<or> a sdiv b = 2 ^ 63 then None
      else Some (word_of_int (a sdiv b), word_of_int (a smod b)))"

definition Div_evalInt :: "node \<Rightarrow> node \<Rightarrow> vmint eval" where
  "Div_evalInt lhs rhs s =
     (if \<not> isIntExpr lhs \<or> \<not> isIntExpr rhs then Some (0, s)
      else do {
        (l, s) \<leftarrow> evalInt lhs s;
        (r, s) \<leftarrow> evalInt rhs s;
        if r = 0 then Some (0, s)
        else do { (q, _) \<leftarrow> idiv64 l r; Some (q, s) } })"

definition Div_evalReal :: "node \<Rightarrow> node \<Rightarrow> vmfloat eval" where
  "Div_evalReal lhs rhs s =
     (if \<not> isRealExpr lhs \<or> \<not> isRealExpr rhs then Some (0, s)
      else do {
        (l, s) \<leftarrow> evalReal lhs s;
        (r, s) \<leftarrow> evalReal rhs s;
        if feq r 0 then Some (0, s) else Some (l / r, s) })"

definition Div_unitFactor :: "node \<Rightarrow> node \<Rightarrow> vm \<Rightarrow> vmfloat option" where
  "Div_unitFactor lhs rhs s = do {
     lf \<leftarrow> asNumber_unitFactor lhs s;
     rf \<leftarrow> asNumber_unitFactor rhs s;
     Some (lf / rf) }"

definition Div_node :: "clib \<Rightarrow> node \<Rightarrow> node \<Rightarrow> node" where
  "Div_node L lhs rhs = VaritypeScalarBinaryOp_node L lhs rhs
     (Div_evalInt lhs rhs) (Div_evalReal lhs rhs) (Div_unitFactor lhs rhs)
     (if unitType lhs \<noteq> VM_NO_UNIT \<and> unitType rhs \<noteq> VM_NO_UNIT then VM_NO_UNIT
      else unitType lhs)"

definition Mod_evalInt :: "node \<Rightarrow> node \<Rightarrow> vmint eval" where
  "Mod_evalInt lhs rhs s =
     (if isIntExpr lhs \<and> isIntExpr rhs
      then do {
        (l, s) \<leftarrow> evalInt lhs s;
        (r, s) \<leftarrow> evalInt rhs s;
        (_, m) \<leftarrow> idiv64 l r;
        Some (m, s) }
      else Some (0, s))"

definition Mod_node :: "clib \<Rightarrow> node \<Rightarrow> node \<Rightarrow> node" where
  "Mod_node L lhs rhs =
     IntBinaryOp_node L lhs rhs (Mod_evalInt lhs rhs) (\<lambda>s. Some VM_NO_FACTOR) VM_NO_UNIT"

definition Neg_evalInt :: "node \<Rightarrow> vmint eval" where
  "Neg_evalInt e s = do { (v, s) \<leftarrow> asInt_evalInt e s; Some (- v, s) }"

definition Neg_evalReal :: "node \<Rightarrow> vmfloat eval" where
  "Neg_evalReal e s = do { (v, s) \<leftarrow> asReal_evalReal e s; Some (- v, s) }"

definition Neg_node :: "node \<Rightarrow> node" where
  "Neg_node e = base_node
     \<lparr>exprType := exprType e, isConstExpr := isConstExpr e, isPolyphonic := isPolyphonic e,
      isFinal := isFinal e, unitType := unitType e, isIntExpr := True, isRealExpr := True,
      evalInt := Neg_evalInt e, evalReal := Neg_evalReal e, unitFactor := unitFactor e,
      evalCastToStr := evalCastToStr e\<rparr>"

definition Final_evalCastToStr :: "clib \<Rightarrow> node \<Rightarrow> string eval" where
  "Final_evalCastToStr L e s =
     (if exprType e = REAL_EXPR
      then do { (v, s) \<leftarrow> asReal_evalReal e s; Some (cl_real_to_str L v, s) }
      else do { (v, s) \<leftarrow> asInt_evalInt e s; Some (int_to_str (sint v), s) })"

definition Final_node :: "clib \<Rightarrow> node \<Rightarrow> node" where
  "Final_node L e = base_node
     \<lparr>exprType := exprType e, isConstExpr := isConstExpr e, isPolyphonic := isPolyphonic e,
      isFinal := True, unitType := unitType e, isIntExpr := True, isRealExpr := True,
      evalInt := asInt_evalInt e, evalReal := asReal_evalReal e, unitFactor := unitFactor e,
      evalCastToStr := Final_evalCastToStr L e\<rparr>"

section \<open>Strings\<close>

definition ConcatString_evalStr :: "node \<Rightarrow> node \<Rightarrow> string eval" where
  "ConcatString_evalStr lhs rhs s = do {
     (l, s) \<leftarrow> evalCastToStr lhs s;
     (r, s) \<leftarrow> evalCastToStr rhs s;
     Some (l @ r, s) }"

definition ConcatString_node :: "node \<Rightarrow> node \<Rightarrow> node" where
  "ConcatString_node lhs rhs = (StringExpr_node (ConcatString_evalStr lhs rhs))
     \<lparr>isConstExpr := isConstExpr lhs \<and> isConstExpr rhs,
      isPolyphonic := isPolyphonic lhs \<or> isPolyphonic rhs\<rparr>"

section \<open>Relations\<close>

text \<open>
  The templates \<open>RelComparer\<close>, \<open>_evalRelation\<close>, \<open>_evalRealRelation\<close> are instantiated for each pair
  of operand types; a mixed comparison converts the integer to \<open>float\<close>, and only the instance for
  two real numbers tests equality with a tolerance.
\<close>

datatype rel_value = RVInt vmint | RVReal vmfloat

fun rv_real :: "rel_value \<Rightarrow> vmfloat" where
  "rv_real (RVInt i) = float_of_vmint i"
| "rv_real (RVReal f) = f"

fun RelComparer_isEqual :: "rel_value \<Rightarrow> rel_value \<Rightarrow> bool" where
  "RelComparer_isEqual (RVInt a) (RVInt b) = (a = b)"
| "RelComparer_isEqual (RVReal a) (RVReal b) = fEqual32 a b"
| "RelComparer_isEqual a b = feq (rv_real a) (rv_real b)"

fun rv_less :: "rel_value \<Rightarrow> rel_value \<Rightarrow> bool" where
  "rv_less (RVInt a) (RVInt b) = (sint a < sint b)"
| "rv_less a b = flt (rv_real a) (rv_real b)"

fun rv_less_eq :: "rel_value \<Rightarrow> rel_value \<Rightarrow> bool" where
  "rv_less_eq (RVInt a) (RVInt b) = (sint a \<le> sint b)"
| "rv_less_eq a b = fle (rv_real a) (rv_real b)"

fun evalRelation :: "RelationType \<Rightarrow> rel_value \<Rightarrow> rel_value \<Rightarrow> bool" where
  "evalRelation LESS_THAN lhs rhs = rv_less lhs rhs"
| "evalRelation GREATER_THAN lhs rhs = rv_less rhs lhs"
| "evalRelation LESS_OR_EQUAL lhs rhs = rv_less_eq lhs rhs"
| "evalRelation GREATER_OR_EQUAL lhs rhs = rv_less_eq rhs lhs"
| "evalRelation EQUAL lhs rhs = RelComparer_isEqual lhs rhs"
| "evalRelation NOT_EQUAL lhs rhs = (\<not> RelComparer_isEqual lhs rhs)"

definition evalRealRelation ::
    "RelationType \<Rightarrow> rel_value \<Rightarrow> rel_value \<Rightarrow> vmfloat \<Rightarrow> vmfloat \<Rightarrow> bool" where
  "evalRealRelation type lvalue rvalue lf rf =
     (if feq lf rf then evalRelation type lvalue rvalue
      else if flt lf rf
      then evalRelation type lvalue (RVReal (convRealToUnitFactor (rv_real rvalue) rf lf))
      else evalRelation type (RVReal (convRealToUnitFactor (rv_real lvalue) lf rf)) rvalue)"

definition evalIntRelation ::
    "RelationType \<Rightarrow> vmint \<Rightarrow> vmint \<Rightarrow> vmfloat \<Rightarrow> vmfloat \<Rightarrow> bool" where
  "evalIntRelation type lvalue rvalue lf rf =
     (if feq lf rf then evalRelation type (RVInt lvalue) (RVInt rvalue)
      else if flt lf rf
      then evalRelation type (RVInt lvalue) (RVInt (convIntToUnitFactor rvalue rf lf))
      else evalRelation type (RVInt (convIntToUnitFactor lvalue lf rf)) (RVInt rvalue))"

definition vmint_of_bool :: "bool \<Rightarrow> vmint" where
  "vmint_of_bool b = (if b then 1 else 0)"

definition Relation_strings :: "RelationType \<Rightarrow> node \<Rightarrow> node \<Rightarrow> vmint eval" where
  "Relation_strings type lhs rhs s =
     (if type = EQUAL \<or> type = NOT_EQUAL
      then do {
        (l, s) \<leftarrow> evalCastToStr lhs s;
        (r, s) \<leftarrow> evalCastToStr rhs s;
        Some (vmint_of_bool (if type = EQUAL then l = r else l \<noteq> r), s) }
      else Some (0, s))"

definition Relation_evalInt :: "RelationType \<Rightarrow> node \<Rightarrow> node \<Rightarrow> vmint eval" where
  "Relation_evalInt type lhs rhs s =
     (let lType = exprType lhs; rType = exprType rhs in
      if lType = STRING_EXPR \<or> rType = STRING_EXPR then Relation_strings type lhs rhs s
      else if lType = REAL_EXPR \<and> rType = REAL_EXPR then do {
        (l, s) \<leftarrow> asReal_evalReal lhs s;
        (r, s) \<leftarrow> asReal_evalReal rhs s;
        lf \<leftarrow> unitFactor lhs s;
        rf \<leftarrow> unitFactor rhs s;
        Some (vmint_of_bool (evalRealRelation type (RVReal l) (RVReal r) lf rf), s) }
      else if lType = REAL_EXPR \<and> rType = INT_EXPR then do {
        (l, s) \<leftarrow> asReal_evalReal lhs s;
        (r, s) \<leftarrow> asInt_evalInt rhs s;
        lf \<leftarrow> unitFactor lhs s;
        rf \<leftarrow> unitFactor rhs s;
        Some (vmint_of_bool (evalRealRelation type (RVReal l) (RVInt r) lf rf), s) }
      else if lType = INT_EXPR \<and> rType = REAL_EXPR then do {
        (l, s) \<leftarrow> asInt_evalInt lhs s;
        (r, s) \<leftarrow> asReal_evalReal rhs s;
        lf \<leftarrow> unitFactor lhs s;
        rf \<leftarrow> unitFactor rhs s;
        Some (vmint_of_bool (evalRealRelation type (RVInt l) (RVReal r) lf rf), s) }
      else do {
        (l, s) \<leftarrow> asInt_evalInt lhs s;
        (r, s) \<leftarrow> asInt_evalInt rhs s;
        lf \<leftarrow> unitFactor lhs s;
        rf \<leftarrow> unitFactor rhs s;
        Some (vmint_of_bool (evalIntRelation type l r lf rf), s) })"

definition Relation_node :: "clib \<Rightarrow> node \<Rightarrow> RelationType \<Rightarrow> node \<Rightarrow> node" where
  "Relation_node L lhs type rhs =
     (IntExpr_node L (Relation_evalInt type lhs rhs) (\<lambda>s. Some VM_NO_FACTOR) VM_NO_UNIT)
       \<lparr>isConstExpr := isConstExpr lhs \<and> isConstExpr rhs,
        isPolyphonic := isPolyphonic lhs \<or> isPolyphonic rhs, isFinal := False\<rparr>"

section \<open>Logic and bits\<close>

definition Or_evalInt :: "node \<Rightarrow> node \<Rightarrow> vmint eval" where
  "Or_evalInt lhs rhs s = do {
     (l, s) \<leftarrow> asInt_evalInt lhs s;
     if l \<noteq> 0 then Some (1, s)
     else do {
       (r, s) \<leftarrow> asInt_evalInt rhs s;
       Some (if r \<noteq> 0 then 1 else 0, s) } }"

definition Or_node :: "clib \<Rightarrow> node \<Rightarrow> node \<Rightarrow> node" where
  "Or_node L lhs rhs =
     IntBinaryOp_node L lhs rhs (Or_evalInt lhs rhs) (\<lambda>s. Some VM_NO_FACTOR) VM_NO_UNIT"

definition And_evalInt :: "node \<Rightarrow> node \<Rightarrow> vmint eval" where
  "And_evalInt lhs rhs s = do {
     (l, s) \<leftarrow> asInt_evalInt lhs s;
     if l = 0 then Some (0, s)
     else do {
       (r, s) \<leftarrow> asInt_evalInt rhs s;
       Some (if r \<noteq> 0 then 1 else 0, s) } }"

definition And_node :: "clib \<Rightarrow> node \<Rightarrow> node \<Rightarrow> node" where
  "And_node L lhs rhs =
     IntBinaryOp_node L lhs rhs (And_evalInt lhs rhs) (\<lambda>s. Some VM_NO_FACTOR) VM_NO_UNIT"

definition BitwiseOr_evalInt :: "node \<Rightarrow> node \<Rightarrow> vmint eval" where
  "BitwiseOr_evalInt lhs rhs s = do {
     (l, s) \<leftarrow> asInt_evalInt lhs s;
     (r, s) \<leftarrow> asInt_evalInt rhs s;
     Some (l OR r, s) }"

definition BitwiseOr_node :: "clib \<Rightarrow> node \<Rightarrow> node \<Rightarrow> node" where
  "BitwiseOr_node L lhs rhs =
     IntBinaryOp_node L lhs rhs (BitwiseOr_evalInt lhs rhs) (\<lambda>s. Some VM_NO_FACTOR) VM_NO_UNIT"

definition BitwiseAnd_evalInt :: "node \<Rightarrow> node \<Rightarrow> vmint eval" where
  "BitwiseAnd_evalInt lhs rhs s = do {
     (l, s) \<leftarrow> asInt_evalInt lhs s;
     (r, s) \<leftarrow> asInt_evalInt rhs s;
     Some (l AND r, s) }"

definition BitwiseAnd_node :: "clib \<Rightarrow> node \<Rightarrow> node \<Rightarrow> node" where
  "BitwiseAnd_node L lhs rhs =
     IntBinaryOp_node L lhs rhs (BitwiseAnd_evalInt lhs rhs) (\<lambda>s. Some VM_NO_FACTOR) VM_NO_UNIT"

definition Not_evalInt :: "node \<Rightarrow> vmint eval" where
  "Not_evalInt e s = do { (v, s) \<leftarrow> asInt_evalInt e s; Some (if v = 0 then 1 else 0, s) }"

definition Not_node :: "clib \<Rightarrow> node \<Rightarrow> node" where
  "Not_node L e =
     (IntExpr_node L (Not_evalInt e) (\<lambda>s. Some VM_NO_FACTOR) VM_NO_UNIT)
       \<lparr>isConstExpr := isConstExpr e, isPolyphonic := isPolyphonic e, isFinal := isFinal e\<rparr>"

definition BitwiseNot_evalInt :: "node \<Rightarrow> vmint eval" where
  "BitwiseNot_evalInt e s = do { (v, s) \<leftarrow> asInt_evalInt e s; Some (NOT v, s) }"

definition BitwiseNot_node :: "clib \<Rightarrow> node \<Rightarrow> node" where
  "BitwiseNot_node L e =
     (IntExpr_node L (BitwiseNot_evalInt e) (\<lambda>s. Some VM_NO_FACTOR) VM_NO_UNIT)
       \<lparr>isConstExpr := isConstExpr e, isPolyphonic := isPolyphonic e, isFinal := isFinal e\<rparr>"

end
