(* ===== verification/VMFunctions.thy ===== *)
theory VMFunctions
  imports VMExprs
begin

text \<open>
  The interface of built-in functions (\<open>VMFunction\<close> in \<open>common.h\<close> / \<open>common.cpp\<close>) and the base classes
  of \<open>CoreVMFunctions.h\<close> / \<open>CoreVMFunctions.cpp\<close> that store a function's return value. A return value
  is an object (\<open>VMEmptyResult\<close>, \<open>VMIntResult\<close>, ...) owned by the \<open>FunctionCall\<close> that made the call;
  it is found in \<open>fnResult\<close> under the number of that call. A function object has a pointer to the
  result object it writes into, \<open>boundResult\<close>, which the caller binds before the call and restores
  after it. Writing through a pointer that is null, because nothing is bound or because the bound
  object is of another class, yields \<open>None\<close>. \<open>VMNumberResultFunction\<close> keeps two pointers of which at
  most one is not null; the class of the bound object says which.
\<close>

datatype ArgIssue = ArgErr string | ArgWrn string

record VMFunction =
  minRequiredArgs :: nat
  maxAllowedArgs :: "vm \<Rightarrow> nat"
  acceptsArgType :: "vm \<Rightarrow> nat \<Rightarrow> ExprType_t \<Rightarrow> bool"
  acceptsArgUnitType :: "vm \<Rightarrow> nat \<Rightarrow> StdUnit_t \<Rightarrow> bool"
  acceptsArgUnitPrefix :: "vm \<Rightarrow> nat \<Rightarrow> StdUnit_t \<Rightarrow> bool"
  acceptsArgFinal :: "vm \<Rightarrow> nat \<Rightarrow> bool"
  modifiesArg :: "nat \<Rightarrow> bool"
  returnType :: "node list \<Rightarrow> ExprType_t option"
  returnUnitType :: "node list \<Rightarrow> StdUnit_t option"
  returnsFinal :: "node list \<Rightarrow> bool option"
  allocResult :: "node list \<Rightarrow> VMFnResult option"
  bindResult :: "nat option \<Rightarrow> vm \<Rightarrow> vm"
  checkArgs :: "node list \<Rightarrow> vm \<Rightarrow> ArgIssue list option"
  fn_exec :: "node list \<Rightarrow> vm \<Rightarrow> (nat \<times> vm) option"

section \<open>Arguments\<close>

text \<open>\<open>Args::arg\<close> is a null pointer out of range; the uses below dereference it.\<close>

definition arg_asNumber :: "node list \<Rightarrow> nat \<Rightarrow> node option" where
  "arg_asNumber args i = do { e \<leftarrow> nth_opt args i; if isNumberExpr e then Some e else None }"

definition arg_asInt :: "node list \<Rightarrow> nat \<Rightarrow> node option" where
  "arg_asInt args i = do { e \<leftarrow> nth_opt args i; if isIntExpr e then Some e else None }"

definition arg_asReal :: "node list \<Rightarrow> nat \<Rightarrow> node option" where
  "arg_asReal args i = do { e \<leftarrow> nth_opt args i; if isRealExpr e then Some e else None }"

definition arg_unitType :: "node list \<Rightarrow> nat \<Rightarrow> StdUnit_t option" where
  "arg_unitType args i = map_option unitType (arg_asNumber args i)"

definition arg_isFinal :: "node list \<Rightarrow> nat \<Rightarrow> bool option" where
  "arg_isFinal args i = map_option isFinal (arg_asNumber args i)"

definition arg_exprType :: "node list \<Rightarrow> nat \<Rightarrow> ExprType_t option" where
  "arg_exprType args i = map_option exprType (nth_opt args i)"

definition asArray_arraySize :: "node \<Rightarrow> vm \<Rightarrow> vmint option" where
  "asArray_arraySize e s = (case asIntArray e of Some a \<Rightarrow> arraySize a s
     | None \<Rightarrow> (case asRealArray e of Some a \<Rightarrow> arraySize a s | None \<Rightarrow> None))"

section \<open>Result objects\<close>

definition new_VMEmptyResult :: VMFnResult where
  "new_VMEmptyResult = VMEmptyResult STMT_SUCCESS"

definition new_VMIntResult :: VMFnResult where
  "new_VMIntResult = VMIntResult STMT_SUCCESS 0 VM_NO_FACTOR VM_NO_UNIT"

definition new_VMRealResult :: VMFnResult where
  "new_VMRealResult = VMRealResult STMT_SUCCESS 0 VM_NO_FACTOR VM_NO_UNIT"

definition new_VMStringResult :: VMFnResult where
  "new_VMStringResult = VMStringResult STMT_SUCCESS ''''"

fun VMFnResult_exprType :: "VMFnResult \<Rightarrow> ExprType_t" where
  "VMFnResult_exprType (VMEmptyResult _) = EMPTY_EXPR"
| "VMFnResult_exprType (VMIntResult _ _ _ _) = INT_EXPR"
| "VMFnResult_exprType (VMRealResult _ _ _ _) = REAL_EXPR"
| "VMFnResult_exprType (VMStringResult _ _) = STRING_EXPR"

fun VMFnResult_resultFlags :: "VMFnResult \<Rightarrow> StmtFlags_t" where
  "VMFnResult_resultFlags (VMEmptyResult f) = f"
| "VMFnResult_resultFlags (VMIntResult f _ _ _) = f"
| "VMFnResult_resultFlags (VMRealResult f _ _ _) = f"
| "VMFnResult_resultFlags (VMStringResult f _) = f"

definition rebind :: "CoreFn \<Rightarrow> (VMFnResult \<Rightarrow> bool) \<Rightarrow> nat option \<Rightarrow> vm \<Rightarrow> vm" where
  \<comment> \<open>\<open>result = dynamic_cast<...>(res)\<close>\<close>
  "rebind fn is_class res s = s\<lparr>boundResult := (boundResult s)(fn :=
     (case res of None \<Rightarrow> None
      | Some n \<Rightarrow> (case fnResult s n of Some r \<Rightarrow> if is_class r then Some n else None
                  | None \<Rightarrow> None)))\<rparr>"

definition put_result ::
    "CoreFn \<Rightarrow> (VMFnResult \<Rightarrow> VMFnResult option) \<Rightarrow> vm \<Rightarrow> (nat \<times> vm) option" where
  "put_result fn f s = do {
     n \<leftarrow> boundResult s fn;
     r \<leftarrow> fnResult s n;
     r \<leftarrow> f r;
     Some (n, s\<lparr>fnResult := (fnResult s)(n \<mapsto> r)\<rparr>) }"

fun is_VMEmptyResult :: "VMFnResult \<Rightarrow> bool" where
  "is_VMEmptyResult (VMEmptyResult _) = True"
| "is_VMEmptyResult _ = False"

fun is_VMIntResult :: "VMFnResult \<Rightarrow> bool" where
  "is_VMIntResult (VMIntResult _ _ _ _) = True"
| "is_VMIntResult _ = False"

fun is_VMRealResult :: "VMFnResult \<Rightarrow> bool" where
  "is_VMRealResult (VMRealResult _ _ _ _) = True"
| "is_VMRealResult _ = False"

fun is_VMStringResult :: "VMFnResult \<Rightarrow> bool" where
  "is_VMStringResult (VMStringResult _ _) = True"
| "is_VMStringResult _ = False"

definition put_empty :: "CoreFn \<Rightarrow> StmtFlags_t \<Rightarrow> vm \<Rightarrow> (nat \<times> vm) option" where
  "put_empty fn fl =
     put_result fn (\<lambda>r. if is_VMEmptyResult r then Some (VMEmptyResult fl) else None)"

definition put_int :: "CoreFn \<Rightarrow> StmtFlags_t \<Rightarrow> vmint \<Rightarrow> vmfloat \<Rightarrow> vm \<Rightarrow> (nat \<times> vm) option" where
  "put_int fn fl v uf =
     put_result fn (\<lambda>r. if is_VMIntResult r then Some (VMIntResult fl v uf VM_NO_UNIT) else None)"

definition put_real :: "CoreFn \<Rightarrow> StmtFlags_t \<Rightarrow> vmfloat \<Rightarrow> vmfloat \<Rightarrow> vm \<Rightarrow> (nat \<times> vm) option" where
  "put_real fn fl v uf =
     put_result fn (\<lambda>r. if is_VMRealResult r then Some (VMRealResult fl v uf VM_NO_UNIT) else None)"

definition put_string :: "CoreFn \<Rightarrow> StmtFlags_t \<Rightarrow> string \<Rightarrow> vm \<Rightarrow> (nat \<times> vm) option" where
  "put_string fn fl v =
     put_result fn (\<lambda>r. if is_VMStringResult r then Some (VMStringResult fl v) else None)"

section \<open>The result function classes\<close>

abbreviation error_flags :: StmtFlags_t where
  "error_flags \<equiv> STMT_ABORT_SIGNALLED OR STMT_ERROR_OCCURRED"

definition VMEmptyResultFunction_bindResult :: "CoreFn \<Rightarrow> nat option \<Rightarrow> vm \<Rightarrow> vm" where
  "VMEmptyResultFunction_bindResult fn = rebind fn is_VMEmptyResult"

definition VMEmptyResultFunction_errorResult :: "CoreFn \<Rightarrow> vm \<Rightarrow> (nat \<times> vm) option" where
  "VMEmptyResultFunction_errorResult fn = put_empty fn error_flags"

definition VMEmptyResultFunction_successResult :: "CoreFn \<Rightarrow> vm \<Rightarrow> (nat \<times> vm) option" where
  "VMEmptyResultFunction_successResult fn = put_empty fn STMT_SUCCESS"

definition VMIntResultFunction_bindResult :: "CoreFn \<Rightarrow> nat option \<Rightarrow> vm \<Rightarrow> vm" where
  "VMIntResultFunction_bindResult fn = rebind fn is_VMIntResult"

definition VMIntResultFunction_errorResult :: "CoreFn \<Rightarrow> vmint \<Rightarrow> vm \<Rightarrow> (nat \<times> vm) option" where
  "VMIntResultFunction_errorResult fn i = put_int fn error_flags i VM_NO_FACTOR"

definition VMIntResultFunction_successResult :: "CoreFn \<Rightarrow> vmint \<Rightarrow> vm \<Rightarrow> (nat \<times> vm) option" where
  "VMIntResultFunction_successResult fn i = put_int fn STMT_SUCCESS i VM_NO_FACTOR"

definition VMIntResultFunction_errorResultDef ::
    "CoreFn \<Rightarrow> vmint \<Rightarrow> vmfloat \<Rightarrow> vm \<Rightarrow> (nat \<times> vm) option" where
  "VMIntResultFunction_errorResultDef fn i uf = put_int fn error_flags i uf"

definition VMIntResultFunction_successResultDef ::
    "CoreFn \<Rightarrow> vmint \<Rightarrow> vmfloat \<Rightarrow> vm \<Rightarrow> (nat \<times> vm) option" where
  "VMIntResultFunction_successResultDef fn i uf = put_int fn STMT_SUCCESS i uf"

definition VMRealResultFunction_bindResult :: "CoreFn \<Rightarrow> nat option \<Rightarrow> vm \<Rightarrow> vm" where
  "VMRealResultFunction_bindResult fn = rebind fn is_VMRealResult"

definition VMRealResultFunction_errorResult :: "CoreFn \<Rightarrow> vmfloat \<Rightarrow> vm \<Rightarrow> (nat \<times> vm) option" where
  "VMRealResultFunction_errorResult fn f = put_real fn error_flags f VM_NO_FACTOR"

definition VMRealResultFunction_errorResultDef ::
    "CoreFn \<Rightarrow> vmfloat \<Rightarrow> vmfloat \<Rightarrow> vm \<Rightarrow> (nat \<times> vm) option" where
  "VMRealResultFunction_errorResultDef fn f uf = put_real fn error_flags f uf"

definition VMRealResultFunction_successResult :: "CoreFn \<Rightarrow> vmfloat \<Rightarrow> vm \<Rightarrow> (nat \<times> vm) option" where
  "VMRealResultFunction_successResult fn f = put_real fn STMT_SUCCESS f VM_NO_FACTOR"

definition VMRealResultFunction_successResultDef ::
    "CoreFn \<Rightarrow> vmfloat \<Rightarrow> vmfloat \<Rightarrow> vm \<Rightarrow> (nat \<times> vm) option" where
  "VMRealResultFunction_successResultDef fn f uf = put_real fn STMT_SUCCESS f uf"

definition VMStringResultFunction_bindResult :: "CoreFn \<Rightarrow> nat option \<Rightarrow> vm \<Rightarrow> vm" where
  "VMStringResultFunction_bindResult fn = rebind fn is_VMStringResult"

definition VMStringResultFunction_errorResult :: "CoreFn \<Rightarrow> string \<Rightarrow> vm \<Rightarrow> (nat \<times> vm) option" where
  "VMStringResultFunction_errorResult fn t = put_string fn error_flags t"

definition VMStringResultFunction_successResult :: "CoreFn \<Rightarrow> string \<Rightarrow> vm \<Rightarrow> (nat \<times> vm) option" where
  "VMStringResultFunction_successResult fn t = put_string fn STMT_SUCCESS t"

definition VMNumberResultFunction_allocResult ::
    "(node list \<Rightarrow> ExprType_t option) \<Rightarrow> node list \<Rightarrow> VMFnResult option" where
  "VMNumberResultFunction_allocResult rt args = do {
     type \<leftarrow> rt args;
     if type = INT_EXPR then Some new_VMIntResult
     else if type = REAL_EXPR then Some new_VMRealResult
     else None }"

definition VMNumberResultFunction_bindResult :: "CoreFn \<Rightarrow> nat option \<Rightarrow> vm \<Rightarrow> vm" where
  "VMNumberResultFunction_bindResult fn = rebind fn (\<lambda>r. is_VMIntResult r \<or> is_VMRealResult r)"

definition VMNumberResultFunction_errorResult_int :: "CoreFn \<Rightarrow> vmint \<Rightarrow> vm \<Rightarrow> (nat \<times> vm) option" where
  "VMNumberResultFunction_errorResult_int fn i = put_int fn error_flags i VM_NO_FACTOR"

text \<open>
  The overload for real numbers sets the unit type of \<open>intResult\<close>, which is null whenever
  \<open>realResult\<close> is not.
\<close>

definition VMNumberResultFunction_errorResult_real :: "CoreFn \<Rightarrow> vmfloat \<Rightarrow> vm \<Rightarrow> (nat \<times> vm) option" where
  "VMNumberResultFunction_errorResult_real fn f s = do {
     (n, s) \<leftarrow> put_real fn error_flags f VM_NO_FACTOR s;
     put_result fn (\<lambda>r. if is_VMIntResult r then Some r else None) s }"

definition VMNumberResultFunction_successResult_int :: "CoreFn \<Rightarrow> vmint \<Rightarrow> vm \<Rightarrow> (nat \<times> vm) option" where
  "VMNumberResultFunction_successResult_int fn i = put_int fn STMT_SUCCESS i VM_NO_FACTOR"

definition VMNumberResultFunction_successResult_real ::
    "CoreFn \<Rightarrow> vmfloat \<Rightarrow> vm \<Rightarrow> (nat \<times> vm) option" where
  "VMNumberResultFunction_successResult_real fn f = put_real fn STMT_SUCCESS f VM_NO_FACTOR"

definition VMNumberResultFunction_errorIntResult ::
    "CoreFn \<Rightarrow> vmint \<Rightarrow> vmfloat \<Rightarrow> vm \<Rightarrow> (nat \<times> vm) option" where
  "VMNumberResultFunction_errorIntResult fn i uf = put_int fn error_flags i uf"

definition VMNumberResultFunction_errorRealResult ::
    "CoreFn \<Rightarrow> vmfloat \<Rightarrow> vmfloat \<Rightarrow> vm \<Rightarrow> (nat \<times> vm) option" where
  "VMNumberResultFunction_errorRealResult fn f uf = put_real fn error_flags f uf"

definition VMNumberResultFunction_successIntResult ::
    "CoreFn \<Rightarrow> vmint \<Rightarrow> vmfloat \<Rightarrow> vm \<Rightarrow> (nat \<times> vm) option" where
  "VMNumberResultFunction_successIntResult fn i uf = put_int fn STMT_SUCCESS i uf"

definition VMNumberResultFunction_successRealResult ::
    "CoreFn \<Rightarrow> vmfloat \<Rightarrow> vmfloat \<Rightarrow> vm \<Rightarrow> (nat \<times> vm) option" where
  "VMNumberResultFunction_successRealResult fn f uf = put_real fn STMT_SUCCESS f uf"

section \<open>The tables of the base classes\<close>

text \<open>
  \<open>VMFunction_base\<close> holds the defaults of \<open>common.cpp\<close>; what is abstract there fails.
\<close>

definition VMFunction_base :: VMFunction where
  "VMFunction_base = \<lparr>minRequiredArgs = 0, maxAllowedArgs = (\<lambda>s. 0),
     acceptsArgType = (\<lambda>s i t. False), acceptsArgUnitType = (\<lambda>s i t. t = VM_NO_UNIT),
     acceptsArgUnitPrefix = (\<lambda>s i t. False), acceptsArgFinal = (\<lambda>s i. False),
     modifiesArg = (\<lambda>i. False), returnType = (\<lambda>args. None), returnUnitType = (\<lambda>args. None),
     returnsFinal = (\<lambda>args. None), allocResult = (\<lambda>args. None), bindResult = (\<lambda>res s. s),
     checkArgs = (\<lambda>args s. Some []), fn_exec = (\<lambda>args s. None)\<rparr>"

definition VMEmptyResultFunction :: "CoreFn \<Rightarrow> VMFunction" where
  "VMEmptyResultFunction fn = VMFunction_base
     \<lparr>returnType := (\<lambda>args. Some EMPTY_EXPR), returnUnitType := (\<lambda>args. Some VM_NO_UNIT),
      returnsFinal := (\<lambda>args. Some False), modifiesArg := (\<lambda>i. False),
      allocResult := (\<lambda>args. Some new_VMEmptyResult),
      bindResult := VMEmptyResultFunction_bindResult fn\<rparr>"

definition VMIntResultFunction :: "CoreFn \<Rightarrow> VMFunction" where
  "VMIntResultFunction fn = VMFunction_base
     \<lparr>returnType := (\<lambda>args. Some INT_EXPR), modifiesArg := (\<lambda>i. False),
      allocResult := (\<lambda>args. Some new_VMIntResult),
      bindResult := VMIntResultFunction_bindResult fn\<rparr>"

definition VMRealResultFunction :: "CoreFn \<Rightarrow> VMFunction" where
  "VMRealResultFunction fn = VMFunction_base
     \<lparr>returnType := (\<lambda>args. Some REAL_EXPR), modifiesArg := (\<lambda>i. False),
      allocResult := (\<lambda>args. Some new_VMRealResult),
      bindResult := VMRealResultFunction_bindResult fn\<rparr>"

definition VMNumberResultFunction ::
    "CoreFn \<Rightarrow> (node list \<Rightarrow> ExprType_t option) \<Rightarrow> VMFunction" where
  "VMNumberResultFunction fn rt = VMFunction_base
     \<lparr>returnType := rt, modifiesArg := (\<lambda>i. False),
      allocResult := VMNumberResultFunction_allocResult rt,
      bindResult := VMNumberResultFunction_bindResult fn\<rparr>"

end
