(* ===== verification/CoreFunctions.thy ===== *)
theory CoreFunctions
  imports VMFunctions
begin

text \<open>
  The built-in functions of every script, \<open>CoreVMFunctions.h\<close> / \<open>CoreVMFunctions.cpp\<close>. Each class is
  a \<open>VMFunction\<close> table \<open>CoreVMFunction_<name>\<close> (what it accepts, from the header) and its methods
  (from the source file). \<open>messages\<close> receives the text that \<open>message()\<close> and \<open>wrnMsg()\<close> print, without
  the prefix that carries the time of day. Shift counts are taken modulo 64 as x86-64 does;
  \<open>std::sort\<close> is a stable insertion sort with the comparison the code passes to it (the order of
  elements that compare equal is left open by the C++ standard). The functions of \<open>libm\<close> are
  parameters (\<open>clib\<close>).
\<close>

section \<open>message, exit, wait\<close>

definition CoreVMFunction_message_exec :: "clib \<Rightarrow> node list \<Rightarrow> vm \<Rightarrow> (nat \<times> vm) option" where
  "CoreVMFunction_message_exec L args s =
     (if length args = 0 then VMEmptyResultFunction_errorResult Fn_message s
      else do {
        e \<leftarrow> nth_opt args 0;
        if isStringExpr e then do {
          (t, s) \<leftarrow> evalStr e s;
          VMEmptyResultFunction_successResult Fn_message (printMsg t s) }
        else if isRealExpr e then do {
          (f, s) \<leftarrow> evalReal e s;
          VMEmptyResultFunction_successResult Fn_message (printMsg (cl_printf_f L f) s) }
        else if isIntExpr e then do {
          (i, s) \<leftarrow> evalInt e s;
          VMEmptyResultFunction_successResult Fn_message (printMsg (int_to_str (sint i)) s) }
        else VMEmptyResultFunction_errorResult Fn_message s })"

definition CoreVMFunction_message_acceptsArgType :: "ExprType_t \<Rightarrow> bool" where
  "CoreVMFunction_message_acceptsArgType type \<longleftrightarrow>
     type = INT_EXPR \<or> type = REAL_EXPR \<or> type = STRING_EXPR"

definition CoreVMFunction_message :: "clib \<Rightarrow> VMFunction" where
  "CoreVMFunction_message L = (VMEmptyResultFunction Fn_message)
     \<lparr>minRequiredArgs := 1, maxAllowedArgs := (\<lambda>s. 1),
      acceptsArgType := (\<lambda>s i. CoreVMFunction_message_acceptsArgType),
      fn_exec := CoreVMFunction_message_exec L\<rparr>"

definition CoreVMFunction_exit_maxAllowedArgs :: "vm \<Rightarrow> nat" where
  "CoreVMFunction_exit_maxAllowedArgs s = (if m_acceptExitRes s then 1 else 0)"

definition CoreVMFunction_exit_acceptsArgType :: "vm \<Rightarrow> ExprType_t \<Rightarrow> bool" where
  "CoreVMFunction_exit_acceptsArgType s type =
     (if \<not> m_acceptExitRes s then False
      else type = INT_EXPR \<or> type = REAL_EXPR \<or> type = STRING_EXPR)"

definition set_exitRes :: "expr \<Rightarrow> vm \<Rightarrow> vm" where
  "set_exitRes e = upd_ctx (\<lambda>c. c\<lparr>exitRes := Some e\<rparr>)"

definition CoreVMFunction_exit_store :: "node \<Rightarrow> vm \<Rightarrow> vm option" where
  \<comment> \<open>the \<open>switch\<close> over the type of the argument\<close>
  "CoreVMFunction_exit_store e s = (case exprType e of
     INT_EXPR \<Rightarrow> do {
       (v, s) \<leftarrow> asInt_evalInt e s;
       f \<leftarrow> unitFactor e s;
       Some (set_exitRes (IntLiteral v f (unitType e) (isFinal e)) s) }
   | REAL_EXPR \<Rightarrow> do {
       (v, s) \<leftarrow> asReal_evalReal e s;
       f \<leftarrow> unitFactor e s;
       Some (set_exitRes (RealLiteral v f (unitType e) (isFinal e)) s) }
   | STRING_EXPR \<Rightarrow>
       (if isStringExpr e
        then do { (t, s) \<leftarrow> evalStr e s; Some (set_exitRes (StringLiteral t) s) }
        else None)
   | _ \<Rightarrow> Some s)"

definition CoreVMFunction_exit_exec :: "node list \<Rightarrow> vm \<Rightarrow> (nat \<times> vm) option" where
  "CoreVMFunction_exit_exec args s = do {
     (n, s) \<leftarrow> put_empty Fn_exit STMT_ABORT_SIGNALLED s;
     if m_acceptExitRes s \<and> length args \<noteq> 0 then do {
       e \<leftarrow> nth_opt args 0;
       s \<leftarrow> CoreVMFunction_exit_store e s;
       n \<leftarrow> boundResult s Fn_exit;
       Some (n, s) }
     else Some (n, s) }"

definition CoreVMFunction_exit :: VMFunction where
  "CoreVMFunction_exit = (VMEmptyResultFunction Fn_exit)
     \<lparr>minRequiredArgs := 0, maxAllowedArgs := CoreVMFunction_exit_maxAllowedArgs,
      acceptsArgType := (\<lambda>s i. CoreVMFunction_exit_acceptsArgType s),
      acceptsArgUnitType := (\<lambda>s i t. m_acceptExitRes s),
      acceptsArgUnitPrefix := (\<lambda>s i t. m_acceptExitRes s),
      acceptsArgFinal := (\<lambda>s i. m_acceptExitRes s),
      fn_exec := CoreVMFunction_exit_exec\<rparr>"

definition CoreVMFunction_wait_acceptsArgUnitType :: "StdUnit_t \<Rightarrow> bool" where
  "CoreVMFunction_wait_acceptsArgUnitType type \<longleftrightarrow> type = VM_NO_UNIT \<or> type = VM_SECOND"

definition CoreVMFunction_wait_exec :: "node list \<Rightarrow> vm \<Rightarrow> (nat \<times> vm) option" where
  "CoreVMFunction_wait_exec args s = do {
     e \<leftarrow> arg_asNumber args 0;
     (us, s) \<leftarrow> (if unitType e \<noteq> VM_NO_UNIT then evalCastInt_prefix e VM_MICRO s
                else evalCastInt e s);
     if sint us < 0 then
       put_empty Fn_wait STMT_ABORT_SIGNALLED
         (printMsg ''wait(): argument may not be negative! Aborting handler!'' s)
     else if us = 0 then
       put_empty Fn_wait STMT_ABORT_SIGNALLED
         (printMsg ''wait(): argument may not be zero! Aborting handler!'' s)
     else
       put_empty Fn_wait STMT_SUSPEND_SIGNALLED
         (upd_ctx (\<lambda>c. c\<lparr>suspendMicroseconds := us\<rparr>) s) }"

definition CoreVMFunction_wait :: VMFunction where
  "CoreVMFunction_wait = (VMEmptyResultFunction Fn_wait)
     \<lparr>minRequiredArgs := 1, maxAllowedArgs := (\<lambda>s. 1),
      acceptsArgType := (\<lambda>s i t. t = INT_EXPR \<or> t = REAL_EXPR),
      acceptsArgUnitType := (\<lambda>s i. CoreVMFunction_wait_acceptsArgUnitType),
      acceptsArgUnitPrefix := (\<lambda>s i t. t = VM_SECOND),
      fn_exec := CoreVMFunction_wait_exec\<rparr>"

section \<open>abs, random, num_elements\<close>

definition std_abs :: "vmint \<Rightarrow> vmint" where
  "std_abs v = (if sint v < 0 then - v else v)"

definition CoreVMFunction_abs_returnType :: "node list \<Rightarrow> ExprType_t option" where
  "CoreVMFunction_abs_returnType args = arg_exprType args 0"

definition CoreVMFunction_abs_exec :: "node list \<Rightarrow> vm \<Rightarrow> (nat \<times> vm) option" where
  "CoreVMFunction_abs_exec args s = do {
     e \<leftarrow> nth_opt args 0;
     if exprType e = REAL_EXPR then do {
       (v, s) \<leftarrow> asReal_evalReal e s;
       f \<leftarrow> unitFactor e s;
       VMNumberResultFunction_successRealResult Fn_abs (fabs v) f s }
     else do {
       (v, s) \<leftarrow> asInt_evalInt e s;
       f \<leftarrow> unitFactor e s;
       VMNumberResultFunction_successIntResult Fn_abs (std_abs v) f s } }"

definition CoreVMFunction_abs :: VMFunction where
  "CoreVMFunction_abs = (VMNumberResultFunction Fn_abs CoreVMFunction_abs_returnType)
     \<lparr>returnUnitType := (\<lambda>args. arg_unitType args 0), returnsFinal := (\<lambda>args. arg_isFinal args 0),
      minRequiredArgs := 1, maxAllowedArgs := (\<lambda>s. 1),
      acceptsArgType := (\<lambda>s i t. t = INT_EXPR \<or> t = REAL_EXPR),
      acceptsArgUnitType := (\<lambda>s i t. True), acceptsArgUnitPrefix := (\<lambda>s i t. True),
      acceptsArgFinal := (\<lambda>s i. True), fn_exec := CoreVMFunction_abs_exec\<rparr>"

definition CoreVMFunction_random_returnType :: "node list \<Rightarrow> ExprType_t option" where
  "CoreVMFunction_random_returnType args = do {
     a \<leftarrow> arg_exprType args 0;
     b \<leftarrow> arg_exprType args 1;
     Some (if a = INT_EXPR \<and> b = INT_EXPR then INT_EXPR else REAL_EXPR) }"

definition either_final :: "node list \<Rightarrow> bool option" where
  "either_final args = do { a \<leftarrow> arg_isFinal args 0; b \<leftarrow> arg_isFinal args 1; Some (a \<or> b) }"

definition final_str :: "bool \<Rightarrow> string" where
  "final_str b = (if b then [CHR 0x27] @ ''final'' @ [CHR 0x27]
                  else ''not '' @ [CHR 0x27] @ ''final'' @ [CHR 0x27])"

definition unit_mismatch_msg :: "StdUnit_t \<Rightarrow> StdUnit_t \<Rightarrow> string" where
  "unit_mismatch_msg a b = ''Argument 1 has unit type '' @ unitTypeStr a
     @ '', whereas argument 2 has unit type '' @ unitTypeStr b @ ''.''"

definition final_mismatch_msg :: "bool \<Rightarrow> bool \<Rightarrow> string" where
  "final_mismatch_msg a b = ''Argument 1 is '' @ final_str a @ '', whereas argument 2 is ''
     @ final_str b @ '', function result will be final.''"

definition CoreVMFunction_random_checkArgs :: "node list \<Rightarrow> vm \<Rightarrow> ArgIssue list option" where
  "CoreVMFunction_random_checkArgs args s = do {
     ua \<leftarrow> arg_unitType args 0;
     ub \<leftarrow> arg_unitType args 1;
     if ua \<noteq> ub then Some [ArgErr (unit_mismatch_msg ua ub)]
     else do {
       fa \<leftarrow> arg_isFinal args 0;
       fb \<leftarrow> arg_isFinal args 1;
       Some (if fa \<noteq> fb then [ArgWrn (final_mismatch_msg fa fb)] else []) } }"

definition c_rand :: "vm \<Rightarrow> int \<times> vm" where
  "c_rand s = (randStream s (randPos s), s\<lparr>randPos := Suc (randPos s)\<rparr>)"

definition random_int :: "vmfloat \<Rightarrow> vmint \<Rightarrow> vmint \<Rightarrow> vmint" where
  \<comment> \<open>\<open>vmint( iMin + roundf( f * float(iMax - iMin) ) )\<close>\<close>
  "random_int f iMin iMax =
     vmint_of_float (float_of_vmint iMin + roundf (f * float_of_vmint (iMax - iMin)))"

definition CoreVMFunction_random_exec :: "clib \<Rightarrow> node list \<Rightarrow> vm \<Rightarrow> (nat \<times> vm) option" where
  "CoreVMFunction_random_exec L args s =
     (let (r, s) = c_rand s; f = float_of_int r / float_of_int (cl_RAND_MAX L) in do {
        arg0 \<leftarrow> arg_asNumber args 0;
        arg1 \<leftarrow> arg_asNumber args 1;
        if exprType arg0 = INT_EXPR \<and> exprType arg1 = INT_EXPR then do {
          (iMin, s) \<leftarrow> asInt_evalInt arg0 s;
          (iMax, s) \<leftarrow> asInt_evalInt arg1 s;
          f0 \<leftarrow> unitFactor arg0 s;
          f1 \<leftarrow> unitFactor arg1 s;
          if feq f0 f1 then
            VMNumberResultFunction_successIntResult Fn_random (random_int f iMin iMax) f0 s
          else if flt f0 f1 then
            VMNumberResultFunction_successIntResult Fn_random
              (random_int f iMin (convIntToUnitFactor iMax f1 f0)) f0 s
          else
            VMNumberResultFunction_successIntResult Fn_random
              (random_int f (convIntToUnitFactor iMin f0 f1) iMax) f1 s }
        else do {
          (fMin, s) \<leftarrow> evalCastReal arg0 s;
          (fMax, s) \<leftarrow> evalCastReal arg1 s;
          f0 \<leftarrow> unitFactor arg0 s;
          f1 \<leftarrow> unitFactor arg1 s;
          if feq f0 f1 then
            VMNumberResultFunction_successRealResult Fn_random (fMin + f * (fMax - fMin)) f0 s
          else if flt f0 f1 then
            let fMax = convRealToUnitFactor fMax f1 f0 in
            VMNumberResultFunction_successRealResult Fn_random (fMin + f * (fMax - fMin)) f0 s
          else
            let fMin = convRealToUnitFactor fMin f0 f1 in
            VMNumberResultFunction_successRealResult Fn_random (fMin + f * (fMax - fMin)) f1 s } })"

definition CoreVMFunction_random :: "clib \<Rightarrow> VMFunction" where
  "CoreVMFunction_random L = (VMNumberResultFunction Fn_random CoreVMFunction_random_returnType)
     \<lparr>returnUnitType := (\<lambda>args. arg_unitType args 0), returnsFinal := either_final,
      minRequiredArgs := 2, maxAllowedArgs := (\<lambda>s. 2),
      acceptsArgType := (\<lambda>s i t. t = INT_EXPR \<or> t = REAL_EXPR),
      acceptsArgUnitType := (\<lambda>s i t. True), acceptsArgUnitPrefix := (\<lambda>s i t. True),
      acceptsArgFinal := (\<lambda>s i. True), checkArgs := CoreVMFunction_random_checkArgs,
      fn_exec := CoreVMFunction_random_exec L\<rparr>"

definition CoreVMFunction_num_elements_exec :: "node list \<Rightarrow> vm \<Rightarrow> (nat \<times> vm) option" where
  "CoreVMFunction_num_elements_exec args s = do {
     e \<leftarrow> nth_opt args 0;
     n \<leftarrow> asArray_arraySize e s;
     VMIntResultFunction_successResult Fn_num_elements n s }"

definition CoreVMFunction_num_elements :: VMFunction where
  "CoreVMFunction_num_elements = (VMIntResultFunction Fn_num_elements)
     \<lparr>returnUnitType := (\<lambda>args. Some VM_NO_UNIT), returnsFinal := (\<lambda>args. Some False),
      minRequiredArgs := 1, maxAllowedArgs := (\<lambda>s. 1), acceptsArgType := (\<lambda>s i. isArray),
      fn_exec := CoreVMFunction_num_elements_exec\<rparr>"

section \<open>inc, dec\<close>

definition inc_checkArgs :: "string \<Rightarrow> node list \<Rightarrow> vm \<Rightarrow> ArgIssue list option" where
  "inc_checkArgs verb args s = do {
     u \<leftarrow> arg_unitType args 0;
     Some (if u \<noteq> VM_NO_UNIT
       then [ArgWrn (''Argument has a unit type ('' @ unitTypeStr u
              @ ''), only the number before the unit will be '' @ verb @ '' by one.'')]
       else []) }"

definition CoreVMFunction_inc_checkArgs :: "node list \<Rightarrow> vm \<Rightarrow> ArgIssue list option" where
  "CoreVMFunction_inc_checkArgs = inc_checkArgs ''incremented''"

definition CoreVMFunction_dec_checkArgs :: "node list \<Rightarrow> vm \<Rightarrow> ArgIssue list option" where
  "CoreVMFunction_dec_checkArgs = inc_checkArgs ''decremented''"

text \<open>The temporary \<open>IntLiteral\<close> that is assigned to the argument.\<close>

definition tmp_IntLiteral :: "vmint \<Rightarrow> vmfloat \<Rightarrow> rnode" where
  "tmp_IntLiteral i f = (rnode.truncate base_node)
     \<lparr>exprType := INT_EXPR, isConstExpr := True, isIntExpr := True,
      evalInt := (\<lambda>s. Some (i, s)), unitFactor := (\<lambda>s. Some f)\<rparr>"

definition CoreVMFunction_inc_exec :: "node list \<Rightarrow> vm \<Rightarrow> (nat \<times> vm) option" where
  "CoreVMFunction_inc_exec args s = do {
     e \<leftarrow> nth_opt args 0;
     (v, s) \<leftarrow> asInt_evalInt e s;
     f \<leftarrow> unitFactor e s;
     s \<leftarrow> (if isVariable e then assign e (tmp_IntLiteral (v + 1) f) s else None);
     f \<leftarrow> unitFactor e s;
     VMIntResultFunction_successResultDef Fn_inc (v + 1) f s }"

definition CoreVMFunction_dec_exec :: "node list \<Rightarrow> vm \<Rightarrow> (nat \<times> vm) option" where
  "CoreVMFunction_dec_exec args s = do {
     e \<leftarrow> nth_opt args 0;
     (v, s) \<leftarrow> asInt_evalInt e s;
     f \<leftarrow> unitFactor e s;
     s \<leftarrow> (if isVariable e then assign e (tmp_IntLiteral (v - 1) f) s else None);
     f \<leftarrow> unitFactor e s;
     VMIntResultFunction_successResultDef Fn_dec (v - 1) f s }"

definition CoreVMFunction_inc :: VMFunction where
  "CoreVMFunction_inc = (VMIntResultFunction Fn_inc)
     \<lparr>returnUnitType := (\<lambda>args. arg_unitType args 0), returnsFinal := (\<lambda>args. arg_isFinal args 0),
      minRequiredArgs := 1, maxAllowedArgs := (\<lambda>s. 1), acceptsArgType := (\<lambda>s i t. t = INT_EXPR),
      acceptsArgUnitType := (\<lambda>s i t. True), acceptsArgUnitPrefix := (\<lambda>s i t. True),
      acceptsArgFinal := (\<lambda>s i. True), modifiesArg := (\<lambda>i. True),
      checkArgs := CoreVMFunction_inc_checkArgs, fn_exec := CoreVMFunction_inc_exec\<rparr>"

definition CoreVMFunction_dec :: VMFunction where
  "CoreVMFunction_dec = (VMIntResultFunction Fn_dec)
     \<lparr>returnUnitType := (\<lambda>args. arg_unitType args 0), returnsFinal := (\<lambda>args. arg_isFinal args 0),
      minRequiredArgs := 1, maxAllowedArgs := (\<lambda>s. 1), acceptsArgType := (\<lambda>s i t. t = INT_EXPR),
      acceptsArgUnitType := (\<lambda>s i t. True), acceptsArgUnitPrefix := (\<lambda>s i t. True),
      acceptsArgFinal := (\<lambda>s i. True), modifiesArg := (\<lambda>i. True),
      checkArgs := CoreVMFunction_dec_checkArgs, fn_exec := CoreVMFunction_dec_exec\<rparr>"

section \<open>in_range, bits\<close>

definition CoreVMFunction_in_range_checkArgs :: "node list \<Rightarrow> vm \<Rightarrow> ArgIssue list option" where
  "CoreVMFunction_in_range_checkArgs args s = do {
     ua \<leftarrow> arg_unitType args 0;
     ub \<leftarrow> arg_unitType args 1;
     uc \<leftarrow> arg_unitType args 2;
     if ua \<noteq> ub \<or> ub \<noteq> uc then Some [ArgErr
       (''Arguments must all have same unit, however argument 1 is '' @ unitTypeStr ua
        @ '', argument 2 is '' @ unitTypeStr ub @ '', argument 3 is '' @ unitTypeStr uc @ ''.'')]
     else do {
       a \<leftarrow> arg_exprType args 0;
       b \<leftarrow> arg_exprType args 1;
       c \<leftarrow> arg_exprType args 2;
       Some (if a \<noteq> b \<or> b \<noteq> c then [ArgWrn
         (''Argument 1 is '' @ typeStr a @ '', argument 2 is '' @ typeStr b @ '', argument 3 is ''
          @ typeStr c @ '', function result will be '' @ typeStr REAL_EXPR @ ''.'')] else []) } }"

definition swap_if_greater :: "vmfloat \<Rightarrow> vmfloat \<Rightarrow> vmfloat \<times> vmfloat" where
  "swap_if_greater lo hi = (if flt hi lo then (hi, lo) else (lo, hi))"

definition in_range_value :: "vmfloat \<Rightarrow> vmfloat \<Rightarrow> vmfloat \<Rightarrow> bool" where
  "in_range_value needle lo hi =
     (let (lo, hi) = swap_if_greater lo hi in fle lo needle \<and> fle needle hi)"

definition CoreVMFunction_in_range_exec :: "node list \<Rightarrow> vm \<Rightarrow> (nat \<times> vm) option" where
  "CoreVMFunction_in_range_exec args s = do {
     argNeedle \<leftarrow> arg_asNumber args 0;
     argLo \<leftarrow> arg_asNumber args 1;
     argHi \<leftarrow> arg_asNumber args 2;
     (needle, s) \<leftarrow> evalCastReal argNeedle s;
     (lo, s) \<leftarrow> evalCastReal argLo s;
     (hi, s) \<leftarrow> evalCastReal argHi s;
     fn \<leftarrow> unitFactor argNeedle s;
     fl \<leftarrow> unitFactor argLo s;
     fh \<leftarrow> unitFactor argHi s;
     VMIntResultFunction_successResult Fn_in_range
       (if in_range_value (needle * fn) (lo * fl) (hi * fh) then 1 else 0) s }"

definition CoreVMFunction_in_range :: VMFunction where
  "CoreVMFunction_in_range = (VMIntResultFunction Fn_in_range)
     \<lparr>returnUnitType := (\<lambda>args. Some VM_NO_UNIT), returnsFinal := (\<lambda>args. Some False),
      minRequiredArgs := 3, maxAllowedArgs := (\<lambda>s. 3),
      acceptsArgType := (\<lambda>s i t. t = INT_EXPR \<or> t = REAL_EXPR),
      acceptsArgUnitType := (\<lambda>s i t. True), acceptsArgUnitPrefix := (\<lambda>s i t. True),
      acceptsArgFinal := (\<lambda>s i. True), checkArgs := CoreVMFunction_in_range_checkArgs,
      fn_exec := CoreVMFunction_in_range_exec\<rparr>"

definition shift_count :: "vmint \<Rightarrow> nat" where
  "shift_count n = unat (n AND 63)"

definition eval2_ints :: "node list \<Rightarrow> vm \<Rightarrow> (vmint \<times> vmint \<times> vm) option" where
  "eval2_ints args s = do {
     a \<leftarrow> arg_asInt args 0;
     (i, s) \<leftarrow> evalInt a s;
     b \<leftarrow> arg_asInt args 1;
     (n, s) \<leftarrow> evalInt b s;
     Some (i, n, s) }"

definition CoreVMFunction_sh_left_exec :: "node list \<Rightarrow> vm \<Rightarrow> (nat \<times> vm) option" where
  "CoreVMFunction_sh_left_exec args s = do {
     (i, n, s) \<leftarrow> eval2_ints args s;
     VMIntResultFunction_successResult Fn_sh_left (push_bit (shift_count n) i) s }"

definition CoreVMFunction_sh_right_exec :: "node list \<Rightarrow> vm \<Rightarrow> (nat \<times> vm) option" where
  "CoreVMFunction_sh_right_exec args s = do {
     (i, n, s) \<leftarrow> eval2_ints args s;
     VMIntResultFunction_successResult Fn_sh_right (signed_drop_bit (shift_count n) i) s }"

definition CoreVMFunction_sh_left :: VMFunction where
  "CoreVMFunction_sh_left = (VMIntResultFunction Fn_sh_left)
     \<lparr>returnUnitType := (\<lambda>args. Some VM_NO_UNIT), returnsFinal := (\<lambda>args. arg_isFinal args 0),
      minRequiredArgs := 2, maxAllowedArgs := (\<lambda>s. 2), acceptsArgType := (\<lambda>s i t. t = INT_EXPR),
      acceptsArgFinal := (\<lambda>s i. True), fn_exec := CoreVMFunction_sh_left_exec\<rparr>"

definition CoreVMFunction_sh_right :: VMFunction where
  "CoreVMFunction_sh_right = (VMIntResultFunction Fn_sh_right)
     \<lparr>returnUnitType := (\<lambda>args. Some VM_NO_UNIT), returnsFinal := (\<lambda>args. arg_isFinal args 0),
      minRequiredArgs := 2, maxAllowedArgs := (\<lambda>s. 2), acceptsArgType := (\<lambda>s i t. t = INT_EXPR),
      acceptsArgFinal := (\<lambda>s i. True), fn_exec := CoreVMFunction_sh_right_exec\<rparr>"

definition msb_value :: "vmint \<Rightarrow> vmint" where
  "msb_value i = (signed_drop_bit 7 i) AND 127"

definition lsb_value :: "vmint \<Rightarrow> vmint" where
  "lsb_value i = i AND 127"

definition CoreVMFunction_msb_exec :: "node list \<Rightarrow> vm \<Rightarrow> (nat \<times> vm) option" where
  "CoreVMFunction_msb_exec args s = do {
     a \<leftarrow> arg_asInt args 0;
     (i, s) \<leftarrow> evalInt a s;
     VMIntResultFunction_successResult Fn_msb (msb_value i) s }"

definition CoreVMFunction_lsb_exec :: "node list \<Rightarrow> vm \<Rightarrow> (nat \<times> vm) option" where
  "CoreVMFunction_lsb_exec args s = do {
     a \<leftarrow> arg_asInt args 0;
     (i, s) \<leftarrow> evalInt a s;
     VMIntResultFunction_successResult Fn_lsb (lsb_value i) s }"

definition CoreVMFunction_msb :: VMFunction where
  "CoreVMFunction_msb = (VMIntResultFunction Fn_msb)
     \<lparr>returnUnitType := (\<lambda>args. Some VM_NO_UNIT), returnsFinal := (\<lambda>args. Some False),
      minRequiredArgs := 1, maxAllowedArgs := (\<lambda>s. 1), acceptsArgType := (\<lambda>s i t. t = INT_EXPR),
      acceptsArgFinal := (\<lambda>s i. False), fn_exec := CoreVMFunction_msb_exec\<rparr>"

definition CoreVMFunction_lsb :: VMFunction where
  "CoreVMFunction_lsb = (VMIntResultFunction Fn_lsb)
     \<lparr>returnUnitType := (\<lambda>args. Some VM_NO_UNIT), returnsFinal := (\<lambda>args. Some False),
      minRequiredArgs := 1, maxAllowedArgs := (\<lambda>s. 1), acceptsArgType := (\<lambda>s i t. t = INT_EXPR),
      acceptsArgFinal := (\<lambda>s i. False), fn_exec := CoreVMFunction_lsb_exec\<rparr>"

section \<open>min, max\<close>

definition minmax_returnType :: "node list \<Rightarrow> ExprType_t option" where
  "minmax_returnType args = do {
     a \<leftarrow> arg_exprType args 0;
     b \<leftarrow> arg_exprType args 1;
     Some (if a = REAL_EXPR \<or> b = REAL_EXPR then REAL_EXPR else INT_EXPR) }"

definition minmax_checkArgs :: "node list \<Rightarrow> vm \<Rightarrow> ArgIssue list option" where
  "minmax_checkArgs args s = do {
     ua \<leftarrow> arg_unitType args 0;
     ub \<leftarrow> arg_unitType args 1;
     if ua \<noteq> ub then Some [ArgErr (unit_mismatch_msg ua ub)]
     else do {
       a \<leftarrow> arg_exprType args 0;
       b \<leftarrow> arg_exprType args 1;
       if a \<noteq> b then Some [ArgWrn (''Argument 1 is '' @ typeStr a @ '', whereas argument 2 is ''
            @ typeStr b @ '', function result will be '' @ typeStr REAL_EXPR @ ''.'')]
       else do {
         fa \<leftarrow> arg_isFinal args 0;
         fb \<leftarrow> arg_isFinal args 1;
         Some (if fa \<noteq> fb then [ArgWrn (final_mismatch_msg fa fb)] else []) } } }"

text \<open>
  Both functions have the same four cases, with \<open>pick\<close> the comparison \<open>lprod < rprod\<close> respectively
  \<open>lprod > rprod\<close> of the products of value and unit factor.
\<close>

definition minmax_exec ::
    "CoreFn \<Rightarrow> (vmfloat \<Rightarrow> vmfloat \<Rightarrow> bool) \<Rightarrow> node list \<Rightarrow> vm \<Rightarrow> (nat \<times> vm) option" where
  "minmax_exec fn pick args s = do {
     lhs \<leftarrow> arg_asNumber args 0;
     rhs \<leftarrow> arg_asNumber args 1;
     if exprType lhs = REAL_EXPR \<and> exprType rhs = REAL_EXPR then do {
       (lm, s) \<leftarrow> asReal_evalReal lhs s;
       (rm, s) \<leftarrow> asReal_evalReal rhs s;
       lf \<leftarrow> unitFactor lhs s;
       rf \<leftarrow> unitFactor rhs s;
       let c = pick (lm * lf) (rm * rf);
       VMNumberResultFunction_successRealResult fn (if c then lm else rm) (if c then lf else rf) s }
     else if exprType lhs = REAL_EXPR \<and> exprType rhs = INT_EXPR then do {
       (lm, s) \<leftarrow> asReal_evalReal lhs s;
       (rm, s) \<leftarrow> asInt_evalInt rhs s;
       lf \<leftarrow> unitFactor lhs s;
       rf \<leftarrow> unitFactor rhs s;
       let c = pick (lm * lf) (float_of_vmint rm * rf);
       VMNumberResultFunction_successRealResult fn
         (if c then lm else float_of_vmint rm) (if c then lf else rf) s }
     else if exprType lhs = INT_EXPR \<and> exprType rhs = REAL_EXPR then do {
       (lm, s) \<leftarrow> asInt_evalInt lhs s;
       (rm, s) \<leftarrow> asReal_evalReal rhs s;
       lf \<leftarrow> unitFactor lhs s;
       rf \<leftarrow> unitFactor rhs s;
       let c = pick (float_of_vmint lm * lf) (rm * rf);
       VMNumberResultFunction_successRealResult fn
         (if c then float_of_vmint lm else rm) (if c then lf else rf) s }
     else do {
       (lm, s) \<leftarrow> asInt_evalInt lhs s;
       (rm, s) \<leftarrow> asInt_evalInt rhs s;
       lf \<leftarrow> unitFactor lhs s;
       rf \<leftarrow> unitFactor rhs s;
       let c = pick (float_of_vmint lm * lf) (float_of_vmint rm * rf);
       VMNumberResultFunction_successIntResult fn (if c then lm else rm) (if c then lf else rf) s } }"

definition CoreVMFunction_min_returnType :: "node list \<Rightarrow> ExprType_t option" where
  "CoreVMFunction_min_returnType = minmax_returnType"

definition CoreVMFunction_max_returnType :: "node list \<Rightarrow> ExprType_t option" where
  "CoreVMFunction_max_returnType = minmax_returnType"

definition CoreVMFunction_min_checkArgs :: "node list \<Rightarrow> vm \<Rightarrow> ArgIssue list option" where
  "CoreVMFunction_min_checkArgs = minmax_checkArgs"

definition CoreVMFunction_max_checkArgs :: "node list \<Rightarrow> vm \<Rightarrow> ArgIssue list option" where
  "CoreVMFunction_max_checkArgs = minmax_checkArgs"

definition CoreVMFunction_min_exec :: "node list \<Rightarrow> vm \<Rightarrow> (nat \<times> vm) option" where
  "CoreVMFunction_min_exec = minmax_exec Fn_min (\<lambda>lprod rprod. flt lprod rprod)"

definition CoreVMFunction_max_exec :: "node list \<Rightarrow> vm \<Rightarrow> (nat \<times> vm) option" where
  "CoreVMFunction_max_exec = minmax_exec Fn_max (\<lambda>lprod rprod. flt rprod lprod)"

definition CoreVMFunction_min :: VMFunction where
  "CoreVMFunction_min = (VMNumberResultFunction Fn_min CoreVMFunction_min_returnType)
     \<lparr>returnUnitType := (\<lambda>args. arg_unitType args 0), returnsFinal := either_final,
      minRequiredArgs := 2, maxAllowedArgs := (\<lambda>s. 2),
      acceptsArgType := (\<lambda>s i t. t = INT_EXPR \<or> t = REAL_EXPR),
      acceptsArgUnitType := (\<lambda>s i t. True), acceptsArgUnitPrefix := (\<lambda>s i t. True),
      acceptsArgFinal := (\<lambda>s i. True), checkArgs := CoreVMFunction_min_checkArgs,
      fn_exec := CoreVMFunction_min_exec\<rparr>"

definition CoreVMFunction_max :: VMFunction where
  "CoreVMFunction_max = (VMNumberResultFunction Fn_max CoreVMFunction_max_returnType)
     \<lparr>returnUnitType := (\<lambda>args. arg_unitType args 0), returnsFinal := either_final,
      minRequiredArgs := 2, maxAllowedArgs := (\<lambda>s. 2),
      acceptsArgType := (\<lambda>s i t. t = INT_EXPR \<or> t = REAL_EXPR),
      acceptsArgUnitType := (\<lambda>s i t. True), acceptsArgUnitPrefix := (\<lambda>s i t. True),
      acceptsArgFinal := (\<lambda>s i. True), checkArgs := CoreVMFunction_max_checkArgs,
      fn_exec := CoreVMFunction_max_exec\<rparr>"

section \<open>array_equal, search\<close>

definition CoreVMFunction_array_equal_checkArgs :: "node list \<Rightarrow> vm \<Rightarrow> ArgIssue list option" where
  "CoreVMFunction_array_equal_checkArgs args s = do {
     a \<leftarrow> nth_opt args 0;
     b \<leftarrow> nth_opt args 1;
     if exprType a \<noteq> exprType b then Some [ArgErr
       (''Argument 1 is '' @ typeStr (exprType a) @ '', whereas argument 2 is ''
        @ typeStr (exprType b) @ ''.'')]
     else do {
       na \<leftarrow> asArray_arraySize a s;
       nb \<leftarrow> asArray_arraySize b s;
       Some (if na \<noteq> nb then [ArgWrn (''Result of function call is always false, since the passed ''
         @ ''two arrays were declared with different array sizes.'')] else []) } }"

definition array_equal_int :: "vmint \<Rightarrow> vmint \<Rightarrow> vmfloat \<Rightarrow> vmfloat \<Rightarrow> bool" where
  "array_equal_int lvalue rvalue lfactor rfactor =
     (if feq lfactor rfactor then lvalue = rvalue
      else if flt lfactor rfactor then lvalue = convIntToUnitFactor rvalue rfactor lfactor
      else rvalue = convIntToUnitFactor lvalue lfactor rfactor)"

definition array_equal_real :: "vmfloat \<Rightarrow> vmfloat \<Rightarrow> vmfloat \<Rightarrow> vmfloat \<Rightarrow> bool" where
  "array_equal_real lvalue rvalue lfactor rfactor =
     (if feq lfactor rfactor then fEqual32 lvalue rvalue
      else if flt lfactor rfactor then fEqual32 lvalue (convRealToUnitFactor rvalue rfactor lfactor)
      else fEqual32 rvalue (convRealToUnitFactor lvalue lfactor rfactor))"

text \<open>The loop over the elements \<open>i\<close>, \<open>i + 1\<close>, ..., of which \<open>k\<close> are left.\<close>

fun array_equal_loop ::
    "('v \<Rightarrow> 'v \<Rightarrow> vmfloat \<Rightarrow> vmfloat \<Rightarrow> bool) \<Rightarrow> 'v array_ops \<Rightarrow> 'v array_ops \<Rightarrow> nat \<Rightarrow> nat \<Rightarrow> vm \<Rightarrow>
     bool option" where
  "array_equal_loop eq la ra i 0 s = Some True"
| "array_equal_loop eq la ra i (Suc k) s = do {
     lvalue \<leftarrow> evalElement la (of_nat i) s;
     rvalue \<leftarrow> evalElement ra (of_nat i) s;
     lfactor \<leftarrow> unitFactorOfElement la (of_nat i) s;
     rfactor \<leftarrow> unitFactorOfElement ra (of_nat i) s;
     if eq lvalue rvalue lfactor rfactor then array_equal_loop eq la ra (Suc i) k s
     else Some False }"

definition CoreVMFunction_array_equal_exec :: "node list \<Rightarrow> vm \<Rightarrow> (nat \<times> vm) option" where
  "CoreVMFunction_array_equal_exec args s = do {
     l \<leftarrow> nth_opt args 0;
     r \<leftarrow> nth_opt args 1;
     nl \<leftarrow> asArray_arraySize l s;
     nr \<leftarrow> asArray_arraySize r s;
     if nl \<noteq> nr then VMIntResultFunction_successResult Fn_array_equal 0 s
     else do {
       b \<leftarrow> (if exprType l = INT_ARR_EXPR then do {
               lia \<leftarrow> asIntArray l;
               ria \<leftarrow> asIntArray r;
               array_equal_loop array_equal_int lia ria 0 (nat (sint nl)) s }
             else do {
               lra \<leftarrow> asRealArray l;
               rra \<leftarrow> asRealArray r;
               array_equal_loop array_equal_real lra rra 0 (nat (sint nl)) s });
       VMIntResultFunction_successResult Fn_array_equal (if b then 1 else 0) s } }"

definition CoreVMFunction_array_equal :: VMFunction where
  "CoreVMFunction_array_equal = (VMIntResultFunction Fn_array_equal)
     \<lparr>returnUnitType := (\<lambda>args. Some VM_NO_UNIT), returnsFinal := (\<lambda>args. Some False),
      minRequiredArgs := 2, maxAllowedArgs := (\<lambda>s. 2), acceptsArgType := (\<lambda>s i. isArray),
      checkArgs := CoreVMFunction_array_equal_checkArgs,
      fn_exec := CoreVMFunction_array_equal_exec\<rparr>"

definition CoreVMFunction_search_acceptsArgType :: "nat \<Rightarrow> ExprType_t \<Rightarrow> bool" where
  "CoreVMFunction_search_acceptsArgType iArg type =
     (if iArg = 0 then isArray type else type = INT_EXPR \<or> type = REAL_EXPR)"

definition search_type_msg :: "ExprType_t \<Rightarrow> ExprType_t \<Rightarrow> ExprType_t \<Rightarrow> string" where
  "search_type_msg a wanted actual = ''Argument 1 is '' @ typeStr a @ '', hence argument 2 should be ''
     @ typeStr wanted @ '', is '' @ typeStr actual @ '' though.''"

definition CoreVMFunction_search_checkArgs :: "node list \<Rightarrow> vm \<Rightarrow> ArgIssue list option" where
  "CoreVMFunction_search_checkArgs args s = do {
     a \<leftarrow> arg_exprType args 0;
     b \<leftarrow> arg_exprType args 1;
     Some (if a = INT_ARR_EXPR \<and> b \<noteq> INT_EXPR
           then [ArgErr (search_type_msg INT_ARR_EXPR INT_EXPR b)]
           else if a = REAL_ARR_EXPR \<and> b \<noteq> REAL_EXPR
           then [ArgErr (search_type_msg REAL_ARR_EXPR REAL_EXPR b)]
           else []) }"

fun search_loop :: "('v \<Rightarrow> bool) \<Rightarrow> 'v array_ops \<Rightarrow> nat \<Rightarrow> nat \<Rightarrow> vm \<Rightarrow> vmint option" where
  "search_loop found a i 0 s = Some (- 1)"
| "search_loop found a i (Suc k) s = do {
     v \<leftarrow> evalElement a (of_nat i) s;
     if found v then Some (of_nat i) else search_loop found a (Suc i) k s }"

definition CoreVMFunction_search_exec :: "node list \<Rightarrow> vm \<Rightarrow> (nat \<times> vm) option" where
  "CoreVMFunction_search_exec args s = do {
     a \<leftarrow> nth_opt args 0;
     n \<leftarrow> asArray_arraySize a s;
     if exprType a = INT_ARR_EXPR then do {
       b \<leftarrow> arg_asInt args 1;
       (needle, s) \<leftarrow> evalInt b s;
       arr \<leftarrow> asIntArray a;
       r \<leftarrow> search_loop (\<lambda>v. v = needle) arr 0 (nat (sint n)) s;
       VMIntResultFunction_successResult Fn_search r s }
     else do {
       b \<leftarrow> arg_asReal args 1;
       (needle, s) \<leftarrow> evalReal b s;
       arr \<leftarrow> asRealArray a;
       r \<leftarrow> search_loop (\<lambda>v. fEqual32 v needle) arr 0 (nat (sint n)) s;
       VMIntResultFunction_successResult Fn_search r s } }"

definition CoreVMFunction_search :: VMFunction where
  "CoreVMFunction_search = (VMIntResultFunction Fn_search)
     \<lparr>returnUnitType := (\<lambda>args. Some VM_NO_UNIT), returnsFinal := (\<lambda>args. Some False),
      minRequiredArgs := 2, maxAllowedArgs := (\<lambda>s. 2),
      acceptsArgType := (\<lambda>s. CoreVMFunction_search_acceptsArgType),
      checkArgs := CoreVMFunction_search_checkArgs, fn_exec := CoreVMFunction_search_exec\<rparr>"

section \<open>sort\<close>

text \<open>
  An element is the pair of its value and its unit factor (\<open>ScalarNmbrVal\<close>), ordered by the product
  of the two. Elements are read and written through the array's accessors (\<open>ArrElemRef\<close>).
\<close>

definition int_getProdValue :: "vmint \<times> vmfloat \<Rightarrow> vmfloat" where
  "int_getProdValue e = float_of_vmint (fst e) * snd e"

definition real_getProdValue :: "vmfloat \<times> vmfloat \<Rightarrow> vmfloat" where
  "real_getProdValue e = fst e * snd e"

definition ArrElemRef_get :: "'v array_ops \<Rightarrow> nat \<Rightarrow> vm \<Rightarrow> ('v \<times> vmfloat) option" where
  "ArrElemRef_get a i s = do {
     v \<leftarrow> evalElement a (of_nat i) s;
     f \<leftarrow> unitFactorOfElement a (of_nat i) s;
     Some (v, f) }"

definition ArrElemRef_assign :: "'v array_ops \<Rightarrow> nat \<Rightarrow> 'v \<times> vmfloat \<Rightarrow> vm \<Rightarrow> vm option" where
  "ArrElemRef_assign a i e s = do {
     s \<leftarrow> assignElement a (of_nat i) (fst e) s;
     assignElementUnitFactor a (of_nat i) (snd e) s }"

definition ArrElemRef_swap :: "'v array_ops \<Rightarrow> nat \<Rightarrow> nat \<Rightarrow> vm \<Rightarrow> vm option" where
  \<comment> \<open>the two functions \<open>swap\<close>\<close>
  "ArrElemRef_swap arr a b s = do {
     valueA \<leftarrow> evalElement arr (of_nat a) s;
     valueB \<leftarrow> evalElement arr (of_nat b) s;
     factorA \<leftarrow> unitFactorOfElement arr (of_nat a) s;
     factorB \<leftarrow> unitFactorOfElement arr (of_nat b) s;
     s \<leftarrow> ArrElemRef_assign arr a (valueB, factorB) s;
     ArrElemRef_assign arr b (valueA, factorA) s }"

fun read_elements :: "'v array_ops \<Rightarrow> nat \<Rightarrow> nat \<Rightarrow> vm \<Rightarrow> ('v \<times> vmfloat) list option" where
  "read_elements a i 0 s = Some []"
| "read_elements a i (Suc k) s = do {
     e \<leftarrow> ArrElemRef_get a i s;
     es \<leftarrow> read_elements a (Suc i) k s;
     Some (e # es) }"

fun write_elements :: "'v array_ops \<Rightarrow> nat \<Rightarrow> ('v \<times> vmfloat) list \<Rightarrow> vm \<Rightarrow> vm option" where
  "write_elements a i [] s = Some s"
| "write_elements a i (e # es) s = do {
     s \<leftarrow> ArrElemRef_assign a i e s;
     write_elements a (Suc i) es s }"

fun insort_by :: "('a \<Rightarrow> 'a \<Rightarrow> bool) \<Rightarrow> 'a \<Rightarrow> 'a list \<Rightarrow> 'a list" where
  "insort_by lt x [] = [x]"
| "insort_by lt x (y # ys) = (if lt y x then y # insort_by lt x ys else x # y # ys)"

definition std_sort :: "('a \<Rightarrow> 'a \<Rightarrow> bool) \<Rightarrow> 'a list \<Rightarrow> 'a list" where
  "std_sort lt xs = foldr (insort_by lt) xs []"

definition elem_less :: "bool \<Rightarrow> ('e \<Rightarrow> vmfloat) \<Rightarrow> 'e \<Rightarrow> 'e \<Rightarrow> bool" where
  \<comment> \<open>\<open>operator<\<close>, or \<open>DescArrExprSorter\<close> for a descending order\<close>
  "elem_less bAscending key a b =
     (if bAscending then flt (key a) (key b) else flt (key b) (key a))"

definition sort_array ::
    "('v \<times> vmfloat \<Rightarrow> vmfloat) \<Rightarrow> bool \<Rightarrow> 'v array_ops \<Rightarrow> vm \<Rightarrow> vm option" where
  "sort_array key bAscending a s = do {
     n \<leftarrow> arraySize a s;
     es \<leftarrow> read_elements a 0 (nat (sint n)) s;
     write_elements a 0 (std_sort (elem_less bAscending key) es) s }"

definition CoreVMFunction_sort_exec :: "node list \<Rightarrow> vm \<Rightarrow> (nat \<times> vm) option" where
  "CoreVMFunction_sort_exec args s = do {
     (bAscending, s) \<leftarrow> (if length args < 2 then Some (True, s)
        else do { b \<leftarrow> arg_asInt args 1; (v, s) \<leftarrow> evalInt b s; Some (v = 0, s) });
     e \<leftarrow> nth_opt args 0;
     s \<leftarrow> (if exprType e = INT_ARR_EXPR
          then do { a \<leftarrow> asIntArray e; sort_array int_getProdValue bAscending a s }
          else do { a \<leftarrow> asRealArray e; sort_array real_getProdValue bAscending a s });
     VMEmptyResultFunction_successResult Fn_sort s }"

definition CoreVMFunction_sort_acceptsArgType :: "nat \<Rightarrow> ExprType_t \<Rightarrow> bool" where
  "CoreVMFunction_sort_acceptsArgType iArg type =
     (if iArg = 0 then isArray type else type = INT_EXPR)"

definition CoreVMFunction_sort :: VMFunction where
  "CoreVMFunction_sort = (VMEmptyResultFunction Fn_sort)
     \<lparr>minRequiredArgs := 1, maxAllowedArgs := (\<lambda>s. 2),
      acceptsArgType := (\<lambda>s. CoreVMFunction_sort_acceptsArgType), modifiesArg := (\<lambda>i. i = 0),
      fn_exec := CoreVMFunction_sort_exec\<rparr>"

section \<open>Conversions, rounding, libm\<close>

text \<open>
  These classes have the same shape: one number argument whose unit type, unit factor and final
  quality carry over to the result. \<open>CoreVMFunction_<name>_impl\<close> are the methods of the source file,
  \<open>CoreVMFunction_<name>\<close> is the class of the header.
\<close>

definition real_result_exec :: "CoreFn \<Rightarrow> (vmfloat \<Rightarrow> vmfloat) \<Rightarrow> node list \<Rightarrow> vm \<Rightarrow> (nat \<times> vm) option" where
  "real_result_exec fn g args s = do {
     e \<leftarrow> arg_asReal args 0;
     (f, s) \<leftarrow> evalReal e s;
     uf \<leftarrow> unitFactor e s;
     VMRealResultFunction_successResultDef fn (g f) uf s }"

definition real_result_impl :: "CoreFn \<Rightarrow> (vmfloat \<Rightarrow> vmfloat) \<Rightarrow> VMFunction \<Rightarrow> VMFunction" where
  "real_result_impl fn g F = F\<lparr>returnUnitType := (\<lambda>args. arg_unitType args 0),
     returnsFinal := (\<lambda>args. arg_isFinal args 0), fn_exec := real_result_exec fn g\<rparr>"

definition unary_class :: "ExprType_t \<Rightarrow> VMFunction \<Rightarrow> VMFunction" where
  "unary_class ty F = F\<lparr>minRequiredArgs := 1, maxAllowedArgs := (\<lambda>s. 1),
     acceptsArgType := (\<lambda>s i t. t = ty), acceptsArgUnitType := (\<lambda>s i t. True),
     acceptsArgUnitPrefix := (\<lambda>s i t. True), acceptsArgFinal := (\<lambda>s i. True)\<rparr>"

definition CoreVMFunction_real_to_int_exec :: "node list \<Rightarrow> vm \<Rightarrow> (nat \<times> vm) option" where
  "CoreVMFunction_real_to_int_exec args s = do {
     e \<leftarrow> arg_asReal args 0;
     (f, s) \<leftarrow> evalReal e s;
     uf \<leftarrow> unitFactor e s;
     VMIntResultFunction_successResultDef Fn_real_to_int (vmint_of_float f) uf s }"

definition CoreVMFunction_real_to_int_impl :: "VMFunction \<Rightarrow> VMFunction" where
  "CoreVMFunction_real_to_int_impl F = F\<lparr>returnUnitType := (\<lambda>args. arg_unitType args 0),
     returnsFinal := (\<lambda>args. arg_isFinal args 0), fn_exec := CoreVMFunction_real_to_int_exec\<rparr>"

definition CoreVMFunction_real_to_int :: VMFunction where
  "CoreVMFunction_real_to_int =
     CoreVMFunction_real_to_int_impl (unary_class REAL_EXPR (VMIntResultFunction Fn_real_to_int))"

definition CoreVMFunction_int_to_real_exec :: "node list \<Rightarrow> vm \<Rightarrow> (nat \<times> vm) option" where
  "CoreVMFunction_int_to_real_exec args s = do {
     e \<leftarrow> arg_asInt args 0;
     (i, s) \<leftarrow> evalInt e s;
     uf \<leftarrow> unitFactor e s;
     VMRealResultFunction_successResultDef Fn_int_to_real (float_of_vmint i) uf s }"

definition CoreVMFunction_int_to_real_impl :: "VMFunction \<Rightarrow> VMFunction" where
  "CoreVMFunction_int_to_real_impl F = F\<lparr>returnUnitType := (\<lambda>args. arg_unitType args 0),
     returnsFinal := (\<lambda>args. arg_isFinal args 0), fn_exec := CoreVMFunction_int_to_real_exec\<rparr>"

definition CoreVMFunction_int_to_real :: VMFunction where
  "CoreVMFunction_int_to_real =
     CoreVMFunction_int_to_real_impl (unary_class INT_EXPR (VMRealResultFunction Fn_int_to_real))"

definition CoreVMFunction_round_impl :: "VMFunction \<Rightarrow> VMFunction" where
  "CoreVMFunction_round_impl = real_result_impl Fn_round roundf"

definition CoreVMFunction_round :: VMFunction where
  "CoreVMFunction_round =
     CoreVMFunction_round_impl (unary_class REAL_EXPR (VMRealResultFunction Fn_round))"

definition CoreVMFunction_ceil_impl :: "VMFunction \<Rightarrow> VMFunction" where
  "CoreVMFunction_ceil_impl = real_result_impl Fn_ceil ceilf"

definition CoreVMFunction_ceil :: VMFunction where
  "CoreVMFunction_ceil =
     CoreVMFunction_ceil_impl (unary_class REAL_EXPR (VMRealResultFunction Fn_ceil))"

definition CoreVMFunction_floor_impl :: "VMFunction \<Rightarrow> VMFunction" where
  "CoreVMFunction_floor_impl = real_result_impl Fn_floor floorf"

definition CoreVMFunction_floor :: VMFunction where
  "CoreVMFunction_floor =
     CoreVMFunction_floor_impl (unary_class REAL_EXPR (VMRealResultFunction Fn_floor))"

definition CoreVMFunction_sqrt_impl :: "clib \<Rightarrow> VMFunction \<Rightarrow> VMFunction" where
  "CoreVMFunction_sqrt_impl L = real_result_impl Fn_sqrt (cl_libm L Lm_sqrt)"

definition CoreVMFunction_sqrt :: "clib \<Rightarrow> VMFunction" where
  "CoreVMFunction_sqrt L =
     CoreVMFunction_sqrt_impl L (unary_class REAL_EXPR (VMRealResultFunction Fn_sqrt))"

definition CoreVMFunction_log_impl :: "clib \<Rightarrow> VMFunction \<Rightarrow> VMFunction" where
  "CoreVMFunction_log_impl L = real_result_impl Fn_log (cl_libm L Lm_log)"

definition CoreVMFunction_log :: "clib \<Rightarrow> VMFunction" where
  "CoreVMFunction_log L =
     CoreVMFunction_log_impl L (unary_class REAL_EXPR (VMRealResultFunction Fn_log))"

definition CoreVMFunction_log2_impl :: "clib \<Rightarrow> VMFunction \<Rightarrow> VMFunction" where
  "CoreVMFunction_log2_impl L = real_result_impl Fn_log2 (cl_libm L Lm_log2)"

definition CoreVMFunction_log2 :: "clib \<Rightarrow> VMFunction" where
  "CoreVMFunction_log2 L =
     CoreVMFunction_log2_impl L (unary_class REAL_EXPR (VMRealResultFunction Fn_log2))"

definition CoreVMFunction_log10_impl :: "clib \<Rightarrow> VMFunction \<Rightarrow> VMFunction" where
  "CoreVMFunction_log10_impl L = real_result_impl Fn_log10 (cl_libm L Lm_log10)"

definition CoreVMFunction_log10 :: "clib \<Rightarrow> VMFunction" where
  "CoreVMFunction_log10 L =
     CoreVMFunction_log10_impl L (unary_class REAL_EXPR (VMRealResultFunction Fn_log10))"

definition CoreVMFunction_exp_impl :: "clib \<Rightarrow> VMFunction \<Rightarrow> VMFunction" where
  "CoreVMFunction_exp_impl L = real_result_impl Fn_exp (cl_libm L Lm_exp)"

definition CoreVMFunction_exp :: "clib \<Rightarrow> VMFunction" where
  "CoreVMFunction_exp L =
     CoreVMFunction_exp_impl L (unary_class REAL_EXPR (VMRealResultFunction Fn_exp))"

definition CoreVMFunction_sin_impl :: "clib \<Rightarrow> VMFunction \<Rightarrow> VMFunction" where
  "CoreVMFunction_sin_impl L = real_result_impl Fn_sin (cl_libm L Lm_sin)"

definition CoreVMFunction_sin :: "clib \<Rightarrow> VMFunction" where
  "CoreVMFunction_sin L =
     CoreVMFunction_sin_impl L (unary_class REAL_EXPR (VMRealResultFunction Fn_sin))"

definition CoreVMFunction_cos_impl :: "clib \<Rightarrow> VMFunction \<Rightarrow> VMFunction" where
  "CoreVMFunction_cos_impl L = real_result_impl Fn_cos (cl_libm L Lm_cos)"

definition CoreVMFunction_cos :: "clib \<Rightarrow> VMFunction" where
  "CoreVMFunction_cos L =
     CoreVMFunction_cos_impl L (unary_class REAL_EXPR (VMRealResultFunction Fn_cos))"

definition CoreVMFunction_tan_impl :: "clib \<Rightarrow> VMFunction \<Rightarrow> VMFunction" where
  "CoreVMFunction_tan_impl L = real_result_impl Fn_tan (cl_libm L Lm_tan)"

definition CoreVMFunction_tan :: "clib \<Rightarrow> VMFunction" where
  "CoreVMFunction_tan L =
     CoreVMFunction_tan_impl L (unary_class REAL_EXPR (VMRealResultFunction Fn_tan))"

definition CoreVMFunction_asin_impl :: "clib \<Rightarrow> VMFunction \<Rightarrow> VMFunction" where
  "CoreVMFunction_asin_impl L = real_result_impl Fn_asin (cl_libm L Lm_asin)"

definition CoreVMFunction_asin :: "clib \<Rightarrow> VMFunction" where
  "CoreVMFunction_asin L =
     CoreVMFunction_asin_impl L (unary_class REAL_EXPR (VMRealResultFunction Fn_asin))"

definition CoreVMFunction_acos_impl :: "clib \<Rightarrow> VMFunction \<Rightarrow> VMFunction" where
  "CoreVMFunction_acos_impl L = real_result_impl Fn_acos (cl_libm L Lm_acos)"

definition CoreVMFunction_acos :: "clib \<Rightarrow> VMFunction" where
  "CoreVMFunction_acos L =
     CoreVMFunction_acos_impl L (unary_class REAL_EXPR (VMRealResultFunction Fn_acos))"

definition CoreVMFunction_atan_impl :: "clib \<Rightarrow> VMFunction \<Rightarrow> VMFunction" where
  "CoreVMFunction_atan_impl L = real_result_impl Fn_atan (cl_libm L Lm_atan)"

definition CoreVMFunction_atan :: "clib \<Rightarrow> VMFunction" where
  "CoreVMFunction_atan L =
     CoreVMFunction_atan_impl L (unary_class REAL_EXPR (VMRealResultFunction Fn_atan))"

definition CoreVMFunction_pow_exec :: "clib \<Rightarrow> node list \<Rightarrow> vm \<Rightarrow> (nat \<times> vm) option" where
  "CoreVMFunction_pow_exec L args s = do {
     arg0 \<leftarrow> arg_asReal args 0;
     arg1 \<leftarrow> arg_asReal args 1;
     (a, s) \<leftarrow> evalReal arg0 s;
     (b, s) \<leftarrow> evalReal arg1 s;
     uf \<leftarrow> unitFactor arg0 s;
     VMRealResultFunction_successResultDef Fn_pow (cl_powf L a b) uf s }"

definition CoreVMFunction_pow_impl :: "clib \<Rightarrow> VMFunction \<Rightarrow> VMFunction" where
  "CoreVMFunction_pow_impl L F = F
     \<lparr>acceptsArgUnitType := (\<lambda>s i t. if i = 0 then True else t = VM_NO_UNIT),
      acceptsArgUnitPrefix := (\<lambda>s i t. i = 0),
      returnUnitType := (\<lambda>args. arg_unitType args 0), returnsFinal := (\<lambda>args. arg_isFinal args 0),
      fn_exec := CoreVMFunction_pow_exec L\<rparr>"

definition CoreVMFunction_pow :: "clib \<Rightarrow> VMFunction" where
  "CoreVMFunction_pow L = CoreVMFunction_pow_impl L ((VMRealResultFunction Fn_pow)
     \<lparr>minRequiredArgs := 2, maxAllowedArgs := (\<lambda>s. 2), acceptsArgType := (\<lambda>s i t. t = REAL_EXPR),
      acceptsArgFinal := (\<lambda>s i. i = 0)\<rparr>)"

section \<open>All functions\<close>

fun coreFunction :: "clib \<Rightarrow> CoreFn \<Rightarrow> VMFunction" where
  "coreFunction L Fn_message = CoreVMFunction_message L"
| "coreFunction L Fn_exit = CoreVMFunction_exit"
| "coreFunction L Fn_wait = CoreVMFunction_wait"
| "coreFunction L Fn_abs = CoreVMFunction_abs"
| "coreFunction L Fn_random = CoreVMFunction_random L"
| "coreFunction L Fn_pow = CoreVMFunction_pow L"
| "coreFunction L Fn_num_elements = CoreVMFunction_num_elements"
| "coreFunction L Fn_inc = CoreVMFunction_inc"
| "coreFunction L Fn_dec = CoreVMFunction_dec"
| "coreFunction L Fn_in_range = CoreVMFunction_in_range"
| "coreFunction L Fn_sh_left = CoreVMFunction_sh_left"
| "coreFunction L Fn_sh_right = CoreVMFunction_sh_right"
| "coreFunction L Fn_msb = CoreVMFunction_msb"
| "coreFunction L Fn_lsb = CoreVMFunction_lsb"
| "coreFunction L Fn_min = CoreVMFunction_min"
| "coreFunction L Fn_max = CoreVMFunction_max"
| "coreFunction L Fn_array_equal = CoreVMFunction_array_equal"
| "coreFunction L Fn_search = CoreVMFunction_search"
| "coreFunction L Fn_sort = CoreVMFunction_sort"
| "coreFunction L Fn_int_to_real = CoreVMFunction_int_to_real"
| "coreFunction L Fn_real_to_int = CoreVMFunction_real_to_int"
| "coreFunction L Fn_round = CoreVMFunction_round"
| "coreFunction L Fn_ceil = CoreVMFunction_ceil"
| "coreFunction L Fn_floor = CoreVMFunction_floor"
| "coreFunction L Fn_sqrt = CoreVMFunction_sqrt L"
| "coreFunction L Fn_log = CoreVMFunction_log L"
| "coreFunction L Fn_log2 = CoreVMFunction_log2 L"
| "coreFunction L Fn_log10 = CoreVMFunction_log10 L"
| "coreFunction L Fn_exp = CoreVMFunction_exp L"
| "coreFunction L Fn_sin = CoreVMFunction_sin L"
| "coreFunction L Fn_cos = CoreVMFunction_cos L"
| "coreFunction L Fn_tan = CoreVMFunction_tan L"
| "coreFunction L Fn_asin = CoreVMFunction_asin L"
| "coreFunction L Fn_acos = CoreVMFunction_acos L"
| "coreFunction L Fn_atan = CoreVMFunction_atan L"

end
