(* ===== verification/VMDenote.thy ===== *)
theory VMDenote
  imports VMVariables VMOperators CoreFunctions
begin

text \<open>
  Function calls (\<open>FunctionCall\<close> in \<open>tree.cpp\<close>), and the expression object of a parsed expression:
  \<open>denote\<close> builds the method table of an \<open>expr\<close> from the tables of its parts. \<open>L\<close> is the C library.
  A function call object derives from \<open>IntExpr\<close>, \<open>RealExpr\<close> and \<open>StringExpr\<close> whatever the function
  returns. \<open>None\<close> as function is the null pointer.
\<close>

section \<open>Function calls\<close>

definition FunctionCall_exprType :: "clib \<Rightarrow> CoreFn option \<Rightarrow> node list \<Rightarrow> ExprType_t" where
  "FunctionCall_exprType L fn args = (case fn of None \<Rightarrow> EMPTY_EXPR
     | Some f \<Rightarrow> (case returnType (coreFunction L f) args of Some t \<Rightarrow> t | None \<Rightarrow> EMPTY_EXPR))"

definition FunctionCall_unitType :: "clib \<Rightarrow> CoreFn option \<Rightarrow> node list \<Rightarrow> StdUnit_t" where
  "FunctionCall_unitType L fn args = (case fn of None \<Rightarrow> VM_NO_UNIT
     | Some f \<Rightarrow> (case returnUnitType (coreFunction L f) args of Some t \<Rightarrow> t | None \<Rightarrow> VM_NO_UNIT))"

definition FunctionCall_isFinal :: "clib \<Rightarrow> CoreFn option \<Rightarrow> node list \<Rightarrow> bool" where
  "FunctionCall_isFinal L fn args = (case fn of None \<Rightarrow> False
     | Some f \<Rightarrow> (case returnsFinal (coreFunction L f) args of Some b \<Rightarrow> b | None \<Rightarrow> False))"

definition FunctionCall_unitFactor :: "nat \<Rightarrow> CoreFn option \<Rightarrow> vm \<Rightarrow> vmfloat option" where
  "FunctionCall_unitFactor n fn s =
     (case fn of None \<Rightarrow> Some VM_NO_FACTOR
      | Some f \<Rightarrow> (case fnResult s n of
          Some (VMIntResult _ _ uf _) \<Rightarrow> Some uf
        | Some (VMRealResult _ _ uf _) \<Rightarrow> Some uf
        | _ \<Rightarrow> Some VM_NO_FACTOR))"

fun set_unitBaseType :: "StdUnit_t \<Rightarrow> VMFnResult \<Rightarrow> VMFnResult" where
  "set_unitBaseType u (VMIntResult fl v f _) = VMIntResult fl v f u"
| "set_unitBaseType u (VMRealResult fl v f _) = VMRealResult fl v f u"
| "set_unitBaseType u r = r"

definition FunctionCall_execVMFn ::
    "clib \<Rightarrow> nat \<Rightarrow> CoreFn option \<Rightarrow> node list \<Rightarrow> vm \<Rightarrow> (VMFnResult option \<times> vm) option" where
  "FunctionCall_execVMFn L n fn args s =
     (case fn of None \<Rightarrow> Some (None, s)
      | Some f \<Rightarrow>
         (let F = coreFunction L f;
              oldRes = boundResult s f;
              s1 = bindResult F (Some n) s in do {
            (res, s2) \<leftarrow> fn_exec F args s1;
            let s3 = bindResult F oldRes s2;
            r \<leftarrow> fnResult s3 res;
            let r = set_unitBaseType (FunctionCall_unitType L fn args) r;
            Some (Some r, s3\<lparr>fnResult := (fnResult s3)(res \<mapsto> r)\<rparr>) }))"

definition FunctionCall_exec ::
    "clib \<Rightarrow> nat \<Rightarrow> CoreFn option \<Rightarrow> node list \<Rightarrow> StmtFlags_t eval" where
  "FunctionCall_exec L n fn args s = do {
     (result, s) \<leftarrow> FunctionCall_execVMFn L n fn args s;
     (case result of None \<Rightarrow> Some (STMT_ABORT_SIGNALLED OR STMT_ERROR_OCCURRED, s)
      | Some r \<Rightarrow> Some (VMFnResult_resultFlags r, s)) }"

definition FunctionCall_evalInt :: "clib \<Rightarrow> nat \<Rightarrow> CoreFn option \<Rightarrow> node list \<Rightarrow> vmint eval" where
  "FunctionCall_evalInt L n fn args s = do {
     (result, s) \<leftarrow> FunctionCall_execVMFn L n fn args s;
     (case result of Some (VMIntResult _ v _ _) \<Rightarrow> Some (v, s) | _ \<Rightarrow> Some (0, s)) }"

definition FunctionCall_evalReal :: "clib \<Rightarrow> nat \<Rightarrow> CoreFn option \<Rightarrow> node list \<Rightarrow> vmfloat eval" where
  "FunctionCall_evalReal L n fn args s = do {
     (result, s) \<leftarrow> FunctionCall_execVMFn L n fn args s;
     (case result of Some (VMRealResult _ v _ _) \<Rightarrow> Some (v, s) | _ \<Rightarrow> Some (0, s)) }"

definition FunctionCall_evalStr :: "clib \<Rightarrow> nat \<Rightarrow> CoreFn option \<Rightarrow> node list \<Rightarrow> string eval" where
  "FunctionCall_evalStr L n fn args s = do {
     (result, s) \<leftarrow> FunctionCall_execVMFn L n fn args s;
     (case result of Some (VMStringResult _ t) \<Rightarrow> Some (t, s) | _ \<Rightarrow> Some ('''', s)) }"

definition FunctionCall_evalCastToStr ::
    "clib \<Rightarrow> nat \<Rightarrow> CoreFn option \<Rightarrow> node list \<Rightarrow> string eval" where
  "FunctionCall_evalCastToStr L n fn args s = do {
     (result, s) \<leftarrow> FunctionCall_execVMFn L n fn args s;
     (case result of
        Some (VMStringResult _ t) \<Rightarrow> Some (t, s)
      | Some (VMRealResult _ v uf u) \<Rightarrow> Some (cl_real_to_str L v @ unitToStr L u uf, s)
      | Some (VMIntResult _ v uf u) \<Rightarrow> Some (int_to_str (sint v) @ unitToStr L u uf, s)
      | _ \<Rightarrow> Some ('''', s)) }"

definition Args_isPolyphonic :: "node list \<Rightarrow> bool" where
  "Args_isPolyphonic args = list_ex isPolyphonic args"

definition FunctionCall_node :: "clib \<Rightarrow> nat \<Rightarrow> CoreFn option \<Rightarrow> node list \<Rightarrow> node" where
  "FunctionCall_node L n fn args = base_node
     \<lparr>exprType := FunctionCall_exprType L fn args, isConstExpr := False,
      isPolyphonic := Args_isPolyphonic args, isFinal := FunctionCall_isFinal L fn args,
      unitType := FunctionCall_unitType L fn args,
      isIntExpr := True, isRealExpr := True, isStringExpr := True,
      evalInt := FunctionCall_evalInt L n fn args, evalReal := FunctionCall_evalReal L n fn args,
      evalStr := FunctionCall_evalStr L n fn args,
      evalCastToStr := FunctionCall_evalCastToStr L n fn args,
      unitFactor := FunctionCall_unitFactor n fn\<rparr>"

section \<open>Expression objects of parsed expressions\<close>

primrec denote :: "clib \<Rightarrow> expr \<Rightarrow> node" where
  "denote L (IntLiteral v f u b) = IntLiteral_node L v f u b"
| "denote L (RealLiteral v f u b) = RealLiteral_node L v f u b"
| "denote L (StringLiteral t) = StringLiteral_node t"
| "denote L (IntVariable d) = IntVariable_node L d"
| "denote L (RealVariable d) = RealVariable_node L d"
| "denote L (ConstIntVariable v f u b) = ConstIntVariable_node L v f u b"
| "denote L (ConstRealVariable v f u b) = ConstRealVariable_node L v f u b"
| "denote L (BuiltInIntVariable nm p) = BuiltInIntVariable_node L p"
| "denote L (IntArrayVariable a c) = IntArrayVariable_node L a c"
| "denote L (RealArrayVariable a c) = RealArrayVariable_node L a c"
| "denote L (BuiltInIntArrayVariable nm a r) = BuiltInIntArrayVariable_node L a r"
| "denote L (IntArrayElement n a i) = IntArrayElement_node L n (denote L a) (denote L i)"
| "denote L (RealArrayElement n a i) = RealArrayElement_node L n (denote L a) (denote L i)"
| "denote L (StringVariable p) = StringVariable_node p"
| "denote L (ConstStringVariable t) = ConstStringVariable_node t"
| "denote L (DynamicVariableCall nm v) = DynamicVariableCall_node v"
| "denote L (FunctionCall n nm args fn) = FunctionCall_node L n fn (map (denote L) args)"
| "denote L (Add l r) = Add_node L (denote L l) (denote L r)"
| "denote L (Sub l r) = Sub_node L (denote L l) (denote L r)"
| "denote L (Mul l r) = Mul_node L (denote L l) (denote L r)"
| "denote L (Div l r) = Div_node L (denote L l) (denote L r)"
| "denote L (Mod l r) = Mod_node L (denote L l) (denote L r)"
| "denote L (Neg e) = Neg_node (denote L e)"
| "denote L (ConcatString l r) = ConcatString_node (denote L l) (denote L r)"
| "denote L (Relation l t r) = Relation_node L (denote L l) t (denote L r)"
| "denote L (Or l r) = Or_node L (denote L l) (denote L r)"
| "denote L (BitwiseOr l r) = BitwiseOr_node L (denote L l) (denote L r)"
| "denote L (And l r) = And_node L (denote L l) (denote L r)"
| "denote L (BitwiseAnd l r) = BitwiseAnd_node L (denote L l) (denote L r)"
| "denote L (Not e) = Not_node L (denote L e)"
| "denote L (BitwiseNot e) = BitwiseNot_node L (denote L e)"
| "denote L (Final e) = Final_node L (denote L e)"

text \<open>The evaluation methods of a parsed expression.\<close>

definition eval_int :: "clib \<Rightarrow> expr \<Rightarrow> vmint eval" where
  "eval_int L e = asInt_evalInt (denote L e)"

definition eval_real :: "clib \<Rightarrow> expr \<Rightarrow> vmfloat eval" where
  "eval_real L e = asReal_evalReal (denote L e)"

definition eval_text :: "clib \<Rightarrow> expr \<Rightarrow> string eval" where
  "eval_text L e = evalCastToStr (denote L e)"

end
