(* ===== verification/ScriptVM.thy ===== *)
theory ScriptVM
  imports VMDenote
begin

text \<open>
  The virtual machine of \<open>ScriptVM.cpp\<close>, with the statement classes and \<open>ExecContext\<close> of \<open>tree.h\<close> and
  \<open>tree.cpp\<close>. \<open>exec_iteration\<close> is one pass through the body of the main loop of \<open>ScriptVM::exec()\<close>;
  its state is the virtual machine with the loop's two local variables. \<open>exec_loop\<close> runs the loop
  with \<open>fuel\<close> passes at most and tells running out of fuel from undefined behaviour (\<open>Crashed\<close>).
\<close>

section \<open>Leaf statements\<close>

definition Assignment_exec :: "clib \<Rightarrow> expr option \<Rightarrow> expr \<Rightarrow> StmtFlags_t eval" where
  "Assignment_exec L variable val s = (case variable of
     None \<Rightarrow> Some (STMT_ABORT_SIGNALLED OR STMT_ERROR_OCCURRED, s)
   | Some v \<Rightarrow> do {
       s \<leftarrow> assign (denote L v) (rnode.truncate (denote L val)) s;
       Some (STMT_SUCCESS, s) })"

fun LeafStatement_exec :: "clib \<Rightarrow> stmt \<Rightarrow> StmtFlags_t eval" where
  "LeafStatement_exec L (Assignment v e) s = Assignment_exec L v e s"
| "LeafStatement_exec L (CallStatement (FunctionCall n nm args fn)) s =
     FunctionCall_exec L n fn (map (denote L) args) s"
| "LeafStatement_exec L _ s = None"

section \<open>Lists, branches, loops\<close>

definition Statements_statement :: "stmt list \<Rightarrow> int \<Rightarrow> stmt option" where
  \<comment> \<open>the parameter is unsigned, so a negative index is out of range\<close>
  "Statements_statement args i = (if 0 \<le> i then nth_opt args (nat i) else None)"

definition If_evalBranch :: "clib \<Rightarrow> expr \<Rightarrow> stmt list option \<Rightarrow> int eval" where
  "If_evalBranch L condition elseStatements s = do {
     (v, s) \<leftarrow> eval_int L condition s;
     Some (if v \<noteq> 0 then 0 else if elseStatements \<noteq> None then 1 else - 1, s) }"

definition If_branch :: "stmt list \<Rightarrow> stmt list option \<Rightarrow> nat \<Rightarrow> stmt option" where
  "If_branch ifStatements elseStatements i =
     (if i = 0 then Some (Statements ifStatements)
      else if i = 1 then map_option Statements elseStatements
      else None)"

fun SelectCase_evalBranch_loop ::
    "clib \<Rightarrow> vmint \<Rightarrow> (expr \<times> expr option \<times> stmt list) list \<Rightarrow> int \<Rightarrow> int eval" where
  "SelectCase_evalBranch_loop L v [] i s = Some (- 1, s)"
| "SelectCase_evalBranch_loop L v ((from, Some to, _) # bs) i s = do {
     (lo, s) \<leftarrow> eval_int L from s;
     if sint lo \<le> sint v then do {
       (hi, s) \<leftarrow> eval_int L to s;
       if sint v \<le> sint hi then Some (i, s) else SelectCase_evalBranch_loop L v bs (i + 1) s }
     else SelectCase_evalBranch_loop L v bs (i + 1) s }"
| "SelectCase_evalBranch_loop L v ((from, None, _) # bs) i s = do {
     (k, s) \<leftarrow> eval_int L from s;
     if k = v then Some (i, s) else SelectCase_evalBranch_loop L v bs (i + 1) s }"

definition SelectCase_evalBranch ::
    "clib \<Rightarrow> expr \<Rightarrow> (expr \<times> expr option \<times> stmt list) list \<Rightarrow> int eval" where
  "SelectCase_evalBranch L select branches s = do {
     (v, s) \<leftarrow> eval_int L select s;
     SelectCase_evalBranch_loop L v branches 0 s }"

definition SelectCase_branch :: "(expr \<times> expr option \<times> stmt list) list \<Rightarrow> nat \<Rightarrow> stmt option" where
  "SelectCase_branch branches i = map_option (\<lambda>(_, _, st). Statements st) (nth_opt branches i)"

fun BranchStatement_evalBranch :: "clib \<Rightarrow> stmt \<Rightarrow> int eval" where
  "BranchStatement_evalBranch L (If c t e) s = If_evalBranch L c e s"
| "BranchStatement_evalBranch L (SelectCase v bs) s = SelectCase_evalBranch L v bs s"
| "BranchStatement_evalBranch L _ s = None"

fun BranchStatement_branch :: "stmt \<Rightarrow> nat \<Rightarrow> stmt option" where
  "BranchStatement_branch (If c t e) i = If_branch t e i"
| "BranchStatement_branch (SelectCase v bs) i = SelectCase_branch bs i"
| "BranchStatement_branch _ i = None"

definition While_evalLoopStartCondition :: "clib \<Rightarrow> expr \<Rightarrow> bool eval" where
  "While_evalLoopStartCondition L condition s = do {
     (v, s) \<leftarrow> eval_int L condition s;
     Some (v \<noteq> 0, s) }"

section \<open>Polyphonic statements\<close>

definition If_isPolyphonic :: "bool \<Rightarrow> bool \<Rightarrow> bool option \<Rightarrow> bool" where
  "If_isPolyphonic condition ifStatements elseStatements =
     (if condition \<or> ifStatements then True
      else case elseStatements of Some b \<Rightarrow> b | None \<Rightarrow> False)"

definition SelectCase_isPolyphonic :: "bool \<Rightarrow> bool list \<Rightarrow> bool" where
  "SelectCase_isPolyphonic select branches = (if select then True else list_ex (\<lambda>b. b) branches)"

fun stmt_isPolyphonic :: "clib \<Rightarrow> stmt \<Rightarrow> bool" where
  "stmt_isPolyphonic L NoOperation = False"
| "stmt_isPolyphonic L (Assignment v e) =
     ((case v of Some v \<Rightarrow> isPolyphonic (denote L v) | None \<Rightarrow> False) \<or> isPolyphonic (denote L e))"
| "stmt_isPolyphonic L (CallStatement e) = isPolyphonic (denote L e)"
| "stmt_isPolyphonic L (Statements ss) = list_ex (stmt_isPolyphonic L) ss"
| "stmt_isPolyphonic L (If c t e) = If_isPolyphonic (isPolyphonic (denote L c))
     (list_ex (stmt_isPolyphonic L) t)
     (map_option (list_ex (stmt_isPolyphonic L)) e)"
| "stmt_isPolyphonic L (SelectCase v bs) = SelectCase_isPolyphonic (isPolyphonic (denote L v))
     (map (\<lambda>b. list_ex (stmt_isPolyphonic L) (snd (snd b))) bs)"
| "stmt_isPolyphonic L (While c b) =
     (isPolyphonic (denote L c) \<or>
      (case b of Some ss \<Rightarrow> list_ex (stmt_isPolyphonic L) ss | None \<Rightarrow> False))"
| "stmt_isPolyphonic L (SyncBlock b) =
     (case b of Some ss \<Rightarrow> list_ex (stmt_isPolyphonic L) ss | None \<Rightarrow> False)"

section \<open>The stack\<close>

definition max_list :: "nat list \<Rightarrow> nat" where
  \<comment> \<open>the loop \<open>if (max < size) max = size\<close>, which starts with 0\<close>
  "max_list xs = foldr max xs 0"

fun requiredMaxStackSizeFor :: "stmt \<Rightarrow> nat" where
  "requiredMaxStackSizeFor NoOperation = 1"
| "requiredMaxStackSizeFor (Assignment _ _) = 1"
| "requiredMaxStackSizeFor (CallStatement _) = 1"
| "requiredMaxStackSizeFor (Statements ss) = max_list (map requiredMaxStackSizeFor ss) + 1"
| "requiredMaxStackSizeFor (If c t e) =
     max_list ((max_list (map requiredMaxStackSizeFor t) + 1) #
       (case e of None \<Rightarrow> [] | Some ss \<Rightarrow> [max_list (map requiredMaxStackSizeFor ss) + 1])) + 1"
| "requiredMaxStackSizeFor (SelectCase v bs) =
     max_list (map (\<lambda>b. max_list (map requiredMaxStackSizeFor (snd (snd b))) + 1) bs) + 1"
| "requiredMaxStackSizeFor (While c b) = (case b of None \<Rightarrow> 1
     | Some ss \<Rightarrow> (max_list (map requiredMaxStackSizeFor ss) + 1) + 1)"
| "requiredMaxStackSizeFor (SyncBlock b) = (case b of None \<Rightarrow> 1
     | Some ss \<Rightarrow> (max_list (map requiredMaxStackSizeFor ss) + 1) + 1)"

definition requiredMaxStackSizeForHandlers :: "stmt list list \<Rightarrow> nat" where
  "requiredMaxStackSizeForHandlers handlers =
     foldl max 1 (map (\<lambda>h. requiredMaxStackSizeFor (Statements h)) handlers)"

definition empty_frame :: StackFrame where
  "empty_frame = \<lparr>sf_statement = None, sf_subindex = - 1\<rparr>"

definition pushStack :: "stmt option \<Rightarrow> ExecContext \<Rightarrow> ExecContext" where
  "pushStack st c =
     (let i = stackFrame c + 1; c = c\<lparr>stackFrame := i\<rparr> in
      if int (length (stack c)) \<le> i then c
      else c\<lparr>stack := (stack c)[nat i := \<lparr>sf_statement = st, sf_subindex = 0\<rparr>]\<rparr>)"

definition popStack :: "ExecContext \<Rightarrow> ExecContext" where
  "popStack c = c\<lparr>stack := (stack c)[nat (stackFrame c) := empty_frame],
                  stackFrame := stackFrame c - 1\<rparr>"

definition reset :: "ExecContext \<Rightarrow> ExecContext" where
  "reset c = c\<lparr>stack := (stack c)[0 := empty_frame], stackFrame := - 1, flags := STMT_SUCCESS\<rparr>"

definition set_subindex :: "nat \<Rightarrow> int \<Rightarrow> ExecContext \<Rightarrow> ExecContext" where
  "set_subindex i k c = c\<lparr>stack := (stack c)[i := ((stack c) ! i)\<lparr>sf_subindex := k\<rparr>]\<rparr>"

section \<open>The main loop\<close>

definition SCRIPTVM_MAX_INSTR_PER_CYCLE_SOFT :: int where
  [simp]: "SCRIPTVM_MAX_INSTR_PER_CYCLE_SOFT = 70"

definition SCRIPTVM_MAX_INSTR_PER_CYCLE_HARD :: int where
  [simp]: "SCRIPTVM_MAX_INSTR_PER_CYCLE_HARD = 210"

definition SCRIPT_VM_FORCE_SUSPENSION_MICROSECONDS :: vmint where
  "SCRIPT_VM_FORCE_SUSPENSION_MICROSECONDS = 1000"

record loop_state =
  ls_vm :: vm
  ls_counter :: int \<comment> \<open>\<open>instructionsCounter\<close>\<close>
  ls_synced :: int

definition force_suspension :: "ExecContext \<Rightarrow> ExecContext" where
  "force_suspension c = c\<lparr>flags := STMT_SUSPEND_SIGNALLED,
     suspendMicroseconds := SCRIPT_VM_FORCE_SUSPENSION_MICROSECONDS\<rparr>"

definition limit_reached :: "int \<Rightarrow> loop_state \<Rightarrow> bool" where
  "limit_reached limit l \<longleftrightarrow>
     flags (execCtx (ls_vm l)) = STMT_SUCCESS \<and> ls_synced l = 0 \<and> limit < ls_counter l"

definition upd_ls_ctx :: "(ExecContext \<Rightarrow> ExecContext) \<Rightarrow> loop_state \<Rightarrow> loop_state" where
  "upd_ls_ctx f l = l\<lparr>ls_vm := upd_ctx f (ls_vm l)\<rparr>"

text \<open>The cases of the \<open>switch\<close> over the type of the statement on top of the stack.\<close>

definition exec_leaf :: "clib \<Rightarrow> stmt \<Rightarrow> loop_state \<Rightarrow> loop_state option" where
  "exec_leaf L st l = do {
     (fl, s) \<leftarrow> LeafStatement_exec L st (ls_vm l);
     Some (upd_ls_ctx popStack (l\<lparr>ls_vm := set_flags fl s\<rparr>)) }"

definition exec_list :: "stmt list \<Rightarrow> nat \<Rightarrow> int \<Rightarrow> loop_state \<Rightarrow> loop_state" where
  "exec_list ss i subindex l = (case Statements_statement ss subindex of
     Some st \<Rightarrow> upd_ls_ctx (\<lambda>c. pushStack (Some st) (set_subindex i (subindex + 1) c)) l
   | None \<Rightarrow> upd_ls_ctx popStack l)"

definition exec_branch :: "clib \<Rightarrow> stmt \<Rightarrow> nat \<Rightarrow> int \<Rightarrow> loop_state \<Rightarrow> loop_state option" where
  "exec_branch L st i subindex l =
     (if subindex < 0 then Some (upd_ls_ctx popStack l)
      else do {
        (b, s) \<leftarrow> BranchStatement_evalBranch L st (ls_vm l);
        let l = upd_ls_ctx (set_subindex i b) (l\<lparr>ls_vm := s\<rparr>);
        if 0 \<le> b
        then Some (upd_ls_ctx (\<lambda>c. set_subindex i (- 1)
               (pushStack (BranchStatement_branch st (nat b)) c)) l)
        else Some (upd_ls_ctx popStack l) })"

definition exec_loop_stmt :: "clib \<Rightarrow> expr \<Rightarrow> stmt list option \<Rightarrow> loop_state \<Rightarrow> loop_state option" where
  "exec_loop_stmt L condition body l = do {
     (b, s) \<leftarrow> While_evalLoopStartCondition L condition (ls_vm l);
     let l = l\<lparr>ls_vm := s\<rparr>;
     (case (b, body) of
        (True, Some ss) \<Rightarrow>
          (let l = upd_ls_ctx (pushStack (Some (Statements ss))) l in
           if limit_reached SCRIPTVM_MAX_INSTR_PER_CYCLE_SOFT l
           then Some (upd_ls_ctx force_suspension l) else Some l)
      | _ \<Rightarrow> Some (upd_ls_ctx popStack l)) }"

definition exec_sync :: "stmt list option \<Rightarrow> nat \<Rightarrow> int \<Rightarrow> loop_state \<Rightarrow> loop_state" where
  "exec_sync body i subindex l =
     (let l' = upd_ls_ctx (set_subindex i (subindex + 1)) l in
      case (subindex = 0, body) of
        (True, Some ss) \<Rightarrow>
          upd_ls_ctx (pushStack (Some (Statements ss))) (l'\<lparr>ls_synced := ls_synced l' + 1\<rparr>)
      | _ \<Rightarrow> (upd_ls_ctx popStack l')\<lparr>ls_synced := ls_synced l' - 1\<rparr>)"

definition exec_statement :: "clib \<Rightarrow> stmt \<Rightarrow> nat \<Rightarrow> int \<Rightarrow> loop_state \<Rightarrow> loop_state option" where
  "exec_statement L st i subindex l = (case st of
     Assignment _ _ \<Rightarrow> exec_leaf L st l
   | CallStatement _ \<Rightarrow> exec_leaf L st l
   | Statements ss \<Rightarrow> Some (exec_list ss i subindex l)
   | If _ _ _ \<Rightarrow> exec_branch L st i subindex l
   | SelectCase _ _ \<Rightarrow> exec_branch L st i subindex l
   | While c b \<Rightarrow> exec_loop_stmt L c b l
   | SyncBlock b \<Rightarrow> Some (exec_sync b i subindex l)
   | NoOperation \<Rightarrow> Some l)"

definition check_hard_limit :: "loop_state \<Rightarrow> loop_state" where
  "check_hard_limit l =
     (let l' = (if limit_reached SCRIPTVM_MAX_INSTR_PER_CYCLE_HARD l
                then upd_ls_ctx force_suspension l else l)
      in l'\<lparr>ls_counter := ls_counter l' + 1\<rparr>)"

definition loop_condition :: "loop_state \<Rightarrow> bool" where
  "loop_condition l \<longleftrightarrow>
     flags (execCtx (ls_vm l)) = STMT_SUCCESS \<and> 0 \<le> stackFrame (execCtx (ls_vm l))"

definition stack_overflow :: "loop_state \<Rightarrow> bool" where
  "stack_overflow l \<longleftrightarrow>
     int (length (stack (execCtx (ls_vm l)))) \<le> stackFrame (execCtx (ls_vm l))"

definition exec_iteration :: "clib \<Rightarrow> loop_state \<Rightarrow> loop_state option" where
  "exec_iteration L l =
     (let c = execCtx (ls_vm l); i = nat (stackFrame c); frame = stack c ! i in do {
        st \<leftarrow> sf_statement frame;
        l \<leftarrow> exec_statement L st i (sf_subindex frame) l;
        Some (check_hard_limit l) })"

datatype 'a outcome = OutOfFuel | Crashed | Returned 'a

fun exec_loop :: "clib \<Rightarrow> nat \<Rightarrow> loop_state \<Rightarrow> loop_state outcome" where
  "exec_loop L 0 l = (if loop_condition l then OutOfFuel else Returned l)"
| "exec_loop L (Suc fuel) l =
     (if \<not> loop_condition l then Returned l
      else if stack_overflow l
      then Returned (upd_ls_ctx
             (\<lambda>c. c\<lparr>flags := STMT_ABORT_SIGNALLED OR STMT_ERROR_OCCURRED\<rparr>) l)
      else case exec_iteration L l of
             None \<Rightarrow> Crashed
           | Some l \<Rightarrow> exec_loop L fuel l)"

section \<open>ScriptVM::exec\<close>

definition exec_start :: "stmt list \<Rightarrow> vm \<Rightarrow> loop_state" where
  "exec_start h s =
     (let c = (execCtx s)\<lparr>status := VM_EXEC_RUNNING, instructionsCount := 0, exitRes := None\<rparr>;
          c = (if stackFrame c < 0 then pushStack (Some (Statements h)) (c\<lparr>stackFrame := - 1\<rparr>)
               else c)
      in \<lparr>ls_vm = s\<lparr>execCtx := c\<rparr>, ls_counter = 0, ls_synced = (if m_autoSuspend s then 0 else 1)\<rparr>)"

definition exec_end :: "loop_state \<Rightarrow> VMExecStatus_t \<times> vm" where
  "exec_end l =
     (let c = execCtx (ls_vm l); fl = flags c;
          c' = (if fl AND STMT_SUSPEND_SIGNALLED \<noteq> 0 \<and> fl AND STMT_ABORT_SIGNALLED = 0
                then c\<lparr>status := VM_EXEC_SUSPENDED, flags := STMT_SUCCESS\<rparr>
                else reset (c\<lparr>status := (if fl AND STMT_ERROR_OCCURRED \<noteq> 0 then VM_EXEC_ERROR
                                        else VM_EXEC_NOT_RUNNING)\<rparr>));
          c' = c'\<lparr>instructionsCount := nat (ls_counter l)\<rparr>
      in (status c', (ls_vm l)\<lparr>execCtx := c'\<rparr>))"

definition ScriptVM_exec :: "clib \<Rightarrow> nat \<Rightarrow> stmt list option \<Rightarrow> vm \<Rightarrow> (VMExecStatus_t \<times> vm) outcome" where
  "ScriptVM_exec L fuel handler s = (case handler of
     None \<Rightarrow> Returned (VM_EXEC_NOT_RUNNING, s)
   | Some h \<Rightarrow> (case exec_loop L fuel (exec_start h s) of
        OutOfFuel \<Rightarrow> OutOfFuel
      | Crashed \<Rightarrow> Crashed
      | Returned l \<Rightarrow> Returned (exec_end l)))"

section \<open>Execution contexts\<close>

definition new_ExecContext :: ExecContext where
  \<comment> \<open>the constructor\<close>
  "new_ExecContext = \<lparr>polyphonicIntMemory = [], polyphonicRealMemory = [],
     polyphonicUnitFactorMemory = [], status = VM_EXEC_NOT_RUNNING, flags = STMT_SUCCESS,
     stack = [], stackFrame = - 1, suspendMicroseconds = 0, instructionsCount = 0,
     exitRes = None\<rparr>"

definition createExecContext :: "stmt list list \<Rightarrow> nat \<Rightarrow> nat \<Rightarrow> nat \<Rightarrow> ExecContext" where
  "createExecContext handlers polyIntSize polyRealSize polyFactorSize = new_ExecContext
     \<lparr>stack := replicate (requiredMaxStackSizeForHandlers handlers) empty_frame,
      polyphonicIntMemory := replicate polyIntSize 0,
      polyphonicRealMemory := replicate polyRealSize 0,
      polyphonicUnitFactorMemory := replicate polyFactorSize VM_NO_FACTOR\<rparr>"

definition resetPolyphonicData :: "ExecContext \<Rightarrow> ExecContext" where
  "resetPolyphonicData c = c
     \<lparr>polyphonicIntMemory := replicate (length (polyphonicIntMemory c)) 0,
      polyphonicRealMemory := replicate (length (polyphonicRealMemory c)) 0,
      polyphonicUnitFactorMemory := replicate (length (polyphonicUnitFactorMemory c)) VM_NO_FACTOR\<rparr>"

definition signalAbort :: "ExecContext \<Rightarrow> ExecContext" where
  "signalAbort c = c\<lparr>flags := flags c OR STMT_ABORT_SIGNALLED\<rparr>"

text \<open>\<open>ArrayList::copyFlatFrom\<close> copies as many elements as both arrays have.\<close>

definition copyFlatFrom :: "'a list \<Rightarrow> 'a list \<Rightarrow> 'a list" where
  "copyFlatFrom this other = take (length this) other @ drop (length other) this"

definition forkTo :: "ExecContext \<Rightarrow> ExecContext \<Rightarrow> ExecContext" where
  "forkTo c child = child
     \<lparr>polyphonicIntMemory := copyFlatFrom (polyphonicIntMemory child) (polyphonicIntMemory c),
      polyphonicRealMemory := copyFlatFrom (polyphonicRealMemory child) (polyphonicRealMemory c),
      status := VM_EXEC_SUSPENDED,
      flags := STMT_SUCCESS,
      stack := copyFlatFrom (stack child) (stack c),
      stackFrame := stackFrame c,
      suspendMicroseconds := 0,
      instructionsCount := 0\<rparr>"

end
