(* ===== verification/VMFrame.thy ===== *)
theory VMFrame
  imports ScriptVM
begin

text \<open>
  What evaluating an expression may do to the state. The locale \<open>vm_frame\<close> is the contract of a
  relation \<open>R\<close> between the state before and after: it is a preorder and contains every elementary
  update an evaluation makes. Its lemmas lift \<open>R\<close> to the methods of all expression classes and
  built-in functions, up to \<open>denote_rel\<close>: any evaluation of any parsed expression, and any assignment
  to it, stays in \<open>R\<close>. The theory interprets the locale on the relations the later theories use: the
  control state of the execution context (\<open>same_control\<close>), the shape of the memory (\<open>same_shape\<close>),
  and the bindings of the functions' results (\<open>same_bindings\<close>).
\<close>

fun fn_class :: "CoreFn \<Rightarrow> VMFnResult \<Rightarrow> bool" where
  "fn_class Fn_message r = is_VMEmptyResult r"
| "fn_class Fn_exit r = is_VMEmptyResult r"
| "fn_class Fn_wait r = is_VMEmptyResult r"
| "fn_class Fn_sort r = is_VMEmptyResult r"
| "fn_class Fn_abs r = (is_VMIntResult r \<or> is_VMRealResult r)"
| "fn_class Fn_random r = (is_VMIntResult r \<or> is_VMRealResult r)"
| "fn_class Fn_min r = (is_VMIntResult r \<or> is_VMRealResult r)"
| "fn_class Fn_max r = (is_VMIntResult r \<or> is_VMRealResult r)"
| "fn_class Fn_num_elements r = is_VMIntResult r"
| "fn_class Fn_inc r = is_VMIntResult r"
| "fn_class Fn_dec r = is_VMIntResult r"
| "fn_class Fn_in_range r = is_VMIntResult r"
| "fn_class Fn_sh_left r = is_VMIntResult r"
| "fn_class Fn_sh_right r = is_VMIntResult r"
| "fn_class Fn_msb r = is_VMIntResult r"
| "fn_class Fn_lsb r = is_VMIntResult r"
| "fn_class Fn_array_equal r = is_VMIntResult r"
| "fn_class Fn_search r = is_VMIntResult r"
| "fn_class Fn_real_to_int r = is_VMIntResult r"
| "fn_class _ r = is_VMRealResult r"

lemmas core_function_defs = CoreVMFunction_message_def CoreVMFunction_exit_def
  CoreVMFunction_wait_def CoreVMFunction_abs_def CoreVMFunction_random_def
  CoreVMFunction_num_elements_def CoreVMFunction_inc_def CoreVMFunction_dec_def
  CoreVMFunction_in_range_def CoreVMFunction_sh_left_def CoreVMFunction_sh_right_def
  CoreVMFunction_msb_def CoreVMFunction_lsb_def CoreVMFunction_min_def CoreVMFunction_max_def
  CoreVMFunction_array_equal_def CoreVMFunction_search_def CoreVMFunction_sort_def
  CoreVMFunction_real_to_int_def CoreVMFunction_int_to_real_def CoreVMFunction_round_def
  CoreVMFunction_ceil_def CoreVMFunction_floor_def CoreVMFunction_sqrt_def CoreVMFunction_log_def
  CoreVMFunction_log2_def CoreVMFunction_log10_def CoreVMFunction_exp_def CoreVMFunction_pow_def
  CoreVMFunction_sin_def CoreVMFunction_cos_def CoreVMFunction_tan_def CoreVMFunction_asin_def
  CoreVMFunction_acos_def CoreVMFunction_atan_def

lemmas core_impl_defs = CoreVMFunction_real_to_int_impl_def CoreVMFunction_int_to_real_impl_def
  CoreVMFunction_round_impl_def CoreVMFunction_ceil_impl_def CoreVMFunction_floor_impl_def
  CoreVMFunction_sqrt_impl_def CoreVMFunction_log_impl_def CoreVMFunction_log2_impl_def
  CoreVMFunction_log10_impl_def CoreVMFunction_exp_impl_def CoreVMFunction_pow_impl_def
  CoreVMFunction_sin_impl_def CoreVMFunction_cos_impl_def CoreVMFunction_tan_impl_def
  CoreVMFunction_asin_impl_def CoreVMFunction_acos_impl_def CoreVMFunction_atan_impl_def
  real_result_impl_def unary_class_def

lemmas result_class_defs = VMEmptyResultFunction_def VMIntResultFunction_def
  VMRealResultFunction_def VMNumberResultFunction_def VMFunction_base_def
  VMEmptyResultFunction_bindResult_def VMIntResultFunction_bindResult_def
  VMRealResultFunction_bindResult_def VMNumberResultFunction_bindResult_def

lemma rebind_cong: "(\<And>r. P r = Q r) \<Longrightarrow> rebind f P = rebind f Q"
  by (subgoal_tac "P = Q") auto

lemma bindResult_coreFunction: "bindResult (coreFunction L f) = rebind f (fn_class f)"
  by (cases f; simp add: core_function_defs core_impl_defs result_class_defs; rule rebind_cong; simp)

section \<open>The contract of a frame relation\<close>

locale vm_frame =
  fixes R :: "vm \<Rightarrow> vm \<Rightarrow> bool"
  assumes R_refl: "R s s"
    and R_trans: "R s t \<Longrightarrow> R t u \<Longrightarrow> R s u"
    and R_polyInt: "length m = length (polyphonicIntMemory (execCtx s)) \<Longrightarrow>
      R s (s\<lparr>execCtx := (execCtx s)\<lparr>polyphonicIntMemory := m\<rparr>\<rparr>)"
    and R_polyReal: "length mr = length (polyphonicRealMemory (execCtx s)) \<Longrightarrow>
      R s (s\<lparr>execCtx := (execCtx s)\<lparr>polyphonicRealMemory := mr\<rparr>\<rparr>)"
    and R_polyUnit: "length mr = length (polyphonicUnitFactorMemory (execCtx s)) \<Longrightarrow>
      R s (s\<lparr>execCtx := (execCtx s)\<lparr>polyphonicUnitFactorMemory := mr\<rparr>\<rparr>)"
    and R_globalInt: "length m = length (globalIntMemory s) \<Longrightarrow> R s (s\<lparr>globalIntMemory := m\<rparr>)"
    and R_globalReal: "length mr = length (globalRealMemory s) \<Longrightarrow> R s (s\<lparr>globalRealMemory := mr\<rparr>)"
    and R_globalUnit:
      "length mr = length (globalUnitFactorMemory s) \<Longrightarrow> R s (s\<lparr>globalUnitFactorMemory := mr\<rparr>)"
    and R_globalStr: "length ms = length (globalStrMemory s) \<Longrightarrow> R s (s\<lparr>globalStrMemory := ms\<rparr>)"
    and R_intArrays: "a < length (intArrays s) \<Longrightarrow>
      length (ao_values oi) = length (ao_values (intArrays s ! a)) \<Longrightarrow>
      length (ao_unitFactors oi) = length (ao_unitFactors (intArrays s ! a)) \<Longrightarrow>
      R s (s\<lparr>intArrays := (intArrays s)[a := oi]\<rparr>)"
    and R_realArrays: "a < length (realArrays s) \<Longrightarrow>
      length (ao_values orl) = length (ao_values (realArrays s ! a)) \<Longrightarrow>
      length (ao_unitFactors orl) = length (ao_unitFactors (realArrays s ! a)) \<Longrightarrow>
      R s (s\<lparr>realArrays := (realArrays s)[a := orl]\<rparr>)"
    and R_int8Arrays: "a < length (int8Arrays s) \<Longrightarrow> a8_size o8 = a8_size (int8Arrays s ! a) \<Longrightarrow>
      length (a8_data o8) = length (a8_data (int8Arrays s ! a)) \<Longrightarrow>
      R s (s\<lparr>int8Arrays := (int8Arrays s)[a := o8]\<rparr>)"
    and R_objectBytes: "length bs = length (objectBytes s p) \<Longrightarrow>
      R s (s\<lparr>objectBytes := (objectBytes s)(p := bs)\<rparr>)"
    and R_currentIndex: "R s (s\<lparr>currentIndex := ci\<rparr>)"
    and R_fnResult: "fnResult s n = Some r \<Longrightarrow> VMFnResult_exprType r' = VMFnResult_exprType r \<Longrightarrow>
      R s (s\<lparr>fnResult := (fnResult s)(n \<mapsto> r')\<rparr>)"
    and R_call: "R (rebind f (fn_class f) (Some n) s) t \<Longrightarrow>
      R s (rebind f (fn_class f) (boundResult s f) t)"
    and R_messages: "R s (s\<lparr>messages := msgs\<rparr>)"
    and R_randPos: "R s (s\<lparr>randPos := k\<rparr>)"
    and R_clockPos: "R s (s\<lparr>clockPos := k\<rparr>)"
    and R_suspend: "R s (s\<lparr>execCtx := (execCtx s)\<lparr>suspendMicroseconds := us\<rparr>\<rparr>)"
    and R_exitRes: "R s (s\<lparr>execCtx := (execCtx s)\<lparr>exitRes := e\<rparr>\<rparr>)"
begin

text \<open>\<open>ok s0 m\<close>: when \<open>m\<close> succeeds, its state is related to \<open>s0\<close>; \<open>okS\<close> for results without a value.\<close>

definition ok :: "vm \<Rightarrow> ('b \<times> vm) option \<Rightarrow> bool" where
  "ok s0 m \<longleftrightarrow> (\<forall>v s. m = Some (v, s) \<longrightarrow> R s0 s)"

definition okS :: "vm \<Rightarrow> vm option \<Rightarrow> bool" where
  "okS s0 m \<longleftrightarrow> (\<forall>s. m = Some s \<longrightarrow> R s0 s)"

definition eval_rel :: "'b eval \<Rightarrow> bool" where
  "eval_rel m \<longleftrightarrow> (\<forall>s0. ok s0 (m s0))"

definition upd_rel :: "(vm \<Rightarrow> vm option) \<Rightarrow> bool" where
  "upd_rel m \<longleftrightarrow> (\<forall>s0. okS s0 (m s0))"

lemma ok_Some: "R s0 s \<Longrightarrow> ok s0 (Some (v, s))"
  by (simp add: ok_def)

lemma ok_None: "ok s0 None"
  by (simp add: ok_def)

lemma ok_bindP:
  "ok s0 m \<Longrightarrow> (\<And>v s. R s0 s \<Longrightarrow> ok s0 (f v s)) \<Longrightarrow> ok s0 (Option.bind m (\<lambda>(v, s). f v s))"
  unfolding ok_def by (cases m) auto

lemma ok_bindS: "okS s0 m \<Longrightarrow> (\<And>s. R s0 s \<Longrightarrow> ok s0 (f s)) \<Longrightarrow> ok s0 (Option.bind m f)"
  unfolding ok_def okS_def by (cases m) auto

lemma ok_bindV: "(\<And>x. m = Some x \<Longrightarrow> ok s0 (f x)) \<Longrightarrow> ok s0 (Option.bind m f)"
  unfolding ok_def by (cases m) auto

lemma ok_if: "(b \<Longrightarrow> ok s0 x) \<Longrightarrow> (\<not> b \<Longrightarrow> ok s0 y) \<Longrightarrow> ok s0 (if b then x else y)"
  by simp

lemma ok_eval: "R s0 s \<Longrightarrow> eval_rel m \<Longrightarrow> ok s0 (m s)"
  unfolding ok_def eval_rel_def by (blast intro: R_trans)

lemma okS_Some: "R s0 s \<Longrightarrow> okS s0 (Some s)"
  by (simp add: okS_def)

lemma okS_None: "okS s0 None"
  by (simp add: okS_def)

lemma okS_bindP:
  "ok s0 m \<Longrightarrow> (\<And>v s. R s0 s \<Longrightarrow> okS s0 (f v s)) \<Longrightarrow> okS s0 (Option.bind m (\<lambda>(v, s). f v s))"
  unfolding ok_def okS_def by (cases m) auto

lemma okS_bindS: "okS s0 m \<Longrightarrow> (\<And>s. R s0 s \<Longrightarrow> okS s0 (f s)) \<Longrightarrow> okS s0 (Option.bind m f)"
  unfolding okS_def by (cases m) auto

lemma okS_bindV: "(\<And>x. m = Some x \<Longrightarrow> okS s0 (f x)) \<Longrightarrow> okS s0 (Option.bind m f)"
  unfolding okS_def by (cases m) auto

lemma okS_if: "(b \<Longrightarrow> okS s0 x) \<Longrightarrow> (\<not> b \<Longrightarrow> okS s0 y) \<Longrightarrow> okS s0 (if b then x else y)"
  by simp

lemma okS_upd: "R s0 s \<Longrightarrow> upd_rel m \<Longrightarrow> okS s0 (m s)"
  unfolding okS_def upd_rel_def by (blast intro: R_trans)

lemma eval_relI: "(\<And>s. ok s (m s)) \<Longrightarrow> eval_rel m"
  by (simp add: eval_rel_def)

lemma upd_relI: "(\<And>s. okS s (m s)) \<Longrightarrow> upd_rel m"
  by (simp add: upd_rel_def)

lemmas ok_rules = ok_Some ok_None ok_bindP ok_bindS ok_if okS_Some okS_None okS_bindP okS_bindS
  okS_if ok_bindV okS_bindV R_refl

text \<open>The methods of an expression object stay in \<open>R\<close>; likewise the accessors of an array.\<close>

definition array_rel :: "'b array_ops \<Rightarrow> bool" where
  "array_rel a \<longleftrightarrow> (\<forall>i v. upd_rel (assignElement a i v)) \<and>
     (\<forall>i f. upd_rel (assignElementUnitFactor a i f))"

definition rnode_rel :: "'c rnode_scheme \<Rightarrow> bool" where
  "rnode_rel n \<longleftrightarrow> eval_rel (evalInt n) \<and> eval_rel (evalReal n) \<and> eval_rel (evalStr n) \<and>
     eval_rel (evalCastToStr n) \<and> (\<forall>a. asIntArray n = Some a \<longrightarrow> array_rel a) \<and>
     (\<forall>a. asRealArray n = Some a \<longrightarrow> array_rel a)"

definition node_rel :: "node \<Rightarrow> bool" where
  "node_rel n \<longleftrightarrow> rnode_rel n \<and> (\<forall>e :: rnode. rnode_rel e \<longrightarrow> upd_rel (assign n e))"

lemma rnode_relD:
  assumes "rnode_rel n"
  shows "eval_rel (evalInt n)" "eval_rel (evalReal n)" "eval_rel (evalStr n)"
    "eval_rel (evalCastToStr n)"
  using assms by (simp_all add: rnode_rel_def)

lemma rnode_rel_arrays:
  "rnode_rel n \<Longrightarrow> asIntArray n = Some a \<Longrightarrow> array_rel a"
  "rnode_rel n \<Longrightarrow> asRealArray n = Some b \<Longrightarrow> array_rel b"
  by (simp_all add: rnode_rel_def)

lemma array_relD:
  "array_rel a \<Longrightarrow> upd_rel (assignElement a i v)"
  "array_rel a \<Longrightarrow> upd_rel (assignElementUnitFactor a i f)"
  by (simp_all add: array_rel_def)

lemma node_rel_assign: "node_rel n \<Longrightarrow> rnode_rel e \<Longrightarrow> upd_rel (assign n e)" for e :: rnode
  by (simp add: node_rel_def)

lemma node_rel_rnode: "node_rel n \<Longrightarrow> rnode_rel n"
  by (simp add: node_rel_def)

lemmas ok_node = rnode_relD [THEN ok_eval [rotated]]
lemmas ok_array = array_relD [THEN okS_upd [rotated]]
lemmas ok_assign = node_rel_assign [THEN okS_upd [rotated]]

lemma cast_rel:
  assumes n: "rnode_rel n"
  shows "eval_rel (asInt_evalInt n)" "eval_rel (asReal_evalReal n)"
    "eval_rel (evalCastInt n)" "eval_rel (evalCastReal n)" "eval_rel (evalCastInt_prefix n p)"
proof -
  show i: "eval_rel (asInt_evalInt n)" and r: "eval_rel (asReal_evalReal n)"
    by (unfold asInt_evalInt_def asReal_evalReal_def,
        (rule eval_relI, (rule ok_rules ok_node n | assumption)+)+)
  note ir = ok_eval [OF _ i] ok_eval [OF _ r]
  show "eval_rel (evalCastInt n)" and c: "eval_rel (evalCastReal n)"
    by (unfold evalCastInt_def evalCastReal_def,
        (rule eval_relI, (rule ok_rules ir | assumption)+)+)
  show "eval_rel (evalCastInt_prefix n p)"
    by (unfold evalCastInt_prefix_def,
        (rule eval_relI, (rule ok_rules ok_eval [OF _ c] | assumption)+)+)
qed

lemmas ok_cast = cast_rel [THEN ok_eval [rotated]]
lemmas ok_intros = ok_rules ok_node ok_array ok_cast

lemma str_rel:
  shows "eval_rel evi \<Longrightarrow> eval_rel (IntExpr_evalCastToStr L evi uf ut)"
    "eval_rel evr \<Longrightarrow> eval_rel (RealExpr_evalCastToStr L evr uf ut)"
    "eval_rel (ArrayExpr_evalCastToStr L sv a)"
  by (unfold IntExpr_evalCastToStr_def RealExpr_evalCastToStr_def ArrayExpr_evalCastToStr_def,
      (rule eval_relI, (rule ok_rules ok_eval [where m = evi] ok_eval [where m = evr] | assumption)+)+)

section \<open>Operators\<close>

lemma operator_rel:
  assumes "node_rel l" and "node_rel r"
  shows "eval_rel (Add_evalInt l r)" "eval_rel (Add_evalReal l r)"
    "eval_rel (Sub_evalInt l r)" "eval_rel (Sub_evalReal l r)"
    "eval_rel (Mul_evalInt l r)" "eval_rel (Mul_evalReal l r)"
    "eval_rel (Div_evalInt l r)" "eval_rel (Div_evalReal l r)" "eval_rel (Mod_evalInt l r)"
    "eval_rel (ConcatString_evalStr l r)" "eval_rel (Relation_evalInt ty l r)"
    "eval_rel (Or_evalInt l r)" "eval_rel (And_evalInt l r)"
    "eval_rel (BitwiseOr_evalInt l r)" "eval_rel (BitwiseAnd_evalInt l r)"
proof -
  note lr = assms [THEN node_rel_rnode]
  note rules = ok_intros [unfolded split_def] lr
  show "eval_rel (Add_evalInt l r)" "eval_rel (Add_evalReal l r)"
    "eval_rel (Sub_evalInt l r)" "eval_rel (Sub_evalReal l r)"
    by (unfold Add_evalInt_def Add_evalReal_def Sub_evalInt_def Sub_evalReal_def split_def,
        (rule eval_relI, (rule rules | assumption)+)+)
  show "eval_rel (Mul_evalInt l r)" "eval_rel (Mul_evalReal l r)"
    "eval_rel (Div_evalInt l r)" "eval_rel (Div_evalReal l r)" "eval_rel (Mod_evalInt l r)"
    by (unfold Mul_evalInt_def Mul_evalReal_def Div_evalInt_def Div_evalReal_def Mod_evalInt_def
        split_def, (rule eval_relI, (rule rules | assumption)+)+)
  show "eval_rel (ConcatString_evalStr l r)" "eval_rel (Relation_evalInt ty l r)"
    by (unfold ConcatString_evalStr_def Relation_evalInt_def Relation_strings_def Let_def split_def,
        (rule eval_relI, (rule rules | assumption)+)+)
  show "eval_rel (Or_evalInt l r)" "eval_rel (And_evalInt l r)"
    "eval_rel (BitwiseOr_evalInt l r)" "eval_rel (BitwiseAnd_evalInt l r)"
    by (unfold Or_evalInt_def And_evalInt_def BitwiseOr_evalInt_def BitwiseAnd_evalInt_def split_def,
        (rule eval_relI, (rule rules | assumption)+)+)
qed

lemma unary_rel:
  assumes e: "node_rel e"
  shows "eval_rel (Neg_evalInt e)" "eval_rel (Neg_evalReal e)" "eval_rel (Final_evalCastToStr L e)"
    "eval_rel (Not_evalInt e)" "eval_rel (BitwiseNot_evalInt e)"
  by (unfold Neg_evalInt_def Neg_evalReal_def Final_evalCastToStr_def Not_evalInt_def
      BitwiseNot_evalInt_def,
      (rule eval_relI, (rule ok_intros node_rel_rnode [OF e] | assumption)+)+)

section \<open>Variables\<close>

lemma store_rel:
  "upd_rel (IntVariable_store d v)" "upd_rel (RealVariable_store d f)"
  "upd_rel (NumberVariable_setUnitFactor d f)"
  by (auto simp: upd_rel_def okS_def IntVariable_store_def RealVariable_store_def
      NumberVariable_setUnitFactor_def upd_opt_eq_Some_iff split: if_splits
      intro: R_polyInt R_polyReal R_polyUnit R_globalInt R_globalReal R_globalUnit)

lemmas ok_store = store_rel [THEN okS_upd [rotated]]

lemma read_rel:
  "eval_rel (IntVariable_evalInt d)" "eval_rel (RealVariable_evalReal d)"
  "eval_rel (BuiltInIntVariable_evalInt p)" "eval_rel (StringVariable_evalStr m)"
  by (unfold IntVariable_evalInt_def RealVariable_evalReal_def BuiltInIntVariable_evalInt_def
      StringVariable_evalStr_def, (rule eval_relI, (rule ok_rules | assumption)+)+)

lemma length_le_bytes [simp]: "length (le_bytes n k) = n"
  by (induction n arbitrary: k) auto

lemma store_bytes_rel: "upd_rel (store_bytes p n k)"
  by (auto simp: upd_rel_def okS_def store_bytes_def Let_def intro!: R_objectBytes)

lemma VMIntPtr_assign_rel: "upd_rel (VMIntPtr_assign p v)"
  by (cases p) (use store_bytes_rel in \<open>simp_all add: upd_rel_def\<close>)

lemma assign_rel:
  assumes e: "rnode_rel (e :: rnode)"
  shows "upd_rel (IntVariable_assign d e)" "upd_rel (RealVariable_assign d e)"
    "upd_rel (BuiltInIntVariable_assign p e)" "upd_rel (StringVariable_assign m e)"
proof -
  show "upd_rel (IntVariable_assign d e)" "upd_rel (RealVariable_assign d e)"
    "upd_rel (BuiltInIntVariable_assign p e)"
    by (unfold IntVariable_assign_def RealVariable_assign_def BuiltInIntVariable_assign_def,
        (rule upd_relI, (rule ok_intros ok_store okS_upd [OF _ VMIntPtr_assign_rel] e
          | assumption)+)+)
  have R: "R s0 (s\<lparr>globalStrMemory := m'\<rparr>)"
    if "R s0 s" "upd_opt (globalStrMemory s) m v = Some m'" for s0 s m' v
    using R_trans [OF that(1) R_globalStr] that(2) by (simp add: upd_opt_eq_Some_iff)
  show "upd_rel (StringVariable_assign m e)"
    by (unfold StringVariable_assign_def,
        rule upd_relI, (rule ok_intros e R | assumption)+)
qed

lemma array_ops_rel:
  "array_rel (IntArrayVariable_ops a)" "array_rel (RealArrayVariable_ops a)"
  "array_rel (BuiltInIntArrayVariable_ops a)"
proof -
  show "array_rel (IntArrayVariable_ops a)"
    by (auto simp: array_rel_def upd_rel_def okS_def IntArrayVariable_ops_def
        IntArrayVariable_assignIntElement_def IntArrayVariable_assignElementUnitFactor_def
        nth_opt_eq_Some_iff split: if_splits intro!: R_refl R_intArrays)
  show "array_rel (RealArrayVariable_ops a)"
    by (auto simp: array_rel_def upd_rel_def okS_def RealArrayVariable_ops_def
        RealArrayVariable_assignRealElement_def RealArrayVariable_assignElementUnitFactor_def
        nth_opt_eq_Some_iff split: if_splits intro!: R_refl R_realArrays)
  show "array_rel (BuiltInIntArrayVariable_ops a)"
    by (auto simp: array_rel_def upd_rel_def okS_def BuiltInIntArrayVariable_ops_def
        BuiltInIntArrayVariable_assignIntElement_def upd_opt_eq_Some_iff
        nth_opt_eq_Some_iff split: if_splits intro!: R_refl R_int8Arrays)
qed

lemma element_rel:
  assumes i: "node_rel i" and arr: "\<And>a. arr = Some a \<Longrightarrow> array_rel a"
  shows "eval_rel (ArrayElement_eval n arr i)" "upd_rel (ArrayElement_assign n arr i v f)"
proof -
  have idx: "eval_rel (ArrayElement_index n i)"
    unfolding ArrayElement_index_def
    by (rule eval_relI, (rule ok_intros node_rel_rnode [OF i]
        R_trans [OF _ R_currentIndex] | assumption)+)
  show "eval_rel (ArrayElement_eval n arr i)"
    by (unfold ArrayElement_eval_def,
        rule eval_relI, (rule ok_intros ok_eval [OF _ idx] | assumption)+)
  show "upd_rel (ArrayElement_assign n arr i v f)"
    by (unfold ArrayElement_assign_def,
        rule upd_relI, (rule ok_intros ok_eval [OF _ idx] arr | assumption)+)
qed

lemma element_assign_rel:
  assumes i: "node_rel i" and a: "node_rel a" and e: "rnode_rel (e :: rnode)"
  shows "upd_rel (IntArrayElement_assign n a i e)" "upd_rel (RealArrayElement_assign n a i e)"
proof -
  note ar = rnode_rel_arrays [OF node_rel_rnode [OF a]]
  show "upd_rel (IntArrayElement_assign n a i e)"
    by (unfold IntArrayElement_assign_def, rule upd_relI,
        (rule ok_intros e okS_upd [OF _ element_rel(2) [OF i ar(1)]] | assumption)+)
  show "upd_rel (RealArrayElement_assign n a i e)"
    by (unfold RealArrayElement_assign_def, rule upd_relI,
        (rule ok_intros e okS_upd [OF _ element_rel(2) [OF i ar(2)]] | assumption)+)
qed

lemma dynvar_rel: "eval_rel (CoreVMDynVar_evalInt v)"
  by (cases v) (auto simp: eval_rel_def ok_def R_clockPos)

lemma eval_rel_simple [simp]:
  "eval_rel (\<lambda>s. Some (v, s))" "eval_rel (\<lambda>s. None)" "upd_rel (\<lambda>s. Some s)" "upd_rel (\<lambda>s. None)"
  by (simp_all add: eval_rel_def upd_rel_def ok_def okS_def R_refl)

lemmas node_rel_defs = node_rel_def rnode_rel_def base_node_def IntExpr_node_def RealExpr_node_def
  StringExpr_node_def IntArrayExpr_node_def RealArrayExpr_node_def

lemma variable_node_rel:
  "node_rel (IntLiteral_node L v f u b)" "node_rel (RealLiteral_node L fv f u b)"
  "node_rel (StringLiteral_node t)" "node_rel (IntVariable_node L d)"
  "node_rel (RealVariable_node L d)" "node_rel (ConstIntVariable_node L v f u b)"
  "node_rel (ConstRealVariable_node L fv f u b)" "node_rel (BuiltInIntVariable_node L p)"
  "node_rel (IntArrayVariable_node L a c)" "node_rel (RealArrayVariable_node L a c)"
  "node_rel (BuiltInIntArrayVariable_node L a c)" "node_rel (StringVariable_node m)"
  "node_rel (ConstStringVariable_node t)"
  using assign_rel [unfolded rnode_rel_def] read_rel
  by (simp_all add: node_rel_defs IntLiteral_node_def RealLiteral_node_def StringLiteral_node_def
      IntVariable_node_def RealVariable_node_def ConstIntVariable_node_def
      ConstRealVariable_node_def BuiltInIntVariable_node_def IntArrayVariable_node_def
      RealArrayVariable_node_def BuiltInIntArrayVariable_node_def StringVariable_node_def
      ConstStringVariable_node_def str_rel array_ops_rel)

lemma dynvar_node_rel: "node_rel (DynamicVariableCall_node v)"
proof -
  have "eval_rel (\<lambda>s. do { (i, s) \<leftarrow> CoreVMDynVar_evalInt v s; Some (int_to_str (sint i), s) })"
    by (rule eval_relI, (rule ok_rules ok_eval [OF _ dynvar_rel] | assumption)+)
  then show ?thesis
    by (simp add: node_rel_defs DynamicVariableCall_node_def dynvar_rel)
qed

lemma element_node_rel:
  assumes a: "node_rel a" and i: "node_rel i"
  shows "node_rel (IntArrayElement_node L n a i)" "node_rel (RealArrayElement_node L n a i)"
proof -
  note ar = rnode_rel_arrays [OF node_rel_rnode [OF a]]
  note ev = element_rel(1) [OF i ar(1), of "asIntArray a", simplified]
    element_rel(1) [OF i ar(2), of "asRealArray a", simplified]
  show "node_rel (IntArrayElement_node L n a i)"
    using element_assign_rel(1) [OF i a] ev(1) [of n] str_rel(1) [OF ev(1)]
    by (simp add: node_rel_def IntArrayElement_node_def IntExpr_node_def base_node_def
        rnode_rel_def Let_def)
  show "node_rel (RealArrayElement_node L n a i)"
    using element_assign_rel(2) [OF i a] ev(2) [of n] str_rel(2) [OF ev(2)]
    by (simp add: node_rel_def RealArrayElement_node_def RealExpr_node_def base_node_def
        rnode_rel_def Let_def)
qed

lemma operator_node_rel:
  assumes "node_rel l" and "node_rel r"
  shows "node_rel (Add_node L l r)" "node_rel (Sub_node L l r)" "node_rel (Mul_node L l r)"
    "node_rel (Div_node L l r)" "node_rel (Mod_node L l r)" "node_rel (ConcatString_node l r)"
    "node_rel (Relation_node L l ty r)" "node_rel (Or_node L l r)" "node_rel (And_node L l r)"
    "node_rel (BitwiseOr_node L l r)" "node_rel (BitwiseAnd_node L l r)"
  using operator_rel [OF assms]
  by (simp_all add: node_rel_defs Add_node_def Sub_node_def Mul_node_def Div_node_def Mod_node_def
      ConcatString_node_def Relation_node_def Or_node_def And_node_def BitwiseOr_node_def
      BitwiseAnd_node_def VaritypeScalarBinaryOp_node_def IntBinaryOp_node_def BinaryOp_node_def
      VaritypeScalarBinaryOp_evalCastToStr_def Let_def str_rel)

lemma unary_node_rel:
  assumes "node_rel e"
  shows "node_rel (Neg_node e)" "node_rel (Final_node L e)" "node_rel (Not_node L e)"
    "node_rel (BitwiseNot_node L e)"
  using unary_rel [OF assms] cast_rel [OF node_rel_rnode [OF assms]]
    rnode_relD [OF node_rel_rnode [OF assms]]
  by (simp_all add: node_rel_def rnode_rel_def base_node_def IntExpr_node_def Neg_node_def
      Final_node_def Not_node_def BitwiseNot_node_def str_rel)

section \<open>Built-in functions\<close>

lemma R_steps:
  "R s0 s \<Longrightarrow> R s0 (printMsg t s)" "R s0 s \<Longrightarrow> R s0 (set_exitRes e s)"
  "R s0 s \<Longrightarrow> R s0 (upd_ctx (\<lambda>c. c\<lparr>suspendMicroseconds := us\<rparr>) s)"
  "R s0 s \<Longrightarrow> R s0 (s\<lparr>randPos := k\<rparr>)"
  by (auto simp: printMsg_def set_exitRes_def upd_ctx_def
      intro: R_trans R_messages R_exitRes R_suspend R_randPos)

lemma put_rel:
  "eval_rel (put_empty fn fl)" "eval_rel (put_int fn fl v uf)" "eval_rel (put_real fn fl f uf)"
  by (auto simp: eval_rel_def ok_def put_empty_def put_int_def put_real_def put_result_def
      split: if_splits intro!: R_fnResult elim!: is_VMEmptyResult.elims is_VMIntResult.elims
      is_VMRealResult.elims)

lemma result_rel:
  "eval_rel (VMEmptyResultFunction_errorResult fn)" "eval_rel (VMEmptyResultFunction_successResult fn)"
  "eval_rel (VMIntResultFunction_successResult fn v)"
  "eval_rel (VMIntResultFunction_successResultDef fn v uf)"
  "eval_rel (VMRealResultFunction_successResultDef fn f uf)"
  "eval_rel (VMNumberResultFunction_successIntResult fn v uf)"
  "eval_rel (VMNumberResultFunction_successRealResult fn f uf)"
  by (simp_all add: VMEmptyResultFunction_errorResult_def VMEmptyResultFunction_successResult_def
      VMIntResultFunction_successResult_def VMIntResultFunction_successResultDef_def
      VMRealResultFunction_successResultDef_def VMNumberResultFunction_successIntResult_def
      VMNumberResultFunction_successRealResult_def put_rel)

lemmas ok_result = result_rel [THEN ok_eval [rotated]] put_rel [THEN ok_eval [rotated]]
lemmas ok_fn = ok_intros ok_result R_steps

definition args_rel :: "node list \<Rightarrow> bool" where
  "args_rel args \<longleftrightarrow> (\<forall>n \<in> set args. node_rel n)"

lemma arg_rel:
  assumes "args_rel args"
  shows "nth_opt args i = Some e \<Longrightarrow> rnode_rel e" "arg_asNumber args i = Some e \<Longrightarrow> rnode_rel e"
    "arg_asInt args i = Some e \<Longrightarrow> rnode_rel e" "arg_asReal args i = Some e \<Longrightarrow> rnode_rel e"
    "nth_opt args i = Some e \<Longrightarrow> node_rel e"
  using assms
  by (auto simp: args_rel_def nth_opt_eq_Some_iff arg_asNumber_def arg_asInt_def arg_asReal_def
      split: if_splits intro!: node_rel_rnode)

lemma write_elements_rel: "array_rel a \<Longrightarrow> upd_rel (write_elements a i es)"
proof (induction es arbitrary: i)
  case Nil
  show ?case by (simp add: upd_rel_def okS_def R_refl)
next
  case (Cons e es)
  have "upd_rel (ArrElemRef_assign a i e)"
    unfolding ArrElemRef_assign_def
    by (rule upd_relI, (rule ok_intros Cons.prems | assumption)+)
  then show ?case
    unfolding write_elements.simps
    by - (rule upd_relI, (rule ok_rules okS_upd [OF _ Cons.IH [OF Cons.prems]]
      okS_upd [where m = "ArrElemRef_assign a i e"] | assumption)+)
qed

lemma sort_array_rel: "array_rel a \<Longrightarrow> upd_rel (sort_array key b a)"
  unfolding sort_array_def
  by (rule upd_relI, (rule ok_intros okS_upd [OF _ write_elements_rel] | assumption)+)

lemma tmp_IntLiteral_rel: "rnode_rel (tmp_IntLiteral i f)"
  by (simp add: rnode_rel_def tmp_IntLiteral_def base_node_def rnode.truncate_def)

lemma message_rel: "args_rel args \<Longrightarrow> eval_rel (CoreVMFunction_message_exec L args)"
  unfolding CoreVMFunction_message_exec_def
  by (rule eval_relI, (rule ok_fn arg_rel | assumption)+)

lemma exit_store_rel: "rnode_rel e \<Longrightarrow> upd_rel (CoreVMFunction_exit_store e)"
  unfolding CoreVMFunction_exit_store_def
  by (cases "exprType e"; simp only: ExprType_t.case)
    (rule upd_relI, (rule ok_fn | assumption)+)+

lemma exit_rel: "args_rel args \<Longrightarrow> eval_rel (CoreVMFunction_exit_exec args)"
  unfolding CoreVMFunction_exit_exec_def
  by (rule eval_relI, (rule ok_fn arg_rel okS_upd [OF _ exit_store_rel] | assumption)+)

lemma wait_rel: "args_rel args \<Longrightarrow> eval_rel (CoreVMFunction_wait_exec args)"
  unfolding CoreVMFunction_wait_exec_def
  by (rule eval_relI, (rule ok_fn arg_rel | assumption)+)

lemma abs_rel: "args_rel args \<Longrightarrow> eval_rel (CoreVMFunction_abs_exec args)"
  unfolding CoreVMFunction_abs_exec_def
  by (rule eval_relI, (rule ok_fn arg_rel | assumption)+)

lemma random_rel: "args_rel args \<Longrightarrow> eval_rel (CoreVMFunction_random_exec L args)"
  unfolding CoreVMFunction_random_exec_def c_rand_def Let_def prod.case
  by (rule eval_relI, (rule ok_fn arg_rel | assumption)+)

lemma num_elements_rel: "args_rel args \<Longrightarrow> eval_rel (CoreVMFunction_num_elements_exec args)"
  unfolding CoreVMFunction_num_elements_exec_def
  by (rule eval_relI, (rule ok_fn arg_rel | assumption)+)

lemma inc_dec_rel:
  assumes "args_rel args"
  shows "eval_rel (CoreVMFunction_inc_exec args)" "eval_rel (CoreVMFunction_dec_exec args)"
  by (unfold CoreVMFunction_inc_exec_def CoreVMFunction_dec_exec_def,
      (rule eval_relI, (rule ok_fn arg_rel [OF assms] okS_upd [OF _ node_rel_assign]
        tmp_IntLiteral_rel | assumption)+)+)

lemma in_range_rel: "args_rel args \<Longrightarrow> eval_rel (CoreVMFunction_in_range_exec args)"
  unfolding CoreVMFunction_in_range_exec_def
  by (rule eval_relI, (rule ok_fn arg_rel | assumption)+)

lemma shift_rel:
  assumes "args_rel args"
  shows "eval_rel (CoreVMFunction_sh_left_exec args)" "eval_rel (CoreVMFunction_sh_right_exec args)"
proof -
  have two: "ok s0 (Option.bind (eval2_ints args s) (\<lambda>(i, n, s). g i n s))"
    if "\<And>i n s. R s0 s \<Longrightarrow> ok s0 (g i n s)" "R s0 s" for s0 s and g :: "vmint \<Rightarrow> vmint \<Rightarrow> vm \<Rightarrow> (nat \<times> vm) option"
    unfolding eval2_ints_def Option.bind_assoc split_def
    using assms that
    by (auto simp: ok_def intro!: that
        elim!: bind_SomeE)
      (metis R_trans arg_rel(3) eval_rel_def ok_def rnode_relD(1))
  show "eval_rel (CoreVMFunction_sh_left_exec args)" "eval_rel (CoreVMFunction_sh_right_exec args)"
    by (unfold CoreVMFunction_sh_left_exec_def CoreVMFunction_sh_right_exec_def,
        (rule eval_relI, (rule two ok_result R_refl | assumption)+)+)
qed

lemma msb_lsb_rel:
  assumes "args_rel args"
  shows "eval_rel (CoreVMFunction_msb_exec args)" "eval_rel (CoreVMFunction_lsb_exec args)"
  by (unfold CoreVMFunction_msb_exec_def CoreVMFunction_lsb_exec_def,
      (rule eval_relI, (rule ok_fn arg_rel [OF assms] | assumption)+)+)

lemma minmax_rel:
  assumes "args_rel args"
  shows "eval_rel (minmax_exec fn pick args)"
  unfolding minmax_exec_def Let_def
  by (rule eval_relI, (rule ok_fn arg_rel [OF assms] | assumption)+)

lemma array_equal_rel: "args_rel args \<Longrightarrow> eval_rel (CoreVMFunction_array_equal_exec args)"
  unfolding CoreVMFunction_array_equal_exec_def
  by (rule eval_relI, (rule ok_fn arg_rel | assumption)+)

lemma search_rel: "args_rel args \<Longrightarrow> eval_rel (CoreVMFunction_search_exec args)"
  unfolding CoreVMFunction_search_exec_def
  by (rule eval_relI, (rule ok_fn arg_rel | assumption)+)

lemma sort_rel:
  assumes "args_rel args"
  shows "eval_rel (CoreVMFunction_sort_exec args)"
  unfolding CoreVMFunction_sort_exec_def
  by (rule eval_relI, (rule ok_fn arg_rel [OF assms] okS_upd [OF _ sort_array_rel]
      rnode_rel_arrays | assumption)+)

lemma conversion_rel:
  assumes "args_rel args"
  shows "eval_rel (real_result_exec fn g args)" "eval_rel (CoreVMFunction_real_to_int_exec args)"
    "eval_rel (CoreVMFunction_int_to_real_exec args)" "eval_rel (CoreVMFunction_pow_exec L args)"
  by (unfold real_result_exec_def CoreVMFunction_real_to_int_exec_def
      CoreVMFunction_int_to_real_exec_def CoreVMFunction_pow_exec_def,
      (rule eval_relI, (rule ok_fn arg_rel [OF assms] | assumption)+)+)

lemma fn_exec_rel: "args_rel args \<Longrightarrow> eval_rel (fn_exec (coreFunction L f) args)"
  by (cases f) (simp_all add: core_function_defs core_impl_defs message_rel exit_rel wait_rel abs_rel
      random_rel num_elements_rel inc_dec_rel in_range_rel shift_rel msb_lsb_rel minmax_rel
      CoreVMFunction_min_exec_def CoreVMFunction_max_exec_def
      array_equal_rel search_rel sort_rel conversion_rel)

section \<open>Function calls and whole expressions\<close>

lemma set_unitBaseType_class [simp]:
  "VMFnResult_exprType (set_unitBaseType u r) = VMFnResult_exprType r"
  by (cases r) auto

lemma execVMFn_rel:
  assumes "args_rel args"
  shows "eval_rel (FunctionCall_execVMFn L n fn args)"
proof (cases fn)
  case None
  then show ?thesis by (simp add: FunctionCall_execVMFn_def eval_rel_def ok_def R_refl)
next
  case (Some f)
  have "R s t" if ev: "FunctionCall_execVMFn L n fn args s = Some (v, t)" for s v t
  proof -
    from ev obtain res s2 r where
      x: "fn_exec (coreFunction L f) args (rebind f (fn_class f) (Some n) s) = Some (res, s2)"
      and r: "fnResult (rebind f (fn_class f) (boundResult s f) s2) res = Some r"
      and t: "t = (rebind f (fn_class f) (boundResult s f) s2)
        \<lparr>fnResult := (fnResult (rebind f (fn_class f) (boundResult s f) s2))
          (res \<mapsto> set_unitBaseType (FunctionCall_unitType L fn args) r)\<rparr>"
      by (auto simp: FunctionCall_execVMFn_def Some Let_def bindResult_coreFunction)
    have "R (rebind f (fn_class f) (Some n) s) s2"
      using fn_exec_rel [OF assms] x by (auto simp: eval_rel_def ok_def)
    then have "R s (rebind f (fn_class f) (boundResult s f) s2)"
      by (rule R_call)
    then show "R s t"
      unfolding t by (rule R_trans) (rule R_fnResult [OF r], simp)
  qed
  then show ?thesis by (simp add: eval_rel_def ok_def)
qed

lemma FunctionCall_rel:
  assumes "args_rel args"
  shows "eval_rel (FunctionCall_exec L n fn args)" "eval_rel (FunctionCall_evalInt L n fn args)"
    "eval_rel (FunctionCall_evalReal L n fn args)" "eval_rel (FunctionCall_evalStr L n fn args)"
    "eval_rel (FunctionCall_evalCastToStr L n fn args)"
  using execVMFn_rel [OF assms, of L n fn]
  by (auto simp: eval_rel_def ok_def FunctionCall_exec_def FunctionCall_evalInt_def
      FunctionCall_evalReal_def FunctionCall_evalStr_def FunctionCall_evalCastToStr_def
      split: option.splits VMFnResult.splits)

lemma FunctionCall_node_rel: "args_rel args \<Longrightarrow> node_rel (FunctionCall_node L n fn args)"
  by (simp add: node_rel_def rnode_rel_def FunctionCall_node_def base_node_def FunctionCall_rel)

theorem denote_rel: "node_rel (denote L e)"
proof (induction e)
  case (FunctionCall n nm args fn)
  then have "args_rel (map (denote L) args)" by (auto simp: args_rel_def)
  then show ?case by (simp add: FunctionCall_node_rel)
qed (simp_all add: variable_node_rel dynvar_node_rel element_node_rel operator_node_rel
      unary_node_rel)

lemma truncate_rel: "node_rel (n :: node) \<Longrightarrow> rnode_rel (rnode.truncate n)"
  by (simp add: node_rel_def rnode_rel_def rnode.truncate_def)

lemma args_denote_rel: "args_rel (map (denote L) args)"
  by (auto simp: args_rel_def denote_rel)

section \<open>Statements\<close>

theorem leaf_rel: "eval_rel (LeafStatement_exec L st)"
proof -
  have a: "eval_rel (Assignment_exec L v e)" for v e
  proof (cases v)
    case None
    then show ?thesis by (simp add: Assignment_exec_def eval_rel_def ok_def R_refl)
  next
    case (Some w)
    have "upd_rel (assign (denote L w) (rnode.truncate (denote L e)))"
      by (rule node_rel_assign [OF denote_rel truncate_rel [OF denote_rel]])
    with Some show ?thesis
      by (auto simp: Assignment_exec_def eval_rel_def ok_def upd_rel_def okS_def)
  qed
  note c = FunctionCall_rel(1) [OF args_denote_rel]
  show ?thesis
  proof (cases st)
    case (Assignment v e)
    then show ?thesis using a by (simp add: eval_rel_def)
  next
    case (CallStatement e)
    then show ?thesis using c by (cases e) (simp_all add: eval_rel_def ok_None)
  qed (simp_all add: eval_rel_def ok_None)
qed

lemma eval_expr_rel: "eval_rel (eval_int L e)" "eval_rel (eval_real L e)" "eval_rel (eval_text L e)"
  unfolding eval_int_def eval_real_def eval_text_def
  by (rule cast_rel rnode_relD node_rel_rnode denote_rel)+

lemma evalBranch_loop_rel: "eval_rel (SelectCase_evalBranch_loop L v bs i)"
proof (induction bs arbitrary: i)
  case Nil
  show ?case by (simp add: eval_rel_def ok_def R_refl)
next
  case (Cons b bs)
  note IH = Cons.IH [THEN ok_eval [rotated]]
  obtain fr to st where "b = (fr, to, st)" by (cases b)
  then show ?case
    by - (rule eval_relI, cases to, simp_all only: SelectCase_evalBranch_loop.simps,
      (rule ok_rules ok_eval [OF _ eval_expr_rel(1)] IH | assumption)+)
qed

theorem branch_rel: "eval_rel (BranchStatement_evalBranch L st)"
proof (cases st)
  case (If c t e)
  have "eval_rel (If_evalBranch L c e)"
    unfolding If_evalBranch_def
    by (rule eval_relI, (rule ok_rules ok_eval [OF _ eval_expr_rel(1)] | assumption)+)
  with If show ?thesis by (simp add: eval_rel_def)
next
  case (SelectCase v bs)
  have "eval_rel (SelectCase_evalBranch L v bs)"
    unfolding SelectCase_evalBranch_def
    by (rule eval_relI, (rule ok_rules ok_eval [OF _ eval_expr_rel(1)]
        ok_eval [OF _ evalBranch_loop_rel] | assumption)+)
  with SelectCase show ?thesis by (simp add: eval_rel_def)
qed (simp_all add: eval_rel_def ok_None)

theorem loop_condition_rel: "eval_rel (While_evalLoopStartCondition L c)"
  unfolding While_evalLoopStartCondition_def
  by (rule eval_relI, (rule ok_rules ok_eval [OF _ eval_expr_rel(1)] | assumption)+)

text \<open>The facts the interpretations are used for, without the vocabulary of this locale.\<close>

theorem eval_frame:
  "evalInt (denote L e) s = Some (i, s') \<Longrightarrow> R s s'"
  "evalReal (denote L e) s = Some (f, s') \<Longrightarrow> R s s'"
  "evalStr (denote L e) s = Some (t, s') \<Longrightarrow> R s s'"
  "evalCastToStr (denote L e) s = Some (t, s') \<Longrightarrow> R s s'"
  "eval_int L e s = Some (i, s') \<Longrightarrow> R s s'"
  using rnode_relD [OF node_rel_rnode [OF denote_rel [of L e]]] eval_expr_rel(1) [of L e]
  by (simp_all add: eval_rel_def ok_def)

theorem leaf_frame: "LeafStatement_exec L st s = Some (fl, s') \<Longrightarrow> R s s'"
  using leaf_rel [of L st] by (simp add: eval_rel_def ok_def)

theorem branch_frame: "BranchStatement_evalBranch L st s = Some (b, s') \<Longrightarrow> R s s'"
  using branch_rel [of L st] by (simp add: eval_rel_def ok_def)

theorem while_frame: "While_evalLoopStartCondition L c s = Some (q, s') \<Longrightarrow> R s s'"
  using loop_condition_rel [of L c] by (simp add: eval_rel_def ok_def)

theorem call_frame: "FunctionCall_execVMFn L n fn (map (denote L) args) s = Some (v, s') \<Longrightarrow> R s s'"
  using execVMFn_rel [OF args_denote_rel [of L args], of L n fn]
  by (simp add: eval_rel_def ok_def)

end

section \<open>Control state\<close>

text \<open>Evaluation leaves the stack, the flags and the status of the execution context alone.\<close>

definition same_control :: "vm \<Rightarrow> vm \<Rightarrow> bool" where
  "same_control s t \<longleftrightarrow>
     stack (execCtx t) = stack (execCtx s) \<and> stackFrame (execCtx t) = stackFrame (execCtx s) \<and>
     flags (execCtx t) = flags (execCtx s) \<and> status (execCtx t) = status (execCtx s) \<and>
     instructionsCount (execCtx t) = instructionsCount (execCtx s) \<and>
     m_autoSuspend t = m_autoSuspend s \<and> m_acceptExitRes t = m_acceptExitRes s"

interpretation control: vm_frame same_control
  by unfold_locales (auto simp: same_control_def rebind_def)

section \<open>Shape of the memory\<close>

definition array_shape :: "'v ArrayObject \<Rightarrow> nat \<times> nat" where
  "array_shape a = (length (ao_values a), length (ao_unitFactors a))"

definition int8_shape :: "VMInt8Array \<Rightarrow> vmint \<times> nat" where
  "int8_shape a = (a8_size a, length (a8_data a))"

definition same_shape :: "vm \<Rightarrow> vm \<Rightarrow> bool" where
  "same_shape s t \<longleftrightarrow>
     length (polyphonicIntMemory (execCtx t)) = length (polyphonicIntMemory (execCtx s)) \<and>
     length (polyphonicRealMemory (execCtx t)) = length (polyphonicRealMemory (execCtx s)) \<and>
     length (polyphonicUnitFactorMemory (execCtx t)) = length (polyphonicUnitFactorMemory (execCtx s)) \<and>
     length (globalIntMemory t) = length (globalIntMemory s) \<and>
     length (globalRealMemory t) = length (globalRealMemory s) \<and>
     length (globalUnitFactorMemory t) = length (globalUnitFactorMemory s) \<and>
     length (globalStrMemory t) = length (globalStrMemory s) \<and>
     map array_shape (intArrays t) = map array_shape (intArrays s) \<and>
     map array_shape (realArrays t) = map array_shape (realArrays s) \<and>
     map int8_shape (int8Arrays t) = map int8_shape (int8Arrays s) \<and>
     (\<forall>p. length (objectBytes t p) = length (objectBytes s p)) \<and>
     (\<forall>n. map_option VMFnResult_exprType (fnResult t n) = map_option VMFnResult_exprType (fnResult s n)) \<and>
     m_acceptExitRes t = m_acceptExitRes s"

lemma map_upd_shape:
  "a < length xs \<Longrightarrow> f x = f (xs ! a) \<Longrightarrow> map f (xs[a := x]) = map f xs"
  by (metis list_update_id map_update)

interpretation shape: vm_frame same_shape
  by unfold_locales
    (auto simp: same_shape_def rebind_def map_upd_shape array_shape_def int8_shape_def)

section \<open>Bindings of results\<close>

text \<open>
  A function whose result pointer refers to an object of the function's result class is bound to
  the same object again once an evaluation is over, whatever calls of the same function, nested in
  its arguments, happened in between.
\<close>

definition bindings_ok :: "vm \<Rightarrow> bool" where
  "bindings_ok s \<longleftrightarrow> (\<forall>f n. boundResult s f = Some n \<longrightarrow>
     (\<exists>r. fnResult s n = Some r \<and> fn_class f r))"

definition same_bindings :: "vm \<Rightarrow> vm \<Rightarrow> bool" where
  "same_bindings s t \<longleftrightarrow> (bindings_ok s \<longrightarrow>
     bindings_ok t \<and> boundResult t = boundResult s \<and>
     (\<forall>n. map_option VMFnResult_exprType (fnResult t n) = map_option VMFnResult_exprType (fnResult s n)))"

lemma fn_class_exprType: "VMFnResult_exprType r = VMFnResult_exprType r' \<Longrightarrow> fn_class f r = fn_class f r'"
  by (cases f; cases r; cases r') simp_all

lemma bindings_ok_rebind: "bindings_ok s \<Longrightarrow> bindings_ok (rebind f (fn_class f) res s)"
  by (auto simp: bindings_ok_def rebind_def split: option.splits if_splits)

lemma same_bindings_call:
  assumes "same_bindings (rebind f (fn_class f) (Some n) s) t"
  shows "same_bindings s (rebind f (fn_class f) (boundResult s f) t)"
  unfolding same_bindings_def
proof
  assume s: "bindings_ok s"
  from assms bindings_ok_rebind [OF s] have t: "bindings_ok t"
    and b: "boundResult t = boundResult (rebind f (fn_class f) (Some n) s)"
    and k: "\<And>m. map_option VMFnResult_exprType (fnResult t m) = map_option VMFnResult_exprType (fnResult s m)"
    by (auto simp: same_bindings_def) (simp_all add: rebind_def)
  have "boundResult (rebind f (fn_class f) (boundResult s f) t) = boundResult s"
  proof
    fix g
    show "boundResult (rebind f (fn_class f) (boundResult s f) t) g = boundResult s g"
    proof (cases "g = f")
      case False
      then show ?thesis using b by (simp add: rebind_def)
    next
      case True
      show ?thesis
      proof (cases "boundResult s f")
        case None
        with True show ?thesis by (simp add: rebind_def)
      next
        case (Some m)
        with s obtain r where r: "fnResult s m = Some r" "fn_class f r" by (auto simp: bindings_ok_def)
        with k [of m] obtain r' where "fnResult t m = Some r'" "VMFnResult_exprType r' = VMFnResult_exprType r"
          by auto
        with r Some True fn_class_exprType [of r' r f] show ?thesis by (simp add: rebind_def)
      qed
    qed
  qed
  moreover have "map_option VMFnResult_exprType (fnResult (rebind f (fn_class f) (boundResult s f) t) m) =
      map_option VMFnResult_exprType (fnResult s m)" for m
    using k by (simp add: rebind_def)
  ultimately show "bindings_ok (rebind f (fn_class f) (boundResult s f) t) \<and>
      boundResult (rebind f (fn_class f) (boundResult s f) t) = boundResult s \<and>
      (\<forall>n. map_option VMFnResult_exprType (fnResult (rebind f (fn_class f) (boundResult s f) t) n) =
        map_option VMFnResult_exprType (fnResult s n))"
    using bindings_ok_rebind [OF t] by blast
qed

interpretation bindings: vm_frame same_bindings
proof (unfold_locales, goal_cases)
  case (15 s n r r')
  then show ?case
    using fn_class_exprType [of r' r] by (fastforce simp: same_bindings_def bindings_ok_def)
next
  case (16 f n s t)
  then show ?case by (rule same_bindings_call)
qed (auto simp: same_bindings_def bindings_ok_def)

end
