(* ===== verification/VMExample.thy ===== *)
theory VMExample
  imports ScriptVM
begin

text \<open>
  Concrete inputs for the witnesses: a C library, states of the virtual machine, and scripts. The
  library's functions are constant; a text form of real numbers that tells signs apart is enough.
\<close>

definition example_clib :: clib where
  "example_clib = \<lparr>cl_libm = (\<lambda>f x. x), cl_powf = (\<lambda>x y. x), cl_real_to_str = (\<lambda>x. ''r''),
     cl_printf_f = (\<lambda>x. ''0.000000''), cl_lround_log10 = (\<lambda>x. 0), cl_RAND_MAX = 2147483647\<rparr>"

definition example_vm :: vm where
  "example_vm = \<lparr>globalIntMemory = [7, 8, 9], globalRealMemory = [Fin 2], globalStrMemory = [''abc''],
     globalUnitFactorMemory = [Fin 1, Fin 1, Fin 1, Fin 1],
     intArrays = [\<lparr>ao_values = [3, 1, 2], ao_unitFactors = [Fin 1, Fin 1, Fin 1]\<rparr>],
     realArrays = [\<lparr>ao_values = [Fin 3, Fin 2], ao_unitFactors = [Fin 1, Fin 1]\<rparr>],
     int8Arrays = [\<lparr>a8_data = [1, 2], a8_size = 2\<rparr>],
     objectBytes = (\<lambda>p. if p = 0 then [1, 2, 3, 4, 5, 6, 7, 8] else []),
     currentIndex = (\<lambda>n. 0), fnResult = (\<lambda>n. None), boundResult = (\<lambda>f. None),
     execCtx = new_ExecContext, messages = [], randStream = (\<lambda>n. 5), randPos = 0,
     clockStream = (\<lambda>n. of_nat n), clockPos = 0, m_autoSuspend = True, m_acceptExitRes = False\<rparr>"

abbreviation lit :: "vmint \<Rightarrow> expr" where
  "lit v \<equiv> IntLiteral v (Fin 1) VM_NO_UNIT False"

abbreviation global_int :: "nat \<Rightarrow> expr" where
  "global_int p \<equiv> IntVariable \<lparr>vd_isPolyphonic = False, vd_isConst = False, vd_memPos = p,
     vd_unitFactorMemPos = p, vd_unitType = VM_NO_UNIT, vd_isFinal = False\<rparr>"

text \<open>\<open>on note  while (1)  $x := $x + 1  end while  end on\<close>\<close>

definition endless_loop :: "stmt list" where
  "endless_loop = [While (lit 1) (Some [Assignment (Some (global_int 0)) (Add (global_int 0) (lit 1))])]"

definition example_ctx :: "stmt list list \<Rightarrow> vm \<Rightarrow> vm" where
  "example_ctx handlers s = s\<lparr>execCtx := createExecContext handlers 0 0 0\<rparr>"

lemma example_stack: "stack (execCtx (example_ctx handlers s)) =
    replicate (requiredMaxStackSizeForHandlers handlers) empty_frame"
  "stackFrame (execCtx (example_ctx handlers s)) = - 1"
  "flags (execCtx (example_ctx handlers s)) = STMT_SUCCESS"
  by (simp_all add: example_ctx_def createExecContext_def new_ExecContext_def)

text \<open>\<open>on note  $x := $y + 1  end on\<close>, and a script that waits inside of a \<open>sync\<close> block.\<close>

definition assign_script :: "stmt list" where
  "assign_script = [Assignment (Some (global_int 0)) (Add (global_int 1) (lit 1))]"

definition sync_wait :: "stmt list" where
  "sync_wait = [SyncBlock (Some [CallStatement (FunctionCall 0 ''wait'' [lit 1] (Some Fn_wait))]),
     While (lit 1) (Some [])]"

definition sync_vm :: vm where
  "sync_vm = (example_ctx [sync_wait] example_vm)\<lparr>fnResult := (\<lambda>n. Some new_VMEmptyResult)\<rparr>"

end
