(* ===== verification/VMArrays.thy ===== *)
theory VMArrays
  imports VMExample "HOL-Library.Multiset"
begin

text \<open>
  The interface of number arrays (\<open>VMNumberArrayExpr\<close>, \<open>VMIntArrayExpr\<close>, \<open>VMRealArrayExpr\<close>), which the
  array functions \<open>search()\<close>, \<open>sort()\<close> and \<open>array_equal()\<close> are clients of. The locale \<open>num_array\<close> states
  what an implementation promises: reading gives the stored element, and zero and no factor beyond
  the end; writing stores what the array can represent (\<open>conv\<close>) and is ignored beyond the end; other
  state is untouched. The array loops are verified once against this contract, which the theory
  interprets for the three implementations: \<open>IntArrayVariable\<close>, \<open>RealArrayVariable\<close> and
  \<open>BuiltInIntArrayVariable\<close>, whose elements are \<open>int8_t\<close>.
\<close>

section \<open>Sorting\<close>

lemma mset_insort_by [simp]: "mset (insort_by lt x xs) = add_mset x (mset xs)"
  by (induction xs) auto

lemma mset_std_sort [simp]: "mset (std_sort lt xs) = mset xs"
  unfolding std_sort_def by (induction xs) auto

lemma length_std_sort [simp]: "length (std_sort lt xs) = length xs"
  by (metis mset_std_sort size_mset)

lemma set_insort_by: "set (insort_by lt x xs) = insert x (set xs)"
  by (metis mset_insort_by set_mset_add_mset_insert set_mset_mset)

lemma set_std_sort [simp]: "set (std_sort lt xs) = set xs"
  by (metis mset_std_sort set_mset_mset)

text \<open>\<open>lt\<close> is a strict weak order on the elements, the requirement of \<open>std::sort\<close>.\<close>

definition weak_order_on :: "'a set \<Rightarrow> ('a \<Rightarrow> 'a \<Rightarrow> bool) \<Rightarrow> bool" where
  "weak_order_on A lt \<longleftrightarrow> (\<forall>x\<in>A. \<forall>y\<in>A. lt x y \<longrightarrow> \<not> lt y x) \<and>
     (\<forall>x\<in>A. \<forall>y\<in>A. \<forall>z\<in>A. \<not> lt y x \<longrightarrow> \<not> lt z y \<longrightarrow> \<not> lt z x)"

lemma weak_orderD:
  assumes "weak_order_on A lt" and "x \<in> A" and "y \<in> A"
  shows "lt x y \<Longrightarrow> \<not> lt y x" "z \<in> A \<Longrightarrow> \<not> lt y x \<Longrightarrow> \<not> lt z y \<Longrightarrow> \<not> lt z x"
  using assms unfolding weak_order_on_def by meson+

lemma weak_orderI:
  assumes "\<And>x y. x \<in> A \<Longrightarrow> y \<in> A \<Longrightarrow> lt x y \<Longrightarrow> \<not> lt y x"
    and "\<And>x y z. x \<in> A \<Longrightarrow> y \<in> A \<Longrightarrow> z \<in> A \<Longrightarrow> \<not> lt y x \<Longrightarrow> \<not> lt z y \<Longrightarrow> \<not> lt z x"
  shows "weak_order_on A lt"
  unfolding weak_order_on_def using assms by meson

lemma sorted_insort_by:
  assumes wo: "weak_order_on A lt" and x: "x \<in> A"
  shows "set xs \<subseteq> A \<Longrightarrow> sorted_wrt (\<lambda>a b. \<not> lt b a) xs \<Longrightarrow>
    sorted_wrt (\<lambda>a b. \<not> lt b a) (insort_by lt x xs)"
proof (induction xs)
  case (Cons y ys)
  then have y: "y \<in> A" and ys: "\<And>z. z \<in> set ys \<Longrightarrow> z \<in> A \<and> \<not> lt z y" by auto
  show ?case
  proof (cases "lt y x")
    case True
    then have "\<not> lt x y" by (rule weak_orderD(1) [OF wo y x])
    with True Cons ys show ?thesis by (simp add: set_insort_by)
  next
    case False
    then have "\<not> lt z x" if "z \<in> set ys" for z
      using weak_orderD(2) [OF wo x y] ys [OF that] by simp
    with False Cons.prems show ?thesis by simp
  qed
qed simp

lemma sorted_std_sort:
  assumes "weak_order_on (set xs) lt"
  shows "sorted_wrt (\<lambda>a b. \<not> lt b a) (std_sort lt xs)"
proof -
  have "sorted_wrt (\<lambda>a b. \<not> lt b a) (foldr (insort_by lt) ys [])" if "set ys \<subseteq> set xs" for ys
    using that
  proof (induction ys)
    case (Cons y ys)
    have "set (foldr (insort_by lt) ys []) = set ys"
      using set_std_sort [of lt ys] by (simp add: std_sort_def)
    with Cons sorted_insort_by [OF assms, of y "foldr (insort_by lt) ys []"] show ?case by auto
  qed simp
  then show ?thesis by (simp add: std_sort_def)
qed

lemma weak_order_elem_less:
  assumes "\<And>e. e \<in> A \<Longrightarrow> key e \<noteq> NaN"
  shows "weak_order_on A (elem_less asc key)"
proof -
  have trans: "\<not> flt (key z) (key x)"
    if "x \<in> A" "y \<in> A" "z \<in> A" "\<not> flt (key y) (key x)" "\<not> flt (key z) (key y)" for x y z
    by (rule not_flt_trans [OF _ _ _ that(4,5)]) (use assms that in simp_all)
  show ?thesis
  proof (rule weak_orderI)
    show "\<not> elem_less asc key y x" if "elem_less asc key x y" for x y
      using that flt_asym by (simp add: elem_less_def split: if_splits)
    show "\<not> elem_less asc key z x"
      if "x \<in> A" "y \<in> A" "z \<in> A" "\<not> elem_less asc key y x" "\<not> elem_less asc key z y" for x y z
      using that trans [of x y z] trans [of z y x] by (simp add: elem_less_def split: if_splits)
  qed
qed

section \<open>The interface\<close>

definition only_arrays :: "vm \<Rightarrow> vm \<Rightarrow> bool" where
  "only_arrays s t \<longleftrightarrow> t = s\<lparr>intArrays := intArrays t, realArrays := realArrays t,
     int8Arrays := int8Arrays t\<rparr>"

lemma only_arrays_refl [simp]: "only_arrays s s"
  by (simp add: only_arrays_def)

lemma only_arrays_trans:
  assumes "only_arrays s t" and "only_arrays t u"
  shows "only_arrays s u"
proof -
  have "u = t\<lparr>intArrays := intArrays u, realArrays := realArrays u, int8Arrays := int8Arrays u\<rparr>"
    using assms(2) unfolding only_arrays_def .
  also have "\<dots> = s\<lparr>intArrays := intArrays u, realArrays := realArrays u, int8Arrays := int8Arrays u\<rparr>"
    by (subst assms(1) [unfolded only_arrays_def]) simp
  finally show ?thesis unfolding only_arrays_def .
qed

lemma only_arrays_fields:
  assumes "only_arrays s t"
  shows "boundResult t = boundResult s" "fnResult t = fnResult s" "execCtx t = execCtx s"
proof -
  have t: "t = s\<lparr>intArrays := intArrays t, realArrays := realArrays t, int8Arrays := int8Arrays t\<rparr>"
    using assms unfolding only_arrays_def .
  show "boundResult t = boundResult s" by (subst t) simp
  show "fnResult t = fnResult s" by (subst t) simp
  show "execCtx t = execCtx s" by (subst t) simp
qed

locale num_array =
  fixes ops :: "'v array_ops" and valid :: "vm \<Rightarrow> bool" and len :: "vm \<Rightarrow> nat"
    and elem :: "vm \<Rightarrow> nat \<Rightarrow> 'v" and fac :: "vm \<Rightarrow> nat \<Rightarrow> vmfloat"
    and nought :: 'v and conv :: "'v \<Rightarrow> 'v" and fconv :: "vmfloat \<Rightarrow> vmfloat"
  assumes size: "valid s \<Longrightarrow> arraySize ops s = Some (of_nat (len s)) \<and> len s < 2 ^ 63"
    and get: "valid s \<Longrightarrow> unat w < len s \<Longrightarrow> evalElement ops w s = Some (elem s (unat w))"
    and get_out: "valid s \<Longrightarrow> len s \<le> unat w \<Longrightarrow> evalElement ops w s = Some nought"
    and getf: "valid s \<Longrightarrow> unat w < len s \<Longrightarrow> unitFactorOfElement ops w s = Some (fac s (unat w))"
    and getf_out: "valid s \<Longrightarrow> len s \<le> unat w \<Longrightarrow> unitFactorOfElement ops w s = Some VM_NO_FACTOR"
    and set: "valid s \<Longrightarrow> unat w < len s \<Longrightarrow> \<exists>t. assignElement ops w v s = Some t \<and> valid t \<and>
      only_arrays s t \<and> len t = len s \<and> elem t (unat w) = conv v \<and>
      (\<forall>j < len s. j \<noteq> unat w \<longrightarrow> elem t j = elem s j) \<and> (\<forall>j < len s. fac t j = fac s j)"
    and set_out: "valid s \<Longrightarrow> len s \<le> unat w \<Longrightarrow> assignElement ops w v s = Some s"
    and setf: "valid s \<Longrightarrow> unat w < len s \<Longrightarrow> \<exists>t. assignElementUnitFactor ops w f s = Some t \<and> valid t \<and>
      only_arrays s t \<and> len t = len s \<and> fac t (unat w) = fconv f \<and>
      (\<forall>j < len s. j \<noteq> unat w \<longrightarrow> fac t j = fac s j) \<and> (\<forall>j < len s. elem t j = elem s j)"
    and setf_out: "valid s \<Longrightarrow> len s \<le> unat w \<Longrightarrow> assignElementUnitFactor ops w f s = Some s"
    and conv_elem: "valid s \<Longrightarrow> i < len s \<Longrightarrow> conv (elem s i) = elem s i"
    and fconv_fac: "valid s \<Longrightarrow> i < len s \<Longrightarrow> fconv (fac s i) = fac s i"
begin

definition elements :: "vm \<Rightarrow> ('v \<times> vmfloat) list" where
  "elements s = map (\<lambda>i. (elem s i, fac s i)) [0..<len s]"

lemma length_elements [simp]: "length (elements s) = len s"
  by (simp add: elements_def)

lemma nth_elements: "i < len s \<Longrightarrow> elements s ! i = (elem s i, fac s i)"
  by (simp add: elements_def)

lemma unat_index: "valid s \<Longrightarrow> i < len s \<Longrightarrow> unat (of_nat i :: vmuint) = i"
  using size [of s] by (simp add: unat_of_nat)

lemma sint_size: "valid s \<Longrightarrow> arraySize ops s = Some n \<Longrightarrow> nat (sint n) = len s \<and> 0 \<le> sint n"
proof -
  assume v: "valid s" and n: "arraySize ops s = Some n"
  then have "n = word_of_int (int (len s))" "len s < 2 ^ 63" using size [OF v] by auto
  moreover have "int (len s) < 2 ^ 63" using size [OF v] by (metis of_nat_less_numeral_power_cancel_iff)
  ultimately show ?thesis using sint_word_of_int_small [of "int (len s)"] by simp
qed

lemma get_nat:
  assumes "valid s" and "i < len s"
  shows "evalElement ops (of_nat i) s = Some (elem s i)"
    "unitFactorOfElement ops (of_nat i) s = Some (fac s i)"
  using get [OF assms(1)] getf [OF assms(1)] unat_index [OF assms] assms(2) by metis+

lemma read_elements:
  "valid s \<Longrightarrow> i + k = len s \<Longrightarrow> read_elements ops i k s = Some (drop i (elements s))"
proof (induction k arbitrary: i)
  case (Suc k)
  then have "i < len s" by simp
  then have "drop i (elements s) = (elem s i, fac s i) # drop (Suc i) (elements s)"
    using Cons_nth_drop_Suc [of i "elements s"] by (simp add: nth_elements)
  with Suc show ?case by (simp add: ArrElemRef_get_def get_nat)
qed simp

lemma ArrElemRef_assign:
  assumes "valid s" and "i < len s"
  shows "\<exists>t. ArrElemRef_assign ops i e s = Some t \<and> valid t \<and> only_arrays s t \<and> len t = len s \<and>
    elements t = (elements s)[i := (conv (fst e), fconv (snd e))]"
proof -
  note u = unat_index [OF assms]
  obtain t where t: "assignElement ops (of_nat i) (fst e) s = Some t" "valid t" "only_arrays s t"
    "len t = len s" "elem t i = conv (fst e)" "\<forall>j < len s. j \<noteq> i \<longrightarrow> elem t j = elem s j"
    "\<forall>j < len s. fac t j = fac s j"
    using set [OF assms(1), of "of_nat i" "fst e"] assms(2) u by auto
  obtain q where q: "assignElementUnitFactor ops (of_nat i) (snd e) t = Some q" "valid q"
    "only_arrays t q" "len q = len t" "fac q i = fconv (snd e)"
    "\<forall>j < len t. j \<noteq> i \<longrightarrow> fac q j = fac t j" "\<forall>j < len t. elem q j = elem t j"
    using setf [OF t(2), of "of_nat i" "snd e"] assms(2) u t(4) by auto
  have "elements q = (elements s)[i := (conv (fst e), fconv (snd e))]"
    using t q assms(2) by (intro nth_equalityI) (auto simp: elements_def nth_list_update)
  with t q only_arrays_trans [OF t(3) q(3)] show ?thesis by (auto simp: ArrElemRef_assign_def)
qed

lemma write_elements:
  "valid s \<Longrightarrow> i + length es = len s \<Longrightarrow>
   \<exists>t. write_elements ops i es s = Some t \<and> valid t \<and> only_arrays s t \<and> len t = len s \<and>
     elements t = take i (elements s) @ map (\<lambda>e. (conv (fst e), fconv (snd e))) es"
proof (induction es arbitrary: i s)
  case Nil
  then show ?case by (auto simp: elements_def)
next
  case (Cons e es)
  then have i: "i < len s" by simp
  from ArrElemRef_assign [OF Cons.prems(1) i, of e] obtain t where
    t: "ArrElemRef_assign ops i e s = Some t" "valid t" "only_arrays s t" "len t = len s"
    "elements t = (elements s)[i := (conv (fst e), fconv (snd e))]"
    by blast
  from Cons.IH [of t "Suc i"] t Cons.prems obtain q where
    q: "write_elements ops (Suc i) es t = Some q" "valid q" "only_arrays t q" "len q = len t"
    "elements q = take (Suc i) (elements t) @ map (\<lambda>e. (conv (fst e), fconv (snd e))) es"
    by auto
  have "take (Suc i) (elements t) = take i (elements s) @ [(conv (fst e), fconv (snd e))]"
    using i t(5) by (simp add: take_Suc_conv_app_nth)
  with t q only_arrays_trans [OF t(3) q(3)] show ?case by auto
qed

lemma sort_array:
  assumes "valid s" and "\<And>e. e \<in> set (elements s) \<Longrightarrow> key e \<noteq> NaN"
  shows "\<exists>t. sort_array key asc ops s = Some t \<and> valid t \<and> only_arrays s t \<and>
    mset (elements t) = mset (elements s) \<and>
    sorted_wrt (\<lambda>a b. \<not> elem_less asc key b a) (elements t)"
proof -
  let ?es = "std_sort (elem_less asc key) (elements s)"
  obtain n where n: "arraySize ops s = Some n" using size [OF assms(1)] by blast
  have r: "read_elements ops 0 (nat (sint n)) s = Some (elements s)"
    using read_elements [OF assms(1), of 0] sint_size [OF assms(1) n] by simp
  have id: "map (\<lambda>e. (conv (fst e), fconv (snd e))) ?es = ?es"
  proof (rule map_idI)
    fix e assume "e \<in> set ?es"
    then have "e \<in> set (elements s)" by simp
    then show "(conv (fst e), fconv (snd e)) = e"
      by (auto simp: elements_def conv_elem [OF assms(1)] fconv_fac [OF assms(1)])
  qed
  obtain t where t: "write_elements ops 0 ?es s = Some t" "valid t" "only_arrays s t"
    "elements t = ?es"
    using write_elements [OF assms(1), of 0 ?es] id by auto
  have "sorted_wrt (\<lambda>a b. \<not> elem_less asc key b a) ?es"
    by (rule sorted_std_sort [OF weak_order_elem_less [OF assms(2)]])
  with n r t show ?thesis by (auto simp: sort_array_def)
qed

lemma search_loop:
  "valid s \<Longrightarrow> i + k = len s \<Longrightarrow> \<exists>r. search_loop found ops i k s = Some r \<and>
     (r = - 1 \<and> (\<forall>j. i \<le> j \<and> j < len s \<longrightarrow> \<not> found (elem s j)) \<or>
      (\<exists>m. r = of_nat m \<and> i \<le> m \<and> m < len s \<and> found (elem s m) \<and>
        (\<forall>j. i \<le> j \<and> j < m \<longrightarrow> \<not> found (elem s j))))"
proof (induction k arbitrary: i)
  case (Suc k)
  then have i: "i < len s" by simp
  show ?case
  proof (cases "found (elem s i)")
    case True
    with i Suc.prems(1) show ?thesis by (auto simp: get_nat intro!: exI [of _ i])
  next
    case False
    from Suc.IH [of "Suc i"] Suc.prems obtain r where r: "search_loop found ops (Suc i) k s = Some r"
      "r = - 1 \<and> (\<forall>j. Suc i \<le> j \<and> j < len s \<longrightarrow> \<not> found (elem s j)) \<or>
      (\<exists>m. r = of_nat m \<and> Suc i \<le> m \<and> m < len s \<and> found (elem s m) \<and>
        (\<forall>j. Suc i \<le> j \<and> j < m \<longrightarrow> \<not> found (elem s j)))" by auto
    have ge: "i \<le> j \<Longrightarrow> j = i \<or> Suc i \<le> j" for j by linarith
    show ?thesis
      using r False i Suc.prems(1)
      by (simp add: get_nat) (metis ge Suc_leD)
  qed
qed auto

end

text \<open>Two arrays in the same state, for \<open>array_equal()\<close>.\<close>

locale num_array_pair =
  l: num_array opsL validL lenL elemL facL noughtL convL fconvL +
  r: num_array opsR validR lenR elemR facR noughtR convR fconvR
  for opsL :: "'v array_ops" and validL lenL elemL facL noughtL convL fconvL
    and opsR :: "'v array_ops" and validR lenR elemR facR noughtR convR fconvR
begin

lemma array_equal_loop:
  "validL s \<Longrightarrow> validR s \<Longrightarrow> lenL s = lenR s \<Longrightarrow> i + k = lenL s \<Longrightarrow>
   array_equal_loop eq opsL opsR i k s = Some
     (\<forall>j. i \<le> j \<and> j < lenL s \<longrightarrow> eq (elemL s j) (elemR s j) (facL s j) (facR s j))"
proof (induction k arbitrary: i)
  case (Suc k)
  then have i: "i < lenL s" "i < lenR s" by simp_all
  have "(\<forall>j. i \<le> j \<and> j < lenL s \<longrightarrow> Q j) = (Q i \<and> (\<forall>j. Suc i \<le> j \<and> j < lenL s \<longrightarrow> Q j))" for Q
    using i(1) by (metis Suc_leD Suc_leI le_less)
  with Suc i show ?case by (simp add: l.get_nat r.get_nat)
qed auto

end

section \<open>The implementations\<close>

definition array_object_ok :: "'v ArrayObject \<Rightarrow> bool" where
  "array_object_ok obj \<longleftrightarrow> length (ao_unitFactors obj) = length (ao_values obj) \<and>
     length (ao_values obj) < 2 ^ 63"

definition IntArray_valid :: "nat \<Rightarrow> vm \<Rightarrow> bool" where
  "IntArray_valid a s \<longleftrightarrow> a < length (intArrays s) \<and> array_object_ok (intArrays s ! a)"

definition RealArray_valid :: "nat \<Rightarrow> vm \<Rightarrow> bool" where
  "RealArray_valid a s \<longleftrightarrow> a < length (realArrays s) \<and> array_object_ok (realArrays s ! a)"

definition Int8Array_valid :: "nat \<Rightarrow> vm \<Rightarrow> bool" where
  "Int8Array_valid a s \<longleftrightarrow> a < length (int8Arrays s) \<and> length (a8_data (int8Arrays s ! a)) < 2 ^ 63 \<and>
     a8_size (int8Arrays s ! a) = of_nat (length (a8_data (int8Arrays s ! a)))"

abbreviation "int_array_len a s \<equiv> length (ao_values (intArrays s ! a))"
abbreviation "int_array_elem a s i \<equiv> ao_values (intArrays s ! a) ! i"
abbreviation "int_array_fac a s i \<equiv> ao_unitFactors (intArrays s ! a) ! i"
abbreviation "real_array_len a s \<equiv> length (ao_values (realArrays s ! a))"
abbreviation "real_array_elem a s i \<equiv> ao_values (realArrays s ! a) ! i"
abbreviation "real_array_fac a s i \<equiv> ao_unitFactors (realArrays s ! a) ! i"

definition int8_conv :: "vmint \<Rightarrow> vmint" where
  "int8_conv v = word_of_int (sint (word_of_int (sint v) :: 8 word))"

interpretation int_array: num_array "IntArrayVariable_ops a" "IntArray_valid a" "int_array_len a"
  "int_array_elem a" "int_array_fac a" 0 "\<lambda>v. v" "\<lambda>f. f" for a
  by unfold_locales
    (auto simp: IntArrayVariable_ops_def IntArray_valid_def array_object_ok_def only_arrays_def
      IntArrayVariable_evalIntElement_def IntArrayVariable_assignIntElement_def
      IntArrayVariable_unitFactorOfElement_def IntArrayVariable_assignElementUnitFactor_def)

interpretation real_array: num_array "RealArrayVariable_ops a" "RealArray_valid a" "real_array_len a"
  "real_array_elem a" "real_array_fac a" 0 "\<lambda>v. v" "\<lambda>f. f" for a
  by unfold_locales
    (auto simp: RealArrayVariable_ops_def RealArray_valid_def array_object_ok_def only_arrays_def
      RealArrayVariable_evalRealElement_def RealArrayVariable_assignRealElement_def
      RealArrayVariable_unitFactorOfElement_def RealArrayVariable_assignElementUnitFactor_def)

lemma a8_size_le:
  assumes "Int8Array_valid a s"
  shows "a8_size (int8Arrays s ! a) \<le> w \<longleftrightarrow> length (a8_data (int8Arrays s ! a)) \<le> unat w"
proof -
  have "unat (a8_size (int8Arrays s ! a)) = length (a8_data (int8Arrays s ! a))"
    using assms by (simp add: Int8Array_valid_def unat_of_nat)
  then show ?thesis by (simp add: word_le_nat_alt)
qed

lemma sint8_range: "- 128 \<le> sint (b :: 8 word)" "sint (b :: 8 word) < 128"
  using sint_greater_eq [of b] sint_less [of b] by simp_all

lemma Int8Array_validD:
  assumes "Int8Array_valid a s"
  shows "nth_opt (int8Arrays s) a = Some (int8Arrays s ! a)"
    "a8_size (int8Arrays s ! a) = of_nat (length (a8_data (int8Arrays s ! a)))"
    "length (a8_data (int8Arrays s ! a)) < 9223372036854775808"
  using assms by (simp_all add: Int8Array_valid_def)

lemma int8_conv_elem [simp]: "int8_conv (scast (b :: 8 word)) = scast b"
proof -
  have "sint (word_of_int (sint b) :: 64 word) = sint b"
    using sint8_range [of b] by (intro sint_word_of_int_small) simp_all
  then have "sint (scast b :: 64 word) = sint b" by simp
  then show ?thesis by (simp add: int8_conv_def)
qed

interpretation int8_array: num_array "BuiltInIntArrayVariable_ops a" "Int8Array_valid a"
  "\<lambda>s. length (a8_data (int8Arrays s ! a))"
  "\<lambda>s i. word_of_int (sint (a8_data (int8Arrays s ! a) ! i))" "\<lambda>s i. VM_NO_FACTOR" 0 int8_conv
  "\<lambda>f. VM_NO_FACTOR" for a
proof (unfold_locales, goal_cases)
  case (6 s w v)
  then have "\<not> a8_size (int8Arrays s ! a) \<le> w" by (simp add: a8_size_le not_le)
  with 6 show ?case
    by (auto simp: BuiltInIntArrayVariable_ops_def BuiltInIntArrayVariable_assignIntElement_def
        Int8Array_valid_def only_arrays_def int8_conv_def)
qed (auto simp: BuiltInIntArrayVariable_ops_def BuiltInIntArrayVariable_evalIntElement_def
      BuiltInIntArrayVariable_assignIntElement_def Int8Array_validD(1,3) a8_size_le not_le
      simp flip: Int8Array_validD(2))+

interpretation int_pair: num_array_pair "IntArrayVariable_ops a" "IntArray_valid a"
  "int_array_len a" "int_array_elem a" "int_array_fac a" 0 "\<lambda>v. v" "\<lambda>f. f"
  "IntArrayVariable_ops b" "IntArray_valid b" "int_array_len b" "int_array_elem b"
  "int_array_fac b" 0 "\<lambda>v. v" "\<lambda>f. f" for a b
  by unfold_locales

interpretation real_pair: num_array_pair "RealArrayVariable_ops a" "RealArray_valid a"
  "real_array_len a" "real_array_elem a" "real_array_fac a" 0 "\<lambda>v. v" "\<lambda>f. f"
  "RealArrayVariable_ops b" "RealArray_valid b" "real_array_len b" "real_array_elem b"
  "real_array_fac b" 0 "\<lambda>v. v" "\<lambda>f. f" for a b
  by unfold_locales

end
