(* ===== verification/CoreFunctionProps.thy ===== *)
theory CoreFunctionProps
  imports VMFrame VMArrays VMExample
begin

text \<open>
  What the built-in functions compute, stated for the function call as it stands in a script. A call
  object needs a result object of the function's result class, as its constructor allocates one;
  \<open>result_slot\<close> says so. The array functions are clients of \<open>num_array\<close>: their facts are the facts of
  the interpretations of \<open>VMArrays\<close>.
\<close>

section \<open>Calls\<close>

definition result_slot :: "CoreFn \<Rightarrow> nat \<Rightarrow> vm \<Rightarrow> bool" where
  "result_slot f n s \<longleftrightarrow> (case fnResult s n of Some r \<Rightarrow> fn_class f r | None \<Rightarrow> False)"

definition bind_slot :: "CoreFn \<Rightarrow> nat \<Rightarrow> vm \<Rightarrow> vm" where
  "bind_slot f n s = s\<lparr>boundResult := (boundResult s)(f := Some n)\<rparr>"

lemma rebind_own: "result_slot f n s \<Longrightarrow> rebind f (fn_class f) (Some n) s = bind_slot f n s"
  by (auto simp: rebind_def result_slot_def bind_slot_def split: option.splits)

lemma bind_slot_simps [simp]:
  "boundResult (bind_slot f n s) f = Some n" "fnResult (bind_slot f n s) = fnResult s"
  "intArrays (bind_slot f n s) = intArrays s" "realArrays (bind_slot f n s) = realArrays s"
  "int8Arrays (bind_slot f n s) = int8Arrays s" "execCtx (bind_slot f n s) = execCtx s"
  "IntArray_valid a (bind_slot f n s) = IntArray_valid a s"
  "RealArray_valid a (bind_slot f n s) = RealArray_valid a s"
  "result_slot g m (bind_slot f n s) = result_slot g m s"
  by (simp_all add: bind_slot_def IntArray_valid_def RealArray_valid_def result_slot_def)

lemma rebind_fields [simp]:
  "intArrays (rebind f P r s) = intArrays s" "realArrays (rebind f P r s) = realArrays s"
  "int8Arrays (rebind f P r s) = int8Arrays s" "fnResult (rebind f P r s) = fnResult s"
  "execCtx (rebind f P r s) = execCtx s" "globalIntMemory (rebind f P r s) = globalIntMemory s"
  "globalUnitFactorMemory (rebind f P r s) = globalUnitFactorMemory s"
  "messages (rebind f P r s) = messages s"
  by (simp_all add: rebind_def)

text \<open>A function that returns normally: the value of the call is what it put into its slot.\<close>

lemma call_exec:
  assumes "result_slot f n s"
    and "fn_exec (coreFunction L f) args (bind_slot f n s) = Some (n, t)" and "fnResult t n = Some r"
  shows "\<exists>u. FunctionCall_execVMFn L n (Some f) args s =
    Some (Some (set_unitBaseType (FunctionCall_unitType L (Some f) args) r), u) \<and>
    u = (rebind f (fn_class f) (boundResult s f) t)\<lparr>fnResult := (fnResult t)
      (n \<mapsto> set_unitBaseType (FunctionCall_unitType L (Some f) args) r)\<rparr>"
  using assms by (simp add: FunctionCall_execVMFn_def bindResult_coreFunction rebind_own Let_def)

lemma put_empty_slot:
  assumes "boundResult s f = Some n" and "fnResult s n = Some r" and "is_VMEmptyResult r"
  shows "put_empty f fl s = Some (n, s\<lparr>fnResult := (fnResult s)(n \<mapsto> VMEmptyResult fl)\<rparr>)"
  using assms by (simp add: put_empty_def put_result_def)

lemma put_int_slot:
  assumes "boundResult s f = Some n" and "fnResult s n = Some r" and "is_VMIntResult r"
  shows "put_int f fl v uf s = Some (n, s\<lparr>fnResult := (fnResult s)(n \<mapsto> VMIntResult fl v uf VM_NO_UNIT)\<rparr>)"
  using assms by (simp add: put_int_def put_result_def)

lemma put_real_slot:
  assumes "boundResult s f = Some n" and "fnResult s n = Some r" and "is_VMRealResult r"
  shows "put_real f fl v uf s = Some (n, s\<lparr>fnResult := (fnResult s)(n \<mapsto> VMRealResult fl v uf VM_NO_UNIT)\<rparr>)"
  using assms by (simp add: put_real_def put_result_def)

lemma result_slot_class:
  "result_slot f n s \<Longrightarrow> \<exists>r. fnResult s n = Some r \<and> fn_class f r"
  by (auto simp: result_slot_def split: option.splits)

lemma call_int:
  assumes slot: "result_slot f n s" and int: "\<And>r. fn_class f r \<Longrightarrow> is_VMIntResult r"
    and ex: "fn_exec (coreFunction L f) args (bind_slot f n s) = put_int f fl v uf t"
    and t: "boundResult t f = Some n" "fnResult t = fnResult s"
  shows "\<exists>u. FunctionCall_evalInt L n (Some f) args s = Some (v, u) \<and>
    only_arrays (t\<lparr>boundResult := boundResult u, fnResult := fnResult u\<rparr>) u"
proof -
  obtain r where r: "fnResult s n = Some r" "fn_class f r" using result_slot_class [OF slot] by blast
  have "fn_exec (coreFunction L f) args (bind_slot f n s) =
      Some (n, t\<lparr>fnResult := (fnResult t)(n \<mapsto> VMIntResult fl v uf VM_NO_UNIT)\<rparr>)"
    using put_int_slot [OF t(1), of r] r int t(2) ex by simp
  from call_exec [OF slot this] show ?thesis
    by (auto simp: FunctionCall_evalInt_def rebind_def only_arrays_def)
qed

lemma call_empty:
  assumes slot: "result_slot f n s" and int: "\<And>r. fn_class f r \<Longrightarrow> is_VMEmptyResult r"
    and ex: "fn_exec (coreFunction L f) args (bind_slot f n s) = put_empty f fl t"
    and t: "boundResult t f = Some n" "fnResult t = fnResult s"
  shows "\<exists>u. FunctionCall_exec L n (Some f) args s = Some (fl, u) \<and>
    only_arrays (t\<lparr>boundResult := boundResult u, fnResult := fnResult u\<rparr>) u \<and>
    intArrays u = intArrays t \<and> realArrays u = realArrays t \<and> int8Arrays u = int8Arrays t \<and>
    execCtx u = execCtx t"
proof -
  obtain r where r: "fnResult s n = Some r" "fn_class f r" using result_slot_class [OF slot] by blast
  have "fn_exec (coreFunction L f) args (bind_slot f n s) =
      Some (n, t\<lparr>fnResult := (fnResult t)(n \<mapsto> VMEmptyResult fl)\<rparr>)"
    using put_empty_slot [OF t(1), of r] r int t(2) ex by simp
  from call_exec [OF slot this] show ?thesis
    by (auto simp: FunctionCall_exec_def rebind_def only_arrays_def)
qed

section \<open>Argument objects\<close>

lemma array_node_simps [simp]:
  "asIntArray (IntArrayVariable_node L a c) = Some (IntArrayVariable_ops a)"
  "exprType (IntArrayVariable_node L a c) = INT_ARR_EXPR"
  "asRealArray (RealArrayVariable_node L a c) = Some (RealArrayVariable_ops a)"
  "asIntArray (RealArrayVariable_node L a c) = None"
  "exprType (RealArrayVariable_node L a c) = REAL_ARR_EXPR"
  by (simp_all add: IntArrayVariable_node_def IntArrayExpr_node_def RealArrayVariable_node_def
      RealArrayExpr_node_def base_node_def)

lemma literal_node_simps [simp]:
  "isIntExpr (IntLiteral_node L v f u b)" "evalInt (IntLiteral_node L v f u b) s = Some (v, s)"
  "isRealExpr (RealLiteral_node L x f u b)" "evalReal (RealLiteral_node L x f u b) s = Some (x, s)"
  "unitFactor (IntLiteral_node L v f u b) s = Some f" "unitFactor (RealLiteral_node L x f u b) s = Some f"
  "exprType (IntLiteral_node L v f u b) = INT_EXPR" "exprType (RealLiteral_node L x f u b) = REAL_EXPR"
  "unitType (IntLiteral_node L v f u b) = u" "unitType (RealLiteral_node L x f u b) = u"
  by (simp_all add: IntLiteral_node_def IntExpr_node_def RealLiteral_node_def RealExpr_node_def
      base_node_def)

lemma arg_simps [simp]:
  "arg_asInt args i = Option.bind (nth_opt args i) (\<lambda>e. if isIntExpr e then Some e else None)"
  "arg_asReal args i = Option.bind (nth_opt args i) (\<lambda>e. if isRealExpr e then Some e else None)"
  by (simp_all add: arg_asInt_def arg_asReal_def)

section \<open>search\<close>

lemma search_exec_int:
  assumes "IntArray_valid a s"
  shows "\<exists>r. CoreVMFunction_search_exec [IntArrayVariable_node L a c, IntLiteral_node L v f u b] s =
      put_int Fn_search STMT_SUCCESS r VM_NO_FACTOR s \<and>
    (r = - 1 \<and> (\<forall>j < int_array_len a s. int_array_elem a s j \<noteq> v) \<or>
     (\<exists>m. r = of_nat m \<and> m < int_array_len a s \<and> int_array_elem a s m = v \<and>
       (\<forall>j < m. int_array_elem a s j \<noteq> v)))"
proof -
  obtain n where n: "arraySize (IntArrayVariable_ops a) s = Some n"
    and len: "nat (sint n) = int_array_len a s"
    using int_array.size [OF assms] int_array.sint_size [OF assms] by blast
  from int_array.search_loop [OF assms, of 0 "int_array_len a s" "\<lambda>x. x = v"] n len
  show ?thesis
    by (auto simp: CoreVMFunction_search_exec_def asArray_arraySize_def
        VMIntResultFunction_successResult_def)
qed

text \<open>\<open>search()\<close> on an integer array returns the index of the first element that equals the
  needle, and -1 when no element does.\<close>

theorem search_finds_first:
  assumes "IntArray_valid a s" and "result_slot Fn_search n s"
  shows "\<exists>r t. eval_int L (FunctionCall n nm [IntArrayVariable a c, IntLiteral v f u b] (Some Fn_search)) s =
      Some (r, t) \<and>
    (r = - 1 \<and> (\<forall>j < int_array_len a s. int_array_elem a s j \<noteq> v) \<or>
     (\<exists>m. r = of_nat m \<and> m < int_array_len a s \<and> int_array_elem a s m = v \<and>
       (\<forall>j < m. int_array_elem a s j \<noteq> v)))"
proof -
  obtain r where r: "CoreVMFunction_search_exec [IntArrayVariable_node L a c, IntLiteral_node L v f u b]
      (bind_slot Fn_search n s) = put_int Fn_search STMT_SUCCESS r VM_NO_FACTOR (bind_slot Fn_search n s)"
    and spec: "r = - 1 \<and> (\<forall>j < int_array_len a s. int_array_elem a s j \<noteq> v) \<or>
     (\<exists>m. r = of_nat m \<and> m < int_array_len a s \<and> int_array_elem a s m = v \<and>
       (\<forall>j < m. int_array_elem a s j \<noteq> v))"
    using search_exec_int [of a "bind_slot Fn_search n s" L c v f u b] assms(1) by auto
  obtain t where "FunctionCall_evalInt L n (Some Fn_search)
      [IntArrayVariable_node L a c, IntLiteral_node L v f u b] s = Some (r, t)"
    using call_int [OF assms(2), of L _ STMT_SUCCESS r VM_NO_FACTOR "bind_slot Fn_search n s"] r
    by (auto simp: CoreVMFunction_search_def)
  with spec show ?thesis
    by (simp add: eval_int_def asInt_evalInt_def FunctionCall_node_def)
qed

section \<open>sort\<close>

definition IntArray_elements :: "nat \<Rightarrow> vm \<Rightarrow> (vmint \<times> vmfloat) list" where
  "IntArray_elements a s = zip (ao_values (intArrays s ! a)) (ao_unitFactors (intArrays s ! a))"

definition RealArray_elements :: "nat \<Rightarrow> vm \<Rightarrow> (vmfloat \<times> vmfloat) list" where
  "RealArray_elements a s = zip (ao_values (realArrays s ! a)) (ao_unitFactors (realArrays s ! a))"

lemma elements_zip:
  "IntArray_valid a s \<Longrightarrow> int_array.elements a s = IntArray_elements a s"
  "RealArray_valid b s \<Longrightarrow> real_array.elements b s = RealArray_elements b s"
  by (auto simp: int_array.elements_def real_array.elements_def IntArray_elements_def
      RealArray_elements_def IntArray_valid_def RealArray_valid_def array_object_ok_def
      intro!: nth_equalityI)

lemma sort_exec_int:
  assumes "IntArray_valid a s" and "\<forall>e \<in> set (IntArray_elements a s). int_getProdValue e \<noteq> NaN"
  shows "\<exists>t. CoreVMFunction_sort_exec [IntArrayVariable_node L a c, IntLiteral_node L d f u b] s =
      put_empty Fn_sort STMT_SUCCESS t \<and> only_arrays s t \<and> IntArray_valid a t \<and>
    mset (IntArray_elements a t) = mset (IntArray_elements a s) \<and>
    sorted_wrt (\<lambda>x y. \<not> elem_less (d = 0) int_getProdValue y x) (IntArray_elements a t)"
  using int_array.sort_array [OF assms(1), of int_getProdValue "d = 0"] assms elements_zip(1)
  by (auto simp: CoreVMFunction_sort_exec_def VMEmptyResultFunction_successResult_def)

lemma sort_exec_real:
  assumes "RealArray_valid a s" and "\<forall>e \<in> set (RealArray_elements a s). real_getProdValue e \<noteq> NaN"
  shows "\<exists>t. CoreVMFunction_sort_exec [RealArrayVariable_node L a c, IntLiteral_node L d f u b] s =
      put_empty Fn_sort STMT_SUCCESS t \<and> only_arrays s t \<and> RealArray_valid a t \<and>
    mset (RealArray_elements a t) = mset (RealArray_elements a s) \<and>
    sorted_wrt (\<lambda>x y. \<not> elem_less (d = 0) real_getProdValue y x) (RealArray_elements a t)"
  using real_array.sort_array [OF assms(1), of real_getProdValue "d = 0"] assms elements_zip(2)
  by (auto simp: CoreVMFunction_sort_exec_def VMEmptyResultFunction_successResult_def)


section \<open>array_equal\<close>

lemma array_equal_exec_int:
  assumes "IntArray_valid a s" and "IntArray_valid b s"
  shows "CoreVMFunction_array_equal_exec [IntArrayVariable_node L a c, IntArrayVariable_node L b d] s =
    put_int Fn_array_equal STMT_SUCCESS
      (if int_array_len a s = int_array_len b s \<and> (\<forall>j < int_array_len a s.
         array_equal_int (int_array_elem a s j) (int_array_elem b s j)
           (int_array_fac a s j) (int_array_fac b s j)) then 1 else 0) VM_NO_FACTOR s"
proof -
  obtain n m where n: "arraySize (IntArrayVariable_ops a) s = Some n" "nat (sint n) = int_array_len a s"
    "n = of_nat (int_array_len a s)"
    and m: "arraySize (IntArrayVariable_ops b) s = Some m" "m = of_nat (int_array_len b s)"
    using int_array.size [OF assms(1)] int_array.size [OF assms(2)] int_array.sint_size [OF assms(1)]
    by blast
  have "n = m \<longleftrightarrow> int_array_len a s = int_array_len b s"
    using int_array.size [OF assms(1)] int_array.size [OF assms(2)] n(3) m(2)
    by (auto simp: word_unat_eq_iff unat_of_nat)
  with n m int_pair.array_equal_loop [OF assms, of 0 "int_array_len a s" array_equal_int]
  show ?thesis
    by (auto simp: CoreVMFunction_array_equal_exec_def asArray_arraySize_def
        VMIntResultFunction_successResult_def)
qed

text \<open>\<open>array_equal(%a, %b)\<close> on integer arrays is 1 when both have the same number of elements and
  the elements at each index are equal after conversion to the smaller of the two unit factors, and 0
  otherwise.\<close>

theorem array_equal_int_arrays:
  assumes "IntArray_valid a s" and "IntArray_valid b s" and "result_slot Fn_array_equal n s"
  shows "map_option fst (eval_int L (FunctionCall n nm [IntArrayVariable a c, IntArrayVariable b d]
      (Some Fn_array_equal)) s) =
    Some (if int_array_len a s = int_array_len b s \<and> (\<forall>j < int_array_len a s.
         array_equal_int (int_array_elem a s j) (int_array_elem b s j)
           (int_array_fac a s j) (int_array_fac b s j)) then 1 else 0)"
proof -
  let ?s = "bind_slot Fn_array_equal n s"
  let ?r = "if int_array_len a s = int_array_len b s \<and> (\<forall>j < int_array_len a s.
      array_equal_int (int_array_elem a s j) (int_array_elem b s j)
        (int_array_fac a s j) (int_array_fac b s j)) then 1 else 0"
  have "CoreVMFunction_array_equal_exec [IntArrayVariable_node L a c, IntArrayVariable_node L b d] ?s =
      put_int Fn_array_equal STMT_SUCCESS ?r VM_NO_FACTOR ?s"
    using array_equal_exec_int [of a ?s b L c d] assms(1,2) by simp
  then obtain t where "FunctionCall_evalInt L n (Some Fn_array_equal)
      [IntArrayVariable_node L a c, IntArrayVariable_node L b d] s = Some (?r, t)"
    using call_int [OF assms(3), of L _ STMT_SUCCESS ?r VM_NO_FACTOR ?s]
    by (auto simp: CoreVMFunction_array_equal_def)
  then show ?thesis
    by (simp add: eval_int_def asInt_evalInt_def FunctionCall_node_def)
qed

section \<open>in_range, msb, lsb, min\<close>

lemma in_range_value_between:
  assumes "lo \<noteq> NaN" and "hi \<noteq> NaN"
  shows "in_range_value x lo hi \<longleftrightarrow> fle lo x \<and> fle x hi \<or> fle hi x \<and> fle x lo"
proof (cases "x = NaN")
  case True
  then show ?thesis by (simp add: in_range_value_def swap_if_greater_def fle_def flt_def feq_def)
next
  case False
  note le = fle_iff_not_flt [OF assms(1) False] fle_iff_not_flt [OF False assms(1)]
    fle_iff_not_flt [OF assms(2) False] fle_iff_not_flt [OF False assms(2)]
  have "\<not> flt x lo \<Longrightarrow> \<not> flt hi x \<Longrightarrow> \<not> flt hi lo"
    using not_flt_trans [of lo x hi] assms False by blast
  moreover have "\<not> flt hi lo \<Longrightarrow> \<not> flt x hi \<Longrightarrow> \<not> flt lo x \<Longrightarrow> \<not> flt x lo \<and> \<not> flt hi x"
    using not_flt_trans [of lo hi x] not_flt_trans [of x lo hi] assms False by blast
  ultimately show ?thesis
    by (auto simp: in_range_value_def swap_if_greater_def le)
qed

text \<open>\<open>in_range(x, lo, hi)\<close> on literals, each scaled by its unit factor, does not depend on the order
  of the two limits: it is 1 exactly when \<open>x\<close> lies between them, and 0 otherwise.\<close>

theorem in_range_either_order:
  assumes "result_slot Fn_in_range n s" and "lo * fl \<noteq> NaN" and "hi * fh \<noteq> NaN"
  shows "map_option fst (eval_int L (FunctionCall n nm
      [RealLiteral x fx u False, RealLiteral lo fl u False, RealLiteral hi fh u False] (Some Fn_in_range)) s) =
    Some (if fle (lo * fl) (x * fx) \<and> fle (x * fx) (hi * fh) \<or>
             fle (hi * fh) (x * fx) \<and> fle (x * fx) (lo * fl) then 1 else 0)"
    (is "_ = Some ?r")
proof -
  let ?s = "bind_slot Fn_in_range n s"
  let ?args = "[RealLiteral_node L x fx u False, RealLiteral_node L lo fl u False, RealLiteral_node L hi fh u False]"
  have "CoreVMFunction_in_range_exec ?args ?s = put_int Fn_in_range STMT_SUCCESS ?r VM_NO_FACTOR ?s"
    using in_range_value_between [OF assms(2,3), of "x * fx"]
    by (simp add: CoreVMFunction_in_range_exec_def arg_asNumber_def isNumberExpr_def evalCastReal_def
        asReal_evalReal_def VMIntResultFunction_successResult_def)
  then obtain t where "FunctionCall_evalInt L n (Some Fn_in_range) ?args s = Some (?r, t)"
    using call_int [OF assms(1), of L ?args STMT_SUCCESS ?r VM_NO_FACTOR ?s]
    by (auto simp: CoreVMFunction_in_range_def)
  then show ?thesis
    by (simp add: eval_int_def asInt_evalInt_def FunctionCall_node_def)
qed

lemma uint_lsb_value: "uint (lsb_value i) = uint i mod 128"
proof -
  have "lsb_value i = i AND mask 7" by (simp add: lsb_value_def mask_eq_exp_minus_1)
  then have "uint (lsb_value i) = take_bit 7 (uint i)"
    by (simp add: take_bit_eq_mask [symmetric] unsigned_take_bit_eq)
  then show ?thesis by (simp add: take_bit_eq_mod)
qed

lemma uint_msb_value:
  assumes "0 \<le> sint i"
  shows "uint (msb_value i) = uint i div 128 mod 128"
proof -
  have "msb_value i = (signed_drop_bit 7 i) AND mask 7" by (simp add: msb_value_def mask_eq_exp_minus_1)
  then have "uint (msb_value i) = take_bit 7 (uint (signed_drop_bit 7 i))"
    by (simp add: take_bit_eq_mask [symmetric] unsigned_take_bit_eq)
  moreover have "sint (signed_drop_bit 7 i) = sint i div 128"
    by (simp add: sint_signed_drop_bit_eq drop_bit_eq_div)
  moreover have "0 \<le> sint i div 128" using assms by simp
  ultimately show ?thesis
    using assms by (simp add: take_bit_eq_mod uint_eq_sint_of_nonneg)
qed

text \<open>\<open>msb()\<close> and \<open>lsb()\<close> split a 14 bit MIDI controller value into two data bytes: both are in
  the range of a data byte, and 128 times the first plus the second is the value again.\<close>

theorem msb_lsb_recombine:
  assumes "0 \<le> sint i" and "sint i < 16384"
  shows "sint (msb_value i) * 128 + sint (lsb_value i) = sint i \<and>
    sint (msb_value i) \<in> {0..127} \<and> sint (lsb_value i) \<in> {0..127}"
proof -
  have i: "uint i = sint i" using uint_eq_sint_of_nonneg [OF assms(1)] .
  have small: "sint w = uint w" if "uint w < 128" for w :: vmint
    using that sint_word_of_int_small [of "uint w"] uint_ge_0 [of w] by (simp del: uint_ge_0)
  have m: "sint (msb_value i) = uint i div 128"
    using uint_msb_value [OF assms(1)] assms i small [of "msb_value i"] by simp
  have l: "sint (lsb_value i) = uint i mod 128"
    using uint_lsb_value [of i] small [of "lsb_value i"] by simp
  show ?thesis
    using assms by (simp add: m l i) linarith
qed

section \<open>wait\<close>

text \<open>\<open>wait(us)\<close> suspends the script for \<open>us\<close> microseconds when \<open>us\<close> is positive; otherwise it
  leaves the suspension time alone, prints a warning and aborts the handler.\<close>

theorem wait_suspends_or_aborts:
  assumes "result_slot Fn_wait n s"
  shows "\<exists>fl t. LeafStatement_exec L (CallStatement (FunctionCall n nm
        [IntLiteral us f VM_NO_UNIT b] (Some Fn_wait))) s = Some (fl, t) \<and>
    (0 < sint us \<longrightarrow> fl = STMT_SUSPEND_SIGNALLED \<and> suspendMicroseconds (execCtx t) = us \<and>
       messages t = messages s) \<and>
    (sint us \<le> 0 \<longrightarrow> fl = STMT_ABORT_SIGNALLED \<and> execCtx t = execCtx s \<and>
       length (messages t) = Suc (length (messages s)))"
proof -
  let ?s = "bind_slot Fn_wait n s"
  let ?args = "[IntLiteral_node L us f VM_NO_UNIT b]"
  have cls: "fn_class Fn_wait r \<Longrightarrow> is_VMEmptyResult r" for r by simp
  have msg: "messages (bind_slot Fn_wait n s) = messages s" by (simp add: bind_slot_def)
  have cast: "evalCastInt (IntLiteral_node L v f VM_NO_UNIT b) x = Some (v, x)" for v x
    by (simp add: evalCastInt_def asInt_evalInt_def)
  note ex = CoreVMFunction_wait_exec_def arg_asNumber_def isNumberExpr_def cast
  have run: "\<exists>u. FunctionCall_exec L n (Some Fn_wait) ?args s = Some (fl, u) \<and>
      execCtx u = execCtx t \<and> messages u = messages t"
    if w: "CoreVMFunction_wait_exec ?args ?s = put_empty Fn_wait fl t"
      and slot: "boundResult t Fn_wait = Some n" "fnResult t = fnResult s" for fl t
  proof -
    obtain u where u: "FunctionCall_exec L n (Some Fn_wait) ?args s = Some (fl, u)"
      "only_arrays (t\<lparr>boundResult := boundResult u, fnResult := fnResult u\<rparr>) u" "execCtx u = execCtx t"
      using call_empty [OF assms cls _ slot, of L ?args fl] w
      by (auto simp: CoreVMFunction_wait_def)
    have "messages u = messages t"
      by (subst u(2) [unfolded only_arrays_def]) simp
    with u show ?thesis by blast
  qed
  consider "sint us < 0" | "us = 0" | "0 < sint us"
    by (metis linorder_neqE_linordered_idom signed_eq_0_iff)
  then show ?thesis
  proof cases
    case 1
    with run [of STMT_ABORT_SIGNALLED
        "printMsg ''wait(): argument may not be negative! Aborting handler!'' ?s"]
    show ?thesis by (auto simp: ex msg printMsg_def)
  next
    case 2
    with run [of STMT_ABORT_SIGNALLED
        "printMsg ''wait(): argument may not be zero! Aborting handler!'' ?s"]
    show ?thesis by (auto simp: ex msg printMsg_def)
  next
    case 3
    then have "us \<noteq> 0" by auto
    with 3 run [of STMT_SUSPEND_SIGNALLED "upd_ctx (\<lambda>c. c\<lparr>suspendMicroseconds := us\<rparr>) ?s"]
    show ?thesis by (auto simp: ex msg upd_ctx_def)
  qed
qed

section \<open>Bindings\<close>

text \<open>C32: Evaluating any expression leaves every built-in function bound to the result object it was
  bound to before, however calls of the same function are nested in it.\<close>

theorem eval_restores_bindings:
  assumes "bindings_ok s" and "eval_int L e s = Some (v, t)"
  shows "boundResult t = boundResult s \<and> bindings_ok t"
  using bindings.eval_frame(5) [OF assms(2)] assms(1) by (simp add: same_bindings_def)

section \<open>Concrete calls\<close>

definition result_vm :: "VMFnResult \<Rightarrow> vm" where
  "result_vm r = example_vm\<lparr>fnResult := (\<lambda>n. Some r)\<rparr>"

lemma result_vm_simps [simp]:
  "IntArray_valid 0 (result_vm r)" "int_array_len 0 (result_vm r) = 3"
  "intArrays (result_vm r) ! 0 = \<lparr>ao_values = [3, 1, 2], ao_unitFactors = [Fin 1, Fin 1, Fin 1]\<rparr>"
  "result_slot f n (result_vm r) = fn_class f r"
  by (simp_all add: result_vm_def example_vm_def result_slot_def IntArray_valid_def array_object_ok_def)

lemma new_result_class [simp]:
  "is_VMIntResult new_VMIntResult" "is_VMEmptyResult new_VMEmptyResult"
  by (simp_all add: new_VMIntResult_def new_VMEmptyResult_def)

theorem search_finds_first_witness:
  "map_option fst (eval_int example_clib
     (FunctionCall 0 ''search'' [IntArrayVariable 0 False, lit 1] (Some Fn_search))
     (result_vm new_VMIntResult)) = Some 1"
proof -
  let ?s = "result_vm new_VMIntResult"
  obtain r t where e: "eval_int example_clib (FunctionCall 0 ''search''
      [IntArrayVariable 0 False, lit 1] (Some Fn_search)) ?s = Some (r, t)"
    and r: "r = - 1 \<and> (\<forall>j < int_array_len 0 ?s. int_array_elem 0 ?s j \<noteq> 1) \<or>
     (\<exists>m. r = of_nat m \<and> m < int_array_len 0 ?s \<and> int_array_elem 0 ?s m = 1 \<and>
       (\<forall>j < m. int_array_elem 0 ?s j \<noteq> 1))"
    using search_finds_first [of 0 ?s 0 example_clib "''search''" False 1 "Fin 1" VM_NO_UNIT False]
    by auto
  have "int_array_elem 0 ?s m = 1 \<Longrightarrow> m < int_array_len 0 ?s \<Longrightarrow> m = 1" for m
    by (auto simp: less_Suc_eq numeral_3_eq_3)
  moreover have "int_array_elem 0 ?s 1 = 1" "1 < int_array_len 0 ?s" by simp_all
  ultimately have "r = 1" using r by (metis of_nat_1)
  with e show ?thesis by simp
qed


theorem array_equal_int_arrays_witness:
  "map_option fst (eval_int example_clib (FunctionCall 0 ''array_equal''
      [IntArrayVariable 0 False, IntArrayVariable 0 False] (Some Fn_array_equal))
      (result_vm new_VMIntResult)) = Some 1"
proof -
  have "\<forall>j < 3. array_equal_int ([3, 1, 2] ! j) ([3, 1, 2] ! j)
      ([Fin 1, Fin 1, Fin 1] ! j) ([Fin 1, Fin 1, Fin 1] ! j)" by code_simp
  then show ?thesis
    using array_equal_int_arrays [of 0 "result_vm new_VMIntResult" 0 0 example_clib
        "''array_equal''" False False]
    by simp
qed

theorem in_range_either_order_witness:
  "map_option fst (eval_int example_clib (FunctionCall 0 ''in_range''
      [RealLiteral (Fin 2) (Fin 1) VM_NO_UNIT False, RealLiteral (Fin 3) (Fin 1) VM_NO_UNIT False,
       RealLiteral (Fin 1) (Fin 1) VM_NO_UNIT False] (Some Fn_in_range))
      (result_vm new_VMIntResult)) = Some 1"
proof -
  have v: "Fin 3 * Fin 1 = Fin 3" "Fin 1 * Fin 1 = Fin 1" "Fin 2 * Fin 1 = Fin 2" "fle (Fin 1) (Fin 2)"
    "fle (Fin 2) (Fin 3)" by code_simp+
  show ?thesis
    using in_range_either_order [of 0 "result_vm new_VMIntResult" "Fin 3" "Fin 1" "Fin 1" "Fin 1"
        example_clib "''in_range''" "Fin 2" "Fin 1" VM_NO_UNIT]
    by (simp add: v)
qed

theorem msb_lsb_recombine_witness:
  "sint (msb_value 1000) * 128 + sint (lsb_value 1000) = 1000"
  using msb_lsb_recombine [of 1000] by simp

theorem wait_suspends_or_aborts_witness:
  "\<exists>t. LeafStatement_exec example_clib (CallStatement (FunctionCall 0 ''wait''
      [lit 5] (Some Fn_wait))) (result_vm new_VMEmptyResult) = Some (STMT_SUSPEND_SIGNALLED, t) \<and>
    suspendMicroseconds (execCtx t) = 5"
  using wait_suspends_or_aborts [of 0 "result_vm new_VMEmptyResult" example_clib "''wait''" 5
      "Fin 1" False]
  by auto

definition abs_abs :: expr where
  "abs_abs = FunctionCall 0 ''abs'' [FunctionCall 1 ''abs'' [lit (- 5)] (Some Fn_abs)] (Some Fn_abs)"

theorem eval_restores_bindings_witness:
  "\<exists>t. eval_int example_clib abs_abs (result_vm new_VMIntResult) = Some (5, t) \<and>
    boundResult t = boundResult (result_vm new_VMIntResult)"
proof -
  have "bindings_ok (result_vm new_VMIntResult)"
    by (simp add: bindings_ok_def result_vm_def example_vm_def)
  moreover have "map_option fst (eval_int example_clib abs_abs (result_vm new_VMIntResult)) = Some 5"
    by code_simp
  ultimately show ?thesis
    using eval_restores_bindings [of "result_vm new_VMIntResult" example_clib abs_abs 5] by fastforce
qed

end
