(* ===== verification/VMCells.thy ===== *)
theory VMCells
  imports CoreFunctionProps
begin

text \<open>
  Variables as memory cells. The locale \<open>number_cell\<close> states what reading and writing a variable
  promise; it is interpreted for \<open>IntVariable\<close> and \<open>RealVariable\<close>, global and polyphonic, and for the
  integers inside of C++ objects that built-in variables access through a \<open>VMIntPtr\<close>, where a write
  truncates to the width of the object's member and a read extends it again.
\<close>

section \<open>The interface\<close>

locale number_cell =
  fixes rd :: "vm \<Rightarrow> 'v option" and wr :: "'v \<Rightarrow> vm \<Rightarrow> vm option" and valid :: "vm \<Rightarrow> bool"
    and conv :: "'v \<Rightarrow> 'v"
  assumes rd_valid: "valid s \<Longrightarrow> \<exists>v. rd s = Some v \<and> conv v = v"
    and wr_valid: "valid s \<Longrightarrow> \<exists>t. wr v s = Some t \<and> valid t \<and> rd t = Some (conv v)"
begin

lemma wr_rd: "valid s \<Longrightarrow> Option.bind (wr v s) rd = Some (conv v)"
  using wr_valid [of s v] by fastforce

lemma last_write: "valid s \<Longrightarrow> Option.bind (Option.bind (wr v s) (wr w)) rd = Some (conv w)"
  using wr_valid [of s v] wr_rd by fastforce

lemma conv_conv: "valid s \<Longrightarrow> conv (conv v) = conv v"
  using wr_valid [of s v] rd_valid by fastforce

lemma wr_own: "valid s \<Longrightarrow> rd s = Some v \<Longrightarrow> Option.bind (wr v s) rd = rd s"
  using wr_rd [of s v] rd_valid [of s] by auto

end

section \<open>Scalar variables\<close>

definition factor_slot :: "VariableDecl \<Rightarrow> vm \<Rightarrow> bool" where
  "factor_slot d s \<longleftrightarrow> (if vd_isPolyphonic d
     then vd_unitFactorMemPos d < length (polyphonicUnitFactorMemory (execCtx s))
     else vd_unitFactorMemPos d < length (globalUnitFactorMemory s))"

definition int_slot :: "VariableDecl \<Rightarrow> vm \<Rightarrow> bool" where
  "int_slot d s \<longleftrightarrow> (if vd_isPolyphonic d
     then vd_memPos d < length (polyphonicIntMemory (execCtx s))
     else vd_memPos d < length (globalIntMemory s))"

definition real_slot :: "VariableDecl \<Rightarrow> vm \<Rightarrow> bool" where
  "real_slot d s \<longleftrightarrow> (if vd_isPolyphonic d
     then vd_memPos d < length (polyphonicRealMemory (execCtx s))
     else vd_memPos d < length (globalRealMemory s))"

interpretation int_cell: number_cell "\<lambda>s. map_option fst (IntVariable_evalInt d s)"
  "IntVariable_store d" "int_slot d" "\<lambda>v. v" for d
  by unfold_locales (auto simp: IntVariable_evalInt_def IntVariable_store_def int_slot_def)

interpretation real_cell: number_cell "\<lambda>s. map_option fst (RealVariable_evalReal d s)"
  "RealVariable_store d" "real_slot d" "\<lambda>v. v" for d
  by unfold_locales (auto simp: RealVariable_evalReal_def RealVariable_store_def real_slot_def)

interpretation factor_cell: number_cell "NumberVariable_unitFactor d"
  "NumberVariable_setUnitFactor d" "factor_slot d" "\<lambda>v. v" for d
  by unfold_locales (auto simp: NumberVariable_unitFactor_def NumberVariable_setUnitFactor_def factor_slot_def)

text \<open>Writing one kind of cell leaves the others alone.\<close>

lemma IntVariable_store_other:
  assumes "IntVariable_store d v s = Some t"
  shows "NumberVariable_unitFactor d' t = NumberVariable_unitFactor d' s"
    "factor_slot d' t = factor_slot d' s" "RealVariable_evalReal d' t = map_option (\<lambda>(r, _). (r, t)) (RealVariable_evalReal d' s)"
    "vd_isPolyphonic d' \<noteq> vd_isPolyphonic d \<or> vd_memPos d' \<noteq> vd_memPos d \<Longrightarrow>
      map_option fst (IntVariable_evalInt d' t) = map_option fst (IntVariable_evalInt d' s)"
  using assms
  by (auto simp: IntVariable_store_def NumberVariable_unitFactor_def factor_slot_def IntVariable_evalInt_def
      RealVariable_evalReal_def upd_opt_def nth_opt_def split: if_splits option.splits bind_splits)

lemma NumberVariable_setUnitFactor_other:
  assumes "NumberVariable_setUnitFactor d f s = Some t"
  shows "map_option fst (IntVariable_evalInt d' t) = map_option fst (IntVariable_evalInt d' s)"
    "vd_isPolyphonic d' \<noteq> vd_isPolyphonic d \<or> vd_unitFactorMemPos d' \<noteq> vd_unitFactorMemPos d \<Longrightarrow>
      NumberVariable_unitFactor d' t = NumberVariable_unitFactor d' s"
  using assms
  by (auto simp: NumberVariable_setUnitFactor_def NumberVariable_unitFactor_def IntVariable_evalInt_def
      upd_opt_def nth_opt_def split: if_splits option.splits bind_splits)

section \<open>Members of C++ objects\<close>

lemma le_bytes_length [simp]: "length (le_bytes n k) = n"
  by (induction n arbitrary: k) simp_all

lemma le_int_le_bytes: "le_int (le_bytes n k) = k mod 256 ^ n"
proof (induction n arbitrary: k)
  case (Suc n)
  have "k mod 256 + 256 * (k div 256 mod 256 ^ n) = k mod (256 * 256 ^ n)"
    by (simp add: zmod_zmult2_eq)
  with Suc show ?case by (simp add: unsigned_of_int take_bit_eq_mod)
qed simp

lemma le_bytes_le_int: "le_bytes (length bs) (le_int bs) = bs"
proof (induction bs)
  case (Cons b bs)
  have "(uint b + 256 * le_int bs) div 256 = le_int bs"
    using uint_lt2p [of b] by simp
  moreover have "word_of_int (uint b + 256 * le_int bs) = b"
  proof -
    have "(256 :: 8 word) * x = 0" for x
    proof -
      have "(256 :: 8 word) = 0" by simp
      then show ?thesis by (metis mult_zero_left)
    qed
    then show ?thesis by simp
  qed
  ultimately show ?case using Cons by simp
qed simp

lemma load_store_bytes:
  assumes "store_bytes p n k s = Some t"
  shows "load_bytes p n t = Some (k mod 256 ^ n)"
  using assms
  by (auto simp: store_bytes_def load_bytes_def Let_def le_int_le_bytes split: if_splits)

lemma store_bytes_total:
  "rp_offset p + n \<le> length (objectBytes s (rp_base p)) \<Longrightarrow> \<exists>t. store_bytes p n k s = Some t \<and>
    length (objectBytes t (rp_base p)) = length (objectBytes s (rp_base p))"
  by (auto simp: store_bytes_def Let_def)

text \<open>Bytes outside of the member, and other objects, keep their value.\<close>

lemma store_bytes_frame:
  assumes "store_bytes p n k s = Some t"
  shows "q \<noteq> rp_base p \<Longrightarrow> objectBytes t q = objectBytes s q"
    "i < rp_offset p \<or> rp_offset p + n \<le> i \<Longrightarrow> objectBytes t (rp_base p) ! i = objectBytes s (rp_base p) ! i"
    "t = s\<lparr>objectBytes := objectBytes t\<rparr>"
  using assms by (auto simp: store_bytes_def Let_def nth_append split: if_splits)

fun VMIntPtr_size :: "VMIntPtr \<Rightarrow> nat" where
  "VMIntPtr_size (VMInt64RelPtr p) = 8"
| "VMIntPtr_size (VMInt32RelPtr p) = 4"
| "VMIntPtr_size (VMInt16RelPtr p) = 2"
| "VMIntPtr_size (VMInt8RelPtr p) = 1"

fun VMIntPtr_rel :: "VMIntPtr \<Rightarrow> VMRelPtr" where
  "VMIntPtr_rel (VMInt64RelPtr p) = p"
| "VMIntPtr_rel (VMInt32RelPtr p) = p"
| "VMIntPtr_rel (VMInt16RelPtr p) = p"
| "VMIntPtr_rel (VMInt8RelPtr p) = p"

definition VMIntPtr_ok :: "VMIntPtr \<Rightarrow> vm \<Rightarrow> bool" where
  "VMIntPtr_ok p s \<longleftrightarrow>
     rp_offset (VMIntPtr_rel p) + VMIntPtr_size p \<le> length (objectBytes s (rp_base (VMIntPtr_rel p)))"

text \<open>The value a member of the object's width holds after \<open>v\<close> was stored into it: signed for 64, 32
  and 16 bit, unsigned for 8 bit.\<close>

fun VMIntPtr_conv :: "VMIntPtr \<Rightarrow> vmint \<Rightarrow> vmint" where
  "VMIntPtr_conv (VMInt64RelPtr p) v = v"
| "VMIntPtr_conv (VMInt32RelPtr p) v = signed_take_bit 31 v"
| "VMIntPtr_conv (VMInt16RelPtr p) v = signed_take_bit 15 v"
| "VMIntPtr_conv (VMInt8RelPtr p) v = take_bit 8 v"

lemma word_of_int_mod: "(word_of_int (uint v mod 256 ^ n) :: 64 word) = take_bit (8 * n) v" for v :: vmint
proof -
  have "(256 :: int) ^ n = 2 ^ (8 * n)" by (simp add: power_mult)
  then have "uint v mod 256 ^ n = uint (take_bit (8 * n) v)"
    by (simp add: unsigned_take_bit_eq flip: take_bit_eq_mod)
  then show ?thesis by simp
qed

lemma scast_word_of_int:
  "(scast (word_of_int k :: 'a::len word) :: 64 word) = signed_take_bit (LENGTH('a) - 1) (word_of_int k)"
  if "LENGTH('a) \<le> 64" for k
proof -
  have "min (LENGTH('a) - Suc 0) n < LENGTH('a)" for n
    using len_gt_0 [where 'a = 'a] by (simp add: min_less_iff_disj)
  with that show ?thesis by (intro bit_word_eqI) (auto simp: bit_simps)
qed

lemma VMIntPtr_evalInt_conv:
  assumes "load_bytes (VMIntPtr_rel p) (VMIntPtr_size p) s = Some k" and "word_of_int k = v"
  shows "VMIntPtr_evalInt p s = Some (VMIntPtr_conv p v)"
proof -
  have "(ucast (word_of_int k :: 8 word) :: 64 word) = take_bit 8 (word_of_int k)"
    by (rule bit_word_eqI) (auto simp: bit_simps)
  with assms show ?thesis
    by (cases p) (auto simp: scast_word_of_int [where 'a = 32] scast_word_of_int [where 'a = 16])
qed

interpretation ptr_cell: number_cell "VMIntPtr_evalInt p" "VMIntPtr_assign p" "VMIntPtr_ok p"
  "VMIntPtr_conv p" for p
proof (unfold_locales, goal_cases)
  case (1 s)
  then obtain k where "load_bytes (VMIntPtr_rel p) (VMIntPtr_size p) s = Some k"
    by (auto simp: VMIntPtr_ok_def load_bytes_def Let_def)
  moreover have "VMIntPtr_conv p (VMIntPtr_conv p v) = VMIntPtr_conv p v" for v
    by (cases p) (auto simp: bit_eq_iff bit_simps)
  ultimately show ?case
    using VMIntPtr_evalInt_conv [of p s k "word_of_int k"] by simp
next
  case (2 s v)
  have st: "VMIntPtr_assign p v s = store_bytes (VMIntPtr_rel p) (VMIntPtr_size p) (uint v) s"
    by (cases p) simp_all
  obtain t where t: "store_bytes (VMIntPtr_rel p) (VMIntPtr_size p) (uint v) s = Some t" "VMIntPtr_ok p t"
    using store_bytes_total 2 by (fastforce simp: VMIntPtr_ok_def)
  have "VMIntPtr_evalInt p t = Some (VMIntPtr_conv p (take_bit (8 * VMIntPtr_size p) v))"
    by (rule VMIntPtr_evalInt_conv [OF load_store_bytes [OF t(1)] word_of_int_mod])
  moreover have "VMIntPtr_conv p (take_bit (8 * VMIntPtr_size p) v) = VMIntPtr_conv p v"
    by (cases p) (auto simp: bit_eq_iff bit_simps)
  ultimately show ?case using st t by simp
qed

end
