(* ===== verification/VMExprProps.thy ===== *)
theory VMExprProps
  imports VMCells
begin

text \<open>
  Variables and operators as a script sees them: assignments are clients of the interpretations of
  \<open>number_cell\<close> and \<open>num_array\<close>; the operators are verified for arbitrary operands, whose side effects
  and traps are part of the statement.
\<close>

section \<open>Assignments\<close>

lemma variable_node_simps [simp]:
  "isVariable (IntVariable_node L d)" "isIntExpr (IntVariable_node L d)"
  "evalInt (IntVariable_node L d) = IntVariable_evalInt d"
  "unitFactor (IntVariable_node L d) = NumberVariable_unitFactor d"
  "assign (IntVariable_node L d) = IntVariable_assign d"
  "unitType (IntVariable_node L d) = vd_unitType d"
  "exprType (IntVariable_node L d) = INT_EXPR"
  by (simp_all add: IntVariable_node_def IntExpr_node_def base_node_def)

lemma truncate_simps [simp]:
  "isIntExpr (rnode.truncate e) = isIntExpr e" "evalInt (rnode.truncate e) = evalInt e"
  "unitFactor (rnode.truncate e) = unitFactor e" "isRealExpr (rnode.truncate e) = isRealExpr e"
  "evalReal (rnode.truncate e) = evalReal e" "isStringExpr (rnode.truncate e) = isStringExpr e"
  "evalStr (rnode.truncate e) = evalStr e"
  by (simp_all add: rnode.truncate_def)

lemma eval_int_simps [simp]:
  "eval_int L (IntVariable d) = IntVariable_evalInt d"
  "eval_int L (IntLiteral v f u b) s = Some (v, s)"
  by (auto simp: eval_int_def asInt_evalInt_def fun_eq_iff)

lemma IntVariable_evalInt_state:
  "IntVariable_evalInt d s = map_option (\<lambda>(v, _). (v, s)) (IntVariable_evalInt d s)"
  by (cases "IntVariable_evalInt d s") (auto simp: IntVariable_evalInt_def split: bind_splits if_splits)

lemma IntVariable_evalInt_fst:
  "map_option fst (IntVariable_evalInt d s) = Some v \<Longrightarrow> IntVariable_evalInt d s = Some (v, s)"
  by (subst IntVariable_evalInt_state) auto

text \<open>Storing a value and then its unit factor, the way all number variables are assigned.\<close>

lemma store_then_factor:
  assumes "int_slot d s" and "factor_slot d s"
  obtains t1 t where "IntVariable_store d v s = Some t1" "NumberVariable_setUnitFactor d f t1 = Some t"
    "IntVariable_evalInt d t = Some (v, t)" "NumberVariable_unitFactor d t = Some f"
    "\<And>d'. vd_isPolyphonic d' \<noteq> vd_isPolyphonic d \<or> vd_memPos d' \<noteq> vd_memPos d \<Longrightarrow>
       map_option fst (IntVariable_evalInt d' t) = map_option fst (IntVariable_evalInt d' s)"
proof -
  obtain t1 where t1: "IntVariable_store d v s = Some t1"
    "map_option fst (IntVariable_evalInt d t1) = Some v"
    using int_cell.wr_valid [OF assms(1)] by blast
  have "factor_slot d t1" using IntVariable_store_other(2) [OF t1(1)] assms(2) by simp
  then obtain t where t: "NumberVariable_setUnitFactor d f t1 = Some t"
    "NumberVariable_unitFactor d t = Some f"
    using factor_cell.wr_valid by blast
  have "map_option fst (IntVariable_evalInt d t) = Some v"
    using NumberVariable_setUnitFactor_other(1) [OF t(1), of d] t1(2) by simp
  from that [OF t1(1) t(1) IntVariable_evalInt_fst [OF this] t(2)] show ?thesis
    using NumberVariable_setUnitFactor_other(1) [OF t(1)] IntVariable_store_other(4) [OF t1(1)] by simp
qed


text \<open>The call \<open>inc($x)\<close> adds one to the variable, wrapping around at 64 bit, keeps its unit factor and
  gives the new value.\<close>

theorem inc_variable:
  assumes "result_slot Fn_inc n s" and "int_slot d s" and "factor_slot d s"
    and "eval_int L (IntVariable d) s = Some (v, s)"
  shows "\<exists>t. eval_int L (FunctionCall n nm [IntVariable d] (Some Fn_inc)) s = Some (v + 1, t) \<and>
    eval_int L (IntVariable d) t = Some (v + 1, t) \<and>
    NumberVariable_unitFactor d t = NumberVariable_unitFactor d s"
proof -
  let ?s = "bind_slot Fn_inc n s"
  obtain f where f: "NumberVariable_unitFactor d s = Some f"
    using factor_cell.rd_valid [OF assms(3)] by blast
  have slots: "int_slot d ?s" "factor_slot d ?s" "IntVariable_evalInt d ?s = Some (v, ?s)"
    "NumberVariable_unitFactor d ?s = Some f"
    using assms(2-4) f by (auto simp: bind_slot_def int_slot_def factor_slot_def IntVariable_evalInt_def
        NumberVariable_unitFactor_def split: bind_splits if_splits)
  obtain t1 t where t: "IntVariable_store d (v + 1) ?s = Some t1" "NumberVariable_setUnitFactor d f t1 = Some t"
    "IntVariable_evalInt d t = Some (v + 1, t)" "NumberVariable_unitFactor d t = Some f"
    using store_then_factor [OF slots(1,2), of "v + 1" f] by metis
  have same: "boundResult t = boundResult ?s" "fnResult t = fnResult ?s"
    using t(1,2) by (auto simp: IntVariable_store_def NumberVariable_setUnitFactor_def
        split: if_splits bind_splits)
  have "CoreVMFunction_inc_exec [IntVariable_node L d] ?s = put_int Fn_inc STMT_SUCCESS (v + 1) f t"
    using slots t by (simp add: CoreVMFunction_inc_exec_def asInt_evalInt_def tmp_IntLiteral_def
        IntVariable_assign_def VMIntResultFunction_successResultDef_def rnode.defs)
  then obtain u where u: "FunctionCall_evalInt L n (Some Fn_inc) [IntVariable_node L d] s = Some (v + 1, u)"
    "only_arrays (t\<lparr>boundResult := boundResult u, fnResult := fnResult u\<rparr>) u"
    using call_int [OF assms(1), of L "[IntVariable_node L d]" STMT_SUCCESS "v + 1" f t] same
    by (auto simp: CoreVMFunction_inc_def)
  have "IntVariable_evalInt d u = Some (v + 1, u) \<and> NumberVariable_unitFactor d u = Some f"
    using t(3,4) u(2) by (subst (1 2 3) u(2) [unfolded only_arrays_def])
      (auto simp: IntVariable_evalInt_def NumberVariable_unitFactor_def split: bind_splits if_splits)
  with u(1) f show ?thesis
    by (simp add: eval_int_def asInt_evalInt_def FunctionCall_node_def)
qed

section \<open>Built-in variables\<close>

text \<open>C30: Assigning to a built-in variable stores the value, reduced to the width of the object member
  behind the variable, and reading the variable gives the reduced value. Other objects and the other
  bytes of this object are not touched.\<close>

theorem assign_builtin_variable:
  assumes "VMIntPtr_ok p s"
  shows "\<exists>t. LeafStatement_exec L (Assignment (Some (BuiltInIntVariable nm p)) (IntLiteral v f u b)) s =
      Some (STMT_SUCCESS, t) \<and>
    eval_int L (BuiltInIntVariable nm p) t = Some (VMIntPtr_conv p v, t) \<and>
    (\<forall>q. q \<noteq> rp_base (VMIntPtr_rel p) \<longrightarrow> objectBytes t q = objectBytes s q) \<and>
    (\<forall>i. i < rp_offset (VMIntPtr_rel p) \<or> rp_offset (VMIntPtr_rel p) + VMIntPtr_size p \<le> i \<longrightarrow>
       objectBytes t (rp_base (VMIntPtr_rel p)) ! i = objectBytes s (rp_base (VMIntPtr_rel p)) ! i)"
proof -
  obtain t where t: "VMIntPtr_assign p v s = Some t" "VMIntPtr_evalInt p t = Some (VMIntPtr_conv p v)"
    using ptr_cell.wr_valid [OF assms] by blast
  have st: "store_bytes (VMIntPtr_rel p) (VMIntPtr_size p) (uint v) s = Some t"
    using t(1) by (cases p) simp_all
  have n: "assign (BuiltInIntVariable_node L p) = BuiltInIntVariable_assign p"
    "isIntExpr (BuiltInIntVariable_node L p)"
    "evalInt (BuiltInIntVariable_node L p) = BuiltInIntVariable_evalInt p"
    by (simp_all add: BuiltInIntVariable_node_def IntExpr_node_def base_node_def)
  show ?thesis
    using t store_bytes_frame [OF st]
    by (simp add: Assignment_exec_def n BuiltInIntVariable_assign_def eval_int_def asInt_evalInt_def
        BuiltInIntVariable_evalInt_def)
qed

section \<open>Logic\<close>

lemma logic_node_simps [simp]:
  "isIntExpr (And_node L l r)" "evalInt (And_node L l r) = And_evalInt l r"
  "isIntExpr (Or_node L l r)" "evalInt (Or_node L l r) = Or_evalInt l r"
  "isIntExpr (Not_node L l)" "evalInt (Not_node L l) = Not_evalInt l"
  by (simp_all add: And_node_def Or_node_def Not_node_def IntBinaryOp_node_def BinaryOp_node_def
      IntExpr_node_def base_node_def)

text \<open>\<open>and\<close> and \<open>or\<close> evaluate their right operand only when the left one does not decide the
  result: a left operand that is 0 makes \<open>and\<close> 0, and any other makes \<open>or\<close> 1, in the state the left
  operand leaves.\<close>

theorem and_or_short_circuit:
  assumes "eval_int L l s = Some (v, t)"
  shows "eval_int L (And l r) s = (if v = 0 then Some (0, t)
      else map_option (\<lambda>(w, u). (vmint_of_bool (w \<noteq> 0), u)) (eval_int L r t)) \<and>
    eval_int L (Or l r) s = (if v \<noteq> 0 then Some (1, t)
      else map_option (\<lambda>(w, u). (vmint_of_bool (w \<noteq> 0), u)) (eval_int L r t))"
  using assms
  by (auto simp: eval_int_def asInt_evalInt_def And_evalInt_def Or_evalInt_def vmint_of_bool_def
      split: bind_splits if_splits)

text \<open>De Morgan's law for the short-circuit operators: \<open>not (l and r)\<close> and \<open>(not l) or (not r)\<close> give the
  same value, have the same side effects and trap in the same states.\<close>

theorem not_and_eq_or_not:
  "eval_int L (Not (And l r)) = eval_int L (Or (Not l) (Not r))"
  by (rule ext) (auto simp: eval_int_def asInt_evalInt_def And_evalInt_def Or_evalInt_def Not_evalInt_def
      split: bind_splits if_splits)

section \<open>Division\<close>

lemma div_node_simps [simp]:
  "isIntExpr (Div_node L l r)" "evalInt (Div_node L l r) = Div_evalInt l r"
  "isIntExpr (Mod_node L l r)" "evalInt (Mod_node L l r) = Mod_evalInt l r"
  by (simp_all add: Div_node_def Mod_node_def VaritypeScalarBinaryOp_node_def IntBinaryOp_node_def
      BinaryOp_node_def base_node_def Let_def)

lemma trunc_div_mod:
  fixes x y :: int
  assumes "y \<noteq> 0"
  shows "x = (x sdiv y) * y + x smod y" "\<bar>x smod y\<bar> < \<bar>y\<bar>"
    "x smod y \<noteq> 0 \<Longrightarrow> sgn (x smod y) = sgn x" "\<bar>x sdiv y\<bar> \<le> \<bar>x\<bar>"
proof -
  show "x = (x sdiv y) * y + x smod y" by (simp add: sdiv_mult_smod_eq)
  have m: "0 \<le> \<bar>x\<bar> mod \<bar>y\<bar>" "\<bar>x\<bar> mod \<bar>y\<bar> < \<bar>y\<bar>" using assms by simp_all
  then show "\<bar>x smod y\<bar> < \<bar>y\<bar>"
    by (auto simp: signed_modulo_int_def abs_mult abs_sgn_eq assms)
  show "sgn (x smod y) = sgn x" if "x smod y \<noteq> 0"
    using that m by (auto simp: signed_modulo_int_def sgn_mult)
  have "\<bar>x\<bar> div \<bar>y\<bar> \<le> \<bar>x\<bar>"
    using zdiv_mono2 [of "\<bar>x\<bar>" 1 "\<bar>y\<bar>"] assms by simp
  moreover have "0 \<le> \<bar>x\<bar> div \<bar>y\<bar>"
    using assms by (simp add: pos_imp_zdiv_nonneg_iff)
  ultimately show "\<bar>x sdiv y\<bar> \<le> \<bar>x\<bar>"
    by (auto simp: signed_divide_int_def abs_mult abs_sgn_eq)
qed

lemma sdiv_max:
  fixes x y :: int
  assumes "x sdiv y = 2 ^ 63" and "- (2 ^ 63) \<le> x" and "x < 2 ^ 63"
  shows "x = - (2 ^ 63) \<and> y = - 1"
proof -
  have y: "y \<noteq> 0" using assms(1) by (auto simp: signed_divide_int_def)
  have "\<bar>x sdiv y\<bar> \<le> \<bar>x\<bar>" by (rule trunc_div_mod(4) [OF y])
  then have x: "x = - (2 ^ 63)" using assms by simp
  have "x = (x sdiv y) * y + x smod y" "\<bar>x smod y\<bar> < \<bar>y\<bar>"
    using trunc_div_mod(1,2) [OF y] by blast+
  with assms(1) x have "- (2 ^ 63) - 2 ^ 63 * y < \<bar>y\<bar>" "- \<bar>y\<bar> < - (2 ^ 63) - 2 ^ 63 * y"
    by (simp_all add: algebra_simps) 
  then have "y = - 1" by (cases "0 \<le> y") simp_all
  with x show ?thesis by simp
qed

lemma idiv64_truncates:
  assumes "b \<noteq> 0" and "\<not> (sint a = - (2 ^ 63) \<and> b = - 1)"
  shows "\<exists>q m. idiv64 a b = Some (q, m) \<and> sint a = sint q * sint b + sint m \<and>
    \<bar>sint m\<bar> < \<bar>sint b\<bar> \<and> (sint m \<noteq> 0 \<longrightarrow> sgn (sint m) = sgn (sint a))"
proof -
  let ?q = "sint a sdiv sint b" and ?m = "sint a smod sint b"
  have b: "sint b \<noteq> 0" using assms(1) by (metis signed_eq_0_iff)
  have ne: "?q \<noteq> 2 ^ 63"
  proof
    assume "?q = 2 ^ 63"
    from sdiv_max [OF this sint_in_range64] have "sint a = - (2 ^ 63)" "sint b = sint (- 1 :: vmint)" by simp_all
    with assms(2) show False by (metis signed_word_eqI)
  qed
  have "\<bar>?q\<bar> \<le> 2 ^ 63"
    using trunc_div_mod(4) [OF b, of "sint a"] sint_in_range64 [of a] by linarith
  with ne have q: "sint (word_of_int ?q :: vmint) = ?q"
    by (intro sint_word_of_int_small) simp_all
  have m: "sint (word_of_int ?m :: vmint) = ?m"
    using trunc_div_mod(2) [OF b, of "sint a"] sint_in_range64 [of b]
    by (intro sint_word_of_int_small) simp_all
  show ?thesis
    using b ne trunc_div_mod(1-3) [OF b, of "sint a"] q m by (simp add: idiv64_def Let_def)
qed
text \<open>C33: For a divisor other than 0, and unless the least integer is divided by -1, \<open>/\<close> and \<open>mod\<close> are
  the quotient and the remainder of the division that rounds towards zero: together they give the
  dividend back, and the remainder is smaller than the divisor and has the sign of the dividend.\<close>

theorem div_mod_truncate:
  assumes "eval_int L l s = Some (a, s1)" and "eval_int L r s1 = Some (b, t)" and "b \<noteq> 0"
    and "\<not> (sint a = - (2 ^ 63) \<and> b = - 1)"
  shows "\<exists>q m. eval_int L (Div l r) s = Some (q, t) \<and> eval_int L (Mod l r) s = Some (m, t) \<and>
    sint a = sint q * sint b + sint m \<and> \<bar>sint m\<bar> < \<bar>sint b\<bar> \<and> (sint m \<noteq> 0 \<longrightarrow> sgn (sint m) = sgn (sint a))"
proof -
  have i: "isIntExpr (denote L l)" "isIntExpr (denote L r)" "evalInt (denote L l) s = Some (a, s1)"
    "evalInt (denote L r) s1 = Some (b, t)"
    using assms(1,2) by (auto simp: eval_int_def asInt_evalInt_def split: if_splits)
  with idiv64_truncates [OF assms(3,4)] assms(3) show ?thesis
    by (auto simp: eval_int_def asInt_evalInt_def Div_evalInt_def Mod_evalInt_def)
qed

text \<open>C34: Division by zero: \<open>/\<close> gives 0, whereas \<open>mod\<close> reaches the processor's division instruction and
  traps.\<close>

theorem div_mod_by_zero:
  assumes "eval_int L l s = Some (a, s1)" and "eval_int L r s1 = Some (0, t)"
  shows "eval_int L (Div l r) s = Some (0, t) \<and> eval_int L (Mod l r) s = None"
proof -
  have i: "isIntExpr (denote L l)" "isIntExpr (denote L r)" "evalInt (denote L l) s = Some (a, s1)"
    "evalInt (denote L r) s1 = Some (0, t)"
    using assms by (auto simp: eval_int_def asInt_evalInt_def split: if_splits)
  then show ?thesis
    by (simp add: eval_int_def asInt_evalInt_def Div_evalInt_def Mod_evalInt_def idiv64_def)
qed

section \<open>Array elements\<close>

text \<open>An element object stores the index it evaluated before it accesses the array, so the array must
  not depend on the remembered indices.\<close>

locale array_element = num_array ops valid len elem fac 0 conv fconv
  for ops :: "'v::zero array_ops" and valid len elem fac conv fconv +
  assumes index_free: "valid (s\<lparr>currentIndex := c\<rparr>) = valid s" "len (s\<lparr>currentIndex := c\<rparr>) = len s"
    "elem (s\<lparr>currentIndex := c\<rparr>) = elem s" "fac (s\<lparr>currentIndex := c\<rparr>) = fac s"
begin

lemma in_array_iff:
  assumes "valid s"
  shows "\<exists>m. arraySize ops s = Some m \<and> in_array k m = (0 \<le> sint k \<and> sint k < int (len s))"
  using size [OF assms] sint_size [OF assms] by (fastforce simp: in_array_def)

lemma unat_in_array: "valid s \<Longrightarrow> 0 \<le> sint k \<Longrightarrow> sint k < int (len s) \<Longrightarrow> unat k = nat (sint k)" for k :: vmint
  using uint_eq_sint_of_nonneg [of k] by (simp add: unat_eq_nat_uint)

lemma eval_element:
  assumes "isIntExpr index" and "evalInt index s = Some (k, s1)" and "valid s1"
  shows "ArrayElement_eval n (Some ops) index s =
    Some (if 0 \<le> sint k \<and> sint k < int (len s1) then elem s1 (nat (sint k)) else 0,
      s1\<lparr>currentIndex := (currentIndex s1)(n := k)\<rparr>)"
proof -
  let ?s = "s1\<lparr>currentIndex := (currentIndex s1)(n := k)\<rparr>"
  have v: "valid ?s" using assms(3) by (simp add: index_free)
  obtain m where m: "arraySize ops ?s = Some m" "in_array k m = (0 \<le> sint k \<and> sint k < int (len s1))"
    using in_array_iff [OF v, of k] by (auto simp: index_free)
  show ?thesis
    using assms(1,2) m get [OF v, of k] unat_in_array [OF v, of k]
    by (auto simp: ArrayElement_eval_def ArrayElement_index_def index_free)
qed

lemma unitFactor_element:
  assumes "isIntExpr index" and "valid s"
  shows "ArrayElement_unitFactor n (Some ops) index s =
    Some (if 0 \<le> sint (currentIndex s n) \<and> sint (currentIndex s n) < int (len s)
      then fac s (nat (sint (currentIndex s n))) else 0)"
  using in_array_iff [OF assms(2), of "currentIndex s n"] assms
    getf [OF assms(2), of "currentIndex s n"] unat_in_array [OF assms(2), of "currentIndex s n"]
  by (auto simp: ArrayElement_unitFactor_def)

lemma assign_element:
  assumes "isIntExpr index" and "evalInt index s = Some (k, s1)" and "valid s1"
    and "0 \<le> sint k" and "sint k < int (len s1)"
  shows "\<exists>t. ArrayElement_assign n (Some ops) index v f s = Some t \<and> valid t \<and>
    only_arrays (s1\<lparr>currentIndex := (currentIndex s1)(n := k)\<rparr>) t \<and> len t = len s1 \<and>
    elem t (nat (sint k)) = conv v \<and> fac t (nat (sint k)) = fconv f \<and>
    (\<forall>j < len s1. j \<noteq> nat (sint k) \<longrightarrow> elem t j = elem s1 j \<and> fac t j = fac s1 j)"
proof -
  let ?s = "s1\<lparr>currentIndex := (currentIndex s1)(n := k)\<rparr>"
  have v: "valid ?s" and k: "unat k = nat (sint k)" "unat k < len ?s"
    using assms(3-5) unat_in_array [of s1 k] by (simp_all add: index_free)
  obtain m where m: "arraySize ops ?s = Some m" "in_array k m"
    using in_array_iff [OF v, of k] assms(4,5) by (auto simp: index_free)
  obtain t1 where t1: "assignElement ops k v ?s = Some t1" "valid t1" "only_arrays ?s t1"
    "len t1 = len ?s" "elem t1 (unat k) = conv v"
    "\<forall>j < len ?s. j \<noteq> unat k \<longrightarrow> elem t1 j = elem ?s j" "\<forall>j < len ?s. fac t1 j = fac ?s j"
    using set [OF v k(2)] by blast
  obtain t where t: "assignElementUnitFactor ops k f t1 = Some t" "valid t" "only_arrays t1 t"
    "len t = len t1" "fac t (unat k) = fconv f"
    "\<forall>j < len t1. j \<noteq> unat k \<longrightarrow> fac t j = fac t1 j" "\<forall>j < len t1. elem t j = elem t1 j"
    using setf [OF t1(2), of k f] k t1(4) by auto
  show ?thesis
    using assms(1,2) m t1 t k only_arrays_trans [OF t1(3) t(3)]
    by (simp add: ArrayElement_assign_def ArrayElement_index_def index_free)
qed

lemma assign_element_out:
  assumes "isIntExpr index" and "evalInt index s = Some (k, s1)" and "valid s1"
    and "\<not> (0 \<le> sint k \<and> sint k < int (len s1))"
  shows "ArrayElement_assign n (Some ops) index v f s =
    Some (s1\<lparr>currentIndex := (currentIndex s1)(n := k)\<rparr>)"
proof -
  let ?s = "s1\<lparr>currentIndex := (currentIndex s1)(n := k)\<rparr>"
  have v: "valid ?s" using assms(3) by (simp add: index_free)
  obtain m where m: "arraySize ops ?s = Some m" "in_array k m = (0 \<le> sint k \<and> sint k < int (len s1))"
    using in_array_iff [OF v, of k] by (auto simp: index_free)
  show ?thesis
    using assms m by (auto simp: ArrayElement_assign_def ArrayElement_index_def)
qed

end

interpretation int_element: array_element "IntArrayVariable_ops a" "IntArray_valid a" "int_array_len a"
  "int_array_elem a" "int_array_fac a" "\<lambda>v. v" "\<lambda>f. f" for a
  by unfold_locales (simp_all add: IntArray_valid_def)

interpretation real_element: array_element "RealArrayVariable_ops a" "RealArray_valid a" "real_array_len a"
  "real_array_elem a" "real_array_fac a" "\<lambda>v. v" "\<lambda>f. f" for a
  by unfold_locales (simp_all add: RealArray_valid_def)

interpretation int8_element: array_element "BuiltInIntArrayVariable_ops a" "Int8Array_valid a"
  "\<lambda>s. length (a8_data (int8Arrays s ! a))"
  "\<lambda>s i. word_of_int (sint (a8_data (int8Arrays s ! a) ! i))" "\<lambda>s i. VM_NO_FACTOR" int8_conv
  "\<lambda>f. VM_NO_FACTOR" for a
  by unfold_locales (simp_all add: Int8Array_valid_def)

lemma element_node_simps [simp]:
  "isIntExpr (IntArrayElement_node L n a i)" "unitType (IntArrayElement_node L n a i) = VM_NO_UNIT"
  "evalInt (IntArrayElement_node L n a i) = ArrayElement_eval n (asIntArray a) i"
  "unitFactor (IntArrayElement_node L n a i) = ArrayElement_unitFactor n (asIntArray a) i"
  "assign (IntArrayElement_node L n a i) = IntArrayElement_assign n a i"
  by (simp_all add: IntArrayElement_node_def IntExpr_node_def base_node_def Let_def)

text \<open>\<open>%a[i] := v\<close> with an index inside of the array stores the value and its unit factor in this
  element only, where \<open>%a[i]\<close> reads them again.\<close>

theorem assign_int_element:
  assumes "IntArray_valid a s1" and "isIntExpr (denote L i)" and "eval_int L i s = Some (k, s1)"
    and "0 \<le> sint k" and "sint k < int (int_array_len a s1)"
  shows "\<exists>t. LeafStatement_exec L (Assignment (Some (IntArrayElement n (IntArrayVariable a c) i))
        (IntLiteral v f u b)) s = Some (STMT_SUCCESS, t) \<and>
    eval_int L (IntArrayElement m (IntArrayVariable a c) (IntLiteral k g w d)) t =
      Some (v, t\<lparr>currentIndex := (currentIndex t)(m := k)\<rparr>) \<and>
    unitFactor (denote L (IntArrayElement n (IntArrayVariable a c) i)) t = Some f \<and>
    int_array_len a t = int_array_len a s1 \<and>
    (\<forall>j < int_array_len a s1. j \<noteq> nat (sint k) \<longrightarrow> int_array_elem a t j = int_array_elem a s1 j)"
proof -
  have e: "evalInt (denote L i) s = Some (k, s1)"
    using assms(2,3) by (simp add: eval_int_def asInt_evalInt_def)
  obtain t where t: "ArrayElement_assign n (Some (IntArrayVariable_ops a)) (denote L i) v f s = Some t"
    "IntArray_valid a t" "only_arrays (s1\<lparr>currentIndex := (currentIndex s1)(n := k)\<rparr>) t"
    "int_array_len a t = int_array_len a s1" "int_array_elem a t (nat (sint k)) = v"
    "int_array_fac a t (nat (sint k)) = f"
    "\<forall>j < int_array_len a s1. j \<noteq> nat (sint k) \<longrightarrow> int_array_elem a t j = int_array_elem a s1 j"
    using int_element.assign_element [OF assms(2) e assms(1,4,5), of n v f] by blast
  have "currentIndex t n = k"
    by (subst t(3) [unfolded only_arrays_def]) simp
  then show ?thesis
    using t assms(2,4,5) int_element.unitFactor_element [OF assms(2) t(2), of n]
      int_element.eval_element [OF _ _ t(2), of "IntLiteral_node L k g w d" t k m]
    by (simp add: Assignment_exec_def IntArrayElement_assign_def eval_int_def asInt_evalInt_def)
qed

text \<open>Outside of the array, assigning changes no element and reading gives 0; but the unit factor of
  such an element is 0 and not the neutral factor 1, so that adding it to any number without a unit
  gives the least integer.\<close>

theorem element_out_of_range:
  assumes "IntArray_valid a s1" and "isIntExpr (denote L i)" and "eval_int L i s = Some (k, s1)"
    and "\<not> (0 \<le> sint k \<and> sint k < int (int_array_len a s1))"
  shows "\<exists>t. LeafStatement_exec L (Assignment (Some (IntArrayElement n (IntArrayVariable a c) i))
        (IntLiteral v f u b)) s = Some (STMT_SUCCESS, t) \<and> intArrays t = intArrays s1 \<and>
    eval_int L (IntArrayElement n (IntArrayVariable a c) i) s = Some (0, t) \<and>
    eval_int L (Add (IntLiteral x VM_NO_FACTOR VM_NO_UNIT False) (IntArrayElement n (IntArrayVariable a c) i)) s =
      Some (- (2 ^ 63), t)"
proof -
  have e: "evalInt (denote L i) s = Some (k, s1)"
    using assms(2,3) by (simp add: eval_int_def asInt_evalInt_def)
  let ?t = "s1\<lparr>currentIndex := (currentIndex s1)(n := k)\<rparr>"
  have v: "IntArray_valid a ?t" using assms(1) by (simp add: IntArray_valid_def)
  have uf: "ArrayElement_unitFactor n (Some (IntArrayVariable_ops a)) (denote L i) ?t = Some 0"
    using int_element.unitFactor_element [OF assms(2) v, of n] assms(4) by simp
  have val: "ArrayElement_eval n (Some (IntArrayVariable_ops a)) (denote L i) s = Some (0, ?t)"
    using int_element.eval_element [OF assms(2) e assms(1), of n] assms(4) by simp
  have inf: "VM_NO_FACTOR / 0 = Inf False" "feq VM_NO_FACTOR 0 = False" "flt VM_NO_FACTOR 0 = False"
    by code_simp+
  have "llroundf (y * Inf False) = - (2 ^ 63)" for y
    by (cases y) (simp_all add: vmfloat_ops int_indefinite_def)
  then have "Add_evalInt (IntLiteral_node L x VM_NO_FACTOR VM_NO_UNIT False)
      (IntArrayElement_node L n (IntArrayVariable_node L a c) (denote L i)) s = Some (- (2 ^ 63), ?t)"
    using uf val by (simp add: Add_evalInt_def inf convIntToUnitFactor_def Let_def)
  with int_element.assign_element_out [OF assms(2) e assms(1,4)] val show ?thesis
    by (simp add: Assignment_exec_def IntArrayElement_assign_def eval_int_def asInt_evalInt_def
        Add_node_def VaritypeScalarBinaryOp_node_def BinaryOp_node_def base_node_def Let_def)
qed

section \<open>Relations\<close>

lemma relation_node_simps [simp]:
  "isIntExpr (Relation_node L l ty r)" "evalInt (Relation_node L l ty r) = Relation_evalInt ty l r"
  by (simp_all add: Relation_node_def IntExpr_node_def base_node_def)

lemma vmint_of_bool_not [simp]: "(if vmint_of_bool b = 0 then 1 else 0) = vmint_of_bool (\<not> b)"
  by (simp add: vmint_of_bool_def)

lemma relation_negations:
  "evalRealRelation NOT_EQUAL a b f g = (\<not> evalRealRelation EQUAL a b f g)"
  "evalIntRelation NOT_EQUAL v w f g = (\<not> evalIntRelation EQUAL v w f g)"
  "evalIntRelation GREATER_OR_EQUAL v w f g = (\<not> evalIntRelation LESS_THAN v w f g)"
  by (simp_all add: evalRealRelation_def evalIntRelation_def not_less)

text \<open>Relations negate each other: \<open>not (l = r)\<close> and \<open>l # r\<close> are the same for operands of all
  types, and for integer operands so are \<open>not (l < r)\<close> and \<open>l >= r\<close>.\<close>

theorem relation_negation:
  "eval_int L (Not (Relation l EQUAL r)) = eval_int L (Relation l NOT_EQUAL r) \<and>
    (exprType (denote L l) = INT_EXPR \<and> exprType (denote L r) = INT_EXPR \<longrightarrow>
      eval_int L (Not (Relation l LESS_THAN r)) = eval_int L (Relation l GREATER_OR_EQUAL r))"
proof -
  note simps = eval_int_def asInt_evalInt_def Not_evalInt_def Relation_evalInt_def Let_def
      Relation_strings_def relation_negations bind_assoc split_def
  have "eval_int L (Not (Relation l EQUAL r)) s = eval_int L (Relation l NOT_EQUAL r) s" for s
    by (simp add: simps)
  moreover have "eval_int L (Not (Relation l LESS_THAN r)) s = eval_int L (Relation l GREATER_OR_EQUAL r) s"
    if "exprType (denote L l) = INT_EXPR" "exprType (denote L r) = INT_EXPR" for s
    using that by (simp add: simps)
  ultimately show ?thesis by (auto simp: fun_eq_iff)
qed

section \<open>Constant expressions\<close>

definition pure_eval :: "'a eval \<Rightarrow> bool" where
  "pure_eval m \<longleftrightarrow> (\<exists>r. \<forall>s. m s = map_option (\<lambda>v. (v, s)) r)"

definition const_fun :: "(vm \<Rightarrow> 'a) \<Rightarrow> bool" where
  "const_fun u \<longleftrightarrow> (\<exists>c. \<forall>s. u s = c)"

named_theorems pure_intros

lemma pure_Some [pure_intros]: "pure_eval (\<lambda>s. Some (v, s))"
  by (auto simp: pure_eval_def intro!: exI [of _ "Some v"])

lemma pure_None [pure_intros]: "pure_eval (\<lambda>s. None)"
  by (auto simp: pure_eval_def intro!: exI [of _ None])

lemma pure_if [pure_intros]: "pure_eval m \<Longrightarrow> pure_eval k \<Longrightarrow> pure_eval (\<lambda>s. if b then m s else k s)"
  by (cases b) simp_all

lemma pure_case_prod [pure_intros]:
  "(\<And>a b. pure_eval (g a b)) \<Longrightarrow> pure_eval (\<lambda>s. case p of (a, b) \<Rightarrow> g a b s)"
  by (cases p) simp

lemma pure_bind [pure_intros]:
  assumes "pure_eval m" and "\<And>v. pure_eval (f v)"
  shows "pure_eval (\<lambda>s. Option.bind (m s) (\<lambda>(v, s). f v s))"
proof -
  obtain r where r: "\<And>s. m s = map_option (\<lambda>v. (v, s)) r" using assms(1) by (auto simp: pure_eval_def)
  show ?thesis
  proof (cases r)
    case None
    with r pure_None show ?thesis by simp
  next
    case (Some v)
    with r assms(2) [of v] show ?thesis by simp
  qed
qed

lemma pure_bind_fun [pure_intros]:
  assumes "const_fun u" and "\<And>f. pure_eval (g f)"
  shows "pure_eval (\<lambda>s. Option.bind (u s) (\<lambda>f. g f s))"
proof -
  from assms(1) obtain c where c: "u s = c" for s by (auto simp: const_fun_def)
  show ?thesis by (cases c) (use c assms(2) pure_None in simp_all)
qed

lemma const_fun_intros [pure_intros]:
  "const_fun (\<lambda>s. c)"
  "const_fun u \<Longrightarrow> (\<And>x. const_fun (g x)) \<Longrightarrow> const_fun (\<lambda>s. Option.bind (u s) (\<lambda>x. g x s))"
proof -
  show "const_fun (\<lambda>s. Option.bind (u s) (\<lambda>x. g x s))" if "const_fun u" "\<And>x. const_fun (g x)"
  proof -
    from that(1) obtain c where c: "u s = c" for s by (auto simp: const_fun_def)
    show ?thesis by (cases c) (use c that(2) in \<open>simp_all add: const_fun_def\<close>)
  qed
qed (simp add: const_fun_def)

lemma const_fun_if: "const_fun u \<Longrightarrow> const_fun w \<Longrightarrow> const_fun (\<lambda>s. if b then u s else w s)"
  by (cases b) simp_all

definition pure_node :: "node \<Rightarrow> bool" where
  "pure_node e \<longleftrightarrow> pure_eval (evalInt e) \<and> pure_eval (evalReal e) \<and> pure_eval (evalStr e) \<and>
     pure_eval (evalCastToStr e) \<and> const_fun (unitFactor e)"

lemma pure_nodeD:
  assumes "pure_node e"
  shows "pure_eval (evalInt e)" "pure_eval (evalReal e)" "pure_eval (evalStr e)"
    "pure_eval (evalCastToStr e)" "const_fun (unitFactor e)"
    "pure_eval (asInt_evalInt e)" "pure_eval (asReal_evalReal e)" "const_fun (asNumber_unitFactor e)"
  using assms unfolding pure_node_def asInt_evalInt_def [abs_def] asReal_evalReal_def [abs_def]
    asNumber_unitFactor_def [abs_def] by (simp_all add: pure_if pure_None const_fun_if const_fun_intros(1))

text \<open>Expressions whose constants are values of the syntax tree: no array, and no variable that is
  constant but lives in memory.\<close>

fun no_memory_constant :: "expr \<Rightarrow> bool" where
  "no_memory_constant (IntVariable d) = (\<not> vd_isConst d)"
| "no_memory_constant (RealVariable d) = (\<not> vd_isConst d)"
| "no_memory_constant (IntArrayVariable a c) = False"
| "no_memory_constant (RealArrayVariable a c) = False"
| "no_memory_constant (IntArrayElement n a i) = False"
| "no_memory_constant (RealArrayElement n a i) = False"
| "no_memory_constant (Add l r) = (no_memory_constant l \<and> no_memory_constant r)"
| "no_memory_constant (Sub l r) = (no_memory_constant l \<and> no_memory_constant r)"
| "no_memory_constant (Mul l r) = (no_memory_constant l \<and> no_memory_constant r)"
| "no_memory_constant (Div l r) = (no_memory_constant l \<and> no_memory_constant r)"
| "no_memory_constant (Mod l r) = (no_memory_constant l \<and> no_memory_constant r)"
| "no_memory_constant (Neg e) = no_memory_constant e"
| "no_memory_constant (ConcatString l r) = (no_memory_constant l \<and> no_memory_constant r)"
| "no_memory_constant (Relation l t r) = (no_memory_constant l \<and> no_memory_constant r)"
| "no_memory_constant (Or l r) = (no_memory_constant l \<and> no_memory_constant r)"
| "no_memory_constant (BitwiseOr l r) = (no_memory_constant l \<and> no_memory_constant r)"
| "no_memory_constant (And l r) = (no_memory_constant l \<and> no_memory_constant r)"
| "no_memory_constant (BitwiseAnd l r) = (no_memory_constant l \<and> no_memory_constant r)"
| "no_memory_constant (Not e) = no_memory_constant e"
| "no_memory_constant (BitwiseNot e) = no_memory_constant e"
| "no_memory_constant (Final e) = no_memory_constant e"
| "no_memory_constant _ = True"

lemmas node_defs = Add_node_def Sub_node_def Mul_node_def Div_node_def Mod_node_def Neg_node_def
  ConcatString_node_def Relation_node_def Or_node_def And_node_def BitwiseOr_node_def BitwiseAnd_node_def
  Not_node_def BitwiseNot_node_def Final_node_def VaritypeScalarBinaryOp_node_def IntBinaryOp_node_def
  BinaryOp_node_def IntExpr_node_def RealExpr_node_def StringExpr_node_def base_node_def Let_def

lemmas eval_defs = Add_evalInt_def Add_evalReal_def Add_unitFactor_def Sub_evalInt_def Sub_evalReal_def
  Sub_unitFactor_def Mul_evalInt_def Mul_evalReal_def Mul_unitFactor_def Div_evalInt_def Div_evalReal_def
  Div_unitFactor_def Mod_evalInt_def Neg_evalInt_def Neg_evalReal_def Final_evalCastToStr_def
  ConcatString_evalStr_def Or_evalInt_def And_evalInt_def BitwiseOr_evalInt_def BitwiseAnd_evalInt_def
  Not_evalInt_def BitwiseNot_evalInt_def Relation_evalInt_def Relation_strings_def
  VaritypeScalarBinaryOp_evalCastToStr_def IntExpr_evalCastToStr_def RealExpr_evalCastToStr_def

lemma pure_int_text: "pure_eval evi \<Longrightarrow> const_fun uf \<Longrightarrow> pure_eval (IntExpr_evalCastToStr L evi uf ut)"
  unfolding eval_defs [abs_def] by (intro pure_intros)

lemma pure_real_text: "pure_eval evr \<Longrightarrow> const_fun uf \<Longrightarrow> pure_eval (RealExpr_evalCastToStr L evr uf ut)"
  unfolding eval_defs [abs_def] by (intro pure_intros)

lemma pure_number_text:
  "pure_eval evi \<Longrightarrow> pure_eval evr \<Longrightarrow> const_fun uf \<Longrightarrow>
    pure_eval (VaritypeScalarBinaryOp_evalCastToStr L ty evi evr uf ut)"
  using pure_int_text pure_real_text
  by (cases "ty = REAL_EXPR") (auto simp: VaritypeScalarBinaryOp_evalCastToStr_def [abs_def])

lemmas pure_text = pure_int_text pure_real_text pure_number_text

lemma pure_binary:
  assumes "pure_node l" and "pure_node r"
  shows "pure_eval (Add_evalInt l r)" "pure_eval (Add_evalReal l r)" "const_fun (Add_unitFactor l r)"
    "pure_eval (Sub_evalInt l r)" "pure_eval (Sub_evalReal l r)" "const_fun (Sub_unitFactor l r)"
    "pure_eval (Mul_evalInt l r)" "pure_eval (Mul_evalReal l r)" "const_fun (Mul_unitFactor l r)"
    "pure_eval (Div_evalInt l r)" "pure_eval (Div_evalReal l r)" "const_fun (Div_unitFactor l r)"
    "pure_eval (Mod_evalInt l r)" "pure_eval (ConcatString_evalStr l r)" "pure_eval (Or_evalInt l r)"
    "pure_eval (And_evalInt l r)" "pure_eval (BitwiseOr_evalInt l r)" "pure_eval (BitwiseAnd_evalInt l r)"
    "pure_eval (Relation_evalInt ty l r)"
  unfolding eval_defs [abs_def] Let_def
  by (intro pure_intros pure_nodeD [OF assms(1)] pure_nodeD [OF assms(2)])+

lemma pure_unary:
  assumes "pure_node e"
  shows "pure_eval (Neg_evalInt e)" "pure_eval (Neg_evalReal e)" "pure_eval (Not_evalInt e)"
    "pure_eval (BitwiseNot_evalInt e)" "pure_eval (Final_evalCastToStr L e)"
  unfolding eval_defs [abs_def] Let_def by (intro pure_intros pure_nodeD [OF assms])+

lemma pure_operator:
  assumes "pure_node l" and "pure_node r"
  shows "pure_node (Add_node L l r)" "pure_node (Sub_node L l r)" "pure_node (Mul_node L l r)"
    "pure_node (Div_node L l r)" "pure_node (Mod_node L l r)" "pure_node (ConcatString_node l r)"
    "pure_node (Relation_node L l ty r)" "pure_node (Or_node L l r)" "pure_node (And_node L l r)"
    "pure_node (BitwiseOr_node L l r)" "pure_node (BitwiseAnd_node L l r)"
    "pure_node (Neg_node l)" "pure_node (Not_node L l)" "pure_node (BitwiseNot_node L l)"
    "pure_node (Final_node L l)"
  by (simp_all add: pure_node_def node_defs pure_binary [OF assms] pure_unary [OF assms(1)] pure_text
      pure_nodeD [OF assms(1)] pure_None pure_intros)

lemma operator_const:
  "isConstExpr (Add_node L l r) = (isConstExpr l \<and> isConstExpr r)"
  "isConstExpr (Sub_node L l r) = (isConstExpr l \<and> isConstExpr r)"
  "isConstExpr (Mul_node L l r) = (isConstExpr l \<and> isConstExpr r)"
  "isConstExpr (Div_node L l r) = (isConstExpr l \<and> isConstExpr r)"
  "isConstExpr (Mod_node L l r) = (isConstExpr l \<and> isConstExpr r)"
  "isConstExpr (ConcatString_node l r) = (isConstExpr l \<and> isConstExpr r)"
  "isConstExpr (Relation_node L l ty r) = (isConstExpr l \<and> isConstExpr r)"
  "isConstExpr (Or_node L l r) = (isConstExpr l \<and> isConstExpr r)"
  "isConstExpr (And_node L l r) = (isConstExpr l \<and> isConstExpr r)"
  "isConstExpr (BitwiseOr_node L l r) = (isConstExpr l \<and> isConstExpr r)"
  "isConstExpr (BitwiseAnd_node L l r) = (isConstExpr l \<and> isConstExpr r)"
  "isConstExpr (Neg_node l) = isConstExpr l" "isConstExpr (Not_node L l) = isConstExpr l"
  "isConstExpr (BitwiseNot_node L l) = isConstExpr l" "isConstExpr (Final_node L l) = isConstExpr l"
  by (simp_all add: node_defs)

lemma pure_literal:
  "pure_node (IntLiteral_node L v f u b)" "pure_node (RealLiteral_node L x f u b)"
  "pure_node (StringLiteral_node t)" "pure_node (ConstIntVariable_node L v f u b)"
  "pure_node (ConstRealVariable_node L x f u b)" "pure_node (ConstStringVariable_node t)"
  by (simp_all add: pure_node_def node_defs IntLiteral_node_def RealLiteral_node_def
      StringLiteral_node_def ConstIntVariable_node_def ConstRealVariable_node_def
      ConstStringVariable_node_def pure_text pure_intros)

lemma memory_const:
  "isConstExpr (FunctionCall_node L n fn as) = False" "isConstExpr (DynamicVariableCall_node v) = False"
  "isConstExpr (BuiltInIntVariable_node L p) = False" "isConstExpr (StringVariable_node k) = False"
  "isConstExpr (BuiltInIntArrayVariable_node L a c) = False"
  "isConstExpr (IntVariable_node L d) = vd_isConst d" "isConstExpr (RealVariable_node L d) = vd_isConst d"
  by (simp_all add: FunctionCall_node_def DynamicVariableCall_node_def BuiltInIntVariable_node_def
      StringVariable_node_def BuiltInIntArrayVariable_node_def IntVariable_node_def RealVariable_node_def
      base_node_def)

text \<open>C35: An expression that the parser folds at parse time because it is constant can be folded: when
  its constants are values of the syntax tree, evaluating it as an integer does not change the state, and
  the result is the same in all states.\<close>

theorem constant_expression_pure:
  assumes "isConstExpr (denote L e)" and "no_memory_constant e"
  shows "\<exists>r. \<forall>s. eval_int L e s = map_option (\<lambda>v. (v, s)) r"
proof -
  have "pure_node (denote L e)"
    using assms by (induction e) (simp_all add: operator_const pure_operator pure_literal memory_const)
  from pure_nodeD(6) [OF this] show ?thesis
    by (simp add: eval_int_def [abs_def] pure_eval_def)
qed

text \<open>An element of a constant array counts as constant whatever its index is: \<open>%a[$x]\<close> is a constant
  expression and has another value when \<open>$x\<close> changes.\<close>

definition const_element :: expr where
  "const_element = IntArrayElement 0 (IntArrayVariable 0 True) (global_int 0)"

lemma constant_element_varies:
  "isConstExpr (denote L const_element) \<and>
    map_option fst (eval_int L const_element (example_vm\<lparr>globalIntMemory := [0]\<rparr>)) = Some 3 \<and>
    map_option fst (eval_int L const_element (example_vm\<lparr>globalIntMemory := [1]\<rparr>)) = Some 1"
proof -
  let ?s = "\<lambda>k :: vmint. example_vm\<lparr>globalIntMemory := [k]\<rparr>"
  have v: "IntArray_valid 0 (?s k)" for k
    by (simp add: IntArray_valid_def example_vm_def array_object_ok_def)
  have i: "IntVariable_evalInt \<lparr>vd_isPolyphonic = False, vd_isConst = False, vd_memPos = 0,
     vd_unitFactorMemPos = 0, vd_unitType = VM_NO_UNIT, vd_isFinal = False\<rparr> (?s k) = Some (k, ?s k)" for k
    by (simp add: IntVariable_evalInt_def)
  have c: "isConstExpr (denote L const_element)"
    by (simp add: const_element_def IntArrayElement_node_def IntArrayVariable_node_def IntArrayExpr_node_def
        base_node_def Let_def)
  show ?thesis
    using c int_element.eval_element [OF _ _ v, of "denote L (global_int 0)" "?s 0" 0 0 0]
      int_element.eval_element [OF _ _ v, of "denote L (global_int 0)" "?s 1" 1 1 0]
    by (simp add: const_element_def eval_int_def asInt_evalInt_def i) (simp add: example_vm_def)
qed

section \<open>Functions on operators\<close>

lemma neg_node_simps [simp]:
  "isStringExpr (Neg_node e) = False" "isRealExpr (Neg_node e)" "isIntExpr (Neg_node e)"
  "evalReal (Neg_node e) = Neg_evalReal e" "evalCastToStr (Neg_node e) = evalCastToStr e"
  by (simp_all add: node_defs)

text \<open>The text of a negated expression is the text of the expression, without its minus sign.\<close>

lemma text_of_negation:
  "eval_text L (Neg e) = eval_text L e"
  by (simp add: eval_text_def [abs_def] fun_eq_iff)

text \<open>\<open>message(-n)\<close> with an integer dereferences a null pointer: \<open>Neg\<close> derives from \<open>RealExpr\<close>, and
  the real value of an integer operand does not exist. In no state does the call return.\<close>

theorem message_of_negative_traps:
  "LeafStatement_exec L (CallStatement (FunctionCall n nm [Neg (IntLiteral v f u b)] (Some Fn_message))) s = None"
  by (simp add: FunctionCall_exec_def FunctionCall_execVMFn_def Let_def CoreVMFunction_message_def
      CoreVMFunction_message_exec_def Neg_evalReal_def asReal_evalReal_def IntLiteral_node_def node_defs
      VMEmptyResultFunction_def)

text \<open>\<open>inc(%a[inc($x)])\<close> evaluates the index twice: it increments \<open>$x\<close> by two, reads one
  element and writes its successor to the next one.\<close>

definition inc_element :: expr where
  "inc_element = FunctionCall 0 ''inc'' [IntArrayElement 0 (IntArrayVariable 0 False)
     (FunctionCall 1 ''inc'' [global_int 0] (Some Fn_inc))] (Some Fn_inc)"

lemma inc_evaluates_index_twice:
  "map_option (\<lambda>(v, t). (v, globalIntMemory t, ao_values (intArrays t ! 0)))
     (eval_int example_clib inc_element ((result_vm new_VMIntResult)\<lparr>globalIntMemory := [0]\<rparr>)) =
   Some (2, [2], [3, 1, 2])"
  by code_simp

section \<open>min, max\<close>

lemma flt_float_of_int:
  assumes "\<bar>i\<bar> \<le> 2 ^ 24" and "\<bar>j\<bar> \<le> 2 ^ 24"
  shows "flt (float_of_int i) (float_of_int j) = (i < j)"
  using assms by (simp add: float_of_int_exact flt_def)

lemma float_of_int_times_one:
  assumes "\<bar>i\<bar> \<le> 2 ^ 24"
  shows "float_of_int i * VM_NO_FACTOR = float_of_int i"
proof -
  have "VM_NO_FACTOR = 1" by (rule VM_NO_FACTOR_eq_one)
  moreover have "wf_float (float_of_int i)"
    using assms representable_int [OF assms] by (simp add: float_of_int_exact wf_float_def)
  ultimately show ?thesis using fmul_one by simp
qed

lemma call_number_int:
  assumes r: "fnResult s n = Some r" "is_VMIntResult r" "fn_class f r"
    and ex: "fn_exec (coreFunction L f) args (bind_slot f n s) = put_int f fl v uf t"
    and t: "boundResult t f = Some n" "fnResult t = fnResult s"
  shows "\<exists>u. FunctionCall_evalInt L n (Some f) args s = Some (v, u)"
proof -
  have "fn_exec (coreFunction L f) args (bind_slot f n s) =
      Some (n, t\<lparr>fnResult := (fnResult t)(n \<mapsto> VMIntResult fl v uf VM_NO_UNIT)\<rparr>)"
    using put_int_slot [OF t(1), of r] r t(2) ex by simp
  moreover have "result_slot f n s" using r by (simp add: result_slot_def)
  ultimately show ?thesis
    using call_exec [of f n s L args] by (fastforce simp: FunctionCall_evalInt_def)
qed

text \<open>\<open>min()\<close> and \<open>max()\<close> of integers without a unit are the minimum and maximum when both have at
  most 24 bits. (They compare their operands as \<open>float\<close>, so that \<open>min(16777216, 16777217)\<close> is 16777217.)\<close>

theorem min_max_exact:
  assumes "fnResult s n = Some (VMIntResult fl x g u)"
    and "\<bar>sint a\<bar> \<le> 2 ^ 24" and "\<bar>sint b\<bar> \<le> 2 ^ 24"
  shows "map_option fst (eval_int L (FunctionCall n nm [IntLiteral a VM_NO_FACTOR VM_NO_UNIT p,
      IntLiteral b VM_NO_FACTOR VM_NO_UNIT q] (Some Fn_min)) s) = Some (if sint a < sint b then a else b) \<and>
    map_option fst (eval_int L (FunctionCall n nm [IntLiteral a VM_NO_FACTOR VM_NO_UNIT p,
      IntLiteral b VM_NO_FACTOR VM_NO_UNIT q] (Some Fn_max)) s) = Some (if sint b < sint a then a else b)"
proof -
  let ?args = "[IntLiteral_node L a VM_NO_FACTOR VM_NO_UNIT p, IntLiteral_node L b VM_NO_FACTOR VM_NO_UNIT q]"
  have fl: "flt (float_of_vmint v * VM_NO_FACTOR) (float_of_vmint w * VM_NO_FACTOR) = (sint v < sint w)"
    if "\<bar>sint v\<bar> \<le> 2 ^ 24" "\<bar>sint w\<bar> \<le> 2 ^ 24" for v w
    using that by (simp only: float_of_vmint_def float_of_int_times_one flt_float_of_int)
  note exec = minmax_exec_def arg_asNumber_def isNumberExpr_def asInt_evalInt_def
    VMNumberResultFunction_successIntResult_def
  have "\<exists>t. FunctionCall_evalInt L n (Some Fn_min) ?args s = Some (if sint a < sint b then a else b, t)"
    using fl assms(2,3)
    by (intro call_number_int [OF assms(1), where t = "bind_slot Fn_min n s"])
      (simp_all add: CoreVMFunction_min_def CoreVMFunction_min_exec_def exec)
  moreover have "\<exists>t. FunctionCall_evalInt L n (Some Fn_max) ?args s = Some (if sint b < sint a then a else b, t)"
    using fl assms(2,3)
    by (intro call_number_int [OF assms(1), where t = "bind_slot Fn_max n s"])
      (simp_all add: CoreVMFunction_max_def CoreVMFunction_max_exec_def exec)
  ultimately show ?thesis
    by (fastforce simp: eval_int_def asInt_evalInt_def FunctionCall_node_def)
qed

lemma min_large_integers:
  "map_option fst (eval_int example_clib (FunctionCall 0 ''min'' [lit 16777216, lit 16777217]
     (Some Fn_min)) (result_vm new_VMIntResult)) = Some 16777217"
  by code_simp

lemma random_large_integers:
  "map_option fst (eval_int example_clib (FunctionCall 0 ''random'' [lit 16777217, lit 16777217]
     (Some Fn_random)) (result_vm new_VMIntResult)) = Some 16777216"
  by code_simp

section \<open>Concrete inputs\<close>

abbreviation global_decl :: VariableDecl where
  "global_decl \<equiv> \<lparr>vd_isPolyphonic = False, vd_isConst = False, vd_memPos = 0,
     vd_unitFactorMemPos = 0, vd_unitType = VM_NO_UNIT, vd_isFinal = False\<rparr>"

lemma global_decl_slots [simp]:
  "int_slot global_decl (result_vm r)" "factor_slot global_decl (result_vm r)"
  "IntVariable_evalInt global_decl (result_vm r) = Some (7, result_vm r)"
  "NumberVariable_unitFactor global_decl (result_vm r) = Some (Fin 1)"
  by (simp_all add: int_slot_def factor_slot_def result_vm_def example_vm_def IntVariable_evalInt_def
      NumberVariable_unitFactor_def)


theorem inc_variable_witness:
  "\<exists>t. eval_int example_clib (FunctionCall 0 ''inc'' [global_int 0] (Some Fn_inc))
      (result_vm new_VMIntResult) = Some (8, t) \<and>
    eval_int example_clib (global_int 0) t = Some (8, t)"
  using inc_variable [of 0 "result_vm new_VMIntResult" global_decl example_clib 7 "''inc''"]
  by auto

theorem assign_builtin_variable_witness:
  "\<exists>t. LeafStatement_exec example_clib (Assignment (Some (BuiltInIntVariable ''CC''
      (VMInt8RelPtr \<lparr>rp_base = 0, rp_offset = 2, rp_readonly = False\<rparr>))) (lit 300)) example_vm =
      Some (STMT_SUCCESS, t) \<and> objectBytes t 0 ! 3 = 4 \<and>
    eval_int example_clib (BuiltInIntVariable ''CC''
      (VMInt8RelPtr \<lparr>rp_base = 0, rp_offset = 2, rp_readonly = False\<rparr>)) t = Some (44, t)"
proof -
  let ?p = "VMInt8RelPtr \<lparr>rp_base = 0, rp_offset = 2, rp_readonly = False\<rparr>"
  have ok: "VMIntPtr_ok ?p example_vm" by (simp add: VMIntPtr_ok_def example_vm_def)
  have "objectBytes example_vm 0 ! 3 = 4" "take_bit 8 (300 :: vmint) = 44"
    by (simp_all add: example_vm_def)
  then show ?thesis
    using assign_builtin_variable [OF ok, of example_clib "''CC''" 300 "Fin 1" VM_NO_UNIT False] by auto
qed

theorem and_or_short_circuit_witness:
  "eval_int example_clib (And (lit 0) (Mod (lit 1) (lit 0))) example_vm = Some (0, example_vm)"
  using and_or_short_circuit [of example_clib "lit 0" example_vm 0 example_vm "Mod (lit 1) (lit 0)"] by simp

theorem div_mod_truncate_witness:
  "\<exists>q m. eval_int example_clib (Div (lit (- 7)) (lit 2)) example_vm = Some (q, example_vm) \<and>
    eval_int example_clib (Mod (lit (- 7)) (lit 2)) example_vm = Some (m, example_vm) \<and>
    - 7 = sint q * 2 + sint m"
  using div_mod_truncate [of example_clib "lit (- 7)" example_vm "- 7" example_vm "lit 2" 2 example_vm]
  by auto

theorem div_mod_by_zero_witness:
  "eval_int example_clib (Mod (lit 5) (lit 0)) example_vm = None"
  using div_mod_by_zero [of example_clib "lit 5" example_vm 5 example_vm "lit 0" example_vm] by simp

theorem assign_int_element_witness:
  "\<exists>t. LeafStatement_exec example_clib (Assignment (Some (IntArrayElement 0 (IntArrayVariable 0 False) (lit 1)))
      (lit 9)) (result_vm new_VMIntResult) = Some (STMT_SUCCESS, t) \<and>
    int_array_elem 0 t 2 = 2 \<and> int_array_len 0 t = 3"
proof -
  have "int_array_elem 0 (result_vm new_VMIntResult) 2 = 2" by simp
  then show ?thesis
    using assign_int_element [of 0 "result_vm new_VMIntResult" example_clib "lit 1"
        "result_vm new_VMIntResult" 1 0 False 9 "Fin 1" VM_NO_UNIT False 0 "Fin 1" VM_NO_UNIT False]
    by auto
qed

theorem element_out_of_range_witness:
  "\<exists>t. eval_int example_clib (Add (IntLiteral 5 VM_NO_FACTOR VM_NO_UNIT False)
      (IntArrayElement 0 (IntArrayVariable 0 False) (lit 100))) (result_vm new_VMIntResult) =
      Some (- (2 ^ 63), t)"
  using element_out_of_range [of 0 "result_vm new_VMIntResult" example_clib "lit 100"
      "result_vm new_VMIntResult" 100 0 False 5 "Fin 1" VM_NO_UNIT False 5]
  by auto

theorem relation_negation_witness:
  "eval_int example_clib (Not (Relation (lit 1) LESS_THAN (lit 2))) =
   eval_int example_clib (Relation (lit 1) GREATER_OR_EQUAL (lit 2))"
  using relation_negation [of example_clib "lit 1" "lit 2"] by simp

theorem constant_expression_pure_witness:
  "\<exists>r. \<forall>s. eval_int example_clib (Add (lit 1) (Mul (lit 2) (lit 3))) s = map_option (\<lambda>v. (v, s)) r"
  using constant_expression_pure [of example_clib "Add (lit 1) (Mul (lit 2) (lit 3))"]
  by (simp add: operator_const) (simp add: IntLiteral_node_def)

theorem min_max_exact_witness:
  "map_option fst (eval_int example_clib (FunctionCall 0 ''max''
      [IntLiteral 5 VM_NO_FACTOR VM_NO_UNIT False, IntLiteral 3 VM_NO_FACTOR VM_NO_UNIT False]
      (Some Fn_max)) (result_vm new_VMIntResult)) = Some 5"
  using min_max_exact [of "result_vm new_VMIntResult" 0 0 0 VM_NO_FACTOR VM_NO_UNIT 5 3 example_clib
      "''max''" False False]
  by (simp add: result_vm_def new_VMIntResult_def)

end
