(* ===== verification/ParserCtx.thy ===== *)
theory ParserCtx
  imports ScriptVM
begin

text \<open>
  The parser context (\<open>ParserContext\<close> of \<open>tree.h\<close> / \<open>tree.cpp\<close>): what the parser's semantic actions call
  to record issues, preprocessor conditions and variables, the constructors of the variable classes,
  which reserve memory slots in the context, and what \<open>ScriptVM.cpp\<close> does with a context: registering
  built-in symbols, substituting patch variables, loading a script, allocating memory for it.

  The parser itself (\<open>InstrScript_parse\<close>, generated from \<open>parser.y\<close> and \<open>scanner.l\<close>) is the parameter
  \<open>parse\<close>. A \<open>std::map\<close> that is only searched is a map; one that is iterated over is the list of its
  entries in the order of their keys.
\<close>

section \<open>The context\<close>

datatype ParserIssueType_t = PARSER_ERROR | PARSER_WARNING

record CodeBlock =
  firstLine :: int
  lastLine :: int
  firstColumn :: int
  lastColumn :: int
  firstByte :: int
  lengthBytes :: int

record ParserIssue = CodeBlock +
  issue_txt :: string
  issue_type :: ParserIssueType_t

record PatchVarBlock =
  nameBlock :: CodeBlock
  exprBlock :: "CodeBlock option"

record ParserContext =
  vErrors :: "ParserIssue list"
  vWarnings :: "ParserIssue list"
  vIssues :: "ParserIssue list"
  vPreprocessorComments :: "CodeBlock list"
  patchVars :: "(string \<times> PatchVarBlock) list"
  builtinPreprocessorConditions :: "string set"
  userPreprocessorConditions :: "string set"
  vartable :: "string \<rightharpoonup> expr"
  userFnTable :: "string \<rightharpoonup> stmt list"
  globalIntVarCount :: nat
  globalRealVarCount :: nat
  globalStrVarCount :: nat
  globalUnitFactorCount :: nat
  polyphonicIntVarCount :: nat
  polyphonicRealVarCount :: nat
  polyphonicUnitFactorCount :: nat
  handlers :: "(VMEventHandlerType_t \<times> stmt list) list option"
  requiredMaxStackSize :: "int"

definition new_ParserContext :: ParserContext where
  "new_ParserContext = \<lparr>vErrors = [], vWarnings = [], vIssues = [], vPreprocessorComments = [],
     patchVars = [], builtinPreprocessorConditions = {}, userPreprocessorConditions = {},
     vartable = Map.empty, userFnTable = Map.empty, globalIntVarCount = 0, globalRealVarCount = 0,
     globalStrVarCount = 0, globalUnitFactorCount = 0, polyphonicIntVarCount = 0,
     polyphonicRealVarCount = 0, polyphonicUnitFactorCount = 0, handlers = None,
     requiredMaxStackSize = - 1\<rparr>"

section \<open>Issues\<close>

definition addErr :: "CodeBlock \<Rightarrow> string \<Rightarrow> ParserContext \<Rightarrow> ParserContext" where
  "addErr b txt c = (let e = CodeBlock.extend b (ParserIssue.fields txt PARSER_ERROR) in
     c\<lparr>vErrors := vErrors c @ [e], vIssues := vIssues c @ [e]\<rparr>)"

definition addWrn :: "CodeBlock \<Rightarrow> string \<Rightarrow> ParserContext \<Rightarrow> ParserContext" where
  "addWrn b txt c = (let w = CodeBlock.extend b (ParserIssue.fields txt PARSER_WARNING) in
     c\<lparr>vWarnings := vWarnings c @ [w], vIssues := vIssues c @ [w]\<rparr>)"

definition addPreprocessorComment :: "CodeBlock \<Rightarrow> ParserContext \<Rightarrow> ParserContext" where
  "addPreprocessorComment b c = c\<lparr>vPreprocessorComments := vPreprocessorComments c @ [b]\<rparr>"

section \<open>Preprocessor conditions\<close>

definition setPreprocessorCondition :: "string \<Rightarrow> ParserContext \<Rightarrow> bool \<times> ParserContext" where
  "setPreprocessorCondition name c =
     (if name \<in> builtinPreprocessorConditions c then (False, c)
      else if name \<in> userPreprocessorConditions c then (False, c)
      else (True, c\<lparr>userPreprocessorConditions := insert name (userPreprocessorConditions c)\<rparr>))"

definition resetPreprocessorCondition :: "string \<Rightarrow> ParserContext \<Rightarrow> bool \<times> ParserContext" where
  "resetPreprocessorCondition name c =
     (if name \<in> builtinPreprocessorConditions c then (False, c)
      else if name \<notin> userPreprocessorConditions c then (False, c)
      else (True, c\<lparr>userPreprocessorConditions := userPreprocessorConditions c - {name}\<rparr>))"

definition isPreprocessorConditionSet :: "string \<Rightarrow> ParserContext \<Rightarrow> bool" where
  "isPreprocessorConditionSet name c =
     (if name \<in> builtinPreprocessorConditions c then True else name \<in> userPreprocessorConditions c)"

section \<open>Symbol tables\<close>

definition userFunctionByName :: "string \<Rightarrow> ParserContext \<Rightarrow> stmt list option" where
  "userFunctionByName name c = userFnTable c name"

definition variableByName :: "string \<Rightarrow> ParserContext \<Rightarrow> expr option" where
  "variableByName name c = vartable c name"

definition globalVar :: "string \<Rightarrow> ParserContext \<Rightarrow> expr option" where
  "globalVar name c = vartable c name"

fun eventHandlerName :: "VMEventHandlerType_t \<Rightarrow> string" where
  "eventHandlerName VM_EVENT_HANDLER_INIT = ''init''"
| "eventHandlerName VM_EVENT_HANDLER_NOTE = ''note''"
| "eventHandlerName VM_EVENT_HANDLER_RELEASE = ''release''"
| "eventHandlerName VM_EVENT_HANDLER_CONTROLLER = ''controller''"
| "eventHandlerName VM_EVENT_HANDLER_RPN = ''rpn''"
| "eventHandlerName VM_EVENT_HANDLER_NRPN = ''nrpn''"

fun EventHandlers_eventHandlerByName ::
    "string \<Rightarrow> (VMEventHandlerType_t \<times> stmt list) list \<Rightarrow> (VMEventHandlerType_t \<times> stmt list) option" where
  "EventHandlers_eventHandlerByName name [] = None"
| "EventHandlers_eventHandlerByName name (h # hs) =
     (if eventHandlerName (fst h) = name then Some h else EventHandlers_eventHandlerByName name hs)"

definition EventHandlers_eventHandler :: "nat \<Rightarrow> 'h list \<Rightarrow> 'h option" where
  "EventHandlers_eventHandler index args = (if length args \<le> index then None else nth_opt args index)"

definition eventHandler :: "nat \<Rightarrow> ParserContext \<Rightarrow> (VMEventHandlerType_t \<times> stmt list) option" where
  "eventHandler index c = (case handlers c of None \<Rightarrow> None
     | Some hs \<Rightarrow> EventHandlers_eventHandler index hs)"

definition eventHandlerByName :: "string \<Rightarrow> ParserContext \<Rightarrow> (VMEventHandlerType_t \<times> stmt list) option" where
  "eventHandlerByName name c = (case handlers c of None \<Rightarrow> None
     | Some hs \<Rightarrow> EventHandlers_eventHandlerByName name hs)"

definition EventHandlers_isPolyphonic :: "clib \<Rightarrow> (VMEventHandlerType_t \<times> stmt list) list \<Rightarrow> bool" where
  "EventHandlers_isPolyphonic L hs = list_ex (\<lambda>(_, stmts). stmt_isPolyphonic L (Statements stmts)) hs"

section \<open>Variables\<close>

text \<open>
  A variable's constructor takes the declaration, without positions, and the number of elements, and
  reserves its slots in the context, which may be the null pointer. \<open>None\<close> is the failed assertion.
\<close>

definition postfixInc :: "nat \<Rightarrow> nat \<Rightarrow> nat \<times> nat" where
  "postfixInc object incBy = (let i = object in (i, object + incBy))"

definition reserve_int :: "bool \<Rightarrow> nat \<Rightarrow> ParserContext \<Rightarrow> nat \<times> ParserContext" where
  "reserve_int poly elements c =
     (if poly then let (i, n) = postfixInc (polyphonicIntVarCount c) elements in (i, c\<lparr>polyphonicIntVarCount := n\<rparr>)
      else let (i, n) = postfixInc (globalIntVarCount c) elements in (i, c\<lparr>globalIntVarCount := n\<rparr>))"

definition reserve_real :: "bool \<Rightarrow> nat \<Rightarrow> ParserContext \<Rightarrow> nat \<times> ParserContext" where
  "reserve_real poly elements c =
     (if poly then let (i, n) = postfixInc (polyphonicRealVarCount c) elements in (i, c\<lparr>polyphonicRealVarCount := n\<rparr>)
      else let (i, n) = postfixInc (globalRealVarCount c) elements in (i, c\<lparr>globalRealVarCount := n\<rparr>))"

definition reserve_factor :: "bool \<Rightarrow> nat \<Rightarrow> ParserContext \<Rightarrow> nat \<times> ParserContext" where
  "reserve_factor poly elements c =
     (if poly then let (i, n) = postfixInc (polyphonicUnitFactorCount c) elements
        in (i, c\<lparr>polyphonicUnitFactorCount := n\<rparr>)
      else let (i, n) = postfixInc (globalUnitFactorCount c) elements
        in (i, c\<lparr>globalUnitFactorCount := n\<rparr>))"

definition IntVariable_new ::
    "VariableDecl \<Rightarrow> nat \<Rightarrow> ParserContext option \<Rightarrow> (VariableDecl \<times> ParserContext option) option" where
  "IntVariable_new decl elements ctx = (case ctx of
     None \<Rightarrow> if vd_isPolyphonic decl then None
       else Some (decl\<lparr>vd_memPos := 0, vd_unitFactorMemPos := 0\<rparr>, None)
   | Some c \<Rightarrow> let (m, c) = reserve_int (vd_isPolyphonic decl) elements c;
                 (u, c) = reserve_factor (vd_isPolyphonic decl) elements c
       in Some (decl\<lparr>vd_memPos := m, vd_unitFactorMemPos := u\<rparr>, Some c))"

definition RealVariable_new ::
    "VariableDecl \<Rightarrow> nat \<Rightarrow> ParserContext option \<Rightarrow> (VariableDecl \<times> ParserContext option) option" where
  "RealVariable_new decl elements ctx = (case ctx of
     None \<Rightarrow> if vd_isPolyphonic decl then None
       else Some (decl\<lparr>vd_memPos := 0, vd_unitFactorMemPos := 0\<rparr>, None)
   | Some c \<Rightarrow> let (m, c) = reserve_real (vd_isPolyphonic decl) elements c;
                 (u, c) = reserve_factor (vd_isPolyphonic decl) elements c
       in Some (decl\<lparr>vd_memPos := m, vd_unitFactorMemPos := u\<rparr>, Some c))"

definition PolyphonicIntVariable_new ::
    "VariableDecl \<Rightarrow> ParserContext option \<Rightarrow> (VariableDecl \<times> ParserContext option) option" where
  "PolyphonicIntVariable_new decl ctx = IntVariable_new (decl\<lparr>vd_isPolyphonic := True\<rparr>) 1 ctx"

definition PolyphonicRealVariable_new ::
    "VariableDecl \<Rightarrow> ParserContext option \<Rightarrow> (VariableDecl \<times> ParserContext option) option" where
  "PolyphonicRealVariable_new decl ctx = RealVariable_new (decl\<lparr>vd_isPolyphonic := True\<rparr>) 1 ctx"

text \<open>A constant number variable reserves slots like any other, which it never uses.\<close>

definition ConstIntVariable_new :: "vmint \<Rightarrow> vmfloat \<Rightarrow> VariableDecl \<Rightarrow> ParserContext option \<Rightarrow>
    (expr \<times> ParserContext option) option" where
  "ConstIntVariable_new val factor decl ctx = do {
     (d, ctx) \<leftarrow> IntVariable_new (decl\<lparr>vd_isPolyphonic := False, vd_isConst := True\<rparr>) 1 ctx;
     Some (ConstIntVariable val factor (vd_unitType d) (vd_isFinal d), ctx) }"

definition ConstRealVariable_new :: "vmfloat \<Rightarrow> vmfloat \<Rightarrow> VariableDecl \<Rightarrow> ParserContext option \<Rightarrow>
    (expr \<times> ParserContext option) option" where
  "ConstRealVariable_new val factor decl ctx = do {
     (d, ctx) \<leftarrow> RealVariable_new (decl\<lparr>vd_isPolyphonic := False, vd_isConst := True\<rparr>) 1 ctx;
     Some (ConstRealVariable val factor (vd_unitType d) (vd_isFinal d), ctx) }"

definition BuiltInIntVariable_new :: "string \<Rightarrow> VMIntPtr \<Rightarrow> expr" where
  "BuiltInIntVariable_new name ptr = BuiltInIntVariable name ptr"

definition StringVariable_new :: "ParserContext \<Rightarrow> expr \<times> ParserContext" where
  "StringVariable_new c =
     (StringVariable (globalStrVarCount c), c\<lparr>globalStrVarCount := globalStrVarCount c + 1\<rparr>)"

definition ConstStringVariable_new :: "string \<Rightarrow> expr" where
  "ConstStringVariable_new val = ConstStringVariable val"

definition IntArrayVariable_new :: "nat \<Rightarrow> vmint ArrayObject" where
  "IntArrayVariable_new sz =
     \<lparr>ao_values = replicate sz 0, ao_unitFactors = replicate sz VM_NO_FACTOR\<rparr>"

definition RealArrayVariable_new :: "nat \<Rightarrow> vmfloat ArrayObject" where
  "RealArrayVariable_new sz =
     \<lparr>ao_values = replicate sz 0, ao_unitFactors = replicate sz VM_NO_FACTOR\<rparr>"

text \<open>
  The constructors with initial values: \<open>memory\<close> and \<open>factors\<close> are what the freshly allocated memory
  happens to contain, since the constructor does not clear it. An argument that is no number of the
  array's type is skipped.
\<close>

fun init_array ::
    "nat \<Rightarrow> (vm \<Rightarrow> (('v \<times> vmfloat) option \<times> vm) option) list \<Rightarrow> 'v ArrayObject \<Rightarrow> vm \<Rightarrow>
     ('v ArrayObject \<times> vm) option" where
  "init_array i [] obj s = Some (obj, s)"
| "init_array i (arg # args) obj s = do {
     (r, s) \<leftarrow> arg s;
     obj \<leftarrow> (case r of None \<Rightarrow> Some obj
       | Some (v, f) \<Rightarrow> do {
           vs \<leftarrow> upd_opt (ao_values obj) i v;
           fs \<leftarrow> upd_opt (ao_unitFactors obj) i f;
           Some \<lparr>ao_values = vs, ao_unitFactors = fs\<rparr> });
     init_array (Suc i) args obj s }"

definition int_init_arg :: "node \<Rightarrow> vm \<Rightarrow> ((vmint \<times> vmfloat) option \<times> vm) option" where
  "int_init_arg e s = (if isIntExpr e
     then do { (v, s) \<leftarrow> evalInt e s; f \<leftarrow> unitFactor e s; Some (Some (v, f), s) } else Some (None, s))"

definition real_init_arg :: "node \<Rightarrow> vm \<Rightarrow> ((vmfloat \<times> vmfloat) option \<times> vm) option" where
  "real_init_arg e s = (if isRealExpr e
     then do { (v, s) \<leftarrow> evalReal e s; f \<leftarrow> unitFactor e s; Some (Some (v, f), s) } else Some (None, s))"

definition IntArrayVariable_init :: "vmint list \<Rightarrow> vmfloat list \<Rightarrow> nat \<Rightarrow> node list \<Rightarrow> vm \<Rightarrow>
    (vmint ArrayObject \<times> vm) option" where
  "IntArrayVariable_init memory factors sz values s =
     init_array 0 (map int_init_arg values)
       \<lparr>ao_values = take sz memory, ao_unitFactors = take sz factors\<rparr> s"

definition RealArrayVariable_init :: "vmfloat list \<Rightarrow> vmfloat list \<Rightarrow> nat \<Rightarrow> node list \<Rightarrow> vm \<Rightarrow>
    (vmfloat ArrayObject \<times> vm) option" where
  "RealArrayVariable_init memory factors sz values s =
     init_array 0 (map real_init_arg values)
       \<lparr>ao_values = take sz memory, ao_unitFactors = take sz factors\<rparr> s"

end
