(* ===== verification/ScriptLoad.thy ===== *)
theory ScriptLoad
  imports ParserCtx
begin

text \<open>
  The part of \<open>ScriptVM.cpp\<close> that prepares a script: the tables of built-in functions, constants and
  variables, substitution of patch variables in the text of a script, loading it with the parser
  (parameter \<open>parse\<close>), and the memory that a parsed script and its execution contexts need.
\<close>

section \<open>Built-in symbols\<close>

definition functionByName :: "string \<Rightarrow> CoreFn option" where
  "functionByName name =
     (if name = ''message'' then Some Fn_message
      else if name = ''exit'' then Some Fn_exit
      else if name = ''wait'' then Some Fn_wait
      else if name = ''abs'' then Some Fn_abs
      else if name = ''random'' then Some Fn_random
      else if name = ''num_elements'' then Some Fn_num_elements
      else if name = ''inc'' then Some Fn_inc
      else if name = ''dec'' then Some Fn_dec
      else if name = ''in_range'' then Some Fn_in_range
      else if name = ''sh_left'' then Some Fn_sh_left
      else if name = ''sh_right'' then Some Fn_sh_right
      else if name = ''msb'' then Some Fn_msb
      else if name = ''lsb'' then Some Fn_lsb
      else if name = ''min'' then Some Fn_min
      else if name = ''max'' then Some Fn_max
      else if name = ''array_equal'' then Some Fn_array_equal
      else if name = ''search'' then Some Fn_search
      else if name = ''sort'' then Some Fn_sort
      else if name = ''int_to_real'' then Some Fn_int_to_real
      else if name = ''real'' then Some Fn_int_to_real
      else if name = ''real_to_int'' then Some Fn_real_to_int
      else if name = ''int'' then Some Fn_real_to_int
      else if name = ''round'' then Some Fn_round
      else if name = ''ceil'' then Some Fn_ceil
      else if name = ''floor'' then Some Fn_floor
      else if name = ''sqrt'' then Some Fn_sqrt
      else if name = ''log'' then Some Fn_log
      else if name = ''log2'' then Some Fn_log2
      else if name = ''log10'' then Some Fn_log10
      else if name = ''exp'' then Some Fn_exp
      else if name = ''pow'' then Some Fn_pow
      else if name = ''sin'' then Some Fn_sin
      else if name = ''cos'' then Some Fn_cos
      else if name = ''tan'' then Some Fn_tan
      else if name = ''asin'' then Some Fn_asin
      else if name = ''acos'' then Some Fn_acos
      else if name = ''atan'' then Some Fn_atan
      else None)"

definition isFunctionDisabled :: "CoreFn \<Rightarrow> ParserContext option \<Rightarrow> bool" where
  "isFunctionDisabled fn ctx = (case ctx of None \<Rightarrow> False
     | Some c \<Rightarrow> fn = Fn_message \<and> ''NKSP_NO_MESSAGE'' \<in> userPreprocessorConditions c)"

text \<open>Each table in the order of its keys.\<close>

definition builtInDynamicVariables :: "(string \<times> CoreDynVar) list" where
  "builtInDynamicVariables = [(''$KSP_TIMER'', NKSP_REAL_TIMER), (''$NKSP_PERF_TIMER'', NKSP_PERF_TIMER),
     (''$NKSP_REAL_TIMER'', NKSP_REAL_TIMER)]"

definition builtInConstIntVariables :: "(string \<times> vmint) list" where
  "builtInConstIntVariables = [(''$NI_CB_TYPE_CONTROLLER'', 3), (''$NI_CB_TYPE_INIT'', 0),
     (''$NI_CB_TYPE_NOTE'', 1), (''$NI_CB_TYPE_NRPN'', 5), (''$NI_CB_TYPE_RELEASE'', 2),
     (''$NI_CB_TYPE_RPN'', 4)]"

text \<open>\<open>M_PI\<close> and \<open>M_E\<close>, rounded to \<open>float\<close>.\<close>

definition builtInConstRealVariables :: "(string \<times> vmfloat) list" where
  "builtInConstRealVariables = [(''~NI_MATH_E'', Fin (2850325 / 1048576)),
     (''~NI_MATH_PI'', Fin (13176795 / 4194304))]"

text \<open>Derived machines override the next two.\<close>

definition builtInIntVariables :: "(string \<times> VMIntPtr) list" where
  "builtInIntVariables = []"

definition builtInIntArrayVariables :: "(string \<times> nat \<times> bool) list" where
  "builtInIntArrayVariables = []"

definition register_vars :: "(string \<times> expr) list \<Rightarrow> ParserContext \<Rightarrow> ParserContext" where
  "register_vars vars c = c\<lparr>vartable := fold (\<lambda>(n, e) m. m(n \<mapsto> e)) vars (vartable c)\<rparr>"

definition registerBuiltInConstIntVariables :: "(string \<times> vmint) list \<Rightarrow> ParserContext \<Rightarrow> ParserContext" where
  "registerBuiltInConstIntVariables vars =
     register_vars (map (\<lambda>(n, v). (n, ConstIntVariable v VM_NO_FACTOR VM_NO_UNIT False)) vars)"

definition registerBuiltInConstRealVariables ::
    "(string \<times> vmfloat) list \<Rightarrow> ParserContext \<Rightarrow> ParserContext" where
  "registerBuiltInConstRealVariables vars =
     register_vars (map (\<lambda>(n, v). (n, ConstRealVariable v VM_NO_FACTOR VM_NO_UNIT False)) vars)"

definition registerBuiltInIntVariables :: "(string \<times> VMIntPtr) list \<Rightarrow> ParserContext \<Rightarrow> ParserContext" where
  "registerBuiltInIntVariables vars =
     register_vars (map (\<lambda>(n, p). (n, BuiltInIntVariable_new n p)) vars)"

definition registerBuiltInIntArrayVariables ::
    "(string \<times> nat \<times> bool) list \<Rightarrow> ParserContext \<Rightarrow> ParserContext" where
  "registerBuiltInIntArrayVariables vars =
     register_vars (map (\<lambda>(n, a, readonly). (n, BuiltInIntArrayVariable n a readonly)) vars)"

definition registerBuiltInDynVariables :: "(string \<times> CoreDynVar) list \<Rightarrow> ParserContext \<Rightarrow> ParserContext" where
  "registerBuiltInDynVariables vars =
     register_vars (map (\<lambda>(n, v). (n, DynamicVariableCall n v)) vars)"

section \<open>Loading\<close>

text \<open>\<open>loadScriptOnePass()\<close>: the symbols it registers before it calls the parser.\<close>

definition registered_context :: "(string \<times> VMIntPtr) list \<Rightarrow> (string \<times> nat \<times> bool) list \<Rightarrow> ParserContext" where
  "registered_context ints arrays =
     registerBuiltInDynVariables builtInDynamicVariables
      (registerBuiltInIntArrayVariables arrays
       (registerBuiltInIntVariables ints
        (registerBuiltInConstRealVariables builtInConstRealVariables
         (registerBuiltInConstIntVariables builtInConstIntVariables new_ParserContext))))"

text \<open>The global memory it allocates afterwards. A new \<open>String\<close> is empty.\<close>

definition allocate_globals :: "ParserContext \<Rightarrow> vm \<Rightarrow> vm" where
  "allocate_globals c s = s
     \<lparr>globalIntMemory := replicate (globalIntVarCount c) 0,
      globalRealMemory := replicate (globalRealVarCount c) 0,
      globalUnitFactorMemory := replicate (globalUnitFactorCount c) VM_NO_FACTOR,
      globalStrMemory := replicate (globalStrVarCount c) ''''\<rparr>"

text \<open>The global memory belongs to the new context; here it is part of the virtual machine's state.\<close>

definition loadScriptOnePass :: "(ParserContext \<Rightarrow> string \<Rightarrow> ParserContext) \<Rightarrow>
    (string \<times> VMIntPtr) list \<Rightarrow> (string \<times> nat \<times> bool) list \<Rightarrow> string \<Rightarrow> vm \<Rightarrow> ParserContext \<times> vm" where
  "loadScriptOnePass parse ints arrays s v =
     (let context = parse (registered_context ints arrays) s in (context, allocate_globals context v))"

text \<open>
  \<open>createExecContext()\<close>: the stack size is computed once and kept in the context. A context without
  handlers, which the parser leaves after a syntax error, makes it dereference a null pointer.
\<close>

definition handler_bodies :: "(VMEventHandlerType_t \<times> stmt list) list \<Rightarrow> stmt list list" where
  "handler_bodies hs = map snd hs"

definition cache_stack_size :: "ParserContext \<Rightarrow> ParserContext option" where
  "cache_stack_size c = (if requiredMaxStackSize c < 0
     then do {
       hs \<leftarrow> handlers c;
       Some (c\<lparr>requiredMaxStackSize := int (requiredMaxStackSizeForHandlers (handler_bodies hs))\<rparr>) }
     else Some c)"

definition ScriptVM_createExecContext :: "ParserContext \<Rightarrow> (ExecContext \<times> ParserContext) option" where
  "ScriptVM_createExecContext c = do {
     c \<leftarrow> cache_stack_size c;
     Some (new_ExecContext
        \<lparr>stack := replicate (nat (requiredMaxStackSize c)) empty_frame,
         polyphonicIntMemory := replicate (polyphonicIntVarCount c) 0,
         polyphonicRealMemory := replicate (polyphonicRealVarCount c) 0,
         polyphonicUnitFactorMemory := replicate (polyphonicUnitFactorCount c) VM_NO_FACTOR\<rparr>, c) }"

section \<open>Patch variables\<close>

text \<open>
  \<open>std::string::substr\<close> and \<open>replace\<close> throw when the position is beyond the end, and shorten a length
  that is too large. A negative position is a large unsigned one.
\<close>

definition str_substr :: "string \<Rightarrow> int \<Rightarrow> int \<Rightarrow> string option" where
  "str_substr s pos len = (if pos < 0 \<or> int (length s) < pos then None
     else Some (let rest = drop (nat pos) s in if len < 0 then rest else take (nat len) rest))"

definition str_replace :: "string \<Rightarrow> int \<Rightarrow> int \<Rightarrow> string \<Rightarrow> string option" where
  "str_replace s pos len v = (if pos < 0 \<or> int (length s) < pos then None
     else Some (take (nat pos) s @ v @ (if len < 0 then [] else drop (nat pos + nat len) s)))"

definition patch_pos :: "PatchVarBlock \<Rightarrow> int" where
  "patch_pos block = (case exprBlock block of Some e \<Rightarrow> firstByte e
     | None \<Rightarrow> firstByte (nameBlock block) + lengthBytes (nameBlock block))"

definition patch_length :: "PatchVarBlock \<Rightarrow> int" where
  "patch_length block = (case exprBlock block of Some e \<Rightarrow> lengthBytes e | None \<Rightarrow> 0)"

definition patch_default :: "string \<Rightarrow> PatchVarBlock \<Rightarrow> string option" where
  "patch_default s block = (case exprBlock block of
     Some e \<Rightarrow> str_substr s (patch_pos block) (lengthBytes e) | None \<Rightarrow> Some '''')"

text \<open>\<open>varsByPos[pos] = var\<close> in a map ordered by position.\<close>

fun map_put :: "int \<Rightarrow> 'a \<Rightarrow> (int \<times> 'a) list \<Rightarrow> (int \<times> 'a) list" where
  "map_put k v [] = [(k, v)]"
| "map_put k v ((k', v') # m) =
     (if k < k' then (k, v) # (k', v') # m else if k = k' then (k, v) # m else (k', v') # map_put k v m)"

definition vars_by_pos :: "(string \<times> PatchVarBlock) list \<Rightarrow> (int \<times> string \<times> PatchVarBlock) list" where
  "vars_by_pos vars = fold (\<lambda>(n, b). map_put (patch_pos b) (n, b)) vars []"

fun collect_patch_vars :: "string \<Rightarrow> (string \<times> PatchVarBlock) list \<Rightarrow>
    (int \<times> string \<times> PatchVarBlock) list \<Rightarrow> (string \<rightharpoonup> string) \<Rightarrow>
    ((int \<times> string \<times> PatchVarBlock) list \<times> (string \<rightharpoonup> string)) option" where
  "collect_patch_vars s [] m defs = Some (m, defs)"
| "collect_patch_vars s ((name, block) # vars) m defs = do {
     d \<leftarrow> patch_default s block;
     collect_patch_vars s vars (map_put (patch_pos block) (name, block) m) (defs(name \<mapsto> d)) }"

definition patch_value :: "string \<Rightarrow> PatchVarBlock \<Rightarrow> string" where
  "patch_value v block = (if patch_length block = 0 then '' := '' else '''') @ v"

fun substitute :: "(string \<rightharpoonup> string) \<Rightarrow> (int \<times> string \<times> PatchVarBlock) list \<Rightarrow> string \<Rightarrow> string option" where
  \<comment> \<open>the loop, over the variables in the order given\<close>
  "substitute vals [] s2 = Some s2"
| "substitute vals ((pos, name, block) # vars) s2 = (case vals name of
     None \<Rightarrow> substitute vals vars s2
   | Some v \<Rightarrow> do {
       s2 \<leftarrow> str_replace s2 pos (patch_length block) (patch_value v block);
       substitute vals vars s2 })"

text \<open>
  \<open>loadScript()\<close>: \<open>vals\<close> are the values for the patch variables, \<open>defs\<close> the map that receives their
  default values, or \<open>None\<close> for a null pointer. The result is the context and that map. The context that
  \<open>onePass\<close> gives for a text is the first component of \<open>loadScriptOnePass\<close>; its memory is allocated anew.
\<close>

definition loadScript :: "(string \<Rightarrow> ParserContext) \<Rightarrow> string \<Rightarrow> (string \<times> string) list \<Rightarrow>
    (string \<rightharpoonup> string) option \<Rightarrow> (ParserContext \<times> (string \<rightharpoonup> string) option) option" where
  "loadScript onePass s vals defs =
     (let context = onePass s in
      if vErrors context \<noteq> [] then Some (context, defs)
      else if patchVars context \<noteq> [] \<and> (vals \<noteq> [] \<or> defs \<noteq> None) then do {
        (varsByPos, defs') \<leftarrow> (case defs of
            Some d \<Rightarrow> map_option (\<lambda>(m, d). (m, Some d)) (collect_patch_vars s (patchVars context) [] d)
          | None \<Rightarrow> Some (vars_by_pos (patchVars context), None));
        if vals = [] then Some (context, defs')
        else do {
          s2 \<leftarrow> substitute (map_of vals) (rev varsByPos) s;
          Some (if s2 \<noteq> s then onePass s2 else context, defs') } }
      else Some (context, defs))"

end
