(* ===== verification/VMStack.thy ===== *)
theory VMStack
  imports VMFrame
begin

text \<open>
  The stack discipline of \<open>ScriptVM::exec()\<close>. The locale \<open>stack_discipline\<close> is the contract of a
  predicate \<open>P\<close> on the statement in a stack frame and its depth, which has to pass from a statement to
  the statements it pushes; its lemmas show that the main loop keeps \<open>P\<close> on all frames. The
  interpretations are \<open>sized\<close> (the statement's stack requirement still fits, so the stack never
  overflows) and \<open>unsynced\<close> (in addition no \<open>sync\<close> block is involved, so the automatic suspension
  stays armed).
\<close>

section \<open>Statements and the statements they push\<close>

inductive sub_stmt :: "stmt \<Rightarrow> stmt \<Rightarrow> bool" where
  child_list: "st \<in> set ss \<Longrightarrow> sub_stmt (Statements ss) st"
| child_branch: "BranchStatement_branch st i = Some ch \<Longrightarrow> sub_stmt st ch"
| child_while: "sub_stmt (While c (Some ss)) (Statements ss)"
| child_sync: "sub_stmt (SyncBlock (Some ss)) (Statements ss)"

lemma max_list_ge: "x \<in> set xs \<Longrightarrow> x \<le> max_list xs"
  by (induction xs) (auto simp: max_list_def)

lemma requiredMaxStackSizeFor_pos: "0 < requiredMaxStackSizeFor st"
  by (cases st) (auto split: option.splits)

lemma requiredMaxStackSizeFor_child: "sub_stmt st ch \<Longrightarrow> requiredMaxStackSizeFor ch < requiredMaxStackSizeFor st"
proof (induction rule: sub_stmt.induct)
  case (child_list st ss)
  then show ?case using max_list_ge [of "requiredMaxStackSizeFor st"] by (auto simp: less_Suc_eq_le)
next
  case (child_branch st i ch)
  show ?case
  proof (cases st)
    case (If c t e)
    with child_branch show ?thesis
      by (auto simp: If_branch_def max_list_def split: if_splits option.splits)
  next
    case (SelectCase v bs)
    with child_branch have "i < length bs" "ch = Statements (snd (snd (bs ! i)))"
      by (auto simp: SelectCase_branch_def nth_opt_eq_Some_iff split: prod.splits)
    then obtain b where "b \<in> set bs" "ch = Statements (snd (snd b))"
      using nth_mem by blast
    then show ?thesis
      using max_list_ge [of "requiredMaxStackSizeFor ch"
          "map (\<lambda>b. max_list (map requiredMaxStackSizeFor (snd (snd b))) + 1) bs"]
      by (auto simp: SelectCase less_Suc_eq_le)
  qed (use child_branch in simp_all)
qed auto

lemma evalBranch_loop_range:
  "SelectCase_evalBranch_loop L v bs i s = Some (b, s') \<Longrightarrow> 0 \<le> i \<Longrightarrow> 0 \<le> b \<Longrightarrow> b < i + int (length bs)"
proof (induction bs arbitrary: i s)
  case (Cons c bs)
  obtain fr to st where c: "c = (fr, to, st)" by (cases c)
  show ?case
    using Cons.prems Cons.IH [of "i + 1"] by (cases to) (fastforce simp: c split: if_splits)+
qed auto

lemma evalBranch_valid:
  assumes "BranchStatement_evalBranch L st s = Some (b, s')" and "0 \<le> b"
  shows "\<exists>ch. BranchStatement_branch st (nat b) = Some ch"
proof (cases st)
  case (If c t e)
  with assms show ?thesis
    by (auto simp: If_evalBranch_def If_branch_def split: if_splits)
next
  case (SelectCase v bs)
  with assms have "b < int (length bs)"
    using evalBranch_loop_range [of L _ bs 0 _ b s'] by (auto simp: SelectCase_evalBranch_def)
  with SelectCase assms(2) show ?thesis by (simp add: SelectCase_branch_def nat_less_iff)
qed (use assms in simp_all)

section \<open>The stack operations\<close>

definition frames_sat :: "(nat \<Rightarrow> stmt \<Rightarrow> bool) \<Rightarrow> ExecContext \<Rightarrow> bool" where
  "frames_sat P c \<longleftrightarrow> - 1 \<le> stackFrame c \<and>
     (\<forall>j. int j \<le> stackFrame c \<longrightarrow> (\<exists>st. sf_statement (stack c ! j) = Some st \<and> P j st))"

lemma frames_sat_cong:
  "stack c = stack c' \<Longrightarrow> stackFrame c = stackFrame c' \<Longrightarrow> frames_sat P c = frames_sat P c'"
  by (simp add: frames_sat_def)

lemma length_stack_ops [simp]:
  "length (stack (popStack c)) = length (stack c)"
  "length (stack (pushStack st c)) = length (stack c)"
  "length (stack (set_subindex i k c)) = length (stack c)"
  by (simp_all add: popStack_def pushStack_def set_subindex_def Let_def)

lemma stackFrame_ops [simp]:
  "stackFrame (popStack c) = stackFrame c - 1"
  "stackFrame (pushStack st c) = stackFrame c + 1"
  "stackFrame (set_subindex i k c) = stackFrame c"
  by (simp_all add: popStack_def pushStack_def set_subindex_def Let_def)

lemma flags_ops [simp]:
  "flags (popStack c) = flags c" "flags (pushStack st c) = flags c"
  "flags (set_subindex i k c) = flags c"
  by (simp_all add: popStack_def pushStack_def set_subindex_def Let_def)

lemma frames_sat_pop: "frames_sat P c \<Longrightarrow> 0 \<le> stackFrame c \<Longrightarrow> frames_sat P (popStack c)"
  by (auto simp: frames_sat_def popStack_def nth_list_update)

lemma set_subindex_statement [simp]:
  "sf_statement (stack (set_subindex i k c) ! j) = sf_statement (stack c ! j)"
  by (cases "i < length (stack c)") (auto simp: set_subindex_def nth_list_update list_update_beyond)

lemma frames_sat_subindex:
  "frames_sat P c \<Longrightarrow> frames_sat P (set_subindex i k c)"
  by (simp add: frames_sat_def)

lemma frames_sat_push:
  assumes "frames_sat P c" and "stackFrame c + 1 < int (length (stack c))"
    and "P (nat (stackFrame c + 1)) st"
  shows "frames_sat P (pushStack (Some st) c)"
proof -
  have "sf_statement (stack (pushStack (Some st) c) ! j) = Some st \<and> P j st"
    if "int j = stackFrame c + 1" for j
  proof -
    from that have j: "nat (stackFrame c + 1) = j" by linarith
    then show ?thesis using assms(2,3) that by (simp add: pushStack_def Let_def)
  qed
  moreover have "stack (pushStack (Some st) c) ! j = stack c ! j" if "int j \<le> stackFrame c" for j
    using that by (auto simp: pushStack_def Let_def nth_list_update nat_eq_iff)
  ultimately show ?thesis
    using assms(1) unfolding frames_sat_def by (auto) (metis zle_add1_eq_le order_le_less)
qed

lemma upd_ls_ctx_simps [simp]:
  "execCtx (ls_vm (upd_ls_ctx f l)) = f (execCtx (ls_vm l))"
  "ls_counter (upd_ls_ctx f l) = ls_counter l" "ls_synced (upd_ls_ctx f l) = ls_synced l"
  by (simp_all add: upd_ls_ctx_def upd_ctx_def)

lemma force_suspension_simps [simp]:
  "stack (force_suspension c) = stack c" "stackFrame (force_suspension c) = stackFrame c"
  "flags (force_suspension c) = STMT_SUSPEND_SIGNALLED"
  by (simp_all add: force_suspension_def)

lemma frames_sat_force [simp]: "frames_sat P (force_suspension c) = frames_sat P c"
  by (simp add: frames_sat_def)

section \<open>The contract\<close>

locale stack_discipline =
  fixes P :: "nat \<Rightarrow> stmt \<Rightarrow> bool" and N :: nat
  assumes fits: "P j st \<Longrightarrow> j < N"
    and pushes: "sub_stmt st ch \<Longrightarrow> P j st \<Longrightarrow> P (Suc j) ch"
begin

definition inv :: "loop_state \<Rightarrow> bool" where
  "inv l \<longleftrightarrow> frames_sat P (execCtx (ls_vm l)) \<and> length (stack (execCtx (ls_vm l))) = N"

lemma inv_no_overflow: "inv l \<Longrightarrow> \<not> stack_overflow l"
  unfolding inv_def stack_overflow_def frames_sat_def
  by (metis fits int_nat_eq linorder_not_less nat_int_comparison(2) of_nat_0_le_iff order_le_less
      order_less_le_trans)

lemma inv_top:
  assumes "inv l" and "0 \<le> stackFrame (execCtx (ls_vm l))"
  obtains st where "sf_statement (stack (execCtx (ls_vm l)) ! nat (stackFrame (execCtx (ls_vm l)))) = Some st"
    and "P (nat (stackFrame (execCtx (ls_vm l)))) st"
  using assms by (auto simp: inv_def frames_sat_def dest: spec [of _ "nat (stackFrame (execCtx (ls_vm l)))"])

lemma inv_push:
  assumes "frames_sat P c" and "length (stack c) = N" and "0 \<le> stackFrame c"
    and "P (nat (stackFrame c)) st" and "sub_stmt st ch"
  shows "frames_sat P (pushStack (Some ch) c)"
proof (rule frames_sat_push [OF assms(1)])
  show P: "P (nat (stackFrame c + 1)) ch"
    using pushes [OF assms(5,4)] assms(3) by (simp add: nat_add_distrib)
  show "stackFrame c + 1 < int (length (stack c))"
    using fits [OF P] assms(2,3) by linarith
qed

lemma exec_statement_inv:
  assumes l: "inv l" and top: "0 \<le> stackFrame (execCtx (ls_vm l))"
    and st: "P (nat (stackFrame (execCtx (ls_vm l)))) st"
    and ex: "exec_statement L st (nat (stackFrame (execCtx (ls_vm l)))) k l = Some l'"
  shows "inv l'"
proof -
  let ?c = "execCtx (ls_vm l)"
  have c: "frames_sat P ?c" "length (stack ?c) = N" using l by (auto simp: inv_def)
  note push = inv_push [OF frames_sat_subindex [OF c(1)], simplified, OF c(2) top st]
    inv_push [OF c top st]
  have same: "frames_sat P (execCtx s) \<and> length (stack (execCtx s)) = N \<and> stackFrame (execCtx s) = stackFrame ?c"
    if "same_control (ls_vm l) s" for s
    using that c frames_sat_cong [of "execCtx s" ?c] by (auto simp: same_control_def)
  have sub: "frames_sat P (set_subindex i k c)" if "frames_sat P c" for i k c
    using that by (rule frames_sat_subindex)
  have leaf: "inv l'" if "exec_leaf L st l = Some l'"
  proof -
    from that obtain fl s where s: "LeafStatement_exec L st (ls_vm l) = Some (fl, s)"
      and l': "l' = upd_ls_ctx popStack (l\<lparr>ls_vm := set_flags fl s\<rparr>)"
      by (auto simp: exec_leaf_def)
    note s = same [OF control.leaf_frame [OF s]]
    have "frames_sat P (execCtx (set_flags fl s))"
      using s frames_sat_cong [of "execCtx (set_flags fl s)" "execCtx s" P] by (simp add: set_flags_def)
    then show ?thesis
      using s top by (auto simp: l' inv_def set_flags_def intro!: frames_sat_pop)
  qed
  have branch: "inv l'" if "exec_branch L st (nat (stackFrame ?c)) k l = Some l'"
  proof (cases "k < 0")
    case True
    with that c top show ?thesis by (auto simp: exec_branch_def inv_def intro: frames_sat_pop)
  next
    case False
    with that obtain b s where s: "BranchStatement_evalBranch L st (ls_vm l) = Some (b, s)"
      and l': "l' = (let l1 = upd_ls_ctx (set_subindex (nat (stackFrame ?c)) b) (l\<lparr>ls_vm := s\<rparr>) in
        if 0 \<le> b then upd_ls_ctx (\<lambda>c'. set_subindex (nat (stackFrame ?c)) (- 1)
               (pushStack (BranchStatement_branch st (nat b)) c')) l1
        else upd_ls_ctx popStack l1)"
      by (auto simp: exec_branch_def Let_def split: if_splits)
    note s' = same [OF control.branch_frame [OF s]]
    let ?c1 = "set_subindex (nat (stackFrame ?c)) b (execCtx s)"
    have c1: "frames_sat P ?c1" "length (stack ?c1) = N" "stackFrame ?c1 = stackFrame ?c"
      using s' sub by auto
    have "frames_sat P (pushStack (BranchStatement_branch st (nat b)) ?c1)" if b: "0 \<le> b"
    proof -
      obtain ch where ch: "BranchStatement_branch st (nat b) = Some ch"
        using evalBranch_valid [OF s b] by blast
      show ?thesis
        unfolding ch by (rule inv_push [OF c1(1,2)]) (use c1(3) top st child_branch [OF ch] in simp_all)
    qed
    then show ?thesis
      using c1 top by (auto simp: l' Let_def inv_def intro!: sub frames_sat_pop)
  qed
  have loop: "inv l'" if "exec_loop_stmt L q b l = Some l'" "st = While q b" for q b
  proof -
    from that(1) obtain v s where s: "While_evalLoopStartCondition L q (ls_vm l) = Some (v, s)"
      by (auto simp: exec_loop_stmt_def)
    note s' = same [OF control.while_frame [OF s]]
    have "frames_sat P (popStack (execCtx s))"
      using s' top by (auto intro: frames_sat_pop)
    moreover have "frames_sat P (pushStack (Some (Statements ss)) (execCtx s))" if "b = Some ss" for ss
      using s' top st inv_push [of "execCtx s" st "Statements ss"] \<open>st = While q b\<close> that
      by (auto intro: child_while)
    ultimately show ?thesis
      using that(1) s s'
      by (cases v; cases b) (auto simp: exec_loop_stmt_def inv_def Let_def split: if_splits)
  qed
  have sync: "inv (exec_sync b (nat (stackFrame ?c)) k l)" if "st = SyncBlock b" for b
    using that c top st push(1) sub [OF c(1)]
    by (auto simp: exec_sync_def inv_def Let_def intro!: frames_sat_pop push(1) child_sync
        split: option.splits bool.splits)
  show ?thesis
  proof (cases st)
    case (Statements ss)
    with ex c top push(1) show ?thesis
      by (auto simp: exec_statement_def exec_list_def inv_def Statements_statement_def nth_opt_def
          intro!: frames_sat_pop push(1) child_list split: option.splits if_splits)
  qed (use ex leaf branch loop sync l in \<open>auto simp: exec_statement_def\<close>)
qed

lemma iteration_inv:
  assumes l: "inv l" and cond: "loop_condition l" and it: "exec_iteration L l = Some l'"
  shows "inv l'"
proof -
  have top: "0 \<le> stackFrame (execCtx (ls_vm l))" using cond by (simp add: loop_condition_def)
  obtain st where st: "sf_statement (stack (execCtx (ls_vm l)) ! nat (stackFrame (execCtx (ls_vm l)))) = Some st"
    and P: "P (nat (stackFrame (execCtx (ls_vm l)))) st"
    by (rule inv_top [OF l top])
  from it obtain l1 where ex: "exec_statement L st (nat (stackFrame (execCtx (ls_vm l))))
      (sf_subindex (stack (execCtx (ls_vm l)) ! nat (stackFrame (execCtx (ls_vm l))))) l = Some l1"
    and l': "l' = check_hard_limit l1"
    by (auto simp: exec_iteration_def Let_def st)
  have "inv l1" by (rule exec_statement_inv [OF l top P ex])
  then show ?thesis
    by (auto simp: l' inv_def check_hard_limit_def Let_def)
qed

lemma exec_loop_inv:
  "inv l \<Longrightarrow> exec_loop L fuel l = Returned l' \<Longrightarrow> inv l' \<and> \<not> loop_condition l'"
proof (induction fuel arbitrary: l)
  case 0
  then show ?case by (auto split: if_splits)
next
  case (Suc fuel)
  show ?case
  proof (cases "loop_condition l")
    case False
    with Suc.prems show ?thesis by auto
  next
    case True
    with Suc.prems inv_no_overflow [OF Suc.prems(1)] obtain l1
      where "exec_iteration L l = Some l1" "exec_loop L fuel l1 = Returned l'"
      by (auto split: option.splits)
    with Suc.IH iteration_inv [OF Suc.prems(1) True] show ?thesis by blast
  qed
qed

end

section \<open>Interpretations\<close>

text \<open>Every frame has room for what its statement may still push.\<close>

definition sized :: "nat \<Rightarrow> nat \<Rightarrow> stmt \<Rightarrow> bool" where
  "sized N j st \<longleftrightarrow> j + requiredMaxStackSizeFor st \<le> N"

interpretation sized: stack_discipline "sized N" N for N
proof
  show "j < N" if "sized N j st" for j st
    using that requiredMaxStackSizeFor_pos [of st] by (simp add: sized_def)
  show "sized N (Suc j) ch" if "sub_stmt st ch" "sized N j st" for st ch j
    using that requiredMaxStackSizeFor_child [of st ch] by (simp add: sized_def)
qed

fun no_sync :: "stmt \<Rightarrow> bool" where
  "no_sync (Statements ss) = list_all no_sync ss"
| "no_sync (If c t e) = (list_all no_sync t \<and> (case e of None \<Rightarrow> True | Some ss \<Rightarrow> list_all no_sync ss))"
| "no_sync (SelectCase v bs) = list_all (\<lambda>b. list_all no_sync (snd (snd b))) bs"
| "no_sync (While c b) = (case b of None \<Rightarrow> True | Some ss \<Rightarrow> list_all no_sync ss)"
| "no_sync (SyncBlock b) = False"
| "no_sync _ = True"

lemma no_sync_child: "sub_stmt st ch \<Longrightarrow> no_sync st \<Longrightarrow> no_sync ch"
proof (induction rule: sub_stmt.induct)
  case (child_branch st i ch)
  show ?case
  proof (cases st)
    case (SelectCase v bs)
    with child_branch have "i < length bs" "ch = Statements (snd (snd (bs ! i)))"
      by (auto simp: SelectCase_branch_def nth_opt_eq_Some_iff split: prod.splits)
    with SelectCase child_branch(2) nth_mem [of i bs] show ?thesis by (auto simp: list_all_iff)
  qed (use child_branch in \<open>auto simp: If_branch_def list_all_iff split: if_splits option.splits\<close>)
qed (auto simp: list_all_iff)

definition unsynced :: "nat \<Rightarrow> nat \<Rightarrow> stmt \<Rightarrow> bool" where
  "unsynced N j st \<longleftrightarrow> sized N j st \<and> no_sync st"

interpretation unsynced: stack_discipline "unsynced N" N for N
  by unfold_locales (auto simp: unsynced_def intro: sized.fits sized.pushes no_sync_child)

section \<open>Execution contexts between calls of exec\<close>

definition context_ok :: "stmt list list \<Rightarrow> ExecContext \<Rightarrow> bool" where
  "context_ok handlers c \<longleftrightarrow>
     requiredMaxStackSizeForHandlers handlers \<le> length (stack c) \<and>
     frames_sat (sized (length (stack c))) c"

lemma foldl_max_ge: "x \<le> foldl max x ys" "y \<in> set ys \<Longrightarrow> y \<le> foldl max x ys" for x y :: nat
proof (induction ys arbitrary: x)
  case (Cons z zs)
  { case 1 show ?case using Cons(1) [of "max x z"] by simp }
  { case 2 then show ?case using Cons(1) [of "max x z"] Cons(2) [of "max x z"] by auto }
qed auto

lemma requiredMaxStackSizeForHandlers_ge:
  "h \<in> set handlers \<Longrightarrow> requiredMaxStackSizeFor (Statements h) \<le> requiredMaxStackSizeForHandlers handlers"
  unfolding requiredMaxStackSizeForHandlers_def by (intro foldl_max_ge) auto

lemma requiredMaxStackSizeForHandlers_pos: "0 < requiredMaxStackSizeForHandlers handlers"
  using foldl_max_ge(1) [of 1] by (simp add: requiredMaxStackSizeForHandlers_def Suc_le_eq)

lemma exec_start_simps:
  "flags (execCtx (ls_vm (exec_start h s))) = flags (execCtx s)"
  "length (stack (execCtx (ls_vm (exec_start h s)))) = length (stack (execCtx s))"
  "ls_counter (exec_start h s) = 0"
  "ls_synced (exec_start h s) = (if m_autoSuspend s then 0 else 1)"
  by (simp_all add: exec_start_def Let_def)

lemma exec_start_frames:
  assumes c: "frames_sat P (execCtx s)" and h: "P 0 (Statements h)" and len: "0 < length (stack (execCtx s))"
  shows "frames_sat P (execCtx (ls_vm (exec_start h s)))"
proof (cases "stackFrame (execCtx s) < 0")
  case True
  let ?c = "(execCtx s)\<lparr>status := VM_EXEC_RUNNING, instructionsCount := 0, exitRes := None, stackFrame := - 1\<rparr>"
  have "frames_sat P (pushStack (Some (Statements h)) ?c)"
    by (rule frames_sat_push) (use h len in \<open>auto simp: frames_sat_def\<close>)
  with True show ?thesis by (simp add: exec_start_def Let_def)
next
  case False
  with c show ?thesis by (simp add: exec_start_def Let_def frames_sat_def)
qed

lemma exec_start_sized:
  assumes "context_ok handlers (execCtx s)" and "h \<in> set handlers"
  shows "sized.inv (length (stack (execCtx s))) (exec_start h s)"
proof -
  have "sized (length (stack (execCtx s))) 0 (Statements h)"
    using assms requiredMaxStackSizeForHandlers_ge [OF assms(2)] by (simp add: sized_def context_ok_def)
  moreover have "0 < length (stack (execCtx s))"
    using assms(1) requiredMaxStackSizeForHandlers_pos [of handlers] by (auto simp: context_ok_def)
  ultimately show ?thesis
    using assms(1) by (simp add: sized.inv_def exec_start_simps exec_start_frames context_ok_def)
qed

text \<open>The states the main loop passes through.\<close>

inductive loop_reach :: "clib \<Rightarrow> loop_state \<Rightarrow> loop_state \<Rightarrow> bool" for L l0 where
  reach_start: "loop_reach L l0 l0"
| reach_step: "loop_reach L l0 l \<Longrightarrow> loop_condition l \<Longrightarrow> exec_iteration L l = Some l' \<Longrightarrow>
    loop_reach L l0 l'"

context stack_discipline begin

lemma reach_inv: "loop_reach L l0 l \<Longrightarrow> inv l0 \<Longrightarrow> inv l"
  by (induction rule: loop_reach.induct) (auto intro: iteration_inv)

end

end
