(* ===== verification/VMExec.thy ===== *)
theory VMExec
  imports VMStack VMExample
begin

text \<open>
  What a call of \<open>ScriptVM::exec()\<close> guarantees: how long it runs (the automatic suspension of
  \<open>SCRIPTVM_MAX_INSTR_PER_CYCLE_HARD\<close>), the state in which it leaves the execution context, and the
  effect of \<open>signalAbort()\<close> and \<open>forkTo()\<close>. 212 passes are enough fuel for a script without \<open>sync\<close>
  blocks: the pass that starts with the counter at 211 sets the suspension flag.
\<close>

section \<open>Progress of the loop counters\<close>

lemma exec_statement_counter:
  assumes "exec_statement L st i k l = Some l'"
  shows "ls_counter l' = ls_counter l"
  using assms
  by (cases st) (auto simp: exec_statement_def exec_leaf_def exec_list_def exec_branch_def
      exec_loop_stmt_def exec_sync_def Let_def split: option.splits if_splits bool.splits)

lemma exec_statement_synced:
  assumes "exec_statement L st i k l = Some l'" and "no_sync st"
  shows "ls_synced l' = ls_synced l"
  using assms
  by (cases st) (auto simp: exec_statement_def exec_leaf_def exec_list_def exec_branch_def
      exec_loop_stmt_def Let_def split: option.splits if_splits bool.splits)

lemma check_hard_limit_simps [simp]:
  "ls_counter (check_hard_limit l) = ls_counter l + 1" "ls_synced (check_hard_limit l) = ls_synced l"
  by (simp_all add: check_hard_limit_def Let_def)

lemma iteration_counter: "exec_iteration L l = Some l' \<Longrightarrow> ls_counter l' = ls_counter l + 1"
  by (auto simp: exec_iteration_def Let_def exec_statement_counter)

lemma check_hard_limit_stops:
  "210 < ls_counter l \<Longrightarrow> ls_synced l = 0 \<Longrightarrow> \<not> loop_condition (check_hard_limit l)"
  by (auto simp: check_hard_limit_def limit_reached_def loop_condition_def Let_def)

lemma iteration_hard_limit:
  assumes it: "exec_iteration L l = Some l'" and inv: "unsynced.inv N l" and cond: "loop_condition l"
    and s: "ls_synced l = 0"
  shows "ls_synced l' = 0 \<and> (210 < ls_counter l \<longrightarrow> \<not> loop_condition l')"
proof -
  obtain st where st: "sf_statement (stack (execCtx (ls_vm l)) ! nat (stackFrame (execCtx (ls_vm l)))) = Some st"
    and P: "unsynced N (nat (stackFrame (execCtx (ls_vm l)))) st"
    by (rule unsynced.inv_top [OF inv]) (use cond in \<open>simp add: loop_condition_def\<close>)
  from it obtain l1 where ex: "exec_statement L st (nat (stackFrame (execCtx (ls_vm l))))
      (sf_subindex (stack (execCtx (ls_vm l)) ! nat (stackFrame (execCtx (ls_vm l))))) l = Some l1"
    and l': "l' = check_hard_limit l1"
    by (auto simp: exec_iteration_def Let_def st)
  have "ls_synced l1 = 0" "ls_counter l1 = ls_counter l"
    using exec_statement_counter [OF ex] exec_statement_synced [OF ex] P s by (auto simp: unsynced_def)
  then show ?thesis using check_hard_limit_stops [of l1] by (simp add: l')
qed

lemma exec_loop_terminates:
  assumes "unsynced.inv N l" and "ls_synced l = 0" and "loop_condition l \<longrightarrow> ls_counter l \<le> 211"
    and "212 \<le> int fuel + ls_counter l"
  shows "exec_loop L fuel l \<noteq> OutOfFuel \<and>
    (\<forall>l'. exec_loop L fuel l = Returned l' \<longrightarrow> ls_counter l' \<le> max 212 (ls_counter l))"
  using assms
proof (induction fuel arbitrary: l)
  case 0
  then show ?case by auto
next
  case (Suc fuel)
  show ?case
  proof (cases "loop_condition l")
    case False
    then show ?thesis by simp
  next
    case True
    note no = unsynced.inv_no_overflow [OF Suc.prems(1)]
    show ?thesis
    proof (cases "exec_iteration L l")
      case None
      then show ?thesis using True no by simp
    next
      case (Some l1)
      note inv1 = unsynced.iteration_inv [OF Suc.prems(1) True Some]
      note c1 = iteration_counter [OF Some]
      note h1 = iteration_hard_limit [OF Some Suc.prems(1) True Suc.prems(2)]
      have "exec_loop L fuel l1 \<noteq> OutOfFuel \<and>
        (\<forall>l'. exec_loop L fuel l1 = Returned l' \<longrightarrow> ls_counter l' \<le> max 212 (ls_counter l1))"
        by (rule Suc.IH [OF inv1]) (use h1 c1 Suc.prems True in auto)
      then show ?thesis using True no Some c1 Suc.prems(3) by auto
    qed
  qed
qed

lemma exec_loop_more:
  "exec_loop L fuel l \<noteq> OutOfFuel \<Longrightarrow> exec_loop L (fuel + k) l = exec_loop L fuel l"
proof (induction fuel arbitrary: l)
  case 0
  then show ?case by (cases k) (auto split: if_splits)
next
  case (Suc fuel)
  then show ?case by (auto split: option.splits if_splits)
qed

lemma ScriptVM_exec_more:
  "ScriptVM_exec L fuel h s \<noteq> OutOfFuel \<Longrightarrow> ScriptVM_exec L (fuel + k) h s = ScriptVM_exec L fuel h s"
  using exec_loop_more [of L fuel _ k]
  by (auto simp: ScriptVM_exec_def split: option.splits outcome.splits)

section \<open>The state exec leaves behind\<close>

lemma exec_end_cases:
  assumes "exec_end l = (st, s')"
  shows "st = status (execCtx s') \<and> flags (execCtx s') = STMT_SUCCESS \<and>
    instructionsCount (execCtx s') = nat (ls_counter l) \<and>
    length (stack (execCtx s')) = length (stack (execCtx (ls_vm l))) \<and>
    (st = VM_EXEC_SUSPENDED \<and> stack (execCtx s') = stack (execCtx (ls_vm l)) \<and>
       stackFrame (execCtx s') = stackFrame (execCtx (ls_vm l)) \<or>
     st \<noteq> VM_EXEC_SUSPENDED \<and> (st = VM_EXEC_NOT_RUNNING \<or> st = VM_EXEC_ERROR) \<and>
       stackFrame (execCtx s') = - 1)"
  using assms by (auto simp: exec_end_def reset_def Let_def split: if_splits)

lemma exec_end_context_ok:
  assumes "sized.inv N l" and "requiredMaxStackSizeForHandlers handlers \<le> N" and "exec_end l = (st, s')"
  shows "context_ok handlers (execCtx s')"
proof -
  from assms(1) have N: "length (stack (execCtx (ls_vm l))) = N" "frames_sat (sized N) (execCtx (ls_vm l))"
    by (simp_all add: sized.inv_def)
  from exec_end_cases [OF assms(3)] show ?thesis
    using assms(2) N frames_sat_cong [of "execCtx s'" "execCtx (ls_vm l)" "sized N"]
    by (auto simp: context_ok_def frames_sat_def)
qed

lemma exec_returned:
  assumes "ScriptVM_exec L fuel (Some h) s = Returned (st, s')"
  obtains l where "exec_loop L fuel (exec_start h s) = Returned l" and "exec_end l = (st, s')"
  using assms by (auto simp: ScriptVM_exec_def split: outcome.splits)

section \<open>Properties of a call of exec\<close>

text \<open>C1: The stack that \<open>_requiredMaxStackSizeFor()\<close> computes is enough. From any context in which
  \<open>exec()\<close> may be called (fresh, suspended or forked), the main loop never reaches the branch that
  reports a stack overflow, and every stack frame it looks at holds a statement.\<close>

theorem exec_no_stack_overflow:
  assumes "context_ok handlers (execCtx s)" and "h \<in> set handlers"
    and "loop_reach L (exec_start h s) l" and "loop_condition l"
  shows "\<not> stack_overflow l \<and>
    sf_statement (stack (execCtx (ls_vm l)) ! nat (stackFrame (execCtx (ls_vm l)))) \<noteq> None"
proof -
  note inv = sized.reach_inv [OF assms(3) exec_start_sized [OF assms(1,2)]]
  have "0 \<le> stackFrame (execCtx (ls_vm l))" using assms(4) by (simp add: loop_condition_def)
  with sized.inv_top [OF inv] sized.inv_no_overflow [OF inv] show ?thesis by blast
qed

text \<open>C2: The context is ready for the next call after every call: \<open>exec()\<close> preserves the
  well-formedness of the execution context, leaves its flags cleared and returns its status, and the
  stack is empty unless the status is \<open>VM_EXEC_SUSPENDED\<close>.\<close>

theorem exec_preserves_context:
  assumes "context_ok handlers (execCtx s)" and "h \<in> set handlers"
    and "ScriptVM_exec L fuel (Some h) s = Returned (st, s')"
  shows "context_ok handlers (execCtx s') \<and> flags (execCtx s') = STMT_SUCCESS \<and>
    status (execCtx s') = st \<and> st \<in> {VM_EXEC_SUSPENDED, VM_EXEC_NOT_RUNNING, VM_EXEC_ERROR} \<and>
    (st = VM_EXEC_SUSPENDED \<or> stackFrame (execCtx s') = - 1)"
proof -
  from assms(3) obtain l where l: "exec_loop L fuel (exec_start h s) = Returned l" "exec_end l = (st, s')"
    by (rule exec_returned)
  have "sized.inv (length (stack (execCtx s))) l"
    using sized.exec_loop_inv [OF exec_start_sized [OF assms(1,2)] l(1)] by blast
  then have "context_ok handlers (execCtx s')"
    using exec_end_context_ok [OF _ _ l(2), of _ handlers] assms(1) by (auto simp: context_ok_def)
  then show ?thesis using exec_end_cases [OF l(2)] by auto
qed

definition unsynced_context :: "ExecContext \<Rightarrow> bool" where
  "unsynced_context c \<longleftrightarrow> frames_sat (\<lambda>j. no_sync) c"

lemma exec_start_unsynced:
  assumes "context_ok handlers (execCtx s)" and "h \<in> set handlers"
    and "unsynced_context (execCtx s)" and "no_sync (Statements h)"
  shows "unsynced.inv (length (stack (execCtx s))) (exec_start h s)"
proof -
  let ?N = "length (stack (execCtx s))"
  have "frames_sat (unsynced ?N) (execCtx s)"
    using assms(1,3) by (fastforce simp: context_ok_def unsynced_context_def frames_sat_def unsynced_def)
  moreover have "unsynced ?N 0 (Statements h)"
    using assms(1,4) requiredMaxStackSizeForHandlers_ge [OF assms(2)]
    by (simp add: unsynced_def sized_def context_ok_def del: no_sync.simps)
  moreover have "0 < ?N"
    using assms(1) requiredMaxStackSizeForHandlers_pos [of handlers] by (auto simp: context_ok_def)
  ultimately show ?thesis
    by (simp add: unsynced.inv_def exec_start_simps exec_start_frames)
qed

text \<open>C3: With automatic suspension enabled, a call of \<open>exec()\<close> for a handler without \<open>sync\<close> blocks
  ends after at most 212 passes of the main loop, even when the script never ends: it returns, or an
  expression hits undefined behaviour.\<close>

theorem exec_terminates:
  assumes "context_ok handlers (execCtx s)" and "h \<in> set handlers"
    and "unsynced_context (execCtx s)" and "no_sync (Statements h)" and "m_autoSuspend s"
    and "212 \<le> fuel"
  shows "ScriptVM_exec L fuel (Some h) s \<noteq> OutOfFuel"
proof -
  have "exec_loop L fuel (exec_start h s) \<noteq> OutOfFuel"
    using exec_loop_terminates [OF exec_start_unsynced [OF assms(1-4)], of fuel L] assms(5,6)
    by (simp add: exec_start_simps)
  then show ?thesis by (simp add: ScriptVM_exec_def split: outcome.splits)
qed

text \<open>The number of instructions that \<open>instructionsPerformed()\<close> reports after such a call is at
  most 212, so the real-time budget of one call is bounded by a constant.\<close>

theorem exec_instructions_bounded:
  assumes "context_ok handlers (execCtx s)" and "h \<in> set handlers"
    and "unsynced_context (execCtx s)" and "no_sync (Statements h)" and "m_autoSuspend s"
    and "ScriptVM_exec L fuel (Some h) s = Returned (st, s')"
  shows "instructionsCount (execCtx s') \<le> 212"
proof -
  from assms(6) obtain l where l: "exec_loop L fuel (exec_start h s) = Returned l" "exec_end l = (st, s')"
    by (rule exec_returned)
  then have "exec_loop L (fuel + 212) (exec_start h s) = Returned l"
    using exec_loop_more [of L fuel "exec_start h s" 212] by simp
  then have "ls_counter l \<le> 212"
    using exec_loop_terminates [OF exec_start_unsynced [OF assms(1-4)], of "fuel + 212" L] assms(5)
    by (auto simp: exec_start_simps)
  then show ?thesis using exec_end_cases [OF l(2)] by simp
qed

section \<open>Abort and fork\<close>

lemma signalAbort_flags: "flags c = STMT_SUCCESS \<Longrightarrow> flags (signalAbort c) = STMT_ABORT_SIGNALLED"
  by (simp add: signalAbort_def)

text \<open>C4: After \<open>signalAbort()\<close> on a context that is not being executed, the next \<open>exec()\<close> runs no
  statement: it returns \<open>VM_EXEC_NOT_RUNNING\<close> with zero instructions performed, an empty stack and
  cleared flags, and changes nothing outside the context's control state.\<close>

theorem exec_after_abort:
  assumes "flags (execCtx s) = STMT_SUCCESS"
  shows "\<exists>c. ScriptVM_exec L fuel (Some h) (upd_ctx signalAbort s) =
      Returned (VM_EXEC_NOT_RUNNING, s\<lparr>execCtx := c\<rparr>) \<and>
    flags c = STMT_SUCCESS \<and> stackFrame c = - 1 \<and> instructionsCount c = 0 \<and>
    polyphonicIntMemory c = polyphonicIntMemory (execCtx s) \<and>
    polyphonicRealMemory c = polyphonicRealMemory (execCtx s) \<and>
    polyphonicUnitFactorMemory c = polyphonicUnitFactorMemory (execCtx s)"
proof -
  let ?l = "exec_start h (upd_ctx signalAbort s)"
  have "\<not> loop_condition ?l"
    using signalAbort_flags [OF assms] by (simp add: loop_condition_def exec_start_simps upd_ctx_def)
  then have "exec_loop L fuel ?l = Returned ?l"
    by (cases fuel) auto
  then have run: "ScriptVM_exec L fuel (Some h) (upd_ctx signalAbort s) = Returned (exec_end ?l)"
    by (simp add: ScriptVM_exec_def)
  let ?c = "execCtx (snd (exec_end ?l))"
  have fl: "flags (execCtx (ls_vm ?l)) = 1"
    using signalAbort_flags [OF assms] by (simp add: exec_start_simps upd_ctx_def)
  have vm: "(ls_vm ?l)\<lparr>execCtx := x\<rparr> = s\<lparr>execCtx := x\<rparr>" for x
    by (simp add: exec_start_def Let_def upd_ctx_def)
  have ctx: "polyphonicIntMemory (execCtx (ls_vm ?l)) = polyphonicIntMemory (execCtx s)"
    "polyphonicRealMemory (execCtx (ls_vm ?l)) = polyphonicRealMemory (execCtx s)"
    "polyphonicUnitFactorMemory (execCtx (ls_vm ?l)) = polyphonicUnitFactorMemory (execCtx s)"
    by (simp_all add: exec_start_def Let_def upd_ctx_def signalAbort_def pushStack_def)
  have "exec_end ?l = (VM_EXEC_NOT_RUNNING, s\<lparr>execCtx := ?c\<rparr>)"
    by (simp add: exec_end_def Let_def fl reset_def vm)
  moreover have "flags ?c = STMT_SUCCESS \<and> stackFrame ?c = - 1 \<and> instructionsCount ?c = 0"
    by (simp add: exec_end_def Let_def fl reset_def exec_start_simps(3))
  ultimately show ?thesis
    unfolding run by (intro exI [of _ ?c]) (simp add: exec_end_def Let_def fl reset_def ctx)
qed

lemma copyFlatFrom_same [simp]: "length a = length b \<Longrightarrow> copyFlatFrom a b = b"
  by (simp add: copyFlatFrom_def)

text \<open>C5: A context forked from another one of the same script resumes where the original was
  suspended: same stack, same position, same values of the polyphonic variables, cleared flags,
  status suspended, and again well formed.\<close>

theorem forkTo_resumes:
  assumes "context_ok handlers c" and "length (stack child) = length (stack c)"
    and "length (polyphonicIntMemory child) = length (polyphonicIntMemory c)"
    and "length (polyphonicRealMemory child) = length (polyphonicRealMemory c)"
  shows "context_ok handlers (forkTo c child) \<and> stack (forkTo c child) = stack c \<and>
    stackFrame (forkTo c child) = stackFrame c \<and>
    polyphonicIntMemory (forkTo c child) = polyphonicIntMemory c \<and>
    polyphonicRealMemory (forkTo c child) = polyphonicRealMemory c \<and>
    flags (forkTo c child) = STMT_SUCCESS \<and> status (forkTo c child) = VM_EXEC_SUSPENDED"
  using assms by (simp add: forkTo_def context_ok_def frames_sat_def)

text \<open>C6: The fork does not carry the metric prefixes of polyphonic variables over: in the forked
  context a polyphonic variable has the value it had in the original, but the unit factor the new
  context had before.\<close>

theorem forkTo_loses_unit_factors:
  assumes "vd_isPolyphonic d" and "length (polyphonicIntMemory child) = length (polyphonicIntMemory c)"
  shows "map_option fst (IntVariable_evalInt d (s\<lparr>execCtx := forkTo c child\<rparr>)) =
      map_option fst (IntVariable_evalInt d (s\<lparr>execCtx := c\<rparr>)) \<and>
    NumberVariable_unitFactor d (s\<lparr>execCtx := forkTo c child\<rparr>) =
      NumberVariable_unitFactor d (s\<lparr>execCtx := child\<rparr>)"
  using assms
  by (auto simp: IntVariable_evalInt_def NumberVariable_unitFactor_def forkTo_def nth_opt_def)

section \<open>Leaving a sync block in a later call\<close>

text \<open>
  \<open>synced\<close> is a local variable of \<open>exec()\<close>, which starts each call with 0. A script suspended inside
  of a \<open>sync\<close> block therefore leaves the block with \<open>synced\<close> at -1, which disables the automatic
  suspension for the rest of that call.
\<close>

definition spinning :: "loop_state \<Rightarrow> bool" where
  "spinning l \<longleftrightarrow> ls_synced l \<noteq> 0 \<and> flags (execCtx (ls_vm l)) = STMT_SUCCESS \<and>
     (\<exists>j v f u b. v \<noteq> 0 \<and> Suc j < length (stack (execCtx (ls_vm l))) \<and>
        sf_statement (stack (execCtx (ls_vm l)) ! j) = Some (While (IntLiteral v f u b) (Some [])) \<and>
        (stackFrame (execCtx (ls_vm l)) = int j \<or>
         stackFrame (execCtx (ls_vm l)) = int (Suc j) \<and>
         stack (execCtx (ls_vm l)) ! Suc j = \<lparr>sf_statement = Some (Statements []), sf_subindex = 0\<rparr>))"

lemma spinning_step:
  assumes "spinning l"
  shows "loop_condition l \<and> \<not> stack_overflow l \<and> (\<exists>l'. exec_iteration L l = Some l' \<and> spinning l')"
proof -
  let ?c = "execCtx (ls_vm l)"
  from assms obtain j v f u b where j: "ls_synced l \<noteq> 0" "flags ?c = STMT_SUCCESS" "v \<noteq> 0"
    "Suc j < length (stack ?c)"
    "sf_statement (stack ?c ! j) = Some (While (IntLiteral v f u b) (Some []))"
    and top: "stackFrame ?c = int j \<or>
       stackFrame ?c = int (Suc j) \<and>
       stack ?c ! Suc j = \<lparr>sf_statement = Some (Statements []), sf_subindex = 0\<rparr>"
    by (auto simp: spinning_def)
  have ev: "eval_int L (IntLiteral v f u b) s = Some (v, s)" for s
    by (simp add: eval_int_def asInt_evalInt_def IntLiteral_node_def IntExpr_node_def base_node_def)
  have lt: "int j + 1 < int (length (stack ?c))"
    using j(4) by linarith
  from top show ?thesis
  proof
    assume k: "stackFrame ?c = int j"
    have "spinning (check_hard_limit (upd_ls_ctx (pushStack (Some (Statements []))) l))"
      unfolding spinning_def
      by (use lt in \<open>auto simp: check_hard_limit_def limit_reached_def Let_def j k pushStack_def nat_add_distrib
          intro!: exI [of _ j]\<close>)
    with j k ev lt show ?thesis
      by (auto simp: loop_condition_def stack_overflow_def exec_iteration_def exec_statement_def
          exec_loop_stmt_def While_evalLoopStartCondition_def limit_reached_def Let_def)
  next
    assume k: "stackFrame ?c = int (Suc j) \<and>
      stack ?c ! Suc j = \<lparr>sf_statement = Some (Statements []), sf_subindex = 0\<rparr>"
    have "spinning (check_hard_limit (upd_ls_ctx popStack l))"
      unfolding spinning_def
      using j k by (auto simp: check_hard_limit_def limit_reached_def Let_def popStack_def
          nat_add_distrib intro!: exI [of _ j])
    with j k show ?thesis
      by (auto simp: loop_condition_def stack_overflow_def exec_iteration_def exec_statement_def
          exec_list_def Statements_statement_def nat_add_distrib)
  qed
qed

lemma spinning_never_returns: "spinning l \<Longrightarrow> exec_loop L fuel l = OutOfFuel"
proof (induction fuel arbitrary: l)
  case 0
  with spinning_step [of l L] show ?case by auto
next
  case (Suc fuel)
  with spinning_step [of l L] show ?case by auto
qed

fun run_iterations :: "clib \<Rightarrow> nat \<Rightarrow> loop_state \<Rightarrow> loop_state option" where
  "run_iterations L 0 l = Some l"
| "run_iterations L (Suc k) l =
     (if loop_condition l \<and> \<not> stack_overflow l
      then Option.bind (exec_iteration L l) (run_iterations L k) else None)"

lemma exec_loop_run:
  "run_iterations L k l = Some l' \<Longrightarrow> exec_loop L (k + fuel) l = exec_loop L fuel l'"
  by (induction k arbitrary: l) (auto split: if_splits)

lemma run_then_spin:
  assumes "run_iterations L k l = Some l'" and "spinning l'"
  shows "exec_loop L fuel l = OutOfFuel"
  using exec_loop_more [of L fuel l k] exec_loop_run [OF assms(1), of fuel]
    spinning_never_returns [OF assms(2)]
  by (auto simp: add.commute)

definition spinning_check :: "loop_state \<Rightarrow> bool" where
  "spinning_check l = (let c = execCtx (ls_vm l); j = nat (stackFrame c) in
     ls_synced l \<noteq> 0 \<and> flags c = STMT_SUCCESS \<and> 0 \<le> stackFrame c \<and> Suc j < length (stack c) \<and>
     (case sf_statement (stack c ! j) of
        Some (While (IntLiteral v f u b) (Some [])) \<Rightarrow> v \<noteq> 0 | _ \<Rightarrow> False))"

lemma spinning_check: "spinning_check l \<Longrightarrow> spinning l"
  unfolding spinning_check_def spinning_def Let_def
  by (rule conjI, simp, rule conjI, simp,
      rule exI [of _ "nat (stackFrame (execCtx (ls_vm l)))"])
    (auto split: option.splits stmt.splits expr.splits list.splits)

lemma sync_wait_run:
  "case ScriptVM_exec example_clib 20 (Some sync_wait) sync_vm of
     Returned (st, s') \<Rightarrow> st = VM_EXEC_SUSPENDED \<and>
       (case run_iterations example_clib 3 (exec_start sync_wait s') of
          Some l \<Rightarrow> spinning_check l | None \<Rightarrow> False)
   | _ \<Rightarrow> False"
  by code_simp

text \<open>C7: The script \<open>sync_wait\<close> waits inside of a \<open>sync\<close> block and then loops forever. Although
  automatic suspension is enabled, the call of \<open>exec()\<close> that resumes it never returns.\<close>

theorem sync_wait_never_returns:
  "m_autoSuspend sync_vm \<and>
   (case ScriptVM_exec example_clib 20 (Some sync_wait) sync_vm of
      Returned (st, s') \<Rightarrow> st = VM_EXEC_SUSPENDED \<and>
        (\<forall>fuel. ScriptVM_exec example_clib fuel (Some sync_wait) s' = OutOfFuel)
    | _ \<Rightarrow> False)"
proof -
  obtain st s' where run: "ScriptVM_exec example_clib 20 (Some sync_wait) sync_vm = Returned (st, s')"
    and st: "st = VM_EXEC_SUSPENDED"
    and it: "case run_iterations example_clib 3 (exec_start sync_wait s') of
          Some l \<Rightarrow> spinning_check l | None \<Rightarrow> False"
    using sync_wait_run by (auto split: outcome.splits simp del: run_iterations.simps)
  have "exec_loop example_clib fuel (exec_start sync_wait s') = OutOfFuel" for fuel
    using it spinning_check run_then_spin by (auto split: option.splits)
  then show ?thesis
    using run st by (simp add: ScriptVM_exec_def sync_vm_def example_ctx_def example_vm_def)
qed

section \<open>Witnesses\<close>

lemma context_ok_create: "context_ok handlers (createExecContext handlers ni nr nu)"
  by (simp add: context_ok_def createExecContext_def new_ExecContext_def frames_sat_def)

lemma context_ok_example: "context_ok handlers (execCtx (example_ctx handlers s))"
  by (simp add: example_ctx_def context_ok_create)

lemma unsynced_example: "unsynced_context (execCtx (example_ctx handlers s))"
  by (simp add: example_stack unsynced_context_def frames_sat_def)

lemma assign_script_returns:
  "\<exists>st s'. ScriptVM_exec example_clib 9 (Some assign_script)
     (example_ctx [assign_script] example_vm) = Returned (st, s')"
proof -
  have "case ScriptVM_exec example_clib 9 (Some assign_script)
     (example_ctx [assign_script] example_vm) of Returned _ \<Rightarrow> True | _ \<Rightarrow> False"
    by code_simp
  then show ?thesis by (auto split: outcome.splits)
qed

theorem exec_no_stack_overflow_witness:
  "\<not> stack_overflow (exec_start endless_loop (example_ctx [endless_loop] example_vm))"
proof -
  have "loop_condition (exec_start endless_loop (example_ctx [endless_loop] example_vm))"
    by code_simp
  then show ?thesis
    using exec_no_stack_overflow [OF context_ok_example _ reach_start, of endless_loop "[endless_loop]"]
    by simp
qed

theorem exec_preserves_context_witness:
  "\<exists>st s'. ScriptVM_exec example_clib 9 (Some assign_script)
      (example_ctx [assign_script] example_vm) = Returned (st, s') \<and>
    context_ok [assign_script] (execCtx s')"
  using assign_script_returns exec_preserves_context [OF context_ok_example, of assign_script]
  by fastforce

theorem exec_terminates_witness:
  "ScriptVM_exec example_clib 212 (Some endless_loop) (example_ctx [endless_loop] example_vm) \<noteq> OutOfFuel"
  by (rule exec_terminates [OF context_ok_example _ unsynced_example])
    (simp_all add: endless_loop_def example_ctx_def example_vm_def)

theorem exec_instructions_bounded_witness:
  "\<exists>st s'. ScriptVM_exec example_clib 9 (Some assign_script)
      (example_ctx [assign_script] example_vm) = Returned (st, s') \<and>
    instructionsCount (execCtx s') \<le> 212"
proof -
  have "no_sync (Statements assign_script)" "m_autoSuspend (example_ctx [assign_script] example_vm)"
    by (simp_all add: assign_script_def example_ctx_def example_vm_def)
  moreover obtain st s' where "ScriptVM_exec example_clib 9 (Some assign_script)
      (example_ctx [assign_script] example_vm) = Returned (st, s')"
    using assign_script_returns by blast
  ultimately show ?thesis
    using exec_instructions_bounded [OF context_ok_example _ unsynced_example,
        of assign_script "[assign_script]"]
    by auto
qed

theorem exec_after_abort_witness:
  "\<exists>c. ScriptVM_exec example_clib 0 (Some endless_loop)
      (upd_ctx signalAbort (example_ctx [endless_loop] example_vm)) =
    Returned (VM_EXEC_NOT_RUNNING, (example_ctx [endless_loop] example_vm)\<lparr>execCtx := c\<rparr>)"
  using exec_after_abort [of "example_ctx [endless_loop] example_vm", OF example_stack(3)] by blast

theorem forkTo_resumes_witness:
  "context_ok [endless_loop] (forkTo (createExecContext [endless_loop] 1 1 1)
     (createExecContext [endless_loop] 1 1 1))"
  using forkTo_resumes [OF context_ok_create [of "[endless_loop]" 1 1 1],
      of "createExecContext [endless_loop] 1 1 1"]
  by simp

definition poly_decl :: VariableDecl where
  "poly_decl = \<lparr>vd_isPolyphonic = True, vd_isConst = False, vd_memPos = 0, vd_unitFactorMemPos = 0,
     vd_unitType = VM_SECOND, vd_isFinal = False\<rparr>"

theorem forkTo_loses_unit_factors_witness:
  "NumberVariable_unitFactor poly_decl (example_vm\<lparr>execCtx := forkTo
      ((createExecContext [] 1 0 1)\<lparr>polyphonicUnitFactorMemory := [Fin 1000]\<rparr>)
      (createExecContext [] 1 0 1)\<rparr>) = Some VM_NO_FACTOR"
  using forkTo_loses_unit_factors [of poly_decl "createExecContext [] 1 0 1"
      "(createExecContext [] 1 0 1)\<lparr>polyphonicUnitFactorMemory := [Fin 1000]\<rparr>" example_vm]
  by (simp add: poly_decl_def createExecContext_def NumberVariable_unitFactor_def)

end
