(* ===== verification/ScriptLoadProps.thy ===== *)
theory ScriptLoadProps
  imports ScriptLoad VMExec VMCells
begin

text \<open>
  Properties of loading a script: the issue lists, the slots that variables reserve, the memory
  allocated for them, the stack size, and the substitution of patch variables, which works backwards
  through the text and is shown to be the simultaneous replacement of all of them.
\<close>

section \<open>Issues\<close>

definition issues_ok :: "ParserContext \<Rightarrow> bool" where
  "issues_ok c \<longleftrightarrow> vErrors c = filter (\<lambda>i. issue_type i = PARSER_ERROR) (vIssues c) \<and>
     vWarnings c = filter (\<lambda>i. issue_type i = PARSER_WARNING) (vIssues c)"

text \<open>Recording issues keeps the three lists of the context consistent: the errors and the warnings
  are the issues of that type, in the order in which they were recorded.\<close>

theorem issues_consistent:
  "issues_ok new_ParserContext \<and>
    (issues_ok c \<longrightarrow> issues_ok (addErr b txt c) \<and> issues_ok (addWrn b txt c))"
  by (simp add: issues_ok_def new_ParserContext_def addErr_def addWrn_def Let_def ParserIssue.defs CodeBlock.defs)

section \<open>Slots\<close>

datatype var_declaration = Declare_int VariableDecl | Declare_real VariableDecl | Declare_string

fun declare_var :: "var_declaration \<Rightarrow> ParserContext \<Rightarrow> (expr \<times> ParserContext) option" where
  "declare_var (Declare_int d) c = do {
     (d, ctx) \<leftarrow> IntVariable_new d 1 (Some c); c \<leftarrow> ctx; Some (IntVariable d, c) }"
| "declare_var (Declare_real d) c = do {
     (d, ctx) \<leftarrow> RealVariable_new d 1 (Some c); c \<leftarrow> ctx; Some (RealVariable d, c) }"
| "declare_var Declare_string c = Some (StringVariable_new c)"

fun declare_all :: "var_declaration list \<Rightarrow> ParserContext \<Rightarrow> (expr list \<times> ParserContext) option" where
  "declare_all [] c = Some ([], c)"
| "declare_all (d # ds) c = do {
     (e, c) \<leftarrow> declare_var d c; (es, c) \<leftarrow> declare_all ds c; Some (e # es, c) }"

text \<open>The memory and position of a variable's value and of its unit factor, and the number of slots
  reserved in each memory.\<close>

datatype memory = Int_memory bool | Real_memory bool | Str_memory

fun value_slot :: "expr \<Rightarrow> (memory \<times> nat) option" where
  "value_slot (IntVariable d) = Some (Int_memory (vd_isPolyphonic d), vd_memPos d)"
| "value_slot (RealVariable d) = Some (Real_memory (vd_isPolyphonic d), vd_memPos d)"
| "value_slot (StringVariable p) = Some (Str_memory, p)"
| "value_slot _ = None"

fun unit_factor_slot :: "expr \<Rightarrow> (bool \<times> nat) option" where
  "unit_factor_slot (IntVariable d) = Some (vd_isPolyphonic d, vd_unitFactorMemPos d)"
| "unit_factor_slot (RealVariable d) = Some (vd_isPolyphonic d, vd_unitFactorMemPos d)"
| "unit_factor_slot _ = None"

fun memory_count :: "memory \<Rightarrow> ParserContext \<Rightarrow> nat" where
  "memory_count (Int_memory p) c = (if p then polyphonicIntVarCount c else globalIntVarCount c)"
| "memory_count (Real_memory p) c = (if p then polyphonicRealVarCount c else globalRealVarCount c)"
| "memory_count Str_memory c = globalStrVarCount c"

definition factor_count :: "bool \<Rightarrow> ParserContext \<Rightarrow> nat" where
  "factor_count p c = (if p then polyphonicUnitFactorCount c else globalUnitFactorCount c)"

text \<open>The slots of \<open>e\<close> were reserved between \<open>c\<close> and \<open>c'\<close>; two variables are separate when they share
  no slot.\<close>

definition reserved_between :: "ParserContext \<Rightarrow> ParserContext \<Rightarrow> expr \<Rightarrow> bool" where
  "reserved_between c c' e \<longleftrightarrow>
     (\<forall>m i. value_slot e = Some (m, i) \<longrightarrow> memory_count m c \<le> i \<and> i < memory_count m c') \<and>
     (\<forall>p i. unit_factor_slot e = Some (p, i) \<longrightarrow> factor_count p c \<le> i \<and> i < factor_count p c')"

definition separate :: "expr \<Rightarrow> expr \<Rightarrow> bool" where
  "separate e e' \<longleftrightarrow> (value_slot e \<noteq> None \<longrightarrow> value_slot e \<noteq> value_slot e') \<and>
     (unit_factor_slot e \<noteq> None \<longrightarrow> unit_factor_slot e \<noteq> unit_factor_slot e')"

definition counts_le :: "ParserContext \<Rightarrow> ParserContext \<Rightarrow> bool" where
  "counts_le c c' \<longleftrightarrow> (\<forall>m. memory_count m c \<le> memory_count m c') \<and>
     (\<forall>p. factor_count p c \<le> factor_count p c')"

lemma counts_le_refl [simp]: "counts_le c c"
  by (simp add: counts_le_def)

lemma counts_le_trans: "counts_le a b \<Longrightarrow> counts_le b c \<Longrightarrow> counts_le a c"
  unfolding counts_le_def by (meson le_trans)

lemma reserved_mono:
  "reserved_between b c e \<Longrightarrow> counts_le a b \<Longrightarrow> counts_le c d \<Longrightarrow> reserved_between a d e"
  unfolding counts_le_def reserved_between_def by (meson le_trans less_le_trans)

lemma separate_intervals:
  assumes "reserved_between a b e" and "reserved_between b c e'"
  shows "separate e e'"
  using assms unfolding separate_def reserved_between_def by (metis not_less option.exhaust surj_pair)

lemma declare_reserves:
  assumes "declare_var d c = Some (e, c')"
  shows "counts_le c c' \<and> reserved_between c c' e"
proof -
  have "memory_count m c \<le> memory_count m c'" for m
    using assms by (cases d; cases m) (auto simp: IntVariable_new_def RealVariable_new_def
        StringVariable_new_def reserve_int_def reserve_real_def reserve_factor_def postfixInc_def split: if_splits)
  moreover have "factor_count p c \<le> factor_count p c'" for p
    using assms by (cases d) (auto simp: IntVariable_new_def RealVariable_new_def
        StringVariable_new_def reserve_int_def reserve_real_def reserve_factor_def postfixInc_def
        factor_count_def split: if_splits)
  moreover have "reserved_between c c' e"
    using assms by (cases d) (auto simp: IntVariable_new_def RealVariable_new_def reserved_between_def
        StringVariable_new_def reserve_int_def reserve_real_def reserve_factor_def postfixInc_def
        factor_count_def split: if_splits)
  ultimately show ?thesis by (simp add: counts_le_def)
qed

lemma declare_all_reserves:
  "declare_all ds c = Some (es, c') \<Longrightarrow>
    counts_le c c' \<and> (\<forall>e \<in> set es. reserved_between c c' e) \<and> sorted_wrt separate es"
proof (induction ds arbitrary: c es)
  case (Cons d ds)
  then obtain e c1 es1 where d: "declare_var d c = Some (e, c1)" "declare_all ds c1 = Some (es1, c')"
    "es = e # es1" by (auto simp: bind_elims)
  note head = declare_reserves [OF d(1)] and tail = Cons.IH [OF d(2)]
  have "separate e e'" if "e' \<in> set es1" for e'
    using separate_intervals [of c c1 e c' e'] head tail that by blast
  moreover have "reserved_between c c' e" "\<And>e'. e' \<in> set es1 \<Longrightarrow> reserved_between c c' e'"
    using reserved_mono [OF _ counts_le_refl, of c c1 e c'] reserved_mono [OF _ _ counts_le_refl, of c1 c' _ c]
      head tail by blast+
  ultimately show ?case
    using d(3) tail counts_le_trans [of c c1 c'] head by auto
qed simp

lemma createExecContext_memories:
  assumes "ScriptVM_createExecContext c = Some (ctx, c')"
  shows "length (polyphonicIntMemory ctx) = polyphonicIntVarCount c"
    "length (polyphonicRealMemory ctx) = polyphonicRealVarCount c"
    "length (polyphonicUnitFactorMemory ctx) = polyphonicUnitFactorCount c"
  using assms by (auto simp: ScriptVM_createExecContext_def cache_stack_size_def split: if_splits option.splits)

text \<open>C27: Variables that are declared one after the other have slots of their own, in the memory of
  values and in the memory of unit factors, and the memories that are allocated after parsing are large
  enough for all of them.\<close>

theorem declared_variables_have_slots:
  assumes "declare_all ds new_ParserContext = Some (es, c0)"
    and "c = c0\<lparr>handlers := Some hs\<rparr>"
    and "ScriptVM_createExecContext c = Some (ctx, c')"
    and "t = (allocate_globals c s)\<lparr>execCtx := ctx\<rparr>"
  shows "sorted_wrt separate es \<and>
    (\<forall>d. IntVariable d \<in> set es \<longrightarrow> int_slot d t \<and> factor_slot d t) \<and>
    (\<forall>d. RealVariable d \<in> set es \<longrightarrow> real_slot d t \<and> factor_slot d t) \<and>
    (\<forall>p. StringVariable p \<in> set es \<longrightarrow> p < length (globalStrMemory t))"
proof -
  note m = createExecContext_memories [OF assms(3)]
  have r: "\<And>e. e \<in> set es \<Longrightarrow> reserved_between new_ParserContext c0 e" "sorted_wrt separate es"
    using declare_all_reserves [OF assms(1)] by auto
  have "IntVariable d \<in> set es \<Longrightarrow> int_slot d t \<and> factor_slot d t" for d
    using r(1) [of "IntVariable d"] m by (auto simp: assms(2,4) allocate_globals_def
        int_slot_def factor_slot_def reserved_between_def factor_count_def split: if_splits)
  moreover have "RealVariable d \<in> set es \<Longrightarrow> real_slot d t \<and> factor_slot d t" for d
    using r(1) [of "RealVariable d"] m by (auto simp: assms(2,4) allocate_globals_def
        real_slot_def factor_slot_def reserved_between_def factor_count_def split: if_splits)
  moreover have "StringVariable p \<in> set es \<Longrightarrow> p < length (globalStrMemory t)" for p
    using r(1) [of "StringVariable p"] by (simp add: assms(2,4) allocate_globals_def reserved_between_def)
  ultimately show ?thesis using r(2) by blast
qed

section \<open>Execution contexts\<close>

text \<open>C26: The execution context created for a script can execute every handler of it without
  overflowing its stack, the first one as well as those created later from the cached size.\<close>

theorem created_context_ok:
  assumes "handlers c = Some hs"
    and "requiredMaxStackSize c < 0 \<or>
      requiredMaxStackSize c = int (requiredMaxStackSizeForHandlers (handler_bodies hs))"
  shows "\<exists>ctx c'. ScriptVM_createExecContext c = Some (ctx, c') \<and> context_ok (handler_bodies hs) ctx \<and>
    ScriptVM_createExecContext c' = Some (ctx, c')"
proof -
  let ?c = "c\<lparr>requiredMaxStackSize := int (requiredMaxStackSizeForHandlers (handler_bodies hs))\<rparr>"
  have "ScriptVM_createExecContext c = Some (createExecContext (handler_bodies hs)
      (polyphonicIntVarCount c) (polyphonicRealVarCount c) (polyphonicUnitFactorCount c), ?c)"
    using assms by (auto simp: ScriptVM_createExecContext_def cache_stack_size_def createExecContext_def)
  moreover have "ScriptVM_createExecContext ?c = Some (createExecContext (handler_bodies hs)
      (polyphonicIntVarCount c) (polyphonicRealVarCount c) (polyphonicUnitFactorCount c), ?c)"
    by (simp add: ScriptVM_createExecContext_def cache_stack_size_def createExecContext_def)
  ultimately show ?thesis using context_ok_create by blast
qed

section \<open>Patch variables\<close>

text \<open>The specification: a list of edits (position, length, replacement), in the order of their
  positions, applied to the text from left to right, where \<open>i\<close> is the position reached.\<close>

fun splice :: "int \<Rightarrow> (int \<times> int \<times> string) list \<Rightarrow> string \<Rightarrow> string" where
  "splice i [] s = drop (nat i) s"
| "splice i ((p, l, v) # es) s = take (nat (p - i)) (drop (nat i) s) @ v @ splice (p + l) es s"

fun edits_ok :: "int \<Rightarrow> (int \<times> int \<times> string) list \<Rightarrow> int \<Rightarrow> bool" where
  "edits_ok i [] n \<longleftrightarrow> i \<le> n"
| "edits_ok i ((p, l, v) # es) n \<longleftrightarrow> i \<le> p \<and> 0 \<le> l \<and> edits_ok (p + l) es n"

fun patch_edits :: "(string \<rightharpoonup> string) \<Rightarrow> (int \<times> string \<times> PatchVarBlock) list \<Rightarrow> (int \<times> int \<times> string) list" where
  "patch_edits vals [] = []"
| "patch_edits vals ((p, name, block) # vars) = (case vals name of None \<Rightarrow> patch_edits vals vars
     | Some v \<Rightarrow> (p, patch_length block, patch_value v block) # patch_edits vals vars)"

lemma edits_ok_le: "edits_ok i es n \<Longrightarrow> i \<le> n"
  by (induction i es n rule: edits_ok.induct) auto

lemma edits_ok_start: "edits_ok j es n \<Longrightarrow> i \<le> j \<Longrightarrow> edits_ok i es n"
  by (cases es) auto

lemma splice_skip:
  assumes "edits_ok j es (int (length s))" and "0 \<le> i" and "i \<le> j"
  shows "splice i es s = take (nat (j - i)) (drop (nat i) s) @ splice j es s"
proof (cases es)
  case Nil
  have "drop (nat j) s = drop (nat (j - i)) (drop (nat i) s)"
    using assms(2,3) by (simp add: nat_diff_distrib)
  then show ?thesis using Nil by (simp only: splice.simps append_take_drop_id)
next
  case (Cons e r)
  obtain p l v where e: "e = (p, l, v)" by (cases e)
  have p: "j \<le> p" using assms(1) Cons e by simp
  have "take (nat (p - i)) (drop (nat i) s) =
      take (nat (j - i)) (drop (nat i) s) @ take (nat (p - j)) (drop (nat j) s)"
  proof -
    have "nat (p - i) = nat (j - i) + nat (p - j)" "nat (j - i) + nat i = nat j"
      using assms(2,3) p by linarith+
    then show ?thesis by (simp only: take_add drop_drop)
  qed
  then show ?thesis using Cons e by simp
qed

lemma substitute_append:
  "substitute vals (xs @ ys) s = Option.bind (substitute vals xs s) (substitute vals ys)"
  by (induction vals xs s rule: substitute.induct) (auto split: option.splits bind_splits)

lemma substitute_splice:
  "edits_ok 0 (patch_edits vals vars) (int (length s)) \<Longrightarrow>
    substitute vals (rev vars) s = Some (splice 0 (patch_edits vals vars) s)"
proof (induction vars)
  case (Cons x xs)
  obtain p name block where x: "x = (p, name, block)" by (cases x)
  show ?case
  proof (cases "vals name")
    case None
    with Cons x show ?thesis by (simp add: substitute_append)
  next
    case (Some v)
    let ?E = "patch_edits vals xs" and ?l = "patch_length block"
    have ok: "0 \<le> p" "0 \<le> ?l" "edits_ok (p + ?l) ?E (int (length s))"
      using Cons.prems x Some by auto
    then have le: "p + ?l \<le> int (length s)" using edits_ok_le by blast
    have IH: "substitute vals (rev xs) s = Some (splice 0 ?E s)"
      using Cons.IH edits_ok_start [OF ok(3)] ok by simp
    have "splice 0 ?E s = take (nat (p + ?l)) s @ splice (p + ?l) ?E s"
      using splice_skip [OF ok(3), of 0] ok by simp
    then show ?thesis
      using x Some IH ok le
      by (simp add: substitute_append str_replace_def min_absorb1 min_absorb2 nat_add_distrib)
  qed
qed simp

text \<open>C28: Loading a script with values for its patch variables parses the text in which all variables are
  replaced at once: the positions are those of the original text, although the code replaces one variable
  after the other.\<close>

theorem loadScript_substitutes:
  assumes "vErrors (onePass s) = []" and "patchVars (onePass s) \<noteq> []" and "vals \<noteq> []"
    and "edits_ok 0 (patch_edits (map_of vals) (vars_by_pos (patchVars (onePass s)))) (int (length s))"
  shows "loadScript onePass s vals None =
    Some (onePass (splice 0 (patch_edits (map_of vals) (vars_by_pos (patchVars (onePass s)))) s), None)"
  using assms by (auto simp: loadScript_def Let_def substitute_splice)

text \<open>The default value of a variable is the text of its initial expression; giving every variable its
  default value leaves the script as it is.\<close>

lemma collect_patch_vars_by_pos:
  "collect_patch_vars s vars m d = Some (m', d') \<Longrightarrow>
    m' = fold (\<lambda>(n, b). map_put (patch_pos b) (n, b)) vars m"
  by (induction vars arbitrary: m d) (auto simp: bind_elims)

lemma set_map_put: "set (map_put k v m) \<subseteq> insert (k, v) (set m)"
  by (induction k v m rule: map_put.induct) auto

lemma collect_patch_defaults:
  "collect_patch_vars s vars m d = Some (m', d') \<Longrightarrow> distinct (map fst vars) \<Longrightarrow>
    (\<forall>(n, b) \<in> set vars. patch_default s b = d' n) \<and>
    (\<forall>n. n \<notin> fst ` set vars \<longrightarrow> d' n = d n) \<and>
    (\<forall>(p, n, b) \<in> set m'. (p, n, b) \<in> set m \<or> (n, b) \<in> set vars \<and> p = patch_pos b)"
proof (induction vars arbitrary: m d)
  case (Cons x vars)
  obtain n b where x: "x = (n, b)" by (cases x)
  obtain v where v: "patch_default s b = Some v"
    "collect_patch_vars s vars (map_put (patch_pos b) (n, b) m) (d(n \<mapsto> v)) = Some (m', d')"
    using Cons.prems(1) x by (auto simp: bind_elims)
  have dist: "distinct (map fst vars)" "n \<notin> fst ` set vars" using Cons.prems(2) x by auto
  note IH = Cons.IH [OF v(2) dist(1)]
  have "d' n = Some v" using IH dist(2) by auto
  moreover have "(q, k, c) \<in> set m \<or> (k, c) \<in> set (x # vars) \<and> q = patch_pos c" if "(q, k, c) \<in> set m'" for q k c
    using IH that set_map_put [of "patch_pos b" "(n, b)" m] x by fastforce
  ultimately show ?case using IH v(1) x by fastforce
qed auto

lemma splice_identity:
  "edits_ok i es (int (length s)) \<Longrightarrow> 0 \<le> i \<Longrightarrow>
    \<forall>(p, l, v) \<in> set es. v = take (nat l) (drop (nat p) s) \<Longrightarrow> splice i es s = drop (nat i) s"
proof (induction es arbitrary: i)
  case (Cons e es)
  obtain p l v where e: "e = (p, l, v)" by (cases e)
  have ok: "i \<le> p" "0 \<le> l" "edits_ok (p + l) es (int (length s))" using Cons.prems(1) e by auto
  have IH: "splice (p + l) es s = drop (nat (p + l)) s"
    using Cons.IH [OF ok(3)] ok Cons.prems(2,3) by simp
  have "nat p + nat l = nat (p + l)" "nat (p - i) + nat i = nat p" using ok Cons.prems(2) by linarith+
  then have "drop (nat p) s = drop (nat (p - i)) (drop (nat i) s)"
    "drop (nat (p + l)) s = drop (nat l) (drop (nat p) s)"
    by (simp_all only: drop_drop add.commute)
  moreover have "v = take (nat l) (drop (nat p) s)" using Cons.prems(3) e by simp
  ultimately have "v @ drop (nat (p + l)) s = drop (nat (p - i)) (drop (nat i) s)"
    by (simp only: append_take_drop_id)
  then show ?case using e IH by (simp only: splice.simps append_take_drop_id)
qed simp

lemma set_patch_edits:
  "(p, l, v) \<in> set (patch_edits vals vars) \<Longrightarrow>
    \<exists>n b w. (p, n, b) \<in> set vars \<and> vals n = Some w \<and> l = patch_length b \<and> v = patch_value w b"
  by (induction vals vars rule: patch_edits.induct) (auto split: option.splits)

text \<open>The default values that loading a script reports for its patch variables are the script's own
  text: loading it again with these values parses the same text.\<close>

theorem default_patch_values_roundtrip:
  assumes "vErrors (onePass s) = []" and "distinct (map fst (patchVars (onePass s)))"
    and "\<forall>(n, b) \<in> set (patchVars (onePass s)). 0 < patch_length b"
    and "patchVars (onePass s) \<noteq> []" and "vals \<noteq> []"
    and "loadScript onePass s [] (Some Map.empty) = Some (c, Some (map_of vals))"
    and "edits_ok 0 (patch_edits (map_of vals) (vars_by_pos (patchVars (onePass s)))) (int (length s))"
  shows "loadScript onePass s vals None = Some (onePass s, None)"
proof -
  let ?vars = "patchVars (onePass s)" and ?E = "patch_edits (map_of vals) (vars_by_pos (patchVars (onePass s)))"
  obtain m where col: "collect_patch_vars s ?vars [] Map.empty = Some (m, map_of vals)"
    using assms(1,4,6) by (auto simp: loadScript_def Let_def bind_elims)
  have m: "m = vars_by_pos ?vars"
    using collect_patch_vars_by_pos [OF col] by (simp add: vars_by_pos_def)
  note defaults = collect_patch_defaults [OF col assms(2)]
  have "v = take (nat l) (drop (nat p) s)" if pv: "(p, l, v) \<in> set ?E" for p l v
  proof -
    obtain n b w where b: "(p, n, b) \<in> set m" "map_of vals n = Some w" "l = patch_length b"
      "v = patch_value w b" using set_patch_edits [OF pv] m by blast
    then have nb: "(n, b) \<in> set ?vars" "p = patch_pos b" using defaults by auto
    then have "patch_default s b = Some w" "0 < patch_length b" using defaults b(2) assms(3) by auto
    with b(3,4) nb(2) show ?thesis
      by (auto simp: patch_default_def patch_length_def patch_value_def str_substr_def Let_def
          split: option.splits if_splits)
  qed
  then have "splice 0 ?E s = s" using splice_identity [OF assms(7)] by auto
  with loadScript_substitutes [of onePass s vals] assms show ?thesis by simp
qed

section \<open>Conditions and functions\<close>

text \<open>Setting a preprocessor condition makes it set, resetting makes it unset unless it is built in;
  both report whether they changed anything, and neither touches another condition.\<close>

theorem preprocessor_conditions:
  "setPreprocessorCondition n c = (\<not> isPreprocessorConditionSet n c, snd (setPreprocessorCondition n c)) \<and>
    isPreprocessorConditionSet n (snd (setPreprocessorCondition n c)) \<and>
    isPreprocessorConditionSet n (snd (resetPreprocessorCondition n c)) = (n \<in> builtinPreprocessorConditions c) \<and>
    fst (resetPreprocessorCondition n c) =
      (isPreprocessorConditionSet n c \<and> n \<notin> builtinPreprocessorConditions c) \<and>
    (m \<noteq> n \<longrightarrow>
      isPreprocessorConditionSet m (snd (setPreprocessorCondition n c)) = isPreprocessorConditionSet m c \<and>
      isPreprocessorConditionSet m (snd (resetPreprocessorCondition n c)) = isPreprocessorConditionSet m c)"
  by (auto simp: setPreprocessorCondition_def resetPreprocessorCondition_def isPreprocessorConditionSet_def)

lemma function_names: "\<exists>name. functionByName name = Some f"
proof -
  let ?names = "[''message'', ''exit'', ''wait'', ''abs'', ''random'', ''num_elements'', ''inc'', ''dec'',
    ''in_range'', ''sh_left'', ''sh_right'', ''msb'', ''lsb'', ''min'', ''max'', ''array_equal'', ''search'',
    ''sort'', ''real'', ''int'', ''round'', ''ceil'', ''floor'', ''sqrt'', ''log'', ''log2'', ''log10'', ''exp'',
    ''pow'', ''sin'', ''cos'', ''tan'', ''asin'', ''acos'', ''atan'']"
  have "Some f \<in> set (map functionByName ?names)"
    by (cases f) (simp_all add: functionByName_def)
  then show ?thesis by auto
qed

section \<open>Concrete inputs\<close>

theorem issues_consistent_witness:
  "issues_ok (addErr \<lparr>firstLine = 1, lastLine = 1, firstColumn = 1, lastColumn = 2, firstByte = 0,
     lengthBytes = 2\<rparr> ''error'' new_ParserContext)"
  using issues_consistent [of new_ParserContext] by simp

definition decl_int :: "bool \<Rightarrow> var_declaration" where
  "decl_int poly = Declare_int \<lparr>vd_isPolyphonic = poly, vd_isConst = False, vd_memPos = 0,
     vd_unitFactorMemPos = 0, vd_unitType = VM_NO_UNIT, vd_isFinal = False\<rparr>"

theorem declared_variables_have_slots_witness:
  "\<exists>es c ctx c'. declare_all [decl_int False, decl_int True, decl_int False] new_ParserContext = Some (es, c) \<and>
    ScriptVM_createExecContext (c\<lparr>handlers := Some []\<rparr>) = Some (ctx, c') \<and>
    length es = 3 \<and> sorted_wrt separate es"
proof -
  have "\<exists>es c ctx c'. declare_all [decl_int False, decl_int True, decl_int False] new_ParserContext = Some (es, c) \<and>
      ScriptVM_createExecContext (c\<lparr>handlers := Some []\<rparr>) = Some (ctx, c') \<and> length es = 3"
    by (simp add: decl_int_def IntVariable_new_def reserve_int_def reserve_factor_def postfixInc_def
        new_ParserContext_def ScriptVM_createExecContext_def cache_stack_size_def)
  then show ?thesis using declared_variables_have_slots [OF _ refl _ refl] by blast
qed

theorem created_context_ok_witness:
  "\<exists>ctx c'. ScriptVM_createExecContext
      (new_ParserContext\<lparr>handlers := Some [(VM_EVENT_HANDLER_NOTE, endless_loop)]\<rparr>) = Some (ctx, c') \<and>
    context_ok [endless_loop] ctx"
  using created_context_ok [of "new_ParserContext\<lparr>handlers := Some [(VM_EVENT_HANDLER_NOTE, endless_loop)]\<rparr>"
      "[(VM_EVENT_HANDLER_NOTE, endless_loop)]"]
  by (auto simp: new_ParserContext_def handler_bodies_def)

definition patch_block :: "int \<Rightarrow> PatchVarBlock" where
  "patch_block pos = (let b = \<lparr>firstLine = 1, lastLine = 1, firstColumn = 1, lastColumn = 1,
       firstByte = pos, lengthBytes = 1\<rparr> in \<lparr>nameBlock = b, exprBlock = Some b\<rparr>)"

definition patch_parser :: "string \<Rightarrow> ParserContext" where
  "patch_parser s = new_ParserContext\<lparr>patchVars := [(''$x'', patch_block 5), (''$y'', patch_block 2)]\<rparr>"

lemma patch_parser_simps:
  "vErrors (patch_parser s) = []" "patchVars (patch_parser s) = [(''$x'', patch_block 5), (''$y'', patch_block 2)]"
  "vars_by_pos [(''$x'', patch_block 5), (''$y'', patch_block 2)] = [(2, ''$y'', patch_block 2), (5, ''$x'', patch_block 5)]"
  "patch_length (patch_block p) = 1" "patch_value v (patch_block p) = v"
  by (simp_all add: patch_parser_def new_ParserContext_def vars_by_pos_def patch_pos_def patch_block_def
      patch_length_def patch_value_def Let_def)

theorem loadScript_substitutes_witness:
  "loadScript patch_parser ''ab1cd2'' [(''$x'', ''10''), (''$y'', ''7'')] None =
    Some (patch_parser ''ab7cd10'', None)"
proof -
  let ?vals = "[(''$x'', ''10''), (''$y'', ''7'')]"
  have e: "patch_edits (map_of ?vals) (vars_by_pos (patchVars (patch_parser ''ab1cd2''))) =
      [(2, 1, ''7''), (5, 1, ''10'')]"
    by (simp add: patch_parser_simps)
  show ?thesis
    using loadScript_substitutes [of patch_parser "''ab1cd2''" ?vals, unfolded e]
    by (simp add: patch_parser_simps numeral_eq_Suc)
qed

theorem default_patch_values_roundtrip_witness:
  "loadScript patch_parser ''ab1cd2'' [(''$y'', ''1''), (''$x'', ''2'')] None =
    Some (patch_parser ''ab1cd2'', None)"
proof -
  let ?vals = "[(''$y'', ''1''), (''$x'', ''2'')]"
  have e: "patch_edits (map_of ?vals) (vars_by_pos (patchVars (patch_parser ''ab1cd2''))) =
      [(2, 1, ''1''), (5, 1, ''2'')]"
    by (simp add: patch_parser_simps)
  have "loadScript patch_parser ''ab1cd2'' [] (Some Map.empty) =
      Some (patch_parser ''ab1cd2'', Some (map_of ?vals))"
    by (simp add: loadScript_def Let_def patch_parser_simps patch_default_def str_substr_def)
      (simp add: patch_block_def patch_pos_def Let_def str_substr_def fun_upd_twist drop_Cons' take_Cons')
  then show ?thesis
    using default_patch_values_roundtrip [of patch_parser "''ab1cd2''" ?vals] e
    by (simp add: patch_parser_simps)
qed

theorem preprocessor_conditions_witness:
  "isPreprocessorConditionSet ''B'' (snd (setPreprocessorCondition ''A'' new_ParserContext)) =
   isPreprocessorConditionSet ''B'' new_ParserContext"
  using preprocessor_conditions [of "''A''" new_ParserContext "''B''"] by simp

end
