(* ===== verification/RingBuffer.thy ===== *)
theory RingBuffer
  imports Prelude
begin

text \<open>
  The ring buffer between one writing and one reading thread, \<open>src/src/common/RingBuffer.h\<close>. An
  object of the class is a record of its members; the elements beyond \<open>size\<close> are the wrap space,
  which the disk streams need for interpolation. The indices are \<open>int\<close>: the class keeps them far
  from the ends of the C++ type, and \<open>alloc_power\<close> is \<open>None\<close> where it could not. Copying outside of
  an array is \<open>None\<close>.
\<close>

section \<open>The class\<close>

record 'a RingBuffer =
  rb_buf :: "'a list"
  rb_size :: int
  rb_wrap_elements :: int
  rb_write_ptr :: int
  rb_read_ptr :: int
  rb_size_mask :: int

text \<open>
  \<open>copy(pDst, pSrc, n)\<close> for a destination and a source inside of arrays. With a negative count the
  loop of the deep copy does nothing, and \<open>memcpy\<close> takes it for a huge one.
\<close>

definition copy :: "bool \<Rightarrow> 'a list \<Rightarrow> int \<Rightarrow> 'a list \<Rightarrow> int \<Rightarrow> int \<Rightarrow> 'a list option" where
  "copy T_DEEP_COPY dst i src j n =
     (if n \<le> 0 then (if n = 0 \<or> T_DEEP_COPY then Some dst else None)
      else if 0 \<le> i \<and> 0 \<le> j \<and> i + n \<le> int (length dst) \<and> j + n \<le> int (length src)
      then Some (take (nat i) dst @ take (nat n) (drop (nat j) src) @ drop (nat (i + n)) dst)
      else None)"

text \<open>\<open>memset\<close> to zero of \<open>n\<close> elements; a negative count is a huge one.\<close>

definition fill_zero :: "'a \<Rightarrow> 'a list \<Rightarrow> int \<Rightarrow> int \<Rightarrow> 'a list option" where
  "fill_zero zero dst i n = copy False dst i (replicate (nat n) zero) 0 n"

section \<open>Allocation\<close>

text \<open>The loop that looks for a power of two; \<open>1 << 31\<close> is not a positive number any more.\<close>

function alloc_power :: "nat \<Rightarrow> int \<Rightarrow> nat option" where
  "alloc_power k sz =
     (if 31 \<le> k then None else if 2 ^ k < sz then alloc_power (k + 1) sz else Some k)"
  by pat_completeness auto
termination
  by (relation "measure (\<lambda>(k, _). 31 - k)") auto

declare alloc_power.simps [simp del]

text \<open>\<open>mem\<close> is what the new elements contain.\<close>

definition allocBuffer :: "(nat \<Rightarrow> 'a) \<Rightarrow> int \<Rightarrow> int \<Rightarrow> 'a RingBuffer \<Rightarrow> 'a RingBuffer option" where
  "allocBuffer mem sz wrap_elements rb = do {
     k \<leftarrow> alloc_power 1 (sz + wrap_elements);
     Some (rb\<lparr>rb_wrap_elements := wrap_elements, rb_size := 2 ^ k, rb_size_mask := 2 ^ k - 1,
              rb_buf := map mem [0..<nat (2 ^ k + wrap_elements)]\<rparr>) }"

definition RingBuffer_new :: "(nat \<Rightarrow> 'a) \<Rightarrow> int \<Rightarrow> int \<Rightarrow> 'a RingBuffer option" where
  "RingBuffer_new mem sz wrap_elements = allocBuffer mem sz wrap_elements
     \<lparr>rb_buf = [], rb_size = 0, rb_wrap_elements = 0, rb_write_ptr = 0, rb_read_ptr = 0,
      rb_size_mask = 0\<rparr>"

definition RingBuffer_resize :: "(nat \<Rightarrow> 'a) \<Rightarrow> int \<Rightarrow> int \<Rightarrow> 'a RingBuffer \<Rightarrow> 'a RingBuffer option" where
  "RingBuffer_resize mem sz wrap_elements rb =
     allocBuffer mem sz (if wrap_elements = - 1 then rb_wrap_elements rb else wrap_elements) rb"

definition RingBuffer_init :: "'a RingBuffer \<Rightarrow> 'a RingBuffer" where
  "RingBuffer_init rb = rb\<lparr>rb_write_ptr := 0, rb_read_ptr := 0\<rparr>"

section \<open>Space\<close>

definition write_space :: "'a RingBuffer \<Rightarrow> int" where
  "write_space rb = (let w = rb_write_ptr rb; r = rb_read_ptr rb in
     if r < w then ((r - w + rb_size rb) AND rb_size_mask rb) - 1
     else if w < r then (r - w) - 1
     else rb_size rb - 1)"

definition read_space :: "'a RingBuffer \<Rightarrow> int" where
  "read_space rb = (let w = rb_write_ptr rb; r = rb_read_ptr rb in
     if r \<le> w then w - r else (w - r + rb_size rb) AND rb_size_mask rb)"

definition write_space_to_end :: "'a RingBuffer \<Rightarrow> int" where
  "write_space_to_end rb = (let w = rb_write_ptr rb; r = rb_read_ptr rb in
     if w < r then r - w - 1 else if r \<noteq> 0 then rb_size rb - w else rb_size rb - w - 1)"

definition read_space_to_end :: "'a RingBuffer \<Rightarrow> int" where
  "read_space_to_end rb = (let w = rb_write_ptr rb; r = rb_read_ptr rb in
     if r \<le> w then w - r else rb_size rb - r)"

definition write_space_to_end_with_wrap :: "'a RingBuffer \<Rightarrow> int" where
  "write_space_to_end_with_wrap rb = (let w = rb_write_ptr rb; r = rb_read_ptr rb in
     if w < r then r - w - 1
     else if r \<le> rb_wrap_elements rb then rb_size rb - w - 1
     else if r \<noteq> 0 then rb_size rb - w + rb_wrap_elements rb
     else rb_size rb - w - 1 + rb_wrap_elements rb)"

definition adjust_write_space_to_avoid_boundary :: "int \<Rightarrow> int \<Rightarrow> 'a RingBuffer \<Rightarrow> int" where
  "adjust_write_space_to_avoid_boundary cnt capped_cnt rb = (let w = rb_write_ptr rb in
     if rb_size rb \<le> w + capped_cnt \<and> w + capped_cnt < rb_size rb + rb_wrap_elements rb then cnt
     else capped_cnt)"

section \<open>Positions\<close>

definition increment_read_ptr :: "int \<Rightarrow> 'a RingBuffer \<Rightarrow> 'a RingBuffer" where
  "increment_read_ptr cnt rb = rb\<lparr>rb_read_ptr := (rb_read_ptr rb + cnt) AND rb_size_mask rb\<rparr>"

definition set_read_ptr :: "int \<Rightarrow> 'a RingBuffer \<Rightarrow> 'a RingBuffer" where
  "set_read_ptr val rb = rb\<lparr>rb_read_ptr := val\<rparr>"

definition increment_write_ptr :: "int \<Rightarrow> 'a RingBuffer \<Rightarrow> 'a RingBuffer" where
  "increment_write_ptr cnt rb = rb\<lparr>rb_write_ptr := (rb_write_ptr rb + cnt) AND rb_size_mask rb\<rparr>"

definition increment_write_ptr_with_wrap :: "bool \<Rightarrow> int \<Rightarrow> 'a RingBuffer \<Rightarrow> 'a RingBuffer option" where
  "increment_write_ptr_with_wrap deep cnt rb =
     (let w = rb_write_ptr rb + cnt in
      if rb_size rb \<le> w then do {
        let w = w - rb_size rb;
        buf \<leftarrow> copy deep (rb_buf rb) 0 (rb_buf rb) (rb_size rb) w;
        Some (rb\<lparr>rb_buf := buf, rb_write_ptr := w\<rparr>) }
      else Some (rb\<lparr>rb_write_ptr := w\<rparr>))"

section \<open>Reading and writing\<close>

text \<open>
  The number of elements up to the end of the buffer and after it, which reading and writing have in
  common: \<open>pos\<close> is the private copy of the pointer and \<open>n\<close> the number of elements to transfer.
\<close>

definition split_transfer :: "'a RingBuffer \<Rightarrow> int \<Rightarrow> int \<Rightarrow> int \<times> int" where
  "split_transfer rb pos n = (let cnt2 = pos + n in
     if rb_size rb < cnt2 then (rb_size rb - pos, cnt2 AND rb_size_mask rb) else (n, 0))"

definition next_pos :: "'a RingBuffer \<Rightarrow> int \<Rightarrow> int \<Rightarrow> int \<Rightarrow> int" where
  "next_pos rb pos n1 n2 = (if n2 \<noteq> 0 then n2 else (pos + n1) AND rb_size_mask rb)"

definition read_from :: "bool \<Rightarrow> 'a RingBuffer \<Rightarrow> int \<Rightarrow> 'a list \<Rightarrow> int \<Rightarrow> ('a list \<times> int) option" where
  "read_from deep rb pos dest to_read = do {
     let (n1, n2) = split_transfer rb pos to_read;
     dest \<leftarrow> copy deep dest 0 (rb_buf rb) pos n1;
     dest \<leftarrow> (if n2 \<noteq> 0 then copy deep dest n1 (rb_buf rb) 0 n2 else Some dest);
     Some (dest, next_pos rb pos n1 n2) }"

definition RingBuffer_read :: "bool \<Rightarrow> 'a list \<Rightarrow> int \<Rightarrow> 'a RingBuffer \<Rightarrow>
    (int \<times> 'a list \<times> 'a RingBuffer) option" where
  "RingBuffer_read deep dest cnt rb =
     (let free_cnt = read_space rb in
      if free_cnt = 0 then Some (0, dest, rb)
      else do {
        let to_read = (if free_cnt < cnt then free_cnt else cnt);
        (dest, r) \<leftarrow> read_from deep rb (rb_read_ptr rb) dest to_read;
        Some (to_read, dest, rb\<lparr>rb_read_ptr := r\<rparr>) })"

definition RingBuffer_write :: "bool \<Rightarrow> 'a list \<Rightarrow> int \<Rightarrow> 'a RingBuffer \<Rightarrow> (int \<times> 'a RingBuffer) option" where
  "RingBuffer_write deep src cnt rb =
     (let free_cnt = write_space rb in
      if free_cnt = 0 then Some (0, rb)
      else do {
        let to_write = (if free_cnt < cnt then free_cnt else cnt);
        let pos = rb_write_ptr rb;
        let (n1, n2) = split_transfer rb pos to_write;
        buf \<leftarrow> copy deep (rb_buf rb) pos src 0 n1;
        buf \<leftarrow> (if n2 \<noteq> 0 then copy deep buf 0 src n1 n2 else Some buf);
        Some (to_write, rb\<lparr>rb_buf := buf, rb_write_ptr := next_pos rb pos n1 n2\<rparr>) })"

definition RingBuffer_push :: "bool \<Rightarrow> 'a \<Rightarrow> 'a RingBuffer \<Rightarrow> (int \<times> 'a RingBuffer) option" where
  "RingBuffer_push deep x rb = RingBuffer_write deep [x] 1 rb"

definition RingBuffer_pop :: "bool \<Rightarrow> 'a \<Rightarrow> 'a RingBuffer \<Rightarrow> (int \<times> 'a \<times> 'a RingBuffer) option" where
  \<comment> \<open>\<open>dst\<close> is what the variable of the caller contains before\<close>
  "RingBuffer_pop deep dst rb = do {
     (n, dest, rb) \<leftarrow> RingBuffer_read deep [dst] 1 rb;
     x \<leftarrow> nth_opt dest 0;
     Some (n, x, rb) }"

definition fill_write_space_with_null :: "'a \<Rightarrow> 'a RingBuffer \<Rightarrow> 'a RingBuffer option" where
  "fill_write_space_with_null zero rb = do {
     let w = rb_write_ptr rb;
     let r = rb_read_ptr rb;
     buf \<leftarrow> fill_zero zero (rb_buf rb) w (write_space_to_end rb);
     buf \<leftarrow> (if r \<noteq> 0 \<and> r \<le> w then fill_zero zero buf 0 (r - 1) else Some buf);
     buf \<leftarrow> (if rb_wrap_elements rb \<noteq> 0
            then fill_zero zero buf (rb_size rb) (rb_wrap_elements rb) else Some buf);
     Some (rb\<lparr>rb_buf := buf\<rparr>) }"

section \<open>Reading without freeing\<close>

text \<open>\<open>_NonVolatileReader\<close>: a read position of its own, which \<open>free()\<close> publishes.\<close>

definition NonVolatileReader_new :: "'a RingBuffer \<Rightarrow> int" where
  "NonVolatileReader_new rb = rb_read_ptr rb"

definition NonVolatileReader_read_space :: "'a RingBuffer \<Rightarrow> int \<Rightarrow> int" where
  "NonVolatileReader_read_space rb r = read_space (rb\<lparr>rb_read_ptr := r\<rparr>)"

definition NonVolatileReader_decrement :: "'a RingBuffer \<Rightarrow> int \<Rightarrow> int" where
  "NonVolatileReader_decrement rb r =
     (if r = rb_read_ptr rb then r else (r - 1) AND rb_size_mask rb)"

definition NonVolatileReader_advance :: "'a RingBuffer \<Rightarrow> int \<Rightarrow> int \<Rightarrow> int" where
  "NonVolatileReader_advance rb n r =
     (if NonVolatileReader_read_space rb r < n then r else (r + n) AND rb_size_mask rb)"

definition NonVolatileReader_pop :: "'a RingBuffer \<Rightarrow> int \<Rightarrow> ('a option \<times> int) option" where
  "NonVolatileReader_pop rb r =
     (if NonVolatileReader_read_space rb r = 0 then Some (None, r)
      else if r < 0 then None
      else do {
        x \<leftarrow> nth_opt (rb_buf rb) (nat r);
        Some (Some x, (r + 1) AND rb_size_mask rb) })"

definition NonVolatileReader_read :: "bool \<Rightarrow> 'a RingBuffer \<Rightarrow> 'a list \<Rightarrow> int \<Rightarrow> int \<Rightarrow>
    (int \<times> 'a list \<times> int) option" where
  "NonVolatileReader_read deep rb dest cnt r =
     (let free_cnt = NonVolatileReader_read_space rb r in
      if free_cnt = 0 then Some (0, dest, r)
      else do {
        let to_read = (if free_cnt < cnt then free_cnt else cnt);
        (dest, r) \<leftarrow> read_from deep rb r dest to_read;
        Some (to_read, dest, r) })"

definition NonVolatileReader_free :: "'a RingBuffer \<Rightarrow> int \<Rightarrow> 'a RingBuffer" where
  "NonVolatileReader_free rb r = rb\<lparr>rb_read_ptr := r\<rparr>"

end
