(* ===== verification/RingBufferProps.thy ===== *)
theory RingBufferProps
  imports RingBuffer
begin

text \<open>
  The ring buffer implements a bounded queue. \<open>rb_queue\<close> is the abstraction: the elements from the read
  position up to the write position. The locale \<open>bounded_queue\<close> is the contract of such a queue for its
  clients, the command queues of the disk thread.
\<close>

section \<open>Invariant and abstraction\<close>

definition rb_ok :: "'a RingBuffer \<Rightarrow> bool" where
  "rb_ok rb \<longleftrightarrow> (\<exists>k. 1 \<le> k \<and> k < 31 \<and> rb_size rb = 2 ^ k) \<and> rb_size_mask rb = rb_size rb - 1 \<and>
     0 \<le> rb_wrap_elements rb \<and> int (length (rb_buf rb)) = rb_size rb + rb_wrap_elements rb \<and>
     0 \<le> rb_read_ptr rb \<and> rb_read_ptr rb < rb_size rb \<and>
     0 \<le> rb_write_ptr rb \<and> rb_write_ptr rb < rb_size rb"

definition rb_at :: "'a RingBuffer \<Rightarrow> int \<Rightarrow> 'a" where
  "rb_at rb i = rb_buf rb ! nat (i mod rb_size rb)"

definition rb_queue :: "'a RingBuffer \<Rightarrow> 'a list" where
  "rb_queue rb = map (\<lambda>i. rb_at rb (rb_read_ptr rb + int i)) [0..<nat (read_space rb)]"

definition rb_capacity :: "'a RingBuffer \<Rightarrow> nat" where
  "rb_capacity rb = nat (rb_size rb - 1)"

lemma rb_okD:
  assumes "rb_ok rb"
  shows "2 \<le> rb_size rb" "0 \<le> rb_wrap_elements rb"
    "int (length (rb_buf rb)) = rb_size rb + rb_wrap_elements rb"
    "0 \<le> rb_read_ptr rb" "rb_read_ptr rb < rb_size rb"
    "0 \<le> rb_write_ptr rb" "rb_write_ptr rb < rb_size rb"
proof -
  obtain k where "1 \<le> k" "rb_size rb = 2 ^ k" using assms by (auto simp: rb_ok_def)
  then have "(2::int) ^ 1 \<le> rb_size rb" by (simp only: power_increasing)
  then show "2 \<le> rb_size rb" by simp
qed (use assms in \<open>auto simp: rb_ok_def\<close>)

lemma and_size_mask:
  assumes "rb_ok rb"
  shows "x AND rb_size_mask rb = x mod rb_size rb"
proof -
  obtain k where "rb_size rb = 2 ^ k" "rb_size_mask rb = rb_size rb - 1" using assms by (auto simp: rb_ok_def)
  then show ?thesis by (simp add: flip: take_bit_eq_mod mask_eq_exp_minus_1 take_bit_eq_mask)
qed

lemma mod_neg_eq: "- s \<le> a \<Longrightarrow> a < 0 \<Longrightarrow> a mod s = a + s" for a s :: int
  using mod_pos_pos_trivial [of "a + s" s] by simp

lemma read_space_mod:
  assumes "rb_ok rb"
  shows "read_space rb = (rb_write_ptr rb - rb_read_ptr rb) mod rb_size rb"
  using rb_okD [OF assms] by (auto simp: read_space_def and_size_mask [OF assms] Let_def mod_pos_pos_trivial)

lemma read_space_bounds:
  assumes "rb_ok rb"
  shows "0 \<le> read_space rb" "read_space rb < rb_size rb"
  using rb_okD [OF assms] by (simp_all add: read_space_mod [OF assms])

lemma write_space_eq:
  assumes "rb_ok rb"
  shows "write_space rb = rb_size rb - 1 - read_space rb"
  using rb_okD [OF assms]
  by (auto simp: write_space_def read_space_mod [OF assms] and_size_mask [OF assms] Let_def
      mod_pos_pos_trivial mod_neg_eq)

lemma length_rb_queue: "rb_ok rb \<Longrightarrow> int (length (rb_queue rb)) = read_space rb"
  using read_space_bounds by (simp add: rb_queue_def)

lemma rb_queue_nth: "i < length (rb_queue rb) \<Longrightarrow> rb_queue rb ! i = rb_at rb (rb_read_ptr rb + int i)"
  by (simp add: rb_queue_def)

section \<open>Copying\<close>

lemma copy_nat:
  assumes "i + n \<le> length dst" "j + n \<le> length src"
  shows "copy deep dst (int i) src (int j) (int n) =
    Some (take i dst @ take n (drop j src) @ drop (i + n) dst)"
  using assms by (simp add: copy_def nat_add_distrib flip: of_nat_add)

lemma copy_Some:
  assumes "0 \<le> n" "0 \<le> i" "0 \<le> j" "i + n \<le> int (length dst)" "j + n \<le> int (length src)"
  obtains dst' where "copy deep dst i src j n = Some dst'" "length dst' = length dst"
    "\<And>k. 0 \<le> k \<Longrightarrow> k < int (length dst) \<Longrightarrow>
      dst' ! nat k = (if i \<le> k \<and> k < i + n then src ! nat (k - i + j) else dst ! nat k)"
proof -
  define i' j' n' where d: "i' = nat i" "j' = nat j" "n' = nat n"
  have e: "i = int i'" "j = int j'" "n = int n'" using assms by (simp_all add: d)
  have le: "i' + n' \<le> length dst" "j' + n' \<le> length src" using assms(4,5) by (simp_all add: e)
  let ?d = "take i' dst @ take n' (drop j' src) @ drop (i' + n') dst"
  have "?d ! nat k = (if i \<le> k \<and> k < i + n then src ! nat (k - i + j) else dst ! nat k)"
    if k: "0 \<le> k" "k < int (length dst)" for k
  proof -
    obtain k' where k': "k = int k'" "k' < length dst" using k by (metis nonneg_int_cases of_nat_less_iff)
    have "nat (int k' - int i' + int j') = j' + (k' - i')" if "i' \<le> k'" using that by simp
    then show ?thesis using le k'(2) by (auto simp: e k'(1) nth_append)
  qed
  moreover have "length ?d = length dst" using le by simp
  ultimately show thesis using that [of ?d] copy_nat [OF le] by (simp add: e)
qed

lemma transfer_cases:
  assumes "rb_ok rb" "0 \<le> pos" "pos < rb_size rb" "0 \<le> n" "n < rb_size rb"
  shows "split_transfer rb pos n = (if rb_size rb < pos + n then (rb_size rb - pos, pos + n - rb_size rb) else (n, 0))"
proof -
  have "(pos + n) mod rb_size rb = pos + n - rb_size rb" if "rb_size rb < pos + n"
    using assms that mod_pos_pos_trivial [of "pos + n - rb_size rb" "rb_size rb"] by simp
  then show ?thesis using assms(1) by (simp add: split_transfer_def and_size_mask Let_def)
qed

lemma next_pos_transfer:
  assumes "rb_ok rb" "0 \<le> pos" "pos < rb_size rb" "0 \<le> n" "n < rb_size rb"
    and "split_transfer rb pos n = (n1, n2)"
  shows "next_pos rb pos n1 n2 = (pos + n) mod rb_size rb"
proof -
  have "(pos + n) mod rb_size rb = pos + n - rb_size rb" if "rb_size rb < pos + n"
    using assms that mod_pos_pos_trivial [of "pos + n - rb_size rb" "rb_size rb"] by simp
  then show ?thesis using assms(6) transfer_cases [OF assms(1-5)] assms(1)
    by (auto simp: next_pos_def and_size_mask split: if_splits)
qed


section \<open>Reading\<close>

lemma read_from_correct:
  assumes ok: "rb_ok rb" and pos: "0 \<le> pos" "pos < rb_size rb" and n: "0 \<le> n" "n < rb_size rb"
    and dest: "n \<le> int (length dest)"
  shows "read_from deep rb pos dest n =
    Some (map (\<lambda>i. rb_at rb (pos + int i)) [0..<nat n] @ drop (nat n) dest, (pos + n) mod rb_size rb)"
proof -
  note size = rb_okD [OF ok]
  obtain n1 n2 where s: "split_transfer rb pos n = (n1, n2)" by fastforce
  have s': "n1 = (if rb_size rb < pos + n then rb_size rb - pos else n)"
    "n2 = (if rb_size rb < pos + n then pos + n - rb_size rb else 0)"
    using s transfer_cases [OF ok pos n] by (auto split: if_splits)
  then have n12: "0 \<le> n1" "0 \<le> n2" "n1 + n2 = n" "pos + n1 \<le> rb_size rb" "n2 < rb_size rb"
    "n2 \<noteq> 0 \<Longrightarrow> pos + n1 = rb_size rb"
    using pos n by auto
  obtain d1 where d1: "copy deep dest 0 (rb_buf rb) pos n1 = Some d1" "length d1 = length dest"
    "\<And>k. 0 \<le> k \<Longrightarrow> k < int (length dest) \<Longrightarrow>
      d1 ! nat k = (if 0 \<le> k \<and> k < 0 + n1 then rb_buf rb ! nat (k - 0 + pos) else dest ! nat k)"
    by (rule copy_Some [of n1 0 pos dest "rb_buf rb" deep]) (use n12 pos dest size in auto)
  obtain d2 where d2: "copy deep d1 n1 (rb_buf rb) 0 n2 = Some d2" "length d2 = length d1"
    "\<And>k. 0 \<le> k \<Longrightarrow> k < int (length d1) \<Longrightarrow>
      d2 ! nat k = (if n1 \<le> k \<and> k < n1 + n2 then rb_buf rb ! nat (k - n1 + 0) else d1 ! nat k)"
    by (rule copy_Some [of n2 n1 0 d1 "rb_buf rb" deep]) (use n12 d1(2) dest size in auto)
  have "(if n2 \<noteq> 0 then copy deep d1 n1 (rb_buf rb) 0 n2 else Some d1) = Some d2"
    using d2(1) by (auto simp: copy_def)
  moreover have "d2 = map (\<lambda>i. rb_at rb (pos + int i)) [0..<nat n] @ drop (nat n) dest"
  proof (rule nth_equalityI)
    show "length d2 = length (map (\<lambda>i. rb_at rb (pos + int i)) [0..<nat n] @ drop (nat n) dest)"
      using d2(2) d1(2) dest by simp
    fix k assume "k < length d2"
    then have k: "k < length dest" using d1(2) d2(2) by simp
    have "(pos + int k) mod rb_size rb = (if int k < n1 then pos + int k else int k - n1)" if "int k < n"
      using that n12 pos n mod_pos_pos_trivial [of "pos + int k - rb_size rb" "rb_size rb"]
      by (auto simp: mod_pos_pos_trivial s' split: if_splits)
    then show "d2 ! k = (map (\<lambda>i. rb_at rb (pos + int i)) [0..<nat n] @ drop (nat n) dest) ! k"
      using d2(3) [of "int k"] d1(3) [of "int k"] k n12 d1(2)
      by (auto simp: nth_append rb_at_def add.commute)
  qed
  ultimately show ?thesis
    using s d1(1) next_pos_transfer [OF ok pos n s] by (simp add: read_from_def)
qed

lemma rb_ok_read_ptr [intro]:
  "rb_ok rb \<Longrightarrow> 0 \<le> r \<Longrightarrow> r < rb_size rb \<Longrightarrow> rb_ok (rb\<lparr>rb_read_ptr := r\<rparr>)"
  by (auto simp: rb_ok_def)

lemma mod_diff_small:
  fixes a n s :: int
  assumes "0 \<le> n" "n \<le> a mod s" "0 < s"
  shows "(a - n) mod s = a mod s - n"
proof -
  have "a mod s < s" using assms(3) by simp
  then have "(a mod s - n) mod s = a mod s - n" using assms by (intro mod_pos_pos_trivial) linarith+
  then show ?thesis by (simp add: mod_diff_left_eq)
qed

lemma rb_queue_advance:
  assumes ok: "rb_ok rb" and n: "n \<le> length (rb_queue rb)"
  shows "rb_queue (rb\<lparr>rb_read_ptr := (rb_read_ptr rb + int n) mod rb_size rb\<rparr>) = drop n (rb_queue rb)"
    (is "rb_queue ?rb = _")
proof -
  note size = rb_okD [OF ok]
  have ok': "rb_ok ?rb" using ok size by (intro rb_ok_read_ptr) auto
  have le: "int n \<le> read_space rb" using n length_rb_queue [OF ok] by linarith
  have "read_space ?rb = (rb_write_ptr rb - rb_read_ptr rb - int n) mod rb_size rb"
    by (simp add: read_space_mod [OF ok'] mod_diff_right_eq diff_diff_eq)
  also have "\<dots> = read_space rb - int n"
    using le size(1) mod_diff_small [of "int n" "rb_write_ptr rb - rb_read_ptr rb" "rb_size rb"]
    by (simp add: read_space_mod [OF ok])
  finally have len: "read_space ?rb = read_space rb - int n" .
  show ?thesis
  proof (rule nth_equalityI)
    show "length (rb_queue ?rb) = length (drop n (rb_queue rb))"
      using length_rb_queue [OF ok] length_rb_queue [OF ok'] len le by simp
    fix k assume k: "k < length (rb_queue ?rb)"
    then have "n + k < length (rb_queue rb)"
      using length_rb_queue [OF ok] length_rb_queue [OF ok'] len by simp
    then show "rb_queue ?rb ! k = drop n (rb_queue rb) ! k"
      using k n by (simp add: rb_queue_nth) (simp add: rb_at_def mod_add_left_eq add.assoc)
  qed
qed

theorem read_dequeues:
  assumes ok: "rb_ok rb" and "0 \<le> cnt" "cnt \<le> int (length dest)"
    and n: "n = min (nat cnt) (length (rb_queue rb))"
  shows "\<exists>rb'. RingBuffer_read deep dest cnt rb = Some (int n, take n (rb_queue rb) @ drop n dest, rb') \<and>
    rb_ok rb' \<and> rb_queue rb' = drop n (rb_queue rb) \<and> rb_size rb' = rb_size rb"
proof -
  note size = rb_okD [OF ok]
  let ?rb = "rb\<lparr>rb_read_ptr := (rb_read_ptr rb + int n) mod rb_size rb\<rparr>"
  have len: "int (length (rb_queue rb)) = read_space rb" by (rule length_rb_queue [OF ok])
  have bounds: "0 \<le> read_space rb" "read_space rb < rb_size rb" by (rule read_space_bounds [OF ok])+
  have n': "int n = (if read_space rb < cnt then read_space rb else cnt)"
    using n len assms(2) by auto
  have n'': "int n < rb_size rb" "n \<le> length dest" using n' bounds(2) assms(3) by (auto split: if_splits)
  have "map (\<lambda>i. rb_at rb (rb_read_ptr rb + int i)) [0..<n] = take n (rb_queue rb)"
    using n by (simp add: rb_queue_def take_map min_def)
  then have "read_from deep rb (rb_read_ptr rb) dest (int n) =
      Some (take n (rb_queue rb) @ drop n dest, (rb_read_ptr rb + int n) mod rb_size rb)"
    using read_from_correct [OF ok size(4,5), of "int n" dest deep] n'' by simp
  then have "read_space rb \<noteq> 0 \<Longrightarrow>
      RingBuffer_read deep dest cnt rb = Some (int n, take n (rb_queue rb) @ drop n dest, ?rb)"
    by (simp add: RingBuffer_read_def Let_def flip: n')
  moreover have "read_space rb = 0 \<Longrightarrow> n = 0" using n len by simp
  moreover have "n = 0 \<Longrightarrow> ?rb = rb" using size by (simp add: mod_pos_pos_trivial)
  moreover have "rb_ok ?rb" using ok size by (intro rb_ok_read_ptr) auto
  moreover have "rb_queue ?rb = drop n (rb_queue rb)" using n by (intro rb_queue_advance [OF ok]) simp
  ultimately show ?thesis by (cases "read_space rb = 0") (auto simp: RingBuffer_read_def)
qed

section \<open>Writing\<close>

text \<open>
  \<open>writes rb src n buf\<close>: the array after \<open>n\<close> elements were written at the write position, and
  \<open>writes_exactly\<close>: with the wrap space unchanged.
\<close>

definition writes :: "'a RingBuffer \<Rightarrow> 'a list \<Rightarrow> int \<Rightarrow> 'a list \<Rightarrow> bool" where
  "writes rb src n buf \<longleftrightarrow> length buf = length (rb_buf rb) \<and>
     (\<forall>x. 0 \<le> x \<longrightarrow> x < rb_size rb \<longrightarrow>
        buf ! nat x = (let t = (x - rb_write_ptr rb) mod rb_size rb in
          if t < n then src ! nat t else rb_buf rb ! nat x))"

definition writes_exactly :: "'a RingBuffer \<Rightarrow> 'a list \<Rightarrow> int \<Rightarrow> 'a list \<Rightarrow> bool" where
  "writes_exactly rb src n buf \<longleftrightarrow> writes rb src n buf \<and>
     (\<forall>x. rb_size rb \<le> x \<longrightarrow> x < int (length (rb_buf rb)) \<longrightarrow> buf ! nat x = rb_buf rb ! nat x)"

lemma writes_exactly_unique:
  assumes "writes_exactly rb src n b" "writes_exactly rb src n b'"
  shows "b = b'"
proof (rule nth_equalityI)
  fix k assume "k < length b"
  then show "b ! k = b' ! k" using assms
    by (cases "int k < rb_size rb") (auto simp: writes_exactly_def writes_def dest!: spec [of _ "int k"])
qed (use assms in \<open>simp add: writes_exactly_def writes_def\<close>)

lemma queue_after_write:
  assumes ok: "rb_ok rb" and w: "writes rb src (int n) buf" and n: "n \<le> length src"
    and space: "int n \<le> write_space rb"
    and p: "p = (rb_write_ptr rb + int n) mod rb_size rb"
  shows "rb_ok (rb\<lparr>rb_buf := buf, rb_write_ptr := p\<rparr>) \<and>
    rb_queue (rb\<lparr>rb_buf := buf, rb_write_ptr := p\<rparr>) = rb_queue rb @ take n src"
    (is "rb_ok ?rb \<and> _")
proof
  note size = rb_okD [OF ok]
  show ok': "rb_ok ?rb" using ok size w p by (auto simp: rb_ok_def writes_def)
  have len: "int (length (rb_queue rb)) = read_space rb" by (rule length_rb_queue [OF ok])
  have "read_space ?rb = (rb_write_ptr rb - rb_read_ptr rb + int n) mod rb_size rb"
    unfolding read_space_mod [OF ok'] by (simp add: p mod_diff_left_eq diff_add_eq)
  also have "\<dots> = (read_space rb + int n) mod rb_size rb"
    by (simp add: read_space_mod [OF ok] mod_add_left_eq)
  also have "\<dots> = read_space rb + int n"
    using space read_space_bounds [OF ok] by (intro mod_pos_pos_trivial) (auto simp: write_space_eq [OF ok])
  finally have rs: "read_space ?rb = read_space rb + int n" .
  show "rb_queue ?rb = rb_queue rb @ take n src"
  proof (rule nth_equalityI)
    show "length (rb_queue ?rb) = length (rb_queue rb @ take n src)"
      using length_rb_queue [OF ok'] len rs n by simp
    fix k assume k: "k < length (rb_queue ?rb)"
    define x where "x = (rb_read_ptr rb + int k) mod rb_size rb"
    have x: "0 \<le> x" "x < rb_size rb" using size by (simp_all add: x_def)
    have "rb_queue ?rb ! k = buf ! nat x" using k by (simp add: rb_queue_nth) (simp add: rb_at_def x_def)
    also have "\<dots> = (let t = (x - rb_write_ptr rb) mod rb_size rb in
        if t < int n then src ! nat t else rb_buf rb ! nat x)"
      using w x by (simp add: writes_def)
    also have "(x - rb_write_ptr rb) mod rb_size rb = (int k - read_space rb) mod rb_size rb"
      by (simp add: x_def read_space_mod [OF ok] mod_diff_left_eq mod_diff_right_eq algebra_simps)
    also have "\<dots> = (if int k < read_space rb then int k - read_space rb + rb_size rb else int k - read_space rb)"
      using k length_rb_queue [OF ok'] rs read_space_bounds [OF ok] space
      by (auto simp: write_space_eq [OF ok] mod_pos_pos_trivial mod_neg_eq)
    finally have "rb_queue ?rb ! k = (if int k < read_space rb then rb_buf rb ! nat x else src ! nat (int k - read_space rb))"
      using k length_rb_queue [OF ok'] rs space by (auto simp: Let_def write_space_eq [OF ok])
    moreover have "nat (int k - read_space rb) = k - length (rb_queue rb)" using len by simp
    moreover have "int k < read_space rb \<longleftrightarrow> k < length (rb_queue rb)" using len by linarith
    moreover have "k < length (rb_queue rb) \<Longrightarrow> rb_queue rb ! k = rb_buf rb ! nat x"
      by (simp add: rb_queue_nth rb_at_def x_def)
    moreover have "k < length (rb_queue rb) + n"
      using k length_rb_queue [OF ok'] rs len by linarith
    ultimately show "rb_queue ?rb ! k = (rb_queue rb @ take n src) ! k"
      by (simp add: nth_append)
  qed
qed

lemma copy_writes:
  assumes ok: "rb_ok rb" and n: "0 \<le> n" "n < rb_size rb" "n \<le> int (length src)"
    and s: "split_transfer rb (rb_write_ptr rb) n = (n1, n2)"
  obtains b1 b2 where "copy deep (rb_buf rb) (rb_write_ptr rb) src 0 n1 = Some b1"
    "(if n2 \<noteq> 0 then copy deep b1 0 src n1 n2 else Some b1) = Some b2" "writes_exactly rb src n b2"
proof -
  note size = rb_okD [OF ok]
  let ?w = "rb_write_ptr rb"
  have s': "n1 = (if rb_size rb < ?w + n then rb_size rb - ?w else n)"
    "n2 = (if rb_size rb < ?w + n then ?w + n - rb_size rb else 0)"
    using s transfer_cases [OF ok size(6,7) n(1,2)] by (auto split: if_splits)
  then have n12: "0 \<le> n1" "0 \<le> n2" "n1 + n2 = n" "?w + n1 \<le> rb_size rb" "n2 < rb_size rb"
    "n2 \<noteq> 0 \<Longrightarrow> ?w + n1 = rb_size rb" "n2 < ?w \<or> n2 = 0"
    using size n by auto
  obtain b1 where b1: "copy deep (rb_buf rb) ?w src 0 n1 = Some b1" "length b1 = length (rb_buf rb)"
    "\<And>k. 0 \<le> k \<Longrightarrow> k < int (length (rb_buf rb)) \<Longrightarrow>
      b1 ! nat k = (if ?w \<le> k \<and> k < ?w + n1 then src ! nat (k - ?w + 0) else rb_buf rb ! nat k)"
    by (rule copy_Some [of n1 ?w 0 "rb_buf rb" src deep]) (use n12 size n in auto)
  obtain b2 where b2: "copy deep b1 0 src n1 n2 = Some b2" "length b2 = length b1"
    "\<And>k. 0 \<le> k \<Longrightarrow> k < int (length b1) \<Longrightarrow>
      b2 ! nat k = (if 0 \<le> k \<and> k < 0 + n2 then src ! nat (k - 0 + n1) else b1 ! nat k)"
    by (rule copy_Some [of n2 0 n1 b1 src deep]) (use n12 size n b1(2) in auto)
  have "(if n2 \<noteq> 0 then copy deep b1 0 src n1 n2 else Some b1) = Some b2"
    using b2(1) by (auto simp: copy_def)
  moreover have "writes_exactly rb src n b2"
    unfolding writes_exactly_def writes_def
  proof (intro conjI allI impI)
    show "length b2 = length (rb_buf rb)" using b1(2) b2(2) by simp
    show "b2 ! nat x = rb_buf rb ! nat x" if "rb_size rb \<le> x" "x < int (length (rb_buf rb))" for x
      using b1(3) [of x] b2(3) [of x] that n12 size b1(2) by auto
    fix x assume x: "0 \<le> x" "x < rb_size rb"
    then have lt: "x < int (length (rb_buf rb))" "x < int (length b1)" using size b1(2) by auto
    have m: "(x - ?w) mod rb_size rb = (if x < ?w then x - ?w + rb_size rb else x - ?w)"
      using x size by (auto simp: mod_pos_pos_trivial mod_neg_eq)
    have "n2 \<noteq> 0 \<Longrightarrow> nat (x - ?w + rb_size rb) = nat (x + n1)" using n12(6) by simp
    then show "b2 ! nat x = (let t = (x - ?w) mod rb_size rb in if t < n then src ! nat t else rb_buf rb ! nat x)"
      using b1(3) [OF x(1) lt(1)] b2(3) [OF x(1) lt(2)] n12 x size unfolding m
      by (auto simp: Let_def algebra_simps)
  qed
  ultimately show thesis using that b1(1) by blast
qed

theorem write_enqueues:
  assumes ok: "rb_ok rb" and "0 \<le> cnt" "cnt \<le> int (length src)"
    and n: "n = min (nat cnt) (rb_capacity rb - length (rb_queue rb))"
  shows "\<exists>rb'. RingBuffer_write deep src cnt rb = Some (int n, rb') \<and>
    rb_ok rb' \<and> rb_queue rb' = rb_queue rb @ take n src \<and> rb_size rb' = rb_size rb"
proof -
  note size = rb_okD [OF ok]
  have len: "int (length (rb_queue rb)) = read_space rb" by (rule length_rb_queue [OF ok])
  have space: "int (rb_capacity rb - length (rb_queue rb)) = write_space rb" "0 \<le> write_space rb"
    "write_space rb < rb_size rb"
    using len read_space_bounds [OF ok] by (auto simp: rb_capacity_def write_space_eq [OF ok])
  have n': "int n = (if write_space rb < cnt then write_space rb else cnt)"
    using n space assms(2) by auto
  show ?thesis
  proof (cases "write_space rb = 0")
    case True
    then show ?thesis using n' assms(2) ok by (auto simp: RingBuffer_write_def)
  next
    case False
    obtain n1 n2 where s: "split_transfer rb (rb_write_ptr rb) (int n) = (n1, n2)" by fastforce
    obtain b1 b2 where b: "copy deep (rb_buf rb) (rb_write_ptr rb) src 0 n1 = Some b1"
      "(if n2 \<noteq> 0 then copy deep b1 0 src n1 n2 else Some b1) = Some b2" "writes_exactly rb src (int n) b2"
      by (rule copy_writes [OF ok _ _ _ s]) (use n' space assms in auto)
    have p: "next_pos rb (rb_write_ptr rb) n1 n2 = (rb_write_ptr rb + int n) mod rb_size rb"
      using next_pos_transfer [OF ok size(6,7) _ _ s] n' space by simp
    have "RingBuffer_write deep src cnt rb =
        Some (int n, rb\<lparr>rb_buf := b2, rb_write_ptr := (rb_write_ptr rb + int n) mod rb_size rb\<rparr>)"
      using False b(1,2) s p by (simp add: RingBuffer_write_def Let_def flip: n')
    then show ?thesis
      using queue_after_write [OF ok _ _ _ refl, of src n b2] b(3)[unfolded writes_exactly_def] n' space(1,2) assms(3) by auto
  qed
qed

section \<open>Allocation\<close>

lemma alloc_power_Some:
  "alloc_power k sz = Some m \<Longrightarrow> k \<le> m \<and> m < 31 \<and> sz \<le> 2 ^ m"
proof (induction k sz rule: alloc_power.induct)
  case (1 k sz)
  then show ?case by (subst (asm) (2) alloc_power.simps) (auto split: if_splits)
qed

lemma alloc_power_total:
  "k \<le> 30 \<Longrightarrow> sz \<le> 2 ^ 30 \<Longrightarrow> \<exists>m. alloc_power k sz = Some m"
proof (induction k sz rule: alloc_power.induct)
  case (1 k sz)
  show ?case
  proof (cases "2 ^ k < sz")
    case True
    then have "k \<noteq> 30" using 1(3) by auto
    then show ?thesis using 1 True by (subst alloc_power.simps) auto
  qed (use 1 in \<open>subst alloc_power.simps, auto\<close>)
qed

theorem new_ring_buffer:
  assumes "0 \<le> wrap_elements" "sz + wrap_elements \<le> 2 ^ 30"
  shows "\<exists>rb. RingBuffer_new mem sz wrap_elements = Some rb \<and> rb_ok rb \<and> rb_queue rb = [] \<and>
    sz + wrap_elements - 1 \<le> int (rb_capacity rb)"
proof -
  obtain k where k: "alloc_power 1 (sz + wrap_elements) = Some k"
    using alloc_power_total [of 1 "sz + wrap_elements"] assms(2) by auto
  then show ?thesis using alloc_power_Some [OF k] assms
    by (auto simp: RingBuffer_new_def allocBuffer_def rb_ok_def rb_queue_def read_space_def rb_capacity_def Let_def)
qed

section \<open>The contract of a bounded queue\<close>

locale bounded_queue =
  fixes ok :: "'q \<Rightarrow> bool" and contents :: "'q \<Rightarrow> 'a list" and capacity :: "'q \<Rightarrow> nat"
    and enq :: "'a \<Rightarrow> 'q \<Rightarrow> (int \<times> 'q) option"
    and deq :: "'a \<Rightarrow> 'q \<Rightarrow> (int \<times> 'a \<times> 'q) option"
  assumes bounded: "ok q \<Longrightarrow> length (contents q) \<le> capacity q"
    and enq_full: "ok q \<Longrightarrow> length (contents q) = capacity q \<Longrightarrow> enq x q = Some (0, q)"
    and enq_space: "ok q \<Longrightarrow> length (contents q) < capacity q \<Longrightarrow>
      \<exists>q'. enq x q = Some (1, q') \<and> ok q' \<and> contents q' = contents q @ [x] \<and> capacity q' = capacity q"
    and deq_empty: "ok q \<Longrightarrow> contents q = [] \<Longrightarrow> deq x q = Some (0, x, q)"
    and deq_head: "ok q \<Longrightarrow> contents q = y # ys \<Longrightarrow>
      \<exists>q'. deq x q = Some (1, y, q') \<and> ok q' \<and> contents q' = ys \<and> capacity q' = capacity q"
begin

text \<open>A sequence of pushes (\<open>Some x\<close>) and pops (\<open>None\<close>): the elements accepted and those popped.\<close>

fun run :: "'a \<Rightarrow> 'a option list \<Rightarrow> 'q \<Rightarrow> ('a list \<times> 'a list \<times> 'q) option" where
  "run d [] q = Some ([], [], q)"
| "run d (Some x # ops) q = do {
     (n, q) \<leftarrow> enq x q;
     (ins, outs, q) \<leftarrow> run d ops q;
     Some ((if n = 1 then x # ins else ins), outs, q) }"
| "run d (None # ops) q = do {
     (n, y, q) \<leftarrow> deq d q;
     (ins, outs, q) \<leftarrow> run d ops q;
     Some (ins, (if n = 1 then y # outs else outs), q) }"

lemma run_fifo:
  "ok q \<Longrightarrow> \<exists>ins outs q'. run d ops q = Some (ins, outs, q') \<and> ok q' \<and>
    contents q @ ins = outs @ contents q'"
proof (induction d ops q rule: run.induct)
  case (2 d x ops q)
  show ?case
  proof (cases "length (contents q) = capacity q")
    case True
    then show ?thesis using 2 enq_full [of q x] by fastforce
  next
    case False
    then obtain q' where q': "enq x q = Some (1, q')" "ok q'" "contents q' = contents q @ [x]"
      using enq_space [OF 2(2), of x] bounded [OF 2(2)] by auto
    then show ?thesis using 2(1) [OF q'(1) refl q'(2)] by auto
  qed
next
  case (3 d ops q)
  show ?case
  proof (cases "contents q")
    case Nil
    then show ?thesis using 3 deq_empty [of q d] by fastforce
  next
    case (Cons y ys)
    then obtain q' where q': "deq d q = Some (1, y, q')" "ok q'" "contents q' = ys"
      using deq_head [OF 3(2), of y ys d] by auto
    then show ?thesis using 3(1) [OF q'(1) refl refl q'(2)] Cons by auto
  qed
qed auto

end

lemma rb_queue_le_capacity: "rb_ok rb \<Longrightarrow> length (rb_queue rb) \<le> rb_capacity rb"
  using length_rb_queue [of rb] read_space_bounds [of rb] by (simp add: rb_capacity_def)

interpretation ring: bounded_queue rb_ok rb_queue rb_capacity "RingBuffer_push deep" "RingBuffer_pop deep"
  for deep
proof
  fix rb :: "'a RingBuffer" and x y :: 'a and ys
  assume ok: "rb_ok rb"
  show "length (rb_queue rb) \<le> rb_capacity rb" by (rule rb_queue_le_capacity [OF ok])
  show "RingBuffer_push deep x rb = Some (0, rb)" if "length (rb_queue rb) = rb_capacity rb"
    using that length_rb_queue [OF ok] rb_okD(1) [OF ok]
    by (simp add: RingBuffer_push_def RingBuffer_write_def write_space_eq [OF ok] rb_capacity_def)
  show "\<exists>q'. RingBuffer_push deep x rb = Some (1, q') \<and> rb_ok q' \<and> rb_queue q' = rb_queue rb @ [x] \<and>
      rb_capacity q' = rb_capacity rb" if "length (rb_queue rb) < rb_capacity rb"
    using write_enqueues [OF ok, of 1 "[x]" 1 deep] that
    by (auto simp: RingBuffer_push_def rb_capacity_def)
  show "RingBuffer_pop deep x rb = Some (0, x, rb)" if "rb_queue rb = []"
    using that length_rb_queue [OF ok] by (simp add: RingBuffer_pop_def RingBuffer_read_def)
  show "\<exists>q'. RingBuffer_pop deep x rb = Some (1, y, q') \<and> rb_ok q' \<and> rb_queue q' = ys \<and>
      rb_capacity q' = rb_capacity rb" if "rb_queue rb = y # ys"
    using read_dequeues [OF ok, of 1 "[x]" 1 deep] that
    by (auto simp: RingBuffer_pop_def rb_capacity_def)
qed

section \<open>Reading without freeing\<close>

definition reader_pos :: "'a RingBuffer \<Rightarrow> nat \<Rightarrow> int" where
  "reader_pos rb i = (rb_read_ptr rb + int i) mod rb_size rb"

lemma reader_pos_bounds: "rb_ok rb \<Longrightarrow> 0 \<le> reader_pos rb i \<and> reader_pos rb i < rb_size rb"
  using rb_okD(1) [of rb] by (simp add: reader_pos_def)

lemma reader_queue:
  assumes "rb_ok rb" "i \<le> length (rb_queue rb)"
  shows "rb_ok (rb\<lparr>rb_read_ptr := reader_pos rb i\<rparr>)"
    "rb_queue (rb\<lparr>rb_read_ptr := reader_pos rb i\<rparr>) = drop i (rb_queue rb)"
  using rb_queue_advance [OF assms] reader_pos_bounds [OF assms(1), of i] assms(1)
  by (auto simp: reader_pos_def)

theorem non_volatile_reader:
  assumes ok: "rb_ok rb" and i: "i \<le> length (rb_queue rb)"
  shows "NonVolatileReader_pop rb (reader_pos rb i) =
      (if i < length (rb_queue rb) then Some (Some (rb_queue rb ! i), reader_pos rb (Suc i))
       else Some (None, reader_pos rb i)) \<and>
    rb_queue (NonVolatileReader_free rb (reader_pos rb i)) = drop i (rb_queue rb)"
proof -
  note r = reader_queue [OF assms] and pos = reader_pos_bounds [OF ok, of i]
  have space: "NonVolatileReader_read_space rb (reader_pos rb i) = int (length (rb_queue rb)) - int i"
    using length_rb_queue [OF r(1)] r(2) i by (simp add: NonVolatileReader_read_space_def)
  have "nat (reader_pos rb i) < length (rb_buf rb)"
    using pos rb_okD [OF ok] by linarith
  moreover have "i < length (rb_queue rb) \<Longrightarrow> rb_buf rb ! nat (reader_pos rb i) = rb_queue rb ! i"
    by (simp add: rb_queue_nth rb_at_def reader_pos_def)
  moreover have "(reader_pos rb i + 1) AND rb_size_mask rb = reader_pos rb (Suc i)"
    using mod_add_left_eq [of "rb_read_ptr rb + int i" "rb_size rb" 1]
    by (simp add: and_size_mask [OF ok] reader_pos_def add.assoc add.commute [of 1])
  ultimately show ?thesis
    using pos space r(2) i by (auto simp: NonVolatileReader_pop_def NonVolatileReader_free_def)
qed

end
