(* ===== verification/RingBufferThreads.thy ===== *)
theory RingBufferThreads
  imports RingBufferProps
begin

text \<open>
  One writing and one reading thread on the same ring buffer. \<open>RingBuffer::write\<close> and \<open>read\<close> are taken
  apart into the steps in which they touch shared memory: loading the pointers (which determines the
  space), copying one element at a time, and storing the own pointer with release semantics. Every
  interleaving of the steps of the two threads is a path of \<open>spsc_step\<close>. \<open>sent\<close> and \<open>received\<close> record
  what the completed calls have transferred.
\<close>

section \<open>Steps\<close>

datatype 'a writer_pc = Writer_idle | Writer_copying "'a list" nat \<comment> \<open>elements to write, copied so far\<close>

datatype 'a reader_pc = Reader_idle | Reader_copying nat "'a list" \<comment> \<open>number to read, read so far\<close>

record 'a spsc =
  ring_buffer :: "'a RingBuffer"
  writer_pc :: "'a writer_pc"
  reader_pc :: "'a reader_pc"
  sent :: "'a list"
  received :: "'a list"

definition buf_index :: "'a RingBuffer \<Rightarrow> int \<Rightarrow> nat \<Rightarrow> nat" where
  "buf_index rb pos i = nat ((pos + int i) AND rb_size_mask rb)"

inductive spsc_step :: "'a spsc \<Rightarrow> 'a spsc \<Rightarrow> bool" where
  write_load: "writer_pc s = Writer_idle \<Longrightarrow> n = min (length src) (nat (write_space (ring_buffer s))) \<Longrightarrow>
    spsc_step s (s\<lparr>writer_pc := Writer_copying (take n src) 0\<rparr>)"
| write_copy: "writer_pc s = Writer_copying src i \<Longrightarrow> i < length src \<Longrightarrow> rb = ring_buffer s \<Longrightarrow>
    upd_opt (rb_buf rb) (buf_index rb (rb_write_ptr rb) i) (src ! i) = Some buf \<Longrightarrow>
    spsc_step s (s\<lparr>ring_buffer := rb\<lparr>rb_buf := buf\<rparr>, writer_pc := Writer_copying src (Suc i)\<rparr>)"
| write_store: "writer_pc s = Writer_copying src i \<Longrightarrow> i = length src \<Longrightarrow> rb = ring_buffer s \<Longrightarrow>
    spsc_step s (s\<lparr>ring_buffer := rb\<lparr>rb_write_ptr := int (buf_index rb (rb_write_ptr rb) i)\<rparr>,
      writer_pc := Writer_idle, sent := sent s @ src\<rparr>)"
| read_load: "reader_pc s = Reader_idle \<Longrightarrow> n = min cnt (nat (read_space (ring_buffer s))) \<Longrightarrow>
    spsc_step s (s\<lparr>reader_pc := Reader_copying n []\<rparr>)"
| read_copy: "reader_pc s = Reader_copying n xs \<Longrightarrow> length xs < n \<Longrightarrow> rb = ring_buffer s \<Longrightarrow>
    nth_opt (rb_buf rb) (buf_index rb (rb_read_ptr rb) (length xs)) = Some x \<Longrightarrow>
    spsc_step s (s\<lparr>reader_pc := Reader_copying n (xs @ [x])\<rparr>)"
| read_store: "reader_pc s = Reader_copying n xs \<Longrightarrow> length xs = n \<Longrightarrow> rb = ring_buffer s \<Longrightarrow>
    spsc_step s (s\<lparr>ring_buffer := rb\<lparr>rb_read_ptr := int (buf_index rb (rb_read_ptr rb) n)\<rparr>,
      reader_pc := Reader_idle, received := received s @ xs\<rparr>)"

inductive spsc_reach :: "'a RingBuffer \<Rightarrow> 'a spsc \<Rightarrow> bool" for rb where
  start: "spsc_reach rb \<lparr>ring_buffer = rb, writer_pc = Writer_idle, reader_pc = Reader_idle,
    sent = rb_queue rb, received = []\<rparr>"
| step: "spsc_reach rb s \<Longrightarrow> spsc_step s s' \<Longrightarrow> spsc_reach rb s'"

section \<open>Invariant\<close>

definition writer_ok :: "'a RingBuffer \<Rightarrow> 'a writer_pc \<Rightarrow> bool" where
  "writer_ok rb pc \<longleftrightarrow> (case pc of Writer_idle \<Rightarrow> True
     | Writer_copying src i \<Rightarrow> int (length src) \<le> write_space rb \<and> i \<le> length src \<and>
         (\<forall>j < i. rb_at rb (rb_write_ptr rb + int j) = src ! j))"

definition reader_ok :: "'a RingBuffer \<Rightarrow> 'a reader_pc \<Rightarrow> bool" where
  "reader_ok rb pc \<longleftrightarrow> (case pc of Reader_idle \<Rightarrow> True
     | Reader_copying n xs \<Rightarrow> n \<le> length (rb_queue rb) \<and> length xs \<le> n \<and>
         xs = take (length xs) (rb_queue rb))"

definition spsc_ok :: "'a spsc \<Rightarrow> bool" where
  "spsc_ok s \<longleftrightarrow> rb_ok (ring_buffer s) \<and> sent s = received s @ rb_queue (ring_buffer s) \<and>
     writer_ok (ring_buffer s) (writer_pc s) \<and> reader_ok (ring_buffer s) (reader_pc s)"

lemma buf_index_upd [simp]: "buf_index (rb\<lparr>rb_buf := b\<rparr>) = buf_index rb"
  by (intro ext) (simp add: buf_index_def)

lemma buf_index_eq: "rb_ok rb \<Longrightarrow> buf_index rb pos i = nat ((pos + int i) mod rb_size rb)"
  by (simp add: buf_index_def and_size_mask)

lemma buf_index_less:
  assumes "rb_ok rb"
  shows "buf_index rb pos i < length (rb_buf rb)"
proof -
  have "0 \<le> (pos + int i) mod rb_size rb" "(pos + int i) mod rb_size rb < rb_size rb"
    using rb_okD(1) [OF assms] by (auto intro: pos_mod_sign pos_mod_bound)
  then show ?thesis using rb_okD(2,3) [OF assms] by (simp add: buf_index_eq [OF assms])
qed

lemma rb_at_index: "rb_ok rb \<Longrightarrow> rb_at rb (pos + int i) = rb_buf rb ! buf_index rb pos i"
  by (simp add: rb_at_def buf_index_eq)

lemma rb_at_upd_index:
  "rb_ok rb \<Longrightarrow> rb_at (rb\<lparr>rb_buf := b\<rparr>) (pos + int i) = b ! buf_index rb pos i"
  by (simp add: rb_at_def buf_index_eq)

lemma int_buf_index: "rb_ok rb \<Longrightarrow> int (buf_index rb pos i) = (pos + int i) mod rb_size rb"
  using rb_okD(1) [of rb] by (simp add: buf_index_eq)

text \<open>An element in the writer's space is no element of the queue, and no other one of that space.\<close>

lemma write_index_distinct:
  assumes ok: "rb_ok rb" and i: "int i < write_space rb"
  shows "k < length (rb_queue rb) \<Longrightarrow>
      buf_index rb (rb_read_ptr rb) k \<noteq> buf_index rb (rb_write_ptr rb) i"
    "j < i \<Longrightarrow> buf_index rb (rb_write_ptr rb) j \<noteq> buf_index rb (rb_write_ptr rb) i"
proof -
  note size = rb_okD [OF ok]
  have "(rb_read_ptr rb + int i + (rb_write_ptr rb - rb_read_ptr rb) mod rb_size rb) mod rb_size rb =
      (rb_write_ptr rb + int i) mod rb_size rb"
    by (simp add: mod_add_right_eq add.commute)
  then have w: "int (buf_index rb (rb_write_ptr rb) i) =
      (rb_read_ptr rb + (read_space rb + int i)) mod rb_size rb"
    by (simp add: int_buf_index [OF ok] read_space_mod [OF ok] ac_simps)
  have bound: "0 \<le> read_space rb" "read_space rb + int i < rb_size rb"
    using i read_space_bounds [OF ok] by (simp_all add: write_space_eq [OF ok])
  have inj: "a = b" if "(p + a) mod rb_size rb = (p + b) mod rb_size rb" "0 \<le> a" "a < rb_size rb" "0 \<le> b"
    "b < rb_size rb" for p a b
    using that by (metis add.commute add_diff_cancel_right' mod_diff_left_eq mod_pos_pos_trivial)
  show "buf_index rb (rb_read_ptr rb) k \<noteq> buf_index rb (rb_write_ptr rb) i" if "k < length (rb_queue rb)"
  proof
    assume "buf_index rb (rb_read_ptr rb) k = buf_index rb (rb_write_ptr rb) i"
    then have "(rb_read_ptr rb + int k) mod rb_size rb =
        (rb_read_ptr rb + (read_space rb + int i)) mod rb_size rb"
      using w int_buf_index [OF ok, of "rb_read_ptr rb" k] by simp
    from inj [OF this] have "int k = read_space rb + int i"
      using that length_rb_queue [OF ok] bound by linarith
    then show False using that length_rb_queue [OF ok] by linarith
  qed
  show "buf_index rb (rb_write_ptr rb) j \<noteq> buf_index rb (rb_write_ptr rb) i" if "j < i"
  proof
    assume "buf_index rb (rb_write_ptr rb) j = buf_index rb (rb_write_ptr rb) i"
    then have "(rb_write_ptr rb + int j) mod rb_size rb = (rb_write_ptr rb + int i) mod rb_size rb"
      using int_buf_index [OF ok] by metis
    from inj [OF this] have "int j = int i" using that bound by linarith
    then show False using that by simp
  qed
qed

lemma spaces_cong:
  "read_space (rb\<lparr>rb_buf := b\<rparr>) = read_space rb" "write_space (rb\<lparr>rb_buf := b\<rparr>) = write_space rb"
  by (simp_all add: read_space_def write_space_def Let_def)

lemma copy_preserves:
  assumes ok: "rb_ok rb" and i: "int i < write_space rb"
    and buf: "upd_opt (rb_buf rb) (buf_index rb (rb_write_ptr rb) i) x = Some buf"
  shows "rb_ok (rb\<lparr>rb_buf := buf\<rparr>)" "rb_queue (rb\<lparr>rb_buf := buf\<rparr>) = rb_queue rb"
    "j < i \<Longrightarrow> rb_at (rb\<lparr>rb_buf := buf\<rparr>) (rb_write_ptr rb + int j) = rb_at rb (rb_write_ptr rb + int j)"
    "rb_at (rb\<lparr>rb_buf := buf\<rparr>) (rb_write_ptr rb + int i) = x"
proof -
  let ?k = "buf_index rb (rb_write_ptr rb) i"
  have k: "?k < length (rb_buf rb)" by (rule buf_index_less [OF ok])
  have b: "buf = (rb_buf rb)[?k := x]" using buf k by simp
  show ok': "rb_ok (rb\<lparr>rb_buf := buf\<rparr>)" using ok b by (simp add: rb_ok_def)
  show "rb_queue (rb\<lparr>rb_buf := buf\<rparr>) = rb_queue rb"
  proof (rule nth_equalityI)
    show len: "length (rb_queue (rb\<lparr>rb_buf := buf\<rparr>)) = length (rb_queue rb)"
      by (simp add: rb_queue_def spaces_cong)
    fix m assume "m < length (rb_queue (rb\<lparr>rb_buf := buf\<rparr>))"
    then show "rb_queue (rb\<lparr>rb_buf := buf\<rparr>) ! m = rb_queue rb ! m"
      using write_index_distinct(1) [OF ok i, of m] len
      by (simp add: rb_queue_nth rb_at_index [OF ok] rb_at_upd_index [OF ok]) (simp add: b)
  qed
  show "j < i \<Longrightarrow> rb_at (rb\<lparr>rb_buf := buf\<rparr>) (rb_write_ptr rb + int j) = rb_at rb (rb_write_ptr rb + int j)"
    using write_index_distinct(2) [OF ok i, of j] b
    by (simp add: rb_at_index [OF ok] rb_at_upd_index [OF ok])
  show "rb_at (rb\<lparr>rb_buf := buf\<rparr>) (rb_write_ptr rb + int i) = x"
    using b k by (simp add: rb_at_upd_index [OF ok])
qed

lemma store_enqueues:
  assumes ok: "rb_ok rb" and w: "writer_ok rb (Writer_copying src (length src))"
  shows "rb_ok (rb\<lparr>rb_write_ptr := int (buf_index rb (rb_write_ptr rb) (length src))\<rparr>) \<and>
    rb_queue (rb\<lparr>rb_write_ptr := int (buf_index rb (rb_write_ptr rb) (length src))\<rparr>) = rb_queue rb @ src"
proof -
  have "writes rb src (int (length src)) (rb_buf rb)"
    unfolding writes_def Let_def
  proof (intro conjI allI impI refl)
    fix x assume x: "0 \<le> x" "x < rb_size rb"
    let ?t = "(x - rb_write_ptr rb) mod rb_size rb"
    show "rb_buf rb ! nat x = (if ?t < int (length src) then src ! nat ?t else rb_buf rb ! nat x)"
    proof (cases "?t < int (length src)")
      case True
      moreover have "0 \<le> ?t" using rb_okD(1) [OF ok] by simp
      ultimately have "rb_at rb (rb_write_ptr rb + ?t) = src ! nat ?t"
        using w by (auto simp: writer_ok_def dest: spec [of _ "nat ?t"])
      then show ?thesis using True x by (simp add: rb_at_def mod_add_right_eq mod_pos_pos_trivial)
    qed simp
  qed
  then show ?thesis
    using queue_after_write [OF ok _ order_refl _ refl, of src "rb_buf rb"] w
    by (simp add: writer_ok_def int_buf_index [OF ok])
qed

lemma writer_ok_mono:
  assumes "writer_ok rb pc" "write_space rb \<le> write_space rb'" "rb_buf rb' = rb_buf rb"
    "rb_size rb' = rb_size rb" "rb_write_ptr rb' = rb_write_ptr rb"
  shows "writer_ok rb' pc"
  using assms by (cases pc) (auto simp: writer_ok_def rb_at_def)

lemma reader_ok_append:
  "reader_ok rb pc \<Longrightarrow> rb_queue rb' = rb_queue rb @ xs \<Longrightarrow> reader_ok rb' pc"
  by (cases pc) (auto simp: reader_ok_def)

lemma spsc_step_ok:
  assumes "spsc_step s s'" and "spsc_ok s"
  shows "spsc_ok s'"
  using assms
proof (cases rule: spsc_step.cases)
  case (write_load n src)
  then show ?thesis using assms(2) read_space_bounds [of "ring_buffer s"]
    by (auto simp: spsc_ok_def writer_ok_def write_space_eq)
next
  case (write_copy src i rb buf)
  then have ok: "rb_ok rb" and i: "int i < write_space rb" using assms(2)
    by (auto simp: spsc_ok_def writer_ok_def)
  note c = copy_preserves [OF ok i write_copy(5)]
  have "writer_ok (rb\<lparr>rb_buf := buf\<rparr>) (Writer_copying src (Suc i))"
    using assms(2) write_copy c(3,4) by (auto simp: spsc_ok_def writer_ok_def spaces_cong less_Suc_eq)
  then show ?thesis using assms(2) write_copy c(1,2) reader_ok_append [of rb _ "rb\<lparr>rb_buf := buf\<rparr>" "[]"]
    by (simp add: spsc_ok_def)
next
  case (write_store src i rb)
  let ?rb = "rb\<lparr>rb_write_ptr := int (buf_index rb (rb_write_ptr rb) i)\<rparr>"
  have "rb_ok ?rb \<and> rb_queue ?rb = rb_queue rb @ src"
    using store_enqueues [of rb src] assms(2) write_store by (auto simp: spsc_ok_def)
  then show ?thesis using assms(2) write_store reader_ok_append [of rb _ ?rb src]
    by (simp add: spsc_ok_def writer_ok_def)
next
  case (read_load n cnt)
  then show ?thesis using assms(2) length_rb_queue [of "ring_buffer s"]
    by (auto simp: spsc_ok_def reader_ok_def)
next
  case (read_copy n xs rb x)
  have ok: "rb_ok rb" and r: "reader_ok rb (Reader_copying n xs)" using assms(2) read_copy by (auto simp: spsc_ok_def)
  have "x = rb_queue rb ! length xs"
    using read_copy(5) r read_copy(3) buf_index_less [OF ok]
    by (simp add: reader_ok_def rb_queue_nth rb_at_index [OF ok])
  then have "reader_ok rb (Reader_copying n (xs @ [x]))"
    using r read_copy(3) by (auto simp: reader_ok_def take_Suc_conv_app_nth)
  then show ?thesis using assms(2) read_copy by (simp add: spsc_ok_def)
next
  case (read_store n xs rb)
  let ?rb = "rb\<lparr>rb_read_ptr := int (buf_index rb (rb_read_ptr rb) n)\<rparr>"
  have ok: "rb_ok rb" and r: "n \<le> length (rb_queue rb)" "xs = take n (rb_queue rb)"
    using assms(2) read_store by (auto simp: spsc_ok_def reader_ok_def)
  have q: "rb_queue ?rb = drop n (rb_queue rb)" "rb_ok ?rb"
    using rb_queue_advance [OF ok r(1)] rb_okD [OF ok] ok by (auto simp: int_buf_index [OF ok])
  then have "write_space rb \<le> write_space ?rb"
    using length_rb_queue [OF ok] length_rb_queue [OF q(2)] by (simp add: write_space_eq [OF ok] write_space_eq [OF q(2)])
  moreover have "writer_ok rb (writer_pc s)" using assms(2) read_store(4) by (simp add: spsc_ok_def)
  ultimately have "writer_ok ?rb (writer_pc s)" by (intro writer_ok_mono [of rb _ ?rb]) simp_all
  moreover have "sent s = received s @ rb_queue rb" using assms(2) read_store(4) by (simp add: spsc_ok_def)
  then have "sent s = (received s @ xs) @ drop n (rb_queue rb)" by (simp add: r(2))
  ultimately show ?thesis using q by (simp add: read_store(1) spsc_ok_def reader_ok_def)
qed

lemma spsc_reach_ok:
  assumes "spsc_reach rb s" and "rb_ok rb"
  shows "spsc_ok s"
  using assms
proof (induction rule: spsc_reach.induct)
  case start
  then show ?case by (simp add: spsc_ok_def writer_ok_def reader_ok_def)
next
  case (step s s')
  then show ?case by (blast intro: spsc_step_ok)
qed

section \<open>The steps of a call\<close>

text \<open>The steps of one thread alone, from the first to the last, are the function \<open>RingBuffer_write\<close>.\<close>

lemma writes_Suc:
  assumes ok: "rb_ok rb" and w: "writes_exactly rb src (int i) b" and i: "int i < rb_size rb"
  shows "writes_exactly rb src (int (Suc i)) (b[buf_index rb (rb_write_ptr rb) i := src ! i])"
proof -
  note size = rb_okD [OF ok]
  let ?k = "buf_index rb (rb_write_ptr rb) i"
  have k: "?k < length b" "int ?k = (rb_write_ptr rb + int i) mod rb_size rb"
    using buf_index_less [OF ok] w int_buf_index [OF ok] by (auto simp: writes_exactly_def writes_def)
  have eq: "nat x = ?k \<longleftrightarrow> (x - rb_write_ptr rb) mod rb_size rb = int i" if "0 \<le> x" "x < rb_size rb" for x
  proof -
    have "(x - rb_write_ptr rb) mod rb_size rb = int i \<Longrightarrow> x = (rb_write_ptr rb + int i) mod rb_size rb"
      using that by (metis add.commute add_diff_cancel diff_add_cancel mod_add_left_eq mod_pos_pos_trivial)
    moreover have "x = (rb_write_ptr rb + int i) mod rb_size rb \<Longrightarrow> (x - rb_write_ptr rb) mod rb_size rb = int i"
      using i by (simp add: mod_diff_left_eq mod_pos_pos_trivial)
    ultimately show ?thesis using k(2) that by linarith
  qed
  have "x \<ge> rb_size rb \<Longrightarrow> ?k \<noteq> nat x" for x
    using k(2) pos_mod_bound [of "rb_size rb" "rb_write_ptr rb + int i"] size(1) by linarith
  moreover have "b[?k := src ! i] ! nat x = (let t = (x - rb_write_ptr rb) mod rb_size rb in
      if t < int (Suc i) then src ! nat t else rb_buf rb ! nat x)" if x: "0 \<le> x" "x < rb_size rb" for x
  proof (cases "(x - rb_write_ptr rb) mod rb_size rb = int i")
    case True
    then show ?thesis using eq [OF x] k(1) by simp
  next
    case False
    then have "?k \<noteq> nat x" using eq [OF x] by simp
    then show ?thesis using w x False by (auto simp: writes_exactly_def writes_def Let_def)
  qed
  ultimately show ?thesis using w by (auto simp: writes_exactly_def writes_def)
qed

lemma writes_take:
  assumes "rb_ok rb" and "writes_exactly rb src (int n) b"
  shows "writes_exactly rb (take n src) (int n) b"
proof -
  have "take n src ! nat t = src ! nat t" if "t = x mod rb_size rb" "t < int n" for t x
    using that pos_mod_sign [of "rb_size rb" x] rb_okD(1) [OF assms(1)] by (simp add: nat_less_iff)
  then show ?thesis using assms(2) by (simp add: writes_exactly_def writes_def Let_def)
qed

lemma write_steps:
  assumes ok: "rb_ok rb" and space: "int (length src) \<le> write_space rb"
  shows "writer_pc s = Writer_copying src i \<Longrightarrow> ring_buffer s = rb\<lparr>rb_buf := b\<rparr> \<Longrightarrow>
    writes_exactly rb src (int i) b \<Longrightarrow> i \<le> length src \<Longrightarrow>
    \<exists>b'. writes_exactly rb src (int (length src)) b' \<and> spsc_step\<^sup>*\<^sup>* s
      (s\<lparr>ring_buffer := rb\<lparr>rb_buf := b'\<rparr>, writer_pc := Writer_copying src (length src)\<rparr>)"
proof (induction "length src - i" arbitrary: i s b)
  case 0
  have i: "i = length src" using 0 by simp
  have "s\<lparr>ring_buffer := rb\<lparr>rb_buf := b\<rparr>, writer_pc := Writer_copying src (length src)\<rparr> = s"
    using 0(2) 0(3) [symmetric] unfolding i by simp
  then show ?case using 0(4) unfolding i by (intro exI [of _ b]) simp
next
  case (Suc m)
  let ?k = "buf_index rb (rb_write_ptr rb) i" and ?b = "b[buf_index rb (rb_write_ptr rb) i := src ! i]"
  let ?s = "s\<lparr>ring_buffer := rb\<lparr>rb_buf := ?b\<rparr>, writer_pc := Writer_copying src (Suc i)\<rparr>"
  have i: "i < length src" "int i < rb_size rb"
    using Suc(2) space read_space_bounds [OF ok] by (auto simp: write_space_eq [OF ok])
  have "?k < length b" using buf_index_less [OF ok] Suc.prems(3) by (simp add: writes_exactly_def writes_def)
  then have step: "spsc_step s ?s"
    using write_copy [OF Suc.prems(1) i(1) Suc.prems(2) [symmetric], of ?b] by simp
  have m: "m = length src - Suc i" using Suc.hyps(2) by simp
  have "writes_exactly rb src (int (Suc i)) ?b" by (rule writes_Suc [OF ok Suc.prems(3) i(2)])
  then obtain b' where "writes_exactly rb src (int (length src)) b'"
    "spsc_step\<^sup>*\<^sup>* ?s (?s\<lparr>ring_buffer := rb\<lparr>rb_buf := b'\<rparr>, writer_pc := Writer_copying src (length src)\<rparr>)"
    using Suc.hyps(1) [of "Suc i" ?s ?b] m i(1) by auto
  then show ?case using step by (auto intro: converse_rtranclp_into_rtranclp)
qed

lemma write_call:
  assumes ok: "rb_ok (ring_buffer s)" and idle: "writer_pc s = Writer_idle"
    and w: "RingBuffer_write deep src (int (length src)) (ring_buffer s) = Some (n, rb')"
  shows "spsc_step\<^sup>*\<^sup>* s (s\<lparr>ring_buffer := rb', sent := sent s @ take (nat n) src\<rparr>)"
proof -
  let ?rb = "ring_buffer s" and ?m = "min (length src) (nat (write_space (ring_buffer s)))"
  let ?src = "take ?m src"
  have space: "0 \<le> write_space ?rb" "write_space ?rb < rb_size ?rb"
    using read_space_bounds [OF ok] by (auto simp: write_space_eq [OF ok])
  have len: "length ?src = ?m" by simp
  have le: "int (length ?src) \<le> write_space ?rb" using space by simp
  let ?s0 = "s\<lparr>writer_pc := Writer_copying ?src 0\<rparr>"
  have "spsc_step s ?s0" using write_load [OF idle refl] .
  moreover have "writes_exactly ?rb ?src 0 (rb_buf ?rb)"
    using pos_mod_sign [of "rb_size ?rb"] rb_okD(1) [OF ok] by (auto simp: writes_exactly_def writes_def Let_def simp flip: not_le)
  then obtain b where b: "writes_exactly ?rb ?src (int ?m) b" "spsc_step\<^sup>*\<^sup>* ?s0
      (s\<lparr>ring_buffer := ?rb\<lparr>rb_buf := b\<rparr>, writer_pc := Writer_copying ?src ?m\<rparr>)"
    using write_steps [OF ok le, of ?s0 0 "rb_buf ?rb"] by auto
  moreover have "spsc_step (s\<lparr>ring_buffer := ?rb\<lparr>rb_buf := b\<rparr>, writer_pc := Writer_copying ?src ?m\<rparr>)
      (s\<lparr>ring_buffer := ?rb\<lparr>rb_buf := b, rb_write_ptr := int (buf_index ?rb (rb_write_ptr ?rb) ?m)\<rparr>,
        writer_pc := Writer_idle, sent := sent s @ ?src\<rparr>)" (is "spsc_step ?s1 _")
    using write_store [of ?s1 ?src ?m, OF _ len [symmetric] refl] by simp
  ultimately have "spsc_step\<^sup>*\<^sup>* s
      (s\<lparr>ring_buffer := ?rb\<lparr>rb_buf := b, rb_write_ptr := int (buf_index ?rb (rb_write_ptr ?rb) ?m)\<rparr>,
        writer_pc := Writer_idle, sent := sent s @ ?src\<rparr>)"
    by (meson converse_rtranclp_into_rtranclp rtranclp.rtrancl_into_rtrancl)
  moreover have "n = int ?m \<and> rb' = ?rb\<lparr>rb_buf := b, rb_write_ptr := int (buf_index ?rb (rb_write_ptr ?rb) ?m)\<rparr>"
  proof (cases "write_space ?rb = 0")
    case True
    then have "b = rb_buf ?rb" using b(1) writes_exactly_unique [of ?rb ?src 0] \<open>writes_exactly ?rb ?src 0 (rb_buf ?rb)\<close> by simp
    moreover have "int (buf_index ?rb (rb_write_ptr ?rb) 0) = rb_write_ptr ?rb"
      using rb_okD [OF ok] by (simp add: int_buf_index [OF ok] mod_pos_pos_trivial)
    moreover have "n = 0 \<and> rb' = ?rb" using True w by (simp add: RingBuffer_write_def)
    ultimately show ?thesis using True by simp
  next
    case False
    obtain n1 n2 where s: "split_transfer ?rb (rb_write_ptr ?rb) (int ?m) = (n1, n2)" by fastforce
    obtain b1 b2 where c: "copy deep (rb_buf ?rb) (rb_write_ptr ?rb) src 0 n1 = Some b1"
      "(if n2 \<noteq> 0 then copy deep b1 0 src n1 n2 else Some b1) = Some b2" "writes_exactly ?rb src (int ?m) b2"
      by (rule copy_writes [OF ok _ _ _ s]) (use space in auto)
    have "writes_exactly ?rb ?src (int ?m) b2"
      by (rule writes_take [OF ok c(3)])
    then have "b2 = b" using b(1) by (rule writes_exactly_unique)
    moreover have "(if write_space ?rb < int (length src) then write_space ?rb else int (length src)) = int ?m"
      using space by auto
    ultimately show ?thesis using False w s c(1,2) next_pos_transfer [OF ok rb_okD(6,7) [OF ok] _ _ s] space
      by (auto simp: RingBuffer_write_def Let_def int_buf_index [OF ok])
  qed
  moreover have "s\<lparr>ring_buffer := rb', writer_pc := Writer_idle, sent := sent s @ ?src\<rparr> =
      s\<lparr>ring_buffer := rb', sent := sent s @ ?src\<rparr>" using idle by simp
  ultimately show ?thesis by (simp add: min_def)
qed

section \<open>Properties\<close>

text \<open>C8: 
  What was sent is what was received followed by what the buffer holds, at every moment of a run in which
  the steps of one writer and one reader interleave; a read in progress has copied the next elements.
\<close>

theorem spsc_fifo:
  assumes "spsc_reach rb s" and "rb_ok rb"
  shows "sent s = received s @ rb_queue (ring_buffer s) \<and>
    length (rb_queue (ring_buffer s)) \<le> rb_capacity (ring_buffer s) \<and>
    (\<forall>n xs. reader_pc s = Reader_copying n xs \<longrightarrow>
       xs = take (length xs) (drop (length (received s)) (sent s)))"
proof -
  have ok: "spsc_ok s" by (rule spsc_reach_ok [OF assms])
  then have "reader_ok (ring_buffer s) (reader_pc s)" by (simp add: spsc_ok_def)
  then show ?thesis using ok rb_queue_le_capacity [of "ring_buffer s"]
    by (auto simp: spsc_ok_def reader_ok_def)
qed

text \<open>No step of a copy touches memory outside of the array, and a thread that has started a call can
  always go on, whatever the other thread does.\<close>

theorem spsc_progress:
  assumes "spsc_reach rb s" and "rb_ok rb"
  shows "(\<exists>s'. spsc_step s s' \<and> writer_pc s' \<noteq> writer_pc s \<and> reader_pc s' = reader_pc s) \<and>
    (\<exists>s'. spsc_step s s' \<and> reader_pc s' \<noteq> reader_pc s \<and> writer_pc s' = writer_pc s)"
proof
  have ok: "rb_ok (ring_buffer s)" "writer_ok (ring_buffer s) (writer_pc s)"
    "reader_ok (ring_buffer s) (reader_pc s)"
    using spsc_reach_ok [OF assms] by (auto simp: spsc_ok_def)
  show "\<exists>s'. spsc_step s s' \<and> writer_pc s' \<noteq> writer_pc s \<and> reader_pc s' = reader_pc s"
  proof (cases "writer_pc s")
    case Writer_idle
    from write_load [OF this refl, of "[]"] Writer_idle show ?thesis by fastforce
  next
    case (Writer_copying src i)
    show ?thesis
    proof (cases "i < length src")
      case True
      from write_copy [OF Writer_copying True refl upd_opt_Some [OF buf_index_less [OF ok(1)]]] Writer_copying
      show ?thesis by fastforce
    next
      case False
      then have "i = length src" using ok(2) Writer_copying by (simp add: writer_ok_def)
      from write_store [OF Writer_copying this refl] Writer_copying show ?thesis by fastforce
    qed
  qed
  show "\<exists>s'. spsc_step s s' \<and> reader_pc s' \<noteq> reader_pc s \<and> writer_pc s' = writer_pc s"
  proof (cases "reader_pc s")
    case Reader_idle
    from read_load [OF this refl, of 0] Reader_idle show ?thesis by fastforce
  next
    case (Reader_copying n xs)
    show ?thesis
    proof (cases "length xs < n")
      case True
      from read_copy [OF Reader_copying True refl nth_opt_Some [OF buf_index_less [OF ok(1)]]] Reader_copying
      show ?thesis by fastforce
    next
      case False
      then have "length xs = n" using ok(3) Reader_copying by (simp add: reader_ok_def)
      from read_store [OF Reader_copying this refl] Reader_copying show ?thesis by fastforce
    qed
  qed
qed

text \<open>A buffer for one element, after 7 was written and while it is being read.\<close>

definition small_ring :: "nat list \<Rightarrow> int \<Rightarrow> nat RingBuffer" where
  "small_ring buf w = \<lparr>rb_buf = buf, rb_size = 2, rb_wrap_elements = 0, rb_write_ptr = w, rb_read_ptr = 0, rb_size_mask = 1\<rparr>"

definition small_state :: "nat RingBuffer \<Rightarrow> nat writer_pc \<Rightarrow> nat reader_pc \<Rightarrow> nat list \<Rightarrow> nat spsc" where
  "small_state rb w r xs = \<lparr>ring_buffer = rb, writer_pc = w, reader_pc = r, sent = xs, received = []\<rparr>"

lemma small_ring_ok: "rb_ok (small_ring [0, 0] 0)"
  by (auto simp: rb_ok_def small_ring_def intro: exI [of _ 1])

lemma small_reach:
  "spsc_reach (small_ring [0, 0] 0) (small_state (small_ring [7, 0] 1) Writer_idle (Reader_copying 1 [7]) [7])"
proof -
  let ?rb = "small_ring [0, 0] 0"
  have s0: "spsc_reach ?rb (small_state ?rb Writer_idle Reader_idle [])"
    using spsc_reach.start [of ?rb] by (simp add: small_state_def small_ring_def rb_queue_def read_space_def)
  have s1: "spsc_step (small_state ?rb Writer_idle Reader_idle []) (small_state ?rb (Writer_copying [7] 0) Reader_idle [])"
    using write_load [of "small_state ?rb Writer_idle Reader_idle []" 1 "[7]"]
    by (simp add: small_state_def small_ring_def write_space_def)
  have s2: "spsc_step (small_state ?rb (Writer_copying [7] 0) Reader_idle [])
      (small_state (small_ring [7, 0] 0) (Writer_copying [7] 1) Reader_idle [])"
    using write_copy [of "small_state ?rb (Writer_copying [7] 0) Reader_idle []" "[7]" 0 ?rb "[7, 0]"]
    by (simp add: small_state_def small_ring_def buf_index_def upd_opt_def)
  have s3: "spsc_step (small_state (small_ring [7, 0] 0) (Writer_copying [7] 1) Reader_idle [])
      (small_state (small_ring [7, 0] 1) Writer_idle Reader_idle [7])"
    using write_store [of "small_state (small_ring [7, 0] 0) (Writer_copying [7] 1) Reader_idle []" "[7]" 1 "small_ring [7, 0] 0"]
    by (simp add: small_state_def small_ring_def buf_index_def)
  have s4: "spsc_step (small_state (small_ring [7, 0] 1) Writer_idle Reader_idle [7])
      (small_state (small_ring [7, 0] 1) Writer_idle (Reader_copying 1 []) [7])"
    using read_load [of "small_state (small_ring [7, 0] 1) Writer_idle Reader_idle [7]" 1 1]
    by (simp add: small_state_def small_ring_def read_space_def)
  have s5: "spsc_step (small_state (small_ring [7, 0] 1) Writer_idle (Reader_copying 1 []) [7])
      (small_state (small_ring [7, 0] 1) Writer_idle (Reader_copying 1 [7]) [7])"
    using read_copy [of "small_state (small_ring [7, 0] 1) Writer_idle (Reader_copying 1 []) [7]" 1 "[]" "small_ring [7, 0] 1" 7]
    by (simp add: small_state_def small_ring_def buf_index_def nth_opt_def)
  show ?thesis by (rule spsc_reach.step [OF spsc_reach.step [OF spsc_reach.step [OF spsc_reach.step [OF
    spsc_reach.step [OF s0 s1] s2] s3] s4] s5])
qed

lemma spsc_fifo_witness:
  "let s = small_state (small_ring [7, 0] 1) Writer_idle (Reader_copying 1 [7]) [7] in
     sent s = received s @ rb_queue (ring_buffer s) \<and> rb_queue (ring_buffer s) = [7]"
  using spsc_fifo [OF small_reach small_ring_ok] by (simp add: small_state_def)

lemma spsc_progress_witness:
  "\<exists>s'. spsc_step (small_state (small_ring [7, 0] 1) Writer_idle (Reader_copying 1 [7]) [7]) s' \<and> reader_pc s' \<noteq> Reader_copying 1 [7]"
  using spsc_progress [OF small_reach small_ring_ok] by (auto simp: small_state_def)

end
