(* ===== verification/DiskStream.thy ===== *)
theory DiskStream
  imports RingBuffer "HOL-Library.Signed_Division"
begin

text \<open>
  Disk streams: \<open>Stream\<close> and \<open>StreamBase\<close> of \<open>src/src/engines/common\<close> and the \<open>Read\<close> and \<open>Launch\<close>
  methods of the stream class of the SoundFont engine (\<open>src/src/engines/sf2/Stream.cpp\<close>); the other engines have the
  same code for their own sample classes, with a cache of samples that is told about the use in \<open>sfz\<close>. The
  disk thread fills a stream's ring buffer, a voice of the audio thread empties it.

  Stream objects and the clients' \<open>reference_t\<close> objects live in stores, as both threads point to them; a
  method works on the store and the number of its stream. The samples of an instrument are files that
  other libraries read: the operations the code uses of them are the fields of \<open>samples\<close>.
\<close>

section \<open>Data\<close>

type_synonym OrderID_t = "32 word"
type_synonym Handle = "32 word"

definition INVALID_HANDLE :: Handle where
  "INVALID_HANDLE = 0"

datatype state_t = state_unused | state_active | state_end

record reference_t =
  rf_OrderID :: OrderID_t
  rf_hStream :: Handle
  rf_State :: state_t
  rf_pStream :: "nat option"

record SampleDescription =
  FrameSize :: int
  ChannelsPerFrame :: int
  BytesPerSample :: int
  TotalSampleCount :: int

record PlaybackState =
  pb_position :: int
  pb_reverse :: bool
  pb_loop_cycles_left :: int

record 'r Stream =
  st_pExportReference :: "nat option"
  st_State :: state_t
  st_hThis :: Handle
  st_PlaybackState :: PlaybackState
  st_pRingBuffer :: "8 word RingBuffer"
  st_SampleInfo :: SampleDescription
  st_SampleOffset :: int
  st_pRegion :: "'r option"
  st_DoLoop :: bool

text \<open>\<open>UnusedStreams\<close> and \<open>TotalStreams\<close> are static members: the streams of all engines share them.\<close>

record 'r streams =
  references :: "nat \<Rightarrow> reference_t"
  stream_objects :: "'r Stream list"
  UnusedStreams :: "32 word"
  TotalStreams :: "32 word"

record 'r samples =
  GetFrameSize :: "'r \<Rightarrow> int"
  GetChannelCount :: "'r \<Rightarrow> int"
  GetTotalFrameCount :: "'r \<Rightarrow> int"
  sample_SetPos :: "'r \<Rightarrow> int \<Rightarrow> int" \<comment> \<open>the position after \<open>SetPos\<close>\<close>
  sample_Read :: "'r \<Rightarrow> int \<Rightarrow> int \<Rightarrow> 8 word list list \<times> int"
    \<comment> \<open>position and number of frames to the frames read and the position after them\<close>
  sample_ReadAndLoop :: "'r \<Rightarrow> PlaybackState \<Rightarrow> int \<Rightarrow> 8 word list list \<times> PlaybackState"

definition upd_stream :: "nat \<Rightarrow> ('r Stream \<Rightarrow> 'r Stream) \<Rightarrow> ('r, 'z) streams_scheme \<Rightarrow> ('r, 'z) streams_scheme" where
  "upd_stream i f e = e\<lparr>stream_objects := (stream_objects e)[i := f (stream_objects e ! i)]\<rparr>"

definition the_stream :: "nat \<Rightarrow> ('r, 'z) streams_scheme \<Rightarrow> 'r Stream option" where
  "the_stream i e = nth_opt (stream_objects e) i"

text \<open>Division of C++ integers.\<close>

definition cdiv :: "int \<Rightarrow> int \<Rightarrow> int option" where
  "cdiv a b = (if b = 0 then None else Some (a sdiv b))"

section \<open>Stream\<close>

definition Stream_new :: "(nat \<Rightarrow> 8 word) \<Rightarrow> SampleDescription \<Rightarrow> int \<Rightarrow> int \<Rightarrow> 'r Stream option" where
  \<comment> \<open>\<open>mem\<close> and \<open>info\<close> are what the memory contains that the constructor does not set\<close>
  "Stream_new mem info BufferSize BufferWrapElements = do {
     rb \<leftarrow> RingBuffer_new mem (BufferSize * 3) (BufferWrapElements * 3);
     Some \<lparr>st_pExportReference = None, st_State = state_unused, st_hThis = 0,
       st_PlaybackState = \<lparr>pb_position = 0, pb_reverse = False, pb_loop_cycles_left = 0\<rparr>,
       st_pRingBuffer = rb, st_SampleInfo = info, st_SampleOffset = 0, st_pRegion = None,
       st_DoLoop = False\<rparr> }"

definition GetReadSpace :: "'r Stream \<Rightarrow> int option" where
  "GetReadSpace st = (if st_State st \<noteq> state_unused
     then cdiv (read_space (st_pRingBuffer st)) (BytesPerSample (st_SampleInfo st)) else Some 0)"

definition GetWriteSpace :: "'r Stream \<Rightarrow> int option" where
  "GetWriteSpace st = (if st_State st = state_active
     then cdiv (write_space (st_pRingBuffer st)) (BytesPerSample (st_SampleInfo st)) else Some 0)"

definition GetWriteSpaceToEnd :: "'r Stream \<Rightarrow> int option" where
  "GetWriteSpaceToEnd st = (if st_State st = state_active
     then cdiv (write_space_to_end_with_wrap (st_pRingBuffer st)) (BytesPerSample (st_SampleInfo st))
     else Some 0)"

definition AdjustWriteSpaceToAvoidBoundary :: "int \<Rightarrow> int \<Rightarrow> 'r Stream \<Rightarrow> int option" where
  "AdjustWriteSpaceToAvoidBoundary cnt capped_cnt st =
     (let b = BytesPerSample (st_SampleInfo st) in
      cdiv (adjust_write_space_to_avoid_boundary (cnt * b) (capped_cnt * b) (st_pRingBuffer st)) b)"

definition SetState :: "nat \<Rightarrow> state_t \<Rightarrow> ('r, 'z) streams_scheme \<Rightarrow> ('r, 'z) streams_scheme option" where
  "SetState i s e = do {
     st \<leftarrow> the_stream i e;
     let e = (case st_pExportReference st of None \<Rightarrow> e
       | Some r \<Rightarrow> e\<lparr>references := (references e)(r := (references e r)\<lparr>rf_State := s\<rparr>)\<rparr>);
     Some (upd_stream i (\<lambda>st. st\<lparr>st_State := s\<rparr>) e) }"

definition Stream_Reset :: "nat \<Rightarrow> ('r, 'z) streams_scheme \<Rightarrow> ('r, 'z) streams_scheme option" where
  "Stream_Reset i e = do {
     st \<leftarrow> the_stream i e;
     let e = upd_stream i (\<lambda>st. st\<lparr>st_SampleOffset := 0, st_pRegion := None,
       st_PlaybackState := (st_PlaybackState st)\<lparr>pb_position := 0, pb_reverse := False\<rparr>, st_hThis := 0,
       st_pRingBuffer := RingBuffer_init (st_pRingBuffer st)\<rparr>) e;
     if st_State st \<noteq> state_unused
     then (let e = (case st_pExportReference st of None \<Rightarrow> e
             | Some r \<Rightarrow> e\<lparr>references := (references e)(r := (references e r)\<lparr>rf_State := state_unused\<rparr>)\<rparr>)
       in Some (upd_stream i (\<lambda>st. st\<lparr>st_pExportReference := None, st_State := state_unused\<rparr>)
                 (e\<lparr>UnusedStreams := UnusedStreams e + 1\<rparr>)))
     else Some e }"

definition Stream_Kill :: "nat \<Rightarrow> ('r, 'z) streams_scheme \<Rightarrow> ('r, 'z) streams_scheme option" where
  "Stream_Kill i e = Stream_Reset i (upd_stream i (\<lambda>st. st\<lparr>st_pExportReference := None\<rparr>) e)"

definition IncrementReadPos :: "nat \<Rightarrow> 32 word \<Rightarrow> ('r, 'z) streams_scheme \<Rightarrow> ('r, 'z) streams_scheme option" where
  "IncrementReadPos i Count e = do {
     st \<leftarrow> the_stream i e;
     let Count = Count * word_of_int (BytesPerSample (st_SampleInfo st));
     let leftspace = (word_of_int (read_space (st_pRingBuffer st)) :: 32 word);
     let e = upd_stream i (\<lambda>st. st\<lparr>st_pRingBuffer :=
       increment_read_ptr (uint (min Count leftspace)) (st_pRingBuffer st)\<rparr>) e;
     if st_State st = state_end \<and> leftspace \<le> Count then Stream_Reset i e else Some e }"

section \<open>StreamBase\<close>

text \<open>Bytes that are written to the memory at \<open>get_write_ptr()\<close>, the wrap space included.\<close>

definition write_at_write_ptr :: "8 word list \<Rightarrow> 8 word RingBuffer \<Rightarrow> 8 word RingBuffer option" where
  "write_at_write_ptr bytes rb = do {
     buf \<leftarrow> copy True (rb_buf rb) (rb_write_ptr rb) bytes 0 (int (length bytes));
     Some (rb\<lparr>rb_buf := buf\<rparr>) }"

definition StreamBase_Launch :: "nat \<Rightarrow> Handle \<Rightarrow> nat option \<Rightarrow> 'r \<Rightarrow> SampleDescription \<Rightarrow> PlaybackState \<Rightarrow>
    int \<Rightarrow> bool \<Rightarrow> ('r, 'z) streams_scheme \<Rightarrow> ('r, 'z) streams_scheme option" where
  "StreamBase_Launch i hStream pExportReference pRgn info playback SampleOffset DoLoop e =
     SetState i state_active
       (upd_stream i (\<lambda>st. st\<lparr>st_pExportReference := pExportReference, st_hThis := hStream,
          st_pRegion := Some pRgn, st_SampleInfo := info, st_PlaybackState := playback,
          st_SampleOffset := SampleOffset, st_DoLoop := DoLoop\<rparr>)
        (e\<lparr>UnusedStreams := UnusedStreams e - 1\<rparr>))"

text \<open>
  \<open>Stream::Read\<close> of an engine: the loop over \<open>pSample->Read()\<close>, and the whole method, with the number
  of frames and the bytes they have in the buffer. A sample that returned more frames than asked for
  would have overrun the buffer.
\<close>

function read_frames :: "('r, 'y) samples_scheme \<Rightarrow> 'r \<Rightarrow> int \<Rightarrow> int \<Rightarrow> (8 word list list \<times> int) option" where
  "read_frames sm r pos n =
     (let (frames, pos) = sample_Read sm r pos n; k = int (length frames) in
      if n < k then None
      else if n - k \<noteq> 0 \<and> 0 < k
      then map_option (\<lambda>(fs, p). (frames @ fs, p)) (read_frames sm r pos (n - k))
      else Some (frames, pos))"
  by pat_completeness auto
termination
  by (relation "measure (\<lambda>(_, _, _, n). nat n)") auto

declare read_frames.simps [simp del]

definition Stream_Read :: "('r, 'y) samples_scheme \<Rightarrow> nat \<Rightarrow> int \<Rightarrow> ('r, 'z) streams_scheme \<Rightarrow>
    (int \<times> 8 word list \<times> ('r, 'z) streams_scheme) option" where
  "Stream_Read sm i n e = do {
     st \<leftarrow> the_stream i e;
     r \<leftarrow> st_pRegion st;
     (frames, ended, e) \<leftarrow>
       (if st_DoLoop st
        then (let (frames, pb) = sample_ReadAndLoop sm r (st_PlaybackState st) n in
          if n < int (length frames) then None
          else Some (frames, GetTotalFrameCount sm r \<le> pb_position pb,
                 upd_stream i (\<lambda>st. st\<lparr>st_PlaybackState := pb\<rparr>) e))
        else map_option (\<lambda>(frames, pos). (frames, GetTotalFrameCount sm r \<le> pos,
                 upd_stream i (\<lambda>st. st\<lparr>st_SampleOffset := pos\<rparr>) e))
               (read_frames sm r (sample_SetPos sm r (st_SampleOffset st)) n));
     e \<leftarrow> SetState i (if ended then state_end else state_active) e;
     Some (int (length frames), concat frames, e) }"

definition ReadAhead :: "('r, 'y) samples_scheme \<Rightarrow> nat \<Rightarrow> int \<Rightarrow> ('r, 'z) streams_scheme \<Rightarrow>
    (int \<times> ('r, 'z) streams_scheme) option" where
  "ReadAhead sm i SampleCount e = do {
     st \<leftarrow> the_stream i e;
     if st_State st = state_unused then Some (- 1, e)
     else if st_State st = state_end then Some (0, e)
     else if SampleCount = 0 then Some (0, e)
     else if write_space (st_pRingBuffer st) = 0 then Some (0, e)
     else do {
       samplestoread \<leftarrow> cdiv SampleCount (ChannelsPerFrame (st_SampleInfo st));
       (total_readsamples, bytes, e) \<leftarrow> Stream_Read sm i samplestoread e;
       rb \<leftarrow> write_at_write_ptr bytes (st_pRingBuffer st);
       rb \<leftarrow> increment_write_ptr_with_wrap False (total_readsamples * FrameSize (st_SampleInfo st)) rb;
       Some (total_readsamples, upd_stream i (\<lambda>st. st\<lparr>st_pRingBuffer := rb\<rparr>) e) } }"

definition WriteSilence :: "nat \<Rightarrow> int \<Rightarrow> ('r, 'z) streams_scheme \<Rightarrow> ('r, 'z) streams_scheme option" where
  "WriteSilence i SilenceSampleWords e = do {
     st \<leftarrow> the_stream i e;
     let n = SilenceSampleWords * BytesPerSample (st_SampleInfo st);
     rb \<leftarrow> write_at_write_ptr (replicate (nat n) 0) (st_pRingBuffer st);
     rb \<leftarrow> increment_write_ptr_with_wrap False n rb;
     Some (upd_stream i (\<lambda>st. st\<lparr>st_pRingBuffer := rb\<rparr>) e) }"

text \<open>\<open>Stream::Launch\<close> of an engine.\<close>

definition Stream_Launch :: "('r, 'y) samples_scheme \<Rightarrow> nat \<Rightarrow> Handle \<Rightarrow> nat option \<Rightarrow> 'r \<Rightarrow> int \<Rightarrow> bool \<Rightarrow>
    ('r, 'z) streams_scheme \<Rightarrow> ('r, 'z) streams_scheme option" where
  "Stream_Launch sm i hStream pExportReference pRgn SampleOffset DoLoop e = do {
     bytes \<leftarrow> cdiv (GetFrameSize sm pRgn) (GetChannelCount sm pRgn);
     StreamBase_Launch i hStream pExportReference pRgn
       \<lparr>FrameSize = GetFrameSize sm pRgn, ChannelsPerFrame = GetChannelCount sm pRgn,
        BytesPerSample = bytes, TotalSampleCount = GetTotalFrameCount sm pRgn\<rparr>
       \<lparr>pb_position = SampleOffset, pb_reverse = False, pb_loop_cycles_left = 0\<rparr>
       SampleOffset DoLoop e }"

end
