(* ===== verification/DiskThread.thy ===== *)
theory DiskThread
  imports DiskStream
begin

text \<open>
  The disk thread, \<open>src/src/engines/common/DiskThreadBase.h\<close>. The audio thread orders streams and their
  deletion through command queues and picks up the streams that were created from \<open>pCreatedStreams\<close>,
  an array of slots that order IDs index; the disk thread executes the commands and refills the streams.
  \<open>disk_thread\<close> extends the store of streams by the members of the class; calls to other parts of the
  sampler (\<open>HandBackRegion\<close>, \<open>ExecuteProgramChange\<close>) are recorded in lists.
\<close>

section \<open>State\<close>

record 'r create_command_t =
  cc_OrderID :: OrderID_t
  cc_hStream :: Handle
  cc_pStreamRef :: nat
  cc_pRegion :: 'r
  cc_SampleOffset :: int
  cc_DoLoop :: bool

record delete_command_t =
  dc_pStream :: "nat option"
  dc_hStream :: Handle
  dc_OrderID :: OrderID_t
  dc_bNotify :: bool

record program_change_command_t =
  pc_Program :: nat
  pc_pEngineChannel :: nat

datatype slot = Slot_NULL | SLOT_RESERVED | Slot_stream nat

record 'r disk_thread = "'r streams" +
  IsIdle :: bool
  Streams :: nat
  CreationQueue :: "'r create_command_t RingBuffer"
  DeletionQueue :: "delete_command_t RingBuffer"
  GhostQueue :: "delete_command_t RingBuffer"
  DeletionNotificationQueue :: "Handle RingBuffer"
  DeleteRegionQueue :: "'r RingBuffer"
  ProgramChangeQueue :: "program_change_command_t RingBuffer"
  RefillStreamsPerRun :: nat
  pStreams :: "nat list" \<comment> \<open>numbers of stream objects\<close>
  pCreatedStreams :: "slot list"
  handle_counter :: "32 word" \<comment> \<open>the static variable of \<open>CreateHandle\<close>\<close>
  order_counter :: OrderID_t \<comment> \<open>the static variable of \<open>CreateOrderID\<close>\<close>
  ActiveStreamCount :: int
  ActiveStreamCountMax :: int
  handed_back :: "'r list"
  program_changes :: "(nat \<times> nat) list" \<comment> \<open>engine channel and program\<close>

definition CONFIG_STREAM_MIN_REFILL_SIZE :: int where
  "CONFIG_STREAM_MIN_REFILL_SIZE = 1024"

definition CONFIG_STREAM_MAX_REFILL_SIZE :: int where
  "CONFIG_STREAM_MAX_REFILL_SIZE = 65536"

text \<open>Pushing to and popping from a queue of commands; \<open>d\<close> is the uninitialised variable of the caller.\<close>

definition push_to :: "'a \<Rightarrow> 'a RingBuffer \<Rightarrow> 'a RingBuffer option" where
  "push_to x q = map_option snd (RingBuffer_push False x q)"

definition pop_from :: "'a RingBuffer \<Rightarrow> ('a \<times> 'a RingBuffer) option" where
  "pop_from q = do { d \<leftarrow> nth_opt (rb_buf q) 0; (_, x, q) \<leftarrow> RingBuffer_pop False d q; Some (x, q) }"

section \<open>Commands of the audio thread\<close>

definition CreateHandle :: "'r disk_thread \<Rightarrow> Handle \<times> 'r disk_thread" where
  "CreateHandle t =
     (let counter = (if handle_counter t = 0xffffffff then 1 else handle_counter t + 1)
      in (counter, t\<lparr>handle_counter := counter\<rparr>))"

fun CreateOrderID_loop :: "nat \<Rightarrow> 'r disk_thread \<Rightarrow> (OrderID_t \<times> 'r disk_thread) option" where
  "CreateOrderID_loop 0 t = Some (0, t)"
| "CreateOrderID_loop (Suc k) t =
     (let counter = (if order_counter t = of_nat (Streams t) then 1 else order_counter t + 1);
          t = t\<lparr>order_counter := counter\<rparr> in do {
        slot \<leftarrow> nth_opt (pCreatedStreams t) (unat counter);
        if slot = Slot_NULL
        then Some (counter, t\<lparr>pCreatedStreams := (pCreatedStreams t)[unat counter := SLOT_RESERVED]\<rparr>)
        else CreateOrderID_loop k t })"

definition CreateOrderID :: "'r disk_thread \<Rightarrow> (OrderID_t \<times> 'r disk_thread) option" where
  "CreateOrderID t = CreateOrderID_loop (Streams t) t"

definition OrderNewStream :: "nat \<Rightarrow> 'r \<Rightarrow> int \<Rightarrow> bool \<Rightarrow> 'r disk_thread \<Rightarrow> (int \<times> 'r disk_thread) option" where
  "OrderNewStream pStreamRef pRegion SampleOffset DoLoop t =
     (if write_space (CreationQueue t) < 1 then Some (- 1, t)
      else do {
        (newOrder, t) \<leftarrow> CreateOrderID t;
        if newOrder = 0 then Some (- 1, t)
        else do {
          let (h, t) = CreateHandle t;
          let ref = \<lparr>rf_OrderID = newOrder, rf_hStream = h, rf_State = state_active, rf_pStream = None\<rparr>;
          let t = t\<lparr>references := (references t)(pStreamRef := ref)\<rparr>;
          q \<leftarrow> push_to \<lparr>cc_OrderID = newOrder, cc_hStream = h, cc_pStreamRef = pStreamRef,
                 cc_pRegion = pRegion, cc_SampleOffset = SampleOffset, cc_DoLoop = DoLoop\<rparr> (CreationQueue t);
          Some (0, t\<lparr>CreationQueue := q\<rparr>) } })"

definition OrderDeletionOfStream :: "nat \<Rightarrow> bool \<Rightarrow> 'r disk_thread \<Rightarrow> (int \<times> 'r disk_thread) option" where
  "OrderDeletionOfStream pStreamRef bRequestNotification t =
     (if write_space (DeletionQueue t) < 1 then Some (- 1, t)
      else do {
        let ref = references t pStreamRef;
        q \<leftarrow> push_to \<lparr>dc_pStream = rf_pStream ref, dc_hStream = rf_hStream ref, dc_OrderID = rf_OrderID ref,
               dc_bNotify = bRequestNotification\<rparr> (DeletionQueue t);
        Some (0, t\<lparr>DeletionQueue := q\<rparr>) })"

definition OrderDeletionOfRegion :: "'r \<Rightarrow> 'r disk_thread \<Rightarrow> (int \<times> 'r disk_thread) option" where
  "OrderDeletionOfRegion pReg t =
     (if write_space (DeleteRegionQueue t) < 1 then Some (- 1, t)
      else do { q \<leftarrow> push_to pReg (DeleteRegionQueue t); Some (0, t\<lparr>DeleteRegionQueue := q\<rparr>) })"

definition OrderProgramChange :: "nat \<Rightarrow> nat \<Rightarrow> 'r disk_thread \<Rightarrow> (int \<times> 'r disk_thread) option" where
  "OrderProgramChange Program pEngineChannel t =
     (if write_space (ProgramChangeQueue t) < 1 then Some (- 1, t)
      else do {
        q \<leftarrow> push_to \<lparr>pc_Program = Program, pc_pEngineChannel = pEngineChannel\<rparr> (ProgramChangeQueue t);
        Some (0, t\<lparr>ProgramChangeQueue := q\<rparr>) })"

definition AskForCreatedStream :: "OrderID_t \<Rightarrow> 'r disk_thread \<Rightarrow> (nat option \<times> 'r disk_thread) option" where
  "AskForCreatedStream StreamOrderID t = do {
     slot \<leftarrow> nth_opt (pCreatedStreams t) (unat StreamOrderID);
     (case slot of
        Slot_stream i \<Rightarrow> Some (Some i,
          t\<lparr>pCreatedStreams := (pCreatedStreams t)[unat StreamOrderID := Slot_NULL]\<rparr>)
      | _ \<Rightarrow> Some (None, t)) }"

definition AskForDeletedStream :: "'r disk_thread \<Rightarrow> (Handle \<times> 'r disk_thread) option" where
  "AskForDeletedStream t = (if read_space (DeletionNotificationQueue t) \<noteq> 0
     then do { (h, q) \<leftarrow> pop_from (DeletionNotificationQueue t);
               Some (h, t\<lparr>DeletionNotificationQueue := q\<rparr>) }
     else Some (INVALID_HANDLE, t))"

section \<open>Executing commands\<close>

definition stream_unused :: "'r disk_thread \<Rightarrow> nat \<Rightarrow> bool" where
  "stream_unused t i \<longleftrightarrow> map_option st_State (the_stream i t) = Some state_unused"

definition notify :: "bool \<Rightarrow> Handle \<Rightarrow> 'r disk_thread \<Rightarrow> 'r disk_thread option" where
  "notify bNotify h t = (if bNotify
     then map_option (\<lambda>q. t\<lparr>DeletionNotificationQueue := q\<rparr>) (push_to h (DeletionNotificationQueue t))
     else Some t)"

definition CreateStream :: "('r, 'y) samples_scheme \<Rightarrow> 'r create_command_t \<Rightarrow> 'r disk_thread \<Rightarrow> 'r disk_thread option" where
  \<comment> \<open>the search starts at the end of \<open>pStreams\<close>\<close>
  "CreateStream sm cmd t = (case find (stream_unused t) (rev (take (Streams t) (pStreams t))) of
     None \<Rightarrow> Some t
   | Some newstream \<Rightarrow> do {
       t \<leftarrow> Stream_Launch sm newstream (cc_hStream cmd) (Some (cc_pStreamRef cmd)) (cc_pRegion cmd)
              (cc_SampleOffset cmd) (cc_DoLoop cmd) t;
       slot \<leftarrow> nth_opt (pCreatedStreams t) (unat (cc_OrderID cmd));
       if slot \<noteq> SLOT_RESERVED then Stream_Kill newstream t
       else Some (t\<lparr>pCreatedStreams := (pCreatedStreams t)[unat (cc_OrderID cmd) := Slot_stream newstream]\<rparr>) })"

definition DeleteStream :: "delete_command_t \<Rightarrow> 'r disk_thread \<Rightarrow> 'r disk_thread option" where
  "DeleteStream cmd t = (case dc_pStream cmd of
     Some i \<Rightarrow> do { t \<leftarrow> Stream_Kill i t; notify (dc_bNotify cmd) (dc_hStream cmd) t }
   | None \<Rightarrow> do {
       slot \<leftarrow> nth_opt (pCreatedStreams t) (unat (dc_OrderID cmd));
       (case slot of
          Slot_stream i \<Rightarrow> do {
            t \<leftarrow> Stream_Kill i t;
            let t = t\<lparr>pCreatedStreams := (pCreatedStreams t)[unat (dc_OrderID cmd) := Slot_NULL]\<rparr>;
            notify (dc_bNotify cmd) (dc_hStream cmd) t }
        | _ \<Rightarrow> if 0 < write_space (GhostQueue t)
               then map_option (\<lambda>q. t\<lparr>GhostQueue := q\<rparr>) (push_to cmd (GhostQueue t))
               else Some t) })"

definition RefillStream :: "('r, 'y) samples_scheme \<Rightarrow> nat \<Rightarrow> 'r disk_thread \<Rightarrow> (bool \<times> 'r disk_thread) option" where
  \<comment> \<open>one pass of the loop, with false where it breaks off\<close>
  "RefillStream sm i t = do {
     st \<leftarrow> the_stream i t;
     if st_State st \<noteq> state_active then Some (True, t)
     else do {
       writespace \<leftarrow> GetWriteSpaceToEnd st;
       if writespace = 0 then Some (False, t)
       else do {
         read_amount \<leftarrow> AdjustWriteSpaceToAvoidBoundary writespace
           (if CONFIG_STREAM_MAX_REFILL_SIZE < writespace then CONFIG_STREAM_MAX_REFILL_SIZE else writespace) st;
         (n, t) \<leftarrow> ReadAhead sm i read_amount t;
         Some (True, if CONFIG_STREAM_MIN_REFILL_SIZE < n then t\<lparr>IsIdle := False\<rparr> else t) } } }"

fun RefillStreams_loop :: "('r, 'y) samples_scheme \<Rightarrow> nat list \<Rightarrow> nat \<Rightarrow> 'r disk_thread \<Rightarrow> 'r disk_thread option" where
  \<comment> \<open>the rest of \<open>pStreams\<close> and the number of passes; beyond its end the code reads a wild pointer\<close>
  "RefillStreams_loop sm is 0 t = Some t"
| "RefillStreams_loop sm [] (Suc k) t = None"
| "RefillStreams_loop sm (i # is) (Suc k) t = do {
     (go, t) \<leftarrow> RefillStream sm i t;
     if go then RefillStreams_loop sm is k t else Some t }"

text \<open>\<open>CompareStreamWriteSpace\<close> orders by descending write space; \<open>qsort\<close> may order equal ones at will.\<close>

definition stream_write_space :: "'r disk_thread \<Rightarrow> nat \<Rightarrow> int" where
  "stream_write_space t i = (case Option.bind (the_stream i t) GetWriteSpace of Some n \<Rightarrow> n | None \<Rightarrow> 0)"

definition CompareStreamWriteSpace :: "'r disk_thread \<Rightarrow> nat \<Rightarrow> nat \<Rightarrow> int" where
  "CompareStreamWriteSpace t a b = stream_write_space t b - stream_write_space t a"

fun insert_stream :: "'r disk_thread \<Rightarrow> nat \<Rightarrow> nat list \<Rightarrow> nat list" where
  "insert_stream t i [] = [i]"
| "insert_stream t i (j # js) =
     (if CompareStreamWriteSpace t i j \<le> 0 then i # j # js else j # insert_stream t i js)"

definition sort_streams :: "'r disk_thread \<Rightarrow> nat list \<Rightarrow> nat list" where
  "sort_streams t is = foldr (insert_stream t) is []"

definition RefillStreams :: "('r, 'y) samples_scheme \<Rightarrow> 'r disk_thread \<Rightarrow> 'r disk_thread option" where
  "RefillStreams sm t =
     (let t = t\<lparr>pStreams := sort_streams t (take (Streams t) (pStreams t))\<rparr> in
      RefillStreams_loop sm (pStreams t) (RefillStreamsPerRun t) t)"

section \<open>The main loop\<close>

text \<open>
  The loops of one pass of \<open>Main()\<close>. Each takes the number of elements that its queue has at the
  start, which bounds the number of passes, as each pass takes an element from the queue.
\<close>

definition kill_ghost :: "delete_command_t \<Rightarrow> 'r disk_thread \<Rightarrow> 'r disk_thread option" where
  "kill_ghost ghost t =
     (case find (\<lambda>i. map_option st_hThis (the_stream i t) = Some (dc_hStream ghost)) (take (Streams t) (pStreams t)) of
        Some i \<Rightarrow> do { t \<leftarrow> Stream_Kill i t; notify (dc_bNotify ghost) (dc_hStream ghost) t }
      | None \<Rightarrow> map_option (\<lambda>q. t\<lparr>GhostQueue := q\<rparr>) (push_to ghost (GhostQueue t)))"

fun ghost_loop :: "nat \<Rightarrow> int \<Rightarrow> 'r disk_thread \<Rightarrow> 'r disk_thread option" where
  "ghost_loop 0 i t = Some t"
| "ghost_loop (Suc k) i t = (if i < read_space (GhostQueue t)
     then do {
       (ghost, q) \<leftarrow> pop_from (GhostQueue t);
       t \<leftarrow> kill_ghost ghost (t\<lparr>GhostQueue := q\<rparr>);
       ghost_loop k (i + 1) t }
     else Some t)"

fun creation_loop :: "('r, 'y) samples_scheme \<Rightarrow> nat \<Rightarrow> 'r disk_thread \<Rightarrow> 'r disk_thread option" where
  "creation_loop sm 0 t = Some t"
| "creation_loop sm (Suc k) t = (if 0 < UnusedStreams t \<and> 0 < read_space (CreationQueue t)
     then do {
       (cmd, q) \<leftarrow> pop_from (CreationQueue t);
       t \<leftarrow> CreateStream sm cmd (t\<lparr>CreationQueue := q\<rparr>);
       creation_loop sm k t }
     else Some t)"

fun deletion_loop :: "nat \<Rightarrow> 'r disk_thread \<Rightarrow> 'r disk_thread option" where
  "deletion_loop 0 t = Some t"
| "deletion_loop (Suc k) t = (if UnusedStreams t < TotalStreams t \<and> 0 < read_space (DeletionQueue t)
     then do {
       (cmd, q) \<leftarrow> pop_from (DeletionQueue t);
       t \<leftarrow> DeleteStream cmd (t\<lparr>DeletionQueue := q\<rparr>);
       deletion_loop k t }
     else Some t)"

fun region_loop :: "nat \<Rightarrow> 'r disk_thread \<Rightarrow> 'r disk_thread option" where
  "region_loop 0 t = Some t"
| "region_loop (Suc k) t = (if 0 < read_space (DeleteRegionQueue t)
     then do {
       (r, q) \<leftarrow> pop_from (DeleteRegionQueue t);
       region_loop k (t\<lparr>DeleteRegionQueue := q, handed_back := handed_back t @ [r]\<rparr>) }
     else Some t)"

text \<open>\<open>cmds[cmd.pEngineChannel] = cmd.Program\<close>, in a map ordered by its keys.\<close>

fun put_program :: "nat \<Rightarrow> nat \<Rightarrow> (nat \<times> nat) list \<Rightarrow> (nat \<times> nat) list" where
  "put_program c p [] = [(c, p)]"
| "put_program c p ((c', p') # m) =
     (if c < c' then (c, p) # (c', p') # m else if c = c' then (c, p) # m else (c', p') # put_program c p m)"

fun program_loop :: "nat \<Rightarrow> (nat \<times> nat) list \<Rightarrow> 'r disk_thread \<Rightarrow> ((nat \<times> nat) list \<times> 'r disk_thread) option" where
  "program_loop 0 m t = Some (m, t)"
| "program_loop (Suc k) m t = (if 0 < read_space (ProgramChangeQueue t)
     then do {
       (cmd, q) \<leftarrow> pop_from (ProgramChangeQueue t);
       program_loop k (put_program (pc_pEngineChannel cmd) (pc_Program cmd) m) (t\<lparr>ProgramChangeQueue := q\<rparr>) }
     else Some (m, t))"

definition count_streams :: "'r disk_thread \<Rightarrow> 'r disk_thread" where
  "count_streams t =
     (let n = int (length (filter (\<lambda>i. \<not> stream_unused t i) (take (Streams t) (pStreams t)))) in
      t\<lparr>ActiveStreamCount := n,
        ActiveStreamCountMax := (if ActiveStreamCountMax t < n then n else ActiveStreamCountMax t)\<rparr>)"

definition queue_size :: "'a RingBuffer \<Rightarrow> nat" where
  "queue_size q = nat (read_space q)"

definition Main_pass :: "('r, 'y) samples_scheme \<Rightarrow> 'r disk_thread \<Rightarrow> 'r disk_thread option" where
  "Main_pass sm t = do {
     let t = t\<lparr>IsIdle := True\<rparr>;
     t \<leftarrow> ghost_loop (queue_size (GhostQueue t)) 0 t;
     t \<leftarrow> creation_loop sm (queue_size (CreationQueue t)) t;
     t \<leftarrow> deletion_loop (queue_size (DeletionQueue t)) t;
     t \<leftarrow> region_loop (queue_size (DeleteRegionQueue t)) t;
     (cmds, t) \<leftarrow> program_loop (queue_size (ProgramChangeQueue t)) [] t;
     let t = t\<lparr>program_changes := program_changes t @ cmds\<rparr>;
     t \<leftarrow> RefillStreams sm t;
     Some (count_streams t) }"

section \<open>Reset\<close>

fun kill_all :: "nat list \<Rightarrow> 'r disk_thread \<Rightarrow> 'r disk_thread option" where
  "kill_all [] t = Some t"
| "kill_all (i # is) t = do { t \<leftarrow> Stream_Kill i t; kill_all is t }"

definition DiskThread_Reset :: "'r disk_thread \<Rightarrow> 'r disk_thread option" where
  \<comment> \<open>with the thread stopped\<close>
  "DiskThread_Reset t = do {
     t \<leftarrow> kill_all (take (Streams t) (pStreams t)) t;
     let t = t\<lparr>pCreatedStreams := take 1 (pCreatedStreams t) @ replicate (Streams t) Slot_NULL,
               GhostQueue := RingBuffer_init (GhostQueue t),
               CreationQueue := RingBuffer_init (CreationQueue t),
               DeletionQueue := RingBuffer_init (DeletionQueue t),
               DeletionNotificationQueue := RingBuffer_init (DeletionNotificationQueue t)\<rparr>;
     t \<leftarrow> region_loop (queue_size (DeleteRegionQueue t)) t;
     Some (t\<lparr>DeleteRegionQueue := RingBuffer_init (DeleteRegionQueue t),
             ActiveStreamCount := 0, ActiveStreamCountMax := 0\<rparr>) }"

section \<open>Construction\<close>

text \<open>
  \<open>CreateAllStreams\<close>, which the engines' constructors call: each new stream is an object of the store
  and counts for all engines. The constructor of the class leaves \<open>pCreatedStreams[0]\<close> uninitialised
  (\<open>junk\<close>); no order has the ID 0. The memory functions are what the queues' memory contains.
\<close>

definition CONFIG_STREAM_BUFFER_SIZE :: int where
  "CONFIG_STREAM_BUFFER_SIZE = 262144"

definition CONFIG_REFILL_STREAMS_PER_RUN :: nat where
  "CONFIG_REFILL_STREAMS_PER_RUN = 4"

fun CreateAllStreams :: "(nat \<Rightarrow> 8 word) \<Rightarrow> SampleDescription \<Rightarrow> nat \<Rightarrow> int \<Rightarrow> 'r disk_thread \<Rightarrow> 'r disk_thread option" where
  "CreateAllStreams mem info 0 wrap t = Some t"
| "CreateAllStreams mem info (Suc n) wrap t = do {
     st \<leftarrow> Stream_new mem info CONFIG_STREAM_BUFFER_SIZE wrap;
     CreateAllStreams mem info n wrap
       (t\<lparr>pStreams := pStreams t @ [length (stream_objects t)], stream_objects := stream_objects t @ [st],
          UnusedStreams := UnusedStreams t + 1, TotalStreams := TotalStreams t + 1\<rparr>) }"

definition DiskThread_new :: "(nat \<Rightarrow> 'r create_command_t) \<Rightarrow> (nat \<Rightarrow> delete_command_t) \<Rightarrow> (nat \<Rightarrow> Handle) \<Rightarrow>
    (nat \<Rightarrow> 'r) \<Rightarrow> (nat \<Rightarrow> program_change_command_t) \<Rightarrow> slot \<Rightarrow> Handle \<Rightarrow> OrderID_t \<Rightarrow> nat \<Rightarrow>
    'r streams \<Rightarrow> 'r disk_thread option" where
  "DiskThread_new mc md mh mr mp junk handles orders MaxStreams e = do {
     dn \<leftarrow> RingBuffer_new mh (4 * int MaxStreams) 0;
     pc \<leftarrow> RingBuffer_new mp 512 0;
     cq \<leftarrow> RingBuffer_new mc (4 * int MaxStreams) 0;
     dq \<leftarrow> RingBuffer_new md (4 * int MaxStreams) 0;
     gq \<leftarrow> RingBuffer_new md (int MaxStreams) 0;
     rq \<leftarrow> RingBuffer_new mr (4 * int MaxStreams) 0;
     Some (streams.extend e \<lparr>IsIdle = False, Streams = MaxStreams, CreationQueue = cq, DeletionQueue = dq, GhostQueue = gq,
       DeletionNotificationQueue = dn, DeleteRegionQueue = rq, ProgramChangeQueue = pc,
       RefillStreamsPerRun = CONFIG_REFILL_STREAMS_PER_RUN, pStreams = [],
       pCreatedStreams = junk # replicate MaxStreams Slot_NULL, handle_counter = handles,
       order_counter = orders, ActiveStreamCount = 0, ActiveStreamCountMax = 0, handed_back = [],
       program_changes = []\<rparr>) }"

end
