(* ===== verification/DiskStreamProps.thy ===== *)
theory DiskStreamProps
  imports DiskStream RingBufferProps
begin

text \<open>
  What the disk streams guarantee: filling a ring buffer through its wrap space appends to the queue of
  bytes, the reader sees the bytes beyond the end of the buffer as if the buffer went on, and the
  methods of a stream neither leave the memory of the buffer nor overwrite bytes that are not read yet.
\<close>

section \<open>Filling through the wrap space\<close>

definition fill_with_wrap :: "8 word list \<Rightarrow> 8 word RingBuffer \<Rightarrow> 8 word RingBuffer option" where
  "fill_with_wrap bytes rb = do {
     rb \<leftarrow> write_at_write_ptr bytes rb;
     increment_write_ptr_with_wrap False (int (length bytes)) rb }"

lemma space_with_wrap_cases:
  assumes ok: "rb_ok rb" and n: "0 \<le> n" "n \<le> write_space_to_end_with_wrap rb"
  shows "n \<le> write_space rb" "rb_write_ptr rb + n \<le> rb_size rb + rb_wrap_elements rb"
    "rb_size rb \<le> rb_write_ptr rb + n \<Longrightarrow> rb_read_ptr rb \<le> rb_write_ptr rb \<and>
       rb_write_ptr rb + n - rb_size rb \<le> rb_wrap_elements rb \<and> rb_wrap_elements rb < rb_read_ptr rb"
  using n rb_okD [OF ok] unfolding write_space_eq [OF ok] read_space_mod [OF ok] write_space_to_end_with_wrap_def
  by (auto simp: Let_def mod_pos_pos_trivial mod_neg_eq split: if_splits)

theorem fill_with_wrap_enqueues:
  assumes ok: "rb_ok rb" and space: "int (length bytes) \<le> write_space_to_end_with_wrap rb"
  shows "\<exists>rb'. fill_with_wrap bytes rb = Some rb' \<and> rb_ok rb' \<and> rb_queue rb' = rb_queue rb @ bytes \<and>
    rb_size rb' = rb_size rb \<and> rb_wrap_elements rb' = rb_wrap_elements rb \<and>
    rb_read_ptr rb' = rb_read_ptr rb"
proof -
  note size = rb_okD [OF ok]
  let ?n = "int (length bytes)" and ?w = "rb_write_ptr rb"
  note cases = space_with_wrap_cases [OF ok of_nat_0_le_iff space]
  obtain b1 where b1: "copy True (rb_buf rb) ?w bytes 0 ?n = Some b1" "length b1 = length (rb_buf rb)"
    "\<And>k. 0 \<le> k \<Longrightarrow> k < int (length (rb_buf rb)) \<Longrightarrow>
      b1 ! nat k = (if ?w \<le> k \<and> k < ?w + ?n then bytes ! nat (k - ?w + 0) else rb_buf rb ! nat k)"
    by (rule copy_Some [of ?n ?w 0 "rb_buf rb" bytes True]) (use cases(2) size in auto)
  have m: "(x - ?w) mod rb_size rb = (if x < ?w then x - ?w + rb_size rb else x - ?w)"
    if "0 \<le> x" "x < rb_size rb" for x
    using that size by (auto simp: mod_pos_pos_trivial mod_neg_eq)
  show ?thesis
  proof (cases "rb_size rb \<le> ?w + ?n")
    case False
    have "writes rb bytes ?n b1"
      unfolding writes_def Let_def using b1 m size False cases by (auto simp: algebra_simps)
    moreover have "(?w + ?n) mod rb_size rb = ?w + ?n" using False size by (simp add: mod_pos_pos_trivial)
    ultimately show ?thesis
      using queue_after_write [OF ok, of bytes "length bytes" b1 "?w + ?n"] b1(1) False cases(1)
      by (auto simp: fill_with_wrap_def write_at_write_ptr_def increment_write_ptr_with_wrap_def Let_def)
  next
    case True
    let ?v = "?w + ?n - rb_size rb"
    have v: "0 \<le> ?v" "?v \<le> rb_wrap_elements rb" "?v < rb_read_ptr rb" "rb_read_ptr rb \<le> ?w"
      using cases(3) [OF True] True by auto
    obtain b2 where b2: "copy False b1 0 b1 (rb_size rb) ?v = Some b2" "length b2 = length b1"
      "\<And>k. 0 \<le> k \<Longrightarrow> k < int (length b1) \<Longrightarrow>
        b2 ! nat k = (if 0 \<le> k \<and> k < 0 + ?v then b1 ! nat (k - 0 + rb_size rb) else b1 ! nat k)"
      by (rule copy_Some [of ?v 0 "rb_size rb" b1 b1 False]) (use v size b1(2) in auto)
    have "b2 ! nat x = (let t = (x - ?w) mod rb_size rb in if t < ?n then bytes ! nat t else rb_buf rb ! nat x)"
      if x: "0 \<le> x" "x < rb_size rb" for x
    proof -
      have "nat (x + rb_size rb - ?w) = nat (x - ?w + rb_size rb)" by (simp add: algebra_simps)
      then show ?thesis
        using b1(3) [of x] b1(3) [of "x + rb_size rb"] b2(3) [of x] x v size b1(2) b2(2) unfolding m [OF x]
        by (auto simp: Let_def)
    qed
    then have "writes rb bytes ?n b2" using b1(2) b2(2) by (simp add: writes_def)
    moreover have "(?w + ?n) mod rb_size rb = ?v"
      using v size mod_pos_pos_trivial [of ?v "rb_size rb"] by (simp add: mod_diff_right_eq)
    ultimately show ?thesis
      using queue_after_write [OF ok, of bytes "length bytes" b2 ?v] b1(1) b2(1) True cases(1)
      by (auto simp: fill_with_wrap_def write_at_write_ptr_def increment_write_ptr_with_wrap_def Let_def)
  qed
qed

section \<open>Reading beyond the end of the buffer\<close>

text \<open>When the queue goes around the end of the buffer, the wrap space repeats its beginning.\<close>

definition mirrored :: "'a RingBuffer \<Rightarrow> bool" where
  "mirrored rb \<longleftrightarrow> (rb_write_ptr rb < rb_read_ptr rb \<longrightarrow>
     rb_wrap_elements rb \<le> rb_write_ptr rb \<and>
     (\<forall>i. 0 \<le> i \<longrightarrow> i < rb_wrap_elements rb \<longrightarrow> rb_buf rb ! nat (rb_size rb + i) = rb_buf rb ! nat i))"

lemma mirrored_linear:
  assumes ok: "rb_ok rb" and m: "mirrored rb" and k: "k < length (rb_queue rb)"
    and end_: "rb_read_ptr rb + int k < rb_size rb + rb_wrap_elements rb"
  shows "rb_buf rb ! nat (rb_read_ptr rb + int k) = rb_queue rb ! k"
proof (cases "rb_read_ptr rb + int k < rb_size rb")
  case True
  then show ?thesis using k rb_okD [OF ok] by (simp add: rb_queue_nth rb_at_def mod_pos_pos_trivial)
next
  case False
  let ?i = "rb_read_ptr rb + int k - rb_size rb"
  have k': "int k < (rb_write_ptr rb - rb_read_ptr rb) mod rb_size rb"
    using k length_rb_queue [OF ok] by (simp add: read_space_mod [OF ok])
  have "rb_write_ptr rb < rb_read_ptr rb"
  proof (rule ccontr)
    assume "\<not> rb_write_ptr rb < rb_read_ptr rb"
    then have "(rb_write_ptr rb - rb_read_ptr rb) mod rb_size rb = rb_write_ptr rb - rb_read_ptr rb"
      using rb_okD [OF ok] by (simp add: mod_pos_pos_trivial)
    then show False using k' False rb_okD [OF ok] by linarith
  qed
  then have "rb_buf rb ! nat (rb_size rb + ?i) = rb_buf rb ! nat ?i"
    using m end_ False spec [of "\<lambda>i. 0 \<le> i \<longrightarrow> i < rb_wrap_elements rb \<longrightarrow>
      rb_buf rb ! nat (rb_size rb + i) = rb_buf rb ! nat i" ?i] by (simp add: mirrored_def)
  moreover have "(rb_read_ptr rb + int k) mod rb_size rb = ?i"
    using False k length_rb_queue [OF ok] read_space_bounds(2) [OF ok] rb_okD [OF ok]
      mod_pos_pos_trivial [of ?i "rb_size rb"] by (simp add: mod_diff_right_eq)
  ultimately show ?thesis using k by (simp add: rb_queue_nth rb_at_def)
qed

lemma mirrored_increment:
  assumes ok: "rb_ok rb" and m: "mirrored rb" and n: "0 \<le> n" "n \<le> read_space rb"
  shows "mirrored (increment_read_ptr n rb)"
proof -
  note size = rb_okD [OF ok]
  have e: "increment_read_ptr n rb = rb\<lparr>rb_read_ptr := (rb_read_ptr rb + n) mod rb_size rb\<rparr>"
    by (simp add: increment_read_ptr_def and_size_mask [OF ok])
  show ?thesis
  proof (cases "rb_write_ptr rb < rb_read_ptr rb")
    case True
    then show ?thesis using m by (auto simp: e mirrored_def)
  next
    case False
    then have "(rb_read_ptr rb + n) mod rb_size rb = rb_read_ptr rb + n"
      using n size by (intro mod_pos_pos_trivial) (auto simp: read_space_mod [OF ok] mod_pos_pos_trivial)
    moreover have "rb_read_ptr rb + n \<le> rb_write_ptr rb"
      using n False size by (simp add: read_space_mod [OF ok] mod_pos_pos_trivial)
    ultimately show ?thesis by (simp add: e mirrored_def)
  qed
qed

lemma fill_mirrored:
  assumes ok: "rb_ok rb" and m: "mirrored rb"
    and space: "int (length bytes) \<le> write_space_to_end_with_wrap rb"
    and full: "rb_write_ptr rb + int (length bytes) < rb_size rb \<or>
      rb_write_ptr rb + int (length bytes) = rb_size rb + rb_wrap_elements rb"
    and fill: "fill_with_wrap bytes rb = Some rb'"
  shows "mirrored rb'"
proof -
  note size = rb_okD [OF ok]
  let ?n = "int (length bytes)" and ?w = "rb_write_ptr rb"
  note cases = space_with_wrap_cases [OF ok of_nat_0_le_iff space]
  obtain b1 where b1: "copy True (rb_buf rb) ?w bytes 0 ?n = Some b1" "length b1 = length (rb_buf rb)"
    "\<And>k. 0 \<le> k \<Longrightarrow> k < int (length (rb_buf rb)) \<Longrightarrow>
      b1 ! nat k = (if ?w \<le> k \<and> k < ?w + ?n then bytes ! nat (k - ?w + 0) else rb_buf rb ! nat k)"
    by (rule copy_Some [of ?n ?w 0 "rb_buf rb" bytes True]) (use cases(2) size in auto)
  show ?thesis
  proof (cases "?w + ?n < rb_size rb")
    case True
    then have rb': "rb' = rb\<lparr>rb_buf := b1, rb_write_ptr := ?w + ?n\<rparr>"
      using fill b1(1) by (simp add: fill_with_wrap_def write_at_write_ptr_def increment_write_ptr_with_wrap_def Let_def)
    show ?thesis
      unfolding mirrored_def rb'
    proof (simp, intro impI conjI allI)
      assume lt: "?w + ?n < rb_read_ptr rb"
      then have w: "rb_wrap_elements rb \<le> ?w" "\<And>i. 0 \<le> i \<Longrightarrow> i < rb_wrap_elements rb \<Longrightarrow>
          rb_buf rb ! nat (rb_size rb + i) = rb_buf rb ! nat i"
        using m by (auto simp: mirrored_def)
      then show "rb_wrap_elements rb \<le> ?w + ?n" by simp
      fix i assume i: "0 \<le> i" "i < rb_wrap_elements rb"
      then show "b1 ! nat (rb_size rb + i) = b1 ! nat i"
        using b1(3) [of i] b1(3) [of "rb_size rb + i"] w size True by auto
    qed
  next
    case False
    then have v: "?w + ?n - rb_size rb = rb_wrap_elements rb" "rb_size rb \<le> ?w + ?n"
      "rb_wrap_elements rb < rb_read_ptr rb"
      using full cases(3) size by auto
    obtain b2 where b2: "copy False b1 0 b1 (rb_size rb) (rb_wrap_elements rb) = Some b2" "length b2 = length b1"
      "\<And>k. 0 \<le> k \<Longrightarrow> k < int (length b1) \<Longrightarrow>
        b2 ! nat k = (if 0 \<le> k \<and> k < 0 + rb_wrap_elements rb then b1 ! nat (k - 0 + rb_size rb) else b1 ! nat k)"
      by (rule copy_Some [of "rb_wrap_elements rb" 0 "rb_size rb" b1 b1 False]) (use v size b1(2) in auto)
    have rb': "rb' = rb\<lparr>rb_buf := b2, rb_write_ptr := rb_wrap_elements rb\<rparr>"
      using fill b1(1) b2(1) v
      by (simp add: fill_with_wrap_def write_at_write_ptr_def increment_write_ptr_with_wrap_def Let_def)
    have "b2 ! nat (rb_size rb + i) = b2 ! nat i" if "0 \<le> i" "i < rb_wrap_elements rb" for i
      using b2(3) [of i] b2(3) [of "rb_size rb + i"] that size b1(2) v by (auto simp: add.commute)
    then show ?thesis by (simp add: mirrored_def rb')
  qed
qed


definition wrapped_ring :: "8 word RingBuffer" where
  "wrapped_ring = \<lparr>rb_buf = [7, 7, 7, 7, 9, 9, 7, 7, 7, 7], rb_size = 8, rb_wrap_elements = 2, rb_write_ptr = 6,
    rb_read_ptr = 4, rb_size_mask = 7\<rparr>"

lemma wrapped_ring_ok: "rb_ok wrapped_ring" "mirrored wrapped_ring"
proof -
  have "\<exists>k\<ge>1. k < 31 \<and> (8::int) = 2 ^ k" by (rule exI [of _ 3]) simp
  then show "rb_ok wrapped_ring" by (simp add: wrapped_ring_def rb_ok_def)
  show "mirrored wrapped_ring" by (simp add: wrapped_ring_def mirrored_def)
qed


text \<open>
  A fill that ends inside of the wrap space, as at the end of a sample, breaks the view: the silence that
  is written next goes to the beginning of the buffer only, and the reader sees an old byte beyond its end.
\<close>

theorem partial_wrap_stale:
  "\<exists>rb1 rb2. rb_ok wrapped_ring \<and> mirrored wrapped_ring \<and> fill_with_wrap [1, 2, 3] wrapped_ring = Some rb1 \<and>
     fill_with_wrap [0] rb1 = Some rb2 \<and> rb_queue rb2 = [9, 9, 1, 2, 3, 0] \<and>
     rb_buf rb2 ! nat (rb_read_ptr rb2 + 5) = 7"
  using wrapped_ring_ok
  by (simp add: wrapped_ring_def fill_with_wrap_def write_at_write_ptr_def copy_def
      increment_write_ptr_with_wrap_def rb_queue_def read_space_def rb_at_def upt_rec numeral_nat)

end
