(* ===== verification/DiskStreamMethods.thy ===== *)
theory DiskStreamMethods
  imports DiskStreamProps
begin

text \<open>
  The methods of a stream. \<open>samples_ok\<close> states what the code relies on of the sample classes: reading gives
  no more frames than asked for, and each has the size of a frame. \<open>stream_ok\<close> is the invariant of a
  stream object; each method is shown to change nothing but its stream and that stream's reference.
\<close>

section \<open>Invariant\<close>

definition frames_ok :: "int \<Rightarrow> int \<Rightarrow> 8 word list list \<Rightarrow> bool" where
  "frames_ok sz n frames \<longleftrightarrow> int (length frames) \<le> n \<and> (\<forall>f \<in> set frames. int (length f) = sz)"

definition samples_ok :: "('r, 'y) samples_scheme \<Rightarrow> bool" where
  "samples_ok sm \<longleftrightarrow> (\<forall>r. 0 < GetChannelCount sm r \<and>
     (\<exists>b > 0. GetFrameSize sm r = b * GetChannelCount sm r) \<and>
     (\<forall>pos n. 0 \<le> n \<longrightarrow> frames_ok (GetFrameSize sm r) n (fst (sample_Read sm r pos n))) \<and>
     (\<forall>pb n. 0 \<le> n \<longrightarrow> frames_ok (GetFrameSize sm r) n (fst (sample_ReadAndLoop sm r pb n))))"

lemma samples_okD:
  assumes "samples_ok sm"
  shows "0 < GetChannelCount sm r" "\<exists>b > 0. GetFrameSize sm r = b * GetChannelCount sm r"
    "0 \<le> n \<Longrightarrow> frames_ok (GetFrameSize sm r) n (fst (sample_Read sm r pos n))"
    "0 \<le> n \<Longrightarrow> frames_ok (GetFrameSize sm r) n (fst (sample_ReadAndLoop sm r pb n))"
  using assms by (simp_all add: samples_ok_def)

definition info_ok :: "('r, 'y) samples_scheme \<Rightarrow> 'r \<Rightarrow> SampleDescription \<Rightarrow> bool" where
  "info_ok sm r info \<longleftrightarrow> FrameSize info = GetFrameSize sm r \<and> ChannelsPerFrame info = GetChannelCount sm r \<and>
     FrameSize info = BytesPerSample info * ChannelsPerFrame info \<and> 0 < BytesPerSample info \<and>
     0 < ChannelsPerFrame info"

definition stream_ok :: "('r, 'y) samples_scheme \<Rightarrow> 'r Stream \<Rightarrow> bool" where
  "stream_ok sm st \<longleftrightarrow> rb_ok (st_pRingBuffer st) \<and>
     (st_State st = state_unused \<longrightarrow> rb_queue (st_pRingBuffer st) = []) \<and>
     (st_State st \<noteq> state_unused \<longrightarrow> (\<exists>r. st_pRegion st = Some r \<and> info_ok sm r (st_SampleInfo st)))"

section \<open>Effects\<close>

lemma the_stream_upd:
  "the_stream i e = Some st \<Longrightarrow> upd_stream i f e = e\<lparr>stream_objects := (stream_objects e)[i := f st]\<rparr>"
  by (auto simp: the_stream_def upd_stream_def nth_opt_def split: if_splits)

lemma the_stream_set:
  "the_stream i e = Some st \<Longrightarrow> the_stream j (e\<lparr>stream_objects := (stream_objects e)[i := st']\<rparr>) =
    (if j = i then Some st' else the_stream j e)"
  by (auto simp: the_stream_def nth_opt_def split: if_splits)

lemma the_stream_fields [simp]:
  "the_stream i (e\<lparr>references := R\<rparr>) = the_stream i e"
  "the_stream i (e\<lparr>UnusedStreams := U\<rparr>) = the_stream i e"
  "the_stream i (e\<lparr>references := R, stream_objects := S\<rparr>) = the_stream i (e\<lparr>stream_objects := S\<rparr>)"
  "the_stream i (e\<lparr>stream_objects := S, UnusedStreams := U\<rparr>) = the_stream i (e\<lparr>stream_objects := S\<rparr>)"
  by (simp_all add: the_stream_def)

definition set_ref :: "nat option \<Rightarrow> state_t \<Rightarrow> (nat \<Rightarrow> reference_t) \<Rightarrow> nat \<Rightarrow> reference_t" where
  "set_ref r s refs = (case r of None \<Rightarrow> refs | Some a \<Rightarrow> refs(a := (refs a)\<lparr>rf_State := s\<rparr>))"

lemma set_ref_None [simp]: "set_ref None s refs = refs"
  by (simp add: set_ref_def)

lemma SetState_eq:
  assumes "the_stream i e = Some st"
  shows "SetState i s e = Some (e\<lparr>references := set_ref (st_pExportReference st) s (references e),
    stream_objects := (stream_objects e)[i := st\<lparr>st_State := s\<rparr>]\<rparr>)"
  using assms
  by (auto simp: SetState_def the_stream_upd set_ref_def split: option.splits)

definition reset_stream :: "'r Stream \<Rightarrow> 'r Stream" where
  "reset_stream st = st\<lparr>st_SampleOffset := 0, st_pRegion := None,
     st_PlaybackState := (st_PlaybackState st)\<lparr>pb_position := 0, pb_reverse := False\<rparr>, st_hThis := 0,
     st_pRingBuffer := RingBuffer_init (st_pRingBuffer st),
     st_pExportReference := (if st_State st = state_unused then st_pExportReference st else None),
     st_State := state_unused\<rparr>"

lemma Stream_Reset_eq:
  assumes "the_stream i e = Some st"
  shows "Stream_Reset i e = Some (e
    \<lparr>references := (if st_State st = state_unused then references e
       else set_ref (st_pExportReference st) state_unused (references e)),
     stream_objects := (stream_objects e)[i := reset_stream st],
     UnusedStreams := (if st_State st = state_unused then UnusedStreams e else UnusedStreams e + 1)\<rparr>)"
proof -
  have i: "i < length (stream_objects e)" "stream_objects e ! i = st"
    using assms by (auto simp: the_stream_def nth_opt_def split: if_splits)
  show ?thesis
  proof (cases "st_State st = state_unused")
    case True
    then show ?thesis using i
      by (cases st) (simp add: Stream_Reset_def assms upd_stream_def reset_stream_def)
  next
    case False
    note defs = Stream_Reset_def assms upd_stream_def reset_stream_def set_ref_def Let_def
    show ?thesis
    proof (cases "st_pExportReference st")
      case None
      with False i show ?thesis by (simp add: defs)
    next
      case (Some a)
      with False i show ?thesis by (simp add: defs)
    qed
  qed
qed

lemma Stream_Kill_eq:
  assumes "the_stream i e = Some st"
  shows "Stream_Kill i e = Some (e\<lparr>stream_objects := (stream_objects e)[i := reset_stream (st\<lparr>st_pExportReference := None\<rparr>)],
     UnusedStreams := (if st_State st = state_unused then UnusedStreams e else UnusedStreams e + 1)\<rparr>)"
proof -
  have i: "i < length (stream_objects e)" "stream_objects e ! i = st"
    using assms by (auto simp: the_stream_def nth_opt_def split: if_splits)
  let ?e = "upd_stream i (\<lambda>st. st\<lparr>st_pExportReference := None\<rparr>) e"
  have "the_stream i ?e = Some (st\<lparr>st_pExportReference := None\<rparr>)"
    using i by (simp add: the_stream_def upd_stream_def)
  from Stream_Reset_eq [OF this] show ?thesis
    using i by (simp add: Stream_Kill_def upd_stream_def)
qed

lemma rb_ok_init [simp]: "rb_ok rb \<Longrightarrow> rb_ok (RingBuffer_init rb)"
  using rb_okD(1) [of rb] by (simp add: rb_ok_def RingBuffer_init_def)

lemma reset_stream_queue [simp]: "rb_queue (st_pRingBuffer (reset_stream st)) = []"
  by (simp add: reset_stream_def RingBuffer_init_def rb_queue_def read_space_def)

lemma reset_stream_ok [simp]: "rb_ok (st_pRingBuffer st) \<Longrightarrow> stream_ok sm (reset_stream st)"
  by (simp add: stream_ok_def) (simp add: reset_stream_def)

lemma reset_stream_ring: "st_pRingBuffer (reset_stream st) = RingBuffer_init (st_pRingBuffer st)"
  by (simp add: reset_stream_def)

lemma reset_stream_State [simp]: "st_State (reset_stream st) = state_unused"
  by (simp add: reset_stream_def)

section \<open>Launching\<close>

definition launched_stream :: "('r, 'y) samples_scheme \<Rightarrow> Handle \<Rightarrow> nat option \<Rightarrow> 'r \<Rightarrow> int \<Rightarrow> bool \<Rightarrow> 'r Stream \<Rightarrow> 'r Stream" where
  "launched_stream sm h ref r offset loop st = st\<lparr>st_pExportReference := ref, st_hThis := h, st_pRegion := Some r,
     st_SampleInfo := \<lparr>FrameSize = GetFrameSize sm r, ChannelsPerFrame = GetChannelCount sm r,
       BytesPerSample = GetFrameSize sm r sdiv GetChannelCount sm r, TotalSampleCount = GetTotalFrameCount sm r\<rparr>,
     st_PlaybackState := \<lparr>pb_position = offset, pb_reverse = False, pb_loop_cycles_left = 0\<rparr>,
     st_SampleOffset := offset, st_DoLoop := loop, st_State := state_active\<rparr>"

lemma Stream_Launch_eq:
  assumes "samples_ok sm" and "the_stream i e = Some st"
  shows "Stream_Launch sm i h ref r offset loop e = Some (e
    \<lparr>references := set_ref ref state_active (references e),
     stream_objects := (stream_objects e)[i := launched_stream sm h ref r offset loop st],
     UnusedStreams := UnusedStreams e - 1\<rparr>)"
proof -
  have "GetChannelCount sm r \<noteq> 0" using samples_okD(1) [OF assms(1), of r] by simp
  moreover have "the_stream i (e\<lparr>UnusedStreams := U\<rparr>) = Some st" for U using assms(2) by simp
  note the_stream_upd [OF this] SetState_eq [OF the_stream_set [OF this, of i, simplified]]
  ultimately show ?thesis
    by (simp add: Stream_Launch_def StreamBase_Launch_def cdiv_def launched_stream_def)
qed

lemma launched_stream_ok:
  assumes "samples_ok sm" and "rb_ok (st_pRingBuffer st)"
  shows "stream_ok sm (launched_stream sm h ref r offset loop st)"
proof -
  obtain b where "0 < b" "0 < GetChannelCount sm r" "GetFrameSize sm r = b * GetChannelCount sm r"
    using samples_okD(1,2) [OF assms(1), of r] by auto
  moreover from this have "GetFrameSize sm r sdiv GetChannelCount sm r = b"
    by (simp add: signed_divide_int_def)
  ultimately show ?thesis using assms(2) by (simp add: stream_ok_def launched_stream_def info_ok_def)
qed

section \<open>Refilling\<close>

lemma read_frames_ok:
  assumes "samples_ok sm" "0 \<le> n"
  shows "\<exists>frames p. read_frames sm r pos n = Some (frames, p) \<and> frames_ok (GetFrameSize sm r) n frames"
  using assms
proof (induction sm r pos n rule: read_frames.induct)
  case (1 sm r pos n)
  obtain fs p where f: "sample_Read sm r pos n = (fs, p)" by fastforce
  have ok: "frames_ok (GetFrameSize sm r) n fs"
    using samples_okD(3) [OF 1(2,3), of r pos] f by simp
  show ?case
  proof (cases "n - int (length fs) \<noteq> 0 \<and> fs \<noteq> []")
    case True
    then obtain fs' p' where "read_frames sm r p (n - int (length fs)) = Some (fs', p')"
      "frames_ok (GetFrameSize sm r) (n - int (length fs)) fs'"
      using 1(1) [OF f [symmetric] refl] 1(2) ok by (auto simp: frames_ok_def)
    then show ?thesis using True ok f
      by (subst read_frames.simps) (auto simp: frames_ok_def)
  next
    case False
    then show ?thesis using ok f by (subst read_frames.simps) (auto simp: frames_ok_def)
  qed
qed

lemma length_concat_frames: "\<forall>f \<in> set fs. int (length f) = sz \<Longrightarrow> int (length (concat fs)) = int (length fs) * sz"
  by (induction fs) (auto simp: algebra_simps)

text \<open>What reading does to the store: only the position of the stream and its state change.\<close>

definition same_stream :: "'r Stream \<Rightarrow> 'r Stream \<Rightarrow> bool" where
  "same_stream st st' \<longleftrightarrow> st_pRingBuffer st' = st_pRingBuffer st \<and> st_pRegion st' = st_pRegion st \<and>
     st_SampleInfo st' = st_SampleInfo st \<and> st_pExportReference st' = st_pExportReference st \<and>
     st_hThis st' = st_hThis st \<and> st_DoLoop st' = st_DoLoop st"

definition put_stream :: "nat \<Rightarrow> 'r Stream \<Rightarrow> ('r, 'z) streams_scheme \<Rightarrow> ('r, 'z) streams_scheme" where
  "put_stream i st e = e\<lparr>references := set_ref (st_pExportReference st) (st_State st) (references e),
     stream_objects := (stream_objects e)[i := st]\<rparr>"

lemma Stream_Read_ok:
  assumes sm: "samples_ok sm" and st: "the_stream i e = Some st" and r: "st_pRegion st = Some r" and n: "0 \<le> n"
  shows "\<exists>frames st'. Stream_Read sm i n e = Some (int (length frames), concat frames, put_stream i st' e) \<and>
      same_stream st st' \<and> frames_ok (GetFrameSize sm r) n frames \<and> st_State st' \<noteq> state_unused"
proof (cases "st_DoLoop st")
  case True
  obtain fs pb where f: "sample_ReadAndLoop sm r (st_PlaybackState st) n = (fs, pb)" by fastforce
  have ok: "frames_ok (GetFrameSize sm r) n fs"
    using samples_okD(4) [OF sm n, of r "st_PlaybackState st"] f by simp
  let ?s = "if GetTotalFrameCount sm r \<le> pb_position pb then state_end else state_active"
  let ?st = "st\<lparr>st_PlaybackState := pb, st_State := ?s\<rparr>"
  note S = SetState_eq [OF the_stream_set [OF st, of i "st\<lparr>st_PlaybackState := pb\<rparr>", simplified], of ?s]
  have "Stream_Read sm i n e = Some (int (length fs), concat fs, put_stream i ?st e)"
    using True ok f S by (simp add: Stream_Read_def st r frames_ok_def the_stream_upd put_stream_def)
  moreover have "same_stream st ?st" by (simp add: same_stream_def)
  moreover have "st_State ?st \<noteq> state_unused" by simp
  ultimately show ?thesis using ok by blast
next
  case False
  obtain fs p where f: "read_frames sm r (sample_SetPos sm r (st_SampleOffset st)) n = Some (fs, p)"
    and ok: "frames_ok (GetFrameSize sm r) n fs"
    using read_frames_ok [OF sm n] by blast
  let ?s = "if GetTotalFrameCount sm r \<le> p then state_end else state_active"
  let ?st = "st\<lparr>st_SampleOffset := p, st_State := ?s\<rparr>"
  note S = SetState_eq [OF the_stream_set [OF st, of i "st\<lparr>st_SampleOffset := p\<rparr>", simplified], of ?s]
  have "Stream_Read sm i n e = Some (int (length fs), concat fs, put_stream i ?st e)"
    using False ok f S by (simp add: Stream_Read_def st r frames_ok_def the_stream_upd put_stream_def)
  moreover have "same_stream st ?st" by (simp add: same_stream_def)
  moreover have "st_State ?st \<noteq> state_unused" by simp
  ultimately show ?thesis using ok by blast
qed

text \<open>
  Refilling never traps, appends what was read to the stream's queue of bytes and touches nothing but the
  stream and its reference, when the caller asks for no more than \<open>GetWriteSpaceToEnd\<close> gives.
\<close>

lemma the_stream_put [simp]:
  "the_stream i e = Some st \<Longrightarrow> the_stream j (put_stream i st' e) = (if j = i then Some st' else the_stream j e)"
  by (simp add: put_stream_def the_stream_set)

lemma sdiv_pos: "0 \<le> n \<Longrightarrow> 0 < c \<Longrightarrow> n sdiv c = n div c" for n c :: int
  by (cases "n = 0") (simp_all add: signed_divide_int_def)

lemma frames_bytes:
  assumes fr: "frames_ok sz (n sdiv c) frames" and n: "0 \<le> n" and c: "0 < c" and sz: "sz = b * c" and b: "0 < b"
  shows "int (length (concat frames)) = int (length frames) * sz" "int (length (concat frames)) \<le> n * b"
proof -
  show len: "int (length (concat frames)) = int (length frames) * sz"
    using fr by (intro length_concat_frames) (simp add: frames_ok_def)
  have "int (length frames) \<le> n div c" using fr n c by (simp add: frames_ok_def sdiv_pos)
  then have "int (length frames) * sz \<le> n div c * (c * b)"
    using b c sz by (simp add: mult.commute mult_right_mono)
  also have "\<dots> = (n div c * c) * b" by simp
  also have "\<dots> \<le> n * b" using b c n div_mult_mod_eq [of n c] pos_mod_sign [of c n]
    by (intro mult_right_mono) linarith+
  finally show "int (length (concat frames)) \<le> n * b" using len by simp
qed

theorem ReadAhead_ok:
  assumes sm: "samples_ok sm" and st: "the_stream i e = Some st" and ok: "stream_ok sm st"
    and n: "0 \<le> n" "n * BytesPerSample (st_SampleInfo st) \<le> write_space_to_end_with_wrap (st_pRingBuffer st)"
  shows "\<exists>k e' st' bytes. ReadAhead sm i n e = Some (k, e') \<and> the_stream i e' = Some st' \<and> stream_ok sm st' \<and>
     (e' = e \<or> st_State st = state_active \<and> st_State st' \<noteq> state_unused \<and> e' = put_stream i st' e) \<and>
     st_pExportReference st' = st_pExportReference st \<and> st_hThis st' = st_hThis st \<and>
     rb_queue (st_pRingBuffer st') = rb_queue (st_pRingBuffer st) @ bytes \<and>
     rb_read_ptr (st_pRingBuffer st') = rb_read_ptr (st_pRingBuffer st)"
proof (cases "st_State st = state_active \<and> n \<noteq> 0 \<and> write_space (st_pRingBuffer st) \<noteq> 0")
  case False
  then have "\<exists>k. ReadAhead sm i n e = Some (k, e)"
    using state_t.exhaust [of "st_State st"] by (auto simp: ReadAhead_def st)
  then show ?thesis using st ok by fastforce
next
  case True
  let ?rb = "st_pRingBuffer st" and ?info = "st_SampleInfo st"
  obtain r where r: "st_pRegion st = Some r" and info: "info_ok sm r ?info" and rb: "rb_ok ?rb"
    using ok True by (auto simp: stream_ok_def)
  let ?m = "n sdiv ChannelsPerFrame ?info"
  have m: "0 \<le> ?m" using n info by (simp add: info_ok_def sdiv_pos pos_imp_zdiv_nonneg_iff)
  obtain frames st1 where R: "Stream_Read sm i ?m e = Some (int (length frames), concat frames, put_stream i st1 e)"
    and same: "same_stream st st1" and fr: "frames_ok (GetFrameSize sm r) ?m frames" and "st_State st1 \<noteq> state_unused"
    using Stream_Read_ok [OF sm st r m] by blast
  note len = frames_bytes [OF fr n(1), of "BytesPerSample ?info"]
  have len: "int (length (concat frames)) = int (length frames) * FrameSize ?info"
    "int (length (concat frames)) \<le> write_space_to_end_with_wrap ?rb"
    using len n(2) info unfolding info_ok_def by (metis, metis order_trans)
  obtain rb' where W: "fill_with_wrap (concat frames) ?rb = Some rb'" "rb_ok rb'"
    "rb_queue rb' = rb_queue ?rb @ concat frames" "rb_read_ptr rb' = rb_read_ptr ?rb"
    using fill_with_wrap_enqueues [OF rb len(2)] by blast
  let ?st = "st1\<lparr>st_pRingBuffer := rb'\<rparr>"
  have put: "upd_stream i (\<lambda>st. st\<lparr>st_pRingBuffer := rb'\<rparr>) (put_stream i st1 e) = put_stream i ?st e"
    by (subst the_stream_upd [OF the_stream_put [OF st, of i, simplified]]) (simp add: put_stream_def)
  have "ReadAhead sm i n e = Some (int (length frames), put_stream i ?st e)"
    using True W(1) R info put len(1)
    by (auto simp: ReadAhead_def st cdiv_def info_ok_def fill_with_wrap_def split: bind_splits)
  moreover have "stream_ok sm ?st" using ok W(2) same True \<open>st_State st1 \<noteq> state_unused\<close>
    by (auto simp: stream_ok_def same_stream_def)
  moreover have "st_State ?st \<noteq> state_unused" using \<open>st_State st1 \<noteq> state_unused\<close> by simp
  ultimately show ?thesis
    using st W same True by (intro exI [of _ "int (length frames)"] exI [of _ "put_stream i ?st e"] exI [of _ ?st]
      exI [of _ "concat frames"]) (simp add: same_stream_def)
qed

section \<open>Reading\<close>

lemma IncrementReadPos_eq:
  assumes st: "the_stream i e = Some st" and rb: "rb_ok (st_pRingBuffer st)"
    and n: "n = unat (Count * word_of_int (BytesPerSample (st_SampleInfo st)))"
  shows "\<exists>rb'. rb_ok rb' \<and> rb_queue rb' = drop n (rb_queue (st_pRingBuffer st)) \<and>
     (let e' = e\<lparr>stream_objects := (stream_objects e)[i := st\<lparr>st_pRingBuffer := rb'\<rparr>]\<rparr> in
      IncrementReadPos i Count e =
        (if st_State st = state_end \<and> length (rb_queue (st_pRingBuffer st)) \<le> n then Stream_Reset i e' else Some e'))"
proof -
  let ?rb = "st_pRingBuffer st" and ?n = "Count * word_of_int (BytesPerSample (st_SampleInfo st))"
  let ?q = "rb_queue ?rb"
  have q: "int (length ?q) = read_space ?rb" by (rule length_rb_queue [OF rb])
  have b: "0 \<le> read_space ?rb" "read_space ?rb < rb_size ?rb" using read_space_bounds [OF rb] by auto
  obtain x where x: "x < 31" "rb_size ?rb = 2 ^ x" using rb by (auto simp: rb_ok_def)
  then have "rb_size ?rb < 2 ^ 31" using power_strict_increasing [of x 31 "2 :: int"] by simp
  then have left: "uint (word_of_int (read_space ?rb) :: 32 word) = read_space ?rb"
    using b by (simp add: uint_word_of_int take_bit_int_eq_self)
  define k where "k = unat (min ?n (word_of_int (read_space ?rb)))"
  have k: "k = min (unat ?n) (length ?q)"
    using left q by (auto simp: k_def min_def word_le_nat_alt simp flip: nat_uint_eq)
  let ?rb' = "increment_read_ptr (int k) ?rb"
  have rb': "?rb' = ?rb\<lparr>rb_read_ptr := (rb_read_ptr ?rb + int k) mod rb_size ?rb\<rparr>"
    by (simp add: increment_read_ptr_def and_size_mask [OF rb])
  have ok': "rb_ok ?rb'" "rb_queue ?rb' = drop k ?q"
    unfolding rb' using rb rb_okD(1) [OF rb] k by (intro rb_ok_read_ptr rb_queue_advance; simp)+
  have all: "word_of_int (read_space ?rb) \<le> ?n \<longleftrightarrow> length ?q \<le> unat ?n"
    using left q by (auto simp: word_le_nat_alt simp flip: nat_uint_eq)
  let ?e = "e\<lparr>stream_objects := (stream_objects e)[i := st\<lparr>st_pRingBuffer := ?rb'\<rparr>]\<rparr>"
  have "IncrementReadPos i Count e =
      (if st_State st = state_end \<and> length ?q \<le> unat ?n then Stream_Reset i ?e else Some ?e)"
    using all k_def by (simp add: IncrementReadPos_def st the_stream_upd [OF st] Let_def)
  moreover have "drop k ?q = drop n ?q" using k n by (simp add: min_def)
  ultimately show ?thesis unfolding Let_def n using ok' by (intro exI [of _ ?rb']) (simp add: n)
qed

text \<open>
  Taking \<open>Count\<close> samples drops that many bytes of the queue, or all of them; a stream at the end of its
  sample is reset when the last byte is taken.
\<close>

theorem IncrementReadPos_ok:
  assumes st: "the_stream i e = Some st" and rb: "rb_ok (st_pRingBuffer st)"
  shows "\<exists>e' st'. IncrementReadPos i Count e = Some e' \<and> the_stream i e' = Some st' \<and> rb_ok (st_pRingBuffer st') \<and>
     (let n = unat (Count * word_of_int (BytesPerSample (st_SampleInfo st)));
          q = rb_queue (st_pRingBuffer st) in
      rb_queue (st_pRingBuffer st') = drop n q \<and>
      st_State st' = (if st_State st = state_end \<and> length q \<le> n then state_unused else st_State st))"
proof -
  let ?q = "rb_queue (st_pRingBuffer st)"
  define n where "n = unat (Count * word_of_int (BytesPerSample (st_SampleInfo st)))"
  obtain rb' where rb': "rb_ok rb'" "rb_queue rb' = drop n ?q"
    and inc: "let e' = e\<lparr>stream_objects := (stream_objects e)[i := st\<lparr>st_pRingBuffer := rb'\<rparr>]\<rparr> in
      IncrementReadPos i Count e = (if st_State st = state_end \<and> length ?q \<le> n then Stream_Reset i e' else Some e')"
    using IncrementReadPos_eq [OF st rb n_def] by blast
  let ?st = "st\<lparr>st_pRingBuffer := rb'\<rparr>"
  have st': "the_stream i (e\<lparr>stream_objects := (stream_objects e)[i := ?st]\<rparr>) = Some ?st"
    using st by (simp add: the_stream_set)
  show ?thesis
  proof (cases "st_State st = state_end \<and> length ?q \<le> n")
    case True
    then show ?thesis
      using inc Stream_Reset_eq [OF st'] rb'(1) st' unfolding n_def [symmetric]
      by (simp add: the_stream_set [OF st] reset_stream_ring Let_def flip: reset_stream_ring)
        (simp add: reset_stream_ring)
  next
    case False
    then show ?thesis using inc rb' st' unfolding n_def [symmetric] by (auto simp: Let_def)
  qed
qed

section \<open>An example\<close>

text \<open>A sample of 16 bit stereo frames, and a stream that plays it.\<close>

definition example_samples :: "unit samples" where
  "example_samples = \<lparr>GetFrameSize = (\<lambda>_. 4), GetChannelCount = (\<lambda>_. 2), GetTotalFrameCount = (\<lambda>_. 100),
     sample_SetPos = (\<lambda>_ pos. pos), sample_Read = (\<lambda>_ pos n. (replicate (nat n) [1, 2, 3, 4], pos + n)),
     sample_ReadAndLoop = (\<lambda>_ pb n. ([], pb))\<rparr>"

lemma example_samples_ok: "samples_ok example_samples"
  by (auto simp: samples_ok_def example_samples_def frames_ok_def)

definition example_ring :: "'a \<Rightarrow> 'a RingBuffer" where
  "example_ring x = \<lparr>rb_buf = [x, x, x, x, x, x, x, x], rb_size = 8, rb_wrap_elements = 0, rb_write_ptr = 0,
     rb_read_ptr = 0, rb_size_mask = 7\<rparr>"

lemma example_ring_ok [simp]: "rb_ok (example_ring x)" "rb_queue (example_ring x) = []"
proof -
  have "\<exists>k\<ge>1. k < 31 \<and> (8::int) = 2 ^ k" by (rule exI [of _ 3]) simp
  then show "rb_ok (example_ring x)" by (simp add: example_ring_def rb_ok_def)
  show "rb_queue (example_ring x) = []" by (simp add: example_ring_def rb_queue_def read_space_def)
qed

definition example_stream :: "state_t \<Rightarrow> unit Stream" where
  "example_stream s = \<lparr>st_pExportReference = None, st_State = s, st_hThis = 0,
     st_PlaybackState = \<lparr>pb_position = 0, pb_reverse = False, pb_loop_cycles_left = 0\<rparr>,
     st_pRingBuffer = example_ring 0,
     st_SampleInfo = \<lparr>FrameSize = 4, ChannelsPerFrame = 2, BytesPerSample = 2, TotalSampleCount = 100\<rparr>,
     st_SampleOffset = 0, st_pRegion = (if s = state_unused then None else Some ()), st_DoLoop = False\<rparr>"

lemma example_stream_ok: "stream_ok example_samples (example_stream s)"
  by (simp add: stream_ok_def example_stream_def info_ok_def example_samples_def)

definition example_streams :: "unit streams" where
  "example_streams = \<lparr>references = (\<lambda>_. \<lparr>rf_OrderID = 0, rf_hStream = 0, rf_State = state_unused, rf_pStream = None\<rparr>),
     stream_objects = [example_stream state_active], UnusedStreams = 0, TotalStreams = 1\<rparr>"

lemma ReadAhead_ok_witness:
  "\<exists>k e' st'. ReadAhead example_samples 0 3 example_streams = Some (k, e') \<and>
     the_stream 0 e' = Some st' \<and> stream_ok example_samples st'"
proof -
  have "the_stream 0 example_streams = Some (example_stream state_active)"
    by (simp add: example_streams_def the_stream_def nth_opt_def)
  moreover have "3 * BytesPerSample (st_SampleInfo (example_stream state_active))
      \<le> write_space_to_end_with_wrap (st_pRingBuffer (example_stream state_active))"
    by (simp add: example_stream_def example_ring_def write_space_to_end_with_wrap_def)
  ultimately show ?thesis
    using ReadAhead_ok [OF example_samples_ok _ example_stream_ok, of 0 example_streams state_active 3] by fastforce
qed

lemma IncrementReadPos_ok_witness:
  "\<exists>e' st'. IncrementReadPos 0 3 example_streams = Some e' \<and> the_stream 0 e' = Some st' \<and>
     rb_queue (st_pRingBuffer st') = [] \<and> st_State st' = state_active"
proof -
  have "the_stream 0 example_streams = Some (example_stream state_active)"
    by (simp add: example_streams_def the_stream_def nth_opt_def)
  from IncrementReadPos_ok [OF this, of 3] show ?thesis by (auto simp: example_stream_def Let_def)
qed

end
