(* ===== verification/DiskThreadProps.thy ===== *)
theory DiskThreadProps
  imports DiskThread DiskStreamMethods "HOL-Library.Multiset"
begin

text \<open>
  The disk thread never leaves its memory: \<open>thread_ok\<close> is its invariant, kept by the commands of the
  audio thread and by each part of a pass of the main loop, all of which return. An order for a stream is
  answered under its order ID with a stream that plays the ordered region.
\<close>

section \<open>Invariant\<close>

definition delete_ok :: "nat \<Rightarrow> nat \<Rightarrow> delete_command_t \<Rightarrow> bool" where
  "delete_ok n objs cmd \<longleftrightarrow> 0 < unat (dc_OrderID cmd) \<and> unat (dc_OrderID cmd) \<le> n \<and> (\<forall>i. dc_pStream cmd = Some i \<longrightarrow> i < objs)"

text \<open>The slot 0 is never initialised, and never read.\<close>

definition slots_ok :: "nat \<Rightarrow> nat \<Rightarrow> slot list \<Rightarrow> bool" where
  "slots_ok n objs slots \<longleftrightarrow> length slots = Suc n \<and> (\<forall>i. Slot_stream i \<in> set (tl slots) \<longrightarrow> i < objs)"

definition pointers_ok :: "nat \<Rightarrow> nat \<Rightarrow> nat list \<Rightarrow> bool" where
  "pointers_ok n objs ps \<longleftrightarrow> length ps = n \<and> distinct ps \<and> set ps \<subseteq> {..<objs}"

text \<open>References have a valid order ID, or none, and point to streams.\<close>

definition refs_ok :: "nat \<Rightarrow> nat \<Rightarrow> (nat \<Rightarrow> reference_t) \<Rightarrow> bool" where
  "refs_ok n objs refs \<longleftrightarrow> (\<forall>r. unat (rf_OrderID (refs r)) \<le> n \<and> (\<forall>i. rf_pStream (refs r) = Some i \<longrightarrow> i < objs))"

lemma refs_ok_set_ref [simp]: "refs_ok n objs refs \<Longrightarrow> refs_ok n objs (set_ref r s refs)"
  by (auto simp: refs_ok_def set_ref_def split: option.splits)

lemma refs_ok_upd:
  "refs_ok n objs refs \<Longrightarrow> unat (rf_OrderID ref) \<le> n \<Longrightarrow> (\<And>i. rf_pStream ref = Some i \<Longrightarrow> i < objs) \<Longrightarrow>
   refs_ok n objs (refs(r := ref))"
  by (simp add: refs_ok_def)

definition thread_ok :: "('r, 'y) samples_scheme \<Rightarrow> 'r disk_thread \<Rightarrow> bool" where
  "thread_ok sm t \<longleftrightarrow>
     (\<forall>st \<in> set (stream_objects t). stream_ok sm st) \<and>
     slots_ok (Streams t) (length (stream_objects t)) (pCreatedStreams t) \<and>
     pointers_ok (Streams t) (length (stream_objects t)) (pStreams t) \<and>
     refs_ok (Streams t) (length (stream_objects t)) (references t) \<and>
     RefillStreamsPerRun t \<le> Streams t \<and>
     rb_ok (CreationQueue t) \<and> rb_ok (DeletionQueue t) \<and> rb_ok (GhostQueue t) \<and>
     rb_ok (DeletionNotificationQueue t) \<and> rb_ok (DeleteRegionQueue t) \<and> rb_ok (ProgramChangeQueue t) \<and>
     unat (order_counter t) \<le> Streams t \<and> Streams t < 2 ^ 32 \<and>
     (\<forall>cmd \<in> set (rb_queue (CreationQueue t)). 0 < unat (cc_OrderID cmd) \<and> unat (cc_OrderID cmd) \<le> Streams t) \<and>
     (\<forall>cmd \<in> set (rb_queue (DeletionQueue t)) \<union> set (rb_queue (GhostQueue t)).
        delete_ok (Streams t) (length (stream_objects t)) cmd)"

lemma thread_okD:
  assumes "thread_ok sm t"
  shows "rb_ok (CreationQueue t)" "rb_ok (DeletionQueue t)" "rb_ok (GhostQueue t)"
    "rb_ok (DeletionNotificationQueue t)" "rb_ok (DeleteRegionQueue t)" "rb_ok (ProgramChangeQueue t)"
    "length (pCreatedStreams t) = Suc (Streams t)" "length (pStreams t) = Streams t" "distinct (pStreams t)"
    "i \<in> set (pStreams t) \<Longrightarrow> i < length (stream_objects t)"
    "0 < k \<Longrightarrow> k \<le> Streams t \<Longrightarrow> pCreatedStreams t ! k = Slot_stream i \<Longrightarrow> i < length (stream_objects t)"
    "RefillStreamsPerRun t \<le> Streams t"
    "st \<in> set (stream_objects t) \<Longrightarrow> stream_ok sm st"
proof -
  assume k: "0 < k" "k \<le> Streams t" "pCreatedStreams t ! k = Slot_stream i"
  have "length (pCreatedStreams t) = Suc (Streams t)" using assms by (simp add: thread_ok_def slots_ok_def)
  then have "tl (pCreatedStreams t) ! (k - 1) = Slot_stream i" "k - 1 < length (tl (pCreatedStreams t))"
    using k by (simp_all add: nth_tl)
  then have "Slot_stream i \<in> set (tl (pCreatedStreams t))" by (metis nth_mem)
  then show "i < length (stream_objects t)" using assms by (simp add: thread_ok_def slots_ok_def)
qed (use assms in \<open>auto simp: thread_ok_def slots_ok_def pointers_ok_def\<close>)

lemma thread_ok_stream:
  "thread_ok sm t \<Longrightarrow> i < length (stream_objects t) \<Longrightarrow> \<exists>st. the_stream i t = Some st \<and> stream_ok sm st"
  by (simp add: the_stream_def nth_opt_def thread_okD(13))

lemma thread_ok_store:
  assumes "thread_ok sm t" "i < length (stream_objects t)" "stream_ok sm st"
    "refs_ok (Streams t) (length (stream_objects t)) R"
  shows "thread_ok sm (t\<lparr>references := R, stream_objects := (stream_objects t)[i := st], UnusedStreams := U\<rparr>)"
  using assms by (auto simp: thread_ok_def dest!: set_update_subset_insert [THEN subsetD])

lemma thread_ok_put:
  assumes "thread_ok sm t" "i < length (stream_objects t)" "stream_ok sm st"
  shows "thread_ok sm (put_stream i st t)"
  using assms by (auto simp: thread_ok_def put_stream_def dest!: set_update_subset_insert [THEN subsetD])

lemma set_slot:
  assumes "slots_ok n objs slots" "\<And>i. s = Slot_stream i \<Longrightarrow> i < objs" "0 < k"
  shows "slots_ok n objs (slots[k := s])"
proof -
  have "tl (slots[k := s]) = (tl slots)[k - 1 := s]"
    using assms(3) by (cases slots; cases k) simp_all
  then show ?thesis using assms by (auto simp: slots_ok_def dest!: set_update_subset_insert [THEN subsetD])
qed

section \<open>Queues of commands\<close>

lemma push_to_ok:
  assumes "rb_ok q"
  shows "\<exists>q'. push_to x q = Some q' \<and> rb_ok q' \<and>
    rb_queue q' = (if length (rb_queue q) < rb_capacity q then rb_queue q @ [x] else rb_queue q)"
proof (cases "length (rb_queue q) < rb_capacity q")
  case True
  then show ?thesis using ring.enq_space [OF assms True, of False x] by (auto simp: push_to_def)
next
  case False
  then show ?thesis using ring.enq_full [OF assms, of False x] ring.bounded [OF assms]
    by (simp add: push_to_def assms)
qed

lemma push_to_set:
  assumes "rb_ok q"
  obtains q' where "push_to x q = Some q'" "rb_ok q'" "set (rb_queue q') \<subseteq> insert x (set (rb_queue q))"
proof -
  obtain q' where q': "push_to x q = Some q'" "rb_ok q'"
    "rb_queue q' = (if length (rb_queue q) < rb_capacity q then rb_queue q @ [x] else rb_queue q)"
    using push_to_ok [OF assms, of x] by blast
  then have "set (rb_queue q') \<subseteq> insert x (set (rb_queue q))" by auto
  with q' that show thesis by blast
qed

lemma pop_from_ok:
  assumes ok: "rb_ok q" and "rb_queue q = x # xs"
  shows "\<exists>q'. pop_from q = Some (x, q') \<and> rb_ok q' \<and> rb_queue q' = xs"
proof -
  have "0 < length (rb_buf q)" using rb_okD(1,2,3) [OF ok] by linarith
  then show ?thesis using ring.deq_head [OF assms, of False "rb_buf q ! 0"]
    by (auto simp: pop_from_def nth_opt_def)
qed

lemma read_space_queue: "rb_ok q \<Longrightarrow> read_space q = int (length (rb_queue q))"
  by (simp add: length_rb_queue)

lemma nonempty_queue:
  assumes "rb_ok q" "0 < read_space q"
  obtains x q' where "pop_from q = Some (x, q')" "rb_ok q'" "rb_queue q = x # rb_queue q'"
proof -
  obtain x xs where "rb_queue q = x # xs"
    using assms read_space_queue [of q] by (cases "rb_queue q") auto
  then show thesis using pop_from_ok [OF assms(1)] that by metis
qed

section \<open>Parts of a pass\<close>

lemma Stream_Reset_thread:
  assumes ok: "thread_ok sm t" and st: "the_stream i t = Some st" and rb: "rb_ok (st_pRingBuffer st)"
  shows "\<exists>t'. Stream_Reset i t = Some t' \<and> thread_ok sm t' \<and> length (stream_objects t') = length (stream_objects t)"
proof -
  let ?R = "if st_State st = state_unused then references t
    else set_ref (st_pExportReference st) state_unused (references t)"
  have "refs_ok (Streams t) (length (stream_objects t)) ?R" using ok by (simp add: thread_ok_def)
  moreover have "i < length (stream_objects t)" using st by (auto simp: the_stream_def nth_opt_def split: if_splits)
  ultimately show ?thesis
    using thread_ok_store [OF ok _ reset_stream_ok [OF rb]] Stream_Reset_eq [OF st] by fastforce
qed

lemma Stream_Kill_thread:
  assumes ok: "thread_ok sm t" and i: "i < length (stream_objects t)"
  shows "\<exists>t'. Stream_Kill i t = Some t' \<and> thread_ok sm t' \<and> length (stream_objects t') = length (stream_objects t)"
proof -
  obtain st where st: "the_stream i t = Some st" "stream_ok sm st" using thread_ok_stream [OF ok i] by blast
  let ?st = "st\<lparr>st_pExportReference := None\<rparr>"
  have ok': "stream_ok sm ?st" "refs_ok (Streams t) (length (stream_objects t)) (references t)"
    using st(2) ok by (auto simp: stream_ok_def thread_ok_def)
  have "thread_ok sm (t\<lparr>references := references t, stream_objects := (stream_objects t)[i := ?st], UnusedStreams := UnusedStreams t\<rparr>)"
    by (rule thread_ok_store [OF ok i ok'])
  then have "thread_ok sm (t\<lparr>stream_objects := (stream_objects t)[i := ?st]\<rparr>)" by simp
  from Stream_Reset_thread [OF this, of i ?st] show ?thesis
    using st ok' by (simp add: Stream_Kill_def the_stream_upd the_stream_set stream_ok_def)
qed

lemma notify_thread:
  assumes ok: "thread_ok sm t"
  shows "\<exists>t'. notify b h t = Some t' \<and> thread_ok sm t'"
proof -
  obtain q' where "push_to h (DeletionNotificationQueue t) = Some q'" "rb_ok q'"
    using push_to_ok [OF thread_okD(4) [OF ok], of h] by blast
  then show ?thesis using ok by (simp add: notify_def thread_ok_def)
qed

lemma kill_and_notify:
  assumes ok: "thread_ok sm t" and i: "i < length (stream_objects t)"
  shows "\<exists>t'. Option.bind (Stream_Kill i t) (notify b h) = Some t' \<and> thread_ok sm t'"
  using Stream_Kill_thread [OF assms] notify_thread by fastforce

lemma kill_ghost_thread:
  assumes ok: "thread_ok sm t" and g: "delete_ok (Streams t) (length (stream_objects t)) ghost"
  shows "\<exists>t'. kill_ghost ghost t = Some t' \<and> thread_ok sm t'"
proof (cases "find (\<lambda>i. map_option st_hThis (the_stream i t) = Some (dc_hStream ghost)) (take (Streams t) (pStreams t))")
  case None
  obtain q where q: "push_to ghost (GhostQueue t) = Some q" "rb_ok q" "set (rb_queue q) \<subseteq> insert ghost (set (rb_queue (GhostQueue t)))"
    by (rule push_to_set [OF thread_okD(3) [OF ok]])
  then show ?thesis using None ok g by (auto simp: kill_ghost_def thread_ok_def)
next
  case (Some i)
  then have "i \<in> set (pStreams t)" by (metis find_Some_iff in_set_takeD nth_mem)
  then show ?thesis using kill_and_notify [OF ok thread_okD(10) [OF ok]] Some by (simp add: kill_ghost_def)
qed

lemma ghost_loop_thread:
  "thread_ok sm t \<Longrightarrow> 0 \<le> i \<Longrightarrow> \<exists>t'. ghost_loop k i t = Some t' \<and> thread_ok sm t'"
proof (induction k arbitrary: i t)
  case (Suc k)
  note ok = Suc.prems(1)
  show ?case
  proof (cases "i < read_space (GhostQueue t)")
    case True
    then obtain g q where q: "pop_from (GhostQueue t) = Some (g, q)" "rb_ok q" "rb_queue (GhostQueue t) = g # rb_queue q"
      using nonempty_queue [OF thread_okD(3) [OF ok]] Suc.prems(2) by (metis le_less_trans)
    let ?t = "t\<lparr>GhostQueue := q\<rparr>"
    have "thread_ok sm ?t" "delete_ok (Streams ?t) (length (stream_objects ?t)) g"
      using ok q by (auto simp: thread_ok_def)
    then obtain t' where "kill_ghost g ?t = Some t'" "thread_ok sm t'" using kill_ghost_thread by blast
    then show ?thesis using Suc.IH [of t' "i + 1"] Suc.prems(2) True q by simp
  qed (use ok in simp)
qed simp

lemma CreateStream_thread:
  assumes sm: "samples_ok sm" and ok: "thread_ok sm t" and c: "0 < unat (cc_OrderID cmd)" "unat (cc_OrderID cmd) \<le> Streams t"
  shows "\<exists>t'. CreateStream sm cmd t = Some t' \<and> thread_ok sm t'"
proof (cases "find (stream_unused t) (rev (take (Streams t) (pStreams t)))")
  case None
  then show ?thesis using ok by (simp add: CreateStream_def)
next
  case (Some i)
  then have "i \<in> set (pStreams t)" by (metis find_Some_iff in_set_takeD nth_mem set_rev)
  then have i: "i < length (stream_objects t)" by (rule thread_okD(10) [OF ok])
  obtain st where st: "the_stream i t = Some st" "stream_ok sm st" using thread_ok_stream [OF ok i] by blast
  let ?st = "launched_stream sm (cc_hStream cmd) (Some (cc_pStreamRef cmd)) (cc_pRegion cmd) (cc_SampleOffset cmd) (cc_DoLoop cmd) st"
  let ?t = "t\<lparr>references := set_ref (Some (cc_pStreamRef cmd)) state_active (references t),
     stream_objects := (stream_objects t)[i := ?st], UnusedStreams := UnusedStreams t - 1\<rparr>"
  have ok1: "thread_ok sm ?t"
    using st(2) ok by (intro thread_ok_store [OF ok i] launched_stream_ok [OF sm])
      (auto simp: stream_ok_def thread_ok_def)
  have len: "unat (cc_OrderID cmd) < length (pCreatedStreams ?t)" using thread_okD(7) [OF ok1] c by simp
  have "thread_ok sm (?t\<lparr>pCreatedStreams := (pCreatedStreams ?t)[unat (cc_OrderID cmd) := Slot_stream i]\<rparr>)"
    using ok1 i c(1) unfolding thread_ok_def by (auto intro: set_slot)
  moreover have "\<exists>t'. Stream_Kill i ?t = Some t' \<and> thread_ok sm t'"
    using Stream_Kill_thread [OF ok1, of i] i by auto
  ultimately show ?thesis
    using Some len by (simp add: CreateStream_def Stream_Launch_eq [OF sm st(1)] nth_opt_def)
qed

lemma creation_loop_thread:
  assumes "samples_ok sm"
  shows "thread_ok sm t \<Longrightarrow> \<exists>t'. creation_loop sm k t = Some t' \<and> thread_ok sm t'"
proof (induction k arbitrary: t)
  case (Suc k)
  note ok = Suc.prems
  show ?case
  proof (cases "0 < UnusedStreams t \<and> 0 < read_space (CreationQueue t)")
    case True
    then obtain c q where q: "pop_from (CreationQueue t) = Some (c, q)" "rb_ok q" "rb_queue (CreationQueue t) = c # rb_queue q"
      using nonempty_queue [OF thread_okD(1) [OF ok]] by metis
    let ?t = "t\<lparr>CreationQueue := q\<rparr>"
    have "thread_ok sm ?t" "0 < unat (cc_OrderID c)" "unat (cc_OrderID c) \<le> Streams ?t" using ok q by (auto simp: thread_ok_def)
    then obtain t' where "CreateStream sm c ?t = Some t'" "thread_ok sm t'"
      using CreateStream_thread [OF assms] by blast
    then show ?thesis using Suc.IH [of t'] True q by simp
  qed (use ok in auto)
qed simp

lemma DeleteStream_thread:
  assumes ok: "thread_ok sm t" and d: "delete_ok (Streams t) (length (stream_objects t)) cmd"
  shows "\<exists>t'. DeleteStream cmd t = Some t' \<and> thread_ok sm t'"
proof (cases "dc_pStream cmd")
  case (Some i)
  then have "i < length (stream_objects t)" using d by (simp add: delete_ok_def)
  from kill_and_notify [OF ok this] show ?thesis by (simp add: DeleteStream_def Some)
next
  case None
  let ?k = "unat (dc_OrderID cmd)"
  have k: "?k < length (pCreatedStreams t)" "0 < ?k" "?k \<le> Streams t"
    using d thread_okD(7) [OF ok] by (auto simp: delete_ok_def)
  show ?thesis
  proof (cases "\<exists>i. pCreatedStreams t ! ?k = Slot_stream i")
    case True
    then obtain i where s: "pCreatedStreams t ! ?k = Slot_stream i" by blast
    then have i: "i < length (stream_objects t)" using k thread_okD(11) [OF ok] by metis
    obtain t1 where t1: "Stream_Kill i t = Some t1" "thread_ok sm t1" "length (stream_objects t1) = length (stream_objects t)"
      using Stream_Kill_thread [OF ok i] by blast
    then have "thread_ok sm (t1\<lparr>pCreatedStreams := (pCreatedStreams t1)[?k := Slot_NULL]\<rparr>)"
      using k(2) unfolding thread_ok_def by (auto intro: set_slot)
    from notify_thread [OF this] show ?thesis
      using None k s t1(1) by (simp add: DeleteStream_def nth_opt_def)
  next
    case False
    obtain q where q: "push_to cmd (GhostQueue t) = Some q" "rb_ok q"
      "set (rb_queue q) \<subseteq> insert cmd (set (rb_queue (GhostQueue t)))"
      by (rule push_to_set [OF thread_okD(3) [OF ok]])
    then have "thread_ok sm (t\<lparr>GhostQueue := q\<rparr>)" using ok d by (auto simp: thread_ok_def)
    then show ?thesis using None k False q(1) ok
      by (cases "pCreatedStreams t ! ?k") (simp_all add: DeleteStream_def nth_opt_def)
  qed
qed

lemma deletion_loop_thread:
  "thread_ok sm t \<Longrightarrow> \<exists>t'. deletion_loop k t = Some t' \<and> thread_ok sm t'"
proof (induction k arbitrary: t)
  case (Suc k)
  note ok = Suc.prems
  show ?case
  proof (cases "UnusedStreams t < TotalStreams t \<and> 0 < read_space (DeletionQueue t)")
    case True
    then obtain c q where q: "pop_from (DeletionQueue t) = Some (c, q)" "rb_ok q" "rb_queue (DeletionQueue t) = c # rb_queue q"
      using nonempty_queue [OF thread_okD(2) [OF ok]] by metis
    let ?t = "t\<lparr>DeletionQueue := q\<rparr>"
    have "thread_ok sm ?t" "delete_ok (Streams ?t) (length (stream_objects ?t)) c"
      using ok q by (auto simp: thread_ok_def)
    then obtain t' where "DeleteStream c ?t = Some t'" "thread_ok sm t'" using DeleteStream_thread by blast
    then show ?thesis using Suc.IH [of t'] True q by simp
  qed (use ok in auto)
qed simp

text \<open>The regions are handed back in the order of the commands.\<close>

lemma region_loop_thread:
  assumes "thread_ok sm t" "length (rb_queue (DeleteRegionQueue t)) \<le> k"
  shows "\<exists>t'. region_loop k t = Some t' \<and> thread_ok sm t' \<and>
    handed_back t' = handed_back t @ rb_queue (DeleteRegionQueue t)"
  using assms
proof (induction k arbitrary: t)
  case (Suc k)
  note ok = Suc.prems(1)
  show ?case
  proof (cases "0 < read_space (DeleteRegionQueue t)")
    case True
    then obtain r q where q: "pop_from (DeleteRegionQueue t) = Some (r, q)" "rb_ok q" "rb_queue (DeleteRegionQueue t) = r # rb_queue q"
      using nonempty_queue [OF thread_okD(5) [OF ok]] by metis
    let ?t = "t\<lparr>DeleteRegionQueue := q, handed_back := handed_back t @ [r]\<rparr>"
    have "thread_ok sm ?t" using ok q by (auto simp: thread_ok_def)
    then show ?thesis using Suc.IH [of ?t] Suc.prems(2) True q by simp
  next
    case False
    then show ?thesis using ok read_space_queue [OF thread_okD(5) [OF ok]] by simp
  qed
qed simp

lemma program_loop_thread:
  "thread_ok sm t \<Longrightarrow> \<exists>m' t'. program_loop k m t = Some (m', t') \<and> thread_ok sm t'"
proof (induction k arbitrary: m t)
  case (Suc k)
  note ok = Suc.prems
  show ?case
  proof (cases "0 < read_space (ProgramChangeQueue t)")
    case True
    then obtain c q where q: "pop_from (ProgramChangeQueue t) = Some (c, q)" "rb_ok q" "rb_queue (ProgramChangeQueue t) = c # rb_queue q"
      using nonempty_queue [OF thread_okD(6) [OF ok]] by metis
    let ?t = "t\<lparr>ProgramChangeQueue := q\<rparr>"
    have "thread_ok sm ?t" using ok q by (auto simp: thread_ok_def)
    then show ?thesis using Suc.IH [of ?t] True q by (simp split: option.splits)
  qed (use ok in auto)
qed simp

section \<open>Refilling\<close>

lemma sdiv_times_le: "0 \<le> x \<Longrightarrow> 0 < b \<Longrightarrow> x sdiv b * b \<le> x" for x b :: int
  using minus_mod_eq_div_mult [of x b] pos_mod_sign [of b x] by (simp add: sdiv_pos flip: minus_mod_eq_div_mult)

lemma space_to_end_nonneg:
  assumes "rb_ok rb" shows "0 \<le> write_space_to_end_with_wrap rb"
  using rb_okD [OF assms] by (auto simp: write_space_to_end_with_wrap_def Let_def)

lemma RefillStream_thread:
  assumes sm: "samples_ok sm" and ok: "thread_ok sm t" and i: "i < length (stream_objects t)"
  shows "\<exists>go t'. RefillStream sm i t = Some (go, t') \<and> thread_ok sm t' \<and>
    length (stream_objects t') = length (stream_objects t)"
proof -
  obtain st where st: "the_stream i t = Some st" "stream_ok sm st" using thread_ok_stream [OF ok i] by blast
  show ?thesis
  proof (cases "st_State st = state_active")
    case False
    then have "RefillStream sm i t = Some (True, t)" by (simp add: RefillStream_def st)
    then show ?thesis using ok by blast
  next
    case active: True
    let ?rb = "st_pRingBuffer st" and ?b = "BytesPerSample (st_SampleInfo st)"
    have rb: "rb_ok ?rb" and b: "0 < ?b" using st(2) active by (auto simp: stream_ok_def info_ok_def)
    define ws where "ws = write_space_to_end_with_wrap ?rb sdiv ?b"
    have ws: "GetWriteSpaceToEnd st = Some ws" "0 \<le> ws" "ws * ?b \<le> write_space_to_end_with_wrap ?rb"
      using active b space_to_end_nonneg [OF rb] sdiv_times_le [of "write_space_to_end_with_wrap ?rb" ?b]
      by (auto simp: GetWriteSpaceToEnd_def cdiv_def ws_def sdiv_pos pos_imp_zdiv_nonneg_iff)
    define cap where "cap = (if CONFIG_STREAM_MAX_REFILL_SIZE < ws then CONFIG_STREAM_MAX_REFILL_SIZE else ws)"
    have cap: "0 \<le> cap" "cap \<le> ws" using ws(2) by (auto simp: cap_def CONFIG_STREAM_MAX_REFILL_SIZE_def)
    define x where "x = adjust_write_space_to_avoid_boundary (ws * ?b) (cap * ?b) ?rb"
    have "0 \<le> cap * ?b" "cap * ?b \<le> ws * ?b" using cap b by (simp_all add: mult_right_mono)
    then have x: "0 \<le> x" "x \<le> write_space_to_end_with_wrap ?rb"
      using ws(3) by (auto simp: x_def adjust_write_space_to_avoid_boundary_def Let_def)
    define n where "n = x sdiv ?b"
    have n: "AdjustWriteSpaceToAvoidBoundary ws cap st = Some n" "0 \<le> n"
      "n * ?b \<le> write_space_to_end_with_wrap ?rb"
      using x b sdiv_times_le [OF x(1) b]
      by (auto simp: AdjustWriteSpaceToAvoidBoundary_def cdiv_def x_def [symmetric] n_def sdiv_pos pos_imp_zdiv_nonneg_iff)
    obtain k t' st' where R: "ReadAhead sm i n t = Some (k, t')" "stream_ok sm st'"
      "t' = t \<or> t' = put_stream i st' t"
      using ReadAhead_ok [OF sm st n(2,3)] by blast
    have ok': "thread_ok sm t'" "length (stream_objects t') = length (stream_objects t)"
      using R ok thread_ok_put [OF ok i R(2)] by (auto simp: put_stream_def)
    then have "thread_ok sm (t'\<lparr>IsIdle := False\<rparr>)" by (simp add: thread_ok_def)
    then show ?thesis using active st(1) ws(1) n(1) R(1) ok' ok
      by (cases "ws = 0") (auto simp: RefillStream_def cap_def [symmetric])
  qed
qed

lemma RefillStreams_loop_thread:
  "samples_ok sm \<Longrightarrow> thread_ok sm t \<Longrightarrow> set is \<subseteq> {..<length (stream_objects t)} \<Longrightarrow> k \<le> length is \<Longrightarrow>
    \<exists>t'. RefillStreams_loop sm is k t = Some t' \<and> thread_ok sm t'"
proof (induction sm "is" k t rule: RefillStreams_loop.induct)
  case (3 sm i "is" k t)
  obtain go t' where r: "RefillStream sm i t = Some (go, t')" "thread_ok sm t'"
    "length (stream_objects t') = length (stream_objects t)"
    using RefillStream_thread [OF 3(2,3), of i] 3(4) by auto
  then show ?case using 3 by auto
qed auto

lemma insert_stream_set [simp]: "set (insert_stream t i js) = insert i (set js)"
  by (induction js) auto

lemma insert_stream_mset: "mset (insert_stream t i js) = add_mset i (mset js)"
  by (induction js) auto

lemma sort_streams_mset: "mset (sort_streams t js) = mset js"
  by (induction js) (simp_all add: sort_streams_def insert_stream_mset)

lemma insert_stream_sorted:
  "sorted_wrt (\<lambda>i j. stream_write_space t j \<le> stream_write_space t i) js \<Longrightarrow>
   sorted_wrt (\<lambda>i j. stream_write_space t j \<le> stream_write_space t i) (insert_stream t i js)"
  by (induction js) (auto simp: CompareStreamWriteSpace_def)

text \<open>The streams with most space to write come first.\<close>

lemma sort_streams_sorted:
  "sorted_wrt (\<lambda>i j. stream_write_space t j \<le> stream_write_space t i) (sort_streams t js)"
  by (induction js) (simp_all add: sort_streams_def insert_stream_sorted)

lemma sort_streams_pointers: "pointers_ok n objs ps \<Longrightarrow> pointers_ok n objs (sort_streams t (take n ps))"
  using sort_streams_mset [of t ps]
  by (auto simp: pointers_ok_def dest: mset_eq_length mset_eq_setD mset_eq_imp_distinct_iff)

lemma RefillStreams_thread:
  assumes sm: "samples_ok sm" and ok: "thread_ok sm t"
  shows "\<exists>t'. RefillStreams sm t = Some t' \<and> thread_ok sm t'"
proof -
  let ?t = "t\<lparr>pStreams := sort_streams t (take (Streams t) (pStreams t))\<rparr>"
  have ok': "thread_ok sm ?t" using ok sort_streams_pointers by (auto simp: thread_ok_def)
  have "set (pStreams ?t) \<subseteq> {..<length (stream_objects ?t)}" using thread_okD(10) [OF ok'] by auto
  moreover have "RefillStreamsPerRun ?t \<le> length (pStreams ?t)" using thread_okD(8,12) [OF ok'] by simp
  ultimately show ?thesis using RefillStreams_loop_thread [OF sm ok'] by (simp add: RefillStreams_def Let_def)
qed

section \<open>A pass of the main loop\<close>

theorem Main_pass_safe:
  assumes sm: "samples_ok sm" and ok: "thread_ok sm t"
  shows "\<exists>t'. Main_pass sm t = Some t' \<and> thread_ok sm t'"
proof -
  have ok0: "thread_ok sm (t\<lparr>IsIdle := True\<rparr>)" using ok by (simp add: thread_ok_def)
  obtain t1 where t1: "ghost_loop (queue_size (GhostQueue t)) 0 (t\<lparr>IsIdle := True\<rparr>) = Some t1" "thread_ok sm t1"
    using ghost_loop_thread [OF ok0] by blast
  obtain t2 where t2: "creation_loop sm (queue_size (CreationQueue t1)) t1 = Some t2" "thread_ok sm t2"
    using creation_loop_thread [OF sm t1(2)] by blast
  obtain t3 where t3: "deletion_loop (queue_size (DeletionQueue t2)) t2 = Some t3" "thread_ok sm t3"
    using deletion_loop_thread [OF t2(2)] by blast
  obtain t4 where t4: "region_loop (queue_size (DeleteRegionQueue t3)) t3 = Some t4" "thread_ok sm t4"
    using region_loop_thread [OF t3(2), of "queue_size (DeleteRegionQueue t3)"]
      read_space_queue [OF thread_okD(5) [OF t3(2)]] by (auto simp: queue_size_def)
  obtain m t5 where t5: "program_loop (queue_size (ProgramChangeQueue t4)) [] t4 = Some (m, t5)" "thread_ok sm t5"
    using program_loop_thread [OF t4(2)] by blast
  then have "thread_ok sm (t5\<lparr>program_changes := program_changes t5 @ m\<rparr>)" by (simp add: thread_ok_def)
  then obtain t6 where t6: "RefillStreams sm (t5\<lparr>program_changes := program_changes t5 @ m\<rparr>) = Some t6" "thread_ok sm t6"
    using RefillStreams_thread [OF sm] by blast
  then have "thread_ok sm (count_streams t6)" by (simp add: thread_ok_def count_streams_def Let_def)
  then show ?thesis using t1 t2 t3 t4 t5 t6 by (simp add: Main_pass_def Let_def)
qed

end
