(* ===== verification/DiskThreadOrders.thy ===== *)
theory DiskThreadOrders
  imports DiskThreadProps
begin

text \<open>
  Orders of streams: the order IDs, the way of an order from the audio thread to the disk thread and
  back, and whole sessions, sequences of commands of the audio thread and passes of the disk thread.
\<close>

section \<open>Order IDs\<close>

definition order_pos :: "nat \<Rightarrow> nat \<Rightarrow> nat \<Rightarrow> nat" where
  "order_pos n c j = (c + j) mod n + 1"

definition next_order :: "nat \<Rightarrow> nat \<Rightarrow> nat" where
  "next_order n c = (if c = n then 1 else c + 1)"

lemma next_order_pos: "c \<le> n \<Longrightarrow> 0 < n \<Longrightarrow> next_order n c = order_pos n c 0"
  by (auto simp: next_order_def order_pos_def le_neq_implies_less)

lemma order_pos_Suc:
  assumes "c \<le> n" "0 < n" shows "order_pos n (next_order n c) j = order_pos n c (Suc j)"
proof (cases "c = n")
  case True
  have "(n + (1 + j)) mod n = (1 + j) mod n" by (rule mod_add_self1)
  then show ?thesis using True by (simp add: order_pos_def next_order_def)
qed (simp add: order_pos_def next_order_def)

lemma order_counter_next:
  assumes "unat (c :: 32 word) \<le> n" "n < 2 ^ 32"
  shows "unat (if c = of_nat n then 1 else c + 1) = next_order n (unat c)"
proof -
  have n: "unat (of_nat n :: 32 word) = n" using assms(2) by (simp add: unat_of_nat take_bit_nat_eq_self)
  show ?thesis
  proof (cases "c = of_nat n")
    case False
    then have "unat c < n" using n assms(1) by (metis le_neq_implies_less word_unat_eq_iff)
    then have "unat c + 1 < 2 ^ 32" using assms(2) by linarith
    then have "unat (c + 1) = unat c + 1" by (simp add: unat_word_ariths mod_less)
    then show ?thesis using False \<open>unat c < n\<close> by (simp add: next_order_def)
  qed (use n in \<open>simp add: next_order_def\<close>)
qed

definition no_order :: "nat \<Rightarrow> 'r disk_thread \<Rightarrow> 'r disk_thread \<Rightarrow> bool" where
  "no_order k t t' \<longleftrightarrow>
     (\<forall>j < k. pCreatedStreams t ! order_pos (Streams t) (unat (order_counter t)) j \<noteq> Slot_NULL) \<and>
     (\<exists>c. unat c \<le> Streams t \<and> t' = t\<lparr>order_counter := c\<rparr>)"

definition new_order :: "OrderID_t \<Rightarrow> 'r disk_thread \<Rightarrow> 'r disk_thread \<Rightarrow> bool" where
  "new_order oid t t' \<longleftrightarrow> oid \<noteq> 0 \<and> unat oid \<le> Streams t \<and> pCreatedStreams t ! unat oid = Slot_NULL \<and>
     t' = t\<lparr>order_counter := oid, pCreatedStreams := (pCreatedStreams t)[unat oid := SLOT_RESERVED]\<rparr>"

lemma CreateOrderID_loop_ok:
  assumes "length (pCreatedStreams t) = Suc (Streams t)" "unat (order_counter t) \<le> Streams t"
    "Streams t < 2 ^ 32" "0 < Streams t"
  shows "\<exists>oid t'. CreateOrderID_loop k t = Some (oid, t') \<and> (oid = 0 \<and> no_order k t t' \<or> new_order oid t t')"
  using assms
proof (induction k arbitrary: t)
  case 0
  then show ?case by (auto simp: no_order_def intro: exI [of _ "order_counter t"])
next
  case (Suc k)
  let ?n = "Streams t" and ?c = "unat (order_counter t)"
  define c' where "c' = (if order_counter t = of_nat ?n then 1 else order_counter t + 1)"
  have c': "unat c' = next_order ?n ?c" unfolding c'_def by (rule order_counter_next [OF Suc.prems(2,3)])
  have le: "unat c' \<le> ?n" "0 < unat c'" using Suc.prems(2,4) c' by (auto simp: next_order_def)
  have pos: "unat c' = order_pos ?n ?c 0" using next_order_pos [OF Suc.prems(2,4)] c' by simp
  let ?t = "t\<lparr>order_counter := c'\<rparr>"
  have run: "CreateOrderID_loop (Suc k) t = (if pCreatedStreams t ! unat c' = Slot_NULL
      then Some (c', ?t\<lparr>pCreatedStreams := (pCreatedStreams t)[unat c' := SLOT_RESERVED]\<rparr>)
      else CreateOrderID_loop k ?t)"
    using le Suc.prems(1) by (simp add: nth_opt_def Let_def flip: c'_def)
  show ?case
  proof (cases "pCreatedStreams t ! unat c' = Slot_NULL")
    case True
    moreover have "c' \<noteq> 0" using le(2) by auto
    ultimately show ?thesis using le run by (simp add: new_order_def)
  next
    case False
    then obtain oid t' where IH: "CreateOrderID_loop (Suc k) t = Some (oid, t')"
      "oid = 0 \<and> no_order k ?t t' \<or> new_order oid ?t t'"
      using Suc.IH [of ?t] Suc.prems le(1) run by auto
    have "no_order (Suc k) t t'" if "no_order k ?t t'"
    proof -
      have "pCreatedStreams t ! order_pos ?n ?c j \<noteq> Slot_NULL" if "j < Suc k" for j
        using that \<open>no_order k ?t t'\<close> False c' pos order_pos_Suc [OF Suc.prems(2,4)]
        by (cases j) (auto simp: no_order_def)
      then show ?thesis using that by (auto simp: no_order_def)
    qed
    moreover have "new_order oid ?t t' \<Longrightarrow> new_order oid t t'" by (simp add: new_order_def)
    ultimately show ?thesis using IH by blast
  qed
qed

text \<open>
  A free slot is found when there is one, wherever the search starts, and it is reserved; no order ID is
  given only when every slot is taken.
\<close>

theorem CreateOrderID_complete:
  assumes "thread_ok sm t" "0 < Streams t"
  shows "\<exists>oid t'. CreateOrderID t = Some (oid, t') \<and> thread_ok sm t' \<and>
     (oid = 0 \<longleftrightarrow> (\<forall>i. 1 \<le> i \<and> i \<le> Streams t \<longrightarrow> pCreatedStreams t ! i \<noteq> Slot_NULL)) \<and>
     (oid \<noteq> 0 \<longrightarrow> unat oid \<le> Streams t \<and> pCreatedStreams t ! unat oid = Slot_NULL \<and>
        pCreatedStreams t' = (pCreatedStreams t)[unat oid := SLOT_RESERVED])"
proof -
  let ?n = "Streams t" and ?c = "unat (order_counter t)"
  have ok: "length (pCreatedStreams t) = Suc ?n" "?c \<le> ?n" "?n < 2 ^ 32"
    using assms(1) by (auto simp: thread_ok_def slots_ok_def)
  obtain oid t' where r: "CreateOrderID t = Some (oid, t')" "oid = 0 \<and> no_order ?n t t' \<or> new_order oid t t'"
    using CreateOrderID_loop_ok [OF ok assms(2), of ?n] by (auto simp: CreateOrderID_def)
  have visited: "\<exists>j < ?n. order_pos ?n ?c j = i" if i: "1 \<le> i" "i \<le> ?n" for i
  proof -
    let ?j = "(i - 1 + (?n - ?c)) mod ?n"
    have "(?c + ?j) mod ?n = (?c + (i - 1 + (?n - ?c))) mod ?n" by (simp add: mod_add_right_eq)
    also have "?c + (i - 1 + (?n - ?c)) = i - 1 + ?n" using ok(2) by simp
    also have "\<dots> mod ?n = i - 1" using i by (simp only: mod_add_self2) simp
    finally have "order_pos ?n ?c ?j = i" using i by (simp add: order_pos_def)
    then show ?thesis using assms(2) mod_less_divisor by blast
  qed
  from r(2) show ?thesis
  proof
    assume o: "oid = 0 \<and> no_order ?n t t'"
    then have "pCreatedStreams t ! i \<noteq> Slot_NULL" if "1 \<le> i" "i \<le> ?n" for i
      using visited [OF that] by (auto simp: no_order_def)
    moreover have "thread_ok sm t'" using o assms(1) by (auto simp: no_order_def thread_ok_def)
    ultimately show ?thesis using r(1) o by auto
  next
    assume o: "new_order oid t t'"
    then have "1 \<le> unat oid" using unat_gt_0 [of oid] by (simp add: new_order_def)
    moreover from this have "thread_ok sm t'"
      using o assms(1) by (auto simp: new_order_def thread_ok_def intro: set_slot)
    ultimately show ?thesis using r(1) o by (auto simp: new_order_def)
  qed
qed

section \<open>From the order to the stream\<close>


section \<open>Sessions\<close>

text \<open>
  What may happen to a disk thread: the commands of the audio thread, the pick up of a stream and the
  consumption of its bytes by a voice (\<open>VoiceBase.h\<close>), a pass of the main loop, and a reset. A client
  orders the deletion of a stream only with a reference that it got an order ID with.
\<close>

datatype 'r event = Order nat 'r int bool | Order_deletion nat bool | Order_region 'r | Order_program nat nat
  | Pick_up nat | Ask_deleted | Consume nat "32 word" | Pass | Do_reset

definition pick_up :: "nat \<Rightarrow> 'r disk_thread \<Rightarrow> 'r disk_thread option" where
  "pick_up r t = (case rf_pStream (references t r) of
     Some i \<Rightarrow> Some t
   | None \<Rightarrow> do {
       (p, t) \<leftarrow> AskForCreatedStream (rf_OrderID (references t r)) t;
       Some (t\<lparr>references := (references t)(r := (references t r)\<lparr>rf_pStream := p\<rparr>)\<rparr>) })"

definition consume :: "nat \<Rightarrow> 32 word \<Rightarrow> 'r disk_thread \<Rightarrow> 'r disk_thread option" where
  "consume r n t = (case rf_pStream (references t r) of
     None \<Rightarrow> Some t | Some i \<Rightarrow> IncrementReadPos i n t)"

fun exec_event :: "('r, 'y) samples_scheme \<Rightarrow> 'r event \<Rightarrow> 'r disk_thread \<Rightarrow> 'r disk_thread option" where
  "exec_event sm (Order r reg offset loop) t = map_option snd (OrderNewStream r reg offset loop t)"
| "exec_event sm (Order_deletion r b) t =
     (if rf_OrderID (references t r) = 0 then Some t else map_option snd (OrderDeletionOfStream r b t))"
| "exec_event sm (Order_region reg) t = map_option snd (OrderDeletionOfRegion reg t)"
| "exec_event sm (Order_program p c) t = map_option snd (OrderProgramChange p c t)"
| "exec_event sm (Pick_up r) t = (if rf_OrderID (references t r) = 0 then Some t else pick_up r t)"
| "exec_event sm Ask_deleted t = map_option snd (AskForDeletedStream t)"
| "exec_event sm (Consume r n) t = consume r n t"
| "exec_event sm Pass t = Main_pass sm t"
| "exec_event sm Do_reset t = DiskThread_Reset t"

fun exec_events :: "('r, 'y) samples_scheme \<Rightarrow> 'r event list \<Rightarrow> 'r disk_thread \<Rightarrow> 'r disk_thread option" where
  "exec_events sm [] t = Some t"
| "exec_events sm (e # es) t = do { t \<leftarrow> exec_event sm e t; exec_events sm es t }"

lemma slots_ok_nth: "slots_ok n objs slots \<Longrightarrow> k \<le> n \<Longrightarrow> nth_opt slots k = Some (slots ! k)"
  by (simp add: slots_ok_def nth_opt_def)

lemma CreateOrderID_thread:
  assumes ok: "thread_ok sm t"
  shows "\<exists>oid t'. CreateOrderID t = Some (oid, t') \<and> thread_ok sm t' \<and> Streams t' = Streams t \<and>
    unat oid \<le> Streams t"
proof (cases "Streams t = 0")
  case True
  then show ?thesis using ok by (simp add: CreateOrderID_def)
next
  case False
  have ok': "length (pCreatedStreams t) = Suc (Streams t)" "unat (order_counter t) \<le> Streams t" "Streams t < 2 ^ 32"
    using ok by (auto simp: thread_ok_def slots_ok_def)
  obtain oid t' where "CreateOrderID t = Some (oid, t')" "oid = 0 \<and> no_order (Streams t) t t' \<or> new_order oid t t'"
    using CreateOrderID_loop_ok [OF ok', of "Streams t"] False by (auto simp: CreateOrderID_def)
  moreover from this have "thread_ok sm t'"
    using CreateOrderID_complete [OF ok] False by auto
  ultimately show ?thesis by (auto simp: no_order_def new_order_def)
qed

lemma OrderNewStream_thread:
  assumes ok: "thread_ok sm t"
  shows "\<exists>x t'. OrderNewStream r reg offset loop t = Some (x, t') \<and> thread_ok sm t'"
proof (cases "write_space (CreationQueue t) < 1")
  case False
  obtain oid t1 where t1: "CreateOrderID t = Some (oid, t1)" "thread_ok sm t1" "Streams t1 = Streams t" "unat oid \<le> Streams t"
    using CreateOrderID_thread [OF ok] by blast
  show ?thesis
  proof (cases "oid = 0")
    case new: False
    obtain h where h: "CreateHandle t1 = (h, t1\<lparr>handle_counter := h\<rparr>)" by (simp add: CreateHandle_def Let_def)
    let ?cmd = "\<lparr>cc_OrderID = oid, cc_hStream = h, cc_pStreamRef = r, cc_pRegion = reg, cc_SampleOffset = offset, cc_DoLoop = loop\<rparr>"
    let ?ref = "\<lparr>rf_OrderID = oid, rf_hStream = h, rf_State = state_active, rf_pStream = None\<rparr>"
    obtain q where q: "push_to ?cmd (CreationQueue t1) = Some q" "rb_ok q"
      "set (rb_queue q) \<subseteq> insert ?cmd (set (rb_queue (CreationQueue t1)))"
      by (rule push_to_set [OF thread_okD(1) [OF t1(2)]])
    have "thread_ok sm (t1\<lparr>handle_counter := h, references := (references t1)(r := ?ref), CreationQueue := q\<rparr>)"
      using t1 q new unat_gt_0 [of oid] unfolding thread_ok_def by (auto intro!: refs_ok_upd)
    then show ?thesis using False t1(1) new h q(1) by (simp add: OrderNewStream_def Let_def)
  qed (use False t1 in \<open>simp add: OrderNewStream_def\<close>)
qed (use ok in \<open>simp add: OrderNewStream_def\<close>)

lemma OrderDeletionOfStream_thread:
  assumes ok: "thread_ok sm t" and "rf_OrderID (references t r) \<noteq> 0"
  shows "\<exists>x t'. OrderDeletionOfStream r b t = Some (x, t') \<and> thread_ok sm t'"
proof (cases "write_space (DeletionQueue t) < 1")
  case False
  let ?ref = "references t r"
  let ?cmd = "\<lparr>dc_pStream = rf_pStream ?ref, dc_hStream = rf_hStream ?ref, dc_OrderID = rf_OrderID ?ref, dc_bNotify = b\<rparr>"
  have "delete_ok (Streams t) (length (stream_objects t)) ?cmd"
    using assms unat_gt_0 [of "rf_OrderID ?ref"] by (simp add: delete_ok_def thread_ok_def refs_ok_def)
  moreover obtain q where "push_to ?cmd (DeletionQueue t) = Some q" "rb_ok q"
      "set (rb_queue q) \<subseteq> insert ?cmd (set (rb_queue (DeletionQueue t)))"
    by (rule push_to_set [OF thread_okD(2) [OF ok]])
  ultimately show ?thesis using False ok by (auto simp: OrderDeletionOfStream_def thread_ok_def Let_def)
qed (use ok in \<open>simp add: OrderDeletionOfStream_def\<close>)

lemma AskForCreatedStream_thread:
  assumes ok: "thread_ok sm t" and k: "rf_OrderID (references t r) \<noteq> 0"
  shows "\<exists>p t'. AskForCreatedStream (rf_OrderID (references t r)) t = Some (p, t') \<and> thread_ok sm t' \<and>
    Streams t' = Streams t \<and> stream_objects t' = stream_objects t \<and> (\<forall>i. p = Some i \<longrightarrow> i < length (stream_objects t))"
proof -
  let ?k = "unat (rf_OrderID (references t r))"
  have k: "0 < ?k" "?k \<le> Streams t" using k ok by (auto simp: unat_gt_0 thread_ok_def refs_ok_def)
  have s: "nth_opt (pCreatedStreams t) ?k = Some (pCreatedStreams t ! ?k)"
    using ok k(2) by (auto simp: thread_ok_def intro: slots_ok_nth)
  show ?thesis
  proof (cases "pCreatedStreams t ! ?k")
    case (Slot_stream i)
    then have "i < length (stream_objects t)" using thread_okD(11) [OF ok k] by blast
    moreover have "thread_ok sm (t\<lparr>pCreatedStreams := (pCreatedStreams t)[?k := Slot_NULL]\<rparr>)"
      using ok k(1) unfolding thread_ok_def by (auto intro: set_slot)
    ultimately show ?thesis using s Slot_stream by (simp add: AskForCreatedStream_def)
  qed (use s ok in \<open>simp_all add: AskForCreatedStream_def\<close>)
qed

lemma pick_up_thread:
  assumes ok: "thread_ok sm t" and k: "rf_OrderID (references t r) \<noteq> 0"
  shows "\<exists>t'. pick_up r t = Some t' \<and> thread_ok sm t'"
proof (cases "rf_pStream (references t r)")
  case None
  obtain p t1 where t1: "AskForCreatedStream (rf_OrderID (references t r)) t = Some (p, t1)" "thread_ok sm t1"
    "Streams t1 = Streams t" "stream_objects t1 = stream_objects t" "\<forall>i. p = Some i \<longrightarrow> i < length (stream_objects t)"
    using AskForCreatedStream_thread [OF assms] by blast
  have "thread_ok sm (t1\<lparr>references := (references t1)(r := (references t1 r)\<lparr>rf_pStream := p\<rparr>)\<rparr>)"
    using t1 unfolding thread_ok_def by (auto intro!: refs_ok_upd simp: refs_ok_def)
  then show ?thesis using None t1(1) by (simp add: pick_up_def)
qed (use ok in \<open>simp add: pick_up_def\<close>)

lemma kill_all_thread:
  "thread_ok sm t \<Longrightarrow> set is \<subseteq> {..<length (stream_objects t)} \<Longrightarrow> \<exists>t'. kill_all is t = Some t' \<and> thread_ok sm t'"
proof (induction "is" arbitrary: t)
  case (Cons i "is")
  then obtain t1 where "Stream_Kill i t = Some t1" "thread_ok sm t1" "length (stream_objects t1) = length (stream_objects t)"
    using Stream_Kill_thread [of sm t i] by auto
  then show ?case using Cons.IH [of t1] Cons.prems by auto
qed simp

lemma consume_thread:
  assumes ok: "thread_ok sm t"
  shows "\<exists>t'. consume r n t = Some t' \<and> thread_ok sm t'"
proof (cases "rf_pStream (references t r)")
  case (Some i)
  then have i: "i < length (stream_objects t)" using ok by (simp add: thread_ok_def refs_ok_def)
  obtain st where st: "the_stream i t = Some st" "stream_ok sm st" using thread_ok_stream [OF ok i] by blast
  then have rb: "rb_ok (st_pRingBuffer st)" by (simp add: stream_ok_def)
  obtain rb' m where rb': "rb_ok rb'" "rb_queue rb' = drop m (rb_queue (st_pRingBuffer st))"
    "let e' = t\<lparr>stream_objects := (stream_objects t)[i := st\<lparr>st_pRingBuffer := rb'\<rparr>]\<rparr> in
     IncrementReadPos i n t = (if st_State st = state_end \<and> length (rb_queue (st_pRingBuffer st)) \<le> m then Stream_Reset i e' else Some e')"
    using IncrementReadPos_eq [OF st(1) rb refl] by blast
  let ?t = "t\<lparr>stream_objects := (stream_objects t)[i := st\<lparr>st_pRingBuffer := rb'\<rparr>]\<rparr>"
  have "stream_ok sm (st\<lparr>st_pRingBuffer := rb'\<rparr>)" using st(2) rb'(1,2) by (auto simp: stream_ok_def)
  from thread_ok_store [OF ok i this, of "references t" "UnusedStreams t"] have ok': "thread_ok sm ?t"
    using ok by (simp add: thread_ok_def)
  have "the_stream i ?t = Some (st\<lparr>st_pRingBuffer := rb'\<rparr>)" using st(1) by (simp add: the_stream_set)
  from Stream_Reset_thread [OF ok' this] show ?thesis
    using rb' ok' Some by (auto simp: consume_def Let_def)
qed (use ok in \<open>simp add: consume_def\<close>)

lemma DiskThread_Reset_thread:
  assumes ok: "thread_ok sm t"
  shows "\<exists>t'. DiskThread_Reset t = Some t' \<and> thread_ok sm t'"
proof -
  have "set (take (Streams t) (pStreams t)) \<subseteq> {..<length (stream_objects t)}"
    using thread_okD(10) [OF ok] by (auto dest: in_set_takeD)
  then obtain t1 where t1: "kill_all (take (Streams t) (pStreams t)) t = Some t1" "thread_ok sm t1"
    using kill_all_thread [OF ok] by blast
  let ?t2 = "t1\<lparr>pCreatedStreams := take 1 (pCreatedStreams t1) @ replicate (Streams t1) Slot_NULL,
     GhostQueue := RingBuffer_init (GhostQueue t1), CreationQueue := RingBuffer_init (CreationQueue t1),
     DeletionQueue := RingBuffer_init (DeletionQueue t1),
     DeletionNotificationQueue := RingBuffer_init (DeletionNotificationQueue t1)\<rparr>"
  have empty: "rb_queue (RingBuffer_init q) = []" for q :: "'x RingBuffer"
    by (simp add: RingBuffer_init_def rb_queue_def read_space_def)
  have "take 1 (pCreatedStreams t1) = [hd (pCreatedStreams t1)]"
    using thread_okD(7) [OF t1(2)] by (cases "pCreatedStreams t1") auto
  then have "slots_ok (Streams t1) (length (stream_objects t1)) (take 1 (pCreatedStreams t1) @ replicate (Streams t1) Slot_NULL)"
    by (auto simp: slots_ok_def)
  then have t2: "thread_ok sm ?t2" using t1(2) unfolding thread_ok_def by (simp add: empty)
  obtain t3 where t3: "region_loop (queue_size (DeleteRegionQueue ?t2)) ?t2 = Some t3" "thread_ok sm t3"
    using region_loop_thread [OF t2, of "queue_size (DeleteRegionQueue ?t2)"]
      read_space_queue [OF thread_okD(5) [OF t2]] by (auto simp: queue_size_def)
  have "thread_ok sm (t3\<lparr>DeleteRegionQueue := RingBuffer_init (DeleteRegionQueue t3), ActiveStreamCount := 0, ActiveStreamCountMax := 0\<rparr>)"
    using t3(2) by (simp add: thread_ok_def)
  then show ?thesis using t1(1) t3(1) by (simp add: DiskThread_Reset_def Let_def)
qed

lemma AskForDeletedStream_thread:
  assumes ok: "thread_ok sm t"
  shows "\<exists>h t'. AskForDeletedStream t = Some (h, t') \<and> thread_ok sm t'"
proof (cases "0 < read_space (DeletionNotificationQueue t)")
  case True
  then obtain h q where "pop_from (DeletionNotificationQueue t) = Some (h, q)" "rb_ok q"
    using nonempty_queue [OF thread_okD(4) [OF ok]] by metis
  then show ?thesis using True ok by (simp add: AskForDeletedStream_def thread_ok_def)
next
  case False
  then have "read_space (DeletionNotificationQueue t) = 0"
    using read_space_bounds(1) [OF thread_okD(4) [OF ok]] by simp
  then show ?thesis using ok by (simp add: AskForDeletedStream_def)
qed

lemma exec_event_thread:
  assumes sm: "samples_ok sm" and ok: "thread_ok sm t"
  shows "\<exists>t'. exec_event sm e t = Some t' \<and> thread_ok sm t'"
proof (cases e)
  case (Order r reg offset loop)
  then show ?thesis using OrderNewStream_thread [OF ok] by fastforce
next
  case (Order_deletion r b)
  then show ?thesis using OrderDeletionOfStream_thread [OF ok, of r b] ok by (cases "rf_OrderID (references t r) = 0") auto
next
  case (Order_region reg)
  obtain q where "push_to reg (DeleteRegionQueue t) = Some q" "rb_ok q"
    by (rule push_to_set [OF thread_okD(5) [OF ok]])
  then show ?thesis using Order_region ok by (simp add: OrderDeletionOfRegion_def thread_ok_def)
next
  case (Order_program p c)
  obtain q where "push_to \<lparr>pc_Program = p, pc_pEngineChannel = c\<rparr> (ProgramChangeQueue t) = Some q" "rb_ok q"
    by (rule push_to_set [OF thread_okD(6) [OF ok]])
  then show ?thesis using Order_program ok by (simp add: OrderProgramChange_def thread_ok_def)
next
  case (Pick_up r)
  then show ?thesis using pick_up_thread [OF ok, of r] ok by (cases "rf_OrderID (references t r) = 0") auto
next
  case Ask_deleted
  then show ?thesis using AskForDeletedStream_thread [OF ok] by fastforce
next
  case (Consume r n)
  then show ?thesis using consume_thread [OF ok] by simp
next
  case Pass
  then show ?thesis using Main_pass_safe [OF sm ok] by simp
next
  case Do_reset
  then show ?thesis using DiskThread_Reset_thread [OF ok] by simp
qed

section \<open>From the constructor on\<close>

lemma exec_events_thread:
  assumes "samples_ok sm"
  shows "thread_ok sm t \<Longrightarrow> \<exists>t'. exec_events sm es t = Some t' \<and> thread_ok sm t'"
proof (induction es arbitrary: t)
  case (Cons e es)
  then show ?case using exec_event_thread [OF assms Cons.prems, of e] by fastforce
qed simp

lemma CreateAllStreams_thread:
  assumes wrap: "0 \<le> wrap" "wrap \<le> 2 ^ 28"
  shows "(\<forall>st \<in> set (stream_objects t). stream_ok sm st) \<Longrightarrow> distinct (pStreams t) \<Longrightarrow>
     set (pStreams t) \<subseteq> {..<length (stream_objects t)} \<Longrightarrow>
     \<exists>objs ps U T. CreateAllStreams mem info n wrap t =
         Some (t\<lparr>stream_objects := objs, pStreams := ps, UnusedStreams := U, TotalStreams := T\<rparr>) \<and>
       (\<forall>st \<in> set objs. stream_ok sm st) \<and> length objs = length (stream_objects t) + n \<and>
       length ps = length (pStreams t) + n \<and> distinct ps \<and> set ps \<subseteq> {..<length objs}"
proof (induction n arbitrary: t)
  case 0
  have "t = t\<lparr>stream_objects := stream_objects t, pStreams := pStreams t,
    UnusedStreams := UnusedStreams t, TotalStreams := TotalStreams t\<rparr>" by simp
  then show ?case using 0 by (metis CreateAllStreams.simps(1) add.right_neutral)
next
  case (Suc n)
  obtain rb where rb: "RingBuffer_new mem (CONFIG_STREAM_BUFFER_SIZE * 3) (wrap * 3) = Some rb" "rb_ok rb" "rb_queue rb = []"
    using new_ring_buffer [of "wrap * 3" "CONFIG_STREAM_BUFFER_SIZE * 3" mem] wrap
    by (auto simp: CONFIG_STREAM_BUFFER_SIZE_def)
  obtain st :: "'a Stream" where st: "Stream_new mem info CONFIG_STREAM_BUFFER_SIZE wrap = Some st" "stream_ok sm st"
    using rb by (simp add: Stream_new_def stream_ok_def)
  let ?t = "t\<lparr>pStreams := pStreams t @ [length (stream_objects t)], stream_objects := stream_objects t @ [st],
     UnusedStreams := UnusedStreams t + 1, TotalStreams := TotalStreams t + 1\<rparr>"
  obtain objs ps U T where "CreateAllStreams mem info n wrap ?t =
       Some (?t\<lparr>stream_objects := objs, pStreams := ps, UnusedStreams := U, TotalStreams := T\<rparr>)"
     "\<forall>st \<in> set objs. stream_ok sm st" "length objs = length (stream_objects ?t) + n"
     "length ps = length (pStreams ?t) + n" "distinct ps" "set ps \<subseteq> {..<length objs}"
    using Suc.IH [of ?t] Suc.prems st(2) by fastforce
  then show ?case using st(1)
    by (intro exI [of _ objs] exI [of _ ps] exI [of _ U] exI [of _ T]) simp
qed

lemma new_queue:
  assumes "0 \<le> n" "n \<le> 2 ^ 30"
  obtains rb where "RingBuffer_new mem n 0 = Some rb" "rb_ok rb" "rb_queue rb = []"
  using new_ring_buffer [of 0 n mem] assms by auto


section \<open>Program changes\<close>

text \<open>
  Of the waiting commands, the latest program of each engine channel is executed, channel by channel.
\<close>

lemma map_of_put_program: "sorted_wrt (<) (map fst m) \<Longrightarrow> map_of (put_program c p m) = (map_of m)(c \<mapsto> p)"
  by (induction c p m rule: put_program.induct) (auto simp: fun_eq_iff dest: order.asym)

lemma fst_put_program: "set (map fst (put_program c p m)) = insert c (set (map fst m))"
  by (induction c p m rule: put_program.induct) auto

lemma sorted_put_program: "sorted_wrt (<) (map fst m) \<Longrightarrow> sorted_wrt (<) (map fst (put_program c p m))"
proof (induction c p m rule: put_program.induct)
  case (2 c p c' p' m)
  then show ?case using fst_put_program [of c p m] by (auto simp del: set_map)
qed simp

text \<open>
  Of the program changes that wait, the last one of each channel is executed; the queue is empty after.
\<close>

theorem program_loop_latest:
  assumes "rb_ok (ProgramChangeQueue t)" "length (rb_queue (ProgramChangeQueue t)) \<le> k"
    "sorted_wrt (<) (map fst m)"
  shows "\<exists>m' t'. program_loop k m t = Some (m', t') \<and> rb_queue (ProgramChangeQueue t') = [] \<and>
     sorted_wrt (<) (map fst m') \<and>
     map_of m' = foldl (\<lambda>f cmd. f(pc_pEngineChannel cmd \<mapsto> pc_Program cmd)) (map_of m) (rb_queue (ProgramChangeQueue t))"
  using assms
proof (induction k arbitrary: m t)
  case (Suc k)
  show ?case
  proof (cases "0 < read_space (ProgramChangeQueue t)")
    case True
    then obtain c q where q: "pop_from (ProgramChangeQueue t) = Some (c, q)" "rb_ok q" "rb_queue (ProgramChangeQueue t) = c # rb_queue q"
      using nonempty_queue [OF Suc.prems(1)] by metis
    let ?t = "t\<lparr>ProgramChangeQueue := q\<rparr>" and ?m = "put_program (pc_pEngineChannel c) (pc_Program c) m"
    show ?thesis
      using Suc.IH [of ?t ?m] Suc.prems True q sorted_put_program by (simp add: map_of_put_program)
  next
    case False
    then show ?thesis using Suc.prems read_space_queue [of "ProgramChangeQueue t"] by simp
  qed
qed simp

section \<open>Orders that are deleted early\<close>

lemma Stream_Kill_slots: "Stream_Kill i t = Some t' \<Longrightarrow> pCreatedStreams t' = pCreatedStreams t"
proof (cases "the_stream i t")
  case None
  then show "Stream_Kill i t = Some t' \<Longrightarrow> ?thesis"
    by (auto simp: Stream_Kill_def Stream_Reset_def the_stream_def upd_stream_def nth_opt_def split: if_splits)
qed (auto simp: Stream_Kill_eq)

lemma notify_slots: "notify b h t = Some t' \<Longrightarrow> pCreatedStreams t' = pCreatedStreams t"
  by (auto simp: notify_def split: if_splits)

lemma kill_ghost_slots: "kill_ghost ghost t = Some t' \<Longrightarrow> pCreatedStreams t' = pCreatedStreams t"
  by (auto simp: kill_ghost_def dest!: Stream_Kill_slots notify_slots split: option.splits bind_splits)

text \<open>
  When a stream is deleted before the disk thread has made it, the command waits in the ghost queue. The
  stream is killed in a later pass, but nothing frees the slot of its order: the pass for ghosts changes
  no slot, and the client has dropped the reference.
\<close>

theorem ghost_keeps_slot:
  fixes t :: "'r disk_thread"
  assumes ok: "thread_ok sm t" and cmd: "delete_ok (Streams t) (length (stream_objects t)) cmd"
    and pending: "dc_pStream cmd = None" "pCreatedStreams t ! unat (dc_OrderID cmd) = SLOT_RESERVED"
    and room: "0 < write_space (GhostQueue t)"
  shows "\<exists>t'. DeleteStream cmd t = Some t' \<and> rb_queue (GhostQueue t') = rb_queue (GhostQueue t) @ [cmd] \<and>
     pCreatedStreams t' = pCreatedStreams t \<and>
     (\<forall>t1 t2 :: 'r disk_thread. kill_ghost cmd t1 = Some t2 \<longrightarrow> pCreatedStreams t2 = pCreatedStreams t1)"
proof -
  have frame: "pCreatedStreams t2 = pCreatedStreams t1" if "kill_ghost cmd t1 = Some t2" for t1 t2 :: "'r disk_thread"
    using that by (rule kill_ghost_slots)
  have k: "nth_opt (pCreatedStreams t) (unat (dc_OrderID cmd)) = Some SLOT_RESERVED"
    using ok cmd pending slots_ok_nth by (metis delete_ok_def thread_ok_def)
  have "length (rb_queue (GhostQueue t)) < rb_capacity (GhostQueue t)"
    using room thread_okD(3) [OF ok] length_rb_queue [of "GhostQueue t"] by (simp add: write_space_eq rb_capacity_def)
  then show ?thesis
    using push_to_ok [OF thread_okD(3) [OF ok], of cmd] room pending(1) k frame by (auto simp: DeleteStream_def)
qed

section \<open>An example\<close>

definition example_thread :: "slot \<Rightarrow> unit disk_thread" where
  "example_thread s = streams.extend
     (example_streams\<lparr>stream_objects := [example_stream state_unused], UnusedStreams := 1\<rparr>)
     \<lparr>IsIdle = False, Streams = 1,
       CreationQueue = example_ring \<lparr>cc_OrderID = 0, cc_hStream = 0, cc_pStreamRef = 0, cc_pRegion = (), cc_SampleOffset = 0, cc_DoLoop = False\<rparr>,
       DeletionQueue = example_ring \<lparr>dc_pStream = None, dc_hStream = 0, dc_OrderID = 0, dc_bNotify = False\<rparr>,
       GhostQueue = example_ring \<lparr>dc_pStream = None, dc_hStream = 0, dc_OrderID = 0, dc_bNotify = False\<rparr>,
       DeletionNotificationQueue = example_ring 0, DeleteRegionQueue = example_ring (),
       ProgramChangeQueue = example_ring \<lparr>pc_Program = 0, pc_pEngineChannel = 0\<rparr>,
       RefillStreamsPerRun = 1, pStreams = [0], pCreatedStreams = [Slot_NULL, s], handle_counter = 0,
       order_counter = 0, ActiveStreamCount = 0, ActiveStreamCountMax = 0, handed_back = [], program_changes = []\<rparr>"

lemma example_thread_ok: "s = Slot_NULL \<or> s = SLOT_RESERVED \<Longrightarrow> thread_ok example_samples (example_thread s)"
  by (auto simp: thread_ok_def example_thread_def streams.defs example_streams_def slots_ok_def pointers_ok_def
      refs_ok_def example_stream_ok)

lemma Main_pass_safe_witness:
  "\<exists>t'. Main_pass example_samples (example_thread Slot_NULL) = Some t' \<and> thread_ok example_samples t'"
  by (rule Main_pass_safe [OF example_samples_ok example_thread_ok]) simp

lemma CreateOrderID_complete_witness:
  "\<exists>oid t'. CreateOrderID (example_thread Slot_NULL) = Some (oid, t') \<and> oid \<noteq> 0"
  using CreateOrderID_complete [OF example_thread_ok [of Slot_NULL]]
  by (fastforce simp: example_thread_def streams.defs)



lemma program_loop_latest_witness:
  "\<exists>m' t'. program_loop 3 [(1, 5)] (example_thread Slot_NULL) = Some (m', t') \<and> map_of m' = [1 \<mapsto> 5]"
proof -
  have q: "ProgramChangeQueue (example_thread Slot_NULL) = example_ring \<lparr>pc_Program = 0, pc_pEngineChannel = 0\<rparr>"
    by (simp add: example_thread_def streams.defs)
  show ?thesis using program_loop_latest [of "example_thread Slot_NULL" 3 "[(1, 5)]"] by (auto simp: q)
qed

lemma ghost_keeps_slot_witness:
  "\<exists>t'. DeleteStream \<lparr>dc_pStream = None, dc_hStream = 3, dc_OrderID = 1, dc_bNotify = False\<rparr> (example_thread SLOT_RESERVED) = Some t' \<and>
     pCreatedStreams t' = [Slot_NULL, SLOT_RESERVED]"
proof -
  let ?t = "example_thread SLOT_RESERVED"
  have "delete_ok (Streams ?t) (length (stream_objects ?t)) \<lparr>dc_pStream = None, dc_hStream = 3, dc_OrderID = 1, dc_bNotify = False\<rparr>"
    "pCreatedStreams ?t = [Slot_NULL, SLOT_RESERVED]" "0 < write_space (GhostQueue ?t)"
    by (simp_all add: example_thread_def streams.defs delete_ok_def write_space_def example_ring_def)
  then show ?thesis
    using ghost_keeps_slot [OF example_thread_ok [of SLOT_RESERVED]] by fastforce
qed

end
