(* ===== verification/Pool.thy ===== *)
theory Pool
  imports Prelude
begin

unbundle bit_operations_syntax

text \<open>
  Pools of preallocated elements and the doubly linked lists of such elements, \<open>src/src/common/Pool.h\<close>.
  A state holds one pool with all lists that take their elements from it. Each \<open>RTListBase\<close> object has a
  number; number 0 is the pool's \<open>freelist\<close> and number 1 the list that the pool itself is. An address is
  one of a list's two fake nodes, or an element of the array \<open>nodes\<close>; the data of node \<open>i\<close> is
  \<open>data[i]\<close> throughout. Following the null pointer is \<open>None\<close>. The code for \<open>CONFIG_DEVMODE\<close> is not part
  of the model.
\<close>

section \<open>Nodes\<close>

datatype addr = Null | Begin nat | End nat | Node nat

record 'a Pool =
  node_next :: "addr \<Rightarrow> addr"
  node_prev :: "addr \<Rightarrow> addr"
  node_reincarnation :: "nat \<Rightarrow> 64 word"
  pool_data :: "nat \<Rightarrow> 'a"
  poolsize :: nat
  poolsizebits :: "32 word"
  reservedbits :: "32 word"
  reincarnationbits :: "32 word"

definition get_next :: "addr \<Rightarrow> 'a Pool \<Rightarrow> addr option" where
  "get_next a p = (if a = Null then None else Some (node_next p a))"

definition get_prev :: "addr \<Rightarrow> 'a Pool \<Rightarrow> addr option" where
  "get_prev a p = (if a = Null then None else Some (node_prev p a))"

definition set_next :: "addr \<Rightarrow> addr \<Rightarrow> 'a Pool \<Rightarrow> 'a Pool option" where
  "set_next a b p = (if a = Null then None else Some (p\<lparr>node_next := (node_next p)(a := b)\<rparr>))"

definition set_prev :: "addr \<Rightarrow> addr \<Rightarrow> 'a Pool \<Rightarrow> 'a Pool option" where
  "set_prev a b p = (if a = Null then None else Some (p\<lparr>node_prev := (node_prev p)(a := b)\<rparr>))"

text \<open>
  \<open>(1 << bits) - 1\<close> is computed in \<open>int\<close>. C++ leaves a shift by more than 31 undefined; here the shift
  count is taken modulo 32, as the shift instructions of the x86 and 32 bit operations of ARM64 do.
\<close>

definition int_mask :: "32 word \<Rightarrow> 64 word" where
  "int_mask bits = scast (push_bit (unat (bits AND 31)) (1 :: 32 word) - 1)"

definition bumpReincarnation :: "nat \<Rightarrow> 32 word \<Rightarrow> 'a Pool \<Rightarrow> 'a Pool" where
  "bumpReincarnation i bits p = p\<lparr>node_reincarnation :=
     (node_reincarnation p)(i := (node_reincarnation p i + 1) AND int_mask bits)\<rparr>"

section \<open>Iterators\<close>

record Iterator =
  it_current :: addr
  it_fallback :: addr

datatype dir_t = dir_forward | dir_backward

definition Iterator_default :: Iterator where
  "Iterator_default = \<lparr>it_current = Null, it_fallback = Null\<rparr>"

definition Iterator_new :: "addr \<Rightarrow> dir_t \<Rightarrow> 'a Pool \<Rightarrow> Iterator option" where
  "Iterator_new pNode direction p = do {
     f \<leftarrow> (if direction = dir_forward then get_prev pNode p else get_next pNode p);
     Some \<lparr>it_current = pNode, it_fallback = f\<rparr> }"

definition Iterator_increment :: "Iterator \<Rightarrow> 'a Pool \<Rightarrow> Iterator option" where
  "Iterator_increment it p = do {
     n \<leftarrow> get_next (it_current it) p;
     Some \<lparr>it_current = n, it_fallback = it_current it\<rparr> }"

definition Iterator_decrement :: "Iterator \<Rightarrow> 'a Pool \<Rightarrow> Iterator option" where
  "Iterator_decrement it p = do {
     n \<leftarrow> get_prev (it_current it) p;
     Some \<lparr>it_current = n, it_fallback = it_current it\<rparr> }"

definition Iterator_deref :: "Iterator \<Rightarrow> 'a Pool \<Rightarrow> 'a option" where
  "Iterator_deref it p = (case it_current it of Node i \<Rightarrow> Some (pool_data p i) | _ \<Rightarrow> None)"

definition Iterator_equal :: "Iterator \<Rightarrow> Iterator \<Rightarrow> bool" where
  "Iterator_equal a b \<longleftrightarrow> it_current a = it_current b"

definition Iterator_bool :: "Iterator \<Rightarrow> bool" where
  "Iterator_bool it \<longleftrightarrow> (case it_current it of Node i \<Rightarrow> True | _ \<Rightarrow> False)"

section \<open>RTListBase\<close>

definition RTListBase_init :: "nat \<Rightarrow> 'a Pool \<Rightarrow> 'a Pool" where
  "RTListBase_init l p = p
     \<lparr>node_prev := (node_prev p)(Begin l := Begin l, End l := Begin l),
      node_next := (node_next p)(Begin l := End l, End l := End l)\<rparr>"

definition list_first :: "nat \<Rightarrow> 'a Pool \<Rightarrow> Iterator option" where
  "list_first l p = Iterator_new (node_next p (Begin l)) dir_forward p"

definition list_last :: "nat \<Rightarrow> 'a Pool \<Rightarrow> Iterator option" where
  "list_last l p = Iterator_new (node_prev p (End l)) dir_backward p"

definition list_begin :: "nat \<Rightarrow> 'a Pool \<Rightarrow> Iterator option" where
  "list_begin l p = Iterator_new (Begin l) dir_forward p"

definition list_end :: "nat \<Rightarrow> 'a Pool \<Rightarrow> Iterator option" where
  "list_end l p = Iterator_new (End l) dir_backward p"

definition isEmpty :: "nat \<Rightarrow> 'a Pool \<Rightarrow> bool" where
  "isEmpty l p \<longleftrightarrow> node_next p (Begin l) = End l"

partial_function (option) count_loop :: "nat \<Rightarrow> Iterator \<Rightarrow> int \<Rightarrow> 'a Pool \<Rightarrow> int option" where
  "count_loop l it elements p =
     (if it_current it = End l then Some elements
      else Option.bind (Iterator_increment it p) (\<lambda>it. count_loop l it (elements + 1) p))"

definition list_count :: "nat \<Rightarrow> 'a Pool \<Rightarrow> int option" where
  "list_count l p = do { it \<leftarrow> list_first l p; count_loop l it 0 p }"

definition list_append :: "nat \<Rightarrow> addr \<Rightarrow> 'a Pool \<Rightarrow> 'a Pool option" where
  "list_append l pNode p = do {
     last \<leftarrow> get_prev (End l) p;
     p \<leftarrow> set_next last pNode p;
     p \<leftarrow> set_prev pNode last p;
     p \<leftarrow> set_next pNode (End l) p;
     set_prev (End l) pNode p }"

definition list_append_range :: "nat \<Rightarrow> addr \<Rightarrow> addr \<Rightarrow> 'a Pool \<Rightarrow> 'a Pool option" where
  "list_append_range l pFirst pLast p = do {
     last \<leftarrow> get_prev (End l) p;
     p \<leftarrow> set_next last pFirst p;
     p \<leftarrow> set_prev pFirst last p;
     p \<leftarrow> set_next pLast (End l) p;
     set_prev (End l) pLast p }"

definition list_prepend :: "nat \<Rightarrow> addr \<Rightarrow> 'a Pool \<Rightarrow> 'a Pool option" where
  "list_prepend l pNode p = do {
     first \<leftarrow> get_next (Begin l) p;
     p \<leftarrow> set_next (Begin l) pNode p;
     p \<leftarrow> set_prev pNode (Begin l) p;
     p \<leftarrow> set_next pNode first p;
     set_prev first pNode p }"

definition list_prepend_range :: "nat \<Rightarrow> addr \<Rightarrow> addr \<Rightarrow> 'a Pool \<Rightarrow> 'a Pool option" where
  "list_prepend_range l pFirst pLast p = do {
     first \<leftarrow> get_next (Begin l) p;
     p \<leftarrow> set_next (Begin l) pFirst p;
     p \<leftarrow> set_prev pFirst (Begin l) p;
     p \<leftarrow> set_next pLast first p;
     set_prev first pLast p }"

definition prependBefore :: "addr \<Rightarrow> addr \<Rightarrow> 'a Pool \<Rightarrow> 'a Pool option" where
  "prependBefore src dst p = do {
     prev \<leftarrow> get_prev dst p;
     p \<leftarrow> set_next prev src p;
     p \<leftarrow> set_prev dst src p;
     p \<leftarrow> set_prev src prev p;
     set_next src dst p }"

definition appendAfter :: "addr \<Rightarrow> addr \<Rightarrow> 'a Pool \<Rightarrow> 'a Pool option" where
  "appendAfter src dst p = do {
     next \<leftarrow> get_next dst p;
     p \<leftarrow> set_prev next src p;
     p \<leftarrow> set_next dst src p;
     p \<leftarrow> set_prev src dst p;
     set_next src next p }"

definition detach :: "addr \<Rightarrow> 'a Pool \<Rightarrow> 'a Pool option" where
  "detach pNode p = do {
     prev \<leftarrow> get_prev pNode p;
     next \<leftarrow> get_next pNode p;
     p \<leftarrow> set_next prev next p;
     set_prev next prev p }"

definition detach_range :: "addr \<Rightarrow> addr \<Rightarrow> 'a Pool \<Rightarrow> 'a Pool option" where
  "detach_range pFirst pLast p = do {
     prev \<leftarrow> get_prev pFirst p;
     next \<leftarrow> get_next pLast p;
     p \<leftarrow> set_next prev next p;
     set_prev next prev p }"

section \<open>Moving elements\<close>

text \<open>Each method gives the iterator at the new place; \<open>it\<close> itself goes to its fallback.\<close>

definition moved :: "Iterator \<Rightarrow> 'a Pool \<Rightarrow> (Iterator \<times> Iterator \<times> 'a Pool) option" where
  "moved it p = do {
     iterOnDstList \<leftarrow> Iterator_new (it_current it) dir_forward p;
     Some (iterOnDstList, it\<lparr>it_current := it_fallback it\<rparr>, p) }"

definition moveToEndOf :: "Iterator \<Rightarrow> nat \<Rightarrow> 'a Pool \<Rightarrow> (Iterator \<times> Iterator \<times> 'a Pool) option" where
  "moveToEndOf it l p = do { p \<leftarrow> detach (it_current it) p; p \<leftarrow> list_append l (it_current it) p; moved it p }"

definition moveToBeginOf :: "Iterator \<Rightarrow> nat \<Rightarrow> 'a Pool \<Rightarrow> (Iterator \<times> Iterator \<times> 'a Pool) option" where
  "moveToBeginOf it l p = do { p \<leftarrow> detach (it_current it) p; p \<leftarrow> list_prepend l (it_current it) p; moved it p }"

definition moveBefore :: "Iterator \<Rightarrow> Iterator \<Rightarrow> 'a Pool \<Rightarrow> (Iterator \<times> Iterator \<times> 'a Pool) option" where
  "moveBefore it itDst p = do {
     p \<leftarrow> detach (it_current it) p; p \<leftarrow> prependBefore (it_current it) (it_current itDst) p; moved it p }"

definition moveAfter :: "Iterator \<Rightarrow> Iterator \<Rightarrow> 'a Pool \<Rightarrow> (Iterator \<times> Iterator \<times> 'a Pool) option" where
  "moveAfter it itDst p = do {
     p \<leftarrow> detach (it_current it) p; p \<leftarrow> appendAfter (it_current it) (it_current itDst) p; moved it p }"

section \<open>Pool\<close>

definition freelist :: nat where
  "freelist = 0"

definition poolIsEmpty :: "'a Pool \<Rightarrow> bool" where
  "poolIsEmpty p \<longleftrightarrow> isEmpty freelist p"

partial_function (option) has_free_loop :: "Iterator \<Rightarrow> int \<Rightarrow> 'a Pool \<Rightarrow> int option" where
  "has_free_loop it elements p =
     (if it_current it \<noteq> End freelist \<and> 0 \<le> elements
      then Option.bind (Iterator_increment it p) (\<lambda>it. has_free_loop it (elements - 1) p)
      else Some elements)"

definition poolHasFreeElements :: "int \<Rightarrow> 'a Pool \<Rightarrow> bool option" where
  "poolHasFreeElements elements p = do {
     it \<leftarrow> list_first freelist p;
     n \<leftarrow> has_free_loop it elements p;
     Some (n \<le> 0) }"

definition countFreeElements :: "'a Pool \<Rightarrow> int option" where
  "countFreeElements p = list_count freelist p"

definition updateReincarnationBits :: "'a Pool \<Rightarrow> 'a Pool" where
  "updateReincarnationBits p = p\<lparr>reincarnationbits := 64 - poolsizebits p - reservedbits p\<rparr>"

definition setPoolElementIDsReservedBits :: "32 word \<Rightarrow> 'a Pool \<Rightarrow> 'a Pool" where
  "setPoolElementIDsReservedBits bits p = updateReincarnationBits (p\<lparr>reservedbits := bits\<rparr>)"

fun bits_loop :: "nat \<Rightarrow> nat \<Rightarrow> nat" where
  "bits_loop bits sz = (if 1 < sz then bits_loop (bits + 2) (sz div 4) else bits + sz)"

declare bits_loop.simps [simp del]

definition bitsForSize :: "nat \<Rightarrow> nat" where
  "bitsForSize sz = (if sz = 0 then 0 else bits_loop 0 (sz - 1))"

fun init_nodes :: "nat \<Rightarrow> nat \<Rightarrow> 'a Pool \<Rightarrow> 'a Pool option" where
  "init_nodes i 0 p = Some p"
| "init_nodes i (Suc n) p = do { p \<leftarrow> list_append freelist (Node i) p; init_nodes (i + 1) n p }"

text \<open>\<open>new T[Elements]\<close> and \<open>new Node[Elements]\<close> give \<open>dat\<close> and nodes that are linked to nothing.\<close>

definition Pool_init :: "(nat \<Rightarrow> 'a) \<Rightarrow> nat \<Rightarrow> 'a Pool \<Rightarrow> 'a Pool option" where
  "Pool_init dat Elements p = do {
     p \<leftarrow> init_nodes 0 Elements (p\<lparr>pool_data := dat,
       node_next := (\<lambda>a. case a of Node i \<Rightarrow> Null | _ \<Rightarrow> node_next p a),
       node_prev := (\<lambda>a. case a of Node i \<Rightarrow> Null | _ \<Rightarrow> node_prev p a), node_reincarnation := (\<lambda>_. 0)\<rparr>);
     Some (updateReincarnationBits (p\<lparr>poolsize := Elements, poolsizebits := of_nat (bitsForSize (Elements + 1))\<rparr>)) }"

definition Pool_new :: "(nat \<Rightarrow> 'a) \<Rightarrow> nat \<Rightarrow> 'a Pool option" where
  "Pool_new dat Elements = Pool_init dat Elements (RTListBase_init freelist (RTListBase_init 1
     \<lparr>node_next = (\<lambda>_. Null), node_prev = (\<lambda>_. Null), node_reincarnation = (\<lambda>_. 0), pool_data = dat,
      poolsize = 0, poolsizebits = 0, reservedbits = 0, reincarnationbits = 0\<rparr>))"

text \<open>\<open>assumes pool (that is freelist) is not empty\<close>\<close>

definition alloc :: "'a Pool \<Rightarrow> (Iterator \<times> 'a Pool) option" where
  "alloc p = do { element \<leftarrow> list_last freelist p; p \<leftarrow> detach (it_current element) p; Some (element, p) }"

definition bump_at :: "addr \<Rightarrow> 'a Pool \<Rightarrow> 'a Pool option" where
  "bump_at a p = (case a of Node i \<Rightarrow> Some (bumpReincarnation i (reincarnationbits p) p)
     | Null \<Rightarrow> None | _ \<Rightarrow> Some p)" \<comment> \<open>a fake node has a counter that nothing reads\<close>

definition freeToPool :: "addr \<Rightarrow> 'a Pool \<Rightarrow> 'a Pool option" where
  "freeToPool a p = do { p \<leftarrow> bump_at a p; list_append freelist a p }"

partial_function (option) bump_loop :: "addr \<Rightarrow> addr \<Rightarrow> 'a Pool \<Rightarrow> 'a Pool option" where
  "bump_loop n pLast p = Option.bind (bump_at n p) (\<lambda>p.
     if n = pLast then Some p else Option.bind (get_next n p) (\<lambda>n. bump_loop n pLast p))"

definition freeToPool_range :: "addr \<Rightarrow> addr \<Rightarrow> 'a Pool \<Rightarrow> 'a Pool option" where
  "freeToPool_range pFirst pLast p = do { p \<leftarrow> bump_loop pFirst pLast p; list_append_range freelist pFirst pLast p }"

type_synonym pool_element_id_t = "64 word"

text \<open>\<open>index\<close> is the difference of the pointer and the beginning of \<open>data\<close>.\<close>

definition getID :: "int \<Rightarrow> 'a Pool \<Rightarrow> pool_element_id_t" where
  "getID index p =
     (if poolsize p = 0 then 0
      else if index < 0 \<or> int (poolsize p) \<le> index then 0
      else (push_bit (unat (poolsizebits p)) (node_reincarnation p (nat index)) OR word_of_int index) + 1)"

definition fromID :: "pool_element_id_t \<Rightarrow> 'a Pool \<Rightarrow> Iterator option" where
  "fromID eid p =
     (if eid = 0 \<or> eid = - 1 then Some Iterator_default
      else (let id = eid - 1; bits = poolsizebits p; index = unat (id AND int_mask bits) in
        if poolsize p \<le> index then Some Iterator_default
        else (let reincarnation = drop_bit (unat bits) id in
          if reincarnation \<noteq> node_reincarnation p index then Some Iterator_default
          else Iterator_new (Node index) dir_forward p)))"

definition fromPtr :: "int \<Rightarrow> 'a Pool \<Rightarrow> Iterator option" where
  "fromPtr index p =
     (if poolsize p = 0 then Some Iterator_default
      else if index < 0 \<or> int (poolsize p) \<le> index then Some Iterator_default
      else Iterator_new (Node (nat index)) dir_forward p)"

section \<open>RTList\<close>

definition allocAppend :: "nat \<Rightarrow> 'a Pool \<Rightarrow> (Iterator \<times> 'a Pool) option" where
  "allocAppend l p =
     (if poolIsEmpty p then do { it \<leftarrow> list_begin l p; Some (it, p) }
      else do { (element, p) \<leftarrow> alloc p; p \<leftarrow> list_append l (it_current element) p; Some (element, p) })"

definition allocPrepend :: "nat \<Rightarrow> 'a Pool \<Rightarrow> (Iterator \<times> 'a Pool) option" where
  "allocPrepend l p =
     (if poolIsEmpty p then do { it \<leftarrow> list_end l p; Some (it, p) }
      else do { (element, p) \<leftarrow> alloc p; p \<leftarrow> list_prepend l (it_current element) p; Some (element, p) })"

definition list_free :: "Iterator \<Rightarrow> 'a Pool \<Rightarrow> (Iterator \<times> 'a Pool) option" where
  "list_free it p = do {
     p \<leftarrow> detach (it_current it) p;
     p \<leftarrow> freeToPool (it_current it) p;
     Some (it\<lparr>it_current := it_fallback it\<rparr>, p) }"

definition list_clear :: "nat \<Rightarrow> 'a Pool \<Rightarrow> 'a Pool option" where
  "list_clear l p =
     (if isEmpty l p then Some p
      else (let pFirst = node_next p (Begin l); pLast = node_prev p (End l) in
        do { p \<leftarrow> detach_range pFirst pLast p; freeToPool_range pFirst pLast p }))"

text \<open>\<open>*(allocAppend()) = *it\<close> in the copy constructor.\<close>

partial_function (option) copy_loop :: "nat \<Rightarrow> nat \<Rightarrow> Iterator \<Rightarrow> 'a Pool \<Rightarrow> 'a Pool option" where
  "copy_loop l src it p =
     (if it_current it = End src then Some p
      else if poolIsEmpty p then Some p
      else Option.bind (allocAppend l p) (\<lambda>(e, p).
        Option.bind (Iterator_deref it p) (\<lambda>x.
        case it_current e of
          Node i \<Rightarrow> (let p = p\<lparr>pool_data := (pool_data p)(i := x)\<rparr> in
            Option.bind (Iterator_increment it p) (\<lambda>it. copy_loop l src it p))
        | _ \<Rightarrow> None)))"

definition RTList_copy :: "nat \<Rightarrow> nat \<Rightarrow> 'a Pool \<Rightarrow> 'a Pool option" where
  "RTList_copy l src p = (let p = RTListBase_init l p in
     do { it \<leftarrow> list_first src p; copy_loop l src it p })"

text \<open>\<open>resizePool\<close> of a pool that is in use clears the list that the pool is, and only that one.\<close>

definition resizePool :: "(nat \<Rightarrow> 'a) \<Rightarrow> nat \<Rightarrow> 'a Pool \<Rightarrow> 'a Pool option" where
  "resizePool dat Elements p = do {
     n \<leftarrow> list_count freelist p;
     p \<leftarrow> (if n \<noteq> int (poolsize p) then list_clear 1 p else Some p);
     Pool_init dat Elements (RTListBase_init 1 (RTListBase_init freelist p)) }"

end
