(* ===== verification/PoolLists.thy ===== *)
theory PoolLists
  imports Pool
begin

text \<open>
  The pointer structure of a pool refines lists of element numbers. \<open>links\<close> follows a path of nodes in
  both directions; \<open>pool_rel\<close> relates a pool to the contents of its lists, which are disjoint and make up
  the whole pool. Each operation of the lists is simulated by the operation on the pointers.
\<close>

section \<open>Paths of nodes\<close>

fun links :: "'a Pool \<Rightarrow> addr list \<Rightarrow> bool" where
  "links p (a # b # path) \<longleftrightarrow> node_next p a = b \<and> node_prev p b = a \<and> links p (b # path)"
| "links p _ \<longleftrightarrow> True"

definition connect :: "addr \<Rightarrow> addr \<Rightarrow> 'a Pool \<Rightarrow> 'a Pool" where
  "connect a b p = p\<lparr>node_next := (node_next p)(a := b), node_prev := (node_prev p)(b := a)\<rparr>"

lemma connect_fields [simp]:
  "node_next (connect a b p) = (node_next p)(a := b)" "node_prev (connect a b p) = (node_prev p)(b := a)"
  "poolsize (connect a b p) = poolsize p" "node_reincarnation (connect a b p) = node_reincarnation p"
  "pool_data (connect a b p) = pool_data p" "poolsizebits (connect a b p) = poolsizebits p"
  "reincarnationbits (connect a b p) = reincarnationbits p" "reservedbits (connect a b p) = reservedbits p"
  by (simp_all add: connect_def)

lemma in_set_tlD: "x \<in> set (tl xs) \<Longrightarrow> x \<in> set xs"
  by (cases xs) auto

lemma links_append: "links p (us @ a # vs) \<longleftrightarrow> links p (us @ [a]) \<and> links p (a # vs)"
proof (induction us)
  case (Cons u us)
  then show ?case by (cases us) auto
qed simp

lemma links_cong:
  assumes "node_next p' = node_next p" "node_prev p' = node_prev p"
  shows "links p' path = links p path"
  using assms by (induction path rule: induct_list012) auto

lemma links_nth:
  assumes "links p (us @ a # b # vs)"
  shows "node_next p a = b" "node_prev p b = a"
  using assms links_append [of p us a "b # vs"] by simp_all

lemma links_frame:
  "a \<notin> set (butlast path) \<Longrightarrow> b \<notin> set (tl path) \<Longrightarrow> links (connect a b p) path = links p path"
proof (induction p path rule: links.induct)
  case (1 p x y path)
  have "b \<notin> set (tl (y # path))" using 1(3) by (auto dest: in_set_tlD)
  then show ?case using 1 by (auto split: if_splits)
qed auto

lemma links_connect:
  assumes "links p (us @ [a])" "links p (b # vs)" "a \<notin> set us" "a \<notin> set (b # vs)" "b \<notin> set us" "b \<notin> set vs"
  shows "links (connect a b p) (us @ a # b # vs)"
proof -
  have "links (connect a b p) (us @ [a])" using assms by (subst links_frame) (auto dest: in_set_tlD)
  moreover have "links (connect a b p) (b # vs)" using assms by (subst links_frame) (auto dest: in_set_butlastD)
  ultimately show ?thesis using links_append [of "connect a b p" us a "b # vs"] by simp
qed

lemma links_insert:
  assumes "links p (us @ a # b # vs)" "distinct (us @ a # b # vs)" "x \<notin> set (us @ a # b # vs)"
  shows "links (connect x b (connect a x p)) (us @ a # x # b # vs)"
proof -
  have l: "links p (us @ [a])" "links p (b # vs)" using assms(1) links_append [of p us a "b # vs"] by auto
  have "links (connect a x p) ((us @ [a]) @ [x])"
    using links_connect [of p us a x "[]"] l(1) assms by auto
  moreover have "links (connect a x p) (b # vs)"
    using l(2) assms by (subst links_frame) (auto dest: in_set_butlastD)
  ultimately show ?thesis
    using links_connect [of "connect a x p" "us @ [a]" x b vs] assms by auto
qed

lemma links_remove:
  assumes "links p (us @ a # x # b # vs)" "distinct (us @ a # x # b # vs)"
  shows "links (connect a b p) (us @ a # b # vs)"
proof (rule links_connect)
  show "links p (us @ [a])" using assms(1) links_append [of p us a "x # b # vs"] by simp
  show "links p (b # vs)" using assms(1) links_append [of p us a "x # b # vs"] by simp
qed (use assms(2) in auto)

section \<open>Lists\<close>

definition path :: "nat \<Rightarrow> nat list \<Rightarrow> addr list" where
  "path l xs = Begin l # map Node xs @ [End l]"

definition before :: "nat \<Rightarrow> nat list \<Rightarrow> addr" where
  "before l ys = last (Begin l # map Node ys)"

definition after :: "nat \<Rightarrow> nat list \<Rightarrow> addr" where
  "after l zs = hd (map Node zs @ [End l])"

lemma before_neq_Null [simp]: "before l ys \<noteq> Null" "after l zs \<noteq> Null"
  by (auto simp: before_def after_def last_map hd_map hd_append)

lemma path_split:
  "path l (ys @ zs) = butlast (Begin l # map Node ys) @ before l ys # after l zs # tl (map Node zs @ [End l])"
proof -
  have "path l (ys @ zs) = (Begin l # map Node ys) @ (map Node zs @ [End l])" by (simp add: path_def)
  also have "Begin l # map Node ys = butlast (Begin l # map Node ys) @ [before l ys]"
    unfolding before_def by (rule append_butlast_last_id [symmetric]) simp
  also have "map Node zs @ [End l] = after l zs # tl (map Node zs @ [End l])"
    unfolding after_def by (rule list.collapse [symmetric]) simp
  finally show ?thesis by simp
qed

lemma path_split_at:
  "path l (ys @ x # zs) =
     butlast (Begin l # map Node ys) @ before l ys # Node x # after l zs # tl (map Node zs @ [End l])"
  using path_split [of l ys "x # zs"] by (simp add: after_def)

lemma distinct_path [simp]: "distinct (path l xs) \<longleftrightarrow> distinct xs"
  by (auto simp: path_def distinct_map inj_on_def)

lemma set_path: "set (path l xs) = {Begin l, End l} \<union> Node ` set xs"
  by (auto simp: path_def)

lemma neighbours:
  assumes "links p (path l (ys @ x # zs))"
  shows "node_prev p (Node x) = before l ys" "node_next p (Node x) = after l zs"
  using links_nth(2) [OF assms [unfolded path_split_at]] 
    links_nth(1) [of p "butlast (Begin l # map Node ys) @ [before l ys]"] assms [unfolded path_split_at] by simp_all

lemma neighbours2:
  assumes "links p (path l (ys @ zs))"
  shows "node_next p (before l ys) = after l zs" "node_prev p (after l zs) = before l ys"
  using links_nth [OF assms [unfolded path_split]] by auto

lemma ends:
  assumes "links p (path l xs)"
  shows "node_prev p (End l) = before l xs" "node_next p (Begin l) = after l xs"
  using neighbours2 [of p l xs "[]"] neighbours2 [of p l "[]" xs] assms by (simp_all add: after_def before_def)

section \<open>The relation\<close>

definition disjoint_lists :: "nat set \<Rightarrow> (nat \<Rightarrow> nat list) \<Rightarrow> bool" where
  "disjoint_lists S L \<longleftrightarrow> (\<forall>l \<in> S. \<forall>m \<in> S. l \<noteq> m \<longrightarrow> set (L l) \<inter> set (L m) = {})"

lemma disjoint_lists_upd:
  "disjoint_lists S L \<Longrightarrow> (\<And>m. m \<in> S \<Longrightarrow> m \<noteq> l \<Longrightarrow> set xs \<inter> set (L m) = {}) \<Longrightarrow> disjoint_lists S (L(l := xs))"
  by (simp add: disjoint_lists_def Int_commute)

definition lists_rel :: "'a Pool \<Rightarrow> nat set \<Rightarrow> (nat \<Rightarrow> nat list) \<Rightarrow> bool" where
  "lists_rel p S L \<longleftrightarrow> (\<forall>l \<in> S. links p (path l (L l)) \<and> distinct (L l)) \<and>
     disjoint_lists S L \<and> freelist \<in> S \<and> (\<forall>l. l \<notin> S \<longrightarrow> L l = [])"

definition pool_rel :: "'a Pool \<Rightarrow> nat set \<Rightarrow> (nat \<Rightarrow> nat list) \<Rightarrow> bool" where
  "pool_rel p S L \<longleftrightarrow> lists_rel p S L \<and> (\<Union>l \<in> S. set (L l)) = {..<poolsize p}"

lemma lists_relD:
  assumes "lists_rel p S L" "l \<in> S"
  shows "links p (path l (L l))" "distinct (L l)" "m \<in> S \<Longrightarrow> x \<in> set (L l) \<Longrightarrow> x \<in> set (L m) \<Longrightarrow> m = l"
  using assms unfolding lists_rel_def disjoint_lists_def by (metis disjoint_iff)+

lemma connect_other:
  assumes "lists_rel p S L" "m \<in> S" "a \<notin> set (path m (L m))" "b \<notin> set (path m (L m))"
  shows "links (connect a b p) (path m (L m))"
  using assms lists_relD(1) [OF assms(1,2)]
  by (subst links_frame) (auto dest: in_set_tlD in_set_butlastD)

lemma before_in: "before l ys \<in> insert (Begin l) (Node ` set ys)"
  by (cases ys rule: rev_cases) (auto simp: before_def)

lemma after_in: "after l zs \<in> insert (End l) (Node ` set zs)"
  by (cases zs) (auto simp: after_def)

text \<open>Taking an element out of a list, and putting a free one in.\<close>

lemma rel_remove:
  assumes rel: "lists_rel p S L" and l: "l \<in> S" "L l = ys @ x # zs"
  shows "detach (Node x) p = Some (connect (before l ys) (after l zs) p)"
    "lists_rel (connect (before l ys) (after l zs) p) S (L(l := ys @ zs))"
proof -
  note links = lists_relD(1) [OF rel l(1), unfolded l(2)] and dist = lists_relD(2) [OF rel l(1), unfolded l(2)]
  note n = neighbours [OF links]
  show "detach (Node x) p = Some (connect (before l ys) (after l zs) p)"
    by (simp add: detach_def get_prev_def get_next_def set_next_def set_prev_def n connect_def)
  have other: "links (connect (before l ys) (after l zs) p) (path m (L m))" if m: "m \<in> S" "m \<noteq> l" for m
  proof (rule connect_other [OF rel m(1)])
    have "set (L l) \<inter> set (L m) = {}" using rel l(1) m unfolding lists_rel_def disjoint_lists_def by metis
    then show "before l ys \<notin> set (path m (L m))" "after l zs \<notin> set (path m (L m))"
      using before_in [of l ys] after_in [of l zs] m(2) l(2) by (auto simp: set_path)
  qed
  have d: "distinct (path l (ys @ x # zs))" using dist by simp
  have own: "links (connect (before l ys) (after l zs) p) (path l (ys @ zs))"
    using links_remove [OF links [unfolded path_split_at] d [unfolded path_split_at]] unfolding path_split .
  show "lists_rel (connect (before l ys) (after l zs) p) S (L(l := ys @ zs))"
    unfolding lists_rel_def
  proof (intro conjI ballI)
    fix m assume m: "m \<in> S"
    show "links (connect (before l ys) (after l zs) p) (path m ((L(l := ys @ zs)) m))"
      using other own m by simp
    show "distinct ((L(l := ys @ zs)) m)" using dist lists_relD(2) [OF rel m] by simp
  next
    have "disjoint_lists S L" using rel by (simp add: lists_rel_def)
    moreover from this have "set (ys @ zs) \<inter> set (L m) = {}" if "m \<in> S" "m \<noteq> l" for m
      using that l unfolding disjoint_lists_def by force
    ultimately show "disjoint_lists S (L(l := ys @ zs))" by (rule disjoint_lists_upd)
  qed (use rel l in \<open>auto simp: lists_rel_def\<close>)
qed

lemma rel_insert:
  assumes rel: "lists_rel p S L" and l: "l \<in> S" "L l = ys @ zs" and x: "\<And>m. m \<in> S \<Longrightarrow> x \<notin> set (L m)"
  shows "lists_rel (connect (Node x) (after l zs) (connect (before l ys) (Node x) p)) S (L(l := ys @ x # zs))"
    (is "lists_rel ?p S ?L")
proof -
  note links = lists_relD(1) [OF rel l(1), unfolded l(2)] and dist = lists_relD(2) [OF rel l(1), unfolded l(2)]
  have other: "links ?p (path m (L m))" if m: "m \<in> S" "m \<noteq> l" for m
  proof -
    have d: "set (L l) \<inter> set (L m) = {}" using rel l(1) m unfolding lists_rel_def disjoint_lists_def by metis
    then have n: "before l ys \<notin> set (path m (L m))" "after l zs \<notin> set (path m (L m))" "Node x \<notin> set (path m (L m))"
      using before_in [of l ys] after_in [of l zs] m(2) l(2) x [OF m(1)] by (auto simp: set_path)
    then have "links (connect (before l ys) (Node x) p) (path m (L m))"
      by (intro connect_other [OF rel m(1)])
    then show ?thesis using n by (subst links_frame) (auto dest: in_set_tlD in_set_butlastD)
  qed
  have d: "distinct (path l (ys @ zs))" "Node x \<notin> set (path l (ys @ zs))"
    using dist x [OF l(1)] l(2) by (auto simp: set_path)
  have own: "links ?p (path l (ys @ x # zs))"
    using links_insert [OF links [unfolded path_split] d [unfolded path_split]] unfolding path_split_at .
  show ?thesis
    unfolding lists_rel_def
  proof (intro conjI ballI)
    fix m assume m: "m \<in> S"
    show "links ?p (path m (?L m))" using other own m by simp
    show "distinct (?L m)" using dist lists_relD(2) [OF rel m] x [OF l(1)] l(2) by simp
  next
    have d: "disjoint_lists S L" using rel by (simp add: lists_rel_def)
    have "set (ys @ x # zs) \<inter> set (L m) = {}" if "m \<in> S" "m \<noteq> l" for m
      using that l x [OF that(1)] d unfolding disjoint_lists_def by force
    with d show "disjoint_lists S ?L" by (rule disjoint_lists_upd)
  qed (use rel l in \<open>auto simp: lists_rel_def\<close>)
qed

section \<open>Operations\<close>

lemma append_eq:
  assumes "links p (path l xs)"
  shows "list_append l (Node x) p = Some (connect (Node x) (after l []) (connect (before l xs) (Node x) p))"
  using ends [OF assms]
  by (simp add: list_append_def get_prev_def set_next_def set_prev_def connect_def) (simp add: after_def)

lemma prepend_eq:
  assumes "links p (path l xs)"
  shows "list_prepend l (Node x) p = Some (connect (Node x) (after l xs) (connect (before l []) (Node x) p))"
  using ends [OF assms]
  by (simp add: list_prepend_def get_next_def set_next_def set_prev_def connect_def) (simp add: before_def)

lemma prependBefore_eq:
  assumes "links p (path l (ys @ y # zs))" and "x \<noteq> y"
  shows "prependBefore (Node x) (Node y) p =
    Some (connect (Node x) (after l (y # zs)) (connect (before l ys) (Node x) p))"
  using neighbours [OF assms(1)] assms(2)
  by (simp add: prependBefore_def get_prev_def set_next_def set_prev_def connect_def after_def fun_upd_twist)

lemma appendAfter_eq:
  assumes "links p (path l (ys @ y # zs))" and "Node x \<noteq> after l zs"
  shows "appendAfter (Node x) (Node y) p =
    Some (connect (Node x) (after l zs) (connect (before l (ys @ [y])) (Node x) p))"
  using neighbours [OF assms(1)] assms(2)
  by (simp add: appendAfter_def get_next_def set_next_def set_prev_def connect_def before_def fun_upd_twist)

definition remove_elem :: "nat \<Rightarrow> (nat \<Rightarrow> nat list) \<Rightarrow> nat \<Rightarrow> nat list" where
  "remove_elem x L l = filter (\<lambda>y. y \<noteq> x) (L l)"

lemma remove_elem_eq:
  assumes rel: "lists_rel p S L" and l: "l \<in> S" "L l = ys @ x # zs"
  shows "remove_elem x L = L(l := ys @ zs)"
proof
  fix m
  show "remove_elem x L m = (L(l := ys @ zs)) m"
  proof (cases "m = l")
    case True
    then show ?thesis using lists_relD(2) [OF rel l(1)] l(2)
      by (auto simp: remove_elem_def filter_id_conv intro!: arg_cong2 [where f = "(@)"])
  next
    case False
    then have "x \<notin> set (L m)"
    proof (cases "m \<in> S")
      case True
      then show ?thesis using False lists_relD(3) [OF rel l(1) True, of x] l(2) by auto
    qed (use rel in \<open>simp add: lists_rel_def\<close>)
    then show ?thesis using False by (auto simp: remove_elem_def intro!: filter_True)
  qed
qed

lemma detach_rel:
  assumes rel: "lists_rel p S L" and l: "l \<in> S" "x \<in> set (L l)"
  obtains p' where "detach (Node x) p = Some p'" "lists_rel p' S (remove_elem x L)"
    "poolsize p' = poolsize p" "node_reincarnation p' = node_reincarnation p" "pool_data p' = pool_data p"
    "reincarnationbits p' = reincarnationbits p"
proof -
  obtain ys zs where "L l = ys @ x # zs" using split_list [OF l(2)] by blast
  with rel_remove [OF rel l(1) this] remove_elem_eq [OF rel l(1) this] that show thesis by simp
qed

lemma remove_elem_set [simp]: "set (remove_elem x L l) = set (L l) - {x}"
  by (auto simp: remove_elem_def)

lemma insert_rel:
  assumes rel: "lists_rel p S L" and l: "l \<in> S" "L l = ys @ zs" and x: "\<And>m. m \<in> S \<Longrightarrow> x \<notin> set (L m)"
  obtains p' where "connect (Node x) (after l zs) (connect (before l ys) (Node x) p) = p'" "lists_rel p' S (L(l := ys @ x # zs))"
    "poolsize p' = poolsize p" "node_reincarnation p' = node_reincarnation p" "pool_data p' = pool_data p"
  using rel_insert [OF assms] by simp

section \<open>Simulation\<close>

text \<open>
  The operations on elements that are in use, by their numbers, and what they do with the contents of the
  lists. Each gives the node that the returned iterator, or for \<open>free\<close> the iterator itself, points to
  afterwards.
\<close>

datatype pool_op = Alloc_append nat | Alloc_prepend nat | Free nat | To_end nat nat | To_begin nat nat
  | Before nat nat | After nat nat

fun exec_op :: "pool_op \<Rightarrow> 'a Pool \<Rightarrow> (addr \<times> 'a Pool) option" where
  "exec_op (Alloc_append l) p = do { (it, p) \<leftarrow> allocAppend l p; Some (it_current it, p) }"
| "exec_op (Alloc_prepend l) p = do { (it, p) \<leftarrow> allocPrepend l p; Some (it_current it, p) }"
| "exec_op (Free x) p = do { it \<leftarrow> fromPtr (int x) p; (it, p) \<leftarrow> list_free it p; Some (it_current it, p) }"
| "exec_op (To_end x l) p = do { it \<leftarrow> fromPtr (int x) p; (it', it, p) \<leftarrow> moveToEndOf it l p; Some (it_current it', p) }"
| "exec_op (To_begin x l) p = do { it \<leftarrow> fromPtr (int x) p; (it', it, p) \<leftarrow> moveToBeginOf it l p; Some (it_current it', p) }"
| "exec_op (Before x y) p = do { it \<leftarrow> fromPtr (int x) p; dst \<leftarrow> fromPtr (int y) p; (it', it, p) \<leftarrow> moveBefore it dst p; Some (it_current it', p) }"
| "exec_op (After x y) p = do { it \<leftarrow> fromPtr (int x) p; dst \<leftarrow> fromPtr (int y) p; (it', it, p) \<leftarrow> moveAfter it dst p; Some (it_current it', p) }"

fun insert_before :: "nat \<Rightarrow> nat \<Rightarrow> nat list \<Rightarrow> nat list" where
  "insert_before y x [] = []"
| "insert_before y x (z # zs) = (if z = y then x # z # zs else z # insert_before y x zs)"

fun insert_after :: "nat \<Rightarrow> nat \<Rightarrow> nat list \<Rightarrow> nat list" where
  "insert_after y x [] = []"
| "insert_after y x (z # zs) = (if z = y then z # x # zs else z # insert_after y x zs)"

fun spec_op :: "pool_op \<Rightarrow> (nat \<Rightarrow> nat list) \<Rightarrow> nat \<Rightarrow> nat list" where
  "spec_op (Alloc_append l) L = (if L freelist = [] then L
     else L(freelist := butlast (L freelist), l := L l @ [last (L freelist)]))"
| "spec_op (Alloc_prepend l) L = (if L freelist = [] then L
     else L(freelist := butlast (L freelist), l := last (L freelist) # L l))"
| "spec_op (Free x) L = (let L = remove_elem x L in L(freelist := L freelist @ [x]))"
| "spec_op (To_end x l) L = (let L = remove_elem x L in L(l := L l @ [x]))"
| "spec_op (To_begin x l) L = (let L = remove_elem x L in L(l := x # L l))"
| "spec_op (Before x y) L = (\<lambda>l. insert_before y x (remove_elem x L l))"
| "spec_op (After x y) L = (\<lambda>l. insert_after y x (remove_elem x L l))"

definition in_use :: "nat set \<Rightarrow> (nat \<Rightarrow> nat list) \<Rightarrow> nat \<Rightarrow> bool" where
  "in_use S L x \<longleftrightarrow> (\<exists>l \<in> S. l \<noteq> freelist \<and> x \<in> set (L l))"

fun op_allowed :: "nat set \<Rightarrow> (nat \<Rightarrow> nat list) \<Rightarrow> pool_op \<Rightarrow> bool" where
  "op_allowed S L (Alloc_append l) \<longleftrightarrow> l \<in> S \<and> l \<noteq> freelist"
| "op_allowed S L (Alloc_prepend l) \<longleftrightarrow> l \<in> S \<and> l \<noteq> freelist"
| "op_allowed S L (Free x) \<longleftrightarrow> in_use S L x"
| "op_allowed S L (To_end x l) \<longleftrightarrow> in_use S L x \<and> l \<in> S \<and> l \<noteq> freelist"
| "op_allowed S L (To_begin x l) \<longleftrightarrow> in_use S L x \<and> l \<in> S \<and> l \<noteq> freelist"
| "op_allowed S L (Before x y) \<longleftrightarrow> in_use S L x \<and> in_use S L y \<and> x \<noteq> y"
| "op_allowed S L (After x y) \<longleftrightarrow> in_use S L x \<and> in_use S L y \<and> x \<noteq> y"

text \<open>Where the returned iterator points to.\<close>

fun spec_result :: "pool_op \<Rightarrow> (nat \<Rightarrow> nat list) \<Rightarrow> addr \<Rightarrow> bool" where
  "spec_result (Alloc_append l) L a \<longleftrightarrow> a = (if L freelist = [] then Begin l else Node (last (L freelist)))"
| "spec_result (Alloc_prepend l) L a \<longleftrightarrow> a = (if L freelist = [] then End l else Node (last (L freelist)))"
| "spec_result (Free x) L a \<longleftrightarrow> (\<exists>l ys zs. L l = ys @ x # zs \<and> a = before l ys)"
| "spec_result (To_end x l) L a \<longleftrightarrow> a = Node x"
| "spec_result (To_begin x l) L a \<longleftrightarrow> a = Node x"
| "spec_result (Before x y) L a \<longleftrightarrow> a = Node x"
| "spec_result (After x y) L a \<longleftrightarrow> a = Node x"

lemma lists_rel_cong:
  "node_next p' = node_next p \<Longrightarrow> node_prev p' = node_prev p \<Longrightarrow> lists_rel p' S L = lists_rel p S L"
  using links_cong [of p' p] by (simp add: lists_rel_def)

lemma pool_relD:
  assumes "pool_rel p S L" "l \<in> S"
  shows "links p (path l (L l))" "x \<in> set (L l) \<Longrightarrow> x < poolsize p"
proof -
  have rel: "lists_rel p S L" "(\<Union>l \<in> S. set (L l)) = {..<poolsize p}" using assms(1) by (simp_all only: pool_rel_def)
  show "links p (path l (L l))" by (rule lists_relD(1) [OF rel(1) assms(2)])
  assume "x \<in> set (L l)"
  then have "x \<in> {..<poolsize p}" unfolding rel(2) [symmetric] using assms(2) by (rule UN_I [rotated])
  then show "x < poolsize p" by simp
qed

lemma fromPtr_ok:
  "x < poolsize p \<Longrightarrow> fromPtr (int x) p = Some \<lparr>it_current = Node x, it_fallback = node_prev p (Node x)\<rparr>"
  by (simp add: fromPtr_def Iterator_new_def get_prev_def)

lemma isEmpty_iff:
  assumes "links p (path l xs)" shows "isEmpty l p \<longleftrightarrow> xs = []"
  using ends(2) [OF assms] by (cases xs) (auto simp: isEmpty_def after_def)

text \<open>An element that was taken out of its list and put into a list.\<close>

lemma move_rel:
  assumes rel: "pool_rel p S L" and m: "m \<in> S" "x \<in> set (L m)"
    and p1: "lists_rel p1 S (remove_elem x L)" "poolsize p1 = poolsize p"
    and l: "l \<in> S" "remove_elem x L l = ys @ zs"
  shows "pool_rel (connect (Node x) (after l zs) (connect (before l ys) (Node x) p1)) S
    ((remove_elem x L)(l := ys @ x # zs))"
proof -
  have "x \<notin> set (remove_elem x L k)" for k by simp
  note rel_insert [OF p1(1) l this]
  moreover have "set (ys @ x # zs) = insert x (set (L l))"
    using arg_cong [OF l(2), of set] by auto
  then have E: "set (((remove_elem x L)(l := ys @ x # zs)) k) = (if k = l then insert x (set (L l)) else set (L k) - {x})" for k
    by (simp del: set_append)
  have "(\<Union>k \<in> S. set (((remove_elem x L)(l := ys @ x # zs)) k)) = (\<Union>k \<in> S. set (L k))"
    unfolding E using l(1) m by (fastforce split: if_splits)
  ultimately show ?thesis using rel p1(2) by (simp add: pool_rel_def)
qed

lemma append_rel:
  assumes "pool_rel p S L" "m \<in> S" "x \<in> set (L m)" "lists_rel p1 S (remove_elem x L)" "poolsize p1 = poolsize p" "l \<in> S"
  obtains p2 where "list_append l (Node x) p1 = Some p2" "pool_rel p2 S ((remove_elem x L)(l := remove_elem x L l @ [x]))"
  using move_rel [OF assms, of "remove_elem x L l" "[]"] append_eq [OF lists_relD(1) [OF assms(4,6)]] that by simp

lemma prepend_rel:
  assumes "pool_rel p S L" "m \<in> S" "x \<in> set (L m)" "lists_rel p1 S (remove_elem x L)" "poolsize p1 = poolsize p" "l \<in> S"
  obtains p2 where "list_prepend l (Node x) p1 = Some p2" "pool_rel p2 S ((remove_elem x L)(l := x # remove_elem x L l))"
  using move_rel [OF assms, of "[]" "remove_elem x L l"] prepend_eq [OF lists_relD(1) [OF assms(4,6)]] that by simp

lemma insert_before_split: "y \<notin> set us \<Longrightarrow> insert_before y x (us @ y # vs) = us @ x # y # vs"
  by (induction us) auto

lemma insert_after_split: "y \<notin> set us \<Longrightarrow> insert_after y x (us @ y # vs) = us @ y # x # vs"
  by (induction us) auto

lemma insert_none: "y \<notin> set us \<Longrightarrow> insert_before y x us = us" "y \<notin> set us \<Longrightarrow> insert_after y x us = us"
  by (induction us) auto

lemma spec_insert:
  assumes rel: "lists_rel p S L" and l: "l \<in> S" "L l = us @ y # vs"
  shows "(\<lambda>k. insert_before y x (L k)) = L(l := us @ x # y # vs)"
    "(\<lambda>k. insert_after y x (L k)) = L(l := us @ y # x # vs)"
proof -
  have "y \<notin> set (L k)" if "k \<noteq> l" for k
  proof (cases "k \<in> S")
    case True
    then show ?thesis using that lists_relD(3) [OF rel l(1) True, of y] l(2) by auto
  qed (use rel in \<open>simp add: lists_rel_def\<close>)
  moreover have "y \<notin> set us" using lists_relD(2) [OF rel l(1)] l(2) by auto
  ultimately show "(\<lambda>k. insert_before y x (L k)) = L(l := us @ x # y # vs)"
    "(\<lambda>k. insert_after y x (L k)) = L(l := us @ y # x # vs)"
    using l(2) by (auto simp: fun_eq_iff insert_none insert_before_split insert_after_split)
qed

lemma moved_ok: "moved \<lparr>it_current = Node x, it_fallback = f\<rparr> p =
    Some (\<lparr>it_current = Node x, it_fallback = node_prev p (Node x)\<rparr>, \<lparr>it_current = f, it_fallback = f\<rparr>, p)"
  by (simp add: moved_def Iterator_new_def get_prev_def)

lemma in_useD:
  assumes "pool_rel p S L" "in_use S L x"
  obtains m where "m \<in> S" "m \<noteq> freelist" "x \<in> set (L m)" "x < poolsize p"
  using assms(2) that pool_relD(2) [OF assms(1)] by (auto simp: in_use_def)

lemma alloc_rel:
  assumes rel: "pool_rel p S L" and ne: "L freelist \<noteq> []"
  obtains it p1 where "alloc p = Some (it, p1)" "it_current it = Node (last (L freelist))"
    "lists_rel p1 S (remove_elem (last (L freelist)) L)" "poolsize p1 = poolsize p"
    "remove_elem (last (L freelist)) L = L(freelist := butlast (L freelist))" "\<not> poolIsEmpty p"
proof -
  have lr: "lists_rel p S L" and S: "freelist \<in> S" using rel by (auto simp: pool_rel_def lists_rel_def)
  define x where "x = last (L freelist)"
  have x: "x \<in> set (L freelist)" "L freelist = butlast (L freelist) @ x # []" using ne by (simp_all add: x_def)
  obtain p1 where p1: "detach (Node x) p = Some p1" "lists_rel p1 S (remove_elem x L)" "poolsize p1 = poolsize p"
    by (rule detach_rel [OF lr S x(1)])
  have "node_prev p (End freelist) = Node x"
    using ends(1) [OF lists_relD(1) [OF lr S]] ne by (simp add: before_def x_def last_map)
  then have "alloc p = Some (\<lparr>it_current = Node x, it_fallback = node_next p (Node x)\<rparr>, p1)"
    using p1(1) by (simp add: alloc_def list_last_def Iterator_new_def get_next_def)
  then show thesis
    using that p1(2,3) remove_elem_eq [OF lr S x(2)] isEmpty_iff [OF lists_relD(1) [OF lr S]] ne
    by (simp add: x_def poolIsEmpty_def)
qed

theorem pool_op_simulation:
  assumes rel: "pool_rel p S L" and op: "op_allowed S L op"
  shows "\<exists>a p'. exec_op op p = Some (a, p') \<and> pool_rel p' S (spec_op op L) \<and> spec_result op L a"
proof -
  have lr: "lists_rel p S L" and S: "freelist \<in> S" using rel by (auto simp: pool_rel_def lists_rel_def)
  have use: thesis if "in_use S L x" "\<And>m p1. m \<in> S \<Longrightarrow> m \<noteq> freelist \<Longrightarrow> x \<in> set (L m) \<Longrightarrow>
      fromPtr (int x) p = Some \<lparr>it_current = Node x, it_fallback = node_prev p (Node x)\<rparr> \<Longrightarrow>
      detach (Node x) p = Some p1 \<Longrightarrow> lists_rel p1 S (remove_elem x L) \<Longrightarrow> poolsize p1 = poolsize p \<Longrightarrow> thesis" for x thesis
    using that(1)
  proof (rule in_useD [OF rel])
    fix m assume m: "m \<in> S" "m \<noteq> freelist" "x \<in> set (L m)" "x < poolsize p"
    show thesis by (rule detach_rel [OF lr m(1,3)]) (rule that(2) [OF m(1-3) fromPtr_ok [OF m(4)]])
  qed
  show ?thesis
  proof (cases op)
    case (Alloc_append l)
    then have l: "l \<in> S" "l \<noteq> freelist" using op by auto
    show ?thesis
    proof (cases "L freelist = []")
      case True
      then show ?thesis using Alloc_append rel isEmpty_iff [OF lists_relD(1) [OF lr S]]
        by (simp add: allocAppend_def poolIsEmpty_def list_begin_def Iterator_new_def get_prev_def)
    next
      case False
      let ?x = "last (L freelist)"
      obtain it p1 where p1: "alloc p = Some (it, p1)" "it_current it = Node ?x" "lists_rel p1 S (remove_elem ?x L)"
        "poolsize p1 = poolsize p" "remove_elem ?x L = L(freelist := butlast (L freelist))" "\<not> poolIsEmpty p"
        by (rule alloc_rel [OF rel False])
      obtain p2 where "list_append l (Node ?x) p1 = Some p2" "pool_rel p2 S ((remove_elem ?x L)(l := remove_elem ?x L l @ [?x]))"
        by (rule append_rel [OF rel S _ p1(3,4) l(1)]) (use False in auto)
      then show ?thesis using p1 l False Alloc_append by (simp add: allocAppend_def)
    qed
  next
    case (Alloc_prepend l)
    then have l: "l \<in> S" "l \<noteq> freelist" using op by auto
    show ?thesis
    proof (cases "L freelist = []")
      case True
      then show ?thesis using Alloc_prepend rel isEmpty_iff [OF lists_relD(1) [OF lr S]]
        by (simp add: allocPrepend_def poolIsEmpty_def list_end_def Iterator_new_def get_next_def)
    next
      case False
      let ?x = "last (L freelist)"
      obtain it p1 where p1: "alloc p = Some (it, p1)" "it_current it = Node ?x" "lists_rel p1 S (remove_elem ?x L)"
        "poolsize p1 = poolsize p" "remove_elem ?x L = L(freelist := butlast (L freelist))" "\<not> poolIsEmpty p"
        by (rule alloc_rel [OF rel False])
      obtain p2 where "list_prepend l (Node ?x) p1 = Some p2" "pool_rel p2 S ((remove_elem ?x L)(l := ?x # remove_elem ?x L l))"
        by (rule prepend_rel [OF rel S _ p1(3,4) l(1)]) (use False in auto)
      then show ?thesis using p1 l False Alloc_prepend by (simp add: allocPrepend_def)
    qed
  next
    case (Free x)
    with op have "in_use S L x" by simp
    then show ?thesis
    proof (rule use)
      fix m p1 assume m: "m \<in> S" "m \<noteq> freelist" "x \<in> set (L m)"
        and it: "fromPtr (int x) p = Some \<lparr>it_current = Node x, it_fallback = node_prev p (Node x)\<rparr>"
        and p1: "detach (Node x) p = Some p1" "lists_rel p1 S (remove_elem x L)" "poolsize p1 = poolsize p"
      let ?p1 = "bumpReincarnation x (reincarnationbits p1) p1"
      have "lists_rel ?p1 S (remove_elem x L)" "poolsize ?p1 = poolsize p"
        using p1 lists_rel_cong [of ?p1 p1] by (simp_all add: bumpReincarnation_def)
      then obtain p2 where p2: "list_append freelist (Node x) ?p1 = Some p2"
          "pool_rel p2 S ((remove_elem x L)(freelist := remove_elem x L freelist @ [x]))"
        by (rule append_rel [OF rel m(1,3) _ _ S])
      obtain ys zs where "L m = ys @ x # zs" using split_list [OF m(3)] by blast
      moreover from this have "node_prev p (Node x) = before m ys"
        using neighbours(1) [of p m ys x zs] lists_relD(1) [OF lr m(1)] by simp
      ultimately show ?thesis using p2 p1(1) it Free
        by (auto simp: list_free_def freeToPool_def bump_at_def Let_def)
    qed
  next
    case (To_end x l)
    with op have l: "l \<in> S" "in_use S L x" by auto
    from l(2) show ?thesis
    proof (rule use)
      fix m p1 assume m: "m \<in> S" "m \<noteq> freelist" "x \<in> set (L m)"
        and it: "fromPtr (int x) p = Some \<lparr>it_current = Node x, it_fallback = node_prev p (Node x)\<rparr>"
        and p1: "detach (Node x) p = Some p1" "lists_rel p1 S (remove_elem x L)" "poolsize p1 = poolsize p"
      obtain p2 where p2: "list_append l (Node x) p1 = Some p2"
          "pool_rel p2 S ((remove_elem x L)(l := remove_elem x L l @ [x]))"
        by (rule append_rel [OF rel m(1,3) p1(2,3) l(1)])
      show ?thesis using p2 p1(1) it To_end by (simp add: moveToEndOf_def moved_ok Let_def)
    qed
  next
    case (To_begin x l)
    with op have l: "l \<in> S" "in_use S L x" by auto
    from l(2) show ?thesis
    proof (rule use)
      fix m p1 assume m: "m \<in> S" "m \<noteq> freelist" "x \<in> set (L m)"
        and it: "fromPtr (int x) p = Some \<lparr>it_current = Node x, it_fallback = node_prev p (Node x)\<rparr>"
        and p1: "detach (Node x) p = Some p1" "lists_rel p1 S (remove_elem x L)" "poolsize p1 = poolsize p"
      obtain p2 where p2: "list_prepend l (Node x) p1 = Some p2"
          "pool_rel p2 S ((remove_elem x L)(l := x # remove_elem x L l))"
        by (rule prepend_rel [OF rel m(1,3) p1(2,3) l(1)])
      show ?thesis using p2 p1(1) it To_begin by (simp add: moveToBeginOf_def moved_ok Let_def)
    qed
  next
    case (Before x y)
    with op have xy: "in_use S L x" "in_use S L y" "x \<noteq> y" by auto
    obtain k where k: "k \<in> S" "k \<noteq> freelist" "y \<in> set (L k)" "y < poolsize p" by (rule in_useD [OF rel xy(2)])
    from xy(1) show ?thesis
    proof (rule use)
      fix m p1 assume m: "m \<in> S" "m \<noteq> freelist" "x \<in> set (L m)"
        and it: "fromPtr (int x) p = Some \<lparr>it_current = Node x, it_fallback = node_prev p (Node x)\<rparr>"
        and p1: "detach (Node x) p = Some p1" "lists_rel p1 S (remove_elem x L)" "poolsize p1 = poolsize p"
      have "y \<in> set (remove_elem x L k)" using k(3) xy(3) by simp
      then obtain us vs where s: "remove_elem x L k = us @ y # vs" using split_list by metis
      note move_rel [OF rel m(1,3) p1(2,3) k(1) s]
      moreover have "prependBefore (Node x) (Node y) p1 =
          Some (connect (Node x) (after k (y # vs)) (connect (before k us) (Node x) p1))"
        using prependBefore_eq [OF _ xy(3)] lists_relD(1) [OF p1(2) k(1)] s by metis
      ultimately show ?thesis
        using p1(1) it Before fromPtr_ok [OF k(4)] spec_insert(1) [OF p1(2) k(1) s, of x]
        by (simp add: moveBefore_def moved_ok)
    qed
  next
    case (After x y)
    with op have xy: "in_use S L x" "in_use S L y" "x \<noteq> y" by auto
    obtain k where k: "k \<in> S" "k \<noteq> freelist" "y \<in> set (L k)" "y < poolsize p" by (rule in_useD [OF rel xy(2)])
    from xy(1) show ?thesis
    proof (rule use)
      fix m p1 assume m: "m \<in> S" "m \<noteq> freelist" "x \<in> set (L m)"
        and it: "fromPtr (int x) p = Some \<lparr>it_current = Node x, it_fallback = node_prev p (Node x)\<rparr>"
        and p1: "detach (Node x) p = Some p1" "lists_rel p1 S (remove_elem x L)" "poolsize p1 = poolsize p"
      have "y \<in> set (remove_elem x L k)" using k(3) xy(3) by simp
      then obtain us vs where s: "remove_elem x L k = us @ y # vs" using split_list by metis
      then have s': "remove_elem x L k = (us @ [y]) @ vs" by simp
      have "x \<notin> set vs" using arg_cong [OF s, of set] by auto
      then have "Node x \<noteq> after k vs" using after_in [of k vs] by auto
      then have "appendAfter (Node x) (Node y) p1 =
          Some (connect (Node x) (after k vs) (connect (before k (us @ [y])) (Node x) p1))"
        using appendAfter_eq lists_relD(1) [OF p1(2) k(1)] s by metis
      then obtain p2 where p2: "appendAfter (Node x) (Node y) p1 = Some p2"
          "pool_rel p2 S ((remove_elem x L)(k := us @ y # x # vs))"
        using move_rel [OF rel m(1,3) p1(2,3) k(1) s'] by (simp only: append_assoc append_Cons append_Nil)
      show ?thesis
        using p2 p1(1) it After fromPtr_ok [OF k(4)] spec_insert(2) [OF p1(2) k(1) s, of x]
        by (simp add: moveAfter_def moved_ok)
    qed
  qed
qed

end
