(* ===== verification/PoolIds.thy ===== *)
theory PoolIds
  imports PoolLists
begin

text \<open>
  Clearing and constructing pools, sequences of operations, and the IDs of elements: an ID finds its
  element as long as the element is not freed.
\<close>

section \<open>Clearing a list\<close>

lemma links_off_path: "a \<notin> set xs \<Longrightarrow> b \<notin> set xs \<Longrightarrow> links (connect a b p) xs = links p xs"
  by (rule links_frame) (auto dest: in_set_tlD in_set_butlastD)

lemma links_suffix: "links p (us @ vs) \<Longrightarrow> links p vs"
proof (induction us)
  case (Cons u us)
  then show ?case by (cases "us @ vs") auto
qed simp

lemma links_prefix: "links p (us @ vs) \<Longrightarrow> links p us"
  by (induction us rule: induct_list012) auto

lemma links_splice:
  assumes p: "links p (us @ [a])" "links p (x # xs)" "links p (b # vs)"
    and d: "distinct (us @ a # x # xs @ b # vs)"
  shows "links (connect (last (x # xs)) b (connect a x p)) (us @ a # (x # xs) @ b # vs)"
proof -
  have 1: "links (connect a x p) (us @ a # x # xs)" by (rule links_connect [OF p(1,2)]) (use d in auto)
  have 2: "links (connect a x p) (b # vs)" using p(3) d by (subst links_frame) (auto dest: in_set_tlD in_set_butlastD)
  let ?us = "us @ a # butlast (x # xs)" and ?l = "last (x # xs)"
  have e: "us @ a # x # xs = ?us @ [?l]" by simp
  have "distinct (?us @ [?l] @ b # vs)" using d unfolding append_assoc [symmetric] e [symmetric] by simp
  then have "links (connect ?l b (connect a x p)) (?us @ ?l # b # vs)"
    using 1 2 unfolding e by (intro links_connect) auto
  also have "?us @ ?l # b # vs = us @ a # (x # xs) @ b # vs"
    using e by (metis append_Cons append_Nil append_assoc)
  finally show ?thesis .
qed

lemma bump_loop_chain:
  "links p (map Node (x # xs)) \<Longrightarrow> distinct (x # xs) \<Longrightarrow>
   \<exists>g. bump_loop (Node x) (last (map Node (x # xs))) p = Some (p\<lparr>node_reincarnation := g\<rparr>) \<and>
     (\<forall>y. g y = (if y \<in> set (x # xs) then (node_reincarnation p y + 1) AND int_mask (reincarnationbits p)
       else node_reincarnation p y))"
proof (induction xs arbitrary: x p)
  case Nil
  then show ?case
    by (subst bump_loop.simps) (auto simp: bump_at_def bumpReincarnation_def intro!: exI [of _ "(node_reincarnation p)(x := _)"])
next
  case (Cons y ys)
  let ?p = "bumpReincarnation x (reincarnationbits p) p"
  have "links ?p (map Node (y # ys))" using Cons.prems(1) links_cong [of ?p p] by (simp add: bumpReincarnation_def)
  then obtain g where g: "bump_loop (Node y) (last (map Node (y # ys))) ?p = Some (?p\<lparr>node_reincarnation := g\<rparr>)"
    "\<forall>z. g z = (if z \<in> set (y # ys) then (node_reincarnation ?p z + 1) AND int_mask (reincarnationbits ?p)
       else node_reincarnation ?p z)"
    using Cons.IH [of ?p y] Cons.prems(2) by auto
  have n: "node_next p (Node x) = Node y" using Cons.prems(1) by simp
  have l: "last (map Node (x # y # ys)) = last (map Node (y # ys))" by simp
  have "Node x \<noteq> last (map Node (y # ys))"
    using Cons.prems(2) by (simp add: last_map) (metis last_in_set list.distinct(1) set_ConsD)
  then have "bump_loop (Node x) (last (map Node (x # y # ys))) p = bump_loop (Node y) (last (map Node (y # ys))) ?p"
    unfolding l by (subst bump_loop.simps) (simp add: bump_at_def get_next_def bumpReincarnation_def n del: list.map)
  also have "\<dots> = Some (p\<lparr>node_reincarnation := g\<rparr>)" using g(1) by (simp add: bumpReincarnation_def)
  finally have run: "bump_loop (Node x) (last (map Node (x # y # ys))) p = Some (p\<lparr>node_reincarnation := g\<rparr>)" .
  have "\<forall>z. g z = (if z \<in> set (x # y # ys) then (node_reincarnation p z + 1) AND int_mask (reincarnationbits p)
       else node_reincarnation p z)"
    using g(2) Cons.prems(2) by (auto simp: bumpReincarnation_def)
  with run show ?case by blast
qed

text \<open>\<open>clear\<close> gives all elements of a list back in their order, each with a new incarnation.\<close>

theorem clear_simulation:
  assumes rel: "pool_rel p S L" and l: "l \<in> S" "l \<noteq> freelist"
  shows "\<exists>p'. list_clear l p = Some p' \<and> pool_rel p' S (L(freelist := L freelist @ L l, l := [])) \<and>
    (\<forall>x. node_reincarnation p' x = (if x \<in> set (L l)
       then (node_reincarnation p x + 1) AND int_mask (reincarnationbits p) else node_reincarnation p x))"
proof -
  have lr: "lists_rel p S L" and S: "freelist \<in> S" and cov: "(\<Union>k \<in> S. set (L k)) = {..<poolsize p}"
    using rel by (auto simp: pool_rel_def lists_rel_def)
  note links = lists_relD(1) [OF lr l(1)] lists_relD(1) [OF lr S]
  show ?thesis
  proof (cases "L l")
    case Nil
    moreover have "L(freelist := L freelist @ L l, l := []) = L" using Nil by auto
    ultimately show ?thesis using isEmpty_iff [OF links(1)] rel by (simp add: list_clear_def)
  next
    case (Cons x xs)
    note e = ends [OF links(1)]
    have first: "node_next p (Begin l) = Node x" using e(2) Cons by (simp add: after_def)
    have last: "node_prev p (End l) = last (map Node (x # xs))" using e(1) Cons by (simp add: before_def)
    have ln: "last (map Node (x # xs)) = Node (last (x # xs))" by (simp add: last_map)
    have split: "path l (L l) = [] @ Begin l # Node x # (map Node xs @ [End l])" by (simp add: path_def Cons)
    have "L l = [] @ x # xs" "L l = butlast (x # xs) @ last (x # xs) # []" using Cons by simp_all
    then have p1: "node_prev p (Node x) = Begin l" "node_next p (last (map Node (x # xs))) = End l"
      using neighbours(1) [of p l "[]" x xs] neighbours(2) [of p l "butlast (x # xs)" "last (x # xs)" "[]"] links(1)
      unfolding ln by (simp_all add: before_def after_def)
    let ?p1 = "connect (Begin l) (End l) p" and ?y = "last (x # xs)"
    have det: "detach_range (Node x) (Node ?y) p = Some ?p1"
      using p1 unfolding ln
      by (simp add: detach_range_def get_prev_def get_next_def set_next_def set_prev_def connect_def)
    have dis: "set (L l) \<inter> set (L m) = {}" if "m \<in> S" "m \<noteq> l" for m
      using that l(1) lr unfolding lists_rel_def disjoint_lists_def by metis
    have l1: "links ?p1 (path m (L m))" if "m \<in> S" "m \<noteq> l" for m
      using that by (intro connect_other [OF lr]) (auto simp: set_path)
    have "links p (map Node (x # xs))"
      using links(1) links_suffix [of p "[Begin l]" "map Node (x # xs) @ [End l]"] links_prefix [of p "map Node (x # xs)" "[End l]"]
      by (simp add: path_def Cons)
    then have chain: "links ?p1 (map Node (x # xs))"
      by (subst links_frame) (auto dest!: in_set_tlD in_set_butlastD)
    have dx: "distinct (x # xs)" using lists_relD(2) [OF lr l(1)] Cons by simp
    obtain g where g: "bump_loop (Node x) (Node ?y) ?p1 = Some (?p1\<lparr>node_reincarnation := g\<rparr>)"
      "\<forall>y. g y = (if y \<in> set (x # xs) then (node_reincarnation ?p1 y + 1) AND int_mask (reincarnationbits ?p1)
         else node_reincarnation ?p1 y)"
      using bump_loop_chain [OF chain dx] unfolding ln by blast
    let ?p2 = "?p1\<lparr>node_reincarnation := g\<rparr>" and ?b = "before freelist (L freelist)"
    let ?p3 = "connect (Node ?y) (End freelist) (connect ?b (Node x) ?p2)"
    have l2: "links ?p2 path = links ?p1 path" for path by (rule links_cong) simp_all
    have "node_prev ?p2 (End freelist) = ?b" using ends(1) l1 [OF S] l2 l(2) by metis
    then have app: "list_append_range freelist (Node x) (Node ?y) ?p2 = Some ?p3"
      by (simp add: list_append_range_def get_prev_def set_next_def set_prev_def connect_def)
    have run: "list_clear l p = Some ?p3"
      using isEmpty_iff [OF links(1)] Cons first last ln det g(1) app
      by (simp add: list_clear_def freeToPool_range_def Let_def del: last.simps)
    let ?L = "L(freelist := L freelist @ L l, l := [])"
    have inp: "?b \<in> set (path freelist (L freelist))"
      using before_in [of freelist "L freelist"] by (auto simp: set_path)
    have l3: "links ?p3 (path m (?L m))" if m: "m \<in> S" for m
    proof -
      consider "m = l" | "m = freelist" | "m \<noteq> l" "m \<noteq> freelist" by blast
      then show ?thesis
      proof cases
        case 1
        have "?b \<noteq> Begin l" "?b \<noteq> End l" using inp l(2) by (auto simp: set_path)
        then show ?thesis using 1 l(2) by (simp add: path_def)
      next
        case 2
        have d: "distinct (path freelist (L freelist @ L l))"
          using dis [OF S l(2) [symmetric]] lists_relD(2) [OF lr l(1)] lists_relD(2) [OF lr S] by auto
        have old: "links ?p2 (butlast (Begin freelist # map Node (L freelist)) @ [?b])"
          "links ?p2 (End freelist # [])"
          using l1 [OF S] l(2) links_append [of ?p2 _ ?b "[End freelist]"] path_split [of freelist "L freelist" "[]"]
          unfolding l2 [symmetric] by (auto simp: after_def)
        have new: "butlast (Begin freelist # map Node (L freelist)) @ ?b # (Node x # map Node xs) @ End freelist # [] =
            path freelist (L freelist @ L l)"
          using path_split [of freelist "L freelist" "L l"] by (simp add: Cons after_def)
        have "links ?p3 (butlast (Begin freelist # map Node (L freelist)) @ ?b # (Node x # map Node xs) @ End freelist # [])"
          using links_splice [OF old(1) _ old(2), of "Node x" "map Node xs"] chain d
          unfolding new [symmetric] l2 [symmetric] ln [symmetric] by (simp del: last.simps)
        then show ?thesis unfolding new using 2 l(2) by simp
      next
        case 3
        have n: "?b \<notin> set (path m (L m))"
          using inp 3 m S lists_relD(3) [OF lr S m] by (auto simp: set_path)
        moreover have "z \<notin> set (L m)" if "z \<in> set (x # xs)" for z using dis [OF m 3(1)] that Cons by auto
        then have "Node x \<notin> set (path m (L m))" "Node ?y \<notin> set (path m (L m))"
          using last_in_set [of "x # xs"] by (auto simp: set_path simp del: last.simps)
        moreover have "End freelist \<notin> set (path m (L m))" using 3(2) by (auto simp: set_path)
        ultimately show ?thesis using l1 [OF m 3(1)] 3 l2
          by (simp add: links_off_path del: last.simps)
      qed
    qed
    have "lists_rel ?p3 S ?L"
      unfolding lists_rel_def
    proof (intro conjI ballI)
      fix m assume m: "m \<in> S"
      show "links ?p3 (path m (?L m))" by (rule l3 [OF m])
      show "distinct (?L m)"
        using lists_relD(2) [OF lr m] lists_relD(2) [OF lr l(1)] dis [OF S] l(2) by auto
    next
      have d: "disjoint_lists S L" using lr by (simp add: lists_rel_def)
      have "disjoint_lists S (L(l := []))" by (rule disjoint_lists_upd [OF d]) simp
      then have "disjoint_lists S ((L(l := []))(freelist := L freelist @ L l))"
      proof (rule disjoint_lists_upd)
        fix m assume m: "m \<in> S" "m \<noteq> freelist"
        have "set (L freelist) \<inter> set (L m) = {}" using d m S by (auto simp: disjoint_lists_def)
        then show "set (L freelist @ L l) \<inter> set ((L(l := [])) m) = {}" using dis [OF m(1)] by auto
      qed
      then show "disjoint_lists S ?L" using l(2) by (simp add: fun_upd_twist)
    qed (use lr S l in \<open>auto simp: lists_rel_def\<close>)
    moreover have "(\<Union>k \<in> S. set (?L k)) = (\<Union>k \<in> S. set (L k))"
    proof (intro equalityI subsetI)
      fix y assume "y \<in> (\<Union>k \<in> S. set (L k))"
      then obtain k where k: "k \<in> S" "y \<in> set (L k)" by blast
      show "y \<in> (\<Union>k \<in> S. set (?L k))"
      proof (cases "k = l")
        case True
        then show ?thesis using k(2) l(2) by (intro UN_I [OF S]) simp
      next
        case False
        then show ?thesis using k by (intro UN_I [OF k(1)]) auto
      qed
    qed (use S l in \<open>auto split: if_splits\<close>)
    ultimately show ?thesis using run g(2) cov Cons by (simp add: pool_rel_def)
  qed
qed

section \<open>Construction\<close>

lemma append_new:
  assumes rel: "lists_rel p S L" and l: "l \<in> S" and x: "\<And>m. m \<in> S \<Longrightarrow> x \<notin> set (L m)"
  obtains p' where "list_append l (Node x) p = Some p'" "lists_rel p' S (L(l := L l @ [x]))"
    "poolsize p' = poolsize p" "node_reincarnation p' = node_reincarnation p" "pool_data p' = pool_data p"
    "reservedbits p' = reservedbits p"
  using append_eq [OF lists_relD(1) [OF rel l]] rel_insert [OF rel l, of "L l" "[]" x] x that by simp

lemma init_nodes_rel:
  "lists_rel p S L \<Longrightarrow> (\<And>m x. m \<in> S \<Longrightarrow> x \<in> set (L m) \<Longrightarrow> x < i) \<Longrightarrow>
   \<exists>p'. init_nodes i n p = Some p' \<and> lists_rel p' S (L(freelist := L freelist @ [i..<i + n])) \<and>
     node_reincarnation p' = node_reincarnation p \<and> pool_data p' = pool_data p \<and> reservedbits p' = reservedbits p"
proof (induction n arbitrary: i p L)
  case (Suc n)
  have S: "freelist \<in> S" using Suc.prems(1) by (simp add: lists_rel_def)
  obtain p1 where p1: "list_append freelist (Node i) p = Some p1" "lists_rel p1 S (L(freelist := L freelist @ [i]))"
    "node_reincarnation p1 = node_reincarnation p" "pool_data p1 = pool_data p" "reservedbits p1 = reservedbits p"
    by (rule append_new [OF Suc.prems(1) S, of i]) (use Suc.prems(2) in auto)
  let ?L = "L(freelist := L freelist @ [i])"
  have "x < i + 1" if "m \<in> S" "x \<in> set (?L m)" for m x
    using that Suc.prems(2) by (auto split: if_splits intro: less_SucI)
  then obtain p2 where p2: "init_nodes (i + 1) n p1 = Some p2"
    "lists_rel p2 S (?L(freelist := ?L freelist @ [i + 1..<i + 1 + n]))"
    "node_reincarnation p2 = node_reincarnation p1" "pool_data p2 = pool_data p1" "reservedbits p2 = reservedbits p1"
    using Suc.IH [OF p1(2), of "i + 1"] by blast
  have e: "?L(freelist := ?L freelist @ [i + 1..<i + 1 + n]) = L(freelist := L freelist @ [i..<i + Suc n])"
    by (simp add: upt_conv_Cons del: upt_Suc)
  show ?case
  proof (intro exI conjI)
    show "init_nodes i (Suc n) p = Some p2" using p1(1) p2(1) by simp
    show "lists_rel p2 S (L(freelist := L freelist @ [i..<i + Suc n]))" using p2(2) by (simp only: e)
  qed (use p1 p2 in simp_all)
qed (simp add: fun_upd_idem)

lemma new_pool:
  "\<exists>p. Pool_new dat n = Some p \<and> pool_rel p {freelist, 1} ((\<lambda>_. [])(freelist := [0..<n])) \<and>
     poolsize p = n \<and> poolsizebits p = of_nat (bitsForSize (n + 1)) \<and>
     reincarnationbits p = 64 - poolsizebits p \<and> node_reincarnation p = (\<lambda>_. 0)"
proof -
  let ?z = "\<lparr>node_next = (\<lambda>_. Null), node_prev = (\<lambda>_. Null), node_reincarnation = (\<lambda>_. 0), pool_data = dat,
      poolsize = 0, poolsizebits = 0, reservedbits = 0, reincarnationbits = 0\<rparr>"
  let ?q = "RTListBase_init freelist (RTListBase_init 1 ?z)"
  let ?p = "?q\<lparr>pool_data := dat,
       node_next := (\<lambda>a. case a of Node i \<Rightarrow> Null | _ \<Rightarrow> node_next ?q a),
       node_prev := (\<lambda>a. case a of Node i \<Rightarrow> Null | _ \<Rightarrow> node_prev ?q a), node_reincarnation := (\<lambda>_. 0)\<rparr>"
  have "lists_rel ?p {freelist, 1} (\<lambda>_. [])"
    by (simp add: lists_rel_def disjoint_lists_def path_def RTListBase_init_def freelist_def)
  from init_nodes_rel [OF this, of 0 n] obtain p1 where p1: "init_nodes 0 n ?p = Some p1"
    "lists_rel p1 {freelist, 1} ((\<lambda>_. [])(freelist := [0..<n]))" "node_reincarnation p1 = (\<lambda>_. 0)" "reservedbits p1 = 0"
    by (auto simp: RTListBase_init_def)
  let ?p2 = "updateReincarnationBits (p1\<lparr>poolsize := n, poolsizebits := of_nat (bitsForSize (n + 1))\<rparr>)"
  have "lists_rel ?p2 {freelist, 1} ((\<lambda>_. [])(freelist := [0..<n]))"
    using p1(2) lists_rel_cong [of ?p2 p1] by (simp add: updateReincarnationBits_def)
  moreover have "(\<Union>k \<in> {freelist, 1}. set (((\<lambda>_. [])(freelist := [0..<n])) k)) = {..<n}"
    by (auto simp: freelist_def)
  moreover have "Pool_new dat n = Some ?p2"
    unfolding Pool_new_def Pool_init_def p1(1) by simp
  ultimately show ?thesis using p1(3,4)
    by (intro exI [of _ ?p2]) (simp add: pool_rel_def updateReincarnationBits_def)
qed

section \<open>Sequences of operations\<close>

fun exec_ops :: "pool_op list \<Rightarrow> 'a Pool \<Rightarrow> 'a Pool option" where
  "exec_ops [] p = Some p"
| "exec_ops (op # ops) p = do { (_, p) \<leftarrow> exec_op op p; exec_ops ops p }"

fun spec_ops :: "pool_op list \<Rightarrow> (nat \<Rightarrow> nat list) \<Rightarrow> nat \<Rightarrow> nat list" where
  "spec_ops [] L = L"
| "spec_ops (op # ops) L = spec_ops ops (spec_op op L)"

fun ops_allowed :: "nat set \<Rightarrow> (nat \<Rightarrow> nat list) \<Rightarrow> pool_op list \<Rightarrow> bool" where
  "ops_allowed S L [] \<longleftrightarrow> True"
| "ops_allowed S L (op # ops) \<longleftrightarrow> op_allowed S L op \<and> ops_allowed S (spec_op op L) ops"

text \<open>A list that is constructed has no elements.\<close>

lemma new_list_rel:
  assumes rel: "pool_rel p S L" and l: "l \<notin> S"
  shows "pool_rel (RTListBase_init l p) (insert l S) L"
proof -
  have lr: "lists_rel p S L" using rel by (simp add: pool_rel_def)
  then have Ll: "L l = []" using l by (simp add: lists_rel_def)
  let ?p = "RTListBase_init l p"
  have "links ?p (path m (L m))" if "m \<in> S" for m
  proof -
    have "Begin l \<notin> set (path m (L m))" "End l \<notin> set (path m (L m))" using that l by (auto simp: set_path)
    moreover have "Begin l \<notin> set xs \<Longrightarrow> End l \<notin> set xs \<Longrightarrow> links ?p xs = links p xs" for xs
      by (induction xs rule: induct_list012) (auto simp: RTListBase_init_def)
    ultimately show ?thesis using lists_relD(1) [OF lr that] by blast
  qed
  moreover have "links ?p (path l (L l))" by (simp add: Ll path_def RTListBase_init_def)
  ultimately have "lists_rel ?p (insert l S) L"
    using lr Ll by (auto simp: lists_rel_def disjoint_lists_def)
  then show ?thesis using rel Ll by (simp add: pool_rel_def RTListBase_init_def)
qed


section \<open>Counting\<close>

lemma count_loop_eq:
  "links p (map Node xs @ [End l]) \<Longrightarrow>
   count_loop l \<lparr>it_current = after l xs, it_fallback = f\<rparr> n p = Some (n + int (length xs))"
proof (induction xs arbitrary: f n)
  case Nil
  then show ?case by (subst count_loop.simps) (simp add: after_def)
next
  case (Cons x xs)
  have "node_next p (Node x) = after l xs" using Cons.prems by (cases xs) (auto simp: after_def)
  moreover have "links p (map Node xs @ [End l])" using Cons.prems links_suffix [of p "[Node x]"] by simp
  ultimately show ?case using Cons.IH [of "Node x" "n + 1"]
    by (subst count_loop.simps) (simp add: after_def Iterator_increment_def get_next_def)
qed

lemma list_count_eq:
  assumes "lists_rel p S L" "l \<in> S" shows "list_count l p = Some (int (length (L l)))"
proof -
  note links = lists_relD(1) [OF assms]
  have "links p (map Node (L l) @ [End l])" using links links_suffix [of p "[Begin l]"] by (simp add: path_def)
  then show ?thesis
    using count_loop_eq [of p "L l" l _ 0] ends(2) [OF links] before_neq_Null(2) [of l "L l"]
    by (simp add: list_count_def list_first_def Iterator_new_def get_prev_def)
qed

section \<open>IDs\<close>

lemma bits_loop_bound: "n < 2 ^ (bits_loop bits n - bits) \<and> bits \<le> bits_loop bits n"
proof (induction bits n rule: bits_loop.induct)
  case (1 bits n)
  show ?case
  proof (cases "1 < n")
    case True
    let ?k = "bits_loop (bits + 2) (n div 4)"
    have IH: "n div 4 < 2 ^ (?k - (bits + 2))" "bits + 2 \<le> ?k" using 1 True by auto
    have "?k - bits = (?k - (bits + 2)) + 2" using IH(2) by simp
    then have "(2::nat) ^ (?k - bits) = 2 ^ (?k - (bits + 2)) * 4" by (simp only: power_add) simp
    then have "n < 2 ^ (?k - bits)" using IH(1) by linarith
    then show ?thesis using True IH(2) by (subst (1 2) bits_loop.simps) simp
  next
    case False
    then have "n = 0 \<or> n = 1" by auto
    then show ?thesis by (subst (1 2) bits_loop.simps) auto
  qed
qed

lemma bits_loop_small: "n < 4 ^ k \<Longrightarrow> bits_loop bits n \<le> bits + 2 * k"
proof (induction bits n arbitrary: k rule: bits_loop.induct)
  case (1 bits n)
  show ?case
  proof (cases "1 < n")
    case True
    then obtain j where j: "k = Suc j" using 1(2) by (cases k) auto
    then have "n div 4 < 4 ^ j" using 1(2) by (simp add: div_less_iff_less_mult mult.commute)
    from 1(1) [OF True this] show ?thesis using True j by (subst bits_loop.simps) simp
  next
    case False
    then show ?thesis using 1(2) by (subst bits_loop.simps) (cases k; auto)
  qed
qed

text \<open>The bits that index all elements.\<close>

lemma bitsForSize_bound: "n < 2 ^ bitsForSize (n + 1)"
  using bits_loop_bound [of n 0] by (simp add: bitsForSize_def)

definition ids_ok :: "'a Pool \<Rightarrow> bool" where
  "ids_ok p \<longleftrightarrow> poolsizebits p = of_nat (bitsForSize (poolsize p + 1)) \<and> bitsForSize (poolsize p + 1) < 32 \<and>
     (\<forall>i. node_reincarnation p i AND int_mask (reincarnationbits p) = node_reincarnation p i)"

lemma int_mask_eq: "int_mask bits = mask (unat (bits AND 31))"
proof -
  let ?k = "unat (bits AND 31)"
  have "bits AND 31 \<le> 31" by (rule word_and_le1)
  then have k: "?k < 32" by (simp add: word_le_nat_alt)
  have "push_bit ?k (1 :: 32 word) - 1 = mask ?k" by (simp add: mask_eq_decr_exp push_bit_of_1)
  moreover have "(scast (mask ?k :: 32 word) :: 64 word) = mask ?k"
    using k by (intro bit_eqI) (auto simp: bit_simps min_def)
  ultimately show ?thesis by (simp add: int_mask_def)
qed

lemma drop_bit_id:
  fixes r w :: "64 word"
  assumes "take_bit (64 - b) r = r" "take_bit b w = w"
  shows "drop_bit b (push_bit b r OR w) = r" "(push_bit b r OR w) AND mask b = w"
proof -
  have r: "bit r n \<Longrightarrow> n < 64 - b" for n using assms(1) by (metis bit_take_bit_iff)
  have w: "bit w n \<Longrightarrow> n < b" for n using assms(2) by (metis bit_take_bit_iff)
  show "drop_bit b (push_bit b r OR w) = r"
    by (rule bit_eqI) (auto simp: bit_simps dest: r w)
  show "(push_bit b r OR w) AND mask b = w"
    by (rule bit_eqI) (auto simp: bit_simps dest: r w)
qed

lemma ids_okD:
  assumes "ids_ok p" "i < poolsize p"
  defines "b \<equiv> bitsForSize (poolsize p + 1)"
  shows "unat (poolsizebits p) = b" "b < 32" "int_mask (poolsizebits p) = mask b"
    "take_bit b (of_nat i :: 64 word) = of_nat i" "take_bit 31 (node_reincarnation p i) = node_reincarnation p i"
    "unat (of_nat i :: 64 word) = i"
proof -
  show b: "b < 32" using assms(1) by (simp add: ids_ok_def b_def)
  then have "(b :: nat) < 2 ^ 32" by simp
  then show ub: "unat (poolsizebits p) = b"
    using assms(1) unfolding b_def by (simp add: ids_ok_def unat_of_nat take_bit_nat_eq_self)
  have "take_bit 5 (poolsizebits p) = poolsizebits p"
    using ub b by (simp add: word_unat_eq_iff unsigned_take_bit_eq take_bit_nat_eq_self)
  then have "poolsizebits p AND 31 = poolsizebits p"
    by (simp add: take_bit_eq_mask mask_eq_exp_minus_1)
  then show "int_mask (poolsizebits p) = mask b" by (simp add: int_mask_eq ub)
  have "poolsize p < 2 ^ b" unfolding b_def by (rule bitsForSize_bound)
  then have i: "i < 2 ^ b" using assms(2) by simp
  then show "take_bit b (of_nat i :: 64 word) = of_nat i"
    by (simp flip: of_nat_take_bit add: take_bit_nat_eq_self)
  have "(2::nat) ^ b \<le> 2 ^ 32" using b by (intro power_increasing) auto
  then show "unat (of_nat i :: 64 word) = i" using i by (simp add: unat_of_nat take_bit_nat_eq_self)
  have "node_reincarnation p i = node_reincarnation p i AND mask (unat (reincarnationbits p AND 31))"
    using assms(1) by (simp add: ids_ok_def int_mask_eq)
  also have "\<dots> = take_bit (unat (reincarnationbits p AND 31)) (node_reincarnation p i)" by (simp add: take_bit_eq_mask)
  finally have r: "take_bit (unat (reincarnationbits p AND 31)) (node_reincarnation p i) = node_reincarnation p i" by simp
  have "reincarnationbits p AND 31 \<le> 31" by (rule word_and_le1)
  then have "unat (reincarnationbits p AND 31) \<le> 31" by (simp add: word_le_nat_alt)
  then show "take_bit 31 (node_reincarnation p i) = node_reincarnation p i"
    using r by (metis min.absorb2 take_bit_take_bit)
qed

lemma fromID_getID:
  assumes ok: "ids_ok p" and i: "i < poolsize p"
    and p': "poolsize p' = poolsize p" "poolsizebits p' = poolsizebits p"
  shows "getID (int i) p \<noteq> 0 \<and> fromID (getID (int i) p) p' =
    Some (if node_reincarnation p' i = node_reincarnation p i
      then \<lparr>it_current = Node i, it_fallback = node_prev p' (Node i)\<rparr> else Iterator_default)"
proof -
  note f = ids_okD [OF ok i]
  define b where "b = bitsForSize (poolsize p + 1)"
  let ?r = "node_reincarnation p i"
  define x where "x = (of_nat i :: 64 word)"
  define w where "w = push_bit b ?r OR x"
  have b: "b < 32" using f(2) by (simp add: b_def)
  have "take_bit (64 - b) ?r = ?r"
    using f(5) b take_bit_take_bit [of "64 - b" 31 ?r] by (simp add: min_def split: if_splits)
  note d = drop_bit_id [OF this, of x]
  have x: "take_bit b x = x" "unat x = i" using f(4,6) by (simp_all add: x_def b_def)
  then have w: "drop_bit b w = ?r" "w AND mask b = x"
    using d by (simp_all add: w_def)
  have "take_bit 63 w = w"
  proof (rule bit_eqI)
    fix n
    have r: "bit ?r k \<Longrightarrow> k < 31" for k using f(5) by (metis bit_take_bit_iff)
    have o: "bit x k \<Longrightarrow> k < b" for k using x(1) by (metis bit_take_bit_iff)
    show "bit (take_bit 63 w) n \<longleftrightarrow> bit w n"
      using b by (auto simp: w_def bit_simps dest: r o)
  qed
  then have "unat w < 2 ^ 63" by (metis take_bit_nat_less_exp unsigned_take_bit_eq)
  then have "unat (w + 1) = unat w + 1" by (simp add: unat_word_ariths)
  with \<open>unat w < 2 ^ 63\<close> have n: "w + 1 \<noteq> 0" "w + 1 \<noteq> - 1"
    by (auto simp: word_unat_eq_iff unsigned_minus_1_eq_mask mask_eq_exp_minus_1)
  have "getID (int i) p = w + 1" using i f(1) by (simp add: getID_def w_def b_def x_def)
  then show ?thesis
    using n w x f(1,3) i p' by (simp add: fromID_def b_def Let_def Iterator_new_def get_prev_def)
qed

text \<open>C13: An ID finds its element again, and is not the value that stands for no element.\<close>

theorem id_roundtrip:
  assumes "ids_ok p" and "i < poolsize p"
  shows "getID (int i) p \<noteq> 0 \<and>
    fromID (getID (int i) p) p = Some \<lparr>it_current = Node i, it_fallback = node_prev p (Node i)\<rparr>"
  using fromID_getID [OF assms, of p] by simp

lemma unat_take_bit: "unat (take_bit k w) = unat w mod 2 ^ k" for w :: "'a::len word"
proof -
  have "unat (take_bit k w) = take_bit k (unat w)" by (rule unsigned_take_bit_eq)
  also have "\<dots> = unat w mod 2 ^ k" by (rule take_bit_eq_mod)
  finally show ?thesis .
qed

lemma unat_take_bit_add:
  fixes x y :: "64 word"
  assumes "k \<le> 64" shows "unat (take_bit k (x + y)) = (unat x + unat y) mod 2 ^ k"
proof -
  have "(2::nat)^k dvd 2^64" using assms by (intro le_imp_power_dvd) simp
  then show ?thesis by (simp add: unat_take_bit unat_word_ariths mod_mod_cancel)
qed

lemma take_bit_add_left: "k \<le> 64 \<Longrightarrow> take_bit k (take_bit k x + y) = take_bit k (x + y)" for x :: "64 word"
  by (rule word_unat_eq_iff [THEN iffD2], subst (1 2) unat_take_bit_add) (simp_all only: unat_take_bit mod_add_left_eq)

lemma unat_take_bit_add_nat: "k \<le> 64 \<Longrightarrow> unat (take_bit k (r + of_nat n :: 64 word)) = (unat r + n) mod 2 ^ k"
proof -
  assume k: "k \<le> 64"
  have "(2::nat)^k dvd 2^64" using k by (intro le_imp_power_dvd) simp
  then have "unat (of_nat n :: 64 word) mod 2 ^ k = n mod 2 ^ k"
    by (simp add: unat_of_nat take_bit_eq_mod mod_mod_cancel)
  then show ?thesis unfolding unat_take_bit_add [OF k] by (metis mod_add_right_eq)
qed

lemma mask_bits_le: "unat (bits AND 31 :: 32 word) \<le> 31"
  using word_and_le1 [of bits 31] by (simp add: word_le_nat_alt)

lemma bump_upd:
  "bumpReincarnation i b (p\<lparr>node_reincarnation := (node_reincarnation p)(i := x)\<rparr>) =
   p\<lparr>node_reincarnation := (node_reincarnation p)(i := (x + 1) AND int_mask b)\<rparr>"
  by (simp add: bumpReincarnation_def)

lemma bump_times:
  assumes m: "m = int_mask (reincarnationbits p)" and "node_reincarnation p i AND m = node_reincarnation p i"
  shows "(bumpReincarnation i (reincarnationbits p) ^^ n) p =
    p\<lparr>node_reincarnation := (node_reincarnation p)(i := (node_reincarnation p i + of_nat n) AND m)\<rparr>"
proof (induction n)
  case 0
  then show ?case using assms(2) by simp
next
  case (Suc n)
  have "(((node_reincarnation p i + of_nat n) AND m) + 1) AND m = (node_reincarnation p i + of_nat (Suc n)) AND m"
  proof -
    let ?k = "unat (reincarnationbits p AND 31)" and ?x = "node_reincarnation p i + of_nat n"
    have "?k \<le> 64" using mask_bits_le [of "reincarnationbits p"] by simp
    then have "take_bit ?k (take_bit ?k ?x + 1) = take_bit ?k (?x + 1)" by (rule take_bit_add_left)
    then show ?thesis by (simp add: m int_mask_eq take_bit_eq_mask ac_simps)
  qed
  then show ?case by (simp only: funpow.simps o_apply Suc.IH bump_upd m)
qed

text \<open>
  An ID stays invalid while its element is freed again and again, but not for as many times as
  \<open>reincarnationbits\<close> promises: the mask is made with a shift of an \<open>int\<close>, and the counter comes back
  after \<open>2 ^ (reincarnationbits mod 32)\<close> times.
\<close>

theorem freed_id:
  assumes ok: "ids_ok p" and i: "i < poolsize p"
  shows "fromID (getID (int i) p) ((bumpReincarnation i (reincarnationbits p) ^^ n) p) =
    Some (if 2 ^ (unat (reincarnationbits p) mod 32) dvd n
      then \<lparr>it_current = Node i, it_fallback = node_prev p (Node i)\<rparr> else Iterator_default)"
proof -
  let ?r = "node_reincarnation p i" and ?bits = "reincarnationbits p"
  define k where "k = unat (?bits AND 31)"
  have "?bits AND 31 = take_bit 5 ?bits" by (simp add: take_bit_eq_mask mask_eq_exp_minus_1)
  then have "k = take_bit 5 (unat ?bits)" by (simp only: k_def unsigned_take_bit_eq)
  then have k: "unat ?bits mod 32 = k" by (simp add: take_bit_eq_mod)
  have k32: "k < 32" unfolding k [symmetric] by simp
  have r: "take_bit k ?r = ?r" using ok by (simp add: ids_ok_def int_mask_eq k_def take_bit_eq_mask)
  have r': "unat ?r mod 2 ^ k = unat ?r" using r unat_take_bit [of k ?r] by simp
  have "unat (take_bit k (?r + of_nat n)) = (unat ?r + n) mod 2 ^ k"
    using k32 by (intro unat_take_bit_add_nat) simp
  then have "take_bit k (?r + of_nat n) = ?r \<longleftrightarrow> (unat ?r + n) mod 2 ^ k = unat ?r mod 2 ^ k"
    by (simp add: word_unat_eq_iff r')
  also have "\<dots> \<longleftrightarrow> 2 ^ k dvd n" by (simp add: mod_eq_dvd_iff_nat)
  finally have eq: "take_bit k (?r + of_nat n) = ?r \<longleftrightarrow> 2 ^ k dvd n" .
  have b: "(bumpReincarnation i ?bits ^^ n) p = p\<lparr>node_reincarnation := (node_reincarnation p)(i := take_bit k (?r + of_nat n))\<rparr>"
    using ok by (subst bump_times [OF refl]) (simp_all add: ids_ok_def int_mask_eq k_def take_bit_eq_mask)
  show ?thesis using fromID_getID [OF ok i, of "(bumpReincarnation i ?bits ^^ n) p"] eq
    unfolding k by (simp add: b)
qed

section \<open>Examples\<close>

lemma new_pool_ids:
  assumes "Pool_new dat n = Some p" "n < 2 ^ 30"
  shows "ids_ok p" "poolsize p = n" "reincarnationbits p = 64 - of_nat (bitsForSize (n + 1))"
proof -
  have p: "poolsize p = n" "poolsizebits p = of_nat (bitsForSize (n + 1))" "reincarnationbits p = 64 - poolsizebits p"
    "node_reincarnation p = (\<lambda>_. 0)"
    using new_pool [of dat n] assms(1) by auto
  have "bitsForSize (n + 1) \<le> 30" using bits_loop_small [of n 15 0] assms(2) by (simp add: bitsForSize_def)
  then show "ids_ok p" using p by (simp add: ids_ok_def)
  show "poolsize p = n" "reincarnationbits p = 64 - of_nat (bitsForSize (n + 1))" using p by simp_all
qed


lemma clear_simulation_witness:
  "\<exists>p. pool_rel p {freelist, 1} ((\<lambda>_. [])(freelist := [0], 1 := [1 :: nat])) \<and>
     (\<exists>p'. list_clear 1 (p :: unit Pool) = Some p' \<and> pool_rel p' {freelist, 1} ((\<lambda>_. [])(freelist := [0, 1])))"
proof -
  let ?L = "(\<lambda>_. [])(freelist := [0..<2])"
  obtain p :: "unit Pool" where "pool_rel p {freelist, 1} ?L" using new_pool [of "\<lambda>_. ()" 2] by blast
  moreover have "op_allowed {freelist, 1} ?L (Alloc_append 1)" by (simp add: freelist_def)
  moreover have "spec_op (Alloc_append 1) ?L = (\<lambda>_. [])(freelist := [0], 1 := [1])"
    by (simp add: fun_eq_iff freelist_def upt_rec)
  ultimately obtain p' :: "unit Pool" where p': "pool_rel p' {freelist, 1} ((\<lambda>_. [])(freelist := [0], 1 := [1]))"
    using pool_op_simulation [of p "{freelist, 1}" ?L "Alloc_append 1"] by auto
  have "(\<lambda>_. [])(freelist := [0], 1 := [], freelist := [0, 1], 1 := []) = (\<lambda>_. [] :: nat list)(freelist := [0, 1])"
    by (simp add: fun_eq_iff freelist_def)
  then show ?thesis using clear_simulation [OF p', of 1] p' by (auto simp: freelist_def)
qed

lemma id_roundtrip_witness:
  "\<exists>p f. Pool_new (\<lambda>_. ()) 5 = Some p \<and> fromID (getID 3 p) p = Some \<lparr>it_current = Node 3, it_fallback = f\<rparr>"
proof -
  obtain p :: "unit Pool" where p: "Pool_new (\<lambda>_. ()) 5 = Some p" using new_pool [of "\<lambda>_. ()" 5] by blast
  then show ?thesis using id_roundtrip [OF new_pool_ids(1) [OF p], of 3] new_pool_ids(2) [OF p] by auto
qed

lemma freed_id_witness:
  "\<exists>p. Pool_new (\<lambda>_. ()) 5 = Some p \<and> reincarnationbits p = 61 \<and>
     fromID (getID 3 p) ((bumpReincarnation 3 (reincarnationbits p) ^^ 1) p) = Some Iterator_default \<and>
     fromID (getID 3 p) ((bumpReincarnation 3 (reincarnationbits p) ^^ (2 ^ 29)) p) \<noteq> Some Iterator_default"
proof -
  obtain p :: "unit Pool" where p: "Pool_new (\<lambda>_. ()) 5 = Some p" using new_pool [of "\<lambda>_. ()" 5] by blast
  note f = new_pool_ids [OF p, simplified]
  have "bitsForSize 6 = 3" by (simp add: bitsForSize_def bits_loop.simps)
  then have r: "reincarnationbits p = 61" using f(3) by simp
  then show ?thesis using p freed_id [OF f(1), of 3 1] freed_id [OF f(1), of 3 "2 ^ 29"] f(2)
    by (simp add: Iterator_default_def del: funpow.simps)
qed

end
