(* ===== verification/EventGroups.thy ===== *)
theory EventGroups
  imports Pool
begin

text \<open>
  \<open>ConstCapacityArray\<close> (\<open>src/src/common/ConstCapacityArray.h\<close>), an array that never grows beyond the memory
  it allocated, and \<open>EventGroup\<close> (\<open>InstrumentScriptVM.h\<close>, \<open>.cpp\<close> of \<open>src/src/engines/common\<close>), the IDs that
  a script marked with \<open>set_event_mark()\<close>. The memory is a list of the length of the capacity, of which the
  first \<open>ca_size\<close> elements are in use.
\<close>

section \<open>ConstCapacityArray\<close>

record 'a ConstCapacityArray =
  ca_data :: "'a list"
  ca_size :: nat

definition ConstCapacityArray_new :: "'a list \<Rightarrow> 'a ConstCapacityArray" where
  \<comment> \<open>\<open>mem\<close> is what the memory contains after its allocation\<close>
  "ConstCapacityArray_new mem = \<lparr>ca_data = mem, ca_size = 0\<rparr>"

definition ca_capacity :: "'a ConstCapacityArray \<Rightarrow> nat" where
  "ca_capacity a = length (ca_data a)"

definition ca_append :: "'a \<Rightarrow> 'a ConstCapacityArray \<Rightarrow> 'a ConstCapacityArray option" where
  "ca_append element a =
     (if ca_size a = ca_capacity a then Some a
      else do { d \<leftarrow> upd_opt (ca_data a) (ca_size a) element; Some (a\<lparr>ca_data := d, ca_size := ca_size a + 1\<rparr>) })"

text \<open>The loop of \<open>remove\<close> copies \<open>count\<close> elements; the last argument is how many of them are left.\<close>

fun remove_loop :: "nat \<Rightarrow> nat \<Rightarrow> nat \<Rightarrow> nat \<Rightarrow> 'a list \<Rightarrow> 'a list option" where
  "remove_loop index count i 0 d = Some d"
| "remove_loop index count i (Suc k) d = do {
     x \<leftarrow> nth_opt d (index + i + count);
     d \<leftarrow> upd_opt d (index + i) x;
     remove_loop index count (Suc i) k d }"

definition ca_remove :: "64 word \<Rightarrow> nat \<Rightarrow> 'a ConstCapacityArray \<Rightarrow> 'a ConstCapacityArray option" where
  "ca_remove index count a =
     (if ca_size a \<le> unat index \<or> ca_size a < unat index + count then Some a
      else do {
        d \<leftarrow> remove_loop (unat index) count 0 count (ca_data a);
        Some (a\<lparr>ca_data := d, ca_size := ca_size a - count\<rparr>) })"

definition ca_contains :: "'a \<Rightarrow> 'a ConstCapacityArray \<Rightarrow> bool" where
  "ca_contains value a = (value \<in> set (take (ca_size a) (ca_data a)))"

fun find_loop :: "'a \<Rightarrow> nat \<Rightarrow> 'a list \<Rightarrow> 64 word" where
  "find_loop value i [] = - 1"
| "find_loop value i (x # xs) = (if x = value then of_nat i else find_loop value (Suc i) xs)"

definition ca_find :: "'a \<Rightarrow> 'a ConstCapacityArray \<Rightarrow> 64 word" where
  "ca_find value a = find_loop value 0 (take (ca_size a) (ca_data a))"

definition ca_clear :: "'a ConstCapacityArray \<Rightarrow> 'a ConstCapacityArray" where
  "ca_clear a = a\<lparr>ca_size := 0\<rparr>"

section \<open>EventGroup\<close>

type_synonym EventGroup = "vmint ConstCapacityArray"

definition INSTR_SCRIPT_EVENT_GROUPS :: nat where
  "INSTR_SCRIPT_EVENT_GROUPS = 28"

text \<open>
  The loop of \<open>insert\<close> looks for dead events. \<open>alive\<close> is whether \<open>EventByID(eventID)\<close> finds an event; the
  code asks for the ID that is inserted, not for those in the group. \<open>firstDead\<close> is None for -1. The loop
  makes at most as many passes as the group has elements, as removing never adds any.
\<close>

fun insert_loop :: "bool \<Rightarrow> nat \<Rightarrow> nat \<Rightarrow> nat option \<Rightarrow> EventGroup \<Rightarrow> EventGroup option" where
  "insert_loop alive 0 i firstDead g = Some g"
| "insert_loop alive (Suc k) i firstDead g =
     (if \<not> i < ca_size g then Some g
      else (case firstDead of
          Some f \<Rightarrow> (if alive then do { g \<leftarrow> ca_remove (of_nat f) (i - f) g; insert_loop alive k (Suc i) None g }
                     else insert_loop alive k (Suc i) firstDead g)
        | None \<Rightarrow> insert_loop alive k (Suc i) (if \<not> alive then Some i else None) g))"

definition EventGroup_insert :: "bool \<Rightarrow> vmint \<Rightarrow> EventGroup \<Rightarrow> EventGroup option" where
  "EventGroup_insert alive eventID g =
     (if ca_contains eventID g then Some g
      else do { g \<leftarrow> insert_loop alive (ca_size g) 0 None g; ca_append eventID g })"

definition EventGroup_erase :: "vmint \<Rightarrow> EventGroup \<Rightarrow> EventGroup option" where
  "EventGroup_erase eventID g = ca_remove (ca_find eventID g) 1 g"

section \<open>The marked IDs\<close>

definition group_ids :: "EventGroup \<Rightarrow> vmint list" where
  "group_ids g = take (ca_size g) (ca_data g)"

definition group_ok :: "EventGroup \<Rightarrow> bool" where
  "group_ok g \<longleftrightarrow> ca_size g \<le> ca_capacity g \<and> ca_capacity g < 2 ^ 63"

lemma group_okD: "group_ok g \<Longrightarrow> ca_size g \<le> length (ca_data g)" "group_ok g \<Longrightarrow> length (ca_data g) < 2 ^ 63"
  by (auto simp: group_ok_def ca_capacity_def)

text \<open>No dead event is ever removed.\<close>

lemma insert_loop_id: "insert_loop alive k i fd g = Some g" if "alive \<Longrightarrow> fd = None"
  using that by (induction alive k i fd g rule: insert_loop.induct) (auto split: option.split)

lemma EventGroup_insert_eq:
  assumes "group_ok g"
  shows "\<exists>g'. EventGroup_insert alive i g = Some g' \<and> group_ok g' \<and> ca_capacity g' = ca_capacity g \<and>
    group_ids g' = (if i \<in> set (group_ids g) \<or> ca_size g = ca_capacity g then group_ids g else group_ids g @ [i])"
proof (cases "ca_contains i g \<or> ca_size g = ca_capacity g")
  case True
  then show ?thesis using assms
    by (auto simp: EventGroup_insert_def insert_loop_id ca_append_def ca_contains_def group_ids_def)
next
  case False
  then have s: "ca_size g < length (ca_data g)" using assms by (simp add: group_ok_def ca_capacity_def)
  have "take (Suc n) (xs[n := i]) = take n xs @ [i]" if "n < length xs" for n and xs :: "vmint list"
    using that by (simp add: take_Suc_conv_app_nth)
  then show ?thesis using s False assms
    by (auto simp: EventGroup_insert_def insert_loop_id ca_append_def ca_contains_def group_ids_def group_ok_def ca_capacity_def)
qed

lemma find_loop_eq:
  assumes "n + length xs < 2 ^ 63"
  shows "i \<notin> set xs \<Longrightarrow> find_loop i n xs = - 1"
    "k < length xs \<Longrightarrow> xs ! k = i \<Longrightarrow> \<forall>j < k. xs ! j \<noteq> i \<Longrightarrow> unat (find_loop i n xs) = n + k"
proof -
  show "i \<notin> set xs \<Longrightarrow> find_loop i n xs = - 1" by (induction i n xs rule: find_loop.induct) auto
  show "k < length xs \<Longrightarrow> xs ! k = i \<Longrightarrow> \<forall>j < k. xs ! j \<noteq> i \<Longrightarrow> unat (find_loop i n xs) = n + k"
    using assms
  proof (induction i n xs arbitrary: k rule: find_loop.induct)
    case (2 i n x xs)
    show ?case
    proof (cases k)
      case 0
      then show ?thesis using 2 by (simp add: unat_of_nat take_bit_nat_eq_self)
    next
      case (Suc j)
      then have "x \<noteq> i" using 2(4) by auto
      moreover have "\<forall>l < j. xs ! l \<noteq> i" using 2(4) Suc by auto
      ultimately show ?thesis using 2(1) [of j] 2(2,3,5) Suc by auto
    qed
  qed simp
qed

lemma EventGroup_erase_absent: "i \<notin> set (group_ids g) \<Longrightarrow> group_ok g \<Longrightarrow> EventGroup_erase i g = Some g"
proof -
  assume a: "i \<notin> set (group_ids g)" "group_ok g"
  have "0 + length (group_ids g) < 2 ^ 63" using group_okD [OF a(2)] by (simp add: group_ids_def)
  then have "ca_find i g = - 1" using find_loop_eq(1) [of 0 "group_ids g" i] a(1) by (simp add: ca_find_def group_ids_def)
  moreover have "ca_size g \<le> unat (- 1 :: 64 word)"
    using a(2) by (simp add: group_ok_def unsigned_minus_1_eq_mask mask_eq_exp_minus_1)
  ultimately show ?thesis by (simp add: EventGroup_erase_def ca_remove_def)
qed

lemma EventGroup_erase_eq:
  assumes ok: "group_ok g" and d: "distinct (group_ids g)" and k: "k < ca_size g" "group_ids g ! k = i"
  shows "EventGroup_erase i g = (if k + 1 < ca_capacity g
    then Some (g\<lparr>ca_data := (ca_data g)[k := ca_data g ! (k + 1)], ca_size := ca_size g - 1\<rparr>) else None)"
proof -
  have len: "length (group_ids g) = ca_size g" using group_okD(1) [OF ok] by (simp add: group_ids_def)
  have "\<forall>j < k. group_ids g ! j \<noteq> i" using d k len by (auto simp: nth_eq_iff_index_eq)
  then have "unat (ca_find i g) = k"
    using find_loop_eq(2) [of 0 "group_ids g" k i] k len group_okD [OF ok] by (simp add: ca_find_def group_ids_def)
  then show ?thesis using k group_okD(1) [OF ok]
    by (auto simp: EventGroup_erase_def ca_remove_def ca_capacity_def nth_opt_def upd_opt_def)
qed

text \<open>
  \<open>remove\<close> copies only as many elements as it removes, so only the last or the last but one ID of a group is
  erased properly. With any other ID the next one is there twice after, and the last one is lost.
\<close>

theorem erase_correct_iff:
  assumes ok: "group_ok g" and d: "distinct (group_ids g)" and k: "k < ca_size g" "group_ids g ! k = i"
    and room: "k + 1 < ca_capacity g"
  shows "\<exists>g'. EventGroup_erase i g = Some g' \<and> group_ids g' = (take (ca_size g - 1) ((group_ids g)[k := ca_data g ! (k + 1)])) \<and>
    (group_ids g' = remove1 i (group_ids g) \<longleftrightarrow> ca_size g \<le> k + 2)"
proof -
  let ?n = "ca_size g" and ?xs = "group_ids g" and ?d = "ca_data g"
  let ?g' = "g\<lparr>ca_data := ?d[k := ?d ! (k + 1)], ca_size := ?n - 1\<rparr>"
  have len: "length ?xs = ?n" using group_okD(1) [OF ok] by (simp add: group_ids_def)
  have ids: "group_ids ?g' = take (?n - 1) (?xs[k := ?d ! (k + 1)])"
    by (simp add: group_ids_def take_update_swap min_def)
  have rm: "remove1 i ?xs = take k ?xs @ drop (k + 1) ?xs"
  proof -
    have "?xs = take k ?xs @ i # drop (k + 1) ?xs" using k len by (metis Suc_eq_plus1 id_take_nth_drop)
    moreover have "i \<notin> set (take k ?xs)"
      using d k len by (auto simp: in_set_conv_nth nth_eq_iff_index_eq)
    ultimately show ?thesis by (metis remove1_append remove1.simps(2))
  qed
  have "take (?n - 1) (?xs[k := ?d ! (k + 1)]) = remove1 i ?xs \<longleftrightarrow> ?n \<le> k + 2"
  proof
    assume "?n \<le> k + 2"
    then consider "?n = k + 1" | "?n = k + 2" using k(1) by linarith
    then show "take (?n - 1) (?xs[k := ?d ! (k + 1)]) = remove1 i ?xs"
    proof cases
      case 1
      then show ?thesis using len by (simp add: rm)
    next
      case 2
      then have e: "?d ! (k + 1) = ?xs ! (k + 1)" by (simp add: group_ids_def)
      have dr: "drop (k + 1) ?xs = [?xs ! (k + 1)]" using 2 len by (intro nth_equalityI) auto
      show ?thesis unfolding rm dr e using 2 len by (simp add: take_Suc_conv_app_nth)
    qed
  next
    assume eq: "take (?n - 1) (?xs[k := ?d ! (k + 1)]) = remove1 i ?xs"
    show "?n \<le> k + 2"
    proof (rule ccontr)
      assume "\<not> ?n \<le> k + 2"
      then have n: "k + 2 < ?n" by simp
      have "take (?n - 1) (?xs[k := ?d ! (k + 1)]) ! (k + 1) = ?xs ! (k + 1)" using n by simp
      moreover have "(take k ?xs @ drop (k + 1) ?xs) ! (k + 1) = ?xs ! (k + 2)"
        using n len by (simp add: nth_append)
      ultimately have "?xs ! (k + 1) = ?xs ! (k + 2)" using eq rm by simp
      then show False using d n len by (simp add: nth_eq_iff_index_eq)
    qed
  qed
  then show ?thesis using EventGroup_erase_eq [OF ok d k] room ids by simp
qed

text \<open>In a full group, erasing the last ID reads the memory behind the array.\<close>

theorem erase_last_of_full_group:
  assumes "group_ok g" "distinct (group_ids g)" "0 < ca_size g" "ca_size g = ca_capacity g"
  shows "EventGroup_erase (last (group_ids g)) g = None"
proof -
  have len: "length (group_ids g) = ca_size g" using group_okD(1) [OF assms(1)] by (simp add: group_ids_def)
  then have "group_ids g ! (ca_size g - 1) = last (group_ids g)"
    using assms(3) by (subst last_conv_nth) auto
  then show ?thesis using EventGroup_erase_eq [OF assms(1,2), of "ca_size g - 1"] assms(3,4) by simp
qed

text \<open>Groups of three IDs, with and without memory for a fourth.\<close>

definition example_group :: EventGroup where
  "example_group = \<lparr>ca_data = [1, 2, 3, 0], ca_size = 3\<rparr>"

definition full_group :: EventGroup where
  "full_group = \<lparr>ca_data = [1, 2, 3], ca_size = 3\<rparr>"

lemma example_groups:
  "group_ok example_group" "group_ids example_group = [1, 2, 3]" "ca_size example_group = 3" "ca_capacity example_group = 4"
  "group_ok full_group" "group_ids full_group = [1, 2, 3]" "ca_size full_group = 3" "ca_capacity full_group = 3"
  "ca_data example_group = [1, 2, 3, 0]"
  by (simp_all add: group_ok_def group_ids_def ca_capacity_def example_group_def full_group_def)

lemma erase_correct_iff_witness: "map_option group_ids (EventGroup_erase 1 example_group) = Some [2, 2]"
  using erase_correct_iff [of example_group 0 1] by (auto simp: example_groups)

lemma erase_last_of_full_group_witness: "EventGroup_erase 3 full_group = None"
  using erase_last_of_full_group [of full_group] by (simp add: example_groups)

end
