(* ===== verification/EventModel.thy ===== *)
theory EventModel
  imports EventGroups VMVariables
begin

text \<open>
  Events, notes and their parameters: \<open>Event.h\<close>, \<open>Event.cpp\<close>, \<open>Note.h\<close> and \<open>ScriptID\<close> of
  \<open>InstrumentScriptVM.h\<close> in \<open>src/src/engines/common\<close>, and functions of \<open>src/src/common/RTMath.h\<close>.

  \<open>Event::Param\<close> is a union. Its members for MIDI data are read and written here as bytes at the offsets
  they have on x86-64, so that a member may be read through another one, as the code does in places. The
  member \<open>NoteSynthParam\<close>, which contains floating point numbers, is an alternative of its own; nothing in the
  code reads it through another member.
\<close>

section \<open>Events\<close>

type_synonym sched_time_t = "64 word"
type_synonym time_stamp_t = "32 word"
type_synonym event_id_t = pool_element_id_t
type_synonym note_id_t = pool_element_id_t
type_synonym script_callback_id_t = pool_element_id_t

datatype Event_type_t = type_note_on | type_note_off | type_pitchbend | type_control_change | type_rpn | type_nrpn
  | type_sysex | type_cancel_release_key | type_release_key | type_release_note | type_channel_pressure
  | type_note_pressure | type_play_note | type_stop_note | type_kill_note | type_note_synth_param

datatype synth_param_t = synth_param_volume | synth_param_volume_time | synth_param_volume_curve
  | synth_param_pitch | synth_param_pitch_time | synth_param_pitch_curve
  | synth_param_pan | synth_param_pan_time | synth_param_pan_curve
  | synth_param_cutoff | synth_param_resonance
  | synth_param_attack | synth_param_decay | synth_param_sustain | synth_param_release
  | synth_param_cutoff_attack | synth_param_cutoff_decay | synth_param_cutoff_sustain | synth_param_cutoff_release
  | synth_param_amp_lfo_depth | synth_param_amp_lfo_freq | synth_param_cutoff_lfo_depth
  | synth_param_cutoff_lfo_freq | synth_param_pitch_lfo_depth | synth_param_pitch_lfo_freq

datatype ValueScope = SELF_RELATIVE | RELATIVE | FINAL_SELF_RELATIVE | FINAL_NORM | FINAL_NATIVE

record NoteSynthParam =
  sp_NoteID :: note_id_t
  sp_Type :: synth_param_t
  sp_Delta :: vmfloat
  sp_AbsValue :: vmfloat
  sp_Scope :: ValueScope

datatype event_param = Param_bytes "8 word list" | Param_NoteSynth NoteSynthParam

record Event =
  ev_Type :: Event_type_t
  ev_Param :: event_param
  ev_TimeStamp :: time_stamp_t
  ev_iFragmentPos :: "32 word"

text \<open>Reading and writing \<open>n\<close> bytes of the union at an offset.\<close>

definition param_load :: "nat \<Rightarrow> nat \<Rightarrow> Event \<Rightarrow> int option" where
  "param_load off n e = (case ev_Param e of
     Param_bytes bs \<Rightarrow> (if off + n \<le> length bs then Some (le_int (take n (drop off bs))) else None)
   | Param_NoteSynth _ \<Rightarrow> None)"

definition param_store :: "nat \<Rightarrow> nat \<Rightarrow> int \<Rightarrow> Event \<Rightarrow> Event option" where
  "param_store off n k e = (case ev_Param e of
     Param_bytes bs \<Rightarrow> (if off + n \<le> length bs
       then Some (e\<lparr>ev_Param := Param_bytes (take off bs @ le_bytes n k @ drop (off + n) bs)\<rparr>) else None)
   | Param_NoteSynth _ \<Rightarrow> None)"

text \<open>The members of the union: \<open>Note\<close>, \<open>CC\<close>, \<open>RPN\<close> (also \<open>NRPN\<close>), \<open>Pitch\<close> and \<open>ChannelPressure\<close>.\<close>

abbreviation get_Note_Key :: "Event \<Rightarrow> int option" where "get_Note_Key \<equiv> param_load 1 1"
abbreviation set_Note_Key :: "int \<Rightarrow> Event \<Rightarrow> Event option" where "set_Note_Key \<equiv> param_store 1 1"
abbreviation get_Note_Velocity :: "Event \<Rightarrow> int option" where "get_Note_Velocity \<equiv> param_load 2 1"
abbreviation set_Note_Velocity :: "int \<Rightarrow> Event \<Rightarrow> Event option" where "set_Note_Velocity \<equiv> param_store 2 1"
abbreviation get_Note_ID :: "Event \<Rightarrow> int option" where "get_Note_ID \<equiv> param_load 8 8"
abbreviation set_Note_ID :: "int \<Rightarrow> Event \<Rightarrow> Event option" where "set_Note_ID \<equiv> param_store 8 8"
abbreviation get_Note_ParentNoteID :: "Event \<Rightarrow> int option" where "get_Note_ParentNoteID \<equiv> param_load 16 8"
abbreviation set_Note_ParentNoteID :: "int \<Rightarrow> Event \<Rightarrow> Event option" where "set_Note_ParentNoteID \<equiv> param_store 16 8"
abbreviation get_CC_Controller :: "Event \<Rightarrow> int option" where "get_CC_Controller \<equiv> param_load 1 1"
abbreviation set_CC_Controller :: "int \<Rightarrow> Event \<Rightarrow> Event option" where "set_CC_Controller \<equiv> param_store 1 1"
abbreviation set_CC_Value :: "int \<Rightarrow> Event \<Rightarrow> Event option" where "set_CC_Value \<equiv> param_store 2 1"
abbreviation set_RPN_Parameter :: "int \<Rightarrow> Event \<Rightarrow> Event option" where "set_RPN_Parameter \<equiv> param_store 2 2"
abbreviation set_RPN_Value :: "int \<Rightarrow> Event \<Rightarrow> Event option" where "set_RPN_Value \<equiv> param_store 4 2"
abbreviation set_Pitch_Pitch :: "int \<Rightarrow> Event \<Rightarrow> Event option" where "set_Pitch_Pitch \<equiv> param_store 2 2"
abbreviation set_ChannelPressure_Value :: "int \<Rightarrow> Event \<Rightarrow> Event option" where
  "set_ChannelPressure_Value \<equiv> param_store 2 1"

definition Event_Init :: "Event \<Rightarrow> Event" where
  "Event_Init e = e\<lparr>ev_Param := Param_bytes (replicate 32 0)\<rparr>"

definition Event_ResetFragmentPos :: "Event \<Rightarrow> Event" where
  "Event_ResetFragmentPos e = e\<lparr>ev_iFragmentPos := - 1\<rparr>"

definition Event_CopyTimeFrom :: "Event \<Rightarrow> Event \<Rightarrow> Event" where
  "Event_CopyTimeFrom other e = e\<lparr>ev_TimeStamp := ev_TimeStamp other, ev_iFragmentPos := ev_iFragmentPos other\<rparr>"

definition Event_scopeBy_FinalRelativeUnit :: "bool \<Rightarrow> bool \<Rightarrow> bool \<Rightarrow> ValueScope" where
  "Event_scopeBy_FinalRelativeUnit bFinal bRelative bNativeUnit =
     (if \<not> bFinal \<and> bRelative then SELF_RELATIVE
      else if \<not> bFinal then RELATIVE
      else if bRelative then FINAL_SELF_RELATIVE
      else if bNativeUnit then FINAL_NATIVE
      else FINAL_NORM)"

text \<open>\<open>Param.NoteSynthParam\<close> is written after \<open>Init\<close>, which leaves \<open>AbsValue\<close> zero.\<close>

definition set_NoteSynthParam :: "note_id_t \<Rightarrow> synth_param_t \<Rightarrow> vmfloat \<Rightarrow> ValueScope \<Rightarrow> Event \<Rightarrow> Event" where
  "set_NoteSynthParam i type delta scope e = e\<lparr>ev_Param := Param_NoteSynth
     \<lparr>sp_NoteID = i, sp_Type = type, sp_Delta = delta, sp_AbsValue = 0, sp_Scope = scope\<rparr>\<rparr>"

section \<open>Event generator\<close>

record EventGenerator =
  uiSampleRate :: "32 word"
  uiSamplesProcessed :: "32 word"
  FragmentTime_begin :: time_stamp_t
  FragmentTime_end :: time_stamp_t
  FragmentTime_sample_ratio :: vmfloat
  uiTotalSamplesProcessed :: sched_time_t

definition EventGenerator_new :: "time_stamp_t \<Rightarrow> time_stamp_t \<Rightarrow> vmfloat \<Rightarrow> 32 word \<Rightarrow> EventGenerator" where
  \<comment> \<open>the time \<open>now\<close>, and what the members contain that the constructor does not set\<close>
  "EventGenerator_new now begin ratio SampleRate = \<lparr>uiSampleRate = SampleRate, uiSamplesProcessed = 0,
     FragmentTime_begin = begin, FragmentTime_end = now, FragmentTime_sample_ratio = ratio,
     uiTotalSamplesProcessed = 0\<rparr>"

definition SetSampleRate :: "32 word \<Rightarrow> EventGenerator \<Rightarrow> EventGenerator" where
  "SetSampleRate SampleRate g = g\<lparr>uiSampleRate := SampleRate\<rparr>"

definition UpdateFragmentTime :: "time_stamp_t \<Rightarrow> 32 word \<Rightarrow> EventGenerator \<Rightarrow> EventGenerator" where
  "UpdateFragmentTime now SamplesToProcess g =
     (let g = g\<lparr>uiTotalSamplesProcessed := uiTotalSamplesProcessed g + ucast (uiSamplesProcessed g)\<rparr>;
          g = g\<lparr>FragmentTime_begin := FragmentTime_end g\<rparr>;
          g = g\<lparr>FragmentTime_end := now\<rparr>;
          fragmentDuration = FragmentTime_end g - FragmentTime_begin g;
          g = g\<lparr>FragmentTime_sample_ratio :=
                float_of_int (uint (uiSamplesProcessed g)) / float_of_int (uint fragmentDuration)\<rparr>
      in g\<lparr>uiSamplesProcessed := SamplesToProcess\<rparr>)"

definition schedTimeAtCurrentFragmentStart :: "EventGenerator \<Rightarrow> sched_time_t" where
  "schedTimeAtCurrentFragmentStart g = uiTotalSamplesProcessed g"

definition schedTimeAtCurrentFragmentEnd :: "EventGenerator \<Rightarrow> sched_time_t" where
  "schedTimeAtCurrentFragmentEnd g = uiTotalSamplesProcessed g + ucast (uiSamplesProcessed g)"

fun int32_of_float :: "vmfloat \<Rightarrow> 32 word" where \<comment> \<open>the cast \<open>int32_t(f)\<close>, as x86-64 does it\<close>
  "int32_of_float (Fin x) = (let k = trunc_rat x in
     if - (2 ^ 31) \<le> k \<and> k < 2 ^ 31 then word_of_int k else word_of_int (- (2 ^ 31)))"
| "int32_of_float (Zero _) = 0"
| "int32_of_float _ = word_of_int (- (2 ^ 31))"

definition ToFragmentPos :: "time_stamp_t \<Rightarrow> EventGenerator \<Rightarrow> 32 word" where
  "ToFragmentPos TimeStamp g =
     int32_of_float (float_of_int (sint (TimeStamp - FragmentTime_begin g)) * FragmentTime_sample_ratio g)"

definition CreateEvent_now :: "time_stamp_t \<Rightarrow> Event \<Rightarrow> Event" where
  \<comment> \<open>the event that is constructed has undefined members\<close>
  "CreateEvent_now now e = (Event_Init e)\<lparr>ev_TimeStamp := now, ev_iFragmentPos := - 1\<rparr>"

definition CreateEvent_at :: "32 word \<Rightarrow> Event \<Rightarrow> Event" where
  "CreateEvent_at FragmentPos e = (Event_Init e)\<lparr>ev_iFragmentPos := FragmentPos\<rparr>"

text \<open>The position is kept in the event when it was computed.\<close>

definition Event_FragmentPos :: "EventGenerator \<Rightarrow> Event \<Rightarrow> 32 word \<times> Event" where
  "Event_FragmentPos g e =
     (if 0 \<le> sint (ev_iFragmentPos e) then (ev_iFragmentPos e, e)
      else (let pos = ToFragmentPos (ev_TimeStamp e) g; pos = (if sint pos < 0 then 0 else pos)
        in (pos, e\<lparr>ev_iFragmentPos := pos\<rparr>)))"

definition Event_SchedTime :: "EventGenerator \<Rightarrow> Event \<Rightarrow> sched_time_t \<times> Event" where
  "Event_SchedTime g e = (let (pos, e) = Event_FragmentPos g e
     in (schedTimeAtCurrentFragmentStart g + scast pos, e))"

text \<open>The conversion of a positive \<open>float\<close> to \<open>uint64_t\<close>.\<close>

fun sched_time_of_float :: "vmfloat \<Rightarrow> sched_time_t" where
  "sched_time_of_float (Fin x) = word_of_int (trunc_rat x)"
| "sched_time_of_float (Zero _) = 0"
| "sched_time_of_float _ = int_indefinite"

definition schedule_offset :: "64 word \<Rightarrow> EventGenerator \<Rightarrow> sched_time_t" where
  "schedule_offset microseconds g = sched_time_of_float
     (if microseconds \<noteq> 0
      then 1 + float_of_int (uint (uiSampleRate g)) * (float_of_int (uint microseconds) / float_of_int 1000000)
      else 0)"

definition schedule_time :: "32 word \<Rightarrow> 64 word \<Rightarrow> EventGenerator \<Rightarrow> sched_time_t" where
  "schedule_time fragmentPosBase microseconds g =
     uiTotalSamplesProcessed g + scast fragmentPosBase + schedule_offset microseconds g"

section \<open>Notes\<close>

datatype NoteScope = Note_RELATIVE | Note_FINAL_NORM | Note_FINAL_NATIVE

record NoteParam =
  np_Value :: vmfloat
  np_Scope :: NoteScope

record Norm =
  nn_Value :: vmfloat
  nn_Final :: bool

record SNorm =
  sn_Value :: vmfloat
  sn_Final :: bool
  sn_Sources :: "64 word"

definition NoteParam_new :: NoteParam where
  "NoteParam_new = \<lparr>np_Value = 1, np_Scope = Note_RELATIVE\<rparr>"

definition NoteParam_isFinal :: "NoteParam \<Rightarrow> bool" where
  "NoteParam_isFinal p \<longleftrightarrow> np_Scope p = Note_FINAL_NORM \<or> np_Scope p = Note_FINAL_NATIVE"

definition NoteParam_applyTo :: "vmfloat \<Rightarrow> NoteParam \<Rightarrow> vmfloat" where
  "NoteParam_applyTo dst p = (if NoteParam_isFinal p then np_Value p else dst * np_Value p)"

definition Norm_new :: Norm where
  "Norm_new = \<lparr>nn_Value = 1, nn_Final = False\<rparr>"

definition Norm_applyTo :: "vmfloat \<Rightarrow> Norm \<Rightarrow> vmfloat" where
  "Norm_applyTo dst p = (if nn_Final p then nn_Value p else dst * nn_Value p)"

definition SNorm_new :: SNorm where
  "SNorm_new = \<lparr>sn_Value = 0, sn_Final = False, sn_Sources = 0\<rparr>"

text \<open>The members of \<open>_Override\<close>, by their types. A pointer to a member is its name.\<close>

datatype norm_field = Volume | Pitch | Resonance | Sustain | CutoffSustain | AmpLFODepth | CutoffLFODepth | PitchLFODepth

datatype param_field = Cutoff | Attack | Decay | Release | CutoffAttack | CutoffDecay | CutoffRelease
  | AmpLFOFreq | CutoffLFOFreq | PitchLFOFreq

datatype time_field = VolumeTime | PitchTime | PanTime

datatype curve_field = VolumeCurve | PitchCurve | PanCurve

type_synonym fade_curve_t = "32 word"

definition FADE_CURVE_LINEAR :: fade_curve_t where "FADE_CURVE_LINEAR = 0"
definition FADE_CURVE_EASE_IN_EASE_OUT :: fade_curve_t where "FADE_CURVE_EASE_IN_EASE_OUT = 1"

record Override =
  ov_norm :: "norm_field \<Rightarrow> Norm"
  ov_param :: "param_field \<Rightarrow> NoteParam"
  ov_Pan :: SNorm
  ov_time :: "time_field \<Rightarrow> vmfloat"
  ov_curve :: "curve_field \<Rightarrow> fade_curve_t"
  ov_SampleOffset :: "32 word"

text \<open>\<open>0.013f\<close>, the default of the three transition times.\<close>

definition DEFAULT_NOTE_TIME_S :: vmfloat where
  "DEFAULT_NOTE_TIME_S = round32 (13 / 1000)"

definition Override_new :: Override where
  "Override_new = \<lparr>ov_norm = (\<lambda>_. Norm_new), ov_param = (\<lambda>_. NoteParam_new), ov_Pan = SNorm_new,
     ov_time = (\<lambda>_. DEFAULT_NOTE_TIME_S), ov_curve = (\<lambda>_. FADE_CURVE_EASE_IN_EASE_OUT), ov_SampleOffset = - 1\<rparr>"

record NoteBase =
  nb_hostKey :: int
  nb_parentNoteID :: note_id_t
  nb_cause :: Event
  nb_eventID :: event_id_t
  nb_triggerSchedTime :: sched_time_t
  nb_Override :: Override
  nb_userPar :: "vmint list"
  nb_pActiveVoices :: "nat list"

definition Note_reset :: "Event \<Rightarrow> NoteBase \<Rightarrow> NoteBase" where
  \<comment> \<open>of the note itself; its child IDs are a list of another pool, and \<open>Event()\<close> leaves its members undefined\<close>
  "Note_reset undef n = n\<lparr>nb_hostKey := 0, nb_parentNoteID := 0, nb_cause := undef, nb_eventID := 0,
     nb_Override := Override_new, nb_userPar := [0, 0, 0, 0], nb_pActiveVoices := []\<rparr>"

section \<open>Applying parameter changes\<close>

definition RelativeSummedAvg :: "vmfloat \<Rightarrow> vmfloat \<Rightarrow> 64 word \<Rightarrow> vmfloat" where
  "RelativeSummedAvg current sample n = current + (sample - current) / float_of_int (sint n)"

definition apply_NoteParam :: "NoteSynthParam \<Rightarrow> NoteParam \<Rightarrow> NoteSynthParam \<times> NoteParam" where
  "apply_NoteParam ev p =
     (let base = (if np_Scope p = Note_FINAL_NATIVE then NoteParam_new else p);
          product = np_Value base * sp_Delta ev in
      case sp_Scope ev of
        SELF_RELATIVE \<Rightarrow> (ev\<lparr>sp_AbsValue := product\<rparr>, base\<lparr>np_Value := product, np_Scope := Note_RELATIVE\<rparr>)
      | RELATIVE \<Rightarrow> (ev\<lparr>sp_AbsValue := sp_Delta ev\<rparr>, p\<lparr>np_Value := sp_Delta ev, np_Scope := Note_RELATIVE\<rparr>)
      | FINAL_SELF_RELATIVE \<Rightarrow> (ev\<lparr>sp_AbsValue := product\<rparr>, base\<lparr>np_Value := product, np_Scope := Note_FINAL_NORM\<rparr>)
      | FINAL_NORM \<Rightarrow> (ev\<lparr>sp_AbsValue := sp_Delta ev\<rparr>, p\<lparr>np_Value := sp_Delta ev, np_Scope := Note_FINAL_NORM\<rparr>)
      | FINAL_NATIVE \<Rightarrow> (ev\<lparr>sp_AbsValue := sp_Delta ev\<rparr>, p\<lparr>np_Value := sp_Delta ev, np_Scope := Note_FINAL_NATIVE\<rparr>))"

definition apply_Norm :: "NoteSynthParam \<Rightarrow> Norm \<Rightarrow> NoteSynthParam \<times> Norm" where
  "apply_Norm ev p =
     (let product = nn_Value p * sp_Delta ev in
      case sp_Scope ev of
        SELF_RELATIVE \<Rightarrow> (ev\<lparr>sp_AbsValue := product\<rparr>, p\<lparr>nn_Value := product, nn_Final := False\<rparr>)
      | RELATIVE \<Rightarrow> (ev\<lparr>sp_AbsValue := sp_Delta ev\<rparr>, p\<lparr>nn_Value := sp_Delta ev, nn_Final := False\<rparr>)
      | FINAL_SELF_RELATIVE \<Rightarrow> (ev\<lparr>sp_AbsValue := product\<rparr>, p\<lparr>nn_Value := product, nn_Final := True\<rparr>)
      | FINAL_NORM \<Rightarrow> (ev\<lparr>sp_AbsValue := sp_Delta ev\<rparr>, p\<lparr>nn_Value := sp_Delta ev, nn_Final := True\<rparr>)
      | FINAL_NATIVE \<Rightarrow> (ev, p))"

definition apply_SNorm :: "NoteSynthParam \<Rightarrow> SNorm \<Rightarrow> NoteSynthParam \<times> SNorm" where
  "apply_SNorm ev p =
     (let sources = sn_Sources p + 1; avg = RelativeSummedAvg (sn_Value p) (sp_Delta ev) sources in
      case sp_Scope ev of
        SELF_RELATIVE \<Rightarrow> (ev\<lparr>sp_AbsValue := avg\<rparr>, p\<lparr>sn_Value := avg, sn_Sources := sources, sn_Final := False\<rparr>)
      | RELATIVE \<Rightarrow> (ev\<lparr>sp_AbsValue := sp_Delta ev\<rparr>, p\<lparr>sn_Value := sp_Delta ev, sn_Sources := 1, sn_Final := False\<rparr>)
      | FINAL_SELF_RELATIVE \<Rightarrow> (ev\<lparr>sp_AbsValue := avg\<rparr>, p\<lparr>sn_Value := avg, sn_Sources := sources, sn_Final := True\<rparr>)
      | FINAL_NORM \<Rightarrow> (ev\<lparr>sp_AbsValue := sp_Delta ev\<rparr>, p\<lparr>sn_Value := sp_Delta ev, sn_Sources := 1, sn_Final := True\<rparr>)
      | FINAL_NATIVE \<Rightarrow> (ev, p))"

definition Note_scopeBy_FinalUnit :: "bool \<Rightarrow> bool \<Rightarrow> NoteScope" where
  "Note_scopeBy_FinalUnit bFinal bNativeUnit =
     (if \<not> bFinal then Note_RELATIVE else if bNativeUnit then Note_FINAL_NATIVE else Note_FINAL_NORM)"

text \<open>The member that a parameter change is for, and the switch of \<open>EngineBase::ProcessNoteSynthParam\<close>.\<close>

datatype note_field = F_norm norm_field | F_param param_field | F_Pan | F_time time_field | F_curve curve_field

fun field_of_synth_param :: "synth_param_t \<Rightarrow> note_field" where
  "field_of_synth_param synth_param_volume = F_norm Volume"
| "field_of_synth_param synth_param_volume_time = F_time VolumeTime"
| "field_of_synth_param synth_param_volume_curve = F_curve VolumeCurve"
| "field_of_synth_param synth_param_pitch = F_norm Pitch"
| "field_of_synth_param synth_param_pitch_time = F_time PitchTime"
| "field_of_synth_param synth_param_pitch_curve = F_curve PitchCurve"
| "field_of_synth_param synth_param_pan = F_Pan"
| "field_of_synth_param synth_param_pan_time = F_time PanTime"
| "field_of_synth_param synth_param_pan_curve = F_curve PanCurve"
| "field_of_synth_param synth_param_cutoff = F_param Cutoff"
| "field_of_synth_param synth_param_resonance = F_norm Resonance"
| "field_of_synth_param synth_param_attack = F_param Attack"
| "field_of_synth_param synth_param_decay = F_param Decay"
| "field_of_synth_param synth_param_sustain = F_norm Sustain"
| "field_of_synth_param synth_param_release = F_param Release"
| "field_of_synth_param synth_param_cutoff_attack = F_param CutoffAttack"
| "field_of_synth_param synth_param_cutoff_decay = F_param CutoffDecay"
| "field_of_synth_param synth_param_cutoff_sustain = F_norm CutoffSustain"
| "field_of_synth_param synth_param_cutoff_release = F_param CutoffRelease"
| "field_of_synth_param synth_param_amp_lfo_depth = F_norm AmpLFODepth"
| "field_of_synth_param synth_param_amp_lfo_freq = F_param AmpLFOFreq"
| "field_of_synth_param synth_param_cutoff_lfo_depth = F_norm CutoffLFODepth"
| "field_of_synth_param synth_param_cutoff_lfo_freq = F_param CutoffLFOFreq"
| "field_of_synth_param synth_param_pitch_lfo_depth = F_norm PitchLFODepth"
| "field_of_synth_param synth_param_pitch_lfo_freq = F_param PitchLFOFreq"

definition process_synth_param :: "NoteSynthParam \<Rightarrow> Override \<Rightarrow> NoteSynthParam \<times> Override" where
  "process_synth_param ev ov = (case field_of_synth_param (sp_Type ev) of
     F_norm f \<Rightarrow> (let (ev, p) = apply_Norm ev (ov_norm ov f) in (ev, ov\<lparr>ov_norm := (ov_norm ov)(f := p)\<rparr>))
   | F_param f \<Rightarrow> (let (ev, p) = apply_NoteParam ev (ov_param ov f) in (ev, ov\<lparr>ov_param := (ov_param ov)(f := p)\<rparr>))
   | F_Pan \<Rightarrow> (let (ev, p) = apply_SNorm ev (ov_Pan ov) in (ev, ov\<lparr>ov_Pan := p\<rparr>))
   | F_time f \<Rightarrow> (ev\<lparr>sp_AbsValue := sp_Delta ev\<rparr>, ov\<lparr>ov_time := (ov_time ov)(f := sp_Delta ev)\<rparr>)
   | F_curve f \<Rightarrow> (ev\<lparr>sp_AbsValue := sp_Delta ev\<rparr>, ov\<lparr>ov_curve := (ov_curve ov)(f := int32_of_float (sp_Delta ev))\<rparr>))"

section \<open>Script IDs\<close>

definition INSTR_SCRIPT_NOTE_ID_FLAG :: "64 word" where
  "INSTR_SCRIPT_NOTE_ID_FLAG = push_bit 63 1"

definition INSTR_SCRIPT_EVENT_ID_FLAG :: "64 word" where
  "INSTR_SCRIPT_EVENT_ID_FLAG = 0"

definition ScriptID_fromEventID :: "event_id_t \<Rightarrow> vmint" where
  "ScriptID_fromEventID i = INSTR_SCRIPT_EVENT_ID_FLAG OR i"

definition ScriptID_fromNoteID :: "note_id_t \<Rightarrow> vmint" where
  "ScriptID_fromNoteID i = INSTR_SCRIPT_NOTE_ID_FLAG OR i"

definition ScriptID_isNoteID :: "vmint \<Rightarrow> bool" where
  "ScriptID_isNoteID i \<longleftrightarrow> i AND INSTR_SCRIPT_NOTE_ID_FLAG \<noteq> 0"

definition ScriptID_eventID :: "vmint \<Rightarrow> event_id_t" where
  "ScriptID_eventID i = (if ScriptID_isNoteID i then 0 else i)"

definition ScriptID_noteID :: "vmint \<Rightarrow> note_id_t" where
  "ScriptID_noteID i = (if ScriptID_isNoteID i then NOT INSTR_SCRIPT_NOTE_ID_FLAG AND i else 0)"

section \<open>Script events\<close>

definition MAX_FORK_PER_SCRIPT_HANDLER :: nat where
  "MAX_FORK_PER_SCRIPT_HANDLER = 8"

record ScriptEvent =
  se_scheduleTime :: sched_time_t
  se_cause :: Event
  se_id :: pool_element_id_t
  se_handlers :: "nat option list" \<comment> \<open>numbers of event handlers, NULL is None\<close>
  se_execCtx :: ExecContext
  se_currentHandler :: nat
  se_executionSlices :: "32 word"
  se_ignoreAllWaitCalls :: bool
  se_handlerType :: VMEventHandlerType_t
  se_parentHandlerID :: script_callback_id_t
  se_childHandlerID :: "script_callback_id_t list"
  se_autoAbortByParent :: bool
  se_forkIndex :: "32 word"

text \<open>\<open>ScriptEvent::forkTo\<close> without its last line, the copy of the execution context.\<close>

definition ScriptEvent_forkTo :: "bool \<Rightarrow> ScriptEvent \<Rightarrow> ScriptEvent \<Rightarrow> ScriptEvent option" where
  "ScriptEvent_forkTo bAutoAbort this e = do {
     handler \<leftarrow> nth_opt (se_handlers this) (se_currentHandler this);
     handlers \<leftarrow> upd_opt (se_handlers e) 0 handler;
     handlers \<leftarrow> upd_opt handlers 1 None;
     children \<leftarrow> upd_opt (se_childHandlerID e) 0 0;
     Some (e\<lparr>se_scheduleTime := se_scheduleTime this, se_cause := se_cause this, se_id := se_id this,
       se_handlers := handlers, se_currentHandler := 0, se_executionSlices := 0,
       se_ignoreAllWaitCalls := se_ignoreAllWaitCalls this, se_handlerType := se_handlerType this,
       se_parentHandlerID := 0, se_childHandlerID := children, se_autoAbortByParent := bAutoAbort,
       se_forkIndex := 1\<rparr>) }"

fun count_children_loop :: "nat \<Rightarrow> script_callback_id_t list \<Rightarrow> nat" where
  "count_children_loop 0 ids = 0"
| "count_children_loop (Suc k) [] = 0"
| "count_children_loop (Suc k) (i # ids) = (if i = 0 then 0 else 1 + count_children_loop k ids)"

definition countChildHandlers :: "ScriptEvent \<Rightarrow> nat" where
  "countChildHandlers e = count_children_loop MAX_FORK_PER_SCRIPT_HANDLER (se_childHandlerID e)"

definition addChildHandlerID :: "script_callback_id_t \<Rightarrow> ScriptEvent \<Rightarrow> ScriptEvent option" where
  "addChildHandlerID childID e =
     (let n = countChildHandlers e in
      if MAX_FORK_PER_SCRIPT_HANDLER \<le> n then Some e
      else do {
        ids \<leftarrow> upd_opt (se_childHandlerID e) n childID;
        ids \<leftarrow> upd_opt ids (n + 1) 0;
        Some (e\<lparr>se_childHandlerID := ids\<rparr>) })"

end
