(* ===== verification/EngineChannel.thy ===== *)
theory EngineChannel
  imports EventModel ScriptVM
begin

text \<open>
  The engine channel as the built-in functions of instrument scripts see it: pools of events, notes and script
  events, and the two queues of what is scheduled ahead. From \<open>AbstractEngineChannel.h\<close> / \<open>.cpp\<close>,
  \<open>EngineChannelBase.h\<close>, \<open>EngineBase.h\<close>, \<open>AbstractEngine.h\<close> of \<open>src/src/engines\<close> and \<open>Event.h\<close> / \<open>Event.cpp\<close>,
  \<open>MidiKeyboardManager.h\<close>, \<open>InstrumentScriptVM.cpp\<close> of \<open>src/src/engines/common\<close>.

  One engine with one channel is modelled. Its lists of events are numbered 2 (\<open>pEvents\<close> of the channel),
  3 (\<open>delayedEvents.pList\<close>) and 4 + key; the lists of active notes 2 + key, the lists of child notes 2 + number
  of the note, the lists \<open>pKeyEvents\<close> of script events 2 + key. A queue, \<open>RTAVLTree\<close>, is the sequence in which
  the tree yields its elements: ordered by time, and first come first served at equal times. That the
  tree behaves like this is shown in \<open>EventQueue\<close>.

  \<open>m_CC.data\<close> points to the channel's \<open>ControllerTable\<close>: the table is array 0 of \<open>int8Arrays\<close>. The
  execution context of the script event that runs is \<open>execCtx\<close> of the virtual machine; the field of the script
  event is the one it had before.
\<close>

section \<open>State\<close>

record ScheduledEvent =
  sd_scheduleTime :: sched_time_t
  sd_itEvent :: Iterator

record InstrumentScript =
  is_pEvents :: "ScriptEvent Pool"
  is_suspendedEvents :: "nat list"
  is_eventGroups :: "EventGroup list"
  is_handlerNote :: "nat option" \<comment> \<open>event handlers are numbers\<close>
  is_handlerRelease :: "nat option"
  is_isPolyphonic :: "nat \<Rightarrow> bool"
  is_eventHandlerType :: "nat \<Rightarrow> VMEventHandlerType_t"

record chan =
  ch_vm :: vm
  ch_pEventPool :: "Event Pool"
  ch_schedulerNodes :: "ScheduledEvent Pool"
  ch_queue :: "nat list"
  ch_notePool :: "NoteBase Pool"
  ch_noteIDPool :: "note_id_t Pool"
  ch_pActiveKeys :: "nat Pool"
  ch_keyActive :: "nat \<Rightarrow> bool"
  ch_pEventGenerator :: EventGenerator
  ch_pScript :: "InstrumentScript option"
  ch_m_event :: nat \<comment> \<open>the script event that is executed\<close>
  ch_currentHandlerType :: VMEventHandlerType_t

abbreviation pEvents :: nat where "pEvents \<equiv> 2"
abbreviation delayedList :: nat where "delayedList \<equiv> 3"
abbreviation keyEvents :: "nat \<Rightarrow> nat" where "keyEvents k \<equiv> 4 + k"
abbreviation activeNotes :: "nat \<Rightarrow> nat" where "activeNotes k \<equiv> 2 + k"
abbreviation childNotes :: "nat \<Rightarrow> nat" where "childNotes n \<equiv> 2 + n"
abbreviation pActiveKeys :: nat where "pActiveKeys \<equiv> 2"
abbreviation pKeyEvents :: "nat \<Rightarrow> nat" where "pKeyEvents k \<equiv> 2 + k"

definition node_of :: "Iterator \<Rightarrow> nat option" where
  "node_of it = (case it_current it of Node i \<Rightarrow> Some i | _ \<Rightarrow> None)"

definition set_data :: "nat \<Rightarrow> 'a \<Rightarrow> 'a Pool \<Rightarrow> 'a Pool" where
  "set_data i x p = p\<lparr>pool_data := (pool_data p)(i := x)\<rparr>"

abbreviation event_at :: "nat \<Rightarrow> chan \<Rightarrow> Event" where
  "event_at i c \<equiv> pool_data (ch_pEventPool c) i"

abbreviation note_at :: "nat \<Rightarrow> chan \<Rightarrow> NoteBase" where
  "note_at n c \<equiv> pool_data (ch_notePool c) n"

definition set_event :: "nat \<Rightarrow> Event \<Rightarrow> chan \<Rightarrow> chan" where
  "set_event i e c = c\<lparr>ch_pEventPool := set_data i e (ch_pEventPool c)\<rparr>"

definition set_note :: "nat \<Rightarrow> NoteBase \<Rightarrow> chan \<Rightarrow> chan" where
  "set_note n x c = c\<lparr>ch_notePool := set_data n x (ch_notePool c)\<rparr>"

definition set_Override :: "nat \<Rightarrow> (Override \<Rightarrow> Override) \<Rightarrow> chan \<Rightarrow> chan" where
  "set_Override n f c = set_note n ((note_at n c)\<lparr>nb_Override := f (nb_Override (note_at n c))\<rparr>) c"

text \<open>The script event that runs: \<open>m_event\<close>.\<close>

definition script_event :: "nat \<Rightarrow> chan \<Rightarrow> ScriptEvent option" where
  "script_event i c = map_option (\<lambda>s. pool_data (is_pEvents s) i) (ch_pScript c)"

definition set_script_event :: "nat \<Rightarrow> ScriptEvent \<Rightarrow> chan \<Rightarrow> chan option" where
  "set_script_event i e c = do {
     s \<leftarrow> ch_pScript c;
     Some (c\<lparr>ch_pScript := Some (s\<lparr>is_pEvents := set_data i e (is_pEvents s)\<rparr>)\<rparr>) }"

definition m_event :: "chan \<Rightarrow> ScriptEvent option" where
  "m_event c = script_event (ch_m_event c) c"

text \<open>An expression is evaluated in the virtual machine's part of the state.\<close>

definition ev :: "'a eval \<Rightarrow> chan \<Rightarrow> ('a \<times> chan) option" where
  "ev m c = do { (x, s) \<leftarrow> m (ch_vm c); Some (x, c\<lparr>ch_vm := s\<rparr>) }"

definition msg :: "string \<Rightarrow> chan \<Rightarrow> chan" where \<comment> \<open>\<open>errMsg()\<close> and \<open>wrnMsg()\<close>\<close>
  "msg t c = c\<lparr>ch_vm := printMsg t (ch_vm c)\<rparr>"

section \<open>Queues\<close>

definition queue_insert :: "(nat \<Rightarrow> sched_time_t) \<Rightarrow> nat \<Rightarrow> nat list \<Rightarrow> nat list" where
  \<comment> \<open>an item that is in the tree already is not inserted again\<close>
  "queue_insert time n q = (if n \<in> set q then q
     else takeWhile (\<lambda>m. time m \<le> time n) q @ n # dropWhile (\<lambda>m. time m \<le> time n) q)"

definition queue_erase :: "nat \<Rightarrow> nat list \<Rightarrow> nat list" where
  "queue_erase n q = remove1 n q"

abbreviation event_time :: "ScheduledEvent Pool \<Rightarrow> nat \<Rightarrow> sched_time_t" where
  "event_time p n \<equiv> sd_scheduleTime (pool_data p n)"

abbreviation script_time :: "ScriptEvent Pool \<Rightarrow> nat \<Rightarrow> sched_time_t" where
  "script_time p n \<equiv> se_scheduleTime (pool_data p n)"

text \<open>\<open>scheduleAheadMicroSec\<close> for the two queues.\<close>

definition schedule_event_node :: "nat \<Rightarrow> 32 word \<Rightarrow> 64 word \<Rightarrow> chan \<Rightarrow> chan" where
  "schedule_event_node n fragmentPosBase microseconds c =
     (let q = ch_schedulerNodes c;
          q = set_data n ((pool_data q n)\<lparr>sd_scheduleTime :=
            schedule_time fragmentPosBase microseconds (ch_pEventGenerator c)\<rparr>) q
      in c\<lparr>ch_schedulerNodes := q, ch_queue := queue_insert (event_time q) n (ch_queue c)\<rparr>)"

definition schedule_script_event :: "nat \<Rightarrow> 32 word \<Rightarrow> 64 word \<Rightarrow> chan \<Rightarrow> chan option" where
  "schedule_script_event i fragmentPosBase microseconds c = do {
     s \<leftarrow> ch_pScript c;
     let p = is_pEvents s;
         p = set_data i ((pool_data p i)\<lparr>se_scheduleTime :=
           schedule_time fragmentPosBase microseconds (ch_pEventGenerator c)\<rparr>) p
     in Some (c\<lparr>ch_pScript := Some (s\<lparr>is_pEvents := p,
          is_suspendedEvents := queue_insert (script_time p) i (is_suspendedEvents s)\<rparr>)\<rparr>) }"

section \<open>Events\<close>

definition ScheduleEventMicroSec :: "Event \<Rightarrow> 64 word \<Rightarrow> chan \<Rightarrow> (event_id_t \<times> chan) option" where
  "ScheduleEventMicroSec pEvent delay c = do {
     (itEvent, p) \<leftarrow> allocAppend pEvents (ch_pEventPool c);
     if \<not> Iterator_bool itEvent then Some (0, c\<lparr>ch_pEventPool := p\<rparr>)
     else do {
       (itNode, q) \<leftarrow> allocAppend 1 (ch_schedulerNodes c);
       if \<not> Iterator_bool itNode then do {
         (_, p) \<leftarrow> list_free itEvent p;
         Some (0, c\<lparr>ch_pEventPool := p, ch_schedulerNodes := q\<rparr>) }
       else do {
         i \<leftarrow> node_of itEvent;
         n \<leftarrow> node_of itNode;
         (itEvent, _, p) \<leftarrow> moveToEndOf itEvent delayedList (set_data i pEvent p);
         let q = set_data n ((pool_data q n)\<lparr>sd_itEvent := itEvent\<rparr>) q;
             (pos, e) = Event_FragmentPos (ch_pEventGenerator c) (pool_data p i);
             c = c\<lparr>ch_pEventPool := set_data i e p, ch_schedulerNodes := q\<rparr>;
             c = schedule_event_node n pos delay c
         in Some (getID (int i) (ch_pEventPool c), c) } } }"

definition EventByID :: "event_id_t \<Rightarrow> chan \<Rightarrow> Iterator option" where
  "EventByID i c = fromID i (ch_pEventPool c)"

definition IgnoreEvent :: "event_id_t \<Rightarrow> chan \<Rightarrow> chan option" where
  "IgnoreEvent i c = do {
     it \<leftarrow> fromID i (ch_pEventPool c);
     if Iterator_bool it then do { (_, p) \<leftarrow> list_free it (ch_pEventPool c); Some (c\<lparr>ch_pEventPool := p\<rparr>) }
     else Some c }"

text \<open>
  \<open>popNextScheduledEvent\<close>. The position is \<open>int32_t(uiSamplesProcessed - (end - scheduleTime))\<close>; comparing
  it with the unsigned \<open>uiSamplesProcessed\<close> is an unsigned comparison.
\<close>

definition popped_pos :: "sched_time_t \<Rightarrow> sched_time_t \<Rightarrow> EventGenerator \<Rightarrow> 32 word" where
  "popped_pos stop time g =
     (let pos = ucast (ucast (uiSamplesProcessed g) - (stop - time) :: 64 word) :: 32 word;
          pos = (if sint pos < 0 then 0 else pos)
      in if uiSamplesProcessed g \<le> pos then uiSamplesProcessed g - 1 else pos)"

definition popNextScheduledEvent :: "sched_time_t \<Rightarrow> chan \<Rightarrow> (Iterator \<times> chan) option" where
  "popNextScheduledEvent stop c = (case ch_queue c of [] \<Rightarrow> Some (Iterator_default, c)
   | n # _ \<Rightarrow>
     (let q = ch_schedulerNodes c; time = event_time q n in
      if stop \<le> time then Some (Iterator_default, c)
      else do {
        it \<leftarrow> fromPtr (int n) q;
        let c = c\<lparr>ch_queue := queue_erase n (ch_queue c)\<rparr>; itEvent = sd_itEvent (pool_data q n) in
        if \<not> Iterator_bool it \<or> \<not> Iterator_bool itEvent then Some (it, c)
        else do {
          i \<leftarrow> node_of itEvent;
          Some (it, set_event i
            ((event_at i c)\<lparr>ev_iFragmentPos := popped_pos stop time (ch_pEventGenerator c)\<rparr>) c) } }))"

definition popNextScheduledScriptEvent :: "sched_time_t \<Rightarrow> chan \<Rightarrow> (Iterator \<times> chan) option" where
  "popNextScheduledScriptEvent stop c = do {
     s \<leftarrow> ch_pScript c;
     case is_suspendedEvents s of [] \<Rightarrow> Some (Iterator_default, c)
     | i # _ \<Rightarrow>
       (let p = is_pEvents s; time = script_time p i in
        if stop \<le> time then Some (Iterator_default, c)
        else do {
          it \<leftarrow> fromPtr (int i) p;
          let s = s\<lparr>is_suspendedEvents := queue_erase i (is_suspendedEvents s)\<rparr> in
          if \<not> Iterator_bool it then Some (it, c\<lparr>ch_pScript := Some s\<rparr>)
          else (let e = pool_data p i;
                    e = e\<lparr>se_cause := (se_cause e)\<lparr>ev_iFragmentPos := popped_pos stop time (ch_pEventGenerator c)\<rparr>\<rparr>
            in Some (it, c\<lparr>ch_pScript := Some (s\<lparr>is_pEvents := set_data i e p\<rparr>)\<rparr>)) }) }"

text \<open>
  The part of \<open>EngineBase::ProcessEvents\<close> that moves the delayed events which are due to their place in the
  main event list.
\<close>

definition event_pos :: "nat \<Rightarrow> chan \<Rightarrow> 32 word \<times> chan" where
  "event_pos i c = (let (pos, e) = Event_FragmentPos (ch_pEventGenerator c) (event_at i c)
     in (pos, set_event i e c))"

partial_function (option) skip_earlier :: "Iterator \<Rightarrow> nat \<Rightarrow> chan \<Rightarrow> (Iterator \<times> chan) option" where
  "skip_earlier it d c = (case node_of it of None \<Rightarrow> Some (it, c)
   | Some i \<Rightarrow> (let (a, c) = event_pos i c; (b, c) = event_pos d c in
       if a <=s b then Option.bind (Iterator_increment it (ch_pEventPool c)) (\<lambda>it. skip_earlier it d c)
       else Some (it, c)))"

partial_function (option) insert_delayed_events :: "sched_time_t \<Rightarrow> Iterator \<Rightarrow> chan \<Rightarrow> chan option" where
  "insert_delayed_events stop itEvent c =
     Option.bind (popNextScheduledEvent stop c) (\<lambda>(itNode, c).
     case node_of itNode of None \<Rightarrow> Some c
     | Some n \<Rightarrow>
       (let itDelayed = sd_itEvent (pool_data (ch_schedulerNodes c) n) in
        Option.bind (list_free itNode (ch_schedulerNodes c)) (\<lambda>(_, q).
        let c = c\<lparr>ch_schedulerNodes := q\<rparr> in
        case node_of itDelayed of None \<Rightarrow> insert_delayed_events stop itEvent c
        | Some d \<Rightarrow>
          Option.bind (skip_earlier itEvent d c) (\<lambda>(itEvent, c).
          Option.bind (moveBefore itDelayed itEvent (ch_pEventPool c)) (\<lambda>(itEvent, _, p).
          insert_delayed_events stop itEvent (c\<lparr>ch_pEventPool := p\<rparr>))))))"

definition process_delayed_events :: "chan \<Rightarrow> chan option" where
  "process_delayed_events c =
     (if ch_queue c = [] then Some c
      else do {
        first \<leftarrow> list_first pEvents (ch_pEventPool c);
        insert_delayed_events (schedTimeAtCurrentFragmentEnd (ch_pEventGenerator c)) first c })"

section \<open>Notes\<close>

definition NoteByID :: "note_id_t \<Rightarrow> chan \<Rightarrow> nat option option" where
  \<comment> \<open>the number of the note, NULL is \<open>Some None\<close>\<close>
  "NoteByID i c = do { it \<leftarrow> fromID i (ch_notePool c); Some (node_of it) }"

definition markKeyAsActive :: "nat \<Rightarrow> chan \<Rightarrow> chan option" where
  "markKeyAsActive key c =
     (if ch_keyActive c key then Some c
      else do {
        (it, p) \<leftarrow> allocAppend pActiveKeys (ch_pActiveKeys c);
        i \<leftarrow> node_of it;
        Some (c\<lparr>ch_keyActive := (ch_keyActive c)(key := True), ch_pActiveKeys := set_data i key p\<rparr>) })"

definition free_note :: "Iterator \<Rightarrow> chan \<Rightarrow> chan option" where
  "free_note it c = do { (_, p) \<leftarrow> list_free it (ch_notePool c); Some (c\<lparr>ch_notePool := p\<rparr>) }"

text \<open>The link of a new note to its parent; \<open>None\<close> inside tells that the new note was freed again.\<close>

definition link_to_parent :: "Iterator \<Rightarrow> nat \<Rightarrow> note_id_t \<Rightarrow> note_id_t \<Rightarrow> chan \<Rightarrow> (bool \<times> chan) option" where
  "link_to_parent itNewNote n newNoteID parentNoteID c =
     (if parentNoteID = 0 then Some (True, c)
      else do {
        itParentNote \<leftarrow> fromID parentNoteID (ch_notePool c);
        case node_of itParentNote of
          None \<Rightarrow> do { c \<leftarrow> free_note itNewNote c; Some (False, c) }
        | Some parent \<Rightarrow> do {
            (itChild, ids) \<leftarrow> allocAppend (childNotes parent) (ch_noteIDPool c);
            case node_of itChild of
              None \<Rightarrow> do { c \<leftarrow> free_note itNewNote (c\<lparr>ch_noteIDPool := ids\<rparr>); Some (False, c) }
            | Some j \<Rightarrow> Some (True, set_note n ((note_at n c)\<lparr>nb_parentNoteID := parentNoteID,
                nb_hostKey := nb_hostKey (note_at parent c)\<rparr>)
                (c\<lparr>ch_noteIDPool := set_data j newNoteID ids\<rparr>)) } })"

text \<open>The note that is linked remembers its cause and becomes an active note of its key.\<close>

definition activate_note :: "Iterator \<Rightarrow> nat \<Rightarrow> note_id_t \<Rightarrow> nat \<Rightarrow> chan \<Rightarrow> (note_id_t \<times> chan) option" where
  "activate_note itNewNote n newNoteID i c =
     (let c = set_note n ((note_at n c)\<lparr>nb_cause := event_at i c, nb_eventID := getID (int i) (ch_pEventPool c)\<rparr>) c;
          hostKey = nb_hostKey (note_at n c) in
      if \<not> (0 \<le> hostKey \<and> hostKey < 128) then None \<comment> \<open>behind \<open>pMIDIKeyInfo\<close>\<close>
      else do {
        (_, _, np) \<leftarrow> moveToEndOf itNewNote (activeNotes (nat hostKey)) (ch_notePool c);
        c \<leftarrow> markKeyAsActive (nat hostKey) (c\<lparr>ch_notePool := np\<rparr>);
        e \<leftarrow> set_Note_ID (uint newNoteID) (event_at i c);
        Some (newNoteID, set_event i e c) })"

definition LaunchNewNote :: "nat \<Rightarrow> chan \<Rightarrow> (note_id_t \<times> chan) option" where
  \<comment> \<open>the argument is the node of \<open>itNoteOnEvent\<close>\<close>
  "LaunchNewNote i c =
     (if poolIsEmpty (ch_notePool c) then Some (0, c)
      else do {
        (itNewNote, np) \<leftarrow> allocAppend 1 (ch_notePool c);
        n \<leftarrow> node_of itNewNote;
        let newNoteID = getID (int n) np;
            (time, e) = Event_SchedTime (ch_pEventGenerator c) (event_at i c);
            c = set_event i e (c\<lparr>ch_notePool := np\<rparr>)
        in do {
          key \<leftarrow> get_Note_Key (event_at i c);
          parent \<leftarrow> get_Note_ParentNoteID (event_at i c);
          let c = set_note n ((note_at n c)\<lparr>nb_triggerSchedTime := time, nb_hostKey := key\<rparr>) c in do {
            (ok, c) \<leftarrow> link_to_parent itNewNote n newNoteID (word_of_int parent) c;
            if \<not> ok then Some (0, c) else activate_note itNewNote n newNoteID i c } } })"

definition ScheduleNoteMicroSec :: "Event \<Rightarrow> 64 word \<Rightarrow> chan \<Rightarrow> (note_id_t \<times> chan) option" where
  "ScheduleNoteMicroSec pEvent delay c = do {
     (noteOnEventID, c) \<leftarrow> ScheduleEventMicroSec pEvent delay c;
     if noteOnEventID = 0 then Some (0, c)
     else do {
       itEvent \<leftarrow> fromID noteOnEventID (ch_pEventPool c);
       i \<leftarrow> node_of itEvent;
       LaunchNewNote i c } }"

definition IgnoreNote :: "note_id_t \<Rightarrow> chan \<Rightarrow> chan option" where
  "IgnoreNote i c = do {
     itNote \<leftarrow> fromID i (ch_notePool c);
     case node_of itNote of None \<Rightarrow> Some c
     | Some n \<Rightarrow>
       if nb_pActiveVoices (note_at n c) \<noteq> [] then Some c
       else do {
         itEvent \<leftarrow> fromID (nb_eventID (note_at n c)) (ch_pEventPool c);
         if \<not> Iterator_bool itEvent then Some c
         else do {
           c \<leftarrow> free_note itNote c;
           (_, p) \<leftarrow> list_free itEvent (ch_pEventPool c);
           Some (c\<lparr>ch_pEventPool := p\<rparr>) } } }"

definition IgnoreEventByScriptID :: "vmint \<Rightarrow> chan \<Rightarrow> chan option" where
  "IgnoreEventByScriptID i c =
     (if ScriptID_isNoteID i then IgnoreNote (ScriptID_noteID i) c else IgnoreEvent (ScriptID_eventID i) c)"

text \<open>
  \<open>ProcessNoteSynthParam\<close>: the event is applied to its note and moved to the note's key. An event that was
  not written as such a change has no such parameter.
\<close>

definition ProcessNoteSynthParam :: "Iterator \<Rightarrow> chan \<Rightarrow> chan option" where
  "ProcessNoteSynthParam itEvent c = do {
     i \<leftarrow> node_of itEvent;
     case ev_Param (event_at i c) of Param_bytes _ \<Rightarrow> None
     | Param_NoteSynth par \<Rightarrow> do {
         pNote \<leftarrow> NoteByID (sp_NoteID par) c;
         case pNote of None \<Rightarrow> Some c
         | Some n \<Rightarrow>
           if nb_hostKey (note_at n c) < 0 \<or> 128 \<le> nb_hostKey (note_at n c) then Some c
           else (let (par, ov) = process_synth_param par (nb_Override (note_at n c));
                     c = set_Override n (\<lambda>_. ov) (set_event i ((event_at i c)\<lparr>ev_Param := Param_NoteSynth par\<rparr>) c)
             in do {
               (_, _, p) \<leftarrow> moveToEndOf itEvent (keyEvents (nat (nb_hostKey (note_at n c)))) (ch_pEventPool c);
               Some (c\<lparr>ch_pEventPool := p\<rparr>) }) } }"

section \<open>Script callbacks\<close>

definition GetScriptCallbackID :: "nat \<Rightarrow> chan \<Rightarrow> script_callback_id_t option" where
  "GetScriptCallbackID i c = map_option (\<lambda>s. getID (int i) (is_pEvents s)) (ch_pScript c)"

definition ScriptCallbackByID :: "script_callback_id_t \<Rightarrow> chan \<Rightarrow> Iterator option" where
  "ScriptCallbackByID i c = do { s \<leftarrow> ch_pScript c; fromID i (is_pEvents s) }"

definition hasFreeScriptCallbacks :: "vmint \<Rightarrow> chan \<Rightarrow> bool option" where
  \<comment> \<open>the parameter of \<open>poolHasFreeElements\<close> is an \<open>int\<close>\<close>
  "hasFreeScriptCallbacks n c = do { s \<leftarrow> ch_pScript c;
     poolHasFreeElements (sint (ucast n :: 32 word)) (is_pEvents s) }"

definition ScheduleResumeOfScriptCallback :: "Iterator \<Rightarrow> sched_time_t \<Rightarrow> bool \<Rightarrow> chan \<Rightarrow> chan option" where
  "ScheduleResumeOfScriptCallback itCallback now forever c = (case node_of itCallback of None \<Rightarrow> Some c
   | Some i \<Rightarrow> do {
       e \<leftarrow> script_event i c;
       c \<leftarrow> (if forever then set_script_event i (e\<lparr>se_ignoreAllWaitCalls := True\<rparr>) c else Some c);
       s \<leftarrow> ch_pScript c;
       e \<leftarrow> script_event i c;
       if i \<notin> set (is_suspendedEvents s) then Some c
       else if se_scheduleTime e \<le> now then Some c
       else (let q = queue_erase i (is_suspendedEvents s);
                 p = set_data i (e\<lparr>se_scheduleTime := now + 1\<rparr>) (is_pEvents s)
         in Some (c\<lparr>ch_pScript := Some (s\<lparr>is_pEvents := p,
              is_suspendedEvents := queue_insert (script_time p) i q\<rparr>)\<rparr>)) })"

definition forkScriptCallback :: "bool \<Rightarrow> chan \<Rightarrow> (Iterator \<times> chan) option" where
  \<comment> \<open>the parent is \<open>m_event\<close>\<close>
  "forkScriptCallback bAutoAbort c = do {
     parent \<leftarrow> m_event c;
     if MAX_FORK_PER_SCRIPT_HANDLER \<le> countChildHandlers parent then Some (Iterator_default, c)
     else do {
       s \<leftarrow> ch_pScript c;
       (itChild, p) \<leftarrow> allocAppend 1 (is_pEvents s);
       let c = c\<lparr>ch_pScript := Some (s\<lparr>is_pEvents := p\<rparr>)\<rparr> in
       case node_of itChild of None \<Rightarrow> Some (itChild, c)
       | Some j \<Rightarrow> do {
           child \<leftarrow> ScriptEvent_forkTo bAutoAbort parent (pool_data p j);
           parentID \<leftarrow> GetScriptCallbackID (ch_m_event c) c;
           childID \<leftarrow> GetScriptCallbackID j c;
           c \<leftarrow> set_script_event j (child\<lparr>se_execCtx := forkTo (execCtx (ch_vm c)) (se_execCtx child),
                 se_parentHandlerID := parentID\<rparr>) c;
           parent \<leftarrow> addChildHandlerID childID parent;
           let (pos, cause) = Event_FragmentPos (ch_pEventGenerator c) (se_cause parent) in do {
             c \<leftarrow> set_script_event (ch_m_event c) (parent\<lparr>se_cause := cause\<rparr>) c;
             c \<leftarrow> schedule_script_event j pos 0 c;
             Some (itChild, c) } } } }"

definition abort_callback :: "nat \<Rightarrow> chan \<Rightarrow> chan option" where
  \<comment> \<open>\<open>execCtx->signalAbort()\<close> of a script event\<close>
  "abort_callback i c =
     (if i = ch_m_event c then Some (c\<lparr>ch_vm := upd_ctx signalAbort (ch_vm c)\<rparr>)
      else do { e \<leftarrow> script_event i c; set_script_event i (e\<lparr>se_execCtx := signalAbort (se_execCtx e)\<rparr>) c })"

end
