(* ===== verification/ChannelPools.thy ===== *)
theory ChannelPools
  imports EngineChannel PoolIds
begin

text \<open>
  What the operations of the engine channel need to know about pools: each operation on an element succeeds,
  keeps the pool's invariant, and leaves the elements' data alone. The number of an element may come from any ID,
  so the element need not be in use.
\<close>

definition pool_inv :: "'a Pool \<Rightarrow> nat set \<Rightarrow> (nat \<Rightarrow> nat list) \<Rightarrow> bool" where
  "pool_inv p S L \<longleftrightarrow> pool_rel p S L \<and> ids_ok p"

definition same_elements :: "'a Pool \<Rightarrow> 'a Pool \<Rightarrow> bool" where
  "same_elements p' p \<longleftrightarrow> pool_data p' = pool_data p \<and> poolsize p' = poolsize p \<and> poolsizebits p' = poolsizebits p \<and>
     reincarnationbits p' = reincarnationbits p \<and> node_reincarnation p' = node_reincarnation p"

lemma same_elementsD:
  "same_elements p' p \<Longrightarrow> pool_data p' = pool_data p" "same_elements p' p \<Longrightarrow> poolsize p' = poolsize p"
  "same_elements p' p \<Longrightarrow> poolsizebits p' = poolsizebits p"
  "same_elements p' p \<Longrightarrow> reincarnationbits p' = reincarnationbits p"
  "same_elements p' p \<Longrightarrow> node_reincarnation p' = node_reincarnation p"
  by (simp_all add: same_elements_def)

lemma same_elements_refl [simp]: "same_elements p p"
  by (simp add: same_elements_def)

lemma same_elements_trans: "same_elements p'' p' \<Longrightarrow> same_elements p' p \<Longrightarrow> same_elements p'' p"
  by (simp add: same_elements_def)

lemma ids_ok_same: "same_elements p' p \<Longrightarrow> ids_ok p \<Longrightarrow> ids_ok p'"
  by (simp add: ids_ok_def same_elements_def)

lemma link_same:
  "set_next a b p = Some p' \<Longrightarrow> same_elements p' p" "set_prev a b p = Some p' \<Longrightarrow> same_elements p' p"
  unfolding set_next_def set_prev_def same_elements_def by (cases "a = Null"; force)+

lemma list_append_same: "list_append l a p = Some p' \<Longrightarrow> same_elements p' p"
  unfolding list_append_def by (elim bind_SomeE) (blast dest: link_same intro: same_elements_trans)

lemma detach_same: "detach a p = Some p' \<Longrightarrow> same_elements p' p"
  unfolding detach_def by (elim bind_SomeE) (blast dest: link_same intro: same_elements_trans)

lemma allocAppend_same: "allocAppend l p = Some (it, p') \<Longrightarrow> same_elements p' p"
  unfolding allocAppend_def alloc_def
  by (auto simp: bind_Some_iff split: if_splits) (blast dest: detach_same list_append_same intro: same_elements_trans)

lemma moveToEndOf_same: "moveToEndOf it l p = Some (it', it'', p') \<Longrightarrow> same_elements p' p"
  unfolding moveToEndOf_def moved_def
  by (auto simp: bind_Some_iff) (blast dest: detach_same list_append_same intro: same_elements_trans)

lemma pool_inv_same: "same_elements p' p \<Longrightarrow> pool_inv p S L \<Longrightarrow> pool_rel p' S L' \<Longrightarrow> pool_inv p' S L'"
  by (simp add: pool_inv_def ids_ok_same)

lemma pool_inv_set_data [simp]: "pool_inv (set_data i x p) S L = pool_inv p S L"
  by (simp add: pool_inv_def pool_rel_def set_data_def ids_ok_def
      lists_rel_cong [of "p\<lparr>pool_data := (pool_data p)(i := x)\<rparr>" p])

lemma set_data_fields [simp]:
  "pool_data (set_data i x p) = (pool_data p)(i := x)" "poolsize (set_data i x p) = poolsize p"
  "node_reincarnation (set_data i x p) = node_reincarnation p" "poolsizebits (set_data i x p) = poolsizebits p"
  "getID k (set_data i x p) = getID k p" "set_data i y (set_data i x p) = set_data i y p"
  by (simp_all add: set_data_def getID_def)

lemma node_of_simps [simp]: "node_of \<lparr>it_current = Node i, it_fallback = f\<rparr> = Some i"
  "node_of Iterator_default = None" "Iterator_bool Iterator_default = False"
  by (simp_all add: node_of_def Iterator_default_def Iterator_bool_def)

lemma node_of_Some: "node_of it = Some i \<longleftrightarrow> it_current it = Node i"
  by (auto simp: node_of_def split: addr.splits)

lemma Iterator_bool_node: "Iterator_bool it \<longleftrightarrow> node_of it \<noteq> None"
  by (auto simp: Iterator_bool_def node_of_def split: addr.splits)

lemma pool_inv_in:
  assumes "pool_inv p S L"
  shows "freelist \<in> S" "x < poolsize p \<longleftrightarrow> (\<exists>m \<in> S. x \<in> set (L m))"
proof -
  have "pool_rel p S L" using assms by (simp add: pool_inv_def)
  then show "freelist \<in> S" by (simp add: pool_rel_def lists_rel_def)
  have "(\<Union>l \<in> S. set (L l)) = {..<poolsize p}" using \<open>pool_rel p S L\<close> by (simp add: pool_rel_def)
  then show "x < poolsize p \<longleftrightarrow> (\<exists>m \<in> S. x \<in> set (L m))" by blast
qed

lemma free_not_used:
  assumes "pool_inv p S L" "L freelist \<noteq> []" "m \<in> S" "m \<noteq> freelist"
  shows "last (L freelist) \<notin> set (L m)"
proof
  assume "last (L freelist) \<in> set (L m)"
  moreover have "lists_rel p S L" using assms(1) by (simp add: pool_inv_def pool_rel_def)
  ultimately show False using lists_relD(3) [OF _ pool_inv_in(1) [OF assms(1)], of p L m "last (L freelist)"] assms(2-4)
    last_in_set [OF assms(2)] by blast
qed

lemma poolIsEmpty_iff: "pool_inv p S L \<Longrightarrow> poolIsEmpty p \<longleftrightarrow> L freelist = []"
  using isEmpty_iff [OF pool_relD(1)] pool_inv_in(1) unfolding pool_inv_def poolIsEmpty_def by metis

lemma allocAppend_none:
  assumes "pool_inv p S L" "L freelist = []" "l \<in> S"
  obtains it where "allocAppend l p = Some (it, p)" "node_of it = None"
proof (rule that)
  show "allocAppend l p = Some (\<lparr>it_current = Begin l, it_fallback = node_prev p (Begin l)\<rparr>, p)"
    using poolIsEmpty_iff [OF assms(1)] assms(2)
    by (simp add: allocAppend_def list_begin_def Iterator_new_def get_prev_def)
qed (simp add: node_of_def)

lemma allocAppend_some:
  assumes "pool_inv p S L" "L freelist \<noteq> []" "l \<in> S" "l \<noteq> freelist"
  obtains it p' where "allocAppend l p = Some (it, p')" "it_current it = Node (last (L freelist))"
    "pool_inv p' S (L(freelist := butlast (L freelist), l := L l @ [last (L freelist)]))" "same_elements p' p"
proof -
  obtain it p' where s: "allocAppend l p = Some (it, p')" "pool_rel p' S (spec_op (Alloc_append l) L)"
    "spec_result (Alloc_append l) L (it_current it)"
    using pool_op_simulation [of p S L "Alloc_append l"] assms by (auto simp: pool_inv_def)
  show thesis by (rule that [OF s(1)]) (use s assms pool_inv_same [OF allocAppend_same [OF s(1)]] allocAppend_same [OF s(1)] in auto)
qed

lemma moveToEndOf_some:
  assumes inv: "pool_inv p S L" and x: "it_current it = Node x" "x < poolsize p" and l: "l \<in> S"
  obtains it' it'' p' where "moveToEndOf it l p = Some (it', it'', p')" "it_current it' = Node x"
    "pool_inv p' S ((remove_elem x L)(l := remove_elem x L l @ [x]))" "same_elements p' p"
proof -
  have rel: "pool_rel p S L" using inv by (simp add: pool_inv_def)
  then have lr: "lists_rel p S L" by (simp add: pool_rel_def)
  obtain m where m: "m \<in> S" "x \<in> set (L m)" using pool_inv_in(2) [OF inv] x(2) by auto
  obtain p1 where p1: "detach (Node x) p = Some p1" "lists_rel p1 S (remove_elem x L)" "poolsize p1 = poolsize p"
    by (rule detach_rel [OF lr m])
  obtain p2 where p2: "list_append l (Node x) p1 = Some p2" "pool_rel p2 S ((remove_elem x L)(l := remove_elem x L l @ [x]))"
    by (rule append_rel [OF rel m p1(2,3) l])
  obtain f where it: "it = \<lparr>it_current = Node x, it_fallback = f\<rparr>" using x(1) by (cases it) auto
  have mv: "moveToEndOf it l p = Some (\<lparr>it_current = Node x, it_fallback = node_prev p2 (Node x)\<rparr>, \<lparr>it_current = f, it_fallback = f\<rparr>, p2)"
    using p1(1) p2(1) by (simp add: moveToEndOf_def it moved_ok)
  show thesis
    by (rule that [OF mv]) (use moveToEndOf_same [OF mv] pool_inv_same [OF _ inv p2(2)] in auto)
qed

lemma ids_ok_bump: "ids_ok p \<Longrightarrow> ids_ok (bumpReincarnation i (reincarnationbits p) p)"
  by (auto simp: ids_ok_def bumpReincarnation_def int_mask_eq and.assoc)

lemma list_free_some:
  assumes inv: "pool_inv p S L" and x: "it_current it = Node x" "x < poolsize p"
  obtains it' p' where "list_free it p = Some (it', p')"
    "pool_inv p' S ((remove_elem x L)(freelist := remove_elem x L freelist @ [x]))"
    "same_elements p' (bumpReincarnation x (reincarnationbits p) p)"
proof -
  have rel: "pool_rel p S L" and ids: "ids_ok p" using inv by (simp_all add: pool_inv_def)
  then have lr: "lists_rel p S L" by (simp add: pool_rel_def)
  obtain m where m: "m \<in> S" "x \<in> set (L m)" using pool_inv_in(2) [OF inv] x(2) by auto
  obtain p1 where p1: "detach (Node x) p = Some p1" "lists_rel p1 S (remove_elem x L)" "poolsize p1 = poolsize p"
    by (rule detach_rel [OF lr m])
  let ?p1 = "bumpReincarnation x (reincarnationbits p1) p1"
  have l1: "lists_rel ?p1 S (remove_elem x L)" "poolsize ?p1 = poolsize p"
    using p1 lists_rel_cong [of ?p1 p1] by (simp_all add: bumpReincarnation_def)
  obtain p2 where p2: "list_append freelist (Node x) ?p1 = Some p2"
      "pool_rel p2 S ((remove_elem x L)(freelist := remove_elem x L freelist @ [x]))"
    by (rule append_rel [OF rel m l1 pool_inv_in(1) [OF inv]])
  have s1: "same_elements ?p1 (bumpReincarnation x (reincarnationbits p) p)"
    using detach_same [OF p1(1)] by (simp add: same_elements_def bumpReincarnation_def)
  have s2: "same_elements p2 (bumpReincarnation x (reincarnationbits p) p)"
    by (rule same_elements_trans [OF list_append_same [OF p2(1)] s1])
  have fr: "list_free it p = Some (it\<lparr>it_current := it_fallback it\<rparr>, p2)"
    using p1(1) p2(1) x(1) by (simp add: list_free_def freeToPool_def bump_at_def)
  show thesis
    by (rule that [OF fr _ s2]) (use p2(2) ids_ok_same [OF s2 ids_ok_bump [OF ids]] in \<open>simp add: pool_inv_def\<close>)
qed

lemma bumpReincarnation_fields [simp]:
  "pool_data (bumpReincarnation i b p) = pool_data p" "poolsize (bumpReincarnation i b p) = poolsize p"
  "poolsizebits (bumpReincarnation i b p) = poolsizebits p"
  "reincarnationbits (bumpReincarnation i b p) = reincarnationbits p"
  by (simp_all add: bumpReincarnation_def)

text \<open>Any number finds an element of the pool or none.\<close>

lemma fromID_total:
  obtains it where "fromID e p = Some it" "node_of it = None"
  | it i where "fromID e p = Some it" "it_current it = Node i" "i < poolsize p"
  by (cases "fromID e p")
    (auto simp: fromID_def Let_def Iterator_new_def get_prev_def not_le node_of_def Iterator_default_def split: if_splits)

lemma fromID_same:
  assumes "pool_inv p S L" "i < poolsize p" "poolsize p' = poolsize p" "poolsizebits p' = poolsizebits p"
    "node_reincarnation p' i = node_reincarnation p i"
  obtains it where "fromID (getID (int i) p) p' = Some it" "it_current it = Node i" "getID (int i) p \<noteq> 0"
  using fromID_getID [of p i p'] assms by (simp add: pool_inv_def)

lemma has_free_loop_total:
  assumes "links p (map Node xs @ [End freelist])" "it_current it = hd (map Node xs @ [End freelist])"
  shows "has_free_loop it n p \<noteq> None"
  using assms
proof (induction xs arbitrary: it n)
  case Nil
  then show ?case by (subst has_free_loop.simps) simp
next
  case (Cons x xs)
  let ?it = "\<lparr>it_current = node_next p (Node x), it_fallback = Node x\<rparr>"
  have n: "node_next p (Node x) = hd (map Node xs @ [End freelist])" "links p (map Node xs @ [End freelist])"
    using Cons.prems(1) by (cases xs; simp)+
  have "has_free_loop ?it (n - 1) p \<noteq> None" by (rule Cons.IH [OF n(2)]) (simp add: n(1))
  then show ?case using Cons.prems(2)
    by (subst has_free_loop.simps) (simp add: Iterator_increment_def get_next_def)
qed

lemma poolHasFreeElements_total:
  assumes "pool_inv p S L" shows "poolHasFreeElements n p \<noteq> None"
proof -
  have l: "links p (path freelist (L freelist))"
    using assms pool_relD(1) pool_inv_in(1) unfolding pool_inv_def by metis
  have hd: "node_next p (Begin freelist) = hd (map Node (L freelist) @ [End freelist])"
      "links p (map Node (L freelist) @ [End freelist])"
    using l by (cases "L freelist"; simp add: path_def)+
  let ?it = "\<lparr>it_current = node_next p (Begin freelist), it_fallback = node_prev p (node_next p (Begin freelist))\<rparr>"
  have "node_next p (Begin freelist) \<noteq> Null" using hd(1) by (cases "L freelist") auto
  then have "list_first freelist p = Some ?it"
    by (simp add: list_first_def Iterator_new_def get_prev_def)
  then show ?thesis using has_free_loop_total [OF hd(2), of ?it n] hd(1)
    by (auto simp: poolHasFreeElements_def)
qed

end
