(* ===== verification/ChannelInv.thy ===== *)
theory ChannelInv
  imports ChannelPools VMCells
begin

text \<open>
  The invariant of an engine channel that runs a script, and that scheduling, launching and dropping of events
  and notes succeed and keep it.
\<close>

section \<open>Invariant\<close>

definition bytes_event :: "Event \<Rightarrow> bool" where
  "bytes_event e \<longleftrightarrow> (\<exists>bs. ev_Param e = Param_bytes bs \<and> length bs = 32)"

definition note_ok :: "NoteBase \<Rightarrow> bool" where
  "note_ok x \<longleftrightarrow> bytes_event (nb_cause x) \<and> 0 \<le> nb_hostKey x \<and> nb_hostKey x < 128 \<and> length (nb_userPar x) = 4"

definition script_event_ok :: "ScriptEvent \<Rightarrow> bool" where
  "script_event_ok e \<longleftrightarrow> bytes_event (se_cause e) \<and> length (se_handlers e) = 2 \<and> se_currentHandler e < 2 \<and>
     length (se_childHandlerID e) = MAX_FORK_PER_SCRIPT_HANDLER + 1"

definition script_inv :: "InstrumentScript \<Rightarrow> bool" where
  "script_inv s \<longleftrightarrow> (\<exists>L. pool_inv (is_pEvents s) {..<130} L) \<and> (\<forall>i. script_event_ok (pool_data (is_pEvents s) i)) \<and>
     length (is_eventGroups s) = INSTR_SCRIPT_EVENT_GROUPS \<and> (\<forall>g \<in> set (is_eventGroups s). group_ok g)"

definition events_inv :: "chan \<Rightarrow> bool" where
  "events_inv c \<longleftrightarrow> (\<exists>L. pool_inv (ch_pEventPool c) {..<132} L) \<and> (\<exists>L. pool_inv (ch_schedulerNodes c) {..<2} L)"

definition keys_inv :: "chan \<Rightarrow> bool" where
  "keys_inv c \<longleftrightarrow> (\<exists>L. pool_inv (ch_pActiveKeys c) {..<3} L \<and> card {k. k < 128 \<and> \<not> ch_keyActive c k} \<le> length (L freelist))"

definition notes_inv :: "chan \<Rightarrow> bool" where
  "notes_inv c \<longleftrightarrow> (\<exists>L. pool_inv (ch_notePool c) {..<130} L) \<and> (\<forall>n. note_ok (note_at n c)) \<and>
     (\<exists>L. pool_inv (ch_noteIDPool c) {..<2 + poolsize (ch_notePool c)} L)"

definition chan_inv :: "chan \<Rightarrow> bool" where
  "chan_inv c \<longleftrightarrow> events_inv c \<and> keys_inv c \<and> notes_inv c \<and>
     (\<exists>s. ch_pScript c = Some s \<and> script_inv s \<and> ch_m_event c < poolsize (is_pEvents s))"

lemmas inv_parts = events_inv_def keys_inv_def notes_inv_def

section \<open>Events as bytes\<close>

lemma param_load_ok: "bytes_event e \<Longrightarrow> off + n \<le> 32 \<Longrightarrow> \<exists>v. param_load off n e = Some v"
  by (auto simp: bytes_event_def param_load_def)

lemma param_store_ok:
  assumes "bytes_event e" "off + n \<le> 32"
  shows "\<exists>e'. param_store off n k e = Some e' \<and> bytes_event e' \<and> ev_Type e' = ev_Type e \<and> ev_TimeStamp e' = ev_TimeStamp e \<and>
    ev_iFragmentPos e' = ev_iFragmentPos e \<and> param_load off n e' = Some (k mod 256 ^ n) \<and>
    (\<forall>off' n'. off' + n' \<le> off \<or> off + n \<le> off' \<longrightarrow> param_load off' n' e' = param_load off' n' e)"
proof -
  obtain bs where bs: "ev_Param e = Param_bytes bs" "length bs = 32" using assms(1) by (auto simp: bytes_event_def)
  let ?bs = "take off bs @ le_bytes n k @ drop (off + n) bs"
  have len: "length ?bs = 32" using bs assms(2) by simp
  have low: "take n' (drop off' ?bs) = take n' (drop off' bs)" if "off' + n' \<le> off" for off' n'
    using that bs assms(2) by (intro nth_equalityI) (auto simp: nth_append)
  have high: "take n' (drop off' ?bs) = take n' (drop off' bs)" if "off + n \<le> off'" for off' n'
    using that bs assms(2) by (auto simp: drop_append)
  have self: "take n (drop off ?bs) = le_bytes n k" using bs assms(2) by simp
  show ?thesis using bs assms(2) len low high self
    by (auto simp: param_store_def param_load_def bytes_event_def le_int_le_bytes)
qed

lemma param_load_range: "param_load off n e = Some v \<Longrightarrow> 0 \<le> v \<and> v < 256 ^ n"
proof (cases "ev_Param e")
  case (Param_bytes bs)
  assume "param_load off n e = Some v"
  then have v: "v = le_int (take n (drop off bs))" "length (take n (drop off bs)) = n"
    using Param_bytes by (auto simp: param_load_def split: if_splits)
  have "le_int (take n (drop off bs)) = le_int (le_bytes n (le_int (take n (drop off bs))))"
    using le_bytes_le_int [of "take n (drop off bs)"] v(2) by simp
  then show ?thesis using v by (simp add: le_int_le_bytes) (metis pos_mod_bound pos_mod_sign zero_less_numeral zero_less_power)
qed (simp add: param_load_def)

lemma bytes_event_simps [simp]:
  "bytes_event (Event_Init e)" "bytes_event (e\<lparr>ev_Type := t\<rparr>) = bytes_event e"
  "bytes_event (e\<lparr>ev_iFragmentPos := f\<rparr>) = bytes_event e" "bytes_event (Event_CopyTimeFrom d e) = bytes_event e"
  by (auto simp: bytes_event_def Event_Init_def Event_CopyTimeFrom_def)

lemma Event_FragmentPos_cases:
  obtains f where "Event_FragmentPos g e = (f, e\<lparr>ev_iFragmentPos := f\<rparr>)" "0 \<le> sint f"
proof (cases "0 \<le> sint (ev_iFragmentPos e)")
  case True
  then show thesis using that [of "ev_iFragmentPos e"] by (simp add: Event_FragmentPos_def)
next
  case False
  define p where "p = (if sint (ToFragmentPos (ev_TimeStamp e) g) < 0 then 0 else ToFragmentPos (ev_TimeStamp e) g)"
  have "0 \<le> sint p" by (simp add: p_def)
  then show thesis using that [of p] False by (simp add: Event_FragmentPos_def p_def Let_def)
qed

section \<open>Scheduling\<close>

text \<open>Scheduling changes the events and the scheduler's nodes and queue only.\<close>

lemma ScheduledEvent_set:
  fixes x :: ScheduledEvent
  shows "x\<lparr>sd_itEvent := it, sd_scheduleTime := t\<rparr> = \<lparr>sd_scheduleTime = t, sd_itEvent = it\<rparr>"
  by (cases x) simp

lemma ScheduleEventMicroSec_full:
  assumes E: "pool_inv (ch_pEventPool c) {..<132} E" and N: "pool_inv (ch_schedulerNodes c) {..<2} N"
    and full: "E freelist = [] \<or> N freelist = []"
  obtains p where "ScheduleEventMicroSec e d c = Some (0, c\<lparr>ch_pEventPool := p\<rparr>)"
    "\<exists>E'. pool_inv p {..<132} E'" "pool_data p = pool_data (ch_pEventPool c)"
proof (cases "E freelist = []")
  case True
  obtain it where "allocAppend pEvents (ch_pEventPool c) = Some (it, ch_pEventPool c)" "node_of it = None"
    by (rule allocAppend_none [OF E True, of pEvents]) auto
  then show thesis using that [of "ch_pEventPool c"] E by (auto simp: ScheduleEventMicroSec_def Iterator_bool_node)
next
  case False
  then have N0: "N freelist = []" using full by simp
  obtain it p where p: "allocAppend pEvents (ch_pEventPool c) = Some (it, p)" "it_current it = Node (last (E freelist))"
      "pool_inv p {..<132} (E(freelist := butlast (E freelist), pEvents := E pEvents @ [last (E freelist)]))"
      "same_elements p (ch_pEventPool c)"
    by (rule allocAppend_some [OF E False, of pEvents]) (auto simp: freelist_def)
  obtain itn where q: "allocAppend 1 (ch_schedulerNodes c) = Some (itn, ch_schedulerNodes c)" "node_of itn = None"
    by (rule allocAppend_none [OF N N0, of 1]) auto
  have x: "last (E freelist) < poolsize p"
    unfolding pool_inv_in(2) [OF p(3)] by (intro bexI [of _ pEvents]) (auto simp: freelist_def)
  obtain it' p' where f: "list_free it p = Some (it', p')" "\<exists>E'. pool_inv p' {..<132} E'"
      "same_elements p' (bumpReincarnation (last (E freelist)) (reincarnationbits p) p)"
    using list_free_some [OF p(3,2) x] by metis
  have b: "Iterator_bool it" "\<not> Iterator_bool itn" using p(2) q(2) by (simp_all add: Iterator_bool_node node_of_def)
  have "ScheduleEventMicroSec e d c = Some (0, c\<lparr>ch_pEventPool := p'\<rparr>)"
    using p(1) b q(1) f(1) by (simp add: ScheduleEventMicroSec_def)
  then show thesis by (rule that) (use f p(4) in \<open>auto simp: same_elements_def\<close>)
qed

lemma ScheduleEventMicroSec_ok:
  assumes E: "pool_inv (ch_pEventPool c) {..<132} E" and N: "pool_inv (ch_schedulerNodes c) {..<2} N"
    and room: "E freelist \<noteq> []" "N freelist \<noteq> []"
  defines "i \<equiv> last (E freelist)" and "n \<equiv> last (N freelist)"
  obtains p q it f where
    "ScheduleEventMicroSec e d c = Some (getID (int i) p,
       c\<lparr>ch_pEventPool := p, ch_schedulerNodes := q, ch_queue := queue_insert (event_time q) n (ch_queue c)\<rparr>)"
    "\<exists>E'. pool_inv p {..<132} E' \<and> E' freelist = butlast (E freelist) \<and> E' pEvents = E pEvents \<and> set (E' delayedList) = insert i (set (E delayedList))"
    "\<exists>N'. pool_inv q {..<2} N' \<and> N' freelist = butlast (N freelist) \<and> N' 1 = N 1 @ [n]"
    "i < poolsize p" "n < poolsize q" "poolsize p = poolsize (ch_pEventPool c)" "poolsize q = poolsize (ch_schedulerNodes c)"
    "node_reincarnation p = node_reincarnation (ch_pEventPool c)" "poolsizebits p = poolsizebits (ch_pEventPool c)"
    "reincarnationbits p = reincarnationbits (ch_pEventPool c)"
    "0 \<le> sint f" "pool_data p = (pool_data (ch_pEventPool c))(i := e\<lparr>ev_iFragmentPos := f\<rparr>)"
    "fst (Event_FragmentPos (ch_pEventGenerator c) e) = f"
    "pool_data q = (pool_data (ch_schedulerNodes c))(n := \<lparr>sd_scheduleTime = schedule_time f d (ch_pEventGenerator c), sd_itEvent = it\<rparr>)"
    "it_current it = Node i"
proof -
  let ?E1 = "E(freelist := butlast (E freelist), pEvents := E pEvents @ [i])"
  let ?N1 = "N(freelist := butlast (N freelist), 1 := N 1 @ [n])"
  obtain it p where p: "allocAppend pEvents (ch_pEventPool c) = Some (it, p)" "it_current it = Node i"
      "pool_inv p {..<132} ?E1" "same_elements p (ch_pEventPool c)"
    unfolding i_def by (rule allocAppend_some [OF E room(1), of pEvents]) (auto simp: freelist_def)
  obtain itn q where q: "allocAppend 1 (ch_schedulerNodes c) = Some (itn, q)" "it_current itn = Node n"
      "pool_inv q {..<2} ?N1" "same_elements q (ch_schedulerNodes c)"
    unfolding n_def by (rule allocAppend_some [OF N room(2), of 1]) (auto simp: freelist_def)
  have i: "i < poolsize p"
    unfolding pool_inv_in(2) [OF p(3)] by (intro bexI [of _ pEvents]) (auto simp: freelist_def)
  have n: "n < poolsize q"
    unfolding pool_inv_in(2) [OF q(3)] by (intro bexI [of _ 1]) (auto simp: freelist_def)
  have pi: "pool_inv (set_data i e p) {..<132} ?E1" using p(3) by simp
  obtain it1 it2 p2 where m: "moveToEndOf it delayedList (set_data i e p) = Some (it1, it2, p2)" "it_current it1 = Node i"
      "pool_inv p2 {..<132} ((remove_elem i ?E1)(delayedList := remove_elem i ?E1 delayedList @ [i]))"
      "same_elements p2 (set_data i e p)"
    by (rule moveToEndOf_some [OF pi p(2), of delayedList]) (use i in auto)
  have lr: "lists_rel (ch_pEventPool c) {..<132} E" using E by (simp add: pool_inv_def pool_rel_def)
  have "i \<notin> set (E pEvents)" unfolding i_def by (rule free_not_used [OF E room(1)]) (simp_all add: freelist_def)
  then have ev: "remove_elem i ?E1 pEvents = E pEvents" by (auto simp: remove_elem_def freelist_def intro!: filter_True)
  have "i \<notin> set (butlast (E freelist))"
    using lists_relD(2) [OF lr, of freelist] room(1) unfolding i_def freelist_def
    by (metis append_butlast_last_id butlast.simps(1) distinct_butlast last_snoc lessThan_iff not_distinct_conv_prefix zero_less_numeral)
  then have fr: "remove_elem i ?E1 freelist = butlast (E freelist)"
    by (auto simp: remove_elem_def freelist_def intro!: filter_True)
  obtain f where f: "Event_FragmentPos (ch_pEventGenerator c) e = (f, e\<lparr>ev_iFragmentPos := f\<rparr>)" "0 \<le> sint f"
    by (rule Event_FragmentPos_cases)
  let ?g = "ch_pEventGenerator c"
  let ?q = "set_data n \<lparr>sd_scheduleTime = schedule_time f d ?g, sd_itEvent = it1\<rparr> q"
  let ?p = "set_data i (e\<lparr>ev_iFragmentPos := f\<rparr>) p2"
  note sp = same_elementsD [OF p(4)] and sq = same_elementsD [OF q(4)] and s2 = same_elementsD [OF m(4)]
  have res: "ScheduleEventMicroSec e d c = Some (getID (int i) ?p,
      c\<lparr>ch_pEventPool := ?p, ch_schedulerNodes := ?q, ch_queue := queue_insert (event_time ?q) n (ch_queue c)\<rparr>)"
    using p(1,2) q(1,2) m(1,2) s2(1) f(1)
    by (simp add: ScheduleEventMicroSec_def Iterator_bool_node node_of_Some [THEN iffD2] schedule_event_node_def Let_def)
      (simp add: set_data_def ScheduledEvent_set cong: if_cong)
  show thesis
  proof (rule that [OF res])
    show "\<exists>E'. pool_inv ?p {..<132} E' \<and> E' freelist = butlast (E freelist) \<and> E' pEvents = E pEvents \<and> set (E' delayedList) = insert i (set (E delayedList))"
      using m(3) fr ev by (intro exI [of _ "(remove_elem i ?E1)(delayedList := remove_elem i ?E1 delayedList @ [i])"])
        (auto simp: freelist_def)
    show "\<exists>N'. pool_inv ?q {..<2} N' \<and> N' freelist = butlast (N freelist) \<and> N' 1 = N 1 @ [n]"
      using q(3) by (intro exI [of _ ?N1]) (auto simp: freelist_def)
    show "pool_data ?p = (pool_data (ch_pEventPool c))(i := e\<lparr>ev_iFragmentPos := f\<rparr>)" using s2(1) sp(1) by simp
    show "reincarnationbits ?p = reincarnationbits (ch_pEventPool c)"
      using s2(4) sp(4) by (simp add: set_data_def)
  qed (use i n f m(2) sp sq s2 in auto)
qed

lemma schedule_total:
  assumes "events_inv c"
  obtains i p q w where "ScheduleEventMicroSec e d c = Some (i, c\<lparr>ch_pEventPool := p, ch_schedulerNodes := q, ch_queue := w\<rparr>)"
    "(\<exists>E. pool_inv p {..<132} E) \<and> (\<exists>N. pool_inv q {..<2} N)"
    "i \<noteq> 0 \<longrightarrow> (\<exists>k it f. fromID i p = Some it \<and> it_current it = Node k \<and> k < poolsize p \<and> pool_data p k = e\<lparr>ev_iFragmentPos := f\<rparr>)"
proof -
  obtain E N where E: "pool_inv (ch_pEventPool c) {..<132} E" and N: "pool_inv (ch_schedulerNodes c) {..<2} N"
    using assms by (auto simp: events_inv_def)
  show thesis
  proof (cases "E freelist = [] \<or> N freelist = []")
    case True
    obtain p where p: "ScheduleEventMicroSec e d c = Some (0, c\<lparr>ch_pEventPool := p\<rparr>)" "\<exists>E'. pool_inv p {..<132} E'"
      using ScheduleEventMicroSec_full [OF E N True] by metis
    show thesis
      by (rule that [where i = 0 and p = p and q = "ch_schedulerNodes c" and w = "ch_queue c"]) (use p N in auto)
  next
    case False
    then have r: "E freelist \<noteq> []" "N freelist \<noteq> []" by auto
    let ?i = "last (E freelist)"
    show thesis
      by (rule ScheduleEventMicroSec_ok [OF E N r, of e d])
        (rule that, assumption, blast, metis fromID_same fun_upd_same)
  qed
qed

end
