(* ===== verification/ScriptFunctions.thy ===== *)
theory ScriptFunctions
  imports EngineChannel CoreFunctions
begin

text \<open>
  Built-in functions of instrument scripts about events, notes, marks and callbacks:
  \<open>src/src/engines/common/InstrumentScriptVMFunctions.cpp\<close>, first and last part. A function takes its
  arguments and the engine channel and gives its result object, which the code writes into the bound object.
  The result of \<open>by_marks()\<close> refers to the group by its number; using it as the argument of another function
  is not modelled.
\<close>

section \<open>Arguments and results\<close>

datatype fn_result = Res VMFnResult | ByMarksRes StmtFlags_t "nat option"

type_synonym script_fn = "node list \<Rightarrow> chan \<Rightarrow> (fn_result \<times> chan) option"

definition empty_success :: "chan \<Rightarrow> (fn_result \<times> chan) option" where
  "empty_success c = Some (Res (VMEmptyResult STMT_SUCCESS), c)"

definition empty_error :: "chan \<Rightarrow> (fn_result \<times> chan) option" where
  "empty_error c = Some (Res (VMEmptyResult error_flags), c)"

definition int_success :: "vmint \<Rightarrow> chan \<Rightarrow> (fn_result \<times> chan) option" where
  "int_success v c = Some (Res (VMIntResult STMT_SUCCESS v VM_NO_FACTOR VM_NO_UNIT), c)"

definition int_error :: "vmint \<Rightarrow> chan \<Rightarrow> (fn_result \<times> chan) option" where
  "int_error v c = Some (Res (VMIntResult error_flags v VM_NO_FACTOR VM_NO_UNIT), c)"

definition int_arg :: "node list \<Rightarrow> nat \<Rightarrow> chan \<Rightarrow> (vmint \<times> chan) option" where
  \<comment> \<open>\<open>args->arg(k)->asInt()->evalInt()\<close>\<close>
  "int_arg args k c = do { e \<leftarrow> arg_asInt args k; ev (evalInt e) c }"

definition opt_int_arg :: "node list \<Rightarrow> nat \<Rightarrow> vmint \<Rightarrow> chan \<Rightarrow> (vmint \<times> chan) option" where
  \<comment> \<open>with a default for a missing argument\<close>
  "opt_int_arg args k d c = (if k < length args then int_arg args k c else Some (d, c))"

definition time_arg :: "node list \<Rightarrow> nat \<Rightarrow> chan \<Rightarrow> (vmint \<times> chan) option" where
  \<comment> \<open>microseconds, whether a unit is given or not\<close>
  "time_arg args k c = do {
     e \<leftarrow> arg_asNumber args k;
     if unitType e \<noteq> VM_NO_UNIT then ev (evalCastInt_prefix e VM_MICRO) c else ev (evalCastInt e) c }"

definition now_event :: "Event_type_t \<Rightarrow> chan \<Rightarrow> Event option" where
  \<comment> \<open>a copy of \<open>m_event->cause\<close>, for its time, that is initialized\<close>
  "now_event type c = do { m \<leftarrow> m_event c; Some ((Event_Init (se_cause m))\<lparr>ev_Type := type\<rparr>) }"

definition note_is_new :: "nat \<Rightarrow> chan \<Rightarrow> bool option" where
  \<comment> \<open>\<open>m_event->scheduleTime == pNote->triggerSchedTime\<close>\<close>
  "note_is_new n c = do { m \<leftarrow> m_event c; Some (se_scheduleTime m = nb_triggerSchedTime (note_at n c)) }"

definition schedule :: "Event \<Rightarrow> 64 word \<Rightarrow> chan \<Rightarrow> chan option" where
  "schedule e delay c = map_option snd (ScheduleEventMicroSec e delay c)"

text \<open>
  The first argument of most functions is a note ID or an array of them: a single ID that is none is warned
  about, others in an array are skipped. \<open>f\<close> is done for each note that is alive.
\<close>

definition for_note_id :: "(note_id_t \<Rightarrow> nat \<Rightarrow> chan \<Rightarrow> chan option) \<Rightarrow> vmint \<Rightarrow> chan \<Rightarrow> chan option" where
  "for_note_id f i c = do {
     pNote \<leftarrow> NoteByID (ScriptID_noteID i) c;
     case pNote of None \<Rightarrow> Some c | Some n \<Rightarrow> f (ScriptID_noteID i) n c }"

partial_function (option) for_ids_from ::
    "(vmint \<Rightarrow> chan \<Rightarrow> chan option) \<Rightarrow> vmint array_ops \<Rightarrow> vmint \<Rightarrow> chan \<Rightarrow> chan option" where
  "for_ids_from f ids i c = Option.bind (arraySize ids (ch_vm c)) (\<lambda>n.
     if n \<le>s i then Some c
     else Option.bind (evalElement ids i (ch_vm c)) (\<lambda>x.
       Option.bind (f x c) (\<lambda>c. for_ids_from f ids (i + 1) c)))"

definition apply_to_notes ::
    "string \<Rightarrow> (note_id_t \<Rightarrow> nat \<Rightarrow> chan \<Rightarrow> chan option) \<Rightarrow> node list \<Rightarrow> chan \<Rightarrow> chan option" where
  "apply_to_notes name f args c = do {
     e \<leftarrow> nth_opt args 0;
     if exprType e = INT_EXPR then do {
       (i, c) \<leftarrow> int_arg args 0 c;
       if i = 0 then Some (msg (name @ ''(): note ID for argument 1 may not be zero'') c)
       else if \<not> ScriptID_isNoteID i then Some (msg (name @ ''(): argument 1 is not a note ID'') c)
       else for_note_id f i c }
     else if exprType e = INT_ARR_EXPR then do {
       ids \<leftarrow> asIntArray e;
       for_ids_from (\<lambda>i c. if i = 0 \<or> \<not> ScriptID_isNoteID i then Some c else for_note_id f i c) ids 0 c }
     else Some c }"

section \<open>play_note\<close>

text \<open>The sample offset of the new note, and the event that will stop it.\<close>

definition play_note_offset :: "note_id_t \<Rightarrow> node list \<Rightarrow> chan \<Rightarrow> chan option" where
  "play_note_offset i args c =
     (if length args < 3 then Some c
      else do {
        (offset, c) \<leftarrow> time_arg args 2 c;
        if 0 \<le> sint offset then do {
          pNote \<leftarrow> NoteByID i c;
          case pNote of None \<Rightarrow> Some c
          | Some n \<Rightarrow> Some (set_Override n (\<lambda>ov. ov\<lparr>ov_SampleOffset := ucast offset\<rparr>) c) }
        else if sint offset < - 1
        then Some (msg ''play_note(): sample offset of argument 3 may not be less than -1'' c)
        else Some c })"

definition play_note_stop :: "note_id_t \<Rightarrow> vmint \<Rightarrow> Event \<Rightarrow> chan \<Rightarrow> chan option" where
  "play_note_stop i duration e c =
     (if i \<noteq> 0 \<and> 0 < sint duration then do {
        e \<leftarrow> set_Note_ID (uint i) (e\<lparr>ev_Type := type_stop_note\<rparr>);
        e \<leftarrow> set_Note_Velocity 127 e;
        schedule e duration c }
      else Some c)"

text \<open>
  A duration of -1 makes the new note a child of the note that the handler is for; \<open>None\<close> inside tells that
  the parent is gone.
\<close>

definition play_note_parent :: "Event \<Rightarrow> chan \<Rightarrow> Event option option" where
  "play_note_parent e c = do {
     m \<leftarrow> m_event c;
     parent \<leftarrow> get_Note_ID (se_cause m);
     e \<leftarrow> set_Note_ParentNoteID parent e;
     pParentNote \<leftarrow> NoteByID (word_of_int parent) c;
     Some (if pParentNote = None then None else Some e) }"

definition play_note_event :: "vmint \<Rightarrow> vmint \<Rightarrow> chan \<Rightarrow> Event option" where
  "play_note_event note velocity c = do {
     e \<leftarrow> now_event type_play_note c;
     e \<leftarrow> set_Note_Key (sint note) e;
     set_Note_Velocity (sint velocity) e }"

definition play_note_schedule :: "Event \<Rightarrow> vmint \<Rightarrow> script_fn" where
  "play_note_schedule e duration args c = do {
     (i, c) \<leftarrow> ScheduleNoteMicroSec e 0 c;
     c \<leftarrow> play_note_offset i args c;
     c \<leftarrow> play_note_stop i duration e c;
     int_success (ScriptID_fromNoteID i) c }"

definition play_note :: script_fn where
  "play_note args c = do {
     (note, c) \<leftarrow> int_arg args 0 c;
     (velocity, c) \<leftarrow> opt_int_arg args 1 127 c;
     (duration, c) \<leftarrow> (if 4 \<le> length args then time_arg args 3 c else Some (0, c));
     if sint note < 0 \<or> 127 < sint note then int_error 0 (msg ''play_note(): argument 1 is an invalid note number'' c)
     else if sint velocity < 0 \<or> 127 < sint velocity
     then int_error 0 (msg ''play_note(): argument 2 is an invalid velocity value'' c)
     else if sint duration < - 2
     then int_error 0 (msg ''play_note(): argument 4 must be a duration value of at least -2 or higher'' c)
     else do {
       e \<leftarrow> play_note_event note velocity c;
       if duration = - 1 then
         (if ch_currentHandlerType c \<noteq> VM_EVENT_HANDLER_NOTE
          then int_error 0 (msg ''play_note(): -1 for argument 4 may only be used for note event handlers'' c)
          else do {
            parent \<leftarrow> play_note_parent e c;
            case parent of None \<Rightarrow> int_success 0 c | Some e \<Rightarrow> play_note_schedule e duration args c })
       else play_note_schedule e duration args c } }"

section \<open>set_controller, set_rpn, set_nrpn\<close>

definition CTRL_TABLE_IDX_AFTERTOUCH :: nat where "CTRL_TABLE_IDX_AFTERTOUCH = 128"
definition CTRL_TABLE_IDX_PITCHBEND :: nat where "CTRL_TABLE_IDX_PITCHBEND = 129"

definition schedule_result :: "Event \<Rightarrow> chan \<Rightarrow> (fn_result \<times> chan) option" where
  "schedule_result e c = do {
     (i, c) \<leftarrow> ScheduleEventMicroSec e 0 c;
     int_success (ScriptID_fromEventID i) c }"

definition set_controller :: script_fn where
  "set_controller args c = do {
     (controller, c) \<leftarrow> int_arg args 0 c;
     (val, c) \<leftarrow> int_arg args 1 c;
     if controller = of_nat CTRL_TABLE_IDX_AFTERTOUCH then do {
       e \<leftarrow> now_event type_channel_pressure c;
       e \<leftarrow> set_ChannelPressure_Value (uint (val AND 127)) e;
       schedule_result e c }
     else if controller = of_nat CTRL_TABLE_IDX_PITCHBEND then do {
       e \<leftarrow> now_event type_pitchbend c;
       e \<leftarrow> set_Pitch_Pitch (sint val) e;
       schedule_result e c }
     else if 0 \<le> sint controller \<and> sint controller \<le> 127 then do {
       e \<leftarrow> now_event type_control_change c;
       e \<leftarrow> set_CC_Controller (sint controller) e;
       e \<leftarrow> set_CC_Value (sint val) e;
       schedule_result e c }
     else int_error 0 (msg ''set_controller(): argument 1 is an invalid controller'' c) }"

definition set_rpn :: script_fn where
  "set_rpn args c = do {
     (parameter, c) \<leftarrow> int_arg args 0 c;
     (val, c) \<leftarrow> int_arg args 1 c;
     if sint parameter < 0 \<or> 16383 < sint parameter
     then int_error 0 (msg ''set_rpn(): argument 1 exceeds RPN parameter number range'' c)
     else if sint val < 0 \<or> 16383 < sint val
     then int_error 0 (msg ''set_rpn(): argument 2 exceeds RPN value range'' c)
     else do {
       e \<leftarrow> now_event type_rpn c;
       e \<leftarrow> set_RPN_Parameter (sint parameter) e;
       e \<leftarrow> set_RPN_Value (sint val) e;
       schedule_result e c } }"

definition set_nrpn :: script_fn where
  "set_nrpn args c = do {
     (parameter, c) \<leftarrow> int_arg args 0 c;
     (val, c) \<leftarrow> int_arg args 1 c;
     if sint parameter < 0 \<or> 16383 < sint parameter
     then int_error 0 (msg ''set_nrpn(): argument 1 exceeds NRPN parameter number range'' c)
     else if sint val < 0 \<or> 16383 < sint val
     then int_error 0 (msg ''set_nrpn(): argument 2 exceeds NRPN value range'' c)
     else do {
       e \<leftarrow> now_event type_nrpn c;
       e \<leftarrow> set_RPN_Parameter (sint parameter) e;
       e \<leftarrow> set_RPN_Value (sint val) e;
       schedule_result e c } }"

section \<open>ignore_event, ignore_controller, note_off\<close>

definition ignore_event :: script_fn where
  "ignore_event args c =
     (if length args = 0 then do { m \<leftarrow> m_event c; c \<leftarrow> IgnoreEventByScriptID (se_id m) c; empty_success c }
      else do {
        e \<leftarrow> nth_opt args 0;
        if exprType e = INT_EXPR then do {
          (i, c) \<leftarrow> int_arg args 0 c;
          if i = 0 then empty_success (msg ''ignore_event(): event ID argument may not be zero'' c)
          else do { c \<leftarrow> IgnoreEventByScriptID i c; empty_success c } }
        else if exprType e = INT_ARR_EXPR then do {
          ids \<leftarrow> asIntArray e;
          c \<leftarrow> for_ids_from IgnoreEventByScriptID ids 0 c; \<comment> \<open>its index is an \<open>int\<close>\<close>
          empty_success c }
        else empty_success c })"

definition ignore_controller :: script_fn where
  "ignore_controller args c =
     (if length args = 0 then do { m \<leftarrow> m_event c; c \<leftarrow> IgnoreEventByScriptID (se_id m) c; empty_success c }
      else do {
        (i, c) \<leftarrow> int_arg args 0 c;
        if i = 0 then empty_success (msg ''ignore_controller(): event ID argument may not be zero'' c)
        else do { c \<leftarrow> IgnoreEventByScriptID i c; empty_success c } })"

definition note_off_event :: "vmint \<Rightarrow> note_id_t \<Rightarrow> nat \<Rightarrow> chan \<Rightarrow> chan option" where
  "note_off_event velocity i n c = do {
     m \<leftarrow> m_event c;
     let e = (Event_CopyTimeFrom (se_cause m) (Event_Init (nb_cause (note_at n c))))\<lparr>ev_Type := type_stop_note\<rparr> in do {
       e \<leftarrow> set_Note_ID (uint i) e;
       e \<leftarrow> set_Note_Key (nb_hostKey (note_at n c)) e;
       e \<leftarrow> set_Note_Velocity (sint velocity) e;
       schedule e 0 c } }"

definition note_off :: script_fn where
  "note_off args c = do {
     (velocity, c) \<leftarrow> opt_int_arg args 1 127 c;
     if sint velocity < 0 \<or> 127 < sint velocity
     then empty_error (msg ''note_off(): argument 2 is an invalid velocity value'' c)
     else do { c \<leftarrow> apply_to_notes ''note_off'' (note_off_event velocity) args c; empty_success c } }"

section \<open>Event marks\<close>

definition invalid_group :: "vmint \<Rightarrow> bool" where
  "invalid_group groupID \<longleftrightarrow> sint groupID < 0 \<or> int INSTR_SCRIPT_EVENT_GROUPS \<le> sint groupID"

definition update_group :: "nat \<Rightarrow> (EventGroup \<Rightarrow> EventGroup option) \<Rightarrow> chan \<Rightarrow> chan option" where
  \<comment> \<open>nothing happens without a script\<close>
  "update_group k f c = (case ch_pScript c of None \<Rightarrow> Some c
   | Some s \<Rightarrow> do {
       g \<leftarrow> nth_opt (is_eventGroups s) k;
       g \<leftarrow> f g;
       gs \<leftarrow> upd_opt (is_eventGroups s) k g;
       Some (c\<lparr>ch_pScript := Some (s\<lparr>is_eventGroups := gs\<rparr>)\<rparr>) })"

definition id_alive :: "vmint \<Rightarrow> chan \<Rightarrow> bool option" where
  "id_alive i c =
     (if ScriptID_isNoteID i then do { n \<leftarrow> NoteByID (ScriptID_noteID i) c; Some (n \<noteq> None) }
      else do { it \<leftarrow> EventByID (ScriptID_eventID i) c; Some (Iterator_bool it) })"

definition set_event_mark :: script_fn where
  "set_event_mark args c = do {
     (i, c) \<leftarrow> int_arg args 0 c;
     (groupID, c) \<leftarrow> int_arg args 1 c;
     if invalid_group groupID then empty_error (msg ''set_event_mark(): argument 2 is an invalid group id'' c)
     else do {
       alive \<leftarrow> id_alive i c;
       if \<not> alive then empty_success c
       else do {
         it \<leftarrow> EventByID i c; \<comment> \<open>what \<open>insert\<close> asks for\<close>
         c \<leftarrow> update_group (nat (sint groupID)) (EventGroup_insert (Iterator_bool it) i) c;
         empty_success c } } }"

definition delete_event_mark :: script_fn where
  "delete_event_mark args c = do {
     (i, c) \<leftarrow> int_arg args 0 c;
     (groupID, c) \<leftarrow> int_arg args 1 c;
     if invalid_group groupID then empty_error (msg ''delete_event_mark(): argument 2 is an invalid group id'' c)
     else do { c \<leftarrow> update_group (nat (sint groupID)) (EventGroup_erase i) c; empty_success c } }"

definition by_marks :: script_fn where
  "by_marks args c = do {
     (groupID, c) \<leftarrow> int_arg args 0 c;
     if invalid_group groupID
     then Some (ByMarksRes error_flags None, msg ''by_marks(): argument is an invalid group id'' c)
     else do {
       s \<leftarrow> ch_pScript c;
       Some (ByMarksRes STMT_SUCCESS (Some (nat (sint groupID))), c) } }"

definition by_marks_arraySize :: "nat \<Rightarrow> chan \<Rightarrow> vmint option" where
  "by_marks_arraySize k c = do { s \<leftarrow> ch_pScript c; g \<leftarrow> nth_opt (is_eventGroups s) k; Some (of_nat (ca_size g)) }"

definition by_marks_evalIntElement :: "nat \<Rightarrow> vmuint \<Rightarrow> chan \<Rightarrow> vmint option" where
  \<comment> \<open>\<open>operator[]\<close> does not check the index\<close>
  "by_marks_evalIntElement k i c = do { s \<leftarrow> ch_pScript c; g \<leftarrow> nth_opt (is_eventGroups s) k; nth_opt (ca_data g) (unat i) }"

section \<open>get_event_par, set_event_par\<close>

datatype event_par = EVENT_PAR_NOTE | EVENT_PAR_VELOCITY | EVENT_PAR_VOLUME | EVENT_PAR_TUNE | EVENT_PAR_USER nat

fun event_par_value :: "event_par \<Rightarrow> vmint" where \<comment> \<open>\<open>EVENT_PAR_0\<close> to \<open>EVENT_PAR_3\<close> are the last\<close>
  "event_par_value EVENT_PAR_NOTE = 1"
| "event_par_value EVENT_PAR_VELOCITY = 2"
| "event_par_value EVENT_PAR_VOLUME = 3"
| "event_par_value EVENT_PAR_TUNE = 4"
| "event_par_value (EVENT_PAR_USER k) = 1024 + of_nat k"

definition event_par_of :: "vmint \<Rightarrow> event_par option" where
  "event_par_of i = find (\<lambda>p. event_par_value p = i)
     [EVENT_PAR_NOTE, EVENT_PAR_VELOCITY, EVENT_PAR_VOLUME, EVENT_PAR_TUNE,
      EVENT_PAR_USER 0, EVENT_PAR_USER 1, EVENT_PAR_USER 2, EVENT_PAR_USER 3]"

text \<open>What the code takes from \<open>RTMath\<close> with arithmetic of type \<open>double\<close>.\<close>

record rtmath =
  rt_CentsToFreqRatioUnlimited :: "vmfloat \<Rightarrow> vmfloat"
  rt_FreqRatioToMilliCents :: "vmfloat \<Rightarrow> vmint" \<comment> \<open>\<open>vmint(RTMath::FreqRatioToCents(x) * 1000.f)\<close>\<close>

definition DecibelToLinRatio :: "clib \<Rightarrow> vmfloat \<Rightarrow> vmfloat" where
  "DecibelToLinRatio L decibel = cl_powf L (float_of_int 10) (decibel / float_of_int 20)"

definition LinRatioToDecibel :: "clib \<Rightarrow> vmfloat \<Rightarrow> vmfloat" where
  "LinRatioToDecibel L ratio = float_of_int 20 * cl_libm L Lm_log10 ratio"

definition get_event_par :: "clib \<Rightarrow> rtmath \<Rightarrow> script_fn" where
  "get_event_par L R args c = do {
     (i, c) \<leftarrow> int_arg args 0 c;
     if i = 0 then int_success 0 (msg ''get_event_par(): note ID for argument 1 may not be zero'' c)
     else if \<not> ScriptID_isNoteID i then int_success 0 (msg ''get_event_par(): argument 1 is not a note ID'' c)
     else do {
       pNote \<leftarrow> NoteByID (ScriptID_noteID i) c;
       case pNote of
         None \<Rightarrow> int_success 0 (msg ''get_event_par(): no note alive with that note ID of argument 1'' c)
       | Some n \<Rightarrow> do {
           (parameter, c) \<leftarrow> int_arg args 1 c;
           let note = note_at n c in
           case event_par_of parameter of
             Some EVENT_PAR_NOTE \<Rightarrow> do { v \<leftarrow> get_Note_Key (nb_cause note); int_success (word_of_int v) c }
           | Some EVENT_PAR_VELOCITY \<Rightarrow> do { v \<leftarrow> get_Note_Velocity (nb_cause note); int_success (word_of_int v) c }
           | Some EVENT_PAR_VOLUME \<Rightarrow> int_success (vmint_of_float
               (LinRatioToDecibel L (nn_Value (ov_norm (nb_Override note) Volume)) * float_of_int 1000)) c
           | Some EVENT_PAR_TUNE \<Rightarrow>
               int_success (rt_FreqRatioToMilliCents R (nn_Value (ov_norm (nb_Override note) Pitch))) c
           | Some (EVENT_PAR_USER k) \<Rightarrow> do { v \<leftarrow> nth_opt (nb_userPar note) k; int_success v c }
           | None \<Rightarrow> int_success 0 (msg ''get_event_par(): argument 2 is an invalid event parameter'' c) } } }"

text \<open>A note number or velocity is written both to the note and to the event that the script handles.\<close>

definition set_cause :: "(Event \<Rightarrow> Event option) \<Rightarrow> nat \<Rightarrow> chan \<Rightarrow> chan option" where
  "set_cause f n c = do {
     e \<leftarrow> f (nb_cause (note_at n c));
     m \<leftarrow> m_event c;
     e' \<leftarrow> f (se_cause m);
     set_script_event (ch_m_event c) (m\<lparr>se_cause := e'\<rparr>) (set_note n ((note_at n c)\<lparr>nb_cause := e\<rparr>) c) }"

definition set_cause_if_new :: "(Event \<Rightarrow> Event option) \<Rightarrow> string \<Rightarrow> nat \<Rightarrow> chan \<Rightarrow> chan option" where
  "set_cause_if_new f warning n c = do {
     new \<leftarrow> note_is_new n c;
     if new then set_cause f n c else Some (msg warning c) }"

definition set_event_par :: script_fn where
  "set_event_par args c = do {
     (i, c) \<leftarrow> int_arg args 0 c;
     if i = 0 then empty_success (msg ''set_event_par(): note ID for argument 1 may not be zero'' c)
     else if \<not> ScriptID_isNoteID i then empty_success (msg ''set_event_par(): argument 1 is not a note ID'' c)
     else do {
       pNote \<leftarrow> NoteByID (ScriptID_noteID i) c;
       case pNote of None \<Rightarrow> empty_success c
       | Some n \<Rightarrow> do {
           (parameter, c) \<leftarrow> int_arg args 1 c;
           (val, c) \<leftarrow> int_arg args 2 c;
           case event_par_of parameter of
             Some EVENT_PAR_NOTE \<Rightarrow>
               (if sint val < 0 \<or> 127 < sint val
                then empty_success (msg ''set_event_par(): note number of argument 3 is out of range'' c)
                else do { c \<leftarrow> set_cause_if_new (set_Note_Key (sint val))
                    ''set_event_par(): note number can only be changed when note is new'' n c; empty_success c })
           | Some EVENT_PAR_VELOCITY \<Rightarrow>
               (if sint val < 0 \<or> 127 < sint val
                then empty_success (msg ''set_event_par(): velocity of argument 3 is out of range'' c)
                else do { c \<leftarrow> set_cause_if_new (set_Note_Velocity (sint val))
                    ''set_event_par(): velocity can only be changed when note is new'' n c; empty_success c })
           | Some EVENT_PAR_VOLUME \<Rightarrow> empty_success (msg (''set_event_par(): changing volume by this function is '' @
               ''currently not supported, use change_vol() instead'') c)
           | Some EVENT_PAR_TUNE \<Rightarrow> empty_success (msg (''set_event_par(): changing tune by this function is '' @
               ''currently not supported, use change_tune() instead'') c)
           | Some (EVENT_PAR_USER k) \<Rightarrow> do {
               u \<leftarrow> upd_opt (nb_userPar (note_at n c)) k val;
               empty_success (set_note n ((note_at n c)\<lparr>nb_userPar := u\<rparr>) c) }
           | None \<Rightarrow> empty_success (msg ''set_event_par(): argument 2 is an invalid event parameter'' c) } } }"

section \<open>change_note, change_velo, change_play_pos, event_status\<close>

definition change_note :: script_fn where
  "change_note args c = do {
     (i, c) \<leftarrow> int_arg args 0 c;
     if i = 0 then empty_success (msg ''change_note(): note ID for argument 1 may not be zero'' c)
     else if \<not> ScriptID_isNoteID i then empty_success (msg ''change_note(): argument 1 is not a note ID'' c)
     else do {
       pNote \<leftarrow> NoteByID (ScriptID_noteID i) c;
       case pNote of None \<Rightarrow> empty_success c
       | Some n \<Rightarrow> do {
           (val, c) \<leftarrow> int_arg args 1 c;
           if sint val < 0 \<or> 127 < sint val
           then empty_success (msg ''change_note(): note number of argument 2 is out of range'' c)
           else do { c \<leftarrow> set_cause_if_new (set_Note_Key (sint val))
               ''change_note(): note number can only be changed when note is new'' n c; empty_success c } } } }"

definition change_velo :: script_fn where
  "change_velo args c = do {
     (i, c) \<leftarrow> int_arg args 0 c;
     if i = 0 then empty_success (msg ''change_velo(): note ID for argument 1 may not be zero'' c)
     else if \<not> ScriptID_isNoteID i then empty_success (msg ''change_velo(): argument 1 is not a note ID'' c)
     else do {
       pNote \<leftarrow> NoteByID (ScriptID_noteID i) c;
       case pNote of None \<Rightarrow> empty_success c
       | Some n \<Rightarrow> do {
           (val, c) \<leftarrow> int_arg args 1 c;
           if sint val < 0 \<or> 127 < sint val
           then empty_success (msg ''change_velo(): velocity of argument 2 is out of range'' c)
           else do { c \<leftarrow> set_cause_if_new (set_Note_Velocity (sint val))
               ''change_velo(): velocity can only be changed when note is new'' n c; empty_success c } } } }"

definition change_play_pos :: script_fn where
  "change_play_pos args c = do {
     (i, c) \<leftarrow> int_arg args 0 c;
     if i = 0 then empty_success (msg ''change_play_pos(): note ID for argument 1 may not be zero'' c)
     else if \<not> ScriptID_isNoteID i then empty_success (msg ''change_play_pos(): argument 1 is not a note ID'' c)
     else do {
       (pos, c) \<leftarrow> time_arg args 1 c;
       if sint pos < 0
       then empty_success (msg ''change_play_pos(): playback position of argument 2 may not be negative'' c)
       else do {
         c \<leftarrow> for_note_id (\<lambda>_ n c. Some (set_Override n (\<lambda>ov. ov\<lparr>ov_SampleOffset := ucast pos\<rparr>) c)) i c;
         empty_success c } } }"

definition EVENT_STATUS_INACTIVE :: vmint where "EVENT_STATUS_INACTIVE = 0"
definition EVENT_STATUS_NOTE_QUEUE :: vmint where "EVENT_STATUS_NOTE_QUEUE = 1"

definition event_status :: script_fn where
  "event_status args c = do {
     (i, c) \<leftarrow> int_arg args 0 c;
     if i = 0
     then int_success EVENT_STATUS_INACTIVE (msg ''event_status(): note ID for argument 1 may not be zero'' c)
     else if \<not> ScriptID_isNoteID i
     then int_success EVENT_STATUS_INACTIVE (msg ''event_status(): argument 1 is not a note ID'' c)
     else do {
       pNote \<leftarrow> NoteByID (ScriptID_noteID i) c;
       int_success (if pNote \<noteq> None then EVENT_STATUS_NOTE_QUEUE else EVENT_STATUS_INACTIVE) c } }"

section \<open>Callbacks: callback_status, wait, stop_wait, abort, fork\<close>

definition CALLBACK_STATUS_TERMINATED :: vmint where "CALLBACK_STATUS_TERMINATED = 0"
definition CALLBACK_STATUS_QUEUE :: vmint where "CALLBACK_STATUS_QUEUE = 1"
definition CALLBACK_STATUS_RUNNING :: vmint where "CALLBACK_STATUS_RUNNING = 2"

definition callback_status :: script_fn where
  "callback_status args c = do {
     (i, c) \<leftarrow> int_arg args 0 c;
     if i = 0 then int_success 0 (msg ''callback_status(): callback ID for argument 1 may not be zero'' c)
     else do {
       itCallback \<leftarrow> ScriptCallbackByID i c;
       case node_of itCallback of None \<Rightarrow> int_success CALLBACK_STATUS_TERMINATED c
       | Some j \<Rightarrow> int_success (if j = ch_m_event c then CALLBACK_STATUS_RUNNING else CALLBACK_STATUS_QUEUE) c } }"

definition wait_fn :: script_fn where
  "wait_fn args c = do {
     m \<leftarrow> m_event c;
     (k, s) \<leftarrow> (if se_ignoreAllWaitCalls m then VMEmptyResultFunction_successResult Fn_wait (ch_vm c)
               else CoreVMFunction_wait_exec args (ch_vm c));
     r \<leftarrow> fnResult s k;
     Some (Res r, c\<lparr>ch_vm := s\<rparr>) }"

definition stop_wait :: script_fn where
  "stop_wait args c = do {
     (i, c) \<leftarrow> int_arg args 0 c;
     if i = 0 then empty_success (msg ''stop_wait(): callback ID for argument 1 may not be zero'' c)
     else do {
       itCallback \<leftarrow> ScriptCallbackByID i c;
       if \<not> Iterator_bool itCallback then empty_success c
       else do {
         (forever, c) \<leftarrow> opt_int_arg args 1 0 c;
         m \<leftarrow> m_event c;
         c \<leftarrow> ScheduleResumeOfScriptCallback itCallback (se_scheduleTime m) (forever = 1) c;
         empty_success c } } }"

definition abort_fn :: script_fn where
  "abort_fn args c = do {
     (i, c) \<leftarrow> int_arg args 0 c;
     if i = 0 then empty_success (msg ''abort(): callback ID for argument 1 may not be zero'' c)
     else do {
       itCallback \<leftarrow> ScriptCallbackByID i c;
       case node_of itCallback of None \<Rightarrow> empty_success c
       | Some j \<Rightarrow> do { c \<leftarrow> abort_callback j c; empty_success c } } }"

text \<open>The loop of \<open>fork()\<close>: \<open>n\<close> children are left, the next one is number \<open>iChild + 1\<close>.\<close>

fun fork_children :: "bool \<Rightarrow> nat \<Rightarrow> nat \<Rightarrow> chan \<Rightarrow> (fn_result \<times> chan) option" where
  "fork_children bAutoAbort iChild 0 c = int_success 0 c"
| "fork_children bAutoAbort iChild (Suc n) c = do {
     (itChild, c) \<leftarrow> forkScriptCallback bAutoAbort c;
     case node_of itChild of None \<Rightarrow> int_error (- 1) (msg ''fork(): internal error while allocating child'' c)
     | Some j \<Rightarrow> do {
         e \<leftarrow> script_event j c;
         c \<leftarrow> set_script_event j (e\<lparr>se_forkIndex := of_nat (iChild + 1)\<rparr>) c;
         fork_children bAutoAbort (Suc iChild) n c } }"

definition fork :: script_fn where
  "fork args c = do {
     m \<leftarrow> m_event c;
     if se_forkIndex m \<noteq> 0 then do {
       c \<leftarrow> set_script_event (ch_m_event c) (m\<lparr>se_forkIndex := 0\<rparr>) c;
       int_success (scast (se_forkIndex m)) c }
     else do {
       (n, c) \<leftarrow> opt_int_arg args 0 1 c;
       (bAutoAbort, c) \<leftarrow> opt_int_arg args 1 1 c;
       m \<leftarrow> m_event c;
       if int MAX_FORK_PER_SCRIPT_HANDLER < sint (of_nat (countChildHandlers m) + n)
       then int_success (- 1) (msg ''fork(): requested amount would exceed allowed limit per event handler'' c)
       else do {
         free \<leftarrow> hasFreeScriptCallbacks n c;
         if \<not> free then int_success (- 1) (msg ''fork(): global limit of event handlers exceeded'' c)
         else fork_children (bAutoAbort \<noteq> 0) 0 (nat (sint n)) c } } }"

end
