(* ===== verification/ChannelSteps.thy ===== *)
theory ChannelSteps
  imports ChannelInv ScriptFunctions
begin

text \<open>
  The operations of the engine channel return and keep its invariant. \<open>runs m P\<close>: \<open>m\<close> returns a result for
  which \<open>P\<close> holds. An operation has a rule that reduces \<open>runs\<close> of it to what holds after it, so that the
  proof for a function follows its code.
\<close>

section \<open>Results that satisfy a postcondition\<close>

definition runs :: "'a option \<Rightarrow> ('a \<Rightarrow> bool) \<Rightarrow> bool" where
  "runs m P \<longleftrightarrow> (\<exists>x. m = Some x \<and> P x)"

named_theorems runs_rules

lemma runs_simps [simp]:
  "\<not> runs None P" "runs (Some x) P = P x" "runs (Option.bind m f) P = runs m (\<lambda>x. runs (f x) P)"
  "runs (map_option g m) P = runs m (\<lambda>x. P (g x))"
  by (auto simp: runs_def bind_Some_iff)

lemma runsI: "m = Some x \<Longrightarrow> P x \<Longrightarrow> runs m P"
  by (simp add: runs_def)

lemma runs_mono: "runs m P \<Longrightarrow> (\<And>x. P x \<Longrightarrow> Q x) \<Longrightarrow> runs m Q"
  by (auto simp: runs_def)

lemma runs_if: "(b \<Longrightarrow> runs m P) \<Longrightarrow> (\<not> b \<Longrightarrow> runs k P) \<Longrightarrow> runs (if b then m else k) P"
  by simp

lemma runs_option: "(x = None \<Longrightarrow> runs m P) \<Longrightarrow> (\<And>y. x = Some y \<Longrightarrow> runs (f y) P) \<Longrightarrow> runs (case x of None \<Rightarrow> m | Some y \<Rightarrow> f y) P"
  by (cases x) auto

section \<open>Parts of the invariant\<close>

definition script_ok :: "chan \<Rightarrow> bool" where
  "script_ok c \<longleftrightarrow> (\<exists>s. ch_pScript c = Some s \<and> script_inv s \<and> ch_m_event c < poolsize (is_pEvents s))"

lemma chan_inv_parts: "chan_inv c \<longleftrightarrow> events_inv c \<and> keys_inv c \<and> notes_inv c \<and> script_ok c"
  by (simp add: chan_inv_def script_ok_def)

text \<open>A part depends on its own fields only.\<close>

lemma events_inv_frame [simp]:
  "events_inv (c\<lparr>ch_queue := w\<rparr>) = events_inv c" "events_inv (c\<lparr>ch_notePool := np\<rparr>) = events_inv c"
  "events_inv (c\<lparr>ch_noteIDPool := ids\<rparr>) = events_inv c" "events_inv (c\<lparr>ch_pActiveKeys := k\<rparr>) = events_inv c"
  "events_inv (c\<lparr>ch_keyActive := a\<rparr>) = events_inv c" "events_inv (c\<lparr>ch_pScript := s\<rparr>) = events_inv c"
  "events_inv (c\<lparr>ch_vm := v\<rparr>) = events_inv c" "events_inv (set_note n x c) = events_inv c"
  "events_inv (set_event i e c) = events_inv c" "events_inv (set_Override n f c) = events_inv c"
  by (simp_all add: events_inv_def set_note_def set_event_def set_Override_def)

lemma keys_inv_frame [simp]:
  "keys_inv (c\<lparr>ch_queue := w\<rparr>) = keys_inv c" "keys_inv (c\<lparr>ch_notePool := np\<rparr>) = keys_inv c"
  "keys_inv (c\<lparr>ch_noteIDPool := ids\<rparr>) = keys_inv c" "keys_inv (c\<lparr>ch_pEventPool := p\<rparr>) = keys_inv c"
  "keys_inv (c\<lparr>ch_schedulerNodes := q\<rparr>) = keys_inv c" "keys_inv (c\<lparr>ch_pScript := s\<rparr>) = keys_inv c"
  "keys_inv (c\<lparr>ch_vm := v\<rparr>) = keys_inv c" "keys_inv (set_note n x c) = keys_inv c"
  "keys_inv (set_event i e c) = keys_inv c" "keys_inv (set_Override n f c) = keys_inv c"
  by (simp_all add: keys_inv_def set_note_def set_event_def set_Override_def)

lemma notes_inv_frame [simp]:
  "notes_inv (c\<lparr>ch_queue := w\<rparr>) = notes_inv c" "notes_inv (c\<lparr>ch_pActiveKeys := k\<rparr>) = notes_inv c"
  "notes_inv (c\<lparr>ch_keyActive := a\<rparr>) = notes_inv c" "notes_inv (c\<lparr>ch_pEventPool := p\<rparr>) = notes_inv c"
  "notes_inv (c\<lparr>ch_schedulerNodes := q\<rparr>) = notes_inv c" "notes_inv (c\<lparr>ch_pScript := s\<rparr>) = notes_inv c"
  "notes_inv (c\<lparr>ch_vm := v\<rparr>) = notes_inv c" "notes_inv (set_event i e c) = notes_inv c"
  by (simp_all add: notes_inv_def set_event_def)

lemma script_ok_frame [simp]:
  "script_ok (c\<lparr>ch_queue := w\<rparr>) = script_ok c" "script_ok (c\<lparr>ch_notePool := np\<rparr>) = script_ok c"
  "script_ok (c\<lparr>ch_noteIDPool := ids\<rparr>) = script_ok c" "script_ok (c\<lparr>ch_pEventPool := p\<rparr>) = script_ok c"
  "script_ok (c\<lparr>ch_schedulerNodes := q\<rparr>) = script_ok c" "script_ok (c\<lparr>ch_pActiveKeys := k\<rparr>) = script_ok c"
  "script_ok (c\<lparr>ch_keyActive := a\<rparr>) = script_ok c" "script_ok (c\<lparr>ch_vm := v\<rparr>) = script_ok c"
  "script_ok (set_note n x c) = script_ok c" "script_ok (set_event i e c) = script_ok c"
  "script_ok (set_Override n f c) = script_ok c"
  by (simp_all add: script_ok_def set_note_def set_event_def set_Override_def)

lemma vm_frame [simp]:
  "ch_vm (set_note n x c) = ch_vm c" "ch_vm (set_event i e c) = ch_vm c" "ch_vm (set_Override n f c) = ch_vm c"
  by (simp_all add: set_note_def set_event_def set_Override_def)

lemma field_frame [simp]:
  "ch_pEventPool (set_note n x c) = ch_pEventPool c" "ch_notePool (set_event i e c) = ch_notePool c"
  "ch_noteIDPool (set_event i e c) = ch_noteIDPool c" "ch_noteIDPool (set_note n x c) = ch_noteIDPool c"
  "ch_notePool (set_note n x c) = set_data n x (ch_notePool c)" "ch_pEventPool (set_event i e c) = set_data i e (ch_pEventPool c)"
  "ch_pEventGenerator (set_event i e c) = ch_pEventGenerator c" "ch_pEventGenerator (set_note n x c) = ch_pEventGenerator c"
  by (simp_all add: set_note_def set_event_def)

lemma notes_inv_set_note [simp]: "notes_inv c \<Longrightarrow> note_ok x \<Longrightarrow> notes_inv (set_note n x c)"
  by (auto simp: notes_inv_def set_note_def)

lemma notes_inv_note: "notes_inv c \<Longrightarrow> note_ok (note_at n c)"
  by (simp add: notes_inv_def)

lemma notes_inv_set_Override [simp]: "notes_inv c \<Longrightarrow> notes_inv (set_Override n f c)"
  using notes_inv_note [of c n] unfolding set_Override_def by (simp add: note_ok_def)

lemma notes_inv_pool:
  assumes "notes_inv c" "pool_inv p {..<130} L" "poolsize p = poolsize (ch_notePool c)" "pool_data p = pool_data (ch_notePool c)"
  shows "notes_inv (c\<lparr>ch_notePool := p\<rparr>)"
  using assms by (auto simp: notes_inv_def)

lemma notes_inv_ids:
  assumes "notes_inv c" "pool_inv p {..<2 + poolsize (ch_notePool c)} L"
  shows "notes_inv (c\<lparr>ch_noteIDPool := p\<rparr>)"
  using assms by (auto simp: notes_inv_def)

section \<open>Notes\<close>

lemma runs_NoteByID:
  assumes "P None" "\<And>n. n < poolsize (ch_notePool c) \<Longrightarrow> P (Some n)"
  shows "runs (NoteByID i c) P"
  by (cases rule: fromID_total [of i "ch_notePool c"])
    (use assms in \<open>auto simp: NoteByID_def runs_def node_of_Some [THEN iffD2]\<close>)

lemma runs_free_note:
  assumes "notes_inv c" "it_current it = Node n" "n < poolsize (ch_notePool c)"
    and "\<And>p. notes_inv (c\<lparr>ch_notePool := p\<rparr>) \<Longrightarrow> poolsize p = poolsize (ch_notePool c) \<Longrightarrow> P (c\<lparr>ch_notePool := p\<rparr>)"
  shows "runs (free_note it c) P"
proof -
  obtain L where "pool_inv (ch_notePool c) {..<130} L" using assms(1) by (auto simp: notes_inv_def)
  from list_free_some [OF this assms(2,3)] obtain it' p where
    "list_free it (ch_notePool c) = Some (it', p)" "\<exists>L. pool_inv p {..<130} L"
    "same_elements p (bumpReincarnation n (reincarnationbits (ch_notePool c)) (ch_notePool c))" by metis
  then show ?thesis using assms(4) [of p] notes_inv_pool [OF assms(1)]
    by (auto simp: free_note_def runs_def same_elements_def)
qed

lemma runs_free_event:
  assumes "events_inv c" "it_current it = Node n" "n < poolsize (ch_pEventPool c)"
    and "\<And>p it'. events_inv (c\<lparr>ch_pEventPool := p\<rparr>) \<Longrightarrow> P (it', p)"
  shows "runs (list_free it (ch_pEventPool c)) P"
proof -
  obtain L where "pool_inv (ch_pEventPool c) {..<132} L" using assms(1) by (auto simp: events_inv_def)
  from list_free_some [OF this assms(2,3)] obtain it' p where
    "list_free it (ch_pEventPool c) = Some (it', p)" "\<exists>L. pool_inv p {..<132} L" by metis
  then show ?thesis using assms(1,4) by (auto simp: runs_def events_inv_def)
qed

lemma runs_fromID:
  fixes P :: "Iterator \<Rightarrow> bool"
  assumes "\<And>it. node_of it = None \<Longrightarrow> P it" "\<And>it i. it_current it = Node i \<Longrightarrow> i < poolsize p \<Longrightarrow> P it"
  shows "runs (fromID e p) P"
  by (cases rule: fromID_total [of e p]) (use assms in \<open>auto simp: runs_def\<close>)

lemmas node_of_rules = Iterator_bool_node node_of_Some [THEN iffD2]

lemma runs_IgnoreEvent:
  assumes inv: "chan_inv c" and P: "\<And>c'. chan_inv c' \<Longrightarrow> ch_vm c' = ch_vm c \<Longrightarrow> P c'"
  shows "runs (IgnoreEvent i c) P"
proof (cases rule: fromID_total [of i "ch_pEventPool c"])
  case (1 it)
  then show ?thesis using inv P by (simp add: IgnoreEvent_def node_of_rules)
next
  case (2 it n)
  have "runs (list_free it (ch_pEventPool c)) (\<lambda>(_, p). P (c\<lparr>ch_pEventPool := p\<rparr>))"
    by (rule runs_free_event [OF _ 2(2,3)]) (use inv P in \<open>auto simp: chan_inv_parts\<close>)
  then show ?thesis using 2(1,2) by (simp add: IgnoreEvent_def node_of_rules case_prod_unfold)
qed

lemma runs_IgnoreNote:
  assumes inv: "chan_inv c" and P: "\<And>c'. chan_inv c' \<Longrightarrow> ch_vm c' = ch_vm c \<Longrightarrow> P c'"
  shows "runs (IgnoreNote i c) P"
proof (cases rule: fromID_total [of i "ch_notePool c"])
  case (1 it)
  then show ?thesis using inv P by (simp add: IgnoreNote_def)
next
  case (2 it k)
  have n: "notes_inv c" using inv by (simp add: chan_inv_parts)
  show ?thesis
  proof (cases rule: fromID_total [of "nb_eventID (note_at k c)" "ch_pEventPool c"])
    case (1 itE)
    then show ?thesis using 2 inv P by (simp add: IgnoreNote_def node_of_rules)
  next
    case e: (2 itE m)
    have "runs (free_note it c) (\<lambda>c. runs (list_free itE (ch_pEventPool c)) (\<lambda>(_, p). P (c\<lparr>ch_pEventPool := p\<rparr>)))"
      by (rule runs_free_note [OF n 2(2,3)], rule runs_free_event [OF _ e(2)]) (use e inv P in \<open>auto simp: chan_inv_parts\<close>)
    then show ?thesis using 2(1,2) e(1,2) inv P
      by (simp add: IgnoreNote_def node_of_rules case_prod_unfold)
  qed
qed

lemma runs_IgnoreEventByScriptID:
  assumes "chan_inv c" "\<And>c'. chan_inv c' \<Longrightarrow> ch_vm c' = ch_vm c \<Longrightarrow> P c'"
  shows "runs (IgnoreEventByScriptID i c) P"
  unfolding IgnoreEventByScriptID_def using assms by (auto intro: runs_IgnoreNote runs_IgnoreEvent)

section \<open>Events\<close>

lemma runs_param_load:
  assumes "bytes_event e" "off + n \<le> 32" "\<And>v. 0 \<le> v \<Longrightarrow> v < 256 ^ n \<Longrightarrow> P v"
  shows "runs (param_load off n e) P"
  using param_load_ok [OF assms(1,2)] param_load_range assms(3) by (auto simp: runs_def)

lemma runs_param_store:
  assumes "bytes_event e" "off + n \<le> 32" "\<And>e'. bytes_event e' \<Longrightarrow> P e'"
  shows "runs (param_store off n k e) P"
  using param_store_ok [OF assms(1,2), of k] assms(3) by (auto simp: runs_def)

lemma runs_ScheduleEventMicroSec:
  assumes inv: "chan_inv c" and P: "\<And>i c'. chan_inv c' \<Longrightarrow> ch_vm c' = ch_vm c \<Longrightarrow> P (i, c')"
  shows "runs (ScheduleEventMicroSec e d c) P"
proof -
  have "events_inv c" using inv by (simp add: chan_inv_parts)
  then obtain i p q w where s: "ScheduleEventMicroSec e d c = Some (i, c\<lparr>ch_pEventPool := p, ch_schedulerNodes := q, ch_queue := w\<rparr>)"
    "(\<exists>E. pool_inv p {..<132} E) \<and> (\<exists>N. pool_inv q {..<2} N)"
    by (rule schedule_total [of c e d]) blast
  show ?thesis unfolding s(1) runs_simps
    by (rule P) (use s(2) inv in \<open>auto simp: chan_inv_parts events_inv_def\<close>)
qed

lemma runs_schedule:
  assumes "chan_inv c" "\<And>c'. chan_inv c' \<Longrightarrow> ch_vm c' = ch_vm c \<Longrightarrow> P c'"
  shows "runs (schedule e d c) P"
  unfolding schedule_def runs_simps by (rule runs_ScheduleEventMicroSec [OF assms(1)]) (simp add: assms(2))

section \<open>New notes\<close>

lemma runs_markKeyAsActive:
  assumes inv: "keys_inv c" and key: "key < 128"
    and P: "\<And>a p. keys_inv (c\<lparr>ch_keyActive := a, ch_pActiveKeys := p\<rparr>) \<Longrightarrow> P (c\<lparr>ch_keyActive := a, ch_pActiveKeys := p\<rparr>)"
  shows "runs (markKeyAsActive key c) P"
proof (cases "ch_keyActive c key")
  case True
  then show ?thesis using P [where a = "ch_keyActive c" and p = "ch_pActiveKeys c"] inv by (simp add: markKeyAsActive_def)
next
  case False
  obtain L where L: "pool_inv (ch_pActiveKeys c) {..<3} L"
      "card {k. k < 128 \<and> \<not> ch_keyActive c k} \<le> length (L freelist)"
    using inv by (auto simp: keys_inv_def)
  have e: "{k. k < 128 \<and> \<not> ch_keyActive c k} = insert key {k. k < 128 \<and> \<not> ((ch_keyActive c)(key := True)) k}"
    using False key by auto
  have "finite {k. k < 128 \<and> \<not> ch_keyActive c k}" by simp
  then have c: "card {k. k < 128 \<and> \<not> ch_keyActive c k} = Suc (card {k. k < 128 \<and> \<not> ((ch_keyActive c)(key := True)) k})"
    unfolding e by (subst card_insert_disjoint) auto
  then have ne: "L freelist \<noteq> []" using L(2) by auto
  obtain it p where a: "allocAppend pActiveKeys (ch_pActiveKeys c) = Some (it, p)" "it_current it = Node (last (L freelist))"
      "pool_inv p {..<3} (L(freelist := butlast (L freelist), pActiveKeys := L pActiveKeys @ [last (L freelist)]))"
    by (rule allocAppend_some [OF L(1) ne, of pActiveKeys]) (auto simp: freelist_def)
  let ?c = "c\<lparr>ch_keyActive := (ch_keyActive c)(key := True), ch_pActiveKeys := set_data (last (L freelist)) key p\<rparr>"
  have "keys_inv ?c"
    using a(3) L(2) c unfolding keys_inv_def
    by (intro exI [of _ "L(freelist := butlast (L freelist), pActiveKeys := L pActiveKeys @ [last (L freelist)])"])
      (auto simp: freelist_def)
  then show ?thesis using P a(1,2) False by (simp add: markKeyAsActive_def node_of_rules)
qed

lemma note_ok_updates [simp]:
  "note_ok (x\<lparr>nb_parentNoteID := i\<rparr>) = note_ok x" "note_ok (x\<lparr>nb_triggerSchedTime := t\<rparr>) = note_ok x"
  "note_ok (x\<lparr>nb_eventID := i\<rparr>) = note_ok x" "note_ok (x\<lparr>nb_Override := ov\<rparr>) = note_ok x"
  by (simp_all add: note_ok_def)

lemma note_ok_key: "note_ok x \<Longrightarrow> 0 \<le> k \<Longrightarrow> k < 128 \<Longrightarrow> note_ok (x\<lparr>nb_hostKey := k\<rparr>)"
  by (simp add: note_ok_def)

lemma note_ok_cause: "note_ok x \<Longrightarrow> bytes_event e \<Longrightarrow> note_ok (x\<lparr>nb_cause := e\<rparr>)"
  by (simp add: note_ok_def)

lemma note_okD: "note_ok x \<Longrightarrow> bytes_event (nb_cause x)" "note_ok x \<Longrightarrow> 0 \<le> nb_hostKey x" "note_ok x \<Longrightarrow> nb_hostKey x < 128"
  "note_ok x \<Longrightarrow> length (nb_userPar x) = 4"
  by (simp_all add: note_ok_def)

text \<open>Freeing the new note, or linking it to its parent.\<close>

lemma runs_link_to_parent:
  assumes n: "notes_inv c" and it: "it_current it = Node k" "k < poolsize (ch_notePool c)"
    and P: "\<And>ok np ids. notes_inv (c\<lparr>ch_notePool := np, ch_noteIDPool := ids\<rparr>) \<Longrightarrow> poolsize np = poolsize (ch_notePool c) \<Longrightarrow>
      P (ok, c\<lparr>ch_notePool := np, ch_noteIDPool := ids\<rparr>)"
  shows "runs (link_to_parent it k i parentID c) P"
proof -
  have same: "c\<lparr>ch_notePool := np\<rparr> = c\<lparr>ch_notePool := np, ch_noteIDPool := ch_noteIDPool c\<rparr>" for np by simp
  have fr: "runs (free_note it c) (\<lambda>c'. P (ok, c'))" for ok
    by (rule runs_free_note [OF n it]) (subst same, rule P, auto)
  show ?thesis
  proof (cases "parentID = 0")
    case True
    then show ?thesis using P [where np = "ch_notePool c" and ids = "ch_noteIDPool c" and ok = True] n by (simp add: link_to_parent_def)
  next
    case False
    show ?thesis
    proof (cases rule: fromID_total [of parentID "ch_notePool c"])
      case (1 itP)
      then show ?thesis using False fr by (simp add: link_to_parent_def)
    next
      case (2 itP parent)
      obtain M where M: "pool_inv (ch_noteIDPool c) {..<2 + poolsize (ch_notePool c)} M"
        using n by (auto simp: notes_inv_def)
      show ?thesis
      proof (cases "M freelist = []")
        case True
        obtain itC where "allocAppend (childNotes parent) (ch_noteIDPool c) = Some (itC, ch_noteIDPool c)" "node_of itC = None"
          by (rule allocAppend_none [OF M True, of "childNotes parent"]) (use 2(3) in auto)
        then show ?thesis using False 2(1,2) fr by (simp add: link_to_parent_def node_of_rules)
      next
        case nonempty: False
        let ?x = "last (M freelist)"
        obtain itC ids where a: "allocAppend (childNotes parent) (ch_noteIDPool c) = Some (itC, ids)" "it_current itC = Node ?x"
            "\<exists>L. pool_inv ids {..<2 + poolsize (ch_notePool c)} L"
          by (rule allocAppend_some [OF M nonempty, of "childNotes parent"]) (use 2(3) in \<open>auto simp: freelist_def\<close>)
        let ?x = "(note_at k c)\<lparr>nb_parentNoteID := parentID, nb_hostKey := nb_hostKey (note_at parent c)\<rparr>"
        let ?c = "set_note k ?x (c\<lparr>ch_noteIDPool := set_data (last (M freelist)) i ids\<rparr>)"
        have ok: "note_ok ?x" using notes_inv_note [OF n, of k] notes_inv_note [OF n, of parent]
          by (simp add: note_ok_def)
        have c: "?c = c\<lparr>ch_notePool := set_data k ?x (ch_notePool c), ch_noteIDPool := set_data (last (M freelist)) i ids\<rparr>"
          by (simp add: set_note_def)
        obtain L where L: "pool_inv ids {..<2 + poolsize (ch_notePool c)} L" using a(3) by blast
        then have "notes_inv (c\<lparr>ch_noteIDPool := set_data (last (M freelist)) i ids\<rparr>)"
          by (intro notes_inv_ids [OF n]) simp
        then have "notes_inv ?c" using ok by simp
        then have "P (True, ?c)" unfolding c by (intro P) auto
        then show ?thesis using False 2(1,2) a(1,2) by (simp add: link_to_parent_def node_of_rules)
      qed
    qed
  qed
qed

lemma poolIsEmpty_note:
  assumes "notes_inv c" "\<not> poolIsEmpty (ch_notePool c)"
  obtains it k np where "allocAppend 1 (ch_notePool c) = Some (it, np)" "it_current it = Node k" "k < poolsize (ch_notePool c)"
    "poolsize np = poolsize (ch_notePool c)" "notes_inv (c\<lparr>ch_notePool := np\<rparr>)"
proof -
  obtain L where L: "pool_inv (ch_notePool c) {..<130} L" using assms(1) by (auto simp: notes_inv_def)
  have ne: "L freelist \<noteq> []" using poolIsEmpty_iff [OF L] assms(2) by simp
  obtain it np where a: "allocAppend 1 (ch_notePool c) = Some (it, np)" "it_current it = Node (last (L freelist))"
      "\<exists>L'. pool_inv np {..<130} L'" "same_elements np (ch_notePool c)"
    by (rule allocAppend_some [OF L ne, of 1]) (auto simp: freelist_def)
  have "last (L freelist) < poolsize (ch_notePool c)"
    unfolding pool_inv_in(2) [OF L] using ne by (intro bexI [of _ freelist]) (auto simp: freelist_def)
  then show thesis using that a notes_inv_pool [OF assms(1)] same_elementsD(1,2) [OF a(4)] by metis
qed

lemma Event_SchedTime_event:
  "\<exists>f. snd (Event_SchedTime g e) = e\<lparr>ev_iFragmentPos := f\<rparr>"
  by (cases rule: Event_FragmentPos_cases [of g e]) (auto simp: Event_SchedTime_def)

lemma param_load_pos [simp]: "param_load off n (e\<lparr>ev_iFragmentPos := f\<rparr>) = param_load off n e"
  by (simp add: param_load_def)

lemma moveToEndOf_note:
  assumes n: "notes_inv c" and it: "it_current it = Node k" "k < poolsize (ch_notePool c)" and key: "key < 128"
  obtains it1 it2 np where "moveToEndOf it (activeNotes key) (ch_notePool c) = Some (it1, it2, np)"
    "notes_inv (c\<lparr>ch_notePool := np\<rparr>)"
proof -
  obtain L where L: "pool_inv (ch_notePool c) {..<130} L" using n by (auto simp: notes_inv_def)
  obtain it1 it2 np where m: "moveToEndOf it (activeNotes key) (ch_notePool c) = Some (it1, it2, np)"
      "\<exists>L'. pool_inv np {..<130} L'" "same_elements np (ch_notePool c)"
    by (rule moveToEndOf_some [OF L it, of "activeNotes key"]) (use key in auto)
  then show thesis using that notes_inv_pool [OF n] same_elementsD(1,2) [OF m(3)] by metis
qed

lemma runs_activate_note:
  assumes inv: "chan_inv c" and it: "it_current it = Node k" "k < poolsize (ch_notePool c)"
    and e: "bytes_event (event_at i c)"
    and P: "\<And>c'. chan_inv c' \<Longrightarrow> ch_vm c' = ch_vm c \<Longrightarrow> P (newID, c')"
  shows "runs (activate_note it k newID i c) P"
proof -
  let ?x = "(note_at k c)\<lparr>nb_cause := event_at i c, nb_eventID := getID (int i) (ch_pEventPool c)\<rparr>"
  define d where "d = set_note k ?x c"
  have ok: "note_ok ?x" using inv e notes_inv_note [of c k] by (auto simp: chan_inv_parts intro: note_ok_cause)
  have d: "chan_inv d" using inv ok by (simp add: d_def chan_inv_parts)
  have x: "note_at k d = ?x" "event_at i d = event_at i c" "ch_vm d = ch_vm c" "poolsize (ch_notePool d) = poolsize (ch_notePool c)"
    by (simp_all add: d_def)
  have key: "0 \<le> nb_hostKey ?x" "nb_hostKey ?x < 128" using note_okD(2,3) [OF ok] by simp_all
  then have key': "nat (nb_hostKey ?x) < 128" by simp
  have nd: "notes_inv d" using d by (simp add: chan_inv_parts)
  obtain it1 it2 np where m: "moveToEndOf it (activeNotes (nat (nb_hostKey ?x))) (ch_notePool d) = Some (it1, it2, np)"
      "notes_inv (d\<lparr>ch_notePool := np\<rparr>)"
    by (rule moveToEndOf_note [OF nd it(1) _ key']) (use it x in simp_all)
  have "keys_inv (d\<lparr>ch_notePool := np\<rparr>)" using d by (simp add: chan_inv_parts)
  then have "runs (markKeyAsActive (nat (nb_hostKey ?x)) (d\<lparr>ch_notePool := np\<rparr>))
      (\<lambda>c. runs (set_Note_ID (uint newID) (event_at i c)) (\<lambda>e. P (newID, set_event i e c)))"
    by (rule runs_markKeyAsActive [OF _ key'], intro runs_param_store P)
      (use e x m(2) d in \<open>auto simp: chan_inv_parts\<close>)
  then show ?thesis using m(1) key x by (simp add: activate_note_def Let_def d_def [symmetric])
qed

lemma runs_LaunchNewNote:
  assumes inv: "chan_inv c" and e: "bytes_event (event_at i c)" "get_Note_Key (event_at i c) = Some key" "key < 128"
    and P: "\<And>n c'. chan_inv c' \<Longrightarrow> ch_vm c' = ch_vm c \<Longrightarrow> P (n, c')"
  shows "runs (LaunchNewNote i c) P"
proof (cases "poolIsEmpty (ch_notePool c)")
  case True
  then show ?thesis using inv P by (simp add: LaunchNewNote_def)
next
  case False
  have n: "notes_inv c" using inv by (simp add: chan_inv_parts)
  obtain it k np where a: "allocAppend 1 (ch_notePool c) = Some (it, np)" "it_current it = Node k" "k < poolsize np"
      "notes_inv (c\<lparr>ch_notePool := np\<rparr>)"
    using poolIsEmpty_note [OF n False] by metis
  obtain t f where s: "Event_SchedTime (ch_pEventGenerator c) (event_at i c) = (t, event_at i c\<lparr>ev_iFragmentPos := f\<rparr>)"
    using Event_SchedTime_event by (metis prod.exhaust_sel)
  define c1 where "c1 = set_event i (event_at i c\<lparr>ev_iFragmentPos := f\<rparr>) (c\<lparr>ch_notePool := np\<rparr>)"
  have c1: "chan_inv c1" "ch_vm c1 = ch_vm c" "event_at i c1 = event_at i c\<lparr>ev_iFragmentPos := f\<rparr>" "ch_notePool c1 = np"
      "ch_pEventPool c1 = ch_pEventPool (set_event i (event_at i c\<lparr>ev_iFragmentPos := f\<rparr>) c)"
    using inv a(4) by (simp_all add: c1_def chan_inv_parts)
  obtain parent where parent: "get_Note_ParentNoteID (event_at i c) = Some parent"
    using param_load_ok [OF e(1), of 16 8] by auto
  have key: "0 \<le> key" using param_load_range [OF e(2)] by simp
  define c2 where "c2 = set_note k ((note_at k c1)\<lparr>nb_triggerSchedTime := t, nb_hostKey := key\<rparr>) c1"
  have ok: "note_ok ((note_at k c1)\<lparr>nb_triggerSchedTime := t, nb_hostKey := key\<rparr>)"
    using c1(1) key e(3) notes_inv_note [of c1 k] by (simp add: chan_inv_parts note_ok_def)
  have c2: "chan_inv c2" "ch_vm c2 = ch_vm c" "event_at i c2 = event_at i c1" "poolsize (ch_notePool c2) = poolsize np"
    using c1 ok by (simp_all add: c2_def chan_inv_parts)
  have "runs (link_to_parent it k (getID (int k) np) (word_of_int parent) c2)
    (\<lambda>x. runs (case x of (ok, c) \<Rightarrow> if \<not> ok then Some (0, c) else activate_note it k (getID (int k) np) i c) P)"
  proof (rule runs_link_to_parent [OF _ a(2)])
    show "notes_inv c2" "k < poolsize (ch_notePool c2)" using c2 a(3) by (simp_all add: chan_inv_parts)
    fix ok np' ids
    let ?c3 = "c2\<lparr>ch_notePool := np', ch_noteIDPool := ids\<rparr>"
    assume "notes_inv ?c3" "poolsize np' = poolsize (ch_notePool c2)"
    then have c3: "chan_inv ?c3" "k < poolsize (ch_notePool ?c3)" "bytes_event (event_at i ?c3)" "ch_vm ?c3 = ch_vm c"
      using c2 a(3) c1(3) e(1) by (auto simp: chan_inv_parts events_inv_def keys_inv_def)
    have "runs (activate_note it k (getID (int k) np) i ?c3) P"
      by (rule runs_activate_note [OF c3(1) a(2) c3(2,3)]) (simp add: P c3(4))
    then show "runs (case (ok, ?c3) of (ok, c) \<Rightarrow> if \<not> ok then Some (0, c) else activate_note it k (getID (int k) np) i c) P"
      using P c3(1,4) by simp
  qed
  then show ?thesis using False a(1,2) s e(2) parent c1(3,4)
    by (simp add: LaunchNewNote_def node_of_rules c1_def [symmetric] c2_def Let_def)
qed

lemma runs_ScheduleNoteMicroSec:
  assumes inv: "chan_inv c" and e: "bytes_event e" "get_Note_Key e = Some key" "key < 128"
    and P: "\<And>n c'. chan_inv c' \<Longrightarrow> ch_vm c' = ch_vm c \<Longrightarrow> P (n, c')"
  shows "runs (ScheduleNoteMicroSec e d c) P"
proof -
  have "events_inv c" using inv by (simp add: chan_inv_parts)
  then obtain i p q w where s: "ScheduleEventMicroSec e d c = Some (i, c\<lparr>ch_pEventPool := p, ch_schedulerNodes := q, ch_queue := w\<rparr>)"
    "(\<exists>E. pool_inv p {..<132} E) \<and> (\<exists>N. pool_inv q {..<2} N)"
    "i \<noteq> 0 \<longrightarrow> (\<exists>k it f. fromID i p = Some it \<and> it_current it = Node k \<and> k < poolsize p \<and> pool_data p k = e\<lparr>ev_iFragmentPos := f\<rparr>)"
    by (rule schedule_total [of c e d]) blast
  let ?c = "c\<lparr>ch_pEventPool := p, ch_schedulerNodes := q, ch_queue := w\<rparr>"
  have c: "chan_inv ?c" "ch_vm ?c = ch_vm c" using s(2) inv by (auto simp: chan_inv_parts events_inv_def)
  show ?thesis
  proof (cases "i = 0")
    case True
    then show ?thesis using s(1) c P by (simp add: ScheduleNoteMicroSec_def)
  next
    case False
    then obtain k it f where k: "fromID i p = Some it" "it_current it = Node k" "pool_data p k = e\<lparr>ev_iFragmentPos := f\<rparr>"
      using s(3) by blast
    have "runs (LaunchNewNote k ?c) P"
      by (rule runs_LaunchNewNote [OF c(1), where key = key]) (use k e c P in auto)
    then show ?thesis using s(1) k(1,2) False by (simp add: ScheduleNoteMicroSec_def node_of_rules)
  qed
qed

section \<open>Script events\<close>

lemma script_inv_set_data:
  assumes "script_inv s" "script_event_ok e"
  shows "script_inv (s\<lparr>is_pEvents := set_data i e (is_pEvents s), is_suspendedEvents := w\<rparr>)"
  using assms by (auto simp: script_inv_def)

lemma runs_script_event:
  assumes "chan_inv c" "\<And>e. script_event_ok e \<Longrightarrow> P e"
  shows "runs (script_event i c) P"
  using assms by (auto simp: chan_inv_parts script_ok_def script_event_def script_inv_def runs_def)

lemma runs_m_event:
  assumes "chan_inv c" "\<And>e. script_event_ok e \<Longrightarrow> P e"
  shows "runs (m_event c) P"
  unfolding m_event_def using assms by (rule runs_script_event)

lemma runs_set_script_event:
  assumes "chan_inv c" "script_event_ok e" "\<And>c'. chan_inv c' \<Longrightarrow> ch_vm c' = ch_vm c \<Longrightarrow> ch_m_event c' = ch_m_event c \<Longrightarrow> P c'"
  shows "runs (set_script_event i e c) P"
proof -
  obtain s where s: "ch_pScript c = Some s" "script_inv s" "ch_m_event c < poolsize (is_pEvents s)"
    using assms(1) by (auto simp: chan_inv_parts script_ok_def)
  let ?s = "s\<lparr>is_pEvents := set_data i e (is_pEvents s)\<rparr>"
  have "script_inv ?s" using s(2) assms(2) by (auto simp: script_inv_def)
  then have "chan_inv (c\<lparr>ch_pScript := Some ?s\<rparr>)" using assms(1) s by (simp add: chan_inv_parts script_ok_def)
  then show ?thesis using s(1) assms(3) by (simp add: set_script_event_def)
qed

lemma runs_schedule_script_event:
  assumes "chan_inv c" "\<And>c'. chan_inv c' \<Longrightarrow> ch_vm c' = ch_vm c \<Longrightarrow> P c'"
  shows "runs (schedule_script_event i pos d c) P"
proof -
  obtain s where s: "ch_pScript c = Some s" "script_inv s" "ch_m_event c < poolsize (is_pEvents s)"
    using assms(1) by (auto simp: chan_inv_parts script_ok_def)
  let ?e = "(pool_data (is_pEvents s) i)\<lparr>se_scheduleTime := schedule_time pos d (ch_pEventGenerator c)\<rparr>"
  have "script_event_ok ?e" using s(2) by (simp add: script_inv_def script_event_ok_def)
  then have "script_inv (s\<lparr>is_pEvents := set_data i ?e (is_pEvents s), is_suspendedEvents := w\<rparr>)" for w
    using s(2) by (rule script_inv_set_data [rotated])
  then have "chan_inv (c\<lparr>ch_pScript := Some (s\<lparr>is_pEvents := set_data i ?e (is_pEvents s), is_suspendedEvents := w\<rparr>)\<rparr>)" for w
    using assms(1) s by (simp add: chan_inv_parts script_ok_def)
  then show ?thesis using s(1) assms(2) by (simp add: schedule_script_event_def Let_def)
qed

lemma script_event_ok_simps [simp]:
  "script_event_ok (e\<lparr>se_ignoreAllWaitCalls := b\<rparr>) = script_event_ok e"
  "script_event_ok (e\<lparr>se_scheduleTime := t\<rparr>) = script_event_ok e"
  "script_event_ok (e\<lparr>se_execCtx := x\<rparr>) = script_event_ok e"
  "script_event_ok (e\<lparr>se_forkIndex := k\<rparr>) = script_event_ok e"
  "script_event_ok (e\<lparr>se_parentHandlerID := i\<rparr>) = script_event_ok e"
  by (simp_all add: script_event_ok_def)

lemma script_event_ok_cause: "script_event_ok e \<Longrightarrow> bytes_event v \<Longrightarrow> script_event_ok (e\<lparr>se_cause := v\<rparr>)"
  "script_event_ok e \<Longrightarrow> bytes_event (se_cause e)"
  by (simp_all add: script_event_ok_def)

lemma runs_ScriptCallbackByID:
  fixes P :: "Iterator \<Rightarrow> bool"
  assumes "chan_inv c" "\<And>it. P it"
  shows "runs (ScriptCallbackByID i c) P"
  using assms(1) unfolding ScriptCallbackByID_def
  by (auto simp: chan_inv_parts script_ok_def assms(2) intro!: runs_fromID)

lemma runs_ScheduleResumeOfScriptCallback:
  assumes inv: "chan_inv c" and P: "\<And>c'. chan_inv c' \<Longrightarrow> ch_vm c' = ch_vm c \<Longrightarrow> P c'"
  shows "runs (ScheduleResumeOfScriptCallback it now forever c) P"
proof (cases "node_of it")
  case None
  then show ?thesis using inv P by (simp add: ScheduleResumeOfScriptCallback_def)
next
  case (Some i)
  have step: "runs (ch_pScript c') (\<lambda>s. runs (script_event i c') (\<lambda>e.
      runs (if i \<notin> set (is_suspendedEvents s) then Some c' else if se_scheduleTime e \<le> now then Some c'
       else (let q = queue_erase i (is_suspendedEvents s); p = set_data i (e\<lparr>se_scheduleTime := now + 1\<rparr>) (is_pEvents s)
         in Some (c'\<lparr>ch_pScript := Some (s\<lparr>is_pEvents := p, is_suspendedEvents := queue_insert (script_time p) i q\<rparr>)\<rparr>))) P))"
    if c': "chan_inv c'" "ch_vm c' = ch_vm c" for c'
  proof -
    obtain s where s: "ch_pScript c' = Some s" "script_inv s" "ch_m_event c' < poolsize (is_pEvents s)"
      using c'(1) by (auto simp: chan_inv_parts script_ok_def)
    have "script_event_ok ((pool_data (is_pEvents s) i)\<lparr>se_scheduleTime := now + 1\<rparr>)" using s(2) by (simp add: script_inv_def)
    then have "chan_inv (c'\<lparr>ch_pScript := Some (s\<lparr>is_pEvents := set_data i ((pool_data (is_pEvents s) i)\<lparr>se_scheduleTime := now + 1\<rparr>) (is_pEvents s),
        is_suspendedEvents := w\<rparr>)\<rparr>)" for w
      using script_inv_set_data [OF s(2)] s(3) c'(1) by (simp add: chan_inv_parts script_ok_def)
    then show ?thesis using s(1) P c' by (simp add: script_event_def Let_def)
  qed
  show ?thesis unfolding ScheduleResumeOfScriptCallback_def Some option.case runs_simps
  proof (rule runs_script_event [OF inv])
    fix e assume "script_event_ok e"
    then have "runs (set_script_event i (e\<lparr>se_ignoreAllWaitCalls := True\<rparr>) c) (\<lambda>c'. chan_inv c' \<and> ch_vm c' = ch_vm c)"
      by (intro runs_set_script_event [OF inv]) auto
    then have "runs (if forever then set_script_event i (e\<lparr>se_ignoreAllWaitCalls := True\<rparr>) c else Some c)
        (\<lambda>c'. chan_inv c' \<and> ch_vm c' = ch_vm c)"
      using inv by simp
    then show "runs (if forever then set_script_event i (e\<lparr>se_ignoreAllWaitCalls := True\<rparr>) c else Some c)
      (\<lambda>c. runs (ch_pScript c) (\<lambda>s. runs (script_event i c) (\<lambda>e.
        runs (if i \<notin> set (is_suspendedEvents s) then Some c else if se_scheduleTime e \<le> now then Some c
         else (let q = queue_erase i (is_suspendedEvents s); p = set_data i (e\<lparr>se_scheduleTime := now + 1\<rparr>) (is_pEvents s)
           in Some (c\<lparr>ch_pScript := Some (s\<lparr>is_pEvents := p, is_suspendedEvents := queue_insert (script_time p) i q\<rparr>)\<rparr>))) P)))"
      by (rule runs_mono) (rule step, simp_all)
  qed
qed

lemma runs_abort_callback:
  assumes inv: "chan_inv c" and P: "\<And>c'. chan_inv c' \<Longrightarrow> ch_vm c' = ch_vm c \<or> ch_vm c' = upd_ctx signalAbort (ch_vm c) \<Longrightarrow> P c'"
  shows "runs (abort_callback i c) P"
proof (cases "i = ch_m_event c")
  case True
  then show ?thesis using inv P by (simp add: abort_callback_def chan_inv_parts)
next
  case False
  have "runs (script_event i c) (\<lambda>e. runs (set_script_event i (e\<lparr>se_execCtx := signalAbort (se_execCtx e)\<rparr>) c) P)"
    by (rule runs_script_event [OF inv], rule runs_set_script_event [OF inv]) (auto intro: P)
  then show ?thesis using False by (simp add: abort_callback_def)
qed

lemma runs_hasFreeScriptCallbacks:
  assumes "chan_inv c" "\<And>b. P b"
  shows "runs (hasFreeScriptCallbacks n c) P"
proof -
  obtain s L where s: "ch_pScript c = Some s" "pool_inv (is_pEvents s) {..<130} L"
    using assms(1) by (auto simp: chan_inv_parts script_ok_def script_inv_def)
  show ?thesis using s(1) poolHasFreeElements_total [OF s(2)] assms(2) by (auto simp: hasFreeScriptCallbacks_def runs_def)
qed

lemma count_children_le: "count_children_loop k ids \<le> k"
  by (induction k ids rule: count_children_loop.induct) auto

lemma ScriptEvent_forkTo_ok:
  assumes "script_event_ok this" "script_event_ok e"
  obtains child where "ScriptEvent_forkTo b this e = Some child" "script_event_ok child"
proof -
  obtain handler where "nth_opt (se_handlers this) (se_currentHandler this) = Some handler"
    using assms(1) by (auto simp: script_event_ok_def nth_opt_def)
  then show thesis using assms that
    by (auto simp: ScriptEvent_forkTo_def script_event_ok_def upd_opt_def MAX_FORK_PER_SCRIPT_HANDLER_def)
qed

lemma runs_addChildHandlerID:
  assumes "script_event_ok e" "\<And>e'. script_event_ok e' \<Longrightarrow> P e'"
  shows "runs (addChildHandlerID i e) P"
  using assms by (auto simp: addChildHandlerID_def Let_def script_event_ok_def upd_opt_def MAX_FORK_PER_SCRIPT_HANDLER_def)

lemma runs_forkScriptCallback:
  assumes inv: "chan_inv c" and P: "\<And>it c'. chan_inv c' \<Longrightarrow> ch_vm c' = ch_vm c \<Longrightarrow> P (it, c')"
  shows "runs (forkScriptCallback b c) P"
proof -
  obtain s L where s: "ch_pScript c = Some s" "script_inv s" "ch_m_event c < poolsize (is_pEvents s)" "pool_inv (is_pEvents s) {..<130} L"
    using inv by (auto simp: chan_inv_parts script_ok_def script_inv_def)
  define parent where "parent = pool_data (is_pEvents s) (ch_m_event c)"
  have ok: "script_event_ok (pool_data (is_pEvents s) i)" for i using s(2) by (simp add: script_inv_def)
  have parent: "m_event c = Some parent" "script_event_ok parent" using s(1) ok by (simp_all add: m_event_def script_event_def parent_def)
  show ?thesis
  proof (cases "MAX_FORK_PER_SCRIPT_HANDLER \<le> countChildHandlers parent")
    case True
    then show ?thesis using parent inv P by (simp add: forkScriptCallback_def)
  next
    case False
    show ?thesis
    proof (cases "L freelist = []")
      case True
      obtain it where "allocAppend 1 (is_pEvents s) = Some (it, is_pEvents s)" "node_of it = None"
        by (rule allocAppend_none [OF s(4) True, of 1]) auto
      moreover have "P (it, c\<lparr>ch_pScript := Some (s\<lparr>is_pEvents := is_pEvents s\<rparr>)\<rparr>)"
        by (rule P) (use inv s in \<open>simp_all add: chan_inv_parts script_ok_def\<close>)
      ultimately show ?thesis using False parent s(1) by (simp add: forkScriptCallback_def)
    next
      case nonempty: False
      let ?j = "last (L freelist)"
      obtain it p where a: "allocAppend 1 (is_pEvents s) = Some (it, p)" "it_current it = Node ?j"
          "\<exists>L'. pool_inv p {..<130} L'" "same_elements p (is_pEvents s)"
        by (rule allocAppend_some [OF s(4) nonempty, of 1]) (auto simp: freelist_def)
      define c1 where "c1 = c\<lparr>ch_pScript := Some (s\<lparr>is_pEvents := p\<rparr>)\<rparr>"
      have "script_inv (s\<lparr>is_pEvents := p\<rparr>)" using s(2) a(3) same_elementsD(1) [OF a(4)] by (auto simp: script_inv_def)
      then have c1: "chan_inv c1" "ch_vm c1 = ch_vm c" "ch_pScript c1 = Some (s\<lparr>is_pEvents := p\<rparr>)" "ch_m_event c1 = ch_m_event c"
        using inv s(3) same_elementsD(2) [OF a(4)] by (simp_all add: c1_def chan_inv_parts script_ok_def)
      obtain child where child: "ScriptEvent_forkTo b parent (pool_data p ?j) = Some child" "script_event_ok child"
        using ScriptEvent_forkTo_ok [OF parent(2)] ok same_elementsD(1) [OF a(4)] by metis
      have "runs (set_script_event ?j (child\<lparr>se_execCtx := forkTo (execCtx (ch_vm c1)) (se_execCtx child),
            se_parentHandlerID := getID (int (ch_m_event c1)) p\<rparr>) c1)
         (\<lambda>c. runs (addChildHandlerID (getID (int ?j) p) parent) (\<lambda>parent.
          runs (case Event_FragmentPos (ch_pEventGenerator c) (se_cause parent) of (pos, cause) \<Rightarrow> do {
             c \<leftarrow> set_script_event (ch_m_event c) (parent\<lparr>se_cause := cause\<rparr>) c;
             c \<leftarrow> schedule_script_event ?j pos 0 c;
             Some (it, c) }) P))"
      proof (intro runs_set_script_event [OF c1(1)] runs_addChildHandlerID [OF parent(2)])
        show "script_event_ok (child\<lparr>se_execCtx := forkTo (execCtx (ch_vm c1)) (se_execCtx child),
            se_parentHandlerID := getID (int (ch_m_event c1)) p\<rparr>)" using child(2) by simp
        fix c2 e
        assume c2: "chan_inv c2" "ch_vm c2 = ch_vm c1" and e: "script_event_ok e"
        obtain f where f: "Event_FragmentPos (ch_pEventGenerator c2) (se_cause e) = (f, se_cause e\<lparr>ev_iFragmentPos := f\<rparr>)"
          by (rule Event_FragmentPos_cases)
        have "script_event_ok (e\<lparr>se_cause := se_cause e\<lparr>ev_iFragmentPos := f\<rparr>\<rparr>)"
          using e by (simp add: script_event_ok_def)
        then have "runs (set_script_event (ch_m_event c2) (e\<lparr>se_cause := se_cause e\<lparr>ev_iFragmentPos := f\<rparr>\<rparr>) c2)
            (\<lambda>c. runs (schedule_script_event ?j f 0 c) (\<lambda>c. P (it, c)))"
          by (intro runs_set_script_event [OF c2(1)] runs_schedule_script_event P) (use c2 c1(2) in auto)
        then show "runs (case Event_FragmentPos (ch_pEventGenerator c2) (se_cause e) of (pos, cause) \<Rightarrow> do {
             c \<leftarrow> set_script_event (ch_m_event c2) (e\<lparr>se_cause := cause\<rparr>) c2;
             c \<leftarrow> schedule_script_event ?j pos 0 c;
             Some (it, c) }) P" by (simp add: f)
      qed
      then show ?thesis using False parent(1) s(1) a(1,2) child(1) c1
        by (simp add: forkScriptCallback_def node_of_rules GetScriptCallbackID_def c1_def [symmetric])
    qed
  qed
qed

end
