(* ===== verification/ChangeFunctions.thy ===== *)
theory ChangeFunctions
  imports ScriptFunctions
begin

text \<open>
  Built-in functions of instrument scripts that change the sound of notes, the middle part of
  \<open>src/src/engines/common/InstrumentScriptVMFunctions.cpp\<close>. Each is applied to one note or to an array of
  them. A note that was triggered at the very time the script runs is changed at once, for any other the change
  is scheduled as an event, which \<open>ProcessNoteSynthParam\<close> applies later.

  The code writes the body for a single note and for an array of notes twice; \<open>apply_to_notes\<close> stands for both.
\<close>

section \<open>Scheduling a change\<close>

definition schedule_change ::
    "synth_param_t \<Rightarrow> vmfloat \<Rightarrow> ValueScope \<Rightarrow> 64 word \<Rightarrow> note_id_t \<Rightarrow> chan \<Rightarrow> chan option" where
  "schedule_change type delta scope delay i c = do {
     e \<leftarrow> now_event type_note_synth_param c;
     schedule (set_NoteSynthParam i type delta scope e) delay c }"

definition set_norm :: "norm_field \<Rightarrow> (Norm \<Rightarrow> Norm) \<Rightarrow> Override \<Rightarrow> Override" where
  "set_norm f g ov = ov\<lparr>ov_norm := (ov_norm ov)(f := g (ov_norm ov f))\<rparr>"

definition set_param :: "param_field \<Rightarrow> (NoteParam \<Rightarrow> NoteParam) \<Rightarrow> Override \<Rightarrow> Override" where
  "set_param f g ov = ov\<lparr>ov_param := (ov_param ov)(f := g (ov_param ov f))\<rparr>"

definition set_time :: "time_field \<Rightarrow> vmfloat \<Rightarrow> Override \<Rightarrow> Override" where
  "set_time f x ov = ov\<lparr>ov_time := (ov_time ov)(f := x)\<rparr>"

definition set_curve :: "curve_field \<Rightarrow> fade_curve_t \<Rightarrow> Override \<Rightarrow> Override" where
  "set_curve f x ov = ov\<lparr>ov_curve := (ov_curve ov)(f := x)\<rparr>"

text \<open>\<open>change\<close> is made at once for a new note.\<close>

definition change_or_schedule ::
    "(Override \<Rightarrow> Override) \<Rightarrow> synth_param_t \<Rightarrow> vmfloat \<Rightarrow> ValueScope \<Rightarrow> note_id_t \<Rightarrow> nat \<Rightarrow> chan \<Rightarrow> chan option" where
  "change_or_schedule change type delta scope i n c = do {
     new \<leftarrow> note_is_new n c;
     if new then Some (set_Override n change c) else schedule_change type delta scope 0 i c }"

section \<open>change_vol, change_tune\<close>

definition change_norm :: "norm_field \<Rightarrow> bool \<Rightarrow> bool \<Rightarrow> vmfloat \<Rightarrow> Override \<Rightarrow> Override" where
  "change_norm f relative bFinal x =
     set_norm f (\<lambda>p. p\<lparr>nn_Value := (if relative then nn_Value p * x else x), nn_Final := bFinal\<rparr>)"

text \<open>Volume and tune are changed at once only if their transition time is not longer than the default.\<close>

definition change_norm_if_fast ::
    "norm_field \<Rightarrow> time_field \<Rightarrow> synth_param_t \<Rightarrow> bool \<Rightarrow> bool \<Rightarrow> bool \<Rightarrow> vmfloat \<Rightarrow> note_id_t \<Rightarrow> nat \<Rightarrow> chan \<Rightarrow> chan option" where
  "change_norm_if_fast f t type bFinal relative unit x i n c = do {
     new \<leftarrow> note_is_new n c;
     if new \<and> fle (ov_time (nb_Override (note_at n c)) t) DEFAULT_NOTE_TIME_S
     then Some (set_Override n (change_norm f relative bFinal x) c)
     else schedule_change type x (Event_scopeBy_FinalRelativeUnit bFinal relative unit) 0 i c }"

definition change_vol :: "clib \<Rightarrow> script_fn" where
  "change_vol L args c = do {
     e \<leftarrow> arg_asNumber args 1;
     let unit = unitType e \<noteq> VM_NO_UNIT; bFinal = isFinal e in do {
       (volume, c) \<leftarrow> (if unit then ev (evalCastInt_prefix2 e VM_MILLI VM_DECI) c else ev (evalCastInt e) c);
       (rel, c) \<leftarrow> opt_int_arg args 2 0 c;
       let fVolumeLin = DecibelToLinRatio L (float_of_vmint volume / float_of_int 1000) in do {
         c \<leftarrow> apply_to_notes ''change_vol''
           (change_norm_if_fast Volume VolumeTime synth_param_volume bFinal (bit rel 0) unit fVolumeLin) args c;
         empty_success c } } }"

definition change_tune :: "rtmath \<Rightarrow> script_fn" where
  "change_tune R args c = do {
     e \<leftarrow> arg_asNumber args 1;
     factor \<leftarrow> hasUnitFactorNow e (ch_vm c);
     (tune, c) \<leftarrow> (if factor then ev (evalCastInt_prefix2 e VM_MILLI VM_CENTI) c else ev (evalCastInt e) c);
     let unit = unitType e \<noteq> VM_NO_UNIT; bFinal = isFinal e in do {
       (rel, c) \<leftarrow> opt_int_arg args 2 0 c;
       let fFreqRatio = rt_CentsToFreqRatioUnlimited R (float_of_vmint tune / float_of_int 1000) in do {
         c \<leftarrow> apply_to_notes ''change_tune''
           (change_norm_if_fast Pitch PitchTime synth_param_pitch bFinal (bit rel 0) unit fFreqRatio) args c;
         empty_success c } } }"

section \<open>change_pan\<close>

definition change_pan_override :: "bool \<Rightarrow> bool \<Rightarrow> vmfloat \<Rightarrow> Override \<Rightarrow> Override" where
  "change_pan_override relative bFinal fPan ov =
     (let p = ov_Pan ov;
          p = (if relative
               then p\<lparr>sn_Value := RelativeSummedAvg (sn_Value p) fPan (sn_Sources p + 1), sn_Sources := sn_Sources p + 1\<rparr>
               else p\<lparr>sn_Value := fPan, sn_Sources := 1\<rparr>)
      in ov\<lparr>ov_Pan := p\<lparr>sn_Final := bFinal\<rparr>\<rparr>)"

definition limit_pan :: "vmint \<Rightarrow> chan \<Rightarrow> vmint \<times> chan" where
  "limit_pan pan c =
     (if 1000 < sint pan then (1000, msg ''change_pan(): argument 2 may not be larger than 1000'' c)
      else if sint pan < - 1000 then (- 1000, msg ''change_pan(): argument 2 may not be smaller than -1000'' c)
      else (pan, c))"

definition change_pan :: script_fn where
  "change_pan args c = do {
     e \<leftarrow> arg_asInt args 1;
     (pan, c) \<leftarrow> int_arg args 1 c;
     (rel, c) \<leftarrow> opt_int_arg args 2 0 c;
     let bFinal = isFinal e; relative = bit rel 0; (pan, c) = limit_pan pan c;
         fPan = float_of_vmint pan / float_of_int 1000 in do {
       c \<leftarrow> apply_to_notes ''change_pan'' (change_or_schedule (change_pan_override relative bFinal fPan)
         synth_param_pan fPan (Event_scopeBy_FinalRelativeUnit bFinal relative False)) args c;
       empty_success c } }"

section \<open>change_cutoff, change_reso\<close>

definition VM_FILTER_PAR_MAX_VALUE :: int where "VM_FILTER_PAR_MAX_VALUE = 1000000"
definition VM_FILTER_PAR_MAX_HZ :: int where "VM_FILTER_PAR_MAX_HZ = 30000"
definition VM_EG_PAR_MAX_VALUE :: int where "VM_EG_PAR_MAX_VALUE = 1000000"

definition change_param :: "param_field \<Rightarrow> bool \<Rightarrow> bool \<Rightarrow> vmfloat \<Rightarrow> Override \<Rightarrow> Override" where
  "change_param f bFinal unit x =
     set_param f (\<lambda>p. p\<lparr>np_Value := x, np_Scope := Note_scopeBy_FinalUnit bFinal unit\<rparr>)"

definition limit_cutoff :: "bool \<Rightarrow> vmint \<Rightarrow> chan \<Rightarrow> vmint \<times> chan" where
  "limit_cutoff unit cutoff c =
     (if unit \<and> VM_FILTER_PAR_MAX_HZ < sint cutoff
      then (word_of_int VM_FILTER_PAR_MAX_HZ, msg ''change_cutoff(): argument 2 may not be larger than 30000 Hz'' c)
      else if sint cutoff < 0 then (0, msg ''change_cutoff(): argument 2 may not be negative'' c)
      else (cutoff, c))"

definition change_cutoff :: script_fn where
  "change_cutoff args c = do {
     e \<leftarrow> arg_asNumber args 1;
     let unit = unitType e \<noteq> VM_NO_UNIT; bFinal = (unit \<or> isFinal e) in do {
       (cutoff, c) \<leftarrow> (if unit then ev (evalCastInt_prefix e VM_NO_PREFIX) c else ev (evalCastInt e) c);
       let (cutoff, c) = limit_cutoff unit cutoff c;
           fCutoff = (if unit then float_of_vmint cutoff else float_of_vmint cutoff / float_of_int VM_FILTER_PAR_MAX_VALUE)
       in do {
         c \<leftarrow> apply_to_notes ''change_cutoff'' (change_or_schedule (change_param Cutoff bFinal unit fCutoff)
           synth_param_cutoff fCutoff (Event_scopeBy_FinalRelativeUnit bFinal False unit)) args c;
         empty_success c } } }"

definition not_negative :: "string \<Rightarrow> vmint \<Rightarrow> chan \<Rightarrow> vmint \<times> chan" where
  "not_negative name v c =
     (if sint v < 0 then (0, msg (name @ ''(): argument 2 may not be negative'') c) else (v, c))"

definition change_reso :: script_fn where
  "change_reso args c = do {
     e \<leftarrow> arg_asInt args 1;
     (resonance, c) \<leftarrow> int_arg args 1 c;
     let bFinal = isFinal e; (resonance, c) = not_negative ''change_reso'' resonance c;
         fResonance = float_of_vmint resonance / float_of_int VM_FILTER_PAR_MAX_VALUE in do {
       c \<leftarrow> apply_to_notes ''change_reso'' (change_or_schedule (change_norm Resonance False bFinal fResonance)
         synth_param_resonance fResonance (Event_scopeBy_FinalRelativeUnit bFinal False False)) args c;
       empty_success c } }"

section \<open>change_attack, change_decay, change_release\<close>

text \<open>The three functions differ in the parameter they change and in the name they print.\<close>

definition change_eg :: "string \<Rightarrow> param_field \<Rightarrow> synth_param_t \<Rightarrow> script_fn" where
  "change_eg name f type args c = do {
     e \<leftarrow> arg_asNumber args 1;
     let unit = unitType e \<noteq> VM_NO_UNIT; bFinal = (unit \<or> isFinal e) in do {
       (val, c) \<leftarrow> time_arg args 1 c;
       let (val, c) = not_negative name val c;
           x = (if unit then float_of_vmint val / float_of_int 1000000
                else float_of_vmint val / float_of_int VM_EG_PAR_MAX_VALUE) in do {
         c \<leftarrow> apply_to_notes name (change_or_schedule (change_param f bFinal unit x)
           type x (Event_scopeBy_FinalRelativeUnit bFinal False unit)) args c;
         empty_success c } } }"

definition change_attack :: script_fn where
  "change_attack = change_eg ''change_attack'' Attack synth_param_attack"

definition change_decay :: script_fn where
  "change_decay = change_eg ''change_decay'' Decay synth_param_decay"

definition change_release :: script_fn where
  "change_release = change_eg ''change_release'' Release synth_param_release"

section \<open>VMChangeSynthParamFunction\<close>

definition NO_LIMIT :: vmint where "NO_LIMIT = 1315916909"

text \<open>The options of the class, and the arguments of the template.\<close>

record synth_opt =
  so_acceptFinal :: bool
  so_unit :: StdUnit_t
  so_acceptUnitPrefix :: bool
  so_acceptReal :: bool

record synth_tmpl =
  st_noteParam :: note_field
  st_synthParam :: synth_param_t
  st_minValueNorm :: vmint
  st_maxValueNorm :: vmint
  st_normalizeNorm :: bool
  st_minValueUnit :: vmint
  st_maxValueUnit :: vmint
  st_unitPrefix0 :: MetricPrefix_t
  st_unitPrefixN :: "MetricPrefix_t option" \<comment> \<open>at most one more\<close>

definition setNoteParam :: "note_field \<Rightarrow> vmfloat \<Rightarrow> bool \<Rightarrow> bool \<Rightarrow> Override \<Rightarrow> Override" where
  \<comment> \<open>\<open>setNoteParamValue\<close> and \<open>setNoteParamScopeBy_FinalUnit\<close> as overloaded for the types of members\<close>
  "setNoteParam field x bFinal unit = (case field of
     F_norm f \<Rightarrow> set_norm f (\<lambda>p. p\<lparr>nn_Value := x, nn_Final := bFinal\<rparr>)
   | F_param f \<Rightarrow> set_param f (\<lambda>p. p\<lparr>np_Value := x, np_Scope := Note_scopeBy_FinalUnit bFinal unit\<rparr>)
   | F_time f \<Rightarrow> set_time f x
   | _ \<Rightarrow> id)" \<comment> \<open>the template has no instance for the other members\<close>

definition limit_value :: "string \<Rightarrow> vmint \<Rightarrow> vmint \<Rightarrow> vmint \<Rightarrow> chan \<Rightarrow> vmint \<times> chan" where
  "limit_value name lo hi v c =
     (if hi \<noteq> NO_LIMIT \<and> sint hi < sint v
      then (hi, msg (name @ ''(): argument 2 may not be larger than '' @ int_to_str (sint hi)) c)
      else if lo \<noteq> NO_LIMIT \<and> sint v < sint lo
      then (lo, msg (name @ (if lo = 0 then ''(): argument 2 may not be negative''
                             else ''(): argument 2 may not be smaller than '' @ int_to_str (sint lo))) c)
      else (v, c))"

fun prefix_ordinal :: "MetricPrefix_t \<Rightarrow> int" where
  "prefix_ordinal VM_NO_PREFIX = 0" | "prefix_ordinal VM_KILO = 1" | "prefix_ordinal VM_HECTO = 2"
| "prefix_ordinal VM_DECA = 3" | "prefix_ordinal VM_DECI = 4" | "prefix_ordinal VM_CENTI = 5"
| "prefix_ordinal VM_MILLI = 6" | "prefix_ordinal VM_MICRO = 7"

definition tmpl_evalCastInt :: "synth_tmpl \<Rightarrow> node \<Rightarrow> vmint eval" where
  "tmpl_evalCastInt T e = (case st_unitPrefixN T of
     None \<Rightarrow> evalCastInt_prefix e (st_unitPrefix0 T)
   | Some p \<Rightarrow> evalCastInt_prefix2 e (st_unitPrefix0 T) p)"

definition tmpl_unitFactor :: "synth_tmpl \<Rightarrow> vmfloat" where
  "tmpl_unitFactor T = (case st_unitPrefixN T of
     None \<Rightarrow> VMUnit_unitFactor1 (st_unitPrefix0 T)
   | Some p \<Rightarrow> VMUnit_unitFactor2 (st_unitPrefix0 T) p)"

text \<open>For a value in Bel the code multiplies with the number of the prefix in its enumeration.\<close>

definition tmpl_fValue :: "clib \<Rightarrow> StdUnit_t \<Rightarrow> synth_tmpl \<Rightarrow> StdUnit_t \<Rightarrow> vmint \<Rightarrow> vmfloat" where
  "tmpl_fValue L m_unit T unit val =
     (if unit \<noteq> VM_NO_UNIT \<and> m_unit \<noteq> VM_NO_UNIT then
        (if unit = VM_BEL
         then DecibelToLinRatio L (float_of_vmint val * float_of_int (prefix_ordinal (st_unitPrefix0 T)))
         else float_of_vmint val * tmpl_unitFactor T)
      else if st_normalizeNorm T then
        float_of_vmint val / (if st_maxValueNorm T \<noteq> NO_LIMIT then float_of_vmint (st_maxValueNorm T)
                              else float_of_int 1000000)
      else float_of_vmint val)"

definition execTemplate :: "clib \<Rightarrow> synth_opt \<Rightarrow> synth_tmpl \<Rightarrow> string \<Rightarrow> script_fn" where
  "execTemplate L opt T name args c = do {
     e \<leftarrow> arg_asNumber args 1;
     let unit = unitType e; m_unit = so_unit opt;
         bFinal = (if m_unit \<noteq> VM_NO_UNIT \<and> m_unit \<noteq> VM_BEL \<and> unit \<noteq> VM_NO_UNIT then True else isFinal e) in do {
       factor \<leftarrow> hasUnitFactorNow e (ch_vm c);
       (val, c) \<leftarrow> (if so_acceptUnitPrefix opt \<and>
           (m_unit \<noteq> VM_NO_UNIT \<and> unit \<noteq> VM_NO_UNIT \<or> m_unit = VM_NO_UNIT \<and> factor)
         then ev (tmpl_evalCastInt T e) c else ev (evalCastInt e) c);
       let (val, c) = (if unit \<noteq> VM_NO_UNIT \<and> m_unit \<noteq> VM_NO_UNIT
             then limit_value name (st_minValueUnit T) (st_maxValueUnit T) val c
             else limit_value name (st_minValueNorm T) (st_maxValueNorm T) val c);
           fValue = tmpl_fValue L m_unit T unit val in do {
         c \<leftarrow> apply_to_notes name (change_or_schedule
             (setNoteParam (st_noteParam T) fValue bFinal (unit \<noteq> VM_NO_UNIT))
             (st_synthParam T) fValue (Event_scopeBy_FinalRelativeUnit bFinal False (unit \<noteq> VM_NO_UNIT))) args c;
         empty_success c } } }"

text \<open>The instances: an option record of the header and template arguments of the source file each.\<close>

definition opt_bel :: synth_opt where
  "opt_bel = \<lparr>so_acceptFinal = True, so_unit = VM_BEL, so_acceptUnitPrefix = True, so_acceptReal = True\<rparr>"

definition opt_second :: synth_opt where
  "opt_second = \<lparr>so_acceptFinal = True, so_unit = VM_SECOND, so_acceptUnitPrefix = True, so_acceptReal = True\<rparr>"

definition opt_depth :: synth_opt where
  "opt_depth = \<lparr>so_acceptFinal = True, so_unit = VM_NO_UNIT, so_acceptUnitPrefix = False, so_acceptReal = False\<rparr>"

definition opt_hertz :: synth_opt where
  "opt_hertz = \<lparr>so_acceptFinal = True, so_unit = VM_HERTZ, so_acceptUnitPrefix = True, so_acceptReal = True\<rparr>"

definition opt_time :: synth_opt where
  "opt_time = \<lparr>so_acceptFinal = False, so_unit = VM_SECOND, so_acceptUnitPrefix = True, so_acceptReal = True\<rparr>"

definition tmpl :: "note_field \<Rightarrow> synth_param_t \<Rightarrow> vmint \<Rightarrow> vmint \<Rightarrow> MetricPrefix_t \<Rightarrow> MetricPrefix_t option \<Rightarrow> synth_tmpl" where
  \<comment> \<open>all instances have \<open>0, NO_LIMIT, true\<close> for values without a unit\<close>
  "tmpl f type minUnit maxUnit p ps = \<lparr>st_noteParam = f, st_synthParam = type, st_minValueNorm = 0,
     st_maxValueNorm = NO_LIMIT, st_normalizeNorm = True, st_minValueUnit = minUnit, st_maxValueUnit = maxUnit,
     st_unitPrefix0 = p, st_unitPrefixN = ps\<rparr>"

definition change_sustain :: "clib \<Rightarrow> script_fn" where
  "change_sustain L = execTemplate L opt_bel
     (tmpl (F_norm Sustain) synth_param_sustain NO_LIMIT NO_LIMIT VM_MILLI (Some VM_DECI)) ''change_sustain''"

definition change_cutoff_attack :: "clib \<Rightarrow> script_fn" where
  "change_cutoff_attack L = execTemplate L opt_second
     (tmpl (F_param CutoffAttack) synth_param_cutoff_attack 0 NO_LIMIT VM_MICRO None) ''change_cutoff_attack''"

definition change_cutoff_decay :: "clib \<Rightarrow> script_fn" where
  "change_cutoff_decay L = execTemplate L opt_second
     (tmpl (F_param CutoffDecay) synth_param_cutoff_decay 0 NO_LIMIT VM_MICRO None) ''change_cutoff_decay''"

definition change_cutoff_sustain :: "clib \<Rightarrow> script_fn" where
  "change_cutoff_sustain L = execTemplate L opt_bel
     (tmpl (F_norm CutoffSustain) synth_param_cutoff_sustain NO_LIMIT NO_LIMIT VM_MILLI (Some VM_DECI)) ''change_cutoff_sustain''"

definition change_cutoff_release :: "clib \<Rightarrow> script_fn" where
  "change_cutoff_release L = execTemplate L opt_second
     (tmpl (F_param CutoffRelease) synth_param_cutoff_release 0 NO_LIMIT VM_MICRO None) ''change_cutoff_release''"

definition change_amp_lfo_depth :: "clib \<Rightarrow> script_fn" where
  "change_amp_lfo_depth L = execTemplate L opt_depth
     (tmpl (F_norm AmpLFODepth) synth_param_amp_lfo_depth NO_LIMIT NO_LIMIT VM_NO_PREFIX None) ''change_amp_lfo_depth''"

definition change_amp_lfo_freq :: "clib \<Rightarrow> script_fn" where
  "change_amp_lfo_freq L = execTemplate L opt_hertz
     (tmpl (F_param AmpLFOFreq) synth_param_amp_lfo_freq 0 30000 VM_NO_PREFIX None) ''change_amp_lfo_freq''"

definition change_cutoff_lfo_depth :: "clib \<Rightarrow> script_fn" where
  "change_cutoff_lfo_depth L = execTemplate L opt_depth
     (tmpl (F_norm CutoffLFODepth) synth_param_cutoff_lfo_depth NO_LIMIT NO_LIMIT VM_NO_PREFIX None) ''change_cutoff_lfo_depth''"

definition change_cutoff_lfo_freq :: "clib \<Rightarrow> script_fn" where
  "change_cutoff_lfo_freq L = execTemplate L opt_hertz
     (tmpl (F_param CutoffLFOFreq) synth_param_cutoff_lfo_freq 0 30000 VM_NO_PREFIX None) ''change_cutoff_lfo_freq''"

definition change_pitch_lfo_depth :: "clib \<Rightarrow> script_fn" where
  "change_pitch_lfo_depth L = execTemplate L opt_depth
     (tmpl (F_norm PitchLFODepth) synth_param_pitch_lfo_depth NO_LIMIT NO_LIMIT VM_NO_PREFIX None) ''change_pitch_lfo_depth''"

definition change_pitch_lfo_freq :: "clib \<Rightarrow> script_fn" where
  "change_pitch_lfo_freq L = execTemplate L opt_hertz
     (tmpl (F_param PitchLFOFreq) synth_param_pitch_lfo_freq 0 30000 VM_NO_PREFIX None) ''change_pitch_lfo_freq''"

definition change_vol_time :: "clib \<Rightarrow> script_fn" where
  "change_vol_time L = execTemplate L opt_time
     (tmpl (F_time VolumeTime) synth_param_volume_time 0 NO_LIMIT VM_MICRO None) ''change_vol_time''"

definition change_tune_time :: "clib \<Rightarrow> script_fn" where
  "change_tune_time L = execTemplate L opt_time
     (tmpl (F_time PitchTime) synth_param_pitch_time 0 NO_LIMIT VM_MICRO None) ''change_tune_time''"

definition change_pan_time :: "clib \<Rightarrow> script_fn" where
  "change_pan_time L = execTemplate L opt_time
     (tmpl (F_time PanTime) synth_param_pan_time 0 NO_LIMIT VM_MICRO None) ''change_pan_time''"

section \<open>VMChangeFadeCurveFunction\<close>

definition fade_curve_execTemplate :: "curve_field \<Rightarrow> synth_param_t \<Rightarrow> string \<Rightarrow> script_fn" where
  "fade_curve_execTemplate f type name args c = do {
     (val, c) \<leftarrow> int_arg args 1 c;
     if val \<noteq> ucast FADE_CURVE_LINEAR \<and> val \<noteq> ucast FADE_CURVE_EASE_IN_EASE_OUT
     then empty_success (msg (name @ ''(): invalid curve type passed as argument 2'') c)
     else do {
       c \<leftarrow> apply_to_notes name (change_or_schedule (set_curve f (ucast val)) type (float_of_vmint val) RELATIVE) args c;
       empty_success c } }"

definition change_vol_curve :: script_fn where
  "change_vol_curve = fade_curve_execTemplate VolumeCurve synth_param_volume_curve ''change_vol_curve''"

definition change_tune_curve :: script_fn where
  "change_tune_curve = fade_curve_execTemplate PitchCurve synth_param_pitch_curve ''change_tune_curve''"

definition change_pan_curve :: script_fn where
  "change_pan_curve = fade_curve_execTemplate PanCurve synth_param_pan_curve ''change_pan_curve''"

section \<open>fade_in, fade_out\<close>

definition fade_in_note :: "vmfloat \<Rightarrow> note_id_t \<Rightarrow> nat \<Rightarrow> chan \<Rightarrow> chan option" where
  "fade_in_note fDuration i n c = do {
     c \<leftarrow> change_or_schedule (set_time VolumeTime fDuration o set_norm Volume (\<lambda>p. p\<lparr>nn_Value := 0\<rparr>))
       synth_param_volume_time fDuration RELATIVE i n c;
     schedule_change synth_param_volume 1 RELATIVE 1 i c }"

definition fade_in :: script_fn where
  "fade_in args c = do {
     (duration, c) \<leftarrow> time_arg args 1 c;
     let (duration, c) = not_negative ''fade_in'' duration c;
         fDuration = float_of_vmint duration / float_of_int 1000000 in do {
       c \<leftarrow> apply_to_notes ''fade_in'' (fade_in_note fDuration) args c;
       empty_success c } }"

definition fade_out_note :: "vmint \<Rightarrow> vmfloat \<Rightarrow> bool \<Rightarrow> note_id_t \<Rightarrow> nat \<Rightarrow> chan \<Rightarrow> chan option" where
  "fade_out_note duration fDuration stop i n c = do {
     c \<leftarrow> change_or_schedule (set_time VolumeTime fDuration) synth_param_volume_time fDuration RELATIVE i n c;
     c \<leftarrow> schedule_change synth_param_volume 0 RELATIVE 1 i c;
     if stop then do {
       e \<leftarrow> now_event type_kill_note c;
       e \<leftarrow> set_Note_ID (uint i) e;
       e \<leftarrow> set_Note_Key (nb_hostKey (note_at n c)) e;
       schedule e (duration + 1) c }
     else Some c }"

definition fade_out :: script_fn where
  "fade_out args c = do {
     (duration, c) \<leftarrow> time_arg args 1 c;
     let (duration, c) = not_negative ''fade_out'' duration c;
         fDuration = float_of_vmint duration / float_of_int 1000000 in do {
       (stop, c) \<leftarrow> opt_int_arg args 2 1 c;
       c \<leftarrow> apply_to_notes ''fade_out'' (fade_out_note duration fDuration (bit stop 0)) args c;
       empty_success c } }"

end
