(* ===== verification/CallSteps.thy ===== *)
theory CallSteps
  imports ChannelSteps ChangeFunctions
begin

text \<open>
  The steps that built-in functions of scripts consist of return and keep the invariant of the channel, provided
  that the arguments can be evaluated. \<open>J\<close> is what the arguments need of the virtual machine.
\<close>

section \<open>Arguments that can be evaluated\<close>

definition arg_total :: "(vm \<Rightarrow> bool) \<Rightarrow> node \<Rightarrow> bool" where
  "arg_total J e \<longleftrightarrow>
     (exprType e = INT_EXPR \<longrightarrow> isIntExpr e \<and> (\<forall>s. J s \<longrightarrow> runs (evalInt e s) (\<lambda>(v, s). J s))) \<and>
     (exprType e = REAL_EXPR \<longrightarrow> isRealExpr e \<and> (\<forall>s. J s \<longrightarrow> runs (evalReal e s) (\<lambda>(v, s). J s))) \<and>
     (exprType e = INT_EXPR \<or> exprType e = REAL_EXPR \<longrightarrow> (\<forall>s. J s \<longrightarrow> unitFactor e s \<noteq> None)) \<and>
     (exprType e = INT_ARR_EXPR \<longrightarrow> (\<exists>a n. asIntArray e = Some a \<and> (\<forall>s. J s \<longrightarrow> arraySize a s = Some n \<and>
       (\<forall>i. 0 \<le> sint i \<and> sint i < sint n \<longrightarrow> evalElement a i s \<noteq> None))))"

text \<open>What the functions do to the virtual machine leaves \<open>J\<close> true.\<close>

definition vm_closed :: "(vm \<Rightarrow> bool) \<Rightarrow> bool" where
  "vm_closed J \<longleftrightarrow> (\<forall>s t. J s \<longrightarrow> J (printMsg t s)) \<and> (\<forall>s. J s \<longrightarrow> J (upd_ctx signalAbort s)) \<and>
     (\<forall>s us. J s \<longrightarrow> J (upd_ctx (\<lambda>x. x\<lparr>suspendMicroseconds := us\<rparr>) s)) \<and>
     (\<forall>s. J s \<longrightarrow> (\<exists>n f. boundResult s Fn_wait = Some n \<and> fnResult s n = Some (VMEmptyResult f) \<and>
       (\<forall>f. J (s\<lparr>fnResult := (fnResult s)(n \<mapsto> VMEmptyResult f)\<rparr>))))"

definition ok :: "(vm \<Rightarrow> bool) \<Rightarrow> chan \<Rightarrow> bool" where
  "ok J c \<longleftrightarrow> chan_inv c \<and> J (ch_vm c) \<and> vm_closed J"

lemma okD: "ok J c \<Longrightarrow> chan_inv c" "ok J c \<Longrightarrow> J (ch_vm c)"
  by (simp_all add: ok_def)

lemma ok_vm: "ok J c \<Longrightarrow> J s \<Longrightarrow> ok J (c\<lparr>ch_vm := s\<rparr>)"
  by (simp add: ok_def chan_inv_parts)

lemma ok_step: "chan_inv c' \<Longrightarrow> ch_vm c' = ch_vm c \<Longrightarrow> ok J c \<Longrightarrow> ok J c'"
  by (simp add: ok_def)

lemma ok_msg [simp]: "ok J c \<Longrightarrow> ok J (msg t c)"
  by (simp add: msg_def ok_vm ok_def vm_closed_def chan_inv_parts)

lemma ok_set_Override [simp]: "ok J c \<Longrightarrow> ok J (set_Override n f c)"
  by (simp add: ok_def chan_inv_parts)

lemma runs_ev:
  assumes "ok J c" "J (ch_vm c) \<Longrightarrow> runs (m (ch_vm c)) (\<lambda>(v, s). J s)" "\<And>v s. J s \<Longrightarrow> P (v, c\<lparr>ch_vm := s\<rparr>)"
  shows "runs (ev m c) P"
  using assms by (auto simp: ev_def runs_def ok_def)

lemma arg_totalD:
  assumes "arg_total J e"
  shows "exprType e = INT_EXPR \<Longrightarrow> isIntExpr e" "exprType e = REAL_EXPR \<Longrightarrow> isRealExpr e"
    "exprType e = INT_EXPR \<or> exprType e = REAL_EXPR \<Longrightarrow> isNumberExpr e"
    "exprType e = INT_EXPR \<Longrightarrow> J s \<Longrightarrow> runs (evalInt e s) (\<lambda>(v, s). J s)"
    "exprType e = INT_EXPR \<or> exprType e = REAL_EXPR \<Longrightarrow> J s \<Longrightarrow> runs (evalCastInt e s) (\<lambda>(v, s). J s)"
    "exprType e = INT_EXPR \<or> exprType e = REAL_EXPR \<Longrightarrow> J s \<Longrightarrow> runs (evalCastReal e s) (\<lambda>(v, s). J s)"
    "exprType e = INT_EXPR \<or> exprType e = REAL_EXPR \<Longrightarrow> J s \<Longrightarrow> \<exists>u. unitFactor e s = Some u"
  using assms by (auto simp: arg_total_def isNumberExpr_def evalCastInt_def evalCastReal_def asInt_evalInt_def
      asReal_evalReal_def runs_def)

lemma runs_evalCastInt_prefix:
  assumes "arg_total J e" "exprType e = INT_EXPR \<or> exprType e = REAL_EXPR" "J s"
  shows "runs (evalCastInt_prefix e p s) (\<lambda>(v, s). J s)" "runs (evalCastInt_prefix2 e p q s) (\<lambda>(v, s). J s)"
  using arg_totalD(6) [OF assms] arg_totalD(7) [OF assms(1,2)]
  by (fastforce simp: evalCastInt_prefix_def evalCastInt_prefix2_def runs_def)+

section \<open>Evaluating arguments\<close>

definition args_total :: "(vm \<Rightarrow> bool) \<Rightarrow> node list \<Rightarrow> bool" where
  "args_total J args \<longleftrightarrow> (\<forall>e \<in> set args. arg_total J e)"

lemma args_totalD: "args_total J args \<Longrightarrow> k < length args \<Longrightarrow> arg_total J (args ! k)"
  by (simp add: args_total_def)

lemma arg_asNumber_eq:
  "args_total J args \<Longrightarrow> k < length args \<Longrightarrow> exprType (args ! k) = INT_EXPR \<or> exprType (args ! k) = REAL_EXPR \<Longrightarrow>
    arg_asNumber args k = Some (args ! k)"
  by (simp add: arg_asNumber_def nth_opt_def arg_totalD(3) [OF args_totalD])

lemma arg_asInt_eq:
  "args_total J args \<Longrightarrow> k < length args \<Longrightarrow> exprType (args ! k) = INT_EXPR \<Longrightarrow> arg_asInt args k = Some (args ! k)"
  by (simp add: arg_asInt_def nth_opt_def arg_totalD(1) [OF args_totalD])

lemma runs_int_arg:
  assumes "ok J c" "args_total J args" "k < length args" "exprType (args ! k) = INT_EXPR"
    and P: "\<And>v s. J s \<Longrightarrow> P (v, c\<lparr>ch_vm := s\<rparr>)"
  shows "runs (int_arg args k c) P"
  unfolding int_arg_def arg_asInt_eq [OF assms(2-4)] bind.bind_lunit
  by (rule runs_ev [OF assms(1)]) (auto intro: arg_totalD(4) [OF args_totalD [OF assms(2,3)] assms(4)] P)

lemma runs_opt_int_arg:
  assumes "ok J c" "args_total J args" "k < length args \<Longrightarrow> exprType (args ! k) = INT_EXPR"
    and P: "\<And>v s. J s \<Longrightarrow> P (v, c\<lparr>ch_vm := s\<rparr>)"
  shows "runs (opt_int_arg args k d c) P"
proof (cases "k < length args")
  case True
  then show ?thesis using runs_int_arg [OF assms(1,2)] assms(3) P by (simp add: opt_int_arg_def)
next
  case False
  then show ?thesis using P [of "ch_vm c" d] assms(1) by (simp add: opt_int_arg_def ok_def)
qed

lemma runs_time_arg:
  assumes "ok J c" "args_total J args" "k < length args" "exprType (args ! k) = INT_EXPR \<or> exprType (args ! k) = REAL_EXPR"
    and P: "\<And>v s. J s \<Longrightarrow> P (v, c\<lparr>ch_vm := s\<rparr>)"
  shows "runs (time_arg args k c) P"
  unfolding time_arg_def arg_asNumber_eq [OF assms(2-4)] bind.bind_lunit
  using runs_evalCastInt_prefix(1) [OF args_totalD [OF assms(2,3)] assms(4)] arg_totalD(5) [OF args_totalD [OF assms(2,3)] assms(4)]
  by (auto intro!: runs_ev [OF assms(1)] P)

section \<open>Steps of the functions\<close>

lemma runs_now_event:
  assumes "ok J c" "\<And>e. bytes_event e \<Longrightarrow> P e"
  shows "runs (now_event t c) P"
  unfolding now_event_def runs_simps by (rule runs_m_event [OF okD(1) [OF assms(1)]]) (simp add: assms(2))

lemma runs_note_is_new:
  assumes "ok J c" "\<And>b. P b"
  shows "runs (note_is_new n c) P"
  unfolding note_is_new_def runs_simps by (rule runs_m_event [OF okD(1) [OF assms(1)]]) (simp add: assms(2))

lemma runs_schedule_ok:
  assumes "ok J c" "\<And>c'. ok J c' \<Longrightarrow> P c'"
  shows "runs (schedule e d c) P"
  by (rule runs_schedule [OF okD(1) [OF assms(1)]]) (blast intro: assms(2) ok_step [OF _ _ assms(1)])

definition keeps :: "(vm \<Rightarrow> bool) \<Rightarrow> (chan \<Rightarrow> chan option) \<Rightarrow> bool" where
  "keeps J f \<longleftrightarrow> (\<forall>c. ok J c \<longrightarrow> runs (f c) (\<lambda>c'. ok J c' \<and> ch_vm c' = ch_vm c))"

lemma keepsI: "(\<And>c. ok J c \<Longrightarrow> runs (f c) (\<lambda>c'. ok J c' \<and> ch_vm c' = ch_vm c)) \<Longrightarrow> keeps J f"
  by (simp add: keeps_def)

lemma keepsD: "keeps J f \<Longrightarrow> ok J c \<Longrightarrow> (\<And>c'. ok J c' \<Longrightarrow> ch_vm c' = ch_vm c \<Longrightarrow> P c') \<Longrightarrow> runs (f c) P"
  by (auto simp: keeps_def intro: runs_mono)

lemma keeps_for_note_id:
  assumes "\<And>i n. keeps J (f i n)"
  shows "keeps J (for_note_id f i)"
  unfolding for_note_id_def
  by (intro keepsI, unfold runs_simps, rule runs_NoteByID) (use assms in \<open>auto simp: keeps_def\<close>)

lemma runs_for_ids_from:
  assumes "ok J c" "\<forall>s. J s \<longrightarrow> arraySize a s = Some n \<and> (\<forall>i. 0 \<le> sint i \<and> sint i < sint n \<longrightarrow> evalElement a i s \<noteq> None)"
    and "0 \<le> sint i" "\<And>x. keeps J (f x)"
  shows "runs (for_ids_from f a i c) (ok J)"
  using assms(1,3)
proof (induction "nat (sint n - sint i)" arbitrary: i c rule: less_induct)
  case less
  have size: "arraySize a (ch_vm c) = Some n" using assms(2) okD(2) [OF less.prems(1)] by blast
  show ?case
  proof (cases "n \<le>s i")
    case True
    then show ?thesis using size less.prems(1) by (subst for_ids_from.simps) simp
  next
    case False
    then have lt: "sint i < sint n" by (simp add: word_sle_eq)
    obtain x where x: "evalElement a i (ch_vm c) = Some x"
      using assms(2) okD(2) [OF less.prems(1)] less.prems(2) lt by blast
    have i1: "sint (i + 1) = sint i + 1"
      unfolding sint_word_ariths using lt sint_lt [of n] less.prems(2) by (subst signed_take_bit_int_eq_self) auto
    have "runs (f x c) (\<lambda>c. runs (for_ids_from f a (i + 1) c) (ok J))"
      by (rule keepsD [OF assms(4) less.prems(1)]) (rule less.hyps, use i1 lt less.prems(2) in auto)
    then show ?thesis using size x False by (subst for_ids_from.simps) simp
  qed
qed

lemma runs_apply_to_notes:
  assumes c: "ok J c" and args: "args_total J args" "0 < length args" and f: "\<And>i n. keeps J (f i n)"
    and P: "\<And>c'. ok J c' \<Longrightarrow> P c'"
  shows "runs (apply_to_notes name f args c) P"
proof -
  have keep: "keeps J (for_note_id f i)" for i using keeps_for_note_id f .
  have e: "nth_opt args 0 = Some (args ! 0)" using args(2) by (simp add: nth_opt_def)
  have "runs (apply_to_notes name f args c) (ok J)"
  proof (cases "exprType (args ! 0) = INT_EXPR")
    case True
    have "runs (int_arg args 0 c) (\<lambda>(i, c). runs (if i = 0 then Some (msg (name @ ''(): note ID for argument 1 may not be zero'') c)
       else if \<not> ScriptID_isNoteID i then Some (msg (name @ ''(): argument 1 is not a note ID'') c)
       else for_note_id f i c) (ok J))"
      by (rule runs_int_arg [OF c args True]) (auto simp: ok_vm [OF c] intro!: keepsD [OF keep])
    then show ?thesis using e True by (simp add: apply_to_notes_def case_prod_unfold)
  next
    case not_int: False
    show ?thesis
    proof (cases "exprType (args ! 0) = INT_ARR_EXPR")
      case True
      then obtain a n where a: "asIntArray (args ! 0) = Some a"
          "\<forall>s. J s \<longrightarrow> arraySize a s = Some n \<and> (\<forall>i. 0 \<le> sint i \<and> sint i < sint n \<longrightarrow> evalElement a i s \<noteq> None)"
        using args_totalD [OF args] by (auto simp: arg_total_def)
      have k: "keeps J (\<lambda>c. if x = 0 \<or> \<not> ScriptID_isNoteID x then Some c else for_note_id f x c)" for x
        by (rule keepsI) (auto intro!: keepsD [OF keep])
      show ?thesis using runs_for_ids_from [OF c a(2) _ k, of 0] e True a(1)
        by (simp add: apply_to_notes_def)
    next
      case False
      then show ?thesis using e not_int c by (simp add: apply_to_notes_def)
    qed
  qed
  then show ?thesis by (rule runs_mono) (rule P)
qed

text \<open>A step that schedules an event.\<close>

lemma keeps_schedule: "keeps J (schedule e d)"
  by (rule keepsI, rule runs_schedule [OF okD(1)]) (auto intro: ok_step)

lemma keeps_schedule_change: "keeps J (schedule_change type delta scope d i)"
  unfolding schedule_change_def
  by (rule keepsI, unfold runs_simps, rule runs_now_event, assumption) (rule keepsD [OF keeps_schedule], auto)

lemma keeps_change_or_schedule: "keeps J (change_or_schedule g type delta scope i n)"
  unfolding change_or_schedule_def
  by (rule keepsI, unfold runs_simps, rule runs_note_is_new, assumption)
    (auto intro!: keepsD [OF keeps_schedule_change])

lemma keeps_change_norm_if_fast: "keeps J (change_norm_if_fast f t type b r u x i n)"
  unfolding change_norm_if_fast_def
  by (rule keepsI, unfold runs_simps, rule runs_note_is_new, assumption)
    (auto intro!: keepsD [OF keeps_schedule_change])

lemma keeps_bind: "keeps J f \<Longrightarrow> keeps J g \<Longrightarrow> keeps J (\<lambda>c. Option.bind (f c) g)"
  by (rule keepsI, unfold runs_simps, erule keepsD, assumption, rule keepsD, assumption, assumption) simp

lemma keeps_if: "keeps J f \<Longrightarrow> keeps J g \<Longrightarrow> keeps J (\<lambda>c. if b then f c else g c)"
  by (cases b) simp_all

lemma keeps_Some: "keeps J Some"
  by (simp add: keeps_def)

lemma keeps_fade_in_note: "keeps J (fade_in_note x i n)"
  unfolding fade_in_note_def by (intro keeps_bind keeps_change_or_schedule keeps_schedule_change)

lemma keeps_kill:
  "keeps J (\<lambda>c. do { e \<leftarrow> now_event type_kill_note c; e \<leftarrow> set_Note_ID i e; e \<leftarrow> set_Note_Key (k c) e; schedule e d c })"
  by (rule keepsI, unfold runs_simps, rule runs_now_event, assumption)
    (intro runs_param_store, auto intro!: keepsD [OF keeps_schedule])

lemma keeps_fade_out_note: "keeps J (fade_out_note d x b i n)"
  unfolding fade_out_note_def
  by (intro keeps_bind keeps_change_or_schedule keeps_schedule_change keeps_if keeps_kill keeps_Some)

lemma keeps_note_off_event: "keeps J (note_off_event v i n)"
  unfolding note_off_event_def Let_def
  by (rule keepsI, unfold runs_simps, rule runs_m_event, erule okD(1))
    (intro runs_param_store, auto intro!: keepsD [OF keeps_schedule])

lemma keeps_play_pos: "keeps J (\<lambda>c. Some (set_Override n g c))"
  by (simp add: keeps_def)

end
