(* ===== verification/ScriptFnTable.thy ===== *)
theory ScriptFnTable
  imports ChangeFunctions
begin

text \<open>
  What the classes of \<open>InstrumentScriptVMFunctions.h\<close> say about their arguments, with the methods of
  \<open>InstrumentScriptVMFunctions.cpp\<close> that the parser asks before it accepts a call, and
  \<open>InstrumentScriptVM::functionByName\<close>. Each class is a record of its methods.
\<close>

section \<open>Tables\<close>

record script_function =
  sfn_minRequiredArgs :: nat
  sfn_maxAllowedArgs :: nat
  sfn_acceptsArgType :: "nat \<Rightarrow> ExprType_t \<Rightarrow> bool"
  sfn_acceptsArgUnitType :: "nat \<Rightarrow> StdUnit_t \<Rightarrow> bool"
  sfn_acceptsArgUnitPrefix :: "nat \<Rightarrow> StdUnit_t \<Rightarrow> bool"
  sfn_acceptsArgFinal :: "nat \<Rightarrow> bool"
  sfn_returnType :: ExprType_t
  sfn_checkArgs :: "node list \<Rightarrow> vm \<Rightarrow> ArgIssue list option"
  sfn_exec :: script_fn

definition int_args :: "nat \<Rightarrow> ExprType_t \<Rightarrow> bool" where
  "int_args iArg type \<longleftrightarrow> type = INT_EXPR"

text \<open>What the base classes define.\<close>

definition empty_result_fn :: "nat \<Rightarrow> nat \<Rightarrow> (nat \<Rightarrow> ExprType_t \<Rightarrow> bool) \<Rightarrow> script_fn \<Rightarrow> script_function" where
  "empty_result_fn lo hi types exec = \<lparr>sfn_minRequiredArgs = lo, sfn_maxAllowedArgs = hi, sfn_acceptsArgType = types,
     sfn_acceptsArgUnitType = (\<lambda>_ t. t = VM_NO_UNIT), sfn_acceptsArgUnitPrefix = (\<lambda>_ _. False),
     sfn_acceptsArgFinal = (\<lambda>_. False), sfn_returnType = EMPTY_EXPR, sfn_checkArgs = (\<lambda>_ _. Some []), sfn_exec = exec\<rparr>"

definition int_result_fn :: "nat \<Rightarrow> nat \<Rightarrow> (nat \<Rightarrow> ExprType_t \<Rightarrow> bool) \<Rightarrow> script_fn \<Rightarrow> script_function" where
  "int_result_fn lo hi types exec = (empty_result_fn lo hi types exec)\<lparr>sfn_returnType := INT_EXPR\<rparr>"

text \<open>
  Checks of constant arguments: the first that fails is reported and ends the checking. What evaluating a
  constant does with the state is dropped.
\<close>

definition check_const ::
    "node list \<Rightarrow> nat \<Rightarrow> (node \<Rightarrow> vmint eval) \<Rightarrow> (vmint \<Rightarrow> bool) \<Rightarrow> string \<Rightarrow> vm \<Rightarrow> ArgIssue list option" where
  "check_const args k eval bad text s =
     (if length args \<le> k then Some []
      else do {
        e \<leftarrow> nth_opt args k;
        if \<not> isConstExpr e then Some []
        else do { (v, _) \<leftarrow> eval e s; Some (if bad v then [ArgErr text] else []) } })"

fun first_issue :: "(vm \<Rightarrow> ArgIssue list option) list \<Rightarrow> vm \<Rightarrow> ArgIssue list option" where
  "first_issue [] s = Some []"
| "first_issue (f # fs) s = do { r \<leftarrow> f s; if r = [] then first_issue fs s else Some r }"

definition asNumber_evalCastInt :: "node \<Rightarrow> vmint eval" where
  "asNumber_evalCastInt e s = (if isNumberExpr e then evalCastInt e s else None)"

definition asNumber_evalTime :: "node \<Rightarrow> vmint eval" where
  "asNumber_evalTime e s = (if \<not> isNumberExpr e then None
     else if unitType e \<noteq> VM_NO_UNIT then evalCastInt_prefix e VM_MICRO s else evalCastInt e s)"

definition not_midi :: "vmint \<Rightarrow> bool" where
  "not_midi v \<longleftrightarrow> sint v < 0 \<or> 127 < sint v"

section \<open>Functions about events and notes\<close>

definition play_note_acceptsArgType :: "nat \<Rightarrow> ExprType_t \<Rightarrow> bool" where
  "play_note_acceptsArgType iArg type =
     (if iArg = 2 \<or> iArg = 3 then type = INT_EXPR \<or> type = REAL_EXPR else type = INT_EXPR)"

definition play_note_acceptsArgUnitType :: "nat \<Rightarrow> StdUnit_t \<Rightarrow> bool" where
  "play_note_acceptsArgUnitType iArg type =
     (if iArg = 2 \<or> iArg = 3 then type = VM_NO_UNIT \<or> type = VM_SECOND else type = VM_NO_UNIT)"

definition play_note_acceptsArgUnitPrefix :: "nat \<Rightarrow> StdUnit_t \<Rightarrow> bool" where
  "play_note_acceptsArgUnitPrefix iArg type = (if iArg = 2 \<or> iArg = 3 then type = VM_SECOND else False)"

text \<open>The first argument is asked for without looking at the number of arguments.\<close>

definition play_note_checkArgs :: "node list \<Rightarrow> vm \<Rightarrow> ArgIssue list option" where
  "play_note_checkArgs args s =
     (if args = [] then None
      else first_issue
       [check_const args 0 asNumber_evalCastInt not_midi ''MIDI note number value for argument 1 must be between 0..127'',
        check_const args 1 asNumber_evalCastInt not_midi ''MIDI velocity value for argument 2 must be between 0..127'',
        check_const args 2 asNumber_evalTime (\<lambda>v. sint v < - 1) ''Sample offset of argument 3 may not be less than -1'',
        check_const args 3 asNumber_evalTime (\<lambda>v. sint v < - 2)
          ''Argument 4 must be a duration value of at least -2 or higher''] s)"

definition Fn_play_note :: script_function where
  "Fn_play_note = (int_result_fn 1 4 play_note_acceptsArgType play_note)
     \<lparr>sfn_acceptsArgUnitType := play_note_acceptsArgUnitType,
      sfn_acceptsArgUnitPrefix := play_note_acceptsArgUnitPrefix, sfn_checkArgs := play_note_checkArgs\<rparr>"

definition Fn_set_controller :: script_function where
  "Fn_set_controller = int_result_fn 2 2 int_args set_controller"

definition Fn_set_rpn :: script_function where
  "Fn_set_rpn = int_result_fn 2 2 int_args set_rpn"

definition Fn_set_nrpn :: script_function where
  "Fn_set_nrpn = int_result_fn 2 2 int_args set_nrpn"

definition ignore_event_acceptsArgType :: "nat \<Rightarrow> ExprType_t \<Rightarrow> bool" where
  "ignore_event_acceptsArgType iArg type \<longleftrightarrow> type = INT_EXPR \<or> type = INT_ARR_EXPR"

definition Fn_ignore_event :: script_function where
  "Fn_ignore_event = empty_result_fn 0 1 ignore_event_acceptsArgType ignore_event"

definition Fn_ignore_controller :: script_function where
  "Fn_ignore_controller = empty_result_fn 0 1 int_args ignore_controller"

definition note_off_acceptsArgType :: "nat \<Rightarrow> ExprType_t \<Rightarrow> bool" where
  \<comment> \<open>also for the velocity\<close>
  "note_off_acceptsArgType iArg type \<longleftrightarrow> type = INT_EXPR \<or> type = INT_ARR_EXPR"

definition note_off_checkArgs :: "node list \<Rightarrow> vm \<Rightarrow> ArgIssue list option" where
  "note_off_checkArgs args s =
     (case nth_opt args 1 of None \<Rightarrow> Some []
      | Some e \<Rightarrow> if exprType e \<noteq> INT_EXPR then Some []
          else check_const args 1 asInt_evalInt not_midi ''MIDI velocity value for argument 2 must be between 0..127'' s)"

definition Fn_note_off :: script_function where
  "Fn_note_off = (empty_result_fn 1 2 note_off_acceptsArgType note_off)\<lparr>sfn_checkArgs := note_off_checkArgs\<rparr>"

definition set_event_mark_checkArgs :: "node list \<Rightarrow> vm \<Rightarrow> ArgIssue list option" where
  "set_event_mark_checkArgs args = check_const args 1 asInt_evalInt invalid_group ''Argument 2 value is an invalid group id.''"

definition Fn_set_event_mark :: script_function where
  "Fn_set_event_mark = (empty_result_fn 2 2 int_args set_event_mark)\<lparr>sfn_checkArgs := set_event_mark_checkArgs\<rparr>"

definition delete_event_mark_checkArgs :: "node list \<Rightarrow> vm \<Rightarrow> ArgIssue list option" where
  "delete_event_mark_checkArgs args = check_const args 1 asInt_evalInt invalid_group ''Argument 2 value is an invalid group id.''"

definition Fn_delete_event_mark :: script_function where
  "Fn_delete_event_mark = (empty_result_fn 2 2 int_args delete_event_mark)\<lparr>sfn_checkArgs := delete_event_mark_checkArgs\<rparr>"

definition by_marks_checkArgs :: "node list \<Rightarrow> vm \<Rightarrow> ArgIssue list option" where
  "by_marks_checkArgs args s =
     (if args = [] then None else check_const args 0 asInt_evalInt invalid_group ''Argument value is an invalid group id.'' s)"

definition Fn_by_marks :: script_function where
  "Fn_by_marks = (empty_result_fn 1 1 int_args by_marks)
     \<lparr>sfn_returnType := INT_ARR_EXPR, sfn_checkArgs := by_marks_checkArgs\<rparr>"

definition Fn_get_event_par :: "clib \<Rightarrow> rtmath \<Rightarrow> script_function" where
  "Fn_get_event_par L R = int_result_fn 2 2 int_args (get_event_par L R)"

definition Fn_set_event_par :: script_function where
  "Fn_set_event_par = empty_result_fn 3 3 int_args set_event_par"

definition Fn_change_note :: script_function where
  "Fn_change_note = empty_result_fn 2 2 int_args change_note"

definition Fn_change_velo :: script_function where
  "Fn_change_velo = empty_result_fn 2 2 int_args change_velo"

definition time_acceptsArgUnitType :: "nat \<Rightarrow> StdUnit_t \<Rightarrow> bool" where
  "time_acceptsArgUnitType iArg type = (if iArg = 1 then type = VM_NO_UNIT \<or> type = VM_SECOND else type = VM_NO_UNIT)"

definition time_acceptsArgUnitPrefix :: "nat \<Rightarrow> StdUnit_t \<Rightarrow> bool" where
  "time_acceptsArgUnitPrefix iArg type \<longleftrightarrow> iArg = 1 \<and> type = VM_SECOND"

definition change_play_pos_acceptsArgType :: "nat \<Rightarrow> ExprType_t \<Rightarrow> bool" where
  "change_play_pos_acceptsArgType iArg type = (if iArg = 0 then type = INT_EXPR else type = INT_EXPR \<or> type = REAL_EXPR)"

definition Fn_change_play_pos :: script_function where
  "Fn_change_play_pos = (empty_result_fn 2 2 change_play_pos_acceptsArgType change_play_pos)
     \<lparr>sfn_acceptsArgUnitType := time_acceptsArgUnitType, sfn_acceptsArgUnitPrefix := time_acceptsArgUnitPrefix\<rparr>"

definition Fn_event_status :: script_function where
  "Fn_event_status = int_result_fn 1 1 int_args event_status"

section \<open>Callbacks\<close>

definition Fn_callback_status :: script_function where
  "Fn_callback_status = int_result_fn 1 1 int_args callback_status"

definition Fn_wait2 :: script_function where
  "Fn_wait2 = (empty_result_fn 1 1 (\<lambda>_ t. t = INT_EXPR \<or> t = REAL_EXPR) wait_fn)
     \<lparr>sfn_acceptsArgUnitType := (\<lambda>_. CoreVMFunction_wait_acceptsArgUnitType),
      sfn_acceptsArgUnitPrefix := (\<lambda>_ t. t = VM_SECOND)\<rparr>"

definition Fn_stop_wait :: script_function where
  "Fn_stop_wait = empty_result_fn 1 2 int_args stop_wait"

definition Fn_abort :: script_function where
  "Fn_abort = empty_result_fn 1 1 int_args abort_fn"

definition Fn_fork :: script_function where
  "Fn_fork = int_result_fn 0 2 int_args fork"

section \<open>Functions that change notes\<close>

text \<open>The first argument is a note or several, the second a number; a third is an integer.\<close>

definition notes_number_types :: "nat \<Rightarrow> ExprType_t \<Rightarrow> bool" where
  "notes_number_types iArg type =
     (if iArg = 0 then type = INT_EXPR \<or> type = INT_ARR_EXPR
      else if iArg = 1 then type = INT_EXPR \<or> type = REAL_EXPR
      else type = INT_EXPR)"

definition notes_int_types :: "nat \<Rightarrow> ExprType_t \<Rightarrow> bool" where
  "notes_int_types iArg type = (if iArg = 0 then type = INT_EXPR \<or> type = INT_ARR_EXPR else type = INT_EXPR)"

definition notes_time_types :: "nat \<Rightarrow> ExprType_t \<Rightarrow> bool" where
  "notes_time_types iArg type =
     (if iArg = 0 then type = INT_EXPR \<or> type = INT_ARR_EXPR else type = INT_EXPR \<or> type = REAL_EXPR)"

definition change_vol_acceptsArgUnitType :: "nat \<Rightarrow> StdUnit_t \<Rightarrow> bool" where
  "change_vol_acceptsArgUnitType iArg type = (if iArg = 1 then type = VM_NO_UNIT \<or> type = VM_BEL else type = VM_NO_UNIT)"

definition change_vol_acceptsArgUnitPrefix :: "nat \<Rightarrow> StdUnit_t \<Rightarrow> bool" where
  "change_vol_acceptsArgUnitPrefix iArg type \<longleftrightarrow> iArg = 1 \<and> type = VM_BEL"

definition Fn_change_vol :: "clib \<Rightarrow> script_function" where
  "Fn_change_vol L = (empty_result_fn 2 3 notes_number_types (change_vol L))
     \<lparr>sfn_acceptsArgUnitType := change_vol_acceptsArgUnitType,
      sfn_acceptsArgUnitPrefix := change_vol_acceptsArgUnitPrefix, sfn_acceptsArgFinal := (\<lambda>iArg. iArg = 1)\<rparr>"

definition Fn_change_tune :: "rtmath \<Rightarrow> script_function" where
  "Fn_change_tune R = (empty_result_fn 2 3 notes_number_types (change_tune R))
     \<lparr>sfn_acceptsArgUnitPrefix := (\<lambda>iArg _. iArg = 1), sfn_acceptsArgFinal := (\<lambda>iArg. iArg = 1)\<rparr>"

definition Fn_change_pan :: script_function where
  "Fn_change_pan = (empty_result_fn 2 3 notes_int_types change_pan)\<lparr>sfn_acceptsArgFinal := (\<lambda>iArg. iArg = 1)\<rparr>"

definition change_cutoff_acceptsArgUnitType :: "nat \<Rightarrow> StdUnit_t \<Rightarrow> bool" where
  "change_cutoff_acceptsArgUnitType iArg type =
     (if iArg = 1 then type = VM_NO_UNIT \<or> type = VM_HERTZ else type = VM_NO_UNIT)"

definition change_cutoff_acceptsArgUnitPrefix :: "nat \<Rightarrow> StdUnit_t \<Rightarrow> bool" where
  "change_cutoff_acceptsArgUnitPrefix iArg type \<longleftrightarrow> iArg = 1 \<and> type = VM_HERTZ"

definition warn_final :: "string \<Rightarrow> node list \<Rightarrow> ArgIssue list option" where
  "warn_final text args =
     (if length args < 2 then Some []
      else do { e \<leftarrow> arg_asNumber args 1; Some (if unitType e \<noteq> VM_NO_UNIT \<and> \<not> isFinal e then [ArgWrn text] else []) })"

definition change_cutoff_checkArgs :: "node list \<Rightarrow> vm \<Rightarrow> ArgIssue list option" where
  "change_cutoff_checkArgs args s =
     warn_final (''Argument 2 implies '' @ [CHR 0x27] @ ''final'' @ [CHR 0x27] @
       '' value when using Hz as unit for cutoff frequency.'') args"

definition Fn_change_cutoff :: script_function where
  "Fn_change_cutoff = (empty_result_fn 2 2 notes_number_types change_cutoff)
     \<lparr>sfn_acceptsArgUnitType := change_cutoff_acceptsArgUnitType,
      sfn_acceptsArgUnitPrefix := change_cutoff_acceptsArgUnitPrefix,
      sfn_acceptsArgFinal := (\<lambda>iArg. iArg = 1), sfn_checkArgs := change_cutoff_checkArgs\<rparr>"

definition Fn_change_reso :: script_function where
  "Fn_change_reso = (empty_result_fn 2 2 notes_int_types change_reso)\<lparr>sfn_acceptsArgFinal := (\<lambda>iArg. iArg = 1)\<rparr>"

definition eg_checkArgs :: "string \<Rightarrow> node list \<Rightarrow> vm \<Rightarrow> ArgIssue list option" where
  "eg_checkArgs what args s =
     warn_final (''Argument 2 implies '' @ [CHR 0x27] @ ''final'' @ [CHR 0x27] @
       '' value when using seconds as unit for '' @ what @ '' time.'') args"

definition eg_function :: "string \<Rightarrow> script_fn \<Rightarrow> script_function" where
  "eg_function what exec = (empty_result_fn 2 2 notes_time_types exec)
     \<lparr>sfn_acceptsArgUnitType := time_acceptsArgUnitType, sfn_acceptsArgUnitPrefix := time_acceptsArgUnitPrefix,
      sfn_acceptsArgFinal := (\<lambda>iArg. iArg = 1), sfn_checkArgs := eg_checkArgs what\<rparr>"

definition Fn_change_attack :: script_function where
  "Fn_change_attack = eg_function ''attack'' change_attack"

definition Fn_change_decay :: script_function where
  "Fn_change_decay = eg_function ''decay'' change_decay"

definition Fn_change_release :: script_function where
  "Fn_change_release = eg_function ''release'' change_release"

definition synth_acceptsArgType :: "synth_opt \<Rightarrow> nat \<Rightarrow> ExprType_t \<Rightarrow> bool" where
  "synth_acceptsArgType opt iArg type =
     (if iArg = 0 then type = INT_EXPR \<or> type = INT_ARR_EXPR
      else type = INT_EXPR \<or> so_acceptReal opt \<and> type = REAL_EXPR)"

definition synth_acceptsArgUnitType :: "synth_opt \<Rightarrow> nat \<Rightarrow> StdUnit_t \<Rightarrow> bool" where
  "synth_acceptsArgUnitType opt iArg type =
     (if iArg = 1 then type = VM_NO_UNIT \<or> type = so_unit opt else type = VM_NO_UNIT)"

definition synth_acceptsArgUnitPrefix :: "synth_opt \<Rightarrow> nat \<Rightarrow> StdUnit_t \<Rightarrow> bool" where
  "synth_acceptsArgUnitPrefix opt iArg type \<longleftrightarrow> so_acceptUnitPrefix opt \<and> iArg = 1 \<and> type = so_unit opt"

definition synth_acceptsArgFinal :: "synth_opt \<Rightarrow> nat \<Rightarrow> bool" where
  "synth_acceptsArgFinal opt iArg = (if so_acceptFinal opt then iArg = 1 else False)"

definition synth_checkArgs :: "synth_opt \<Rightarrow> node list \<Rightarrow> vm \<Rightarrow> ArgIssue list option" where
  "synth_checkArgs opt args s =
     (if so_unit opt \<noteq> VM_NO_UNIT \<and> so_unit opt \<noteq> VM_BEL \<and> 2 \<le> length args then
        (case arg_asNumber args 1 of None \<Rightarrow> Some []
         | Some e \<Rightarrow> Some (if unitType e \<noteq> VM_NO_UNIT \<and> \<not> isFinal e
             then [ArgWrn (''Argument 2 implies '' @ [CHR 0x27] @ ''final'' @ [CHR 0x27] @ '' value when unit type '' @
                     unitTypeStr (unitType e) @ '' is used.'')] else []))
      else Some [])"

definition synth_function :: "synth_opt \<Rightarrow> script_fn \<Rightarrow> script_function" where
  "synth_function opt exec = (empty_result_fn 2 2 (synth_acceptsArgType opt) exec)
     \<lparr>sfn_acceptsArgUnitType := synth_acceptsArgUnitType opt,
      sfn_acceptsArgUnitPrefix := synth_acceptsArgUnitPrefix opt,
      sfn_acceptsArgFinal := synth_acceptsArgFinal opt, sfn_checkArgs := synth_checkArgs opt\<rparr>"

definition Fn_fade_in :: script_function where
  "Fn_fade_in = (empty_result_fn 2 2 notes_time_types fade_in)
     \<lparr>sfn_acceptsArgUnitType := time_acceptsArgUnitType, sfn_acceptsArgUnitPrefix := time_acceptsArgUnitPrefix\<rparr>"

definition Fn_fade_out :: script_function where
  "Fn_fade_out = (empty_result_fn 2 3 notes_time_types fade_out)
     \<lparr>sfn_acceptsArgUnitType := time_acceptsArgUnitType, sfn_acceptsArgUnitPrefix := time_acceptsArgUnitPrefix\<rparr>"

definition curve_function :: "script_fn \<Rightarrow> script_function" where
  "curve_function exec = empty_result_fn 2 2 notes_int_types exec"

section \<open>InstrumentScriptVM::functionByName\<close>

text \<open>The chain of comparisons; names that are not found here are those of the core functions.\<close>

definition script_functions :: "clib \<Rightarrow> rtmath \<Rightarrow> (string \<times> script_function) list" where
  "script_functions L R =
    [(''play_note'', Fn_play_note), (''set_controller'', Fn_set_controller), (''set_rpn'', Fn_set_rpn),
     (''set_nrpn'', Fn_set_nrpn), (''ignore_event'', Fn_ignore_event),
     (''ignore_controller'', Fn_ignore_controller), (''note_off'', Fn_note_off),
     (''set_event_mark'', Fn_set_event_mark), (''delete_event_mark'', Fn_delete_event_mark),
     (''by_marks'', Fn_by_marks), (''change_vol'', Fn_change_vol L),
     (''change_vol_time'', synth_function opt_time (change_vol_time L)),
     (''change_tune'', Fn_change_tune R), (''change_tune_time'', synth_function opt_time (change_tune_time L)),
     (''change_note'', Fn_change_note), (''change_velo'', Fn_change_velo), (''change_pan'', Fn_change_pan),
     (''change_pan_time'', synth_function opt_time (change_pan_time L)),
     (''change_pan_curve'', curve_function change_pan_curve), (''change_cutoff'', Fn_change_cutoff),
     (''change_reso'', Fn_change_reso), (''change_attack'', Fn_change_attack),
     (''change_decay'', Fn_change_decay), (''change_sustain'', synth_function opt_bel (change_sustain L)),
     (''change_release'', Fn_change_release),
     (''change_cutoff_attack'', synth_function opt_second (change_cutoff_attack L)),
     (''change_cutoff_decay'', synth_function opt_second (change_cutoff_decay L)),
     (''change_cutoff_sustain'', synth_function opt_bel (change_cutoff_sustain L)),
     (''change_cutoff_release'', synth_function opt_second (change_cutoff_release L)),
     (''change_amp_lfo_depth'', synth_function opt_depth (change_amp_lfo_depth L)),
     (''change_amp_lfo_freq'', synth_function opt_hertz (change_amp_lfo_freq L)),
     (''change_cutoff_lfo_depth'', synth_function opt_depth (change_cutoff_lfo_depth L)),
     (''change_cutoff_lfo_freq'', synth_function opt_hertz (change_cutoff_lfo_freq L)),
     (''change_pitch_lfo_depth'', synth_function opt_depth (change_pitch_lfo_depth L)),
     (''change_pitch_lfo_freq'', synth_function opt_hertz (change_pitch_lfo_freq L)),
     (''fade_in'', Fn_fade_in), (''fade_out'', Fn_fade_out),
     (''change_vol_curve'', curve_function change_vol_curve),
     (''change_tune_curve'', curve_function change_tune_curve), (''change_play_pos'', Fn_change_play_pos),
     (''get_event_par'', Fn_get_event_par L R), (''set_event_par'', Fn_set_event_par),
     (''event_status'', Fn_event_status), (''wait'', Fn_wait2), (''stop_wait'', Fn_stop_wait),
     (''abort'', Fn_abort), (''fork'', Fn_fork), (''callback_status'', Fn_callback_status)]"

definition InstrumentScriptVM_functionByName :: "clib \<Rightarrow> rtmath \<Rightarrow> string \<Rightarrow> script_function option" where
  "InstrumentScriptVM_functionByName L R name = map_of (script_functions L R) name"

end
