(* ===== verification/ScriptFnSound.thy ===== *)
theory ScriptFnSound
  imports CallSteps ScriptFnTable
begin

text \<open>
  A call of a built-in function that the parser accepts returns, gives an object of the function's return type,
  and keeps the invariant of the channel.
\<close>

section \<open>Sound calls\<close>

fun result_type :: "fn_result \<Rightarrow> ExprType_t" where
  "result_type (Res r) = VMFnResult_exprType r"
| "result_type (ByMarksRes _ _) = INT_ARR_EXPR"

definition good :: "(vm \<Rightarrow> bool) \<Rightarrow> ExprType_t \<Rightarrow> fn_result \<times> chan \<Rightarrow> bool" where
  "good J t = (\<lambda>(r, c). ok J c \<and> result_type r = t)"

lemma good_simps [simp]:
  "good J t (r, c) \<longleftrightarrow> ok J c \<and> result_type r = t"
  "runs (empty_success c) (good J t) \<longleftrightarrow> ok J c \<and> t = EMPTY_EXPR" "runs (empty_error c) (good J t) \<longleftrightarrow> ok J c \<and> t = EMPTY_EXPR"
  "runs (int_success v c) (good J t) \<longleftrightarrow> ok J c \<and> t = INT_EXPR" "runs (int_error v c) (good J t) \<longleftrightarrow> ok J c \<and> t = INT_EXPR"
  by (auto simp: good_def empty_success_def empty_error_def int_success_def int_error_def)

lemma runs_int:
  assumes "ok J c" "args_total J args" "k < length args" "exprType (args ! k) = INT_EXPR"
    and "\<And>v c'. ok J c' \<Longrightarrow> ch_pScript c' = ch_pScript c \<Longrightarrow> P (v, c')"
  shows "runs (int_arg args k c) P"
  by (rule runs_int_arg [OF assms(1-4)]) (simp add: assms(5) ok_vm [OF assms(1)])

lemma runs_opt_int:
  assumes "ok J c" "args_total J args" "k < length args \<Longrightarrow> exprType (args ! k) = INT_EXPR"
    and "\<And>v c'. ok J c' \<Longrightarrow> ch_pScript c' = ch_pScript c \<Longrightarrow> P (v, c')"
  shows "runs (opt_int_arg args k d c) P"
  by (rule runs_opt_int_arg [OF assms(1,2)]) (simp_all add: assms(3,4) ok_vm [OF assms(1)])

lemma runs_time:
  assumes "ok J c" "args_total J args" "k < length args" "exprType (args ! k) = INT_EXPR \<or> exprType (args ! k) = REAL_EXPR"
    and "\<And>v c'. ok J c' \<Longrightarrow> P (v, c')"
  shows "runs (time_arg args k c) P"
  by (rule runs_time_arg [OF assms(1-4)]) (simp add: assms(5) ok_vm [OF assms(1)])

lemma runs_Note:
  assumes "\<And>n. P n"
  shows "runs (NoteByID i c) P"
  by (rule runs_NoteByID) (simp_all add: assms)

lemma runs_apply:
  assumes "ok J c" "args_total J args" "0 < length args" "\<And>i n. keeps J (f i n)" "\<And>c'. ok J c' \<Longrightarrow> P c'"
  shows "runs (apply_to_notes name f args c) P"
  by (rule runs_apply_to_notes [OF assms(1-4)]) (rule assms(5))

text \<open>The rules that mention \<open>J\<close>, and those that do not.\<close>

lemmas call_rules = runs_int runs_opt_int runs_time runs_now_event runs_note_is_new runs_schedule_ok runs_apply

lemmas step_rules = runs_Note runs_param_store

section \<open>play_note\<close>

definition note_event :: "Event \<Rightarrow> bool" where
  "note_event e \<longleftrightarrow> bytes_event e \<and> (\<exists>key. get_Note_Key e = Some key \<and> key < 128)"

lemma runs_play_note_event:
  assumes "ok J c" "0 \<le> sint note" "sint note \<le> 127" "\<And>e. note_event e \<Longrightarrow> P e"
  shows "runs (play_note_event note velocity c) P"
  unfolding play_note_event_def runs_simps
proof (rule runs_now_event [OF assms(1)])
  fix e assume e: "bytes_event e"
  obtain e1 where e1: "set_Note_Key (sint note) e = Some e1" "bytes_event e1" "get_Note_Key e1 = Some (sint note)"
    using param_store_ok [OF e, of 1 1 "sint note"] assms(2,3) by auto
  obtain e2 where e2: "set_Note_Velocity (sint velocity) e1 = Some e2" "bytes_event e2" "get_Note_Key e2 = Some (sint note)"
    using param_store_ok [OF e1(2), of 2 1 "sint velocity"] e1(3) by auto
  have "P e2" using e2 assms(3) by (intro assms(4)) (simp add: note_event_def)
  then show "runs (set_Note_Key (sint note) e) (\<lambda>e. runs (set_Note_Velocity (sint velocity) e) P)"
    using e1(1) e2(1) by simp
qed

definition play_note_types :: "node list \<Rightarrow> bool" where
  "play_note_types args \<longleftrightarrow> 1 \<le> length args \<and> length args \<le> 4 \<and>
     (\<forall>k < length args. play_note_acceptsArgType k (exprType (args ! k)))"

lemma play_note_typesD:
  assumes "play_note_types args"
  shows "exprType (args ! 0) = INT_EXPR" "0 < length args" "1 < length args \<Longrightarrow> exprType (args ! 1) = INT_EXPR"
    "2 < length args \<Longrightarrow> exprType (args ! 2) = INT_EXPR \<or> exprType (args ! 2) = REAL_EXPR"
    "3 < length args \<Longrightarrow> exprType (args ! 3) = INT_EXPR \<or> exprType (args ! 3) = REAL_EXPR"
proof -
  have a: "0 < length args" "\<And>k. k < length args \<Longrightarrow> play_note_acceptsArgType k (exprType (args ! k))"
    using assms by (auto simp: play_note_types_def)
  show "0 < length args" "exprType (args ! 0) = INT_EXPR" "1 < length args \<Longrightarrow> exprType (args ! 1) = INT_EXPR"
    "2 < length args \<Longrightarrow> exprType (args ! 2) = INT_EXPR \<or> exprType (args ! 2) = REAL_EXPR"
    "3 < length args \<Longrightarrow> exprType (args ! 3) = INT_EXPR \<or> exprType (args ! 3) = REAL_EXPR"
    using a(1) a(2) [of 0] a(2) [of 1] a(2) [of 2] a(2) [of 3] by (simp_all add: play_note_acceptsArgType_def)
qed

lemma runs_play_note_schedule:
  assumes c: "ok J c" and args: "args_total J args" "play_note_types args"
    and e: "note_event e"
  shows "runs (play_note_schedule e d args c) (good J INT_EXPR)"
proof -
  have offset: "runs (play_note_offset i args c') (ok J)" if "ok J c'" for i c'
    using that args(1) play_note_typesD(4) [OF args(2)] unfolding play_note_offset_def
    by (auto intro!: runs_time runs_Note split: option.split)
  have stop: "runs (play_note_stop i d e c') (ok J)" if "ok J c'" for i c'
  proof -
    have "bytes_event (e\<lparr>ev_Type := type_stop_note\<rparr>)" using e by (simp add: note_event_def)
    then show ?thesis using that unfolding play_note_stop_def by (auto intro!: runs_param_store runs_schedule_ok)
  qed
  obtain key where key: "bytes_event e" "get_Note_Key e = Some key" "key < 128" using e by (auto simp: note_event_def)
  show ?thesis unfolding play_note_schedule_def runs_simps
    by (rule runs_ScheduleNoteMicroSec [OF okD(1) [OF c] key])
      (auto intro!: runs_mono [OF offset] runs_mono [OF stop] ok_step [OF _ _ c])
qed

lemma play_note_sound:
  assumes c: "ok J c" and args: "args_total J args" "play_note_types args"
  shows "runs (play_note args c) (good J INT_EXPR)"
proof -
  have ty: "exprType (args ! 0) = INT_EXPR" "0 < length args" "Suc 0 < length args \<Longrightarrow> exprType (args ! Suc 0) = INT_EXPR"
    "4 \<le> length args \<Longrightarrow> exprType (args ! 3) = INT_EXPR \<or> exprType (args ! 3) = REAL_EXPR"
    using play_note_typesD [OF args(2)] by auto
  have parent: "runs (play_note_parent e c') (\<lambda>p. runs (case p of None \<Rightarrow> int_success 0 c' | Some e \<Rightarrow> play_note_schedule e d args c') (good J INT_EXPR))"
    if e: "note_event e" and c': "ok J c'" for e c' d
    unfolding play_note_parent_def runs_simps
  proof (rule runs_m_event [OF okD(1) [OF c']], rule runs_param_load [OF script_event_ok_cause(2)])
    fix m and k :: int
    obtain e' where "set_Note_ParentNoteID k e = Some e'" "note_event e'"
      using e param_store_ok [of e 16 8 k] by (auto simp: note_event_def)
    then show "runs (set_Note_ParentNoteID k e) (\<lambda>e. runs (NoteByID (word_of_int k) c')
       (\<lambda>n. runs (case if n = None then None else Some e of None \<Rightarrow> int_success 0 c' | Some e \<Rightarrow> play_note_schedule e d args c') (good J INT_EXPR)))"
      using c' by (auto intro!: runs_Note runs_play_note_schedule [OF c' args])
  qed auto
  show ?thesis unfolding play_note_def runs_simps
    by (rule runs_int [OF c args(1) ty(2,1)])
      (auto simp: Let_def not_less intro!: call_rules [where J = J] args ty runs_play_note_event [where J = J] parent
        runs_play_note_schedule)
qed

section \<open>Functions with integer arguments\<close>

definition int_types :: "node list \<Rightarrow> bool" where
  "int_types args \<longleftrightarrow> (\<forall>k < length args. exprType (args ! k) = INT_EXPR)"

lemma int_typesD: "int_types args \<Longrightarrow> k < length args \<Longrightarrow> exprType (args ! k) = INT_EXPR"
  by (simp add: int_types_def)

lemma runs_schedule_result: "ok J c \<Longrightarrow> runs (schedule_result e c) (good J INT_EXPR)"
  unfolding schedule_result_def runs_simps
  by (rule runs_ScheduleEventMicroSec [OF okD(1)]) (auto intro: ok_step)

lemma event_functions_sound:
  assumes c: "ok J c" and args: "args_total J args" "int_types args" "length args = 2"
  shows "runs (set_controller args c) (good J INT_EXPR)" "runs (set_rpn args c) (good J INT_EXPR)"
    "runs (set_nrpn args c) (good J INT_EXPR)"
proof -
  have ne: "args \<noteq> []" using args(3) by auto
  note rules = call_rules [where J = J] step_rules runs_schedule_result c args(1) int_typesD [OF args(2)] ne
  show "runs (set_controller args c) (good J INT_EXPR)"
    unfolding set_controller_def by (auto simp: args(3) intro!: rules)
  show "runs (set_rpn args c) (good J INT_EXPR)"
    unfolding set_rpn_def by (auto simp: args(3) intro!: rules)
  show "runs (set_nrpn args c) (good J INT_EXPR)"
    unfolding set_nrpn_def by (auto simp: args(3) intro!: rules)
qed

section \<open>Events, marks and parameters\<close>

lemma runs_Ignore:
  assumes "ok J c" "\<And>c'. ok J c' \<Longrightarrow> P c'"
  shows "runs (IgnoreEventByScriptID i c) P"
  by (rule runs_IgnoreEventByScriptID [OF okD(1) [OF assms(1)]]) (blast intro: assms(2) ok_step [OF _ _ assms(1)])

lemma runs_this_event:
  assumes "ok J c" "\<And>e. script_event_ok e \<Longrightarrow> P e"
  shows "runs (m_event c) P"
  by (rule runs_m_event [OF okD(1) [OF assms(1)]]) (rule assms(2))

lemma runs_set_event:
  assumes "ok J c" "script_event_ok e" "\<And>c'. ok J c' \<Longrightarrow> P c'"
  shows "runs (set_script_event i e c) P"
  by (rule runs_set_script_event [OF okD(1) [OF assms(1)] assms(2)]) (blast intro: assms(3) ok_step [OF _ _ assms(1)])

lemmas event_rules = runs_Ignore runs_this_event runs_set_event

lemma keeps_Ignore: "keeps J (IgnoreEventByScriptID i)"
  by (rule keepsI, rule runs_IgnoreEventByScriptID, erule okD(1)) (auto intro: ok_step)

lemma ignore_event_sound:
  assumes c: "ok J c" and args: "args_total J args" "length args \<le> 1"
    and types: "\<forall>k < length args. ignore_event_acceptsArgType k (exprType (args ! k))"
  shows "runs (ignore_event args c) (good J EMPTY_EXPR)"
proof (cases "length args = 0")
  case True
  then show ?thesis unfolding ignore_event_def using c by (auto intro!: event_rules [where J = J])
next
  case False
  then have e: "0 < length args" "nth_opt args 0 = Some (args ! 0)" by (auto simp: nth_opt_def)
  show ?thesis
  proof (cases "exprType (args ! 0) = INT_EXPR")
    case True
    have "runs (int_arg args 0 c) (\<lambda>(i, c). runs (if i = 0 then empty_success (msg ''ignore_event(): event ID argument may not be zero'' c)
          else do { c \<leftarrow> IgnoreEventByScriptID i c; empty_success c }) (good J EMPTY_EXPR))"
      by (rule runs_int [OF c args(1) e(1) True]) (auto intro!: event_rules [where J = J])
    then show ?thesis using e True by (simp add: ignore_event_def case_prod_unfold)
  next
    case not_int: False
    then have t: "exprType (args ! 0) = INT_ARR_EXPR" using types e(1) by (auto simp: ignore_event_acceptsArgType_def)
    then obtain a n where a: "asIntArray (args ! 0) = Some a"
        "\<forall>s. J s \<longrightarrow> arraySize a s = Some n \<and> (\<forall>i. 0 \<le> sint i \<and> sint i < sint n \<longrightarrow> evalElement a i s \<noteq> None)"
      using args_totalD [OF args(1) e(1)] by (auto simp: arg_total_def)
    show ?thesis
      using runs_for_ids_from [OF c a(2) _ keeps_Ignore, of 0] a(1) e t not_int
      by (auto simp: ignore_event_def elim: runs_mono)
  qed
qed

lemma ignore_controller_sound:
  assumes c: "ok J c" and args: "args_total J args" "int_types args" "length args \<le> 1"
  shows "runs (ignore_controller args c) (good J EMPTY_EXPR)"
  unfolding ignore_controller_def using c
  by (auto intro!: call_rules [where J = J] event_rules [where J = J] int_typesD [OF args(2)] args(1))

lemma note_off_sound:
  assumes c: "ok J c" and args: "args_total J args" "0 < length args" "Suc 0 < length args \<Longrightarrow> exprType (args ! Suc 0) = INT_EXPR"
  shows "runs (note_off args c) (good J EMPTY_EXPR)"
  unfolding note_off_def
  by (auto intro!: call_rules [where J = J] keeps_note_off_event c args)

lemma group_in_range: "\<not> invalid_group k \<Longrightarrow> nat (sint k) < INSTR_SCRIPT_EVENT_GROUPS"
  by (auto simp: invalid_group_def)

lemma runs_update_group:
  assumes c: "ok J c" and k: "k < INSTR_SCRIPT_EVENT_GROUPS"
    and f: "\<And>s g. ch_pScript c = Some s \<Longrightarrow> g \<in> set (is_eventGroups s) \<Longrightarrow> group_ok g \<Longrightarrow> \<exists>g'. f g = Some g' \<and> group_ok g'"
    and P: "\<And>c'. ok J c' \<Longrightarrow> P c'"
  shows "runs (update_group k f c) P"
proof -
  obtain s where s: "ch_pScript c = Some s" "script_inv s" "ch_m_event c < poolsize (is_pEvents s)"
    using okD(1) [OF c] by (auto simp: chan_inv_parts script_ok_def)
  have len: "k < length (is_eventGroups s)" using s(2) k by (simp add: script_inv_def)
  then have "group_ok (is_eventGroups s ! k)" using s(2) by (simp add: script_inv_def)
  then obtain g where g: "f (is_eventGroups s ! k) = Some g" "group_ok g" using f [OF s(1) nth_mem [OF len]] by blast
  have "script_inv (s\<lparr>is_eventGroups := (is_eventGroups s)[k := g]\<rparr>)"
    using s(2) g(2) set_update_subset_insert [of "is_eventGroups s" k g] by (auto simp: script_inv_def)
  then have "ok J (c\<lparr>ch_pScript := Some (s\<lparr>is_eventGroups := (is_eventGroups s)[k := g]\<rparr>)\<rparr>)"
    using c s(3) by (simp add: ok_def chan_inv_parts script_ok_def)
  then show ?thesis using s(1) len g(1) P by (simp add: update_group_def nth_opt_def upd_opt_def)
qed

lemma runs_id_alive:
  assumes "\<And>b. P b"
  shows "runs (id_alive i c) P"
  unfolding id_alive_def EventByID_def using assms by (auto intro!: runs_Note runs_fromID)

lemma set_event_mark_sound:
  assumes c: "ok J c" and args: "args_total J args" "int_types args" "length args = 2"
  shows "runs (set_event_mark args c) (good J EMPTY_EXPR)"
proof -
  have ne: "args \<noteq> []" using args(3) by auto
  have insert: "\<exists>g'. EventGroup_insert b v g = Some g' \<and> group_ok g'" if "group_ok g" for b v g
    using EventGroup_insert_eq [OF that] by blast
  show ?thesis unfolding set_event_mark_def EventByID_def
    by (auto simp: args(3) ne intro!: call_rules [where J = J] int_typesD [OF args(2)] args(1) c runs_id_alive runs_fromID
        runs_update_group [where J = J] group_in_range insert)
qed

text \<open>Erasing needs room for one more ID, as it reads the element behind the one that it erases.\<close>

lemma find_loop_cases: "n + length xs < 2 ^ 63 \<Longrightarrow> find_loop v n xs = - 1 \<or> unat (find_loop v n xs) < n + length xs"
proof (induction v n xs rule: find_loop.induct)
  case (2 v i x xs)
  then show ?case by (auto simp: unat_of_nat take_bit_nat_eq_self)
qed simp

lemma EventGroup_erase_total:
  assumes ok: "group_ok g" and room: "ca_size g < ca_capacity g"
  shows "\<exists>g'. EventGroup_erase i g = Some g' \<and> group_ok g'"
proof -
  have len: "ca_size g < length (ca_data g)" "length (ca_data g) < 2 ^ 63"
    using assms group_okD by (auto simp: ca_capacity_def)
  then have "0 + length (take (ca_size g) (ca_data g)) < 2 ^ 63" by simp
  from find_loop_cases [OF this, of i] have f: "ca_find i g = - 1 \<or> unat (ca_find i g) < ca_size g"
    using len by (simp add: ca_find_def)
  have big: "ca_size g \<le> unat (- 1 :: 64 word)" using len by (simp add: unsigned_minus_1_eq_mask mask_eq_exp_minus_1)
  show ?thesis using f
  proof
    assume "ca_find i g = - 1"
    then show ?thesis using ok big by (simp add: EventGroup_erase_def ca_remove_def)
  next
    assume "unat (ca_find i g) < ca_size g"
    then show ?thesis using ok len
      by (auto simp: EventGroup_erase_def ca_remove_def nth_opt_def upd_opt_def group_ok_def ca_capacity_def)
  qed
qed

definition groups_room :: "chan \<Rightarrow> bool" where
  "groups_room c \<longleftrightarrow> (\<forall>s. ch_pScript c = Some s \<longrightarrow> (\<forall>g \<in> set (is_eventGroups s). ca_size g < ca_capacity g))"

lemma delete_event_mark_sound:
  assumes c: "ok J c" "groups_room c" and args: "args_total J args" "int_types args" "length args = 2"
  shows "runs (delete_event_mark args c) (good J EMPTY_EXPR)"
proof -
  have ne: "args \<noteq> []" using args(3) by auto
  have erase: "\<exists>g'. EventGroup_erase i g = Some g' \<and> group_ok g'"
    if "Some s = ch_pScript c" "g \<in> set (is_eventGroups s)" "group_ok g" for s g i
    using that c(2) EventGroup_erase_total [of g i] unfolding groups_room_def by (metis (no_types))
  show ?thesis unfolding delete_event_mark_def
    by (auto simp: args(3) ne intro!: call_rules [where J = J] int_typesD [OF args(2)] args(1) c(1)
        runs_update_group [where J = J] group_in_range erase)
qed

lemma by_marks_sound:
  assumes c: "ok J c" and args: "args_total J args" "int_types args" "length args = 1"
  shows "runs (by_marks args c) (good J INT_ARR_EXPR)"
proof -
  have ne: "args \<noteq> []" using args(3) by auto
  have s: "runs (ch_pScript c') (\<lambda>s. P)" if "ok J c'" P for c' P
    using okD(1) [OF that(1)] that(2) by (auto simp: chan_inv_parts script_ok_def)
  show ?thesis unfolding by_marks_def
    by (auto simp: ne intro!: call_rules [where J = J] int_typesD [OF args(2)] args(1) c s)
qed

lemma event_par_user: "event_par_of p = Some (EVENT_PAR_USER k) \<Longrightarrow> k < 4"
  by (auto simp: event_par_of_def split: if_splits)

lemma ok_note: "ok J c \<Longrightarrow> note_ok (note_at n c)"
  by (auto simp: ok_def chan_inv_parts intro: notes_inv_note)

lemma ok_set_note: "ok J c \<Longrightarrow> note_ok x \<Longrightarrow> ok J (set_note n x c)"
  by (simp add: ok_def chan_inv_parts)

lemma get_event_par_sound:
  assumes c: "ok J c" and args: "args_total J args" "int_types args" "length args = 2"
  shows "runs (get_event_par L R args c) (good J INT_EXPR)"
proof -
  have ne: "args \<noteq> []" using args(3) by auto
  have user: "runs (nth_opt (nb_userPar (note_at n c')) k) (\<lambda>_. P)" if "ok J c'" "event_par_of p = Some (EVENT_PAR_USER k)" P for c' p k P n
    using note_okD(4) [OF ok_note [OF that(1), of n]] event_par_user [OF that(2)] that(3) by (simp add: nth_opt_def)
  show ?thesis unfolding get_event_par_def
    by (auto simp: args(3) ne Let_def intro!: call_rules [where J = J] int_typesD [OF args(2)] args(1) c runs_Note
        runs_param_load note_okD(1) ok_note [where J = J] user split: option.split event_par.split)
qed

lemma runs_set_cause_if_new:
  assumes c: "ok J c" and f: "\<And>e. bytes_event e \<Longrightarrow> \<exists>e'. f e = Some e' \<and> bytes_event e'" and P: "\<And>c'. ok J c' \<Longrightarrow> P c'"
  shows "runs (set_cause_if_new f t n c) P"
proof -
  obtain e where e: "f (nb_cause (note_at n c)) = Some e" "bytes_event e"
    using f note_okD(1) [OF ok_note [OF c]] by blast
  have c1: "ok J (set_note n ((note_at n c)\<lparr>nb_cause := e\<rparr>) c)"
    using c note_ok_cause [OF ok_note [OF c] e(2)] by (rule ok_set_note)
  have "runs (set_cause f n c) P" unfolding set_cause_def e(1) bind.bind_lunit runs_simps
  proof (rule runs_this_event [OF c])
    fix m assume m: "script_event_ok m"
    obtain e' where e': "f (se_cause m) = Some e'" "bytes_event e'" using f script_event_ok_cause(2) [OF m] by blast
    have "runs (set_script_event (ch_m_event c) (m\<lparr>se_cause := e'\<rparr>) (set_note n ((note_at n c)\<lparr>nb_cause := e\<rparr>) c)) P"
      by (rule runs_set_event [OF c1]) (use script_event_ok_cause(1) [OF m e'(2)] P in auto)
    then show "runs (f (se_cause m))
      (\<lambda>e'. runs (set_script_event (ch_m_event c) (m\<lparr>se_cause := e'\<rparr>) (set_note n ((note_at n c)\<lparr>nb_cause := e\<rparr>) c)) P)"
      using e'(1) by simp
  qed
  then show ?thesis unfolding set_cause_if_new_def runs_simps
    using c P by (intro runs_note_is_new [OF c]) auto
qed

lemma set_ok: "bytes_event e \<Longrightarrow> off + n \<le> 32 \<Longrightarrow> \<exists>e'. param_store off n k e = Some e' \<and> bytes_event e'"
  using param_store_ok by blast

lemma set_event_par_sound:
  assumes c: "ok J c" and args: "args_total J args" "int_types args" "length args = 3"
  shows "runs (set_event_par args c) (good J EMPTY_EXPR)"
proof -
  have ne: "args \<noteq> []" using args(3) by auto
  have user: "runs (upd_opt (nb_userPar (note_at n c')) k v) (\<lambda>u. ok J (set_note n ((note_at n c')\<lparr>nb_userPar := u\<rparr>) c'))"
    if "ok J c'" "event_par_of p = Some (EVENT_PAR_USER k)" for c' p k n v
  proof -
    have "note_ok ((note_at n c')\<lparr>nb_userPar := (nb_userPar (note_at n c'))[k := v]\<rparr>)"
      using ok_note [OF that(1), of n] by (simp add: note_ok_def)
    then show ?thesis using note_okD(4) [OF ok_note [OF that(1), of n]] event_par_user [OF that(2)] ok_set_note [OF that(1)]
      by (simp add: upd_opt_def)
  qed
  show ?thesis unfolding set_event_par_def
    by (auto simp: args(3) ne intro!: call_rules [where J = J] int_typesD [OF args(2)] args(1) c runs_Note
        runs_set_cause_if_new [where J = J] set_ok user split: option.split event_par.split)
qed

lemma change_note_velo_sound:
  assumes c: "ok J c" and args: "args_total J args" "int_types args" "length args = 2"
  shows "runs (change_note args c) (good J EMPTY_EXPR)" "runs (change_velo args c) (good J EMPTY_EXPR)"
proof -
  have ne: "args \<noteq> []" using args(3) by auto
  note rules = call_rules [where J = J] int_typesD [OF args(2)] args(1) c runs_Note runs_set_cause_if_new [where J = J] set_ok
  show "runs (change_note args c) (good J EMPTY_EXPR)"
    unfolding change_note_def by (auto simp: args(3) ne intro!: rules split: option.split)
  show "runs (change_velo args c) (good J EMPTY_EXPR)"
    unfolding change_velo_def by (auto simp: args(3) ne intro!: rules split: option.split)
qed

lemma change_play_pos_sound:
  assumes c: "ok J c" and args: "args_total J args" "exprType (args ! 0) = INT_EXPR" "length args = 2"
    "exprType (args ! 1) = INT_EXPR \<or> exprType (args ! 1) = REAL_EXPR"
  shows "runs (change_play_pos args c) (good J EMPTY_EXPR)"
proof -
  have ne: "args \<noteq> []" using args(3) by auto
  show ?thesis unfolding change_play_pos_def
    by (auto simp: args(3) ne intro!: call_rules [where J = J] args(1,2) args(4) [simplified] c
        keepsD [OF keeps_for_note_id [OF keeps_play_pos [where J = J]]])
qed

lemma event_status_sound:
  assumes c: "ok J c" and args: "args_total J args" "int_types args" "length args = 1"
  shows "runs (event_status args c) (good J INT_EXPR)"
proof -
  have ne: "args \<noteq> []" using args(3) by auto
  show ?thesis unfolding event_status_def
    by (auto simp: ne intro!: call_rules [where J = J] int_typesD [OF args(2)] args(1) c runs_Note)
qed

section \<open>Callbacks\<close>

lemma runs_Callback:
  assumes "ok J c" "\<And>it. P it"
  shows "runs (ScriptCallbackByID i c) P"
  by (rule runs_ScriptCallbackByID [OF okD(1) [OF assms(1)] assms(2)])

lemma callback_status_sound:
  assumes c: "ok J c" and args: "args_total J args" "int_types args" "length args = 1"
  shows "runs (callback_status args c) (good J INT_EXPR)"
proof -
  have ne: "args \<noteq> []" using args(3) by auto
  show ?thesis unfolding callback_status_def
    by (auto simp: ne intro!: call_rules [where J = J] int_typesD [OF args(2)] args(1) c runs_Callback [where J = J]
        split: option.split)
qed

definition wait_done :: "(vm \<Rightarrow> bool) \<Rightarrow> nat \<times> vm \<Rightarrow> bool" where
  "wait_done J = (\<lambda>(k, s). J s \<and> (\<exists>f. fnResult s k = Some (VMEmptyResult f)))"

lemma put_empty_wait:
  assumes "vm_closed J" "J s"
  shows "runs (put_empty Fn_wait f s) (wait_done J)"
proof -
  have "\<exists>n g. boundResult s Fn_wait = Some n \<and> fnResult s n = Some (VMEmptyResult g) \<and>
       (\<forall>f. J (s\<lparr>fnResult := (fnResult s)(n \<mapsto> VMEmptyResult f)\<rparr>))"
    using assms by (simp add: vm_closed_def)
  then obtain n g where n: "boundResult s Fn_wait = Some n" "fnResult s n = Some (VMEmptyResult g)"
    and J: "J (s\<lparr>fnResult := (fnResult s)(n \<mapsto> VMEmptyResult f)\<rparr>)" by auto
  have "put_empty Fn_wait f s = Some (n, s\<lparr>fnResult := (fnResult s)(n \<mapsto> VMEmptyResult f)\<rparr>)"
    unfolding put_empty_def put_result_def n bind.bind_lunit by (simp add: n)
  then show ?thesis by (rule runsI) (simp add: wait_done_def J)
qed

lemma wait_sound:
  assumes c: "ok J c" and args: "args_total J args" "length args = 1" "exprType (args ! 0) = INT_EXPR \<or> exprType (args ! 0) = REAL_EXPR"
  shows "runs (wait_fn args c) (good J EMPTY_EXPR)"
proof -
  have J: "vm_closed J" "J (ch_vm c)" using c by (simp_all add: ok_def)
  have k: "0 < length args" using args(2) by simp
  note total = args_totalD [OF args(1) k]
  have closed: "J (printMsg t s)" "J (upd_ctx (\<lambda>x. x\<lparr>suspendMicroseconds := us\<rparr>) s)" if "J s" for t s us
    using J(1) that by (simp_all add: vm_closed_def)
  have us: "runs (if unitType (args ! 0) \<noteq> VM_NO_UNIT then evalCastInt_prefix (args ! 0) VM_MICRO (ch_vm c)
      else evalCastInt (args ! 0) (ch_vm c)) (\<lambda>(us, s). J s)"
    using runs_evalCastInt_prefix(1) [OF total args(3) J(2)] arg_totalD(5) [OF total args(3) J(2)] by auto
  have "runs (CoreVMFunction_wait_exec args (ch_vm c)) (wait_done J)"
    unfolding CoreVMFunction_wait_exec_def arg_asNumber_eq [OF args(1) k args(3)] bind.bind_lunit
    unfolding runs_simps
    by (rule runs_mono [OF us]) (auto intro!: put_empty_wait J(1) closed)
  moreover have "runs (VMEmptyResultFunction_successResult Fn_wait (ch_vm c)) (wait_done J)"
    unfolding VMEmptyResultFunction_successResult_def by (rule put_empty_wait [OF J])
  ultimately have w: "runs (if b then VMEmptyResultFunction_successResult Fn_wait (ch_vm c)
      else CoreVMFunction_wait_exec args (ch_vm c)) (wait_done J)" for b by simp
  show ?thesis unfolding wait_fn_def runs_simps
    by (rule runs_this_event [OF c], rule runs_mono [OF w]) (auto simp: good_def wait_done_def intro!: ok_vm [OF c])
qed

lemma stop_wait_sound:
  assumes c: "ok J c" and args: "args_total J args" "int_types args" "1 \<le> length args"
  shows "runs (stop_wait args c) (good J EMPTY_EXPR)"
proof -
  have ne: "args \<noteq> []" using args(3) by auto
  have resume: "runs (ScheduleResumeOfScriptCallback it t b c') (ok J)" if "ok J c'" for it t b c'
    by (rule runs_ScheduleResumeOfScriptCallback [OF okD(1) [OF that]]) (blast intro: ok_step [OF _ _ that])
  show ?thesis unfolding stop_wait_def
    by (auto simp: ne intro!: call_rules [where J = J] int_typesD [OF args(2)] args(1) c runs_Callback [where J = J]
        runs_this_event [where J = J] resume)
qed

lemma abort_sound:
  assumes c: "ok J c" and args: "args_total J args" "int_types args" "length args = 1"
  shows "runs (abort_fn args c) (good J EMPTY_EXPR)"
proof -
  have ne: "args \<noteq> []" using args(3) by auto
  have ab: "runs (abort_callback j c') (ok J)" if "ok J c'" for j c'
    by (rule runs_abort_callback [OF okD(1) [OF that]]) (use that in \<open>auto simp: ok_def vm_closed_def\<close>)
  show ?thesis unfolding abort_fn_def
    by (auto simp: ne intro!: call_rules [where J = J] int_typesD [OF args(2)] args(1) c runs_Callback [where J = J] ab
        split: option.split)
qed

lemma runs_fork:
  assumes "ok J c" "\<And>it c'. ok J c' \<Longrightarrow> P (it, c')"
  shows "runs (forkScriptCallback b c) P"
  by (rule runs_forkScriptCallback [OF okD(1) [OF assms(1)]]) (blast intro: assms(2) ok_step [OF _ _ assms(1)])

lemma runs_other_event:
  assumes "ok J c" "\<And>e. script_event_ok e \<Longrightarrow> P e"
  shows "runs (script_event i c) P"
  by (rule runs_script_event [OF okD(1) [OF assms(1)]]) (rule assms(2))

lemma fork_children_sound: "ok J c \<Longrightarrow> runs (fork_children b i n c) (good J INT_EXPR)"
proof (induction n arbitrary: i c)
  case (Suc n)
  have child: "runs (case node_of it of None \<Rightarrow> int_error (- 1) (msg ''fork(): internal error while allocating child'' c')
     | Some j \<Rightarrow> do {
         e \<leftarrow> script_event j c';
         c \<leftarrow> set_script_event j (e\<lparr>se_forkIndex := of_nat (i + 1)\<rparr>) c';
         fork_children b (Suc i) n c }) (good J INT_EXPR)" if c': "ok J c'" for it c'
    using c' Suc.IH by (auto intro!: runs_other_event [OF c'] runs_set_event [OF c'] split: option.split)
  show ?case unfolding fork_children.simps
    by (subst runs_simps(3), rule runs_fork [OF Suc.prems]) (use child in simp)
qed simp

lemma fork_sound:
  assumes c: "ok J c" and args: "args_total J args" "int_types args" "length args \<le> 2"
  shows "runs (fork args c) (good J INT_EXPR)"
proof -
  have free: "runs (hasFreeScriptCallbacks n c') P" if "ok J c'" "\<And>b. P b" for n c' P
    by (rule runs_hasFreeScriptCallbacks [OF okD(1) [OF that(1)]]) (rule that(2))
  show ?thesis unfolding fork_def
    by (auto intro!: call_rules [where J = J] int_typesD [OF args(2)] args(1) c runs_this_event [where J = J]
        runs_set_event [where J = J] free fork_children_sound)
qed

section \<open>Changing notes\<close>

text \<open>The types of the arguments: notes, a number, and an integer if there is a third.\<close>

definition change_types :: "node list \<Rightarrow> bool" where
  "change_types args \<longleftrightarrow> 2 \<le> length args \<and> (exprType (args ! 1) = INT_EXPR \<or> exprType (args ! 1) = REAL_EXPR) \<and>
     (2 < length args \<longrightarrow> exprType (args ! 2) = INT_EXPR)"

lemma change_typesD:
  assumes "change_types args"
  shows "0 < length args" "Suc 0 < length args" "exprType (args ! Suc 0) = INT_EXPR \<or> exprType (args ! Suc 0) = REAL_EXPR"
    "2 < length args \<Longrightarrow> exprType (args ! 2) = INT_EXPR"
  using assms by (auto simp: change_types_def)

lemma limits_ok:
  "limit_pan v c = (w, c') \<Longrightarrow> ok J c \<Longrightarrow> ok J c'" "limit_cutoff u v c = (w, c') \<Longrightarrow> ok J c \<Longrightarrow> ok J c'"
  "not_negative name v c = (w, c') \<Longrightarrow> ok J c \<Longrightarrow> ok J c'" "limit_value name lo hi v c = (w, c') \<Longrightarrow> ok J c \<Longrightarrow> ok J c'"
  by (auto simp: limit_pan_def limit_cutoff_def not_negative_def limit_value_def split: if_splits)

lemma runs_ev_ok:
  assumes "ok J c" "J (ch_vm c) \<Longrightarrow> runs (m (ch_vm c)) (\<lambda>(v, s). J s)" "\<And>v c'. ok J c' \<Longrightarrow> P (v, c')"
  shows "runs (ev m c) P"
  by (rule runs_ev [OF assms(1)]) (auto intro: assms(2,3) ok_vm [OF assms(1)])

lemma runs_hasUnitFactorNow:
  assumes "ok J c" "arg_total J e" "exprType e = INT_EXPR \<or> exprType e = REAL_EXPR" "\<And>b. P b"
  shows "runs (hasUnitFactorNow e (ch_vm c)) P"
  using arg_totalD(7) [OF assms(2,3) okD(2) [OF assms(1)]] assms(4) by (auto simp: hasUnitFactorNow_def)

lemmas keeps_rules = keeps_change_or_schedule keeps_change_norm_if_fast keeps_fade_in_note keeps_fade_out_note

lemmas change_rules = runs_opt_int runs_time runs_apply runs_ev_ok runs_hasUnitFactorNow

lemma change_sound:
  assumes c: "ok J c" and args: "args_total J args" and types: "change_types args"
  shows "runs (change_vol L args c) (good J EMPTY_EXPR)" "runs (change_tune R args c) (good J EMPTY_EXPR)"
    "runs (change_cutoff args c) (good J EMPTY_EXPR)" "runs (change_eg name f type args c) (good J EMPTY_EXPR)"
    "runs (execTemplate L opt T name args c) (good J EMPTY_EXPR)" "runs (fade_in args c) (good J EMPTY_EXPR)"
    "runs (fade_out args c) (good J EMPTY_EXPR)"
proof -
  note ty = change_typesD [OF types]
  have ne: "args \<noteq> []" using ty(1) by auto
  have num: "arg_asNumber args (Suc 0) = Some (args ! Suc 0)" by (rule arg_asNumber_eq [OF args ty(2,3)])
  note total = args_totalD [OF args ty(2)]
  note vals = runs_evalCastInt_prefix [OF total ty(3)] arg_totalD(5) [OF total ty(3)]
  note rules = change_rules [where J = J] keeps_rules c args vals ty total
  show "runs (change_vol L args c) (good J EMPTY_EXPR)"
    unfolding change_vol_def by (auto simp: num ne Let_def intro!: rules)
  show "runs (change_tune R args c) (good J EMPTY_EXPR)"
    unfolding change_tune_def by (auto simp: num ne Let_def intro!: rules)
  show "runs (change_cutoff args c) (good J EMPTY_EXPR)"
    unfolding change_cutoff_def by (auto simp: num ne Let_def intro!: rules split: prod.split dest: limits_ok)
  show "runs (change_eg name f type args c) (good J EMPTY_EXPR)"
    unfolding change_eg_def by (auto simp: num ne Let_def intro!: rules split: prod.split dest: limits_ok)
  show "runs (execTemplate L opt T name args c) (good J EMPTY_EXPR)"
    unfolding execTemplate_def tmpl_evalCastInt_def
    by (auto simp: num ne Let_def intro!: rules split: prod.split option.split dest: limits_ok)
  show "runs (fade_in args c) (good J EMPTY_EXPR)"
    unfolding fade_in_def by (auto simp: num ne Let_def intro!: rules split: prod.split dest: limits_ok)
  show "runs (fade_out args c) (good J EMPTY_EXPR)"
    unfolding fade_out_def by (auto simp: num ne Let_def intro!: rules split: prod.split dest: limits_ok)
qed

lemma change_int_sound:
  assumes c: "ok J c" and args: "args_total J args" and types: "change_types args" "exprType (args ! 1) = INT_EXPR"
  shows "runs (change_pan args c) (good J EMPTY_EXPR)" "runs (change_reso args c) (good J EMPTY_EXPR)"
    "runs (fade_curve_execTemplate f type name args c) (good J EMPTY_EXPR)"
proof -
  note ty = change_typesD [OF types(1)]
  have t1: "exprType (args ! Suc 0) = INT_EXPR" using types(2) by simp
  have ne: "args \<noteq> []" using ty(1) by auto
  have num: "arg_asInt args (Suc 0) = Some (args ! Suc 0)" by (rule arg_asInt_eq [OF args ty(2) t1])
  note rules = change_rules [where J = J] runs_int [where J = J] keeps_rules c args ty t1
  show "runs (change_pan args c) (good J EMPTY_EXPR)"
    unfolding change_pan_def by (auto simp: num ne Let_def simp del: arg_simps intro!: rules split: prod.split dest: limits_ok)
  show "runs (change_reso args c) (good J EMPTY_EXPR)"
    unfolding change_reso_def by (auto simp: num ne Let_def simp del: arg_simps intro!: rules split: prod.split dest: limits_ok)
  show "runs (fade_curve_execTemplate f type name args c) (good J EMPTY_EXPR)"
    unfolding fade_curve_execTemplate_def by (auto simp: ne Let_def intro!: rules split: prod.split dest: limits_ok)
qed

section \<open>Calls that the parser accepts\<close>

definition accepts :: "script_function \<Rightarrow> node list \<Rightarrow> bool" where
  "accepts f args \<longleftrightarrow> sfn_minRequiredArgs f \<le> length args \<and> length args \<le> sfn_maxAllowedArgs f \<and>
     (\<forall>k < length args. sfn_acceptsArgType f k (exprType (args ! k)))"

text \<open>
  Accepted calls that crash: \<open>note_off()\<close> with an array as velocity, \<open>fade_out()\<close> with a real number as third
  argument, and \<open>delete_event_mark()\<close> when a group is full.
\<close>

definition crashes :: "string \<Rightarrow> node list \<Rightarrow> chan \<Rightarrow> bool" where
  "crashes name args c \<longleftrightarrow>
     name = ''note_off'' \<and> 1 < length args \<and> exprType (args ! 1) \<noteq> INT_EXPR \<or>
     name = ''fade_out'' \<and> 2 < length args \<and> exprType (args ! 2) \<noteq> INT_EXPR \<or>
     name = ''delete_event_mark'' \<and> \<not> groups_room c"

definition call_sound :: "(vm \<Rightarrow> bool) \<Rightarrow> string \<Rightarrow> script_function \<Rightarrow> bool" where
  "call_sound J name f \<longleftrightarrow> (\<forall>args c. ok J c \<longrightarrow> args_total J args \<longrightarrow> accepts f args \<longrightarrow> \<not> crashes name args c \<longrightarrow>
     runs (sfn_exec f args c) (good J (sfn_returnType f)))"

lemma call_sound_other [simp]:
  "call_sound J name (f\<lparr>sfn_acceptsArgUnitType := u\<rparr>) = call_sound J name f"
  "call_sound J name (f\<lparr>sfn_acceptsArgUnitPrefix := p\<rparr>) = call_sound J name f"
  "call_sound J name (f\<lparr>sfn_acceptsArgFinal := b\<rparr>) = call_sound J name f"
  "call_sound J name (f\<lparr>sfn_checkArgs := ch\<rparr>) = call_sound J name f"
  by (simp_all add: call_sound_def accepts_def)

lemma empty_result_sound:
  assumes "\<And>args c. ok J c \<Longrightarrow> args_total J args \<Longrightarrow> lo \<le> length args \<Longrightarrow> length args \<le> hi \<Longrightarrow>
    \<forall>k < length args. types k (exprType (args ! k)) \<Longrightarrow> \<not> crashes name args c \<Longrightarrow> runs (exec args c) (good J t)"
  shows "call_sound J name ((empty_result_fn lo hi types exec)\<lparr>sfn_returnType := t\<rparr>)"
  using assms by (simp add: call_sound_def accepts_def empty_result_fn_def)

lemma empty_returnType: "(empty_result_fn lo hi types exec)\<lparr>sfn_returnType := EMPTY_EXPR\<rparr> = empty_result_fn lo hi types exec"
  by (simp add: empty_result_fn_def)

lemmas empty_sound = empty_result_sound [where t = EMPTY_EXPR, unfolded empty_returnType]
lemmas int_sound = empty_result_sound [where t = INT_EXPR, folded int_result_fn_def]

lemma int_args_types: "\<forall>k < length args. int_args k (exprType (args ! k)) \<Longrightarrow> int_types args"
  by (simp add: int_args_def int_types_def)

text \<open>The functions that change notes.\<close>

lemma accepted_types:
  assumes "2 \<le> length args"
  shows "\<forall>k < length args. notes_number_types k (exprType (args ! k)) \<Longrightarrow> change_types args"
    "\<forall>k < length args. notes_time_types k (exprType (args ! k)) \<Longrightarrow> 2 < length args \<longrightarrow> exprType (args ! 2) = INT_EXPR \<Longrightarrow> change_types args"
    "\<forall>k < length args. notes_int_types k (exprType (args ! k)) \<Longrightarrow> change_types args"
    "\<forall>k < length args. notes_int_types k (exprType (args ! k)) \<Longrightarrow> exprType (args ! 1) = INT_EXPR"
    "\<forall>k < length args. synth_acceptsArgType opt k (exprType (args ! k)) \<Longrightarrow> length args \<le> 2 \<Longrightarrow> change_types args"
proof -
  have k: "1 < length args" using assms by simp
  show "\<forall>k < length args. notes_number_types k (exprType (args ! k)) \<Longrightarrow> change_types args"
    "\<forall>k < length args. notes_time_types k (exprType (args ! k)) \<Longrightarrow> 2 < length args \<longrightarrow> exprType (args ! 2) = INT_EXPR \<Longrightarrow> change_types args"
    "\<forall>k < length args. notes_int_types k (exprType (args ! k)) \<Longrightarrow> change_types args"
    "\<forall>k < length args. notes_int_types k (exprType (args ! k)) \<Longrightarrow> exprType (args ! 1) = INT_EXPR"
    "\<forall>k < length args. synth_acceptsArgType opt k (exprType (args ! k)) \<Longrightarrow> length args \<le> 2 \<Longrightarrow> change_types args"
    using k assms by (auto simp: change_types_def notes_number_types_def notes_time_types_def notes_int_types_def
      synth_acceptsArgType_def dest: spec [of _ 1] spec [of _ 2])
qed

lemma change_functions_sound:
  shows "call_sound J name (Fn_change_vol L)" "call_sound J name (Fn_change_tune R)"
    "call_sound J name Fn_change_cutoff" "call_sound J name (eg_function what (change_eg n f type))" "call_sound J name Fn_fade_in" "call_sound J ''fade_out'' Fn_fade_out"
    "call_sound J name (synth_function opt (execTemplate L opt T n))" "call_sound J name Fn_change_pan" "call_sound J name Fn_change_reso"
    "call_sound J name (curve_function (fade_curve_execTemplate g type n))"
proof -
  show "call_sound J name (Fn_change_vol L)" unfolding Fn_change_vol_def call_sound_other
    by (rule empty_sound, rule change_sound(1), assumption, assumption, rule accepted_types(1); simp add: crashes_def)
  show "call_sound J name (Fn_change_tune R)" unfolding Fn_change_tune_def call_sound_other
    by (rule empty_sound, rule change_sound(2), assumption, assumption, rule accepted_types(1); simp add: crashes_def)
  show "call_sound J name Fn_change_cutoff" unfolding Fn_change_cutoff_def call_sound_other
    by (rule empty_sound, rule change_sound(3), assumption, assumption, rule accepted_types(1); simp add: crashes_def)
  show "call_sound J name (eg_function what (change_eg n f type))" unfolding eg_function_def call_sound_other
    by (rule empty_sound, rule change_sound(4), assumption, assumption, rule accepted_types(2); simp add: crashes_def)
  show "call_sound J name Fn_fade_in" unfolding Fn_fade_in_def call_sound_other
    by (rule empty_sound, rule change_sound(6), assumption, assumption, rule accepted_types(2); simp add: crashes_def)
  show "call_sound J ''fade_out'' Fn_fade_out" unfolding Fn_fade_out_def call_sound_other
    by (rule empty_sound, rule change_sound(7), assumption, assumption, rule accepted_types(2); auto simp: crashes_def)
  show "call_sound J name (synth_function opt (execTemplate L opt T n))" unfolding synth_function_def call_sound_other
    by (rule empty_sound, rule change_sound(5), assumption, assumption, rule accepted_types(5); simp add: crashes_def)
  show "call_sound J name Fn_change_pan" unfolding Fn_change_pan_def call_sound_other
    by (rule empty_sound, rule change_int_sound(1), assumption, assumption, rule accepted_types(3), assumption, assumption,
      rule accepted_types(4), assumption, assumption)
  show "call_sound J name Fn_change_reso" unfolding Fn_change_reso_def call_sound_other
    by (rule empty_sound, rule change_int_sound(2), assumption, assumption, rule accepted_types(3), assumption, assumption,
      rule accepted_types(4), assumption, assumption)
  show "call_sound J name (curve_function (fade_curve_execTemplate g type n))" unfolding curve_function_def
    by (rule empty_sound, rule change_int_sound(3), assumption, assumption, rule accepted_types(3), assumption, assumption,
      rule accepted_types(4), assumption, assumption)
qed

text \<open>The others.\<close>

lemma play_note_call_sound: "call_sound J name Fn_play_note"
  unfolding Fn_play_note_def call_sound_other
  by (rule int_sound, rule play_note_sound) (auto simp: play_note_types_def)

lemma int_calls_sound:
  shows "call_sound J name Fn_set_controller" "call_sound J name Fn_set_rpn" "call_sound J name Fn_set_nrpn"
    "call_sound J name (Fn_get_event_par L R)" "call_sound J name Fn_event_status" "call_sound J name Fn_callback_status"
    "call_sound J name Fn_fork"
  unfolding Fn_set_controller_def Fn_set_rpn_def Fn_set_nrpn_def Fn_get_event_par_def Fn_event_status_def
    Fn_callback_status_def Fn_fork_def
  by (rule int_sound; auto intro!: event_functions_sound get_event_par_sound event_status_sound callback_status_sound
      fork_sound int_args_types)+

lemma empty_calls_sound:
  shows "call_sound J name Fn_ignore_controller" "call_sound J name Fn_set_event_mark" "call_sound J name Fn_set_event_par"
    "call_sound J name Fn_change_note" "call_sound J name Fn_change_velo" "call_sound J name Fn_stop_wait"
    "call_sound J name Fn_abort"
  unfolding Fn_ignore_controller_def Fn_set_event_mark_def Fn_set_event_par_def Fn_change_note_def Fn_change_velo_def
    Fn_stop_wait_def Fn_abort_def call_sound_other
  by (rule empty_sound; auto intro!: ignore_controller_sound set_event_mark_sound set_event_par_sound change_note_velo_sound
      stop_wait_sound abort_sound int_args_types)+

lemma special_calls_sound:
  shows "call_sound J name Fn_ignore_event" "call_sound J ''note_off'' Fn_note_off"
    "call_sound J ''delete_event_mark'' Fn_delete_event_mark" "call_sound J name Fn_by_marks"
    "call_sound J name Fn_change_play_pos" "call_sound J name Fn_wait2"
proof -
  show "call_sound J name Fn_ignore_event" unfolding Fn_ignore_event_def
    by (rule empty_sound) (auto intro!: ignore_event_sound)
  show "call_sound J ''note_off'' Fn_note_off" unfolding Fn_note_off_def call_sound_other
    by (rule empty_sound) (auto intro!: note_off_sound simp: crashes_def)
  show "call_sound J ''delete_event_mark'' Fn_delete_event_mark" unfolding Fn_delete_event_mark_def call_sound_other
    by (rule empty_sound) (auto intro!: delete_event_mark_sound int_args_types simp: crashes_def)
  show "call_sound J name Fn_by_marks" unfolding Fn_by_marks_def call_sound_other
    by (simp add: call_sound_def accepts_def empty_result_fn_def) (auto intro!: by_marks_sound int_args_types)
  show "call_sound J name Fn_change_play_pos" unfolding Fn_change_play_pos_def call_sound_other
    by (rule empty_sound) (auto intro!: change_play_pos_sound simp: change_play_pos_acceptsArgType_def dest: spec [of _ 0] spec [of _ 1])
  show "call_sound J name Fn_wait2" unfolding Fn_wait2_def call_sound_other
    by (rule empty_sound) (auto intro!: wait_sound)
qed

lemmas template_defs = change_sustain_def change_cutoff_attack_def change_cutoff_decay_def change_cutoff_sustain_def
  change_cutoff_release_def change_amp_lfo_depth_def change_amp_lfo_freq_def change_cutoff_lfo_depth_def
  change_cutoff_lfo_freq_def change_pitch_lfo_depth_def change_pitch_lfo_freq_def change_vol_time_def
  change_tune_time_def change_pan_time_def change_vol_curve_def change_tune_curve_def change_pan_curve_def
  Fn_change_attack_def Fn_change_decay_def Fn_change_release_def change_attack_def change_decay_def change_release_def

lemma script_functions_sound: "list_all (\<lambda>(name, f). call_sound J name f) (script_functions L R)"
  unfolding script_functions_def template_defs list.pred_inject(2) prod.case
  by (intro conjI change_functions_sound play_note_call_sound int_calls_sound empty_calls_sound special_calls_sound)
    simp

lemma accepted_call_sound:
  assumes "InstrumentScriptVM_functionByName L R name = Some f"
  shows "call_sound J name f"
  using script_functions_sound [of J L R] map_of_SomeD [OF assms [unfolded InstrumentScriptVM_functionByName_def]]
  by (auto simp: list_all_iff)

lemma script_call_sound0:
  assumes "InstrumentScriptVM_functionByName L R name = Some f" "accepts f args"
    and "\<forall>e \<in> set args. arg_total J e" "vm_closed J" "J (ch_vm c)"
    and "chan_inv c" "\<not> crashes name args c"
  shows "\<exists>r c'. sfn_exec f args c = Some (r, c') \<and> result_type r = sfn_returnType f \<and> chan_inv c' \<and> J (ch_vm c')"
  using accepted_call_sound [OF assms(1), of J] assms(2-7)
  by (fastforce simp: call_sound_def runs_def good_def ok_def args_total_def)

end
