(* ===== verification/ChannelExample.thy ===== *)
theory ChannelExample
  imports ChannelSteps VMExample
begin

text \<open>
  An engine channel with small pools for the witnesses. Its pools are made by the constructor of pools, with
  as many lists as the code allocates from them.
\<close>

definition pool_of :: "(nat \<Rightarrow> 'a) \<Rightarrow> nat \<Rightarrow> nat \<Rightarrow> 'a Pool" where
  "pool_of dat n k = fold RTListBase_init [2..<k] (the (Pool_new dat n))"

definition free_lists :: "nat \<Rightarrow> nat \<Rightarrow> nat list" where
  "free_lists n = (\<lambda>_. [])(freelist := [0..<n])"

lemma Pool_new_fields:
  assumes "Pool_new dat n = Some p"
  shows "pool_data p = dat"
proof -
  have "init_nodes i m q = Some q' \<Longrightarrow> pool_data q' = pool_data q" for i m and q q' :: "'a Pool"
    by (induction m arbitrary: i q) (auto simp: bind_Some_iff dest!: list_append_same same_elementsD(1))
  then show ?thesis using assms
    by (fastforce simp: Pool_new_def Pool_init_def bind_Some_iff updateReincarnationBits_def)
qed

lemma RTListBase_init_fields [simp]:
  "pool_data (RTListBase_init l p) = pool_data p" "poolsize (RTListBase_init l p) = poolsize p"
  "same_elements (RTListBase_init l p) p"
  by (simp_all add: RTListBase_init_def same_elements_def)

lemma pool_of_ok:
  assumes "n < 256" "2 \<le> k"
  shows "pool_inv (pool_of dat n k) {..<k} (free_lists n) \<and> poolsize (pool_of dat n k) = n \<and> pool_data (pool_of dat n k) = dat"
proof -
  obtain p where p: "Pool_new dat n = Some p" "pool_rel p {freelist, 1} (free_lists n)" "poolsize p = n"
      "poolsizebits p = of_nat (bitsForSize (n + 1))" "node_reincarnation p = (\<lambda>_. 0)"
    using new_pool [of dat n] unfolding free_lists_def by blast
  have "bitsForSize (n + 1) \<le> 8" using bits_loop_small [of n 4 0] assms(1) by (simp add: bitsForSize_def)
  then have base: "pool_inv p {..<2} (free_lists n)"
    using p by (simp add: pool_inv_def ids_ok_def freelist_def lessThan_Suc numeral_2_eq_2)
       (simp add: insert_commute)
  have "pool_inv (fold RTListBase_init [2..<k] p) {..<k} (free_lists n) \<and> same_elements (fold RTListBase_init [2..<k] p) p"
    using assms(2)
  proof (induction k rule: dec_induct)
    case base
    then show ?case using \<open>pool_inv p {..<2} (free_lists n)\<close> by simp
  next
    case (step k)
    let ?q = "fold RTListBase_init [2..<k] p"
    have q: "pool_inv ?q {..<k} (free_lists n)" "same_elements ?q p" using step by simp_all
    have "pool_rel (RTListBase_init k ?q) (insert k {..<k}) (free_lists n)"
      using q(1) by (intro new_list_rel) (simp_all add: pool_inv_def)
    then have "pool_inv (RTListBase_init k ?q) {..<Suc k} (free_lists n)"
      using q(1) ids_ok_same [OF RTListBase_init_fields(3), of ?q k] by (simp add: pool_inv_def lessThan_Suc)
    then show ?case using step.hyps same_elements_trans [OF RTListBase_init_fields(3) q(2)] by simp
  qed
  then show ?thesis
    using p(1,3) Pool_new_fields [OF p(1)] by (simp add: pool_of_def same_elements_def)
qed

definition zero_event :: Event where
  "zero_event = \<lparr>ev_Type = type_note_on, ev_Param = Param_bytes (replicate 32 0), ev_TimeStamp = 0, ev_iFragmentPos = 0\<rparr>"

definition zero_note :: NoteBase where
  "zero_note = Note_reset zero_event \<lparr>nb_hostKey = 0, nb_parentNoteID = 0, nb_cause = zero_event, nb_eventID = 0,
     nb_triggerSchedTime = 0, nb_Override = Override_new, nb_userPar = [], nb_pActiveVoices = []\<rparr>"

definition zero_script_event :: ScriptEvent where
  "zero_script_event = \<lparr>se_scheduleTime = 0, se_cause = zero_event, se_id = 0, se_handlers = [Some 0, None],
     se_execCtx = new_ExecContext, se_currentHandler = 0, se_executionSlices = 0, se_ignoreAllWaitCalls = False,
     se_handlerType = VM_EVENT_HANDLER_NOTE, se_parentHandlerID = 0, se_childHandlerID = replicate 9 0,
     se_autoAbortByParent = False, se_forkIndex = 0\<rparr>"

definition example_script :: InstrumentScript where
  "example_script = \<lparr>is_pEvents = pool_of (\<lambda>_. zero_script_event) 4 130, is_suspendedEvents = [],
     is_eventGroups = replicate INSTR_SCRIPT_EVENT_GROUPS (ConstCapacityArray_new [0, 0]),
     is_handlerNote = Some 0, is_handlerRelease = None, is_isPolyphonic = (\<lambda>_. False),
     is_eventHandlerType = (\<lambda>_. VM_EVENT_HANDLER_NOTE)\<rparr>"

text \<open>The result object of \<open>wait()\<close> is bound, as it is when a call of it is executed.\<close>

definition example_chan :: chan where
  "example_chan = \<lparr>ch_vm = example_vm\<lparr>boundResult := (\<lambda>f. if f = Fn_wait then Some 0 else None),
       fnResult := (\<lambda>n. if n = 0 then Some new_VMEmptyResult else None)\<rparr>,
     ch_pEventPool = pool_of (\<lambda>_. zero_event) 8 132,
     ch_schedulerNodes = pool_of (\<lambda>_. \<lparr>sd_scheduleTime = 0, sd_itEvent = Iterator_default\<rparr>) 8 2,
     ch_queue = [], ch_notePool = pool_of (\<lambda>_. zero_note) 4 130, ch_noteIDPool = pool_of (\<lambda>_. 0) 4 6,
     ch_pActiveKeys = pool_of (\<lambda>_. 0) 128 3, ch_keyActive = (\<lambda>_. False),
     ch_pEventGenerator = \<lparr>uiSampleRate = 44100, uiSamplesProcessed = 256, FragmentTime_begin = 0,
       FragmentTime_end = 256, FragmentTime_sample_ratio = 1, uiTotalSamplesProcessed = 1000\<rparr>,
     ch_pScript = Some example_script, ch_m_event = 0, ch_currentHandlerType = VM_EVENT_HANDLER_NOTE\<rparr>"

lemma zero_ok: "bytes_event zero_event" "note_ok zero_note" "script_event_ok zero_script_event"
  by (simp_all add: bytes_event_def zero_event_def note_ok_def zero_note_def Note_reset_def script_event_ok_def
      zero_script_event_def MAX_FORK_PER_SCRIPT_HANDLER_def)

lemma example_script_inv: "script_inv example_script"
proof -
  have "group_ok (ConstCapacityArray_new [0, 0 :: vmint])" by (simp add: group_ok_def ca_capacity_def ConstCapacityArray_new_def)
  then show ?thesis using pool_of_ok [of 4 130 "\<lambda>_. zero_script_event"] zero_ok(3)
    by (auto simp: script_inv_def example_script_def)
qed

lemma example_chan_inv: "chan_inv example_chan"
proof -
  have "events_inv example_chan" using pool_of_ok [of 8 132 "\<lambda>_. zero_event"] pool_of_ok [of 8 2]
    by (auto simp: events_inv_def example_chan_def)
  moreover have "keys_inv example_chan"
  proof -
    have "pool_inv (ch_pActiveKeys example_chan) {..<3} (free_lists 128)" "length (free_lists 128 freelist) = 128"
      "{k. k < 128 \<and> \<not> ch_keyActive example_chan k} = {..<128}"
      using pool_of_ok [of 128 3 "\<lambda>_. 0 :: nat"] by (auto simp: example_chan_def free_lists_def)
    then show ?thesis unfolding keys_inv_def by (metis card_lessThan order_refl)
  qed
  moreover have "notes_inv example_chan"
    using pool_of_ok [of 4 130 "\<lambda>_. zero_note"] pool_of_ok [of 4 6 "\<lambda>_. 0 :: note_id_t"] zero_ok(2)
    by (auto simp: notes_inv_def example_chan_def)
  moreover have "script_ok example_chan"
    using example_script_inv pool_of_ok [of 4 130 "\<lambda>_. zero_script_event"]
    by (simp add: script_ok_def example_chan_def) (simp add: example_script_def)
  ultimately show ?thesis by (simp add: chan_inv_parts)
qed

end
