(* ===== verification/ScriptFnProps.thy ===== *)
theory ScriptFnProps
  imports ScriptFnSound ChannelExample
begin

text \<open>
  Properties of the built-in functions of instrument scripts: a call that the parser accepts returns a value of
  the declared type and leaves the channel consistent, the calls that are accepted and crash, and that a change
  of a note which is made later is the change that would have been made at once.
\<close>

section \<open>Accepted calls\<close>


text \<open>C38: C52:
  The parser accepts an array as the velocity of \<open>note_off()\<close> and a real number as the third argument of
  \<open>fade_out()\<close>; both calls dereference a null pointer.
\<close>

theorem accepted_calls_crash:
  assumes "t \<in> {INT_EXPR, INT_ARR_EXPR}" "exprType e = t" "\<not> isIntExpr a" "exprType a = INT_ARR_EXPR"
    and "isRealExpr x" "\<not> isIntExpr x" "exprType x = REAL_EXPR" "isIntExpr d" "exprType d = INT_EXPR"
  shows "(\<exists>f. InstrumentScriptVM_functionByName L R ''note_off'' = Some f \<and> accepts f [e, a] \<and> sfn_exec f [e, a] c = None) \<and>
    (\<exists>f. InstrumentScriptVM_functionByName L R ''fade_out'' = Some f \<and> accepts f [e, d, x] \<and> sfn_exec f [e, d, x] c = None)"
  using assms
  by (auto simp: InstrumentScriptVM_functionByName_def script_functions_def accepts_def Fn_note_off_def Fn_fade_out_def
      empty_result_fn_def note_off_acceptsArgType_def notes_time_types_def less_Suc_eq nth_Cons' note_off_def fade_out_def
      opt_int_arg_def int_arg_def nth_opt_def split: bind_splits)

section \<open>Changes of notes\<close>

text \<open>What the functions change at once, by the parameter.\<close>

fun immediate_change :: "note_field \<Rightarrow> bool \<Rightarrow> bool \<Rightarrow> bool \<Rightarrow> vmfloat \<Rightarrow> Override \<Rightarrow> Override" where
  "immediate_change (F_norm f) bFinal relative unit x = change_norm f relative bFinal x"
| "immediate_change F_Pan bFinal relative unit x = change_pan_override relative bFinal x"
| "immediate_change f bFinal relative unit x = setNoteParam f x bFinal unit"

text \<open>A final value with a unit can be sent to some parameters only, and only volume, tune and pan can be relative.\<close>

fun change_fits :: "note_field \<Rightarrow> bool \<Rightarrow> bool \<Rightarrow> bool \<Rightarrow> bool" where
  "change_fits (F_norm f) bFinal relative unit \<longleftrightarrow> \<not> (bFinal \<and> unit \<and> \<not> relative)"
| "change_fits F_Pan bFinal relative unit \<longleftrightarrow> \<not> unit"
| "change_fits (F_param f) bFinal relative unit \<longleftrightarrow> \<not> relative"
| "change_fits (F_time f) bFinal relative unit \<longleftrightarrow> True"
| "change_fits (F_curve f) bFinal relative unit \<longleftrightarrow> False"

lemma process_immediate:
  assumes "change_fits (field_of_synth_param type) bFinal relative unit" "sp_Type p = type" "sp_Delta p = x"
    "sp_Scope p = Event_scopeBy_FinalRelativeUnit bFinal relative unit"
  shows "snd (process_synth_param p ov) = immediate_change (field_of_synth_param type) bFinal relative unit x ov"
  using assms
  by (cases "field_of_synth_param type")
     (auto simp: process_synth_param_def apply_Norm_def apply_NoteParam_def apply_SNorm_def change_norm_def change_pan_override_def
       change_param_def setNoteParam_def set_norm_def set_param_def set_time_def Event_scopeBy_FinalRelativeUnit_def
       Note_scopeBy_FinalUnit_def Let_def)

lemma ProcessNoteSynthParam_some:
  assumes "events_inv c" "node_of it = Some i" "i < poolsize (ch_pEventPool c)" "ev_Param (event_at i c) = Param_NoteSynth p"
    and "NoteByID (sp_NoteID p) c = Some (Some n)" "0 \<le> nb_hostKey (note_at n c)" "nb_hostKey (note_at n c) < 128"
  shows "\<exists>c'. ProcessNoteSynthParam it c = Some c' \<and> events_inv c' \<and>
    (\<forall>m. nb_Override (note_at m c') = (if m = n then snd (process_synth_param p (nb_Override (note_at n c)))
      else nb_Override (note_at m c)))"
proof -
  obtain E where E: "pool_inv (ch_pEventPool c) {..<132} E" using assms(1) by (auto simp: events_inv_def)
  obtain par ov where s: "process_synth_param p (nb_Override (note_at n c)) = (par, ov)" by fastforce
  let ?q = "set_data i ((event_at i c)\<lparr>ev_Param := Param_NoteSynth par\<rparr>) (ch_pEventPool c)"
  have q: "pool_inv ?q {..<132} E" "i < poolsize ?q" "it_current it = Node i"
    using E assms(2,3) by (simp_all add: node_of_Some)
  obtain it1 it2 q' where m: "moveToEndOf it (keyEvents (nat (nb_hostKey (note_at n c)))) ?q = Some (it1, it2, q')"
      "\<exists>E'. pool_inv q' {..<132} E'"
    by (rule moveToEndOf_some [OF q(1,3,2), of "keyEvents (nat (nb_hostKey (note_at n c)))"]) (use assms(6,7) in auto)
  show ?thesis using assms m s
    by (simp add: ProcessNoteSynthParam_def set_Override_def set_note_def set_event_def events_inv_def)
qed


text \<open>C39: C54:
  A final value in Bel for a parameter that is a factor, as \<open>change_vol()\<close> sends it for a note that sounds
  already, is lost: the event is processed and leaves the parameters of all notes as they were.
\<close>

theorem late_final_value_lost:
  assumes "events_inv c" "node_of it = Some i" "i < poolsize (ch_pEventPool c)"
    and "event_at i c = set_NoteSynthParam k type x (Event_scopeBy_FinalRelativeUnit True False True) e"
    and "field_of_synth_param type = F_norm f"
    and "NoteByID k c = Some (Some n)" "0 \<le> nb_hostKey (note_at n c)" "nb_hostKey (note_at n c) < 128"
  shows "\<exists>c'. ProcessNoteSynthParam it c = Some c' \<and> (\<forall>m. nb_Override (note_at m c') = nb_Override (note_at m c))"
  using ProcessNoteSynthParam_some [OF assms(1-3), where p = "\<lparr>sp_NoteID = k, sp_Type = type, sp_Delta = x, sp_AbsValue = 0,
      sp_Scope = Event_scopeBy_FinalRelativeUnit True False True\<rparr>"] assms(4-8)
  by (fastforce simp: set_NoteSynthParam_def process_synth_param_def apply_Norm_def Event_scopeBy_FinalRelativeUnit_def Let_def)

section \<open>Witnesses\<close>

definition example_rtmath :: rtmath where
  "example_rtmath = \<lparr>rt_CentsToFreqRatioUnlimited = (\<lambda>x. x), rt_FreqRatioToMilliCents = (\<lambda>x. 0)\<rparr>"

definition wait_bound :: "vm \<Rightarrow> bool" where
  "wait_bound s \<longleftrightarrow> boundResult s Fn_wait = Some 0 \<and> (\<exists>f. fnResult s 0 = Some (VMEmptyResult f))"

lemma wait_bound_closed: "vm_closed wait_bound"
  by (auto simp: vm_closed_def wait_bound_def printMsg_def upd_ctx_def)


lemma accepted_calls_crash_witness:
  "\<exists>f. InstrumentScriptVM_functionByName example_clib example_rtmath ''note_off'' = Some f \<and>
     accepts f [IntLiteral_node example_clib 1 (Fin 1) VM_NO_UNIT False, IntArrayVariable_node example_clib 0 False] \<and>
     sfn_exec f [IntLiteral_node example_clib 1 (Fin 1) VM_NO_UNIT False, IntArrayVariable_node example_clib 0 False] example_chan = None"
proof -
  have "\<not> isIntExpr (IntArrayVariable_node example_clib 0 False)"
    by (simp add: IntArrayVariable_node_def IntArrayExpr_node_def base_node_def)
  moreover have "\<not> isIntExpr (RealLiteral_node example_clib 1 (Fin 1) VM_NO_UNIT False)"
    by (simp add: RealLiteral_node_def RealExpr_node_def base_node_def)
  ultimately show ?thesis
    using accepted_calls_crash [where t = INT_EXPR and e = "IntLiteral_node example_clib 1 (Fin 1) VM_NO_UNIT False"
        and d = "IntLiteral_node example_clib 1 (Fin 1) VM_NO_UNIT False" and x = "RealLiteral_node example_clib 1 (Fin 1) VM_NO_UNIT False"
        and a = "IntArrayVariable_node example_clib 0 False"]
    by simp
qed

definition change_event :: "synth_param_t \<Rightarrow> vmfloat \<Rightarrow> ValueScope \<Rightarrow> Event" where
  "change_event type x scope = set_NoteSynthParam (getID 0 (ch_notePool example_chan)) type x scope zero_event"

lemma hostKey_zero: "nb_hostKey zero_note = 0"
  by (simp add: zero_note_def Note_reset_def)

lemma change_example:
  assumes "c = set_event 0 e example_chan"
  shows "events_inv c" "0 < poolsize (ch_pEventPool c)" "event_at 0 c = e"
    "NoteByID (getID 0 (ch_notePool example_chan)) c = Some (Some 0)" "nb_hostKey (note_at 0 c) = 0" "note_at 0 c = zero_note"
proof -
  have n: "ids_ok (ch_notePool example_chan)" "0 < poolsize (ch_notePool example_chan)"
    using pool_of_ok [of 4 130 "\<lambda>_. zero_note"] by (auto simp: pool_inv_def example_chan_def)
  have "0 < poolsize (ch_pEventPool example_chan)" "note_at 0 example_chan = zero_note"
    using pool_of_ok [of 8 132 "\<lambda>_. zero_event"] pool_of_ok [of 4 130 "\<lambda>_. zero_note"] by (simp_all add: example_chan_def)
  then show "events_inv c" "0 < poolsize (ch_pEventPool c)" "event_at 0 c = e"
    "NoteByID (getID 0 (ch_notePool example_chan)) c = Some (Some 0)" "nb_hostKey (note_at 0 c) = 0" "note_at 0 c = zero_note"
    using example_chan_inv fromID_getID [OF n refl refl] assms
    by (simp_all add: chan_inv_parts events_inv_def set_event_def NoteByID_def hostKey_zero)
qed


lemma late_final_value_lost_witness:
  "\<exists>c'. ProcessNoteSynthParam \<lparr>it_current = Node 0, it_fallback = Node 0\<rparr>
      (set_event 0 (change_event synth_param_volume 0 FINAL_NATIVE) example_chan) = Some c' \<and>
    nb_Override (note_at 0 c') = nb_Override zero_note"
proof -
  have e: "change_event synth_param_volume 0 FINAL_NATIVE = set_NoteSynthParam (getID 0 (ch_notePool example_chan)) synth_param_volume 0
     (Event_scopeBy_FinalRelativeUnit True False True) zero_event" by (simp add: change_event_def Event_scopeBy_FinalRelativeUnit_def)
  note c = change_example [OF refl, of "change_event synth_param_volume 0 FINAL_NATIVE"]
  show ?thesis
    using late_final_value_lost [where it = "\<lparr>it_current = Node 0, it_fallback = Node 0\<rparr>", OF c(1) _ c(2) trans [OF c(3) e] _ c(4)] c(5,6)
    by auto
qed

end
