(* ===== verification/ChannelProps.thy ===== *)
theory ChannelProps
  imports ChannelExample "HOL-Library.Multiset"
begin

text \<open>
  Properties of the IDs that scripts see, and of the queue of events that are scheduled ahead.
\<close>

section \<open>Script IDs\<close>

lemma getID_small:
  assumes ok: "ids_ok p" and i: "i < poolsize p"
  shows "\<not> bit (getID (int i) p) 63"
proof -
  note f = ids_okD [OF ok i]
  define b where "b = bitsForSize (poolsize p + 1)"
  define r x where "r = node_reincarnation p i" and "x = (of_nat i :: 64 word)"
  define w where "w = push_bit b r OR x"
  have b: "b < 32" using f(2) by (simp add: b_def)
  have "take_bit 62 w = w"
  proof (rule bit_eqI)
    fix n
    have r: "bit r k \<Longrightarrow> k < 31" for k using f(5) unfolding r_def by (metis bit_take_bit_iff)
    have o: "bit x k \<Longrightarrow> k < b" for k using f(4) unfolding b_def x_def by (metis bit_take_bit_iff)
    show "bit (take_bit 62 w) n \<longleftrightarrow> bit w n" using b by (auto simp: w_def bit_simps dest: r o)
  qed
  then have "unat w < 2 ^ 62" by (metis take_bit_nat_less_exp unsigned_take_bit_eq)
  then have "unat (w + 1) < 2 ^ 63" by (simp add: unat_word_ariths)
  moreover have "getID (int i) p = w + 1" using i f(1) by (simp add: getID_def w_def b_def r_def x_def)
  ultimately have "unat (getID (int i) p) < 2 ^ 63" by simp
  then have "take_bit 63 (getID (int i) p) = getID (int i) p"
    by (simp add: word_unat_eq_iff unsigned_take_bit_eq take_bit_nat_eq_self)
  then show ?thesis by (metis bit_take_bit_iff less_irrefl)
qed

lemma note_flag_bit: "bit INSTR_SCRIPT_NOTE_ID_FLAG n \<longleftrightarrow> n = 63"
proof -
  have "bit (push_bit 63 1 :: 64 word) n \<longleftrightarrow> n = 63"
    unfolding push_bit_of_1 bit_exp_iff by auto
  then show ?thesis by (simp only: INSTR_SCRIPT_NOTE_ID_FLAG_def)
qed

lemma ScriptID_ids:
  assumes "\<not> bit i 63"
  shows "ScriptID_isNoteID (ScriptID_fromNoteID i)" "ScriptID_noteID (ScriptID_fromNoteID i) = i"
    "\<not> ScriptID_isNoteID (ScriptID_fromEventID i)" "ScriptID_eventID (ScriptID_fromEventID i) = i"
proof -
  have "bit (ScriptID_fromNoteID i AND INSTR_SCRIPT_NOTE_ID_FLAG) 63"
    by (simp add: ScriptID_fromNoteID_def note_flag_bit bit_simps)
  then show n: "ScriptID_isNoteID (ScriptID_fromNoteID i)" 
  proof -
    have "w \<noteq> 0" if "bit w 63" for w :: "64 word" using that by auto
    then show ?thesis using \<open>bit _ 63\<close> unfolding ScriptID_isNoteID_def by blast
  qed
  have "NOT INSTR_SCRIPT_NOTE_ID_FLAG AND ScriptID_fromNoteID i = i"
    using assms by (intro bit_word_eqI) (auto simp: ScriptID_fromNoteID_def note_flag_bit bit_simps)
  then show "ScriptID_noteID (ScriptID_fromNoteID i) = i" using n by (simp add: ScriptID_noteID_def)
  have "ScriptID_fromEventID i AND INSTR_SCRIPT_NOTE_ID_FLAG = 0"
    using assms by (intro bit_word_eqI) (auto simp: ScriptID_fromEventID_def note_flag_bit INSTR_SCRIPT_EVENT_ID_FLAG_def bit_simps)
  then show e: "\<not> ScriptID_isNoteID (ScriptID_fromEventID i)" by (simp add: ScriptID_isNoteID_def)
  then show "ScriptID_eventID (ScriptID_fromEventID i) = i"
    by (simp add: ScriptID_eventID_def) (simp add: ScriptID_fromEventID_def INSTR_SCRIPT_EVENT_ID_FLAG_def)
qed

text \<open>C25: The script ID of a note or of an event finds it again, and neither is taken for the other.\<close>

theorem script_id_roundtrip:
  assumes "ids_ok p" "i < poolsize p"
  shows "let s = ScriptID_fromNoteID (getID (int i) p); t = ScriptID_fromEventID (getID (int i) p) in
    ScriptID_isNoteID s \<and> map_option it_current (fromID (ScriptID_noteID s) p) = Some (Node i) \<and> ScriptID_eventID s = 0 \<and>
    \<not> ScriptID_isNoteID t \<and> map_option it_current (fromID (ScriptID_eventID t) p) = Some (Node i) \<and> ScriptID_noteID t = 0"
  using ScriptID_ids [OF getID_small [OF assms]] fromID_getID [OF assms, of p]
  by (simp add: Let_def ScriptID_eventID_def ScriptID_noteID_def)

section \<open>The queue\<close>

lemma queue_insert_new: "n \<notin> set q \<Longrightarrow> queue_insert time n q =
    takeWhile (\<lambda>m. time m \<le> time n) q @ n # dropWhile (\<lambda>m. time m \<le> time n) q"
  by (simp add: queue_insert_def)

lemma queue_insert_mset: "n \<notin> set q \<Longrightarrow> mset (queue_insert time n q) = add_mset n (mset q)"
  unfolding queue_insert_new mset_append mset.simps
  by (metis mset_append takeWhile_dropWhile_id union_mset_add_mset_right)

lemma queue_insert_set [simp]: "set (queue_insert time n q) = insert n (set q)"
proof (cases "n \<in> set q")
  case False
  then show ?thesis using mset_eq_setD [of "queue_insert time n q" "n # q"] queue_insert_mset by simp
qed (auto simp: queue_insert_def)

lemma queue_insert_distinct: "distinct q \<Longrightarrow> distinct (queue_insert time n q)"
proof (cases "n \<in> set q")
  case False
  assume "distinct q"
  then have "distinct (n # q)" using False by simp
  then show ?thesis using mset_eq_imp_distinct_iff [of "queue_insert time n q" "n # q"] queue_insert_mset [OF False, of time]
    by simp
qed (simp add: queue_insert_def)

lemma dropWhile_later: "sorted (map time q) \<Longrightarrow> y \<in> set (dropWhile (\<lambda>m. time m \<le> t) q) \<Longrightarrow> t < time y"
proof (induction q)
  case (Cons x q)
  then show ?case by (cases "time x \<le> t") (auto intro: less_le_trans)
qed simp

lemma queue_insert_sorted: "sorted (map time q) \<Longrightarrow> sorted (map time (queue_insert time n q))"
proof (cases "n \<in> set q")
  case False
  assume s: "sorted (map time q)"
  define A D where "A = takeWhile (\<lambda>m. time m \<le> time n) q" and "D = dropWhile (\<lambda>m. time m \<le> time n) q"
  have "sorted (map time (A @ D))" using s by (simp add: A_def D_def)
  then have s2: "sorted (map time A)" "sorted (map time D)" by (simp_all add: sorted_append)
  have a: "\<forall>y \<in> set D. time n < time y" using dropWhile_later [OF s, of _ "time n"] by (auto simp: D_def)
  have b: "\<forall>x \<in> set A. time x \<le> time n" using set_takeWhileD unfolding A_def by metis
  have "\<forall>x \<in> set A. \<forall>y \<in> set D. time x \<le> time y" using a b by (meson less_imp_le order_trans)
  moreover have "queue_insert time n q = A @ n # D" unfolding A_def D_def by (rule queue_insert_new [OF False])
  ultimately show ?thesis using s2 a b by (auto simp: sorted_append)
qed (simp add: queue_insert_def)

text \<open>Items with equal times leave the queue in the order in which they came.\<close>

lemma queue_insert_filter:
  assumes "n \<notin> set q" "sorted (map time q)"
  shows "filter (\<lambda>m. k = time m) (queue_insert time n q) = filter (\<lambda>m. k = time m) q @ (if k = time n then [n] else [])"
proof -
  let ?P = "\<lambda>m. time m \<le> time n"
  have q: "filter (\<lambda>m. k = time m) q = filter (\<lambda>m. k = time m) (takeWhile ?P q) @ filter (\<lambda>m. k = time m) (dropWhile ?P q)"
    by (metis filter_append takeWhile_dropWhile_id)
  have "filter (\<lambda>m. k = time m) (dropWhile ?P q) = []" if "k = time n"
    unfolding filter_empty_conv that
  proof
    fix y assume "y \<in> set (dropWhile ?P q)"
    then have "time n < time y" by (rule dropWhile_later [OF assms(2)])
    then show "time n \<noteq> time y" by simp
  qed
  then show ?thesis unfolding queue_insert_new [OF assms(1)] q by auto
qed

text \<open>Scheduling items one after the other gives the stable sort of them by time.\<close>

theorem queue_is_stable_sort:
  assumes "distinct ns"
  shows "fold (queue_insert time) ns [] = sort_key time ns"
proof -
  have "mset (fold (queue_insert time) ns []) = mset ns \<and> sorted (map time (fold (queue_insert time) ns [])) \<and>
      (\<forall>k. filter (\<lambda>m. k = time m) (fold (queue_insert time) ns []) = filter (\<lambda>m. k = time m) ns)"
    using assms
  proof (induction ns rule: rev_induct)
    case (snoc n ns)
    let ?q = "fold (queue_insert time) ns []"
    have IH: "mset ?q = mset ns" "sorted (map time ?q)" "\<forall>k. filter (\<lambda>m. k = time m) ?q = filter (\<lambda>m. k = time m) ns"
      using snoc by auto
    then have n: "n \<notin> set ?q" using snoc.prems mset_eq_setD [OF IH(1)] by simp
    show ?case using IH queue_insert_mset [OF n, of time] queue_insert_sorted [OF IH(2), of n] queue_insert_filter [OF n IH(2)]
      by simp
  qed simp
  then show ?thesis by (intro properties_for_sort_key [symmetric]) auto
qed

section \<open>Scheduling and popping\<close>

text \<open>The nodes in the queue are allocated, and the queue is ordered by their times.\<close>

definition queue_times :: "chan \<Rightarrow> sched_time_t list" where
  "queue_times c = map (event_time (ch_schedulerNodes c)) (ch_queue c)"

definition sched_inv :: "chan \<Rightarrow> bool" where
  "sched_inv c \<longleftrightarrow> (\<exists>E. pool_inv (ch_pEventPool c) {..<132} E) \<and> (\<exists>N. pool_inv (ch_schedulerNodes c) {..<2} N \<and>
     set (ch_queue c) \<subseteq> set (N 1)) \<and> distinct (ch_queue c) \<and> sorted (queue_times c)"

text \<open>What scheduling does when it succeeds.\<close>

lemma schedule_success:
  assumes inv: "sched_inv c" and E: "pool_inv (ch_pEventPool c) {..<132} E"
    and s: "ScheduleEventMicroSec e d c = Some (i, c')" "i \<noteq> 0"
  obtains N x n f it where "pool_inv (ch_schedulerNodes c) {..<2} N"
    "set (ch_queue c) \<subseteq> set (N 1)" "E freelist \<noteq> []" "N freelist \<noteq> []" "x = last (E freelist)" "n = last (N freelist)"
    "i = getID (int x) (ch_pEventPool c')" "x < poolsize (ch_pEventPool c')" "n < poolsize (ch_schedulerNodes c')" "n \<notin> set (ch_queue c)"
    "\<exists>E'. pool_inv (ch_pEventPool c') {..<132} E' \<and> E' freelist = butlast (E freelist) \<and> E' pEvents = E pEvents \<and> set (E' delayedList) = insert x (set (E delayedList))"
    "\<exists>N'. pool_inv (ch_schedulerNodes c') {..<2} N' \<and> N' 1 = N 1 @ [n]"
    "ch_queue c' = queue_insert (event_time (ch_schedulerNodes c')) n (ch_queue c)"
    "pool_data (ch_schedulerNodes c') = (pool_data (ch_schedulerNodes c))
       (n := \<lparr>sd_scheduleTime = schedule_time f d (ch_pEventGenerator c), sd_itEvent = it\<rparr>)" "it_current it = Node x"
    "pool_data (ch_pEventPool c') = (pool_data (ch_pEventPool c))(x := e\<lparr>ev_iFragmentPos := f\<rparr>)"
    "f = fst (Event_FragmentPos (ch_pEventGenerator c) e)" "ch_pEventGenerator c' = ch_pEventGenerator c"
    "node_reincarnation (ch_pEventPool c') = node_reincarnation (ch_pEventPool c)"
    "poolsize (ch_pEventPool c') = poolsize (ch_pEventPool c)"
proof -
  obtain N where N: "pool_inv (ch_schedulerNodes c) {..<2} N"
    "set (ch_queue c) \<subseteq> set (N 1)" using inv by (auto simp: sched_inv_def)
  have room: "E freelist \<noteq> []" "N freelist \<noteq> []"
    using ScheduleEventMicroSec_full [OF E N(1), of e d] s by (metis Pair_inject option.inject)+
  have n: "last (N freelist) \<notin> set (ch_queue c)"
    using free_not_used [OF N(1) room(2), of 1] N(2) by (auto simp: freelist_def)
  obtain p q it f where r:
    "ScheduleEventMicroSec e d c = Some (getID (int (last (E freelist))) p, c\<lparr>ch_pEventPool := p, ch_schedulerNodes := q,
       ch_queue := queue_insert (event_time q) (last (N freelist)) (ch_queue c)\<rparr>)"
    "\<exists>E'. pool_inv p {..<132} E' \<and> E' freelist = butlast (E freelist) \<and> E' pEvents = E pEvents \<and> set (E' delayedList) = insert (last (E freelist)) (set (E delayedList))"
    "\<exists>N'. pool_inv q {..<2} N' \<and> N' freelist = butlast (N freelist) \<and> N' 1 = N 1 @ [last (N freelist)]"
    "last (E freelist) < poolsize p" "last (N freelist) < poolsize q" "poolsize p = poolsize (ch_pEventPool c)"
    "node_reincarnation p = node_reincarnation (ch_pEventPool c)"
    "pool_data p = (pool_data (ch_pEventPool c))(last (E freelist) := e\<lparr>ev_iFragmentPos := f\<rparr>)"
    "fst (Event_FragmentPos (ch_pEventGenerator c) e) = f"
    "pool_data q = (pool_data (ch_schedulerNodes c))(last (N freelist) :=
      \<lparr>sd_scheduleTime = schedule_time f d (ch_pEventGenerator c), sd_itEvent = it\<rparr>)" "it_current it = Node (last (E freelist))"
    by (rule ScheduleEventMicroSec_ok [OF E N(1) room, of e d]) blast
  have c': "c' = c\<lparr>ch_pEventPool := p, ch_schedulerNodes := q, ch_queue := queue_insert (event_time q) (last (N freelist)) (ch_queue c)\<rparr>"
    "i = getID (int (last (E freelist))) p" using s(1) r(1) by simp_all
  show thesis
    by (rule that [OF N room refl refl]) (use c' r n in auto)
qed

lemma queue_times_other: "n \<notin> set q \<Longrightarrow> map (event_time p) q = map (event_time p') q" if "\<And>m. m \<noteq> n \<Longrightarrow> pool_data p m = pool_data p' m"
  using that by (auto intro!: map_cong [OF refl]) metis

lemma schedule_order:
  assumes "sched_inv c" and "ScheduleEventMicroSec e d c = Some (i, c')" and "i \<noteq> 0"
  shows "sched_inv c' \<and> (\<exists>n. set (ch_queue c') = insert n (set (ch_queue c)) \<and> n \<notin> set (ch_queue c) \<and>
    event_time (ch_schedulerNodes c') n =
      schedule_time (fst (Event_FragmentPos (ch_pEventGenerator c) e)) d (ch_pEventGenerator c))"
proof -
  obtain E where E: "pool_inv (ch_pEventPool c) {..<132} E" using assms(1) by (auto simp: sched_inv_def)
  show ?thesis
proof (rule schedule_success [OF assms(1) E assms(2,3)])
  fix N x n f it
  assume *: "set (ch_queue c) \<subseteq> set (N 1)" "n \<notin> set (ch_queue c)"
    "\<exists>E'. pool_inv (ch_pEventPool c') {..<132} E' \<and> E' freelist = butlast (E freelist) \<and> E' pEvents = E pEvents \<and> set (E' delayedList) = insert x (set (E delayedList))"
    "\<exists>N'. pool_inv (ch_schedulerNodes c') {..<2} N' \<and> N' 1 = N 1 @ [n]"
    "ch_queue c' = queue_insert (event_time (ch_schedulerNodes c')) n (ch_queue c)"
    "pool_data (ch_schedulerNodes c') = (pool_data (ch_schedulerNodes c))
       (n := \<lparr>sd_scheduleTime = schedule_time f d (ch_pEventGenerator c), sd_itEvent = it\<rparr>)"
    "f = fst (Event_FragmentPos (ch_pEventGenerator c) e)"
  have "map (event_time (ch_schedulerNodes c')) (ch_queue c) = queue_times c"
    unfolding queue_times_def by (rule map_cong [OF refl]) (use *(2,6) in auto)
  then have "sorted (queue_times c')" using assms(1) queue_insert_sorted
    unfolding queue_times_def [of c'] *(5) by (metis sched_inv_def)
  moreover have "distinct (ch_queue c')" using assms(1) queue_insert_distinct *(5) by (simp add: sched_inv_def)
  moreover obtain N' where N': "pool_inv (ch_schedulerNodes c') {..<2} N'" "N' 1 = N 1 @ [n]" using *(4) by blast
  moreover have "set (ch_queue c') \<subseteq> set (N' 1)" unfolding N'(2) *(5) using *(1) by auto
  ultimately have "sched_inv c'" using *(3) unfolding sched_inv_def by blast
  then show ?thesis using *(2,5,6,7) by (intro conjI exI [of _ n]) simp_all
qed
qed

text \<open>C21: 
  Scheduling an event keeps the queue ordered and adds the event at the time that was asked for.
\<close>

theorem schedule_keeps_order:
  assumes "sched_inv c" and "ScheduleEventMicroSec e d c = Some (i, c')" and "i \<noteq> 0"
  shows "sched_inv c' \<and> (\<exists>n. set (ch_queue c') = insert n (set (ch_queue c)) \<and> n \<notin> set (ch_queue c) \<and>
    event_time (ch_schedulerNodes c') n =
      schedule_time (fst (Event_FragmentPos (ch_pEventGenerator c) e)) d (ch_pEventGenerator c))"
  using assms by (rule schedule_order)

text \<open>C22: 
  What is popped is the earliest event of the queue, and it is due; nothing is popped only when nothing is due.
\<close>

theorem pop_takes_earliest:
  assumes inv: "sched_inv c"
  shows "\<exists>it c'. popNextScheduledEvent stop c = Some (it, c') \<and> sched_inv c' \<and> (case node_of it of
    None \<Rightarrow> c' = c \<and> (\<forall>m \<in> set (ch_queue c). stop \<le> event_time (ch_schedulerNodes c) m)
  | Some n \<Rightarrow> ch_queue c = n # ch_queue c' \<and> event_time (ch_schedulerNodes c) n < stop \<and>
      (\<forall>m \<in> set (ch_queue c'). event_time (ch_schedulerNodes c) n \<le> event_time (ch_schedulerNodes c) m))"
proof (cases "ch_queue c")
  case Nil
  then show ?thesis using inv by (simp add: popNextScheduledEvent_def)
next
  case (Cons n q)
  obtain E N where E: "pool_inv (ch_pEventPool c) {..<132} E" and N: "pool_inv (ch_schedulerNodes c) {..<2} N"
    "set (ch_queue c) \<subseteq> set (N 1)" using inv by (auto simp: sched_inv_def)
  have first: "\<forall>m \<in> set q. event_time (ch_schedulerNodes c) n \<le> event_time (ch_schedulerNodes c) m"
    using inv Cons by (auto simp: sched_inv_def queue_times_def)
  show ?thesis
  proof (cases "stop \<le> event_time (ch_schedulerNodes c) n")
    case True
    then have "\<forall>m \<in> set (ch_queue c). stop \<le> event_time (ch_schedulerNodes c) m" using first Cons by auto
    then show ?thesis using inv Cons True by (simp add: popNextScheduledEvent_def)
  next
    case False
    have "n < poolsize (ch_schedulerNodes c)"
      unfolding pool_inv_in(2) [OF N(1)] using N(2) Cons by (intro bexI [of _ 1]) auto
    note ptr = fromPtr_ok [OF this]
    let ?c = "c\<lparr>ch_queue := q\<rparr>" and ?it = "sd_itEvent (pool_data (ch_schedulerNodes c) n)"
    have c: "sched_inv ?c" using inv Cons by (auto simp: sched_inv_def queue_times_def)
    have ev: "sched_inv (set_event i e ?c)" for i e
      using c by (simp add: sched_inv_def queue_times_def set_event_def)
    have "queue_erase n (ch_queue c) = q" using Cons by (simp add: queue_erase_def)
    then show ?thesis using c ev first False Cons ptr
      by (cases "node_of ?it") (auto simp: popNextScheduledEvent_def Let_def Iterator_bool_node set_event_def)
  qed
qed

text \<open>C40: 
  An event that is ignored while it waits is freed, but the scheduler keeps its node: the next event that is
  scheduled takes the same element of the pool, so that it is delivered at the time of the ignored one, too.
\<close>

theorem ignored_event_delivered:
  assumes inv: "sched_inv c" and s: "ScheduleEventMicroSec e d c = Some (i, c1)" "i \<noteq> 0"
    and ig: "IgnoreEvent i c1 = Some c2" and s2: "ScheduleEventMicroSec e' d' c2 = Some (i', c3)" "i' \<noteq> 0"
  shows "\<exists>n n' x f. n \<noteq> n' \<and> {n, n'} \<subseteq> set (ch_queue c3) \<and> event_at x c3 = e'\<lparr>ev_iFragmentPos := f\<rparr> \<and>
    event_time (ch_schedulerNodes c3) n = event_time (ch_schedulerNodes c1) n \<and>
    node_of (sd_itEvent (pool_data (ch_schedulerNodes c3) n)) = Some x \<and>
    node_of (sd_itEvent (pool_data (ch_schedulerNodes c3) n')) = Some x"
proof -
  obtain E where E: "pool_inv (ch_pEventPool c) {..<132} E" using inv by (auto simp: sched_inv_def)
  obtain x n it where a: "i = getID (int x) (ch_pEventPool c1)" "x < poolsize (ch_pEventPool c1)"
    "ch_queue c1 = queue_insert (event_time (ch_schedulerNodes c1)) n (ch_queue c)"
    "sd_itEvent (pool_data (ch_schedulerNodes c1) n) = it" "it_current it = Node x"
    by (rule schedule_success [OF inv E s]) auto
  have inv1: "sched_inv c1" using schedule_order [OF inv s] by blast
  obtain E1 where E1: "pool_inv (ch_pEventPool c1) {..<132} E1" using inv1 by (auto simp: sched_inv_def)
  obtain itx where fr: "fromID i (ch_pEventPool c1) = Some itx" "it_current itx = Node x"
    unfolding a(1) by (rule fromID_same [OF E1 a(2) refl refl refl])
  obtain it2 p where p: "list_free itx (ch_pEventPool c1) = Some (it2, p)"
      "pool_inv p {..<132} ((remove_elem x E1)(freelist := remove_elem x E1 freelist @ [x]))"
    by (rule list_free_some [OF E1 fr(2) a(2)])
  have c2: "c2 = c1\<lparr>ch_pEventPool := p\<rparr>" using ig fr p(1) by (simp add: IgnoreEvent_def node_of_rules)
  have inv2: "sched_inv c2" using p(2) inv1 by (auto simp: c2 sched_inv_def queue_times_def)
  have E2: "pool_inv (ch_pEventPool c2) {..<132} ((remove_elem x E1)(freelist := remove_elem x E1 freelist @ [x]))"
    using p(2) by (simp add: c2)
  obtain n' it' f' where b: "n' \<notin> set (ch_queue c2)" "ch_queue c3 = queue_insert (event_time (ch_schedulerNodes c3)) n' (ch_queue c2)"
      "pool_data (ch_schedulerNodes c3) = (pool_data (ch_schedulerNodes c2))
         (n' := \<lparr>sd_scheduleTime = schedule_time f' d' (ch_pEventGenerator c2), sd_itEvent = it'\<rparr>)" "it_current it' = Node x"
      "pool_data (ch_pEventPool c3) = (pool_data (ch_pEventPool c2))(x := e'\<lparr>ev_iFragmentPos := f'\<rparr>)"
    by (rule schedule_success [OF inv2 E2 s2]) auto
  have n: "n \<noteq> n'" "n \<in> set (ch_queue c2)" using b(1) a(3) by (auto simp: c2)
  have data: "pool_data (ch_schedulerNodes c3) n = pool_data (ch_schedulerNodes c1) n" using b(3) n(1) by (simp add: c2)
  show ?thesis
  proof (intro exI conjI)
    show "n \<noteq> n'" by (rule n(1))
    show "{n, n'} \<subseteq> set (ch_queue c3)" unfolding b(2) using n(2) by simp
    show "event_at x c3 = e'\<lparr>ev_iFragmentPos := f'\<rparr>" using b(5) by simp
    show "event_time (ch_schedulerNodes c3) n = event_time (ch_schedulerNodes c1) n" by (simp add: data)
    show "node_of (sd_itEvent (pool_data (ch_schedulerNodes c3) n)) = Some x" using a(4,5) by (simp add: data node_of_Some)
    show "node_of (sd_itEvent (pool_data (ch_schedulerNodes c3) n')) = Some x" using b(3,4) by (simp add: node_of_Some)
  qed
qed

section \<open>Witnesses\<close>

definition can_schedule :: "nat \<Rightarrow> chan \<Rightarrow> bool" where
  "can_schedule k c \<longleftrightarrow> (\<exists>E N. pool_inv (ch_pEventPool c) {..<132} E \<and> pool_inv (ch_schedulerNodes c) {..<2} N \<and>
     k \<le> length (E freelist) \<and> k \<le> length (N freelist))"

lemma schedule_possible:
  assumes "can_schedule (Suc k) c"
  shows "\<exists>i c'. ScheduleEventMicroSec e d c = Some (i, c') \<and> i \<noteq> 0 \<and> can_schedule k c'"
proof -
  obtain E N where E: "pool_inv (ch_pEventPool c) {..<132} E" and N: "pool_inv (ch_schedulerNodes c) {..<2} N"
    and k: "Suc k \<le> length (E freelist)" "Suc k \<le> length (N freelist)" using assms by (auto simp: can_schedule_def)
  then have r: "E freelist \<noteq> []" "N freelist \<noteq> []" by auto
  show ?thesis
  proof (rule ScheduleEventMicroSec_ok [OF E N r, of e d])
    fix p q it f
    assume s: "ScheduleEventMicroSec e d c = Some (getID (int (last (E freelist))) p, c\<lparr>ch_pEventPool := p, ch_schedulerNodes := q,
         ch_queue := queue_insert (event_time q) (last (N freelist)) (ch_queue c)\<rparr>)"
      and p: "\<exists>E'. pool_inv p {..<132} E' \<and> E' freelist = butlast (E freelist) \<and> E' pEvents = E pEvents \<and>
        set (E' delayedList) = insert (last (E freelist)) (set (E delayedList))"
      and q: "\<exists>N'. pool_inv q {..<2} N' \<and> N' freelist = butlast (N freelist) \<and> N' 1 = N 1 @ [last (N freelist)]"
      and x: "last (E freelist) < poolsize p"
    obtain E' where E': "pool_inv p {..<132} E'" "E' freelist = butlast (E freelist)" using p by blast
    have "getID (int (last (E freelist))) p \<noteq> 0" by (rule fromID_same [OF E'(1) x refl refl refl])
    moreover have "can_schedule k (c\<lparr>ch_pEventPool := p, ch_schedulerNodes := q,
         ch_queue := queue_insert (event_time q) (last (N freelist)) (ch_queue c)\<rparr>)"
    proof -
      obtain N' where "pool_inv q {..<2} N'" "N' freelist = butlast (N freelist)" using q by blast
      then show ?thesis using E' k unfolding can_schedule_def
        by - (rule exI [of _ E'], rule exI [of _ N'], auto)
    qed
    ultimately show ?thesis using s by blast
  qed
qed

lemma example_schedule: "sched_inv example_chan" "can_schedule (Suc 7) example_chan"
proof -
  have "pool_inv (ch_pEventPool example_chan) {..<132} (free_lists 8)" "pool_inv (ch_schedulerNodes example_chan) {..<2} (free_lists 8)"
    "ch_queue example_chan = []"
    using pool_of_ok [of 8 132 "\<lambda>_. zero_event"] pool_of_ok [of 8 2 "\<lambda>_. \<lparr>sd_scheduleTime = 0, sd_itEvent = Iterator_default\<rparr>"]
    by (auto simp: example_chan_def)
  then show "sched_inv example_chan" "can_schedule (Suc 7) example_chan"
    by (auto simp: sched_inv_def queue_times_def can_schedule_def free_lists_def intro!: exI [of _ "free_lists 8"])
qed

lemma script_id_roundtrip_witness:
  "ScriptID_isNoteID (ScriptID_fromNoteID (getID 0 (pool_of (\<lambda>_. zero_note) 4 130)))"
proof -
  have "ids_ok (pool_of (\<lambda>_. zero_note) 4 130)" "0 < poolsize (pool_of (\<lambda>_. zero_note) 4 130)"
    using pool_of_ok [of 4 130 "\<lambda>_. zero_note"] by (auto simp: pool_inv_def)
  then show ?thesis using script_id_roundtrip [of "pool_of (\<lambda>_. zero_note) 4 130" 0] by (simp add: Let_def)
qed

lemma queue_is_stable_sort_witness: "fold (queue_insert (\<lambda>n. if n = 0 then 7 else 5)) [0, 1, 2] [] = [1, 2, 0]"
  using queue_is_stable_sort [of "[0, 1, 2]" "\<lambda>n. if n = 0 then 7 else 5"] by simp

lemma schedule_keeps_order_witness:
  "\<exists>i c n. ScheduleEventMicroSec zero_event 0 example_chan = Some (i, c) \<and> sched_inv c \<and> n \<in> set (ch_queue c) \<and>
    event_time (ch_schedulerNodes c) n = 1000"
proof -
  obtain i c where s: "ScheduleEventMicroSec zero_event 0 example_chan = Some (i, c)" "i \<noteq> 0"
    using schedule_possible [of 7 example_chan zero_event 0] example_schedule(2) by blast
  have "sched_time_of_float 0 = 0" by (simp add: zero_vmfloat_def)
  then have "schedule_time (fst (Event_FragmentPos (ch_pEventGenerator example_chan) zero_event)) 0
      (ch_pEventGenerator example_chan) = 1000"
    by (simp add: schedule_time_def schedule_offset_def Event_FragmentPos_def zero_event_def example_chan_def)
  then show ?thesis using schedule_keeps_order [OF example_schedule(1) s] s by auto
qed

lemma pop_takes_earliest_witness:
  "\<exists>it c. popNextScheduledEvent 9 example_chan = Some (it, c) \<and> sched_inv c"
  using pop_takes_earliest [OF example_schedule(1), of 9] by blast

lemma ignored_event_delivered_witness:
  "\<exists>i c1 c2 i' c3 n n' x. ScheduleEventMicroSec zero_event 0 example_chan = Some (i, c1) \<and> IgnoreEvent i c1 = Some c2 \<and>
    ScheduleEventMicroSec zero_event 50 c2 = Some (i', c3) \<and> n \<noteq> n' \<and> {n, n'} \<subseteq> set (ch_queue c3) \<and>
    node_of (sd_itEvent (pool_data (ch_schedulerNodes c3) n)) = Some x \<and>
    node_of (sd_itEvent (pool_data (ch_schedulerNodes c3) n')) = Some x"
proof -
  obtain i c1 where s: "ScheduleEventMicroSec zero_event 0 example_chan = Some (i, c1)" "i \<noteq> 0" "can_schedule 7 c1"
    using schedule_possible [of 7 example_chan zero_event 0] example_schedule(2) by blast
  obtain E N where E: "pool_inv (ch_pEventPool c1) {..<132} E" and N: "pool_inv (ch_schedulerNodes c1) {..<2} N"
    and k: "7 \<le> length (E freelist)" "7 \<le> length (N freelist)" using s(3) by (auto simp: can_schedule_def)
  have "\<exists>c2. IgnoreEvent i c1 = Some c2 \<and> can_schedule 1 c2"
  proof (cases rule: fromID_total [of i "ch_pEventPool c1"])
    case (1 it)
    have "can_schedule 1 c1" unfolding can_schedule_def by (rule exI [of _ E], rule exI [of _ N]) (use E N k in simp)
    then show ?thesis using 1 by (simp add: IgnoreEvent_def Iterator_bool_node)
  next
    case (2 it x)
    obtain it' p where p: "list_free it (ch_pEventPool c1) = Some (it', p)"
        "pool_inv p {..<132} ((remove_elem x E)(freelist := remove_elem x E freelist @ [x]))"
      by (rule list_free_some [OF E 2(2,3)])
    have "can_schedule 1 (c1\<lparr>ch_pEventPool := p\<rparr>)" unfolding can_schedule_def
      by (rule exI [of _ "(remove_elem x E)(freelist := remove_elem x E freelist @ [x])"], rule exI [of _ N])
         (use p(2) N k length_filter_le in \<open>auto simp: remove_elem_def\<close>)
    then show ?thesis using 2(1,2) p(1) by (simp add: IgnoreEvent_def node_of_rules)
  qed
  then obtain c2 where c2: "IgnoreEvent i c1 = Some c2" "can_schedule 1 c2" by blast
  obtain i' c3 where s3: "ScheduleEventMicroSec zero_event 50 c2 = Some (i', c3)" "i' \<noteq> 0"
    using schedule_possible [of 0 c2 zero_event 50] c2(2) by auto
  obtain n n' x where "n \<noteq> n'" "{n, n'} \<subseteq> set (ch_queue c3)"
    "node_of (sd_itEvent (pool_data (ch_schedulerNodes c3) n)) = Some x"
    "node_of (sd_itEvent (pool_data (ch_schedulerNodes c3) n')) = Some x"
    using ignored_event_delivered [OF example_schedule(1) s(1,2) c2(1) s3] by blast
  then show ?thesis using s(1) c2(1) s3(1)
    by - (rule exI [of _ i], rule exI [of _ c1], rule exI [of _ c2], rule exI [of _ i'], rule exI [of _ c3], rule exI [of _ n],
      rule exI [of _ n'], rule exI [of _ x], simp)
qed

end
