(* ===== verification/DelayedEvents.thy ===== *)
theory DelayedEvents
  imports ChannelProps
begin

text \<open>
  The events that were scheduled ahead and are due join the main event list of the channel at the beginning of
  an audio fragment (\<open>EngineBase.h\<close>): one pass over the list merges them, and the list stays in the order of
  fragment positions.
\<close>

section \<open>Positions\<close>

text \<open>The position of an event that is popped, for fragments and delays below \<open>2 ^ 31\<close> samples.\<close>

lemma popped_pos_eq:
  assumes "0 < uint (uiSamplesProcessed g)" "uint (uiSamplesProcessed g) < 2 ^ 31"
    and "time < stop" "uint (stop - time) < 2 ^ 31"
  shows "sint (popped_pos stop time g) = max 0 (uint (uiSamplesProcessed g) - uint (stop - time))"
proof -
  define s d where "s = uiSamplesProcessed g" and "d = stop - time"
  have "d \<noteq> 0" using assms(3) by (auto simp: d_def)
  then have d: "0 < uint d" "uint d < 2 ^ 31" and s: "0 < uint s" "uint s < 2 ^ 31"
    using uint_ge_0 [of d] uint_0_iff [of d] assms unfolding s_def d_def by linarith+
  let ?k = "uint s - uint d"
  have c: "(ucast (word_of_int x :: 64 word) :: 32 word) = word_of_int x" for x
    by (rule bit_word_eqI) (simp add: bit_simps)
  have "ucast s - d = (word_of_int ?k :: 64 word)" by simp
  then have k: "(ucast (ucast s - d :: 64 word) :: 32 word) = word_of_int ?k" using c by metis
  have sx: "sint (word_of_int x :: 32 word) = x" if "- (2 ^ 31) \<le> x" "x < 2 ^ 31" for x
    using that by (simp add: signed_of_int signed_take_bit_int_eq_self)
  have sk: "sint (word_of_int ?k :: 32 word) = ?k" by (rule sx) (use d s in linarith)+
  show ?thesis
  proof (cases "?k < 0")
    case True
    then show ?thesis using s sk unfolding popped_pos_def s_def [symmetric] d_def [symmetric] k by (simp add: word_le_def)
  next
    case False
    have ux: "uint (word_of_int x :: 32 word) = x" if "0 \<le> x" "x < 2 ^ 31" for x
      using that by (simp add: unsigned_of_int take_bit_int_eq_self)
    have "uint (word_of_int ?k :: 32 word) = ?k" by (rule ux) (use False d s in linarith)+
    then have "\<not> s \<le> word_of_int ?k" using d by (simp add: word_le_def)
    then show ?thesis using False sk unfolding popped_pos_def s_def [symmetric] d_def [symmetric] k by simp
  qed
qed

definition fpos :: "nat \<Rightarrow> chan \<Rightarrow> int" where
  "fpos i c = sint (fst (Event_FragmentPos (ch_pEventGenerator c) (event_at i c)))"

text \<open>A position that is asked for is kept in the event, which changes no position.\<close>

lemma FragmentPos_again:
  "fst (Event_FragmentPos g (snd (Event_FragmentPos g e))) = fst (Event_FragmentPos g e)"
  by (cases rule: Event_FragmentPos_cases [of g e]) (simp add: Event_FragmentPos_def)

lemma event_pos_eq:
  "\<exists>q. event_pos i c = (fst (Event_FragmentPos (ch_pEventGenerator c) (event_at i c)), c\<lparr>ch_pEventPool := q\<rparr>) \<and>
    (\<forall>E. pool_inv q {..<132} E = pool_inv (ch_pEventPool c) {..<132} E) \<and> (\<forall>j. fpos j (c\<lparr>ch_pEventPool := q\<rparr>) = fpos j c)"
proof -
  let ?e = "snd (Event_FragmentPos (ch_pEventGenerator c) (event_at i c))"
  have "event_pos i c = (fst (Event_FragmentPos (ch_pEventGenerator c) (event_at i c)), c\<lparr>ch_pEventPool := set_data i ?e (ch_pEventPool c)\<rparr>)"
    by (simp add: event_pos_def set_event_def split: prod.split)
  then show ?thesis by (intro exI [of _ "set_data i ?e (ch_pEventPool c)"]) (auto simp: fpos_def FragmentPos_again)
qed

section \<open>Positions in a list\<close>

lemma increment_node:
  assumes "pool_inv p S L" "l \<in> S" "L l = ys @ x # zs" "it_current it = Node x"
  obtains it' where "Iterator_increment it p = Some it'" "it_current it' = after l zs"
proof -
  have "links p (path l (ys @ x # zs))" using assms(1-3) pool_relD(1) unfolding pool_inv_def by metis
  then have "node_next p (Node x) = after l zs" by (rule neighbours(2))
  then show thesis using that assms(4) by (simp add: Iterator_increment_def get_next_def)
qed

lemma after_simps [simp]: "after l [] = End l" "after l (z # zs) = Node z"
  by (simp_all add: after_def)

lemma skip_earlier_eq:
  assumes "pool_inv (ch_pEventPool c) {..<132} E" "E pEvents = ys @ zs" "it_current it = after pEvents zs"
  shows "\<exists>it' us vs q. skip_earlier it d c = Some (it', c\<lparr>ch_pEventPool := q\<rparr>) \<and> zs = us @ vs \<and>
    it_current it' = after pEvents vs \<and> pool_inv q {..<132} E \<and> (\<forall>j. fpos j (c\<lparr>ch_pEventPool := q\<rparr>) = fpos j c) \<and>
    (\<forall>u \<in> set us. fpos u c \<le> fpos d c) \<and> (\<forall>v \<in> set (take 1 vs). fpos d c < fpos v c)"
  using assms
proof (induction zs arbitrary: ys it c)
  case Nil
  then have "skip_earlier it d c = Some (it, c\<lparr>ch_pEventPool := ch_pEventPool c\<rparr>)"
    by (subst skip_earlier.simps) (simp add: node_of_def)
  then show ?case using Nil by (intro exI [of _ it] exI [of _ "[]"] exI [of _ "ch_pEventPool c"]) simp
next
  case (Cons z zs)
  obtain q1 where q1: "event_pos z c = (fst (Event_FragmentPos (ch_pEventGenerator c) (event_at z c)), c\<lparr>ch_pEventPool := q1\<rparr>)"
    "pool_inv q1 {..<132} E" "\<forall>j. fpos j (c\<lparr>ch_pEventPool := q1\<rparr>) = fpos j c"
    using event_pos_eq [of z c] Cons.prems(1) by blast
  let ?c1 = "c\<lparr>ch_pEventPool := q1\<rparr>"
  obtain q2 where q2: "event_pos d ?c1 = (fst (Event_FragmentPos (ch_pEventGenerator ?c1) (event_at d ?c1)), c\<lparr>ch_pEventPool := q2\<rparr>)"
    "pool_inv q2 {..<132} E" "\<forall>j. fpos j (c\<lparr>ch_pEventPool := q2\<rparr>) = fpos j c"
    using event_pos_eq [of d ?c1] q1(2,3) by auto
  let ?c2 = "c\<lparr>ch_pEventPool := q2\<rparr>"
  have node: "node_of it = Some z" using Cons.prems(3) by (simp add: node_of_Some)
  have cmp: "fst (Event_FragmentPos (ch_pEventGenerator c) (event_at z c)) <=s fst (Event_FragmentPos (ch_pEventGenerator ?c1) (event_at d ?c1))
      \<longleftrightarrow> fpos z c \<le> fpos d c"
    using q1(3) [rule_format, of d] by (simp add: word_sle_eq fpos_def)
  have step: "skip_earlier it d c = (if fpos z c \<le> fpos d c
      then Option.bind (Iterator_increment it q2) (\<lambda>it. skip_earlier it d ?c2) else Some (it, ?c2))"
    by (subst skip_earlier.simps) (simp add: node q1(1) q2(1) cmp [simplified])
  show ?case
  proof (cases "fpos z c \<le> fpos d c")
    case True
    obtain it1 where it1: "Iterator_increment it q2 = Some it1" "it_current it1 = after pEvents zs"
      by (rule increment_node [OF q2(2) _ Cons.prems(2)]) (use Cons.prems(3) in simp_all)
    have "pool_inv (ch_pEventPool ?c2) {..<132} E" "E pEvents = (ys @ [z]) @ zs" using q2(2) Cons.prems(2) by simp_all
    from Cons.IH [OF this it1(2)] obtain it' us vs q where r: "skip_earlier it1 d ?c2 = Some (it', c\<lparr>ch_pEventPool := q\<rparr>)"
      "zs = us @ vs" "it_current it' = after pEvents vs" "pool_inv q {..<132} E" "\<forall>j. fpos j (c\<lparr>ch_pEventPool := q\<rparr>) = fpos j c"
      "\<forall>u \<in> set us. fpos u c \<le> fpos d c" "\<forall>v \<in> set (take 1 vs). fpos d c < fpos v c"
      using q2(3) by auto
    show ?thesis
      by (intro exI [of _ it'] exI [of _ "z # us"] exI [of _ vs] exI [of _ q]) (use r it1(1) step True in auto)
  next
    case False
    show ?thesis
      by (intro exI [of _ it] exI [of _ "[]"] exI [of _ "z # zs"] exI [of _ q2])
        (use step False q2 Cons.prems(3) in simp_all)
  qed
qed

text \<open>Moving an element from another list to a place in a list.\<close>

lemma moveBefore_gap:
  assumes inv: "pool_inv p S L" and m: "m \<in> S" "x \<in> set (L m)" "m \<noteq> l" and l: "l \<in> S" "L l = us @ vs"
    and it: "it_current it = Node x" "it_current dst = after l vs"
  obtains it' it'' p' where "moveBefore it dst p = Some (it', it'', p')" "it_current it' = Node x"
    "pool_inv p' S ((remove_elem x L)(l := us @ x # vs))" "same_elements p' p"
proof -
  have rel: "pool_rel p S L" using inv by (simp add: pool_inv_def)
  then have lr: "lists_rel p S L" by (simp add: pool_rel_def)
  obtain p1 where p1: "detach (Node x) p = Some p1" "lists_rel p1 S (remove_elem x L)" "poolsize p1 = poolsize p"
    by (rule detach_rel [OF lr m(1,2)])
  have "x \<notin> set (L l)" using lists_relD(3) [OF lr m(1) l(1) m(2)] m(3) by blast
  then have g: "remove_elem x L l = us @ vs" "x \<notin> set us" "x \<notin> set vs"
    using l(2) by (auto simp: remove_elem_def intro!: arg_cong2 [where f = "(@)"] filter_True)
  have links: "links p1 (path l (us @ vs))" using lists_relD(1) [OF p1(2) l(1)] g(1) by simp
  note rel2 = move_rel [OF rel m(1,2) p1(2,3) l(1) g(1)]
  have ne: "Node x \<noteq> after l vs" "after l vs \<noteq> Node x" using g(3) by (cases vs; auto)+
  have pb: "prependBefore (Node x) (after l vs) p1 = Some (connect (Node x) (after l vs) (connect (before l us) (Node x) p1))"
    using neighbours2(2) [OF links] ne
    by (simp add: prependBefore_def get_prev_def set_next_def set_prev_def connect_def fun_upd_twist)
  let ?p2 = "connect (Node x) (after l vs) (connect (before l us) (Node x) p1)"
  obtain f where f: "it = \<lparr>it_current = Node x, it_fallback = f\<rparr>" using it(1) by (cases it) auto
  have mv: "moveBefore it dst p = Some (\<lparr>it_current = Node x, it_fallback = node_prev ?p2 (Node x)\<rparr>, \<lparr>it_current = f, it_fallback = f\<rparr>, ?p2)"
    using p1(1) pb it(2) by (simp add: moveBefore_def f moved_ok)
  have "same_elements ?p2 p1" by (simp add: same_elements_def)
  then have same: "same_elements ?p2 p" using detach_same [OF p1(1)] by (rule same_elements_trans)
  show thesis by (rule that [OF mv _ _ same]) (use rel2 pool_inv_same [OF same inv rel2] in simp_all)
qed

section \<open>Merging\<close>

definition due :: "sched_time_t \<Rightarrow> chan \<Rightarrow> nat \<Rightarrow> bool" where
  "due stop c n \<longleftrightarrow> event_time (ch_schedulerNodes c) n < stop"

definition due_pos :: "sched_time_t \<Rightarrow> chan \<Rightarrow> nat \<Rightarrow> int" where
  "due_pos stop c n = sint (popped_pos stop (event_time (ch_schedulerNodes c) n) (ch_pEventGenerator c))"

text \<open>The sizes for which positions do not wrap around.\<close>

definition sizes_ok :: "sched_time_t \<Rightarrow> chan \<Rightarrow> bool" where
  "sizes_ok stop c \<longleftrightarrow> 0 < uint (uiSamplesProcessed (ch_pEventGenerator c)) \<and> uint (uiSamplesProcessed (ch_pEventGenerator c)) < 2 ^ 31 \<and>
     (\<forall>n \<in> set (ch_queue c). due stop c n \<longrightarrow> uint (stop - event_time (ch_schedulerNodes c) n) < 2 ^ 31)"

text \<open>Every node in the queue refers to an element of its own, which waits in the list of delayed events.\<close>

definition waiting :: "(nat \<Rightarrow> nat) \<Rightarrow> (nat \<Rightarrow> nat list) \<Rightarrow> chan \<Rightarrow> bool" where
  "waiting evt E c \<longleftrightarrow> inj_on evt (set (ch_queue c)) \<and>
     (\<forall>n \<in> set (ch_queue c). node_of (sd_itEvent (pool_data (ch_schedulerNodes c) n)) = Some (evt n) \<and> evt n \<in> set (E delayedList))"

lemma due_pos_mono:
  assumes "sizes_ok stop c" "n \<in> set (ch_queue c)" "m \<in> set (ch_queue c)" "due stop c n" "due stop c m"
    and "event_time (ch_schedulerNodes c) n \<le> event_time (ch_schedulerNodes c) m"
  shows "due_pos stop c n \<le> due_pos stop c m" "0 \<le> due_pos stop c n"
proof -
  let ?t = "event_time (ch_schedulerNodes c)" and ?s = "uint (uiSamplesProcessed (ch_pEventGenerator c))"
  have p: "due_pos stop c k = max 0 (?s - uint (stop - ?t k))" if "k \<in> set (ch_queue c)" "due stop c k" for k
    using popped_pos_eq [of "ch_pEventGenerator c" "?t k" stop] assms(1) that by (simp add: sizes_ok_def due_pos_def due_def)
  have "uint (stop - ?t k) = uint stop - uint (?t k)" if "due stop c k" for k
    using that by (intro uint_minus_simple_alt [THEN iffD1]) (simp add: due_def)
  then show "due_pos stop c n \<le> due_pos stop c m" "0 \<le> due_pos stop c n"
    using p assms(2-6) by (auto simp: word_le_def)
qed

lemma pop_due:
  assumes "ch_queue c = n # q" "due stop c n" "n < poolsize (ch_schedulerNodes c)"
    and "node_of (sd_itEvent (pool_data (ch_schedulerNodes c) n)) = Some d"
  obtains it where "popNextScheduledEvent stop c = Some (it, set_event d ((event_at d c)
      \<lparr>ev_iFragmentPos := popped_pos stop (event_time (ch_schedulerNodes c) n) (ch_pEventGenerator c)\<rparr>) (c\<lparr>ch_queue := q\<rparr>))"
    "it_current it = Node n"
proof -
  let ?it = "\<lparr>it_current = Node n, it_fallback = node_prev (ch_schedulerNodes c) (Node n)\<rparr>"
  have "popNextScheduledEvent stop c = Some (?it, set_event d ((event_at d c)
      \<lparr>ev_iFragmentPos := popped_pos stop (event_time (ch_schedulerNodes c) n) (ch_pEventGenerator c)\<rparr>) (c\<lparr>ch_queue := q\<rparr>))"
    using assms fromPtr_ok [OF assms(3)]
    by (simp add: popNextScheduledEvent_def due_def Let_def Iterator_bool_node queue_erase_def not_le)
  then show thesis by (rule that) simp
qed

lemma fpos_popped:
  assumes "0 \<le> sint f"
  shows "fpos j (set_event d ((event_at d c)\<lparr>ev_iFragmentPos := f\<rparr>) (c\<lparr>ch_queue := q\<rparr>)) = (if j = d then sint f else fpos j c)"
  using assms by (simp add: fpos_def set_event_def Event_FragmentPos_def)

lemma insert_step:
  assumes inv: "sched_inv c" "sizes_ok stop c" and E: "pool_inv (ch_pEventPool c) {..<132} E" "E pEvents = ys @ zs"
    and it: "it_current it = after pEvents zs" and w: "waiting evt E c" and q: "ch_queue c = n # q" "due stop c n"
    and sorted: "sorted (map (\<lambda>i. fpos i c) (E pEvents))" and ys: "\<forall>y \<in> set ys. fpos y c \<le> due_pos stop c n"
  obtains c' it' us vs where "insert_delayed_events stop it c = insert_delayed_events stop it' c'"
    "zs = us @ vs" "pool_inv (ch_pEventPool c') {..<132} ((remove_elem (evt n) E)(pEvents := (ys @ us) @ evt n # vs))"
    "it_current it' = Node (evt n)" "ch_queue c' = q" "ch_pEventGenerator c' = ch_pEventGenerator c"
    "pool_data (ch_schedulerNodes c') = pool_data (ch_schedulerNodes c)" "sched_inv c'"
    "\<forall>i. fpos i c' = (if i = evt n then due_pos stop c n else fpos i c)"
    "\<forall>u \<in> set us. fpos u c \<le> due_pos stop c n" "\<forall>v \<in> set vs. due_pos stop c n \<le> fpos v c"
proof -
  obtain N where N: "pool_inv (ch_schedulerNodes c) {..<2} N" "set (ch_queue c) \<subseteq> set (N 1)" "distinct (ch_queue c)" "sorted (queue_times c)"
    using inv(1) by (auto simp: sched_inv_def)
  have n: "n < poolsize (ch_schedulerNodes c)"
    unfolding pool_inv_in(2) [OF N(1)] using N(2) q(1) by (intro bexI [of _ 1]) auto
  define d f where "d = evt n" and "f = popped_pos stop (event_time (ch_schedulerNodes c) n) (ch_pEventGenerator c)"
  have d: "node_of (sd_itEvent (pool_data (ch_schedulerNodes c) n)) = Some d" "d \<in> set (E delayedList)"
    using w q(1) by (auto simp: waiting_def d_def)
  define c1 where "c1 = set_event d ((event_at d c)\<lparr>ev_iFragmentPos := f\<rparr>) (c\<lparr>ch_queue := q\<rparr>)"
  obtain itn where pop: "popNextScheduledEvent stop c = Some (itn, c1)" "it_current itn = Node n"
    by (rule pop_due [OF q n d(1)]) (simp add: c1_def f_def)
  obtain itn' nodes where fr: "list_free itn (ch_schedulerNodes c) = Some (itn', nodes)"
      "pool_inv nodes {..<2} ((remove_elem n N)(freelist := remove_elem n N freelist @ [n]))"
      "same_elements nodes (bumpReincarnation n (reincarnationbits (ch_schedulerNodes c)) (ch_schedulerNodes c))"
    by (rule list_free_some [OF N(1) pop(2) n])
  have nodes: "pool_data nodes = pool_data (ch_schedulerNodes c)" using same_elementsD(1) [OF fr(3)] by simp
  define c2 where "c2 = c1\<lparr>ch_schedulerNodes := nodes\<rparr>"
  have f0: "0 \<le> sint f" "sint f = due_pos stop c n"
    using due_pos_mono(2) [OF inv(2), of n n] q by (simp_all add: f_def due_pos_def)
  have fpos1: "fpos i c2 = (if i = d then sint f else fpos i c)" for i
    using fpos_popped [OF f0(1), of i d c q] by (simp add: c2_def c1_def fpos_def)
  have E2: "pool_inv (ch_pEventPool c2) {..<132} E" using E(1) by (simp add: c2_def c1_def)
  have main: "d \<notin> set (E pEvents)"
    using lists_relD(3) [of "ch_pEventPool c" "{..<132}" E delayedList pEvents d] d(2) E(1) by (auto simp: pool_inv_def pool_rel_def)
  have sd: "node_of (sd_itEvent (pool_data (ch_schedulerNodes c1) n)) = Some d" "ch_schedulerNodes c1 = ch_schedulerNodes c"
    using d(1) by (simp_all add: c1_def set_event_def)
  obtain it1 us vs p where skip: "skip_earlier it d c2 = Some (it1, c2\<lparr>ch_pEventPool := p\<rparr>)" "zs = us @ vs"
      "it_current it1 = after pEvents vs" "pool_inv p {..<132} E" "\<forall>j. fpos j (c2\<lparr>ch_pEventPool := p\<rparr>) = fpos j c2"
      "\<forall>u \<in> set us. fpos u c2 \<le> fpos d c2" "\<forall>v \<in> set (take 1 vs). fpos d c2 < fpos v c2"
    using skip_earlier_eq [OF E2 E(2) it, of d] by blast
  have lst: "E pEvents = (ys @ us) @ vs" using E(2) skip(2) by simp
  have dlist: "delayedList \<in> {..<132}" "pEvents \<in> {..<132}" "delayedList \<noteq> pEvents" by simp_all
  have itd: "it_current (sd_itEvent (pool_data (ch_schedulerNodes c) n)) = Node d" using d(1) by (simp add: node_of_Some)
  obtain it' it'' p' where mv: "moveBefore (sd_itEvent (pool_data (ch_schedulerNodes c) n)) it1 p = Some (it', it'', p')"
      "it_current it' = Node d" "pool_inv p' {..<132} ((remove_elem d E)(pEvents := (ys @ us) @ d # vs))" "same_elements p' p"
    by (rule moveBefore_gap [OF skip(4) dlist(1) d(2) dlist(3,2) lst itd skip(3)])
  define c' where "c' = c2\<lparr>ch_pEventPool := p'\<rparr>"
  have step: "insert_delayed_events stop it c = insert_delayed_events stop it' c'"
    using pop fr(1) sd d(1) skip(1) mv(1)
    by (subst insert_delayed_events.simps) (simp add: node_of_Some [THEN iffD2] c2_def [symmetric] c'_def)
  have fpos': "fpos i c' = (if i = d then due_pos stop c n else fpos i c)" for i
    using skip(5) [rule_format, of i] fpos1 [of i] same_elementsD(1) [OF mv(4)] f0(2) by (simp add: c'_def fpos_def)
  have sorted_zs: "sorted (map (\<lambda>i. fpos i c) vs)" using sorted lst by (simp add: sorted_append)
  have vs: "due_pos stop c n \<le> fpos v c" if "v \<in> set vs" for v
  proof (cases vs)
    case (Cons a as)
    have "a \<noteq> d" using main lst Cons by auto
    then have "due_pos stop c n < fpos a c" using skip(7) Cons fpos1 f0(2) by simp
    then show ?thesis using sorted_zs that Cons by auto
  qed (use that in simp)
  have us: "fpos u c \<le> due_pos stop c n" if "u \<in> set us" for u
  proof -
    have "u \<noteq> d" using main lst that by auto
    then show ?thesis using skip(6) [rule_format, OF that] fpos1 f0(2) by simp
  qed
  have "sched_inv c'"
  proof -
    have "set q \<subseteq> set (((remove_elem n N)(freelist := remove_elem n N freelist @ [n])) 1)"
      using N(2,3) q(1) by (auto simp: freelist_def)
    moreover have "sorted (map (event_time (ch_schedulerNodes c)) q)" using N(4) q(1) by (simp add: queue_times_def)
    ultimately show ?thesis using fr(2) mv(3) N(3) q(1) nodes
      unfolding sched_inv_def queue_times_def c'_def c2_def c1_def set_event_def by (auto simp del: One_nat_def fun_upd_apply)
  qed
  then show thesis
    using that [OF step skip(2), unfolded d_def [symmetric]] mv(2,3) nodes fpos' us vs
    by (simp add: c'_def c2_def c1_def set_event_def)
qed

text \<open>What the loop leaves: \<open>E\<close> and \<open>c\<close> before, \<open>E'\<close> and \<open>c'\<close> after.\<close>

definition merged :: "sched_time_t \<Rightarrow> (nat \<Rightarrow> nat) \<Rightarrow> (nat \<Rightarrow> nat list) \<Rightarrow> chan \<Rightarrow> (nat \<Rightarrow> nat list) \<Rightarrow> chan \<Rightarrow> bool" where
  "merged stop evt E c E' c' \<longleftrightarrow> pool_inv (ch_pEventPool c') {..<132} E' \<and> sched_inv c' \<and>
     sorted (map (\<lambda>i. fpos i c') (E' pEvents)) \<and>
     mset (E' pEvents) = mset (E pEvents) + mset (map evt (filter (due stop c) (ch_queue c))) \<and>
     ch_queue c' = filter (\<lambda>n. \<not> due stop c n) (ch_queue c) \<and>
     (\<forall>n \<in> set (ch_queue c). due stop c n \<longrightarrow> fpos (evt n) c' = due_pos stop c n) \<and>
     (\<forall>i. i \<notin> evt ` {n \<in> set (ch_queue c). due stop c n} \<longrightarrow> fpos i c' = fpos i c)"

lemma not_due_rest:
  assumes "sched_inv c" "ch_queue c = n # q" "\<not> due stop c n"
  shows "\<forall>m \<in> set (ch_queue c). \<not> due stop c m"
proof -
  have "sorted (map (event_time (ch_schedulerNodes c)) (n # q))" using assms(1,2) by (simp add: sched_inv_def queue_times_def)
  then show ?thesis using assms(2,3) by (auto simp: due_def)
qed

lemma insert_loop:
  assumes "sched_inv c" "sizes_ok stop c" "pool_inv (ch_pEventPool c) {..<132} E" "E pEvents = ys @ zs"
    and "it_current it = after pEvents zs" "waiting evt E c" "sorted (map (\<lambda>i. fpos i c) (E pEvents))"
    and "\<forall>y \<in> set ys. \<forall>n \<in> set (ch_queue c). due stop c n \<longrightarrow> fpos y c \<le> due_pos stop c n"
  shows "\<exists>c' E'. insert_delayed_events stop it c = Some c' \<and> merged stop evt E c E' c'"
  using assms
proof (induction "length (ch_queue c)" arbitrary: c E ys zs it)
  case 0
  then have "insert_delayed_events stop it c = Some c"
    by (subst insert_delayed_events.simps) (simp add: popNextScheduledEvent_def)
  then show ?case using 0 by (intro exI [of _ c] exI [of _ E]) (simp add: merged_def)
next
  case (Suc k)
  then obtain n q where q: "ch_queue c = n # q" "length q = k" by (cases "ch_queue c") auto
  show ?case
  proof (cases "due stop c n")
    case False
    have none: "\<forall>m \<in> set (ch_queue c). \<not> due stop c m" by (rule not_due_rest [OF Suc.prems(1) q(1) False])
    have "popNextScheduledEvent stop c = Some (Iterator_default, c)"
      using False q(1) by (simp add: popNextScheduledEvent_def due_def not_less)
    then have "insert_delayed_events stop it c = Some c" by (subst insert_delayed_events.simps) simp
    moreover have "filter (due stop c) (ch_queue c) = []" "filter (\<lambda>n. \<not> due stop c n) (ch_queue c) = ch_queue c"
      using none by (auto simp: filter_empty_conv intro!: filter_True)
    ultimately show ?thesis using Suc.prems none by (intro exI [of _ c] exI [of _ E]) (auto simp: merged_def)
  next
    case True
    have "\<forall>y \<in> set ys. fpos y c \<le> due_pos stop c n" using Suc.prems(8) q(1) True by simp
    from insert_step [OF Suc.prems(1-6) q(1) True Suc.prems(7) this] obtain c1 it1 us vs where s:
      "insert_delayed_events stop it c = insert_delayed_events stop it1 c1" "zs = us @ vs"
      "pool_inv (ch_pEventPool c1) {..<132} ((remove_elem (evt n) E)(pEvents := (ys @ us) @ evt n # vs))"
      "it_current it1 = Node (evt n)" "ch_queue c1 = q" "ch_pEventGenerator c1 = ch_pEventGenerator c"
      "pool_data (ch_schedulerNodes c1) = pool_data (ch_schedulerNodes c)" "sched_inv c1"
      "\<forall>i. fpos i c1 = (if i = evt n then due_pos stop c n else fpos i c)"
      "\<forall>u \<in> set us. fpos u c \<le> due_pos stop c n" "\<forall>v \<in> set vs. due_pos stop c n \<le> fpos v c"
      by metis
    let ?E = "(remove_elem (evt n) E)(pEvents := (ys @ us) @ evt n # vs)"
    have same: "due stop c1 = due stop c" "due_pos stop c1 = due_pos stop c"
      using s(6,7) by (simp_all add: due_def due_pos_def fun_eq_iff)
    have evt: "inj_on evt (set (ch_queue c))" "evt n \<in> set (E delayedList)" "n \<notin> set q"
      using Suc.prems(1,6) q(1) by (auto simp: waiting_def sched_inv_def)
    have main: "evt n \<notin> set (E pEvents)"
      using lists_relD(3) [of "ch_pEventPool c" "{..<132}" E delayedList pEvents "evt n"] evt(2) Suc.prems(3)
      by (auto simp: pool_inv_def pool_rel_def)
    have "sizes_ok stop c1" using Suc.prems(2) s(5-7) q(1) same by (simp add: sizes_ok_def)
    moreover have "waiting evt ?E c1"
      using Suc.prems(6) s(5,7) q(1) evt by (auto simp: waiting_def inj_on_def)
    moreover have "sorted (map (\<lambda>i. fpos i c1) (?E pEvents))"
    proof -
      have m: "map (\<lambda>i. fpos i c1) ((ys @ us) @ vs) = map (\<lambda>i. fpos i c) ((ys @ us) @ vs)"
        using main Suc.prems(4) s(2,9) by (intro map_cong [OF refl]) auto
      have "sorted (map (\<lambda>i. fpos i c) ((ys @ us) @ vs))" using Suc.prems(7) Suc.prems(4) s(2) by simp
      then have "sorted (map (\<lambda>i. fpos i c1) ((ys @ us) @ vs))" unfolding m .
      moreover have "fpos y c1 \<le> fpos (evt n) c1" if "y \<in> set (ys @ us)" for y
      proof -
        have "y \<noteq> evt n" using that main Suc.prems(4) s(2) by auto
        then show ?thesis using that Suc.prems(8) q(1) True s(9,10) by auto
      qed
      moreover have "fpos (evt n) c1 \<le> fpos v c1" if "v \<in> set vs" for v
      proof -
        have "v \<noteq> evt n" using that main Suc.prems(4) s(2) by auto
        then show ?thesis using that s(9,11) by auto
      qed
      ultimately show ?thesis by (simp add: sorted_append)
    qed
    moreover have "\<forall>y \<in> set (ys @ us). \<forall>m \<in> set (ch_queue c1). due stop c1 m \<longrightarrow> fpos y c1 \<le> due_pos stop c1 m"
    proof (intro ballI impI)
      fix y m assume y: "y \<in> set (ys @ us)" and m: "m \<in> set (ch_queue c1)" "due stop c1 m"
      have "y \<noteq> evt n" using y main Suc.prems(4) s(2) by auto
      then have "fpos y c1 \<le> due_pos stop c n" using y s(9,10) Suc.prems(8) q(1) True by auto
      also have "\<dots> \<le> due_pos stop c m"
        using m s(5) q(1) True Suc.prems(1) same
        by (intro due_pos_mono(1) [OF Suc.prems(2)]) (auto simp: sched_inv_def queue_times_def)
      finally show "fpos y c1 \<le> due_pos stop c1 m" by (simp add: same)
    qed
    ultimately obtain c' E' where r: "insert_delayed_events stop it1 c1 = Some c'" "merged stop evt ?E c1 E' c'"
      using Suc.hyps(1) [of c1 ?E "ys @ us" "evt n # vs" it1] s(3-5,8) q(2) by auto
    have "merged stop evt E c E' c'" unfolding merged_def
    proof (intro conjI)
      show "pool_inv (ch_pEventPool c') {..<132} E'" "sched_inv c'" "sorted (map (\<lambda>i. fpos i c') (E' pEvents))"
        using r(2) by (simp_all add: merged_def)
      show "mset (E' pEvents) = mset (E pEvents) + mset (map evt (filter (due stop c) (ch_queue c)))"
        using r(2) Suc.prems(4) s(2,5) same q(1) True by (simp add: merged_def)
      show "ch_queue c' = filter (\<lambda>n. \<not> due stop c n) (ch_queue c)"
        using r(2) s(5) same q(1) True by (simp add: merged_def)
      have rest: "evt n \<notin> evt ` {m \<in> set q. due stop c m}" using evt(1,3) q(1) by (auto simp: inj_on_def)
      then have "fpos (evt n) c' = due_pos stop c n" using r(2) s(5,9) same by (simp add: merged_def)
      then show "\<forall>m \<in> set (ch_queue c). due stop c m \<longrightarrow> fpos (evt m) c' = due_pos stop c m"
        using r(2) s(5) same q(1) by (simp add: merged_def)
      show "\<forall>i. i \<notin> evt ` {m \<in> set (ch_queue c). due stop c m} \<longrightarrow> fpos i c' = fpos i c"
      proof (intro allI impI)
        fix i assume i: "i \<notin> evt ` {m \<in> set (ch_queue c). due stop c m}"
        then have "i \<noteq> evt n" "i \<notin> evt ` {m \<in> set q. due stop c m}" using q(1) True by auto
        then show "fpos i c' = fpos i c" using r(2) s(5,9) same by (simp add: merged_def)
      qed
    qed
    then show ?thesis using s(1) r(1) by auto
  qed
qed



end
