(* ===== verification/ScriptRun.thy ===== *)
theory ScriptRun
  imports ScriptFunctions
begin

text \<open>
  The life of a script event: \<open>InstrumentScriptVM::exec\<close> (\<open>InstrumentScriptVM.cpp\<close>), spawning, suspending and
  resuming of event handlers (\<open>EngineBase.h\<close>), and \<open>InstrumentScript::resetEvents\<close>. Running one handler,
  \<open>ScriptVM::exec\<close> with the built-in functions of the engine, is the parameter \<open>run\<close>: it works on the
  execution context in the virtual machine's part of the state.
\<close>

type_synonym run_fn = "nat \<Rightarrow> chan \<Rightarrow> (VMExecStatus_t \<times> chan) option"

section \<open>InstrumentScriptVM::exec\<close>

text \<open>Writing a MIDI controller into the channel's table before the script can read it.\<close>

definition set_controller_table :: "nat \<Rightarrow> 8 word \<Rightarrow> chan \<Rightarrow> chan option" where
  "set_controller_table k v c = do {
     t \<leftarrow> nth_opt (int8Arrays (ch_vm c)) 0;
     d \<leftarrow> upd_opt (a8_data t) k v;
     arrays \<leftarrow> upd_opt (int8Arrays (ch_vm c)) 0 (t\<lparr>a8_data := d\<rparr>);
     Some (c\<lparr>ch_vm := (ch_vm c)\<lparr>int8Arrays := arrays\<rparr>\<rparr>) }"

definition preprocess_midi :: "Event \<Rightarrow> chan \<Rightarrow> chan option" where
  "preprocess_midi cause c = (case ev_Type cause of
     type_control_change \<Rightarrow> do {
       k \<leftarrow> get_CC_Controller cause;
       v \<leftarrow> param_load 2 1 cause;
       set_controller_table (nat k) (word_of_int v) c }
   | type_channel_pressure \<Rightarrow> do {
       v \<leftarrow> param_load 2 1 cause;
       set_controller_table CTRL_TABLE_IDX_AFTERTOUCH (word_of_int v) c }
   | type_pitchbend \<Rightarrow> do {
       v \<leftarrow> param_load 2 2 cause; \<comment> \<open>of the 16 bits the table keeps 8\<close>
       set_controller_table CTRL_TABLE_IDX_PITCHBEND (word_of_int v) c }
   | _ \<Rightarrow> Some c)"

text \<open>The children that are to be aborted with their parent; the list of IDs ends with 0.\<close>

definition abort_child :: "script_callback_id_t \<Rightarrow> chan \<Rightarrow> chan option" where
  "abort_child i c = do {
     itChild \<leftarrow> ScriptCallbackByID i c;
     case node_of itChild of None \<Rightarrow> Some c
     | Some j \<Rightarrow> do {
         e \<leftarrow> script_event j c;
         if se_autoAbortByParent e
         then set_script_event j (e\<lparr>se_execCtx := signalAbort (se_execCtx e)\<rparr>) c else Some c } }"

fun abort_children :: "nat \<Rightarrow> script_callback_id_t list \<Rightarrow> chan \<Rightarrow> chan option" where
  "abort_children 0 ids c = Some c"
| "abort_children (Suc k) [] c = None"
| "abort_children (Suc k) (i # ids) c =
     (if i = 0 then Some c else do { c \<leftarrow> abort_child i c; abort_children k ids c })"

text \<open>One handler of the list, with its context put into the virtual machine and taken out again.\<close>

definition exec_handler :: "run_fn \<Rightarrow> nat \<Rightarrow> nat \<Rightarrow> chan \<Rightarrow> (VMExecStatus_t \<times> chan) option" where
  "exec_handler run i handler c = do {
     e \<leftarrow> script_event i c;
     (res, c) \<leftarrow> run handler (c\<lparr>ch_vm := (ch_vm c)\<lparr>execCtx := se_execCtx e\<rparr>\<rparr>);
     e \<leftarrow> script_event i c;
     c \<leftarrow> set_script_event i (e\<lparr>se_execCtx := execCtx (ch_vm c), se_executionSlices := se_executionSlices e + 1\<rparr>) c;
     c \<leftarrow> (if res AND VM_EXEC_SUSPENDED = 0
           then abort_children MAX_FORK_PER_SCRIPT_HANDLER (se_childHandlerID e) c else Some c);
     Some (res, c) }"

partial_function (option) exec_handlers :: "run_fn \<Rightarrow> nat \<Rightarrow> VMExecStatus_t \<Rightarrow> chan \<Rightarrow> (VMExecStatus_t \<times> chan) option" where
  "exec_handlers run i res c =
     Option.bind (script_event i c) (\<lambda>e.
     Option.bind (nth_opt (se_handlers e) (se_currentHandler e)) (\<lambda>h.
     case h of None \<Rightarrow> Some (res, c)
     | Some handler \<Rightarrow>
       Option.bind (exec_handler run i handler c) (\<lambda>(res, c).
       if res AND VM_EXEC_SUSPENDED \<noteq> 0 \<or> res AND VM_EXEC_ERROR \<noteq> 0 then Some (res, c)
       else Option.bind (script_event i c) (\<lambda>e.
         Option.bind (set_script_event i (e\<lparr>se_currentHandler := se_currentHandler e + 1\<rparr>) c) (\<lambda>c.
         exec_handlers run i res c)))))"

definition InstrumentScriptVM_exec :: "run_fn \<Rightarrow> nat \<Rightarrow> chan \<Rightarrow> (VMExecStatus_t \<times> chan) option" where
  "InstrumentScriptVM_exec run i c = do {
     let c = c\<lparr>ch_m_event := i\<rparr> in do {
       e \<leftarrow> script_event i c;
       c \<leftarrow> (if se_executionSlices e = 0 then preprocess_midi (se_cause e) c else Some c);
       exec_handlers run i VM_EXEC_NOT_RUNNING c } }"

section \<open>Spawning and resuming handlers\<close>

text \<open>\<open>note\<close> and \<open>release\<close> handlers that share polyphonic variables keep the script event of the note.\<close>

definition shares_polyphonic_data :: "InstrumentScript \<Rightarrow> bool" where
  "shares_polyphonic_data s = (case (is_handlerNote s, is_handlerRelease s) of
     (Some n, Some r) \<Rightarrow> is_isPolyphonic s n \<and> is_isPolyphonic s r | _ \<Rightarrow> False)"

definition free_script_event :: "Iterator \<Rightarrow> chan \<Rightarrow> (Iterator \<times> chan) option" where
  "free_script_event it c = do {
     s \<leftarrow> ch_pScript c;
     (it, p) \<leftarrow> list_free it (is_pEvents s);
     Some (it, c\<lparr>ch_pScript := Some (s\<lparr>is_pEvents := p\<rparr>)\<rparr>) }"

definition move_to_key :: "Iterator \<Rightarrow> int \<Rightarrow> chan \<Rightarrow> (Iterator \<times> chan) option" where
  "move_to_key it key c = do {
     s \<leftarrow> ch_pScript c;
     (_, it, p) \<leftarrow> moveToEndOf it (pKeyEvents (nat (key mod 128))) (is_pEvents s);
     Some (it, c\<lparr>ch_pScript := Some (s\<lparr>is_pEvents := p\<rparr>)\<rparr>) }"

text \<open>
  What follows a run: the event waits in the queue, or is kept for the release of its key, or is freed. The
  iterator is a reference parameter, and goes to its fallback when the event is moved or freed.
\<close>

definition after_run ::
    "VMExecStatus_t \<Rightarrow> nat option \<Rightarrow> int option \<Rightarrow> Iterator \<Rightarrow> nat \<Rightarrow> chan \<Rightarrow> (Iterator \<times> chan) option" where
  "after_run res handler key it i c =
     (if res AND VM_EXEC_SUSPENDED \<noteq> 0 then do {
        e \<leftarrow> script_event i c;
        let (pos, cause) = Event_FragmentPos (ch_pEventGenerator c) (se_cause e) in do {
          c \<leftarrow> set_script_event i (e\<lparr>se_cause := cause\<rparr>) c;
          c \<leftarrow> schedule_script_event i pos (suspendMicroseconds (se_execCtx e)) c;
          Some (it, c) } }
      else do {
        s \<leftarrow> ch_pScript c;
        if handler \<noteq> None \<and> handler = is_handlerNote s \<and> shares_polyphonic_data s
        then do { key \<leftarrow> key; move_to_key it key c }
        else free_script_event it c })"

definition init_script_event :: "Event \<Rightarrow> sched_time_t \<Rightarrow> nat \<Rightarrow> VMEventHandlerType_t \<Rightarrow> vmint \<Rightarrow> ScriptEvent \<Rightarrow> ScriptEvent option" where
  "init_script_event cause time handler type eid e = do {
     hs \<leftarrow> upd_opt (se_handlers e) 0 (Some handler);
     hs \<leftarrow> upd_opt hs 1 None;
     ids \<leftarrow> upd_opt (se_childHandlerID e) 0 0;
     Some (e\<lparr>se_handlers := hs, se_cause := cause, se_scheduleTime := time, se_currentHandler := 0,
       se_executionSlices := 0, se_ignoreAllWaitCalls := False, se_handlerType := type, se_parentHandlerID := 0,
       se_childHandlerID := ids, se_autoAbortByParent := False, se_forkIndex := 0, se_id := eid\<rparr>) }"

definition event_script_id :: "nat \<Rightarrow> chan \<Rightarrow> vmint option" where
  "event_script_id k c =
     (if ev_Type (event_at k c) = type_note_on
      then do { n \<leftarrow> get_Note_ID (event_at k c); Some (ScriptID_fromNoteID (word_of_int n)) }
      else Some (ScriptID_fromEventID (getID (int k) (ch_pEventPool c))))"

definition ProcessScriptEvent :: "run_fn \<Rightarrow> nat \<Rightarrow> nat \<Rightarrow> Iterator \<Rightarrow> chan \<Rightarrow> (Iterator \<times> chan) option" where
  \<comment> \<open>\<open>k\<close> is the event, \<open>it\<close> the script event\<close>
  "ProcessScriptEvent run k handler it c = (case node_of it of None \<Rightarrow> Some (it, c)
   | Some i \<Rightarrow> do {
       s \<leftarrow> ch_pScript c;
       e \<leftarrow> script_event i c;
       let cause = event_at k c; (time, ev') = Event_SchedTime (ch_pEventGenerator c) cause;
           c = set_event k ev' c in do {
         eid \<leftarrow> event_script_id k c;
         e \<leftarrow> init_script_event cause time handler (is_eventHandlerType s handler) eid e;
         c \<leftarrow> set_script_event i e c;
         (res, c) \<leftarrow> InstrumentScriptVM_exec run i (c\<lparr>ch_currentHandlerType := is_eventHandlerType s handler\<rparr>);
         after_run res (Some handler) (get_Note_Key (event_at k c)) it i c } })"

definition ResumeScriptEvent :: "run_fn \<Rightarrow> Iterator \<Rightarrow> chan \<Rightarrow> chan option" where
  "ResumeScriptEvent run it c = do {
     i \<leftarrow> node_of it;
     s \<leftarrow> ch_pScript c;
     e \<leftarrow> script_event i c;
     handler \<leftarrow> nth_opt (se_handlers e) (se_currentHandler e);
     (res, c) \<leftarrow> InstrumentScriptVM_exec run i
       (case handler of None \<Rightarrow> c | Some h \<Rightarrow> c\<lparr>ch_currentHandlerType := is_eventHandlerType s h\<rparr>);
     e \<leftarrow> script_event i c;
     (_, c) \<leftarrow> after_run res handler (get_Note_Key (se_cause e)) it i c;
     Some c }"

partial_function (option) ProcessSuspendedScriptEvents :: "run_fn \<Rightarrow> sched_time_t \<Rightarrow> chan \<Rightarrow> chan option" where
  "ProcessSuspendedScriptEvents run stop c =
     Option.bind (popNextScheduledScriptEvent stop c) (\<lambda>(it, c).
       if \<not> Iterator_bool it then Some c
       else Option.bind (ResumeScriptEvent run it c) (\<lambda>c. ProcessSuspendedScriptEvents run stop c))"

text \<open>
  A new script event is used before it is known whether the pool had one left.
\<close>

definition spawn_script_event :: "run_fn \<Rightarrow> nat \<Rightarrow> nat \<Rightarrow> chan \<Rightarrow> chan option" where
  "spawn_script_event run k handler c = do {
     s \<leftarrow> ch_pScript c;
     (it, p) \<leftarrow> allocAppend 1 (is_pEvents s);
     let c = c\<lparr>ch_pScript := Some (s\<lparr>is_pEvents := p\<rparr>)\<rparr> in do {
       c \<leftarrow> (if is_isPolyphonic s handler
             then do { i \<leftarrow> node_of it; e \<leftarrow> script_event i c;
                       set_script_event i (e\<lparr>se_execCtx := resetPolyphonicData (se_execCtx e)\<rparr>) c }
             else Some c);
       (_, c) \<leftarrow> ProcessScriptEvent run k handler it c;
       Some c } }"

partial_function (option) recycle_script_events :: "run_fn \<Rightarrow> nat \<Rightarrow> nat \<Rightarrow> nat \<Rightarrow> Iterator \<Rightarrow> chan \<Rightarrow> chan option" where
  "recycle_script_events run k handler key it c =
     (if it_current it = End (pKeyEvents key) then Some c
      else Option.bind (ProcessScriptEvent run k handler it c) (\<lambda>(it, c).
        Option.bind (ch_pScript c) (\<lambda>s.
        Option.bind (Iterator_increment it (is_pEvents s)) (\<lambda>it.
        recycle_script_events run k handler key it c))))"

definition ProcessEventByScript :: "run_fn \<Rightarrow> nat \<Rightarrow> nat \<Rightarrow> chan \<Rightarrow> chan option" where
  "ProcessEventByScript run k handler c = do {
     key \<leftarrow> get_Note_Key (event_at k c);
     s \<leftarrow> ch_pScript c;
     if Some handler = is_handlerRelease s \<and> shares_polyphonic_data s
     then
       (if \<not> key < 128 then None \<comment> \<open>behind \<open>pKeyEvents\<close>\<close>
        else if \<not> isEmpty (pKeyEvents (nat key)) (is_pEvents s)
        then do { it \<leftarrow> list_first (pKeyEvents (nat key)) (is_pEvents s);
                  recycle_script_events run k handler (nat key) it c }
        else spawn_script_event run k handler c)
     else spawn_script_event run k handler c }"

section \<open>InstrumentScript::resetEvents\<close>

fun clear_key_events :: "nat \<Rightarrow> nat \<Rightarrow> ScriptEvent Pool \<Rightarrow> ScriptEvent Pool option" where
  "clear_key_events i 0 p = Some p"
| "clear_key_events i (Suc n) p = do { p \<leftarrow> list_clear (pKeyEvents i) p; clear_key_events (Suc i) n p }"

definition resetEvents :: "InstrumentScript \<Rightarrow> InstrumentScript option" where
  "resetEvents s = do {
     p \<leftarrow> clear_key_events 0 128 (is_pEvents s);
     p \<leftarrow> list_clear 1 p;
     Some (s\<lparr>is_eventGroups := map ca_clear (is_eventGroups s), is_suspendedEvents := [], is_pEvents := p\<rparr>) }"

end
