(* ===== verification/RTAVLTree.thy ===== *)
theory RTAVLTree
  imports Prelude
begin

text \<open>
  The balanced search tree \<open>RTAVLTree\<close> (\<open>src/src/common/RTAVLTree.h\<close>) that the engines use as queue of scheduled
  events: nodes linked by pointers, with a ring of twins for elements of equal key. A pointer is the number of
  a node, NULL is None; the nodes are the values of \<open>heap\<close>. The template parameter \<open>T_SAFE\<close> is true, as in all uses,
  and the comparison of nodes is by \<open>key\<close>. None as a result is a null pointer that is dereferenced, or a loop
  that does not end. The drawing of a tree as text (\<open>dumpTree\<close>, \<open>width\<close>) is left out.
\<close>

section \<open>Nodes and trees\<close>

datatype Dir_t = LEFT | RIGHT

record RTAVLNode =
  av_parent :: "nat option"
  av_children :: "Dir_t \<Rightarrow> nat option"
  av_prevTwin :: nat
  av_nextTwin :: nat
  av_balance :: int
  av_twinHead :: bool
  av_tree :: "nat option"

record RTAVLTree =
  self :: nat \<comment> \<open>the address of the tree\<close>
  heap :: "nat \<Rightarrow> RTAVLNode"
  root :: "nat option"
  nodesCount :: int

definition reset_node :: "nat \<Rightarrow> RTAVLNode" where
  "reset_node n = \<lparr>av_parent = None, av_children = (\<lambda>_. None), av_prevTwin = n, av_nextTwin = n, av_balance = 0,
     av_twinHead = True, av_tree = None\<rparr>"

definition RTAVLTree_new :: "nat \<Rightarrow> (nat \<Rightarrow> RTAVLNode) \<Rightarrow> RTAVLTree" where
  "RTAVLTree_new this h = \<lparr>self = this, heap = h, root = None, nodesCount = 0\<rparr>"

definition avl_isEmpty :: "RTAVLTree \<Rightarrow> bool" where
  "avl_isEmpty t \<longleftrightarrow> root t = None"

definition upd :: "nat \<Rightarrow> (RTAVLNode \<Rightarrow> RTAVLNode) \<Rightarrow> RTAVLTree \<Rightarrow> RTAVLTree" where
  "upd n f t = t\<lparr>heap := (heap t)(n := f (heap t n))\<rparr>"

definition node_reset :: "nat \<Rightarrow> RTAVLTree \<Rightarrow> RTAVLTree" where
  "node_reset n = upd n (\<lambda>_. reset_node n)"

definition set_parent :: "nat \<Rightarrow> nat option \<Rightarrow> RTAVLTree \<Rightarrow> RTAVLTree" where
  "set_parent n p = upd n (av_parent_update (\<lambda>_. p))"

text \<open>\<open>if (child) child->parent = p\<close>\<close>

definition set_parent_opt :: "nat option \<Rightarrow> nat option \<Rightarrow> RTAVLTree \<Rightarrow> RTAVLTree" where
  "set_parent_opt child p t = (case child of None \<Rightarrow> t | Some n \<Rightarrow> set_parent n p t)"

definition set_child :: "nat \<Rightarrow> Dir_t \<Rightarrow> nat option \<Rightarrow> RTAVLTree \<Rightarrow> RTAVLTree" where
  "set_child n d p = upd n (\<lambda>x. x\<lparr>av_children := (av_children x)(d := p)\<rparr>)"

definition set_balance :: "nat \<Rightarrow> int \<Rightarrow> RTAVLTree \<Rightarrow> RTAVLTree" where
  "set_balance n b = upd n (av_balance_update (\<lambda>_. b))"

fun opposite :: "Dir_t \<Rightarrow> Dir_t" where
  "opposite LEFT = RIGHT"
| "opposite RIGHT = LEFT"

definition uplinkDirFrom :: "nat \<Rightarrow> nat \<Rightarrow> RTAVLTree \<Rightarrow> Dir_t" where
  \<comment> \<open>with the parent of \<open>node\<close> as argument\<close>
  "uplinkDirFrom node parent t = (if av_children (heap t parent) LEFT = Some node then LEFT else RIGHT)"

definition relationToParent :: "nat \<Rightarrow> RTAVLTree \<Rightarrow> int" where
  "relationToParent node t = (case av_parent (heap t node) of None \<Rightarrow> 0
     | Some p \<Rightarrow> if uplinkDirFrom node p t = LEFT then - 1 else 1)"

text \<open>\<open>*downLinkTo(node) = p\<close>\<close>

definition set_downLink :: "nat \<Rightarrow> nat option \<Rightarrow> RTAVLTree \<Rightarrow> RTAVLTree" where
  "set_downLink node p t = (case av_parent (heap t node) of None \<Rightarrow> t\<lparr>root := p\<rparr>
     | Some q \<Rightarrow> set_child q (uplinkDirFrom node q t) p t)"

section \<open>Rotations\<close>

text \<open>\<open>x->children[e] = y->children[d]; if (x->children[e]) x->children[e]->parent = x\<close>, and hanging \<open>x\<close> below \<open>y\<close>.\<close>

definition take_child :: "nat \<Rightarrow> Dir_t \<Rightarrow> nat \<Rightarrow> Dir_t \<Rightarrow> RTAVLTree \<Rightarrow> RTAVLTree" where
  "take_child x e y d t =
     (let c = av_children (heap t y) d in set_parent_opt c (Some x) (set_child x e c t))"

definition hang :: "nat \<Rightarrow> nat \<Rightarrow> Dir_t \<Rightarrow> RTAVLTree \<Rightarrow> RTAVLTree" where
  "hang x y d t = set_parent x (Some y) (set_child y d (Some x) t)"

definition rotateOnce :: "nat \<Rightarrow> Dir_t \<Rightarrow> RTAVLTree \<Rightarrow> (int \<times> nat \<times> RTAVLTree) option" where
  "rotateOnce old dir t = do {
     node \<leftarrow> av_children (heap t old) (opposite dir);
     let heightChange = (if av_balance (heap t node) = 0 then 0 else 1);
         t = set_downLink old (Some node) t;
         t = set_parent node (av_parent (heap t old)) t;
         t = take_child old (opposite dir) node dir t;
         t = hang old node dir t;
         t = set_balance node (if dir = LEFT then av_balance (heap t node) - 1 else av_balance (heap t node) + 1) t;
         t = set_balance old (- av_balance (heap t node)) t
     in Some (heightChange, node, t) }"

definition rotateTwice :: "nat \<Rightarrow> Dir_t \<Rightarrow> RTAVLTree \<Rightarrow> (int \<times> nat \<times> RTAVLTree) option" where
  "rotateTwice x dir t = do {
     z \<leftarrow> av_children (heap t x) (opposite dir);
     y \<leftarrow> av_children (heap t z) dir;
     let t = set_downLink x (Some y) t;
         t = set_parent y (av_parent (heap t x)) t;
         t = take_child x (opposite dir) y dir t;
         t = hang x y dir t;
         t = take_child z dir y (opposite dir) t;
         t = hang z y (opposite dir) t
     in do {
       l \<leftarrow> av_children (heap t y) LEFT;
       r \<leftarrow> av_children (heap t y) RIGHT;
       let t = set_balance l (- max (av_balance (heap t y)) 0) t;
           t = set_balance r (- min (av_balance (heap t y)) 0) t
       in Some (1, y, set_balance y 0 t) } }"

definition rebalance :: "nat \<Rightarrow> RTAVLTree \<Rightarrow> (int \<times> nat \<times> RTAVLTree) option" where
  "rebalance node t =
     (if av_balance (heap t node) < - 1 then do {
        c \<leftarrow> av_children (heap t node) LEFT;
        if av_balance (heap t c) = 1 then rotateTwice node RIGHT t else rotateOnce node RIGHT t }
      else if 1 < av_balance (heap t node) then do {
        c \<leftarrow> av_children (heap t node) RIGHT;
        if av_balance (heap t c) = - 1 then rotateTwice node LEFT t else rotateOnce node LEFT t }
      else Some (0, node, t))"

section \<open>insert\<close>

datatype Relation_t = LESS | EQUAL | GREATER

definition avl_compare :: "(nat \<Rightarrow> 'k::linorder) \<Rightarrow> nat \<Rightarrow> nat \<Rightarrow> Relation_t" where
  "avl_compare key a b = (if key b = key a then EQUAL else if key b < key a then LESS else GREATER)"

definition mark_inserted :: "nat \<Rightarrow> RTAVLTree \<Rightarrow> RTAVLTree" where
  "mark_inserted item t = upd item (av_tree_update (\<lambda>_. Some (self t))) (node_reset item t)"

definition add_twin :: "nat \<Rightarrow> nat \<Rightarrow> RTAVLTree \<Rightarrow> RTAVLTree" where
  "add_twin node item t =
     (if node = item then t
      else let t = mark_inserted item t;
               t = upd (av_prevTwin (heap t node)) (av_nextTwin_update (\<lambda>_. item)) t;
               prev = av_prevTwin (heap t node);
               t = upd item (\<lambda>x. x\<lparr>av_prevTwin := prev, av_nextTwin := node, av_twinHead := False\<rparr>) t;
               t = upd node (av_prevTwin_update (\<lambda>_. item)) t
           in t\<lparr>nodesCount := nodesCount t + 1\<rparr>)"

text \<open>Walking down: the first result says whether the item was hung in as a child.\<close>

partial_function (option) attach :: "(nat \<Rightarrow> 'k::linorder) \<Rightarrow> nat \<Rightarrow> nat \<Rightarrow> RTAVLTree \<Rightarrow> (bool \<times> RTAVLTree) option" where
  "attach key item node t = (case avl_compare key node item of
     EQUAL \<Rightarrow> Some (False, add_twin node item t)
   | rel \<Rightarrow> (let dir = (if rel = LESS then LEFT else RIGHT) in
       case av_children (heap t node) dir of
         Some c \<Rightarrow> attach key item c t
       | None \<Rightarrow>
           (let t = mark_inserted item t;
                t = set_child node dir (Some item) t;
                t = set_parent item (Some node) t
            in Some (True, t\<lparr>nodesCount := nodesCount t + 1\<rparr>))))"

partial_function (option) grow_up :: "nat \<Rightarrow> int \<Rightarrow> RTAVLTree \<Rightarrow> RTAVLTree option" where
  "grow_up node increase t = (case av_parent (heap t node) of None \<Rightarrow> Some t
   | Some p \<Rightarrow>
       if increase = 0 then Some t
       else (let increase = increase * relationToParent node t;
                 t = set_balance p (av_balance (heap t p) + increase) t
             in if av_balance (heap t p) \<noteq> 0
                then Option.bind (rebalance p t) (\<lambda>(hc, node, t). grow_up node (1 - hc) t)
                else grow_up p 0 t))"

definition RTAVLTree_insert :: "(nat \<Rightarrow> 'k::linorder) \<Rightarrow> nat \<Rightarrow> RTAVLTree \<Rightarrow> RTAVLTree option" where
  "RTAVLTree_insert key item t =
     (if av_tree (heap t item) = Some (self t) then Some t
      else case root t of
        None \<Rightarrow> Some ((mark_inserted item t)\<lparr>root := Some item, nodesCount := nodesCount t + 1\<rparr>)
      | Some node \<Rightarrow> do {
          (asChild, t) \<leftarrow> attach key item node t;
          if asChild then grow_up item 1 t else Some t })"

section \<open>erase\<close>

partial_function (option) lowest_from :: "nat \<Rightarrow> RTAVLTree \<Rightarrow> nat option" where
  "lowest_from node t = (case av_children (heap t node) LEFT of None \<Rightarrow> Some node | Some c \<Rightarrow> lowest_from c t)"

partial_function (option) highest_from :: "nat \<Rightarrow> RTAVLTree \<Rightarrow> nat option" where
  "highest_from node t = (case av_children (heap t node) RIGHT of None \<Rightarrow> Some node | Some c \<Rightarrow> highest_from c t)"

text \<open>The loop that walks up after an element was taken out.\<close>

definition shrink_node :: "nat \<Rightarrow> int \<Rightarrow> RTAVLTree \<Rightarrow> (int \<times> nat \<times> RTAVLTree) option" where
  "shrink_node node decrease t =
     (let t = set_balance node (av_balance (heap t node) - decrease) t
      in if av_balance (heap t node) \<noteq> 0 then rebalance node t else Some (1, node, t))"

partial_function (option) shrink_up :: "nat \<Rightarrow> int \<Rightarrow> RTAVLTree \<Rightarrow> RTAVLTree option" where
  "shrink_up node decrease t = (case av_parent (heap t node) of None \<Rightarrow> Some t
   | Some p \<Rightarrow>
       if decrease = 0 then Some t
       else Option.bind (shrink_node p (decrease * relationToParent node t) t) (\<lambda>(decrease, node, t).
         shrink_up node decrease t))"

text \<open>A twin that is not the head of its ring, and a head with further twins.\<close>

definition unlink_twin :: "nat \<Rightarrow> RTAVLTree \<Rightarrow> RTAVLTree" where
  "unlink_twin item t =
     (let t = upd (av_prevTwin (heap t item)) (av_nextTwin_update (\<lambda>_. av_nextTwin (heap t item))) t
      in upd (av_nextTwin (heap t item)) (av_prevTwin_update (\<lambda>_. av_prevTwin (heap t item))) t)"

definition erase_head :: "nat \<Rightarrow> RTAVLTree \<Rightarrow> RTAVLTree" where
  "erase_head item t =
     (let next = av_nextTwin (heap t item); i = heap t item;
          t = upd next (\<lambda>x. x\<lparr>av_parent := av_parent i, av_children := av_children i, av_balance := av_balance i,
            av_twinHead := True\<rparr>) t;
          t = unlink_twin item t;
          t = set_parent_opt (av_children (heap t item) LEFT) (Some next) t;
          t = set_parent_opt (av_children (heap t item) RIGHT) (Some next) t
      in set_downLink item (Some next) t)"

text \<open>The case of two children: the in-order successor \<open>dangling\<close> takes the place of \<open>item\<close>.\<close>

definition replace_by_dangling :: "nat \<Rightarrow> nat \<Rightarrow> RTAVLTree \<Rightarrow> nat option \<times> RTAVLTree" where
  "replace_by_dangling item dangling t =
     (let is1st = (av_children (heap t item) RIGHT = Some dangling);
          t = set_downLink dangling (av_children (heap t dangling) RIGHT) t;
          t = set_parent_opt (av_children (heap t dangling) RIGHT) (av_parent (heap t dangling)) t;
          node = (if is1st then Some dangling else av_parent (heap t dangling));
          t = set_parent_opt (av_children (heap t item) LEFT) (Some dangling) t;
          t = (if is1st then t else set_child dangling RIGHT (av_children (heap t item) RIGHT) t);
          t = set_parent_opt (av_children (heap t item) RIGHT) (Some dangling) t;
          i = heap t item;
          t = upd dangling (\<lambda>x. x\<lparr>av_parent := av_parent i, av_balance := av_balance i,
            av_children := (av_children x)(LEFT := av_children i LEFT)\<rparr>) t
      in (node, set_downLink item (Some dangling) t))"

partial_function (option) shrink_to :: "nat \<Rightarrow> nat \<Rightarrow> int \<Rightarrow> RTAVLTree \<Rightarrow> (int \<times> nat \<times> RTAVLTree) option" where
  "shrink_to dangling node decrease t =
     (let isDangling = (node = dangling);
          decrease = decrease * (if isDangling then 1 else - 1)
      in Option.bind (if decrease \<noteq> 0 then shrink_node node decrease t else Some (0, node, t)) (\<lambda>(decrease, node, t).
        if isDangling then Some (decrease, node, t)
        else Option.bind (av_parent (heap t node)) (\<lambda>p. shrink_to dangling p decrease t)))"

definition erase_node :: "nat \<Rightarrow> RTAVLTree \<Rightarrow> RTAVLTree option" where
  \<comment> \<open>a node without further twins; the root without children is treated before\<close>
  "erase_node item t = (case (av_children (heap t item) LEFT, av_children (heap t item) RIGHT) of
     (Some l, Some r) \<Rightarrow> do {
       dangling \<leftarrow> lowest_from r t;
       (node, t) \<leftarrow> Some (replace_by_dangling item dangling t);
       node \<leftarrow> node;
       (decrease, node, t) \<leftarrow> shrink_to dangling node 1 t;
       shrink_up node decrease t }
   | (None, None) \<Rightarrow> do {
       p \<leftarrow> av_parent (heap t item);
       let dir = uplinkDirFrom item p t in do {
         (decrease, node, t) \<leftarrow> shrink_node p (if dir = LEFT then - 1 else 1) (set_child p dir None t);
         shrink_up node decrease t } }
   | (l, r) \<Rightarrow> do {
       child \<leftarrow> (if r \<noteq> None then r else l);
       let t = (if root t = Some item then t\<lparr>root := Some child\<rparr>
                else set_downLink item (Some child) t);
           t = set_parent child (av_parent (heap t item)) t
       in shrink_up child 1 t })"

definition RTAVLTree_erase :: "nat \<Rightarrow> RTAVLTree \<Rightarrow> RTAVLTree option" where
  "RTAVLTree_erase item t =
     (if av_tree (heap t item) \<noteq> Some (self t) then Some t
      else if root t = None then Some (node_reset item t)
      else if \<not> av_twinHead (heap t item) then
        (let t = node_reset item (unlink_twin item t) in Some (t\<lparr>nodesCount := nodesCount t - 1\<rparr>))
      else if av_nextTwin (heap t item) \<noteq> item then
        (let t = node_reset item (erase_head item t) in Some (t\<lparr>nodesCount := nodesCount t - 1\<rparr>))
      else if av_children (heap t item) LEFT = None \<and> av_children (heap t item) RIGHT = None \<and> root t = Some item
      then Some (node_reset item (t\<lparr>root := None, nodesCount := 0\<rparr>))
      else do {
        t \<leftarrow> erase_node item t;
        Some (node_reset item (t\<lparr>nodesCount := nodesCount t - 1\<rparr>)) })"

section \<open>Lookup and traversal\<close>

definition RTAVLTree_lowest :: "RTAVLTree \<Rightarrow> nat option" where
  "RTAVLTree_lowest t = do { node \<leftarrow> root t; lowest_from node t }"

definition RTAVLTree_highest :: "RTAVLTree \<Rightarrow> nat option" where
  "RTAVLTree_highest t = do { node \<leftarrow> root t; highest_from node t }"

text \<open>Going up until the node is a child on side \<open>dir\<close>; \<open>Some None\<close> is the null pointer that \<open>after\<close> returns.\<close>

partial_function (option) first_above :: "Dir_t \<Rightarrow> nat \<Rightarrow> RTAVLTree \<Rightarrow> nat option option" where
  "first_above dir node t = (case av_parent (heap t node) of None \<Rightarrow> Some None
   | Some p \<Rightarrow> if av_children (heap t p) dir = Some node then Some (Some p) else first_above dir p t)"

definition RTAVLTree_after :: "nat \<Rightarrow> RTAVLTree \<Rightarrow> nat option option" where
  "RTAVLTree_after item t =
     (if \<not> av_twinHead (heap t (av_nextTwin (heap t item))) then Some (Some (av_nextTwin (heap t item)))
      else case av_children (heap t item) RIGHT of
        Some c \<Rightarrow> map_option Some (lowest_from c t)
      | None \<Rightarrow> first_above LEFT item t)"

definition RTAVLTree_before :: "nat \<Rightarrow> RTAVLTree \<Rightarrow> nat option option" where
  "RTAVLTree_before item t =
     (if \<not> av_twinHead (heap t item) then Some (Some (av_nextTwin (heap t item)))
      else case av_children (heap t item) LEFT of
        Some c \<Rightarrow> map_option Some (highest_from c t)
      | None \<Rightarrow> first_above RIGHT item t)"

definition avl_size :: "RTAVLTree \<Rightarrow> int" where
  "avl_size t = nodesCount t"

partial_function (option) clear_loop :: "RTAVLTree \<Rightarrow> RTAVLTree option" where
  "clear_loop t = (case root t of None \<Rightarrow> Some t
   | Some n \<Rightarrow> Option.bind (RTAVLTree_erase n t) clear_loop)"

definition RTAVLTree_clear :: "RTAVLTree \<Rightarrow> RTAVLTree option" where
  "RTAVLTree_clear t = do { t \<leftarrow> clear_loop t; Some (t\<lparr>root := None, nodesCount := 0\<rparr>) }"

section \<open>Self checks\<close>

text \<open>
  The methods with which the unit tests look at a tree. They recurse over the nodes; None is a recursion or a walk
  round a ring that does not end. Of the checks \<open>Some None\<close> means that nothing is wrong.
\<close>

partial_function (option) height_at :: "nat option \<Rightarrow> RTAVLTree \<Rightarrow> int option" where
  "height_at p t = (case p of None \<Rightarrow> Some 0
   | Some node \<Rightarrow> do {
       l \<leftarrow> height_at (av_children (heap t node) LEFT) t;
       r \<leftarrow> height_at (av_children (heap t node) RIGHT) t;
       Some (max l r + 1) })"

definition avl_height :: "RTAVLTree \<Rightarrow> int option" where
  "avl_height t = height_at (root t) t"

partial_function (option) count_ring :: "nat \<Rightarrow> nat \<Rightarrow> int \<Rightarrow> RTAVLTree \<Rightarrow> int option" where
  "count_ring this twin n t = (if twin = this then Some n else count_ring this (av_nextTwin (heap t twin)) (n + 1) t)"

definition countTwins :: "nat \<Rightarrow> RTAVLTree \<Rightarrow> int option" where
  "countTwins this t = count_ring this (av_nextTwin (heap t this)) 1 t"

partial_function (option) count_at :: "nat option \<Rightarrow> int \<Rightarrow> RTAVLTree \<Rightarrow> int option" where
  "count_at p n t = (case p of None \<Rightarrow> Some n
   | Some node \<Rightarrow> do {
       k \<leftarrow> countTwins node t;
       n \<leftarrow> count_at (av_children (heap t node) LEFT) (n + k) t;
       count_at (av_children (heap t node) RIGHT) n t })"

definition avl_count :: "RTAVLTree \<Rightarrow> int option" where
  "avl_count t = count_at (root t) 0 t"

definition downLink :: "nat \<Rightarrow> RTAVLTree \<Rightarrow> nat option" where
  "downLink node t = (case av_parent (heap t node) of None \<Rightarrow> root t
     | Some p \<Rightarrow> av_children (heap t p) (if av_children (heap t p) LEFT = Some node then LEFT else RIGHT))"

partial_function (option) assertLinks_at :: "nat option \<Rightarrow> RTAVLTree \<Rightarrow> (nat option \<times> nat) option option" where
  "assertLinks_at p t = (case p of None \<Rightarrow> Some None
   | Some node \<Rightarrow>
       if downLink node t \<noteq> Some node then Some (Some (av_parent (heap t node), node))
       else do {
         res \<leftarrow> assertLinks_at (av_children (heap t node) LEFT) t;
         if res \<noteq> None then Some res else assertLinks_at (av_children (heap t node) RIGHT) t })"

definition assertTreeLinks :: "RTAVLTree \<Rightarrow> (nat option \<times> nat) option option" where
  "assertTreeLinks t = assertLinks_at (root t) t"

partial_function (option) assertBalance_at :: "nat option \<Rightarrow> RTAVLTree \<Rightarrow> nat option option" where
  "assertBalance_at p t = (case p of None \<Rightarrow> Some None
   | Some node \<Rightarrow> do {
       left \<leftarrow> height_at (av_children (heap t node) LEFT) t;
       right \<leftarrow> height_at (av_children (heap t node) RIGHT) t;
       if right - left < - 1 \<or> 1 < right - left then Some (Some node)
       else do {
         res \<leftarrow> assertBalance_at (av_children (heap t node) LEFT) t;
         if res \<noteq> None then Some res else assertBalance_at (av_children (heap t node) RIGHT) t } })"

definition assertTreeBalance :: "RTAVLTree \<Rightarrow> nat option option" where
  "assertTreeBalance t = assertBalance_at (root t) t"

end
