(* ===== verification/RTAVLTreeShape.thy ===== *)
theory RTAVLTreeShape
  imports RTAVLTree
begin

text \<open>
  What the linked nodes of a tree stand for: a binary tree of rings of twins with balances, and a context, the
  path from a place in the tree up to the root. The rotations are operations on such trees.
\<close>

section \<open>Trees and contexts\<close>

datatype rtree = Tip | Br rtree "nat list" int rtree

primrec rings :: "rtree \<Rightarrow> nat list list" where
  "rings Tip = []"
| "rings (Br l tw b r) = rings l @ tw # rings r"

primrec heads :: "rtree \<Rightarrow> nat list" where
  "heads Tip = []"
| "heads (Br l tw b r) = heads l @ hd tw # heads r"

primrec ht :: "rtree \<Rightarrow> int" where
  "ht Tip = 0"
| "ht (Br l tw b r) = max (ht l) (ht r) + 1"

primrec ptr :: "rtree \<Rightarrow> nat option" where
  "ptr Tip = None"
| "ptr (Br l tw b r) = Some (hd tw)"

fun mk :: "Dir_t \<Rightarrow> rtree \<Rightarrow> nat list \<Rightarrow> int \<Rightarrow> rtree \<Rightarrow> rtree" where
  "mk LEFT t tw b s = Br t tw b s"
| "mk RIGHT t tw b s = Br s tw b t"

primrec tree_at :: "(nat \<Rightarrow> RTAVLNode) \<Rightarrow> nat option \<Rightarrow> rtree \<Rightarrow> bool" where
  "tree_at h p Tip \<longleftrightarrow> True"
| "tree_at h p (Br l tw b r) \<longleftrightarrow> av_parent (h (hd tw)) = p \<and> av_children (h (hd tw)) LEFT = ptr l \<and>
     av_children (h (hd tw)) RIGHT = ptr r \<and> av_balance (h (hd tw)) = b \<and>
     tree_at h (Some (hd tw)) l \<and> tree_at h (Some (hd tw)) r"

text \<open>A frame is a node with one child left out: the side, the twins, the balance and the other child.\<close>

type_synonym frame = "Dir_t \<times> nat list \<times> int \<times> rtree"

fun plug :: "frame list \<Rightarrow> rtree \<Rightarrow> rtree" where
  "plug [] t = t"
| "plug ((d, tw, b, s) # C) t = plug C (mk d t tw b s)"

fun ctx_ptr :: "frame list \<Rightarrow> nat option" where
  "ctx_ptr [] = None"
| "ctx_ptr ((d, tw, b, s) # C) = Some (hd tw)"

fun ctx_at :: "(nat \<Rightarrow> RTAVLNode) \<Rightarrow> nat option \<Rightarrow> frame list \<Rightarrow> nat option \<Rightarrow> bool" where
  "ctx_at h rt [] p \<longleftrightarrow> rt = p"
| "ctx_at h rt ((d, tw, b, s) # C) p \<longleftrightarrow> av_children (h (hd tw)) d = p \<and>
     av_children (h (hd tw)) (opposite d) = ptr s \<and> av_balance (h (hd tw)) = b \<and>
     av_parent (h (hd tw)) = ctx_ptr C \<and> tree_at h (Some (hd tw)) s \<and> ctx_at h rt C (Some (hd tw))"

fun ctx_heads :: "frame list \<Rightarrow> nat set" where
  "ctx_heads [] = {}"
| "ctx_heads ((d, tw, b, s) # C) = insert (hd tw) (set (heads s) \<union> ctx_heads C)"

fun ctx_distinct :: "frame list \<Rightarrow> bool" where
  "ctx_distinct [] \<longleftrightarrow> True"
| "ctx_distinct ((d, tw, b, s) # C) \<longleftrightarrow> hd tw \<notin> set (heads s) \<union> ctx_heads C \<and> distinct (heads s) \<and>
     set (heads s) \<inter> ctx_heads C = {} \<and> ctx_distinct C"

definition rep :: "RTAVLTree \<Rightarrow> frame list \<Rightarrow> rtree \<Rightarrow> bool" where
  "rep t C T \<longleftrightarrow> ctx_at (heap t) (root t) C (ptr T) \<and> tree_at (heap t) (ctx_ptr C) T \<and> ctx_distinct C \<and>
     distinct (heads T) \<and> set (heads T) \<inter> ctx_heads C = {}"

lemma opposite_opposite [simp]: "opposite (opposite d) = d" "opposite d \<noteq> d" "d \<noteq> opposite d"
  by (cases d; simp)+

lemma dir_cases: "e = d \<or> e = opposite d" by (cases d; cases e) simp_all

lemma mk_simps [simp]:
  "ptr (mk d t tw b s) = Some (hd tw)" "set (heads (mk d t tw b s)) = insert (hd tw) (set (heads t) \<union> set (heads s))"
  "ht (mk d t tw b s) = max (ht t) (ht s) + 1" "set (rings (mk d t tw b s)) = insert tw (set (rings t) \<union> set (rings s))"
  "tree_at h p (mk d t tw b s) \<longleftrightarrow> av_parent (h (hd tw)) = p \<and> av_children (h (hd tw)) d = ptr t \<and>
     av_children (h (hd tw)) (opposite d) = ptr s \<and> av_balance (h (hd tw)) = b \<and>
     tree_at h (Some (hd tw)) t \<and> tree_at h (Some (hd tw)) s"
  "distinct (heads (mk d t tw b s)) \<longleftrightarrow> distinct (heads t) \<and> distinct (heads s) \<and> hd tw \<notin> set (heads t) \<union> set (heads s) \<and>
     set (heads t) \<inter> set (heads s) = {}"
  by (cases d; auto)+

lemma rep_frame: "rep t ((d, tw, b, s) # C) T \<longleftrightarrow> rep t C (mk d T tw b s)"
  by (auto simp: rep_def)

lemma rep_plug: "rep t C T \<longleftrightarrow> rep t [] (plug C T)"
  by (induction C T rule: plug.induct) (simp_all add: rep_frame)

section \<open>Frames of the heap\<close>

definition same_links :: "RTAVLNode \<Rightarrow> RTAVLNode \<Rightarrow> bool" where
  "same_links x y \<longleftrightarrow> av_parent x = av_parent y \<and> av_children x = av_children y \<and> av_balance x = av_balance y"

lemma same_links_refl [simp]: "same_links x x" by (simp add: same_links_def)

lemma tree_at_links: "\<forall>n \<in> set (heads T). same_links (h' n) (h n) \<Longrightarrow> tree_at h' p T = tree_at h p T"
  by (induction T arbitrary: p) (auto simp: same_links_def)

lemma ctx_at_links: "\<forall>n \<in> ctx_heads C. same_links (h' n) (h n) \<Longrightarrow> ctx_at h' rt C p = ctx_at h rt C p"
proof (induction C arbitrary: p)
  case (Cons f C)
  obtain d tw b s where f: "f = (d, tw, b, s)" by (cases f) auto
  show ?case using Cons tree_at_links [of s h' h] by (auto simp: f same_links_def)
qed simp

lemma tree_at_cong: "\<forall>n \<in> set (heads T). h' n = h n \<Longrightarrow> tree_at h' p T = tree_at h p T"
  by (rule tree_at_links) simp

lemma ctx_at_cong: "\<forall>n \<in> ctx_heads C. h' n = h n \<Longrightarrow> ctx_at h' rt C p = ctx_at h rt C p"
  by (rule ctx_at_links) simp

lemma rep_links:
  assumes "rep t C T" "root t' = root t" "\<forall>n \<in> set (heads T) \<union> ctx_heads C. same_links (heap t' n) (heap t n)"
  shows "rep t' C T"
  using assms tree_at_links [of T "heap t'" "heap t"] ctx_at_links [of C "heap t'" "heap t"] by (simp add: rep_def)

lemma tree_at_upd [simp]: "n \<notin> set (heads T) \<Longrightarrow> tree_at (h(n := x)) p T = tree_at h p T"
  by (rule tree_at_cong) auto

lemma ctx_at_upd [simp]: "n \<notin> ctx_heads C \<Longrightarrow> ctx_at (h(n := x)) rt C p = ctx_at h rt C p"
  by (rule ctx_at_cong) auto

lemma ctx_ptr_heads: "ctx_ptr C = Some n \<Longrightarrow> n \<in> ctx_heads C"
  by (cases C rule: ctx_ptr.cases) auto

lemma ptr_heads: "ptr T = Some n \<Longrightarrow> n \<in> set (heads T)" by (cases T) auto

lemma upd_simps [simp]:
  "heap (upd n f t) = (heap t)(n := f (heap t n))" "root (upd n f t) = root t" "self (upd n f t) = self t"
  "nodesCount (upd n f t) = nodesCount t"
  by (simp_all add: upd_def)

lemmas node_updates = set_parent_def set_child_def set_balance_def node_reset_def

lemma node_heap [simp]:
  "heap (set_parent n p t) = (heap t)(n := (heap t n)\<lparr>av_parent := p\<rparr>)"
  "heap (set_child n d p t) = (heap t)(n := (heap t n)\<lparr>av_children := (av_children (heap t n))(d := p)\<rparr>)"
  "heap (set_balance n b t) = (heap t)(n := (heap t n)\<lparr>av_balance := b\<rparr>)"
  "root (set_parent n p t) = root t" "root (set_child n d p t) = root t" "root (set_balance n b t) = root t"
  "self (set_parent n p t) = self t" "self (set_child n d p t) = self t" "self (set_balance n b t) = self t"
  "nodesCount (set_parent n p t) = nodesCount t" "nodesCount (set_child n d p t) = nodesCount t"
  "nodesCount (set_balance n b t) = nodesCount t"
  "set_parent_opt None p t = t" "set_parent_opt (Some n) p t = set_parent n p t"
  by (simp_all add: node_updates set_parent_opt_def)

text \<open>Rings of twins do not change when only the structure of the tree does.\<close>

definition same_twins :: "RTAVLTree \<Rightarrow> RTAVLTree \<Rightarrow> bool" where
  "same_twins t' t \<longleftrightarrow> self t' = self t \<and> nodesCount t' = nodesCount t \<and> (\<forall>n. av_prevTwin (heap t' n) = av_prevTwin (heap t n) \<and>
     av_nextTwin (heap t' n) = av_nextTwin (heap t n) \<and> av_twinHead (heap t' n) = av_twinHead (heap t n) \<and>
     av_tree (heap t' n) = av_tree (heap t n))"

lemma same_twins_refl [simp]: "same_twins t t" by (simp add: same_twins_def)

lemma same_twins_trans: "same_twins t'' t' \<Longrightarrow> same_twins t' t \<Longrightarrow> same_twins t'' t"
  by (simp add: same_twins_def)

lemma same_twins_updates [simp]:
  "same_twins (set_parent n p t) t" "same_twins (set_parent_opt c p t) t" "same_twins (set_child n d p t) t"
  "same_twins (set_balance n b t) t" "same_twins (set_downLink n p t) t"
  by (simp_all add: same_twins_def node_updates set_parent_opt_def set_downLink_def split: option.splits)

lemma same_twins_update_trans:
  "same_twins t' t \<Longrightarrow> same_twins (set_parent n p t') t" "same_twins t' t \<Longrightarrow> same_twins (set_parent_opt c p t') t"
  "same_twins t' t \<Longrightarrow> same_twins (set_child n d p t') t" "same_twins t' t \<Longrightarrow> same_twins (set_balance n b t') t"
  "same_twins t' t \<Longrightarrow> same_twins (set_downLink n p t') t"
  using same_twins_trans same_twins_updates by blast+

lemma uplinkDirFrom_frame:
  assumes "ctx_at h rt ((d, tw, b, s) # C) (Some n)" "n \<notin> set (heads s)" "h = heap t"
  shows "uplinkDirFrom n (hd tw) t = d"
  using assms ptr_heads [of s n] by (cases d) (auto simp: uplinkDirFrom_def)

lemma set_downLink_ctx:
  assumes "ctx_at (heap t) (root t) C (Some n)" "av_parent (heap t n) = ctx_ptr C" "ctx_distinct C" "n \<notin> ctx_heads C"
  shows "ctx_at (heap (set_downLink n p t)) (root (set_downLink n p t)) C p"
    and "m \<notin> ctx_heads C \<Longrightarrow> heap (set_downLink n p t) m = heap t m"
proof -
  have "ctx_at (heap (set_downLink n p t)) (root (set_downLink n p t)) C p \<and>
    (m \<notin> ctx_heads C \<longrightarrow> heap (set_downLink n p t) m = heap t m)" for m
  proof (cases C rule: ctx_ptr.cases)
    case 1
    then show ?thesis using assms by (simp add: set_downLink_def)
  next
    case (2 d tw b s C')
    have d: "uplinkDirFrom n (hd tw) t = d" using assms by (intro uplinkDirFrom_frame) (auto simp: 2)
    show ?thesis using assms d by (simp add: 2 set_downLink_def set_child_def)
  qed
  then show "ctx_at (heap (set_downLink n p t)) (root (set_downLink n p t)) C p"
    and "m \<notin> ctx_heads C \<Longrightarrow> heap (set_downLink n p t) m = heap t m" by blast+
qed

lemma set_parent_opt_other [simp]: "p \<noteq> Some n \<Longrightarrow> heap (set_parent_opt p q t) n = heap t n"
  by (cases p) auto

lemma set_parent_opt_root [simp]: "root (set_parent_opt p q t) = root t" "self (set_parent_opt p q t) = self t"
  "nodesCount (set_parent_opt p q t) = nodesCount t"
  by (cases p; simp)+

text \<open>A subtree whose root gets another parent.\<close>

lemma tree_at_reparent:
  assumes "tree_at h p T" "distinct (heads T)"
    and "\<forall>m \<in> set (heads T). h' m = (if ptr T = Some m then (h m)\<lparr>av_parent := q\<rparr> else h m)"
  shows "tree_at h' q T"
proof (cases T)
  case (Br l tw b r)
  have "tree_at h' x l = tree_at h x l" "tree_at h' x r = tree_at h x r" for x
    using assms(2,3) by (auto intro!: tree_at_cong simp: Br)
  then show ?thesis using assms by (simp add: Br)
qed simp

lemma set_parent_opt_reparent:
  assumes "tree_at (heap t) p T" "distinct (heads T)"
  shows "tree_at (heap (set_parent_opt (ptr T) q t)) q T"
  by (rule tree_at_reparent [OF assms]) (cases T; auto)

end
