(* ===== verification/RTAVLTreeRotate.thy ===== *)
theory RTAVLTreeRotate
  imports RTAVLTreeShape
begin

text \<open>
  The rotations of \<open>src/src/common/RTAVLTree.h\<close> as operations on the trees that the linked nodes stand for.
\<close>

section \<open>Moving a subtree\<close>

text \<open>What a rotation starts with: the link down to the tree is set to another node.\<close>

lemma rep_downLink:
  assumes "rep t C T" "ptr T = Some n" "set_downLink n p t = t1"
  shows "ctx_at (heap t1) (root t1) C p" "tree_at (heap t1) (ctx_ptr C) T"
    "m \<notin> ctx_heads C \<Longrightarrow> heap t1 m = heap t m" "same_twins t1 t"
proof -
  obtain l tw b r where T: "T = Br l tw b r" "n = hd tw" using assms(2) by (cases T) auto
  show dl: "ctx_at (heap t1) (root t1) C p" "m \<notin> ctx_heads C \<Longrightarrow> heap t1 m = heap t m" for m
    using assms by (auto intro!: set_downLink_ctx simp: rep_def T)
  show "tree_at (heap t1) (ctx_ptr C) T"
    using assms(1) dl(2) by (subst tree_at_cong [of _ _ "heap t"]) (auto simp: rep_def)
  show "same_twins t1 t" using assms(3) by auto
qed

text \<open>\<open>x\<close> gets the child of \<open>y\<close> and is hung in its place.\<close>

lemma relink:
  assumes "av_children (heap t y) d = ptr Q" "tree_at (heap t) p Q" "distinct (heads Q)" "x \<noteq> y"
    "x \<notin> set (heads Q)" "y \<notin> set (heads Q)" "hang x y d (take_child x e y d t) = t'"
  shows "heap t' x = (heap t x)\<lparr>av_children := (av_children (heap t x))(e := ptr Q), av_parent := Some y\<rparr>"
    "heap t' y = (heap t y)\<lparr>av_children := (av_children (heap t y))(d := Some x)\<rparr>"
    "tree_at (heap t') (Some x) Q" "\<forall>m. m \<notin> {x, y} \<union> set (heads Q) \<longrightarrow> heap t' m = heap t m"
    "root t' = root t" "same_twins t' t"
proof -
  let ?t2 = "set_child x e (ptr Q) t"
  have t': "t' = set_parent x (Some y) (set_child y d (Some x) (set_parent_opt (ptr Q) (Some x) ?t2))"
    using assms(1,7) by (simp add: hang_def take_child_def Let_def)
  have q: "ptr Q \<noteq> Some x" "ptr Q \<noteq> Some y" "m \<notin> set (heads Q) \<Longrightarrow> ptr Q \<noteq> Some m" for m
    using assms(5,6) ptr_heads by blast+
  show "heap t' x = (heap t x)\<lparr>av_children := (av_children (heap t x))(e := ptr Q), av_parent := Some y\<rparr>"
    "heap t' y = (heap t y)\<lparr>av_children := (av_children (heap t y))(d := Some x)\<rparr>" "root t' = root t"
    "\<forall>m. m \<notin> {x, y} \<union> set (heads Q) \<longrightarrow> heap t' m = heap t m"
    using assms(4) q by (simp_all add: t')
  have "tree_at (heap (set_parent_opt (ptr Q) (Some x) ?t2)) (Some x) Q"
    using assms(2,3,5) by (intro set_parent_opt_reparent) auto
  then show "tree_at (heap t') (Some x) Q" using assms(5,6) by (simp add: t')
  show "same_twins t' t" by (simp add: t' same_twins_update_trans)
qed

section \<open>Rotations\<close>

lemma if_branches_cong: "c = c' \<Longrightarrow> a = a' \<Longrightarrow> b = b' \<Longrightarrow> (if c then a else b) = (if c' then a' else b')" by simp

lemma rotateOnce_rep:
  fixes dir defines "e \<equiv> opposite dir"
  assumes "rep t C (mk e (mk e A tc bc B) tw b S)"
  defines "b' \<equiv> (if dir = LEFT then bc - 1 else bc + 1)"
  shows "\<exists>t'. rotateOnce (hd tw) dir t = Some (if bc = 0 then 0 else 1, hd tc, t') \<and>
    rep t' C (mk e A tc b' (mk e B tw (- b') S)) \<and> same_twins t' t"
proof -
  let ?x = "hd tw" and ?y = "hd tc"
  have ne: "?x \<noteq> ?y" "?y \<noteq> ?x" "{?x, ?y} \<inter> (ctx_heads C \<union> set (heads A) \<union> set (heads B) \<union> set (heads S)) = {}"
    using assms(2) by (auto simp: rep_def)
  define t1 where "t1 = set_downLink ?x (Some ?y) t"
  note t1 = rep_downLink [OF assms(2) mk_simps(1) t1_def [symmetric]]
  have eq: "heap t1 ?x = heap t ?x" "heap t1 ?y = heap t ?y" using ne t1(3) by blast+
  define t2 where "t2 = set_parent ?y (ctx_ptr C) t1"
  have at: "tree_at (heap t2) (Some ?y) A" "tree_at (heap t2) (Some ?y) B" "tree_at (heap t2) (Some ?x) S"
    "ctx_at (heap t2) (root t2) C (Some ?y)"
    using t1(1,2) ne by (auto simp: t2_def e_def)
  define t3 where "t3 = hang ?x ?y dir (take_child ?x e ?y dir t2)"
  have "av_children (heap t2 ?y) dir = ptr B" using t1(2) by (simp add: t2_def e_def)
  from relink [OF this at(2) _ _ _ _ t3_def [symmetric]] ne assms(2)
  have t3: "heap t3 ?x = (heap t2 ?x)\<lparr>av_children := (av_children (heap t2 ?x))(e := ptr B), av_parent := Some ?y\<rparr>"
    "heap t3 ?y = (heap t2 ?y)\<lparr>av_children := (av_children (heap t2 ?y))(dir := Some ?x)\<rparr>"
    "tree_at (heap t3) (Some ?x) B" "\<forall>m. m \<notin> {?x, ?y} \<union> set (heads B) \<longrightarrow> heap t3 m = heap t2 m"
    "root t3 = root t2" "same_twins t3 t2" by (auto simp: rep_def)
  define t' where "t' = set_balance ?x (- b') (set_balance ?y b' t3)"
  have "rotateOnce ?x dir t = Some (if bc = 0 then 0 else 1, ?y, t')"
  proof -
    have f: "av_children (heap t ?x) e = Some ?y" "av_balance (heap t ?y) = bc" "av_parent (heap t1 ?x) = ctx_ptr C"
      "av_balance (heap t3 ?y) = bc"
      using t1(2) t3(2) by (simp_all add: eq [symmetric] t2_def)
    show ?thesis by (simp add: rotateOnce_def Let_def e_def [symmetric] f t1_def [symmetric] t2_def [symmetric] t3_def [symmetric]
      t'_def b'_def cong: if_branches_cong split del: if_split)
  qed
  moreover have "rep t' C (mk e A tc b' (mk e B tw (- b') S))"
  proof -
    have "m \<notin> {?x, ?y} \<union> set (heads B)" if "m \<in> set (heads A) \<union> set (heads S) \<union> ctx_heads C" for m
      using that assms(2) by (auto simp: rep_def disjoint_iff)
    then have "\<forall>m \<in> set (heads A) \<union> set (heads S) \<union> ctx_heads C. heap t3 m = heap t2 m" using t3(4) by blast
    then have "tree_at (heap t3) (Some ?y) A" "tree_at (heap t3) (Some ?x) S" "ctx_at (heap t3) (root t3) C (Some ?y)"
      using at t3(5) by (simp_all add: tree_at_cong [of _ "heap t3" "heap t2"] ctx_at_cong [of _ "heap t3" "heap t2"])
    moreover have "av_parent (heap t' ?y) = ctx_ptr C" "av_children (heap t' ?y) e = ptr A"
      "av_children (heap t' ?y) dir = Some ?x" "av_balance (heap t' ?y) = b'" "av_parent (heap t' ?x) = Some ?y"
      "av_children (heap t' ?x) e = ptr B" "av_children (heap t' ?x) dir = ptr S" "av_balance (heap t' ?x) = - b'"
      using t1(2) t3 ne by (simp_all add: t'_def t2_def e_def)
    ultimately show ?thesis using t3(3) assms(2) ne by (auto simp: rep_def e_def t'_def)
  qed
  moreover have "same_twins t' t"
  proof -
    have "same_twins t2 t" using t1(4) by (simp add: t2_def same_twins_update_trans)
    then have "same_twins t3 t" by (rule same_twins_trans [OF t3(6)])
    then show ?thesis by (simp add: t'_def same_twins_update_trans)
  qed
  ultimately show ?thesis by blast
qed

lemma single_inorder:
  "heads (mk e (mk e A tc bc B) tw b S) = heads (mk e A tc bc' (mk e B tw b' S))"
  "rings (mk e (mk e A tc bc B) tw b S) = rings (mk e A tc bc' (mk e B tw b' S))"
  by (cases e; simp)+

lemma double_inorder:
  "heads (mk e (mk e A tz bz (mk e P ty bb Q)) tw b S) = heads (mk e (mk e A tz bz' P) ty bb' (mk e Q tw b' S))"
  "rings (mk e (mk e A tz bz (mk e P ty bb Q)) tw b S) = rings (mk e (mk e A tz bz' P) ty bb' (mk e Q tw b' S))"
  by (cases e; simp)+

definition twice_left :: "int \<Rightarrow> int" where "twice_left b = - max b 0"
definition twice_right :: "int \<Rightarrow> int" where "twice_right b = - min b 0"

lemma rotateTwice_rep:
  fixes dir defines "e \<equiv> opposite dir"
  assumes "rep t C (mk e (mk e A tz bz (mk e P ty bb Q)) tw b S)"
  defines "bz' \<equiv> (if dir = RIGHT then twice_left bb else twice_right bb)"
    and "bx' \<equiv> (if dir = RIGHT then twice_right bb else twice_left bb)"
  shows "\<exists>t'. rotateTwice (hd tw) dir t = Some (1, hd ty, t') \<and>
    rep t' C (mk e (mk e A tz bz' P) ty 0 (mk e Q tw bx' S)) \<and> same_twins t' t"
proof -
  let ?x = "hd tw" and ?y = "hd ty" and ?z = "hd tz"
  have ne: "?x \<noteq> ?y" "?x \<noteq> ?z" "?z \<noteq> ?y" "distinct (heads P)" "distinct (heads Q)" "set (heads P) \<inter> set (heads Q) = {}"
    "{?x, ?y, ?z} \<inter> (ctx_heads C \<union> set (heads A) \<union> set (heads P) \<union> set (heads Q) \<union> set (heads S)) = {}"
    "(set (heads P) \<union> set (heads Q)) \<inter> (ctx_heads C \<union> set (heads A) \<union> set (heads S)) = {}"
    using assms(2) by (auto simp: rep_def disjoint_iff)
  define t1 where "t1 = set_downLink ?x (Some ?y) t"
  note t1 = rep_downLink [OF assms(2) mk_simps(1) t1_def [symmetric]]
  have eq: "heap t1 ?x = heap t ?x" "heap t1 ?y = heap t ?y" "heap t1 ?z = heap t ?z" using ne(7) t1(3) by blast+
  define t2 where "t2 = set_parent ?y (ctx_ptr C) t1"
  have at: "tree_at (heap t2) (Some ?y) Q" "tree_at (heap t2) (Some ?y) P" "tree_at (heap t2) (Some ?z) A"
    "tree_at (heap t2) (Some ?x) S" "ctx_at (heap t2) (root t2) C (Some ?y)"
    using t1(1,2) ne by (auto simp: t2_def e_def)
  define t3 where "t3 = hang ?x ?y dir (take_child ?x e ?y dir t2)"
  have "av_children (heap t2 ?y) dir = ptr Q" using t1(2) by (simp add: t2_def e_def)
  from relink [OF this at(1) _ _ _ _ t3_def [symmetric]] ne
  have t3: "heap t3 ?x = (heap t2 ?x)\<lparr>av_children := (av_children (heap t2 ?x))(e := ptr Q), av_parent := Some ?y\<rparr>"
    "heap t3 ?y = (heap t2 ?y)\<lparr>av_children := (av_children (heap t2 ?y))(dir := Some ?x)\<rparr>"
    "tree_at (heap t3) (Some ?x) Q" "\<And>m. m \<notin> {?x, ?y} \<union> set (heads Q) \<Longrightarrow> heap t3 m = heap t2 m"
    "root t3 = root t2" "same_twins t3 t2" by simp_all
  define t4 where "t4 = hang ?z ?y e (take_child ?z dir ?y e t3)"
  have z3: "heap t3 ?z = heap t2 ?z" using ne by (intro t3(4)) auto
  have P: "av_children (heap t3 ?y) e = ptr P" "tree_at (heap t3) (Some ?y) P"
  proof -
    have "\<forall>m \<in> set (heads P). heap t3 m = heap t2 m" using ne(6,7) by (intro ballI t3(4)) auto
    then show "tree_at (heap t3) (Some ?y) P" using at(2) by (simp add: tree_at_cong [of _ "heap t3" "heap t2"])
    show "av_children (heap t3 ?y) e = ptr P" using t1(2) by (simp add: t3(2) t2_def e_def)
  qed
  from relink [OF P _ _ _ _ t4_def [symmetric]] ne
  have t4: "heap t4 ?z = (heap t3 ?z)\<lparr>av_children := (av_children (heap t3 ?z))(dir := ptr P), av_parent := Some ?y\<rparr>"
    "heap t4 ?y = (heap t3 ?y)\<lparr>av_children := (av_children (heap t3 ?y))(e := Some ?z)\<rparr>"
    "tree_at (heap t4) (Some ?z) P" "\<And>m. m \<notin> {?z, ?y} \<union> set (heads P) \<Longrightarrow> heap t4 m = heap t3 m"
    "root t4 = root t3" "same_twins t4 t3" by simp_all
  have x4: "heap t4 ?x = heap t3 ?x" using ne by (intro t4(4)) auto
  have y: "av_children (heap t4 ?y) e = Some ?z" "av_children (heap t4 ?y) dir = Some ?x" "av_balance (heap t4 ?y) = bb"
    "av_parent (heap t4 ?y) = ctx_ptr C"
    using t1(2) ne(1,3) by (simp_all add: t4(2) t3(2) t2_def e_def)
  define t' where "t' = set_balance ?y 0 (if dir = RIGHT then set_balance ?x bx' (set_balance ?z bz' t4)
    else set_balance ?z bz' (set_balance ?x bx' t4))"
  have "rotateTwice ?x dir t = Some (1, ?y, t')"
  proof -
    have f: "av_children (heap t ?x) e = Some ?z" "av_children (heap t ?z) dir = Some ?y" "av_parent (heap t1 ?x) = ctx_ptr C"
      using t1(2) by (simp_all add: eq [symmetric] e_def)
    have "rotateTwice ?x dir t = do {
        l \<leftarrow> av_children (heap t4 ?y) LEFT;
        r \<leftarrow> av_children (heap t4 ?y) RIGHT;
        let t = set_balance l (- max (av_balance (heap t4 ?y)) 0) t4;
            t = set_balance r (- min (av_balance (heap t ?y)) 0) t
        in Some (1, ?y, set_balance ?y 0 t) }"
      by (simp add: rotateTwice_def Let_def e_def [symmetric] f t1_def [symmetric] t2_def [symmetric] t3_def [symmetric] t4_def [symmetric] cong: if_branches_cong)
    also have "\<dots> = Some (1, ?y, t')"
      using y ne(1,3) by (cases dir) (simp_all add: e_def t'_def bx'_def bz'_def twice_left_def twice_right_def Let_def)
    finally show ?thesis .
  qed
  moreover have "rep t' C (mk e (mk e A tz bz' P) ty 0 (mk e Q tw bx' S))"
  proof -
    have "m \<notin> {?x, ?y} \<union> set (heads Q) \<and> m \<notin> {?z, ?y} \<union> set (heads P)" if "m \<in> set (heads A) \<union> set (heads S) \<union> ctx_heads C" for m
      using that ne(7,8) by blast
    then have "\<forall>m \<in> set (heads A) \<union> set (heads S) \<union> ctx_heads C. heap t4 m = heap t2 m" using t3(4) t4(4) by metis
    then have "tree_at (heap t4) (Some ?z) A" "tree_at (heap t4) (Some ?x) S" "ctx_at (heap t4) (root t4) C (Some ?y)"
      using at t3(5) t4(5) by (simp_all add: tree_at_cong [of _ "heap t4" "heap t2"] ctx_at_cong [of _ "heap t4" "heap t2"])
    moreover have "tree_at (heap t4) (Some ?x) Q"
    proof -
      have "\<forall>m \<in> set (heads Q). heap t4 m = heap t3 m" using ne(6,7) by (intro ballI t4(4)) auto
      then show ?thesis using t3(3) by (simp add: tree_at_cong [of _ "heap t4" "heap t3"])
    qed
    moreover have "av_parent (heap t4 ?z) = Some ?y" "av_children (heap t4 ?z) e = ptr A"
      "av_children (heap t4 ?z) dir = ptr P" "av_parent (heap t4 ?x) = Some ?y"
      "av_children (heap t4 ?x) e = ptr Q" "av_children (heap t4 ?x) dir = ptr S"
      using t1(2) ne(1-3) by (simp_all add: x4 z3 t4(1) t3(1) t2_def e_def)
    moreover have h': "heap t' ?z = (heap t4 ?z)\<lparr>av_balance := bz'\<rparr>" "heap t' ?x = (heap t4 ?x)\<lparr>av_balance := bx'\<rparr>"
      "heap t' ?y = (heap t4 ?y)\<lparr>av_balance := 0\<rparr>" "root t' = root t4"
      "\<And>m. m \<notin> {?x, ?y, ?z} \<Longrightarrow> heap t' m = heap t4 m"
      using ne(1-3) by (auto simp: t'_def)
    moreover have "tree_at (heap t') p X = tree_at (heap t4) p X" if "{?x, ?y, ?z} \<inter> set (heads X) = {}" for p X
      using that by (intro tree_at_cong ballI h'(5)) auto
    moreover have "ctx_at (heap t') r C p = ctx_at (heap t4) r C p" for r p
      using ne(7) by (intro ctx_at_cong ballI h'(5)) auto
    moreover have "{?x, ?y, ?z} \<inter> set (heads A) = {}" "{?x, ?y, ?z} \<inter> set (heads P) = {}" "{?x, ?y, ?z} \<inter> set (heads Q) = {}"
      "{?x, ?y, ?z} \<inter> set (heads S) = {}" using ne(7) by blast+
    ultimately have "tree_at (heap t') (ctx_ptr C) (mk e (mk e A tz bz' P) ty 0 (mk e Q tw bx' S))"
      "ctx_at (heap t') (root t') C (Some ?y)"
      using y t4(3) by (simp_all add: e_def)
    then show ?thesis using assms(2) unfolding rep_def double_inorder(1) [of e A tz bz P ty bb Q tw b S bz' 0 bx'] by simp
  qed
  moreover have "same_twins t' t"
  proof -
    have "same_twins t2 t" using t1(4) by (simp add: t2_def same_twins_update_trans)
    then have "same_twins t4 t" by (rule same_twins_trans [OF t4(6) same_twins_trans [OF t3(6)]])
    then show ?thesis by (simp add: t'_def same_twins_update_trans)
  qed
  ultimately show ?thesis by blast
qed

end
