(* ===== verification/RTAVLTreeBalance.thy ===== *)
theory RTAVLTreeBalance
  imports RTAVLTreeRotate
begin

text \<open>
  Balance of the trees of \<open>src/src/common/RTAVLTree.h\<close>: the stored balance of a node is the difference of the
  heights of its children and lies between -1 and 1. \<open>rebalance\<close> restores this at a node whose balance is off by
  one more, and the loops that walk up after an insertion or a removal restore it in the whole tree; they keep
  the order of the elements.
\<close>

section \<open>Balanced trees\<close>

primrec avl :: "rtree \<Rightarrow> bool" where
  "avl Tip \<longleftrightarrow> True"
| "avl (Br l tw b r) \<longleftrightarrow> b = ht r - ht l \<and> \<bar>b\<bar> \<le> 1 \<and> avl l \<and> avl r"

fun side :: "Dir_t \<Rightarrow> int" where
  "side LEFT = - 1"
| "side RIGHT = 1"

lemma ht_pos: "0 \<le> ht T" by (induction T) auto

lemma ht_0 [simp]: "ht T \<le> 0 \<longleftrightarrow> T = Tip"
proof (cases T)
  case (Br l tw b r)
  then show ?thesis using ht_pos [of l] by (simp add: max_def)
qed simp

lemma avl_mk: "avl (mk d t tw b s) \<longleftrightarrow> b = side d * (ht t - ht s) \<and> \<bar>b\<bar> \<le> 1 \<and> avl t \<and> avl s"
  by (cases d) auto

lemma Br_cases: "T = Tip \<or> (\<exists>A tc bc B. T = mk e A tc bc B)"
proof (cases T)
  case (Br l tw b r)
  then have "T = mk LEFT l tw b r" "T = mk RIGHT r tw b l" by simp_all
  then show ?thesis by (cases e) blast+
qed simp

text \<open>What an operation at the top of a subtree promises: the elements in the same order and a new height.\<close>

definition rebuilt :: "RTAVLTree \<Rightarrow> frame list \<Rightarrow> nat list list \<Rightarrow> int \<Rightarrow> nat \<Rightarrow> RTAVLTree \<Rightarrow> bool" where
  "rebuilt t C R h n t' \<longleftrightarrow> (\<exists>T. rep t' C T \<and> ptr T = Some n \<and> avl T \<and> rings T = R \<and> ht T = h \<and> same_twins t' t)"

lemma rebuiltI: "rep t' C T \<Longrightarrow> ptr T = Some n \<Longrightarrow> avl T \<Longrightarrow> rings T = R \<Longrightarrow> ht T = h \<Longrightarrow> same_twins t' t \<Longrightarrow> rebuilt t C R h n t'"
  by (auto simp: rebuilt_def)

lemma heavy_once:
  assumes "rep t C (mk e (mk e A tc bc B) tw b S)" "avl (mk e A tc bc B)" "avl S"
    "ht (mk e A tc bc B) = ht S + 2" "bc \<noteq> - side e"
  shows "\<exists>t' hc. rotateOnce (hd tw) (opposite e) t = Some (hc, hd tc, t') \<and> hc \<in> {0, 1} \<and>
    rebuilt t C (rings (mk e (mk e A tc bc B) tw b S)) (ht S + 3 - hc) (hd tc) t'"
proof -
  let ?b = "if opposite e = LEFT then bc - 1 else bc + 1"
  obtain t' where t': "rotateOnce (hd tw) (opposite e) t = Some (if bc = 0 then 0 else 1, hd tc, t')"
    "rep t' C (mk e A tc ?b (mk e B tw (- ?b) S))" "same_twins t' t"
    using rotateOnce_rep [of t C "opposite e" A tc bc B tw b S] assms(1) by auto
  have "avl (mk e A tc ?b (mk e B tw (- ?b) S))" using assms(2-5) by (cases e) (auto simp: max_def split: if_splits)
  moreover have "ht (mk e A tc ?b (mk e B tw (- ?b) S)) = ht S + 3 - (if bc = 0 then 0 else 1)"
    using assms(2-5) by (cases e) (auto simp: max_def split: if_splits)
  ultimately have "rebuilt t C (rings (mk e (mk e A tc bc B) tw b S)) (ht S + 3 - (if bc = 0 then 0 else 1)) (hd tc) t'"
    using t'(2,3) by (intro rebuiltI [OF t'(2)]) (simp_all only: single_inorder(2) [of e A tc bc B tw b S ?b "- ?b"] mk_simps)
  then show ?thesis using t'(1) by auto
qed

lemma heavy_twice:
  assumes "rep t C (mk e (mk e A tz bz (mk e P ty bb Q)) tw b S)" "avl (mk e A tz bz (mk e P ty bb Q))" "avl S"
    "ht (mk e A tz bz (mk e P ty bb Q)) = ht S + 2" "bz = - side e"
  shows "\<exists>t'. rotateTwice (hd tw) (opposite e) t = Some (1, hd ty, t') \<and>
    rebuilt t C (rings (mk e (mk e A tz bz (mk e P ty bb Q)) tw b S)) (ht S + 2) (hd ty) t'"
proof -
  let ?z = "if opposite e = RIGHT then twice_left bb else twice_right bb"
  let ?x = "if opposite e = RIGHT then twice_right bb else twice_left bb"
  obtain t' where t': "rotateTwice (hd tw) (opposite e) t = Some (1, hd ty, t')"
    "rep t' C (mk e (mk e A tz ?z P) ty 0 (mk e Q tw ?x S))" "same_twins t' t"
    using rotateTwice_rep [of t C "opposite e" A tz bz P ty bb Q tw b S] assms(1) by auto
  have "avl (mk e (mk e A tz ?z P) ty 0 (mk e Q tw ?x S))"
    using assms(2-5) by (cases e) (auto simp: max_def twice_left_def twice_right_def split: if_splits)
  moreover have "ht (mk e (mk e A tz ?z P) ty 0 (mk e Q tw ?x S)) = ht S + 2"
    using assms(2-5) by (cases e) (auto simp: max_def split: if_splits)
  ultimately have "rebuilt t C (rings (mk e (mk e A tz bz (mk e P ty bb Q)) tw b S)) (ht S + 2) (hd ty) t'"
    using t'(2,3) by (intro rebuiltI [OF t'(2)]) (simp_all only: double_inorder(2) [of e A tz bz P ty bb Q tw b S ?z 0 ?x] mk_simps)
  then show ?thesis using t'(1) by auto
qed

lemma heavy:
  assumes "rep t C (mk e T tw b S)" "avl T" "avl S" "ht T = ht S + 2"
  shows "\<exists>c t' hc n. ptr T = Some c \<and> (if av_balance (heap t c) = - side e then rotateTwice (hd tw) (opposite e) t
      else rotateOnce (hd tw) (opposite e) t) = Some (hc, n, t') \<and>
    hc \<in> {0, 1} \<and> rebuilt t C (rings (mk e T tw b S)) (ht T + 1 - hc) n t'"
proof -
  have "T \<noteq> Tip" using assms(4) ht_pos [of S] by auto
  then obtain A tc bc B where T: "T = mk e A tc bc B" using Br_cases [of T e] by blast
  have bal: "av_balance (heap t (hd tc)) = bc" using assms(1) by (simp add: rep_def T)
  show ?thesis
  proof (cases "bc = - side e")
    case True
    have "ht B > ht A" using assms(2) True by (cases e) (auto simp: T)
    then have "B \<noteq> Tip" using ht_pos [of A] by auto
    then obtain P ty bb Q where B: "B = mk e P ty bb Q" using Br_cases [of B e] by blast
    have "ht T + 1 - 1 = ht S + 2" using assms(4) by simp
    then show ?thesis using heavy_twice [of t C e A tc bc P ty bb Q tw b S, folded B T] assms True bal by (auto simp: T add.commute)
  next
    case False
    show ?thesis using heavy_once [of t C e A tc bc B tw b S] assms False bal by (auto simp: T add.commute)
  qed
qed

lemma rebalance_rebuilt:
  assumes "rep t C (mk d T tw b S)" "b = side d * (ht T - ht S)" "\<bar>b\<bar> \<le> 2" "avl T" "avl S"
  shows "\<exists>hc n t'. rebalance (hd tw) t = Some (hc, n, t') \<and> hc \<in> {0, 1} \<and> (\<bar>b\<bar> \<le> 1 \<longrightarrow> hc = 0) \<and>
    rebuilt t C (rings (mk d T tw b S)) (max (ht T) (ht S) + 1 - hc) n t'"
proof -
  obtain l r where LR: "mk d T tw b S = Br l tw b r" "b = ht r - ht l" "avl l" "avl r" "max (ht T) (ht S) = max (ht l) (ht r)"
      "\<And>x. rings (mk d T tw x S) = rings l @ tw # rings r"
    using assms(2,4,5) by (cases d) (auto simp: max.commute)
  have t: "rep t C (mk LEFT l tw b r)" "rep t C (mk RIGHT r tw b l)" using assms(1) by (simp_all add: LR(1))
  have bal: "av_balance (heap t (hd tw)) = b" "av_children (heap t (hd tw)) LEFT = ptr l" "av_children (heap t (hd tw)) RIGHT = ptr r"
    using t(1) by (simp_all add: rep_def)
  consider "\<bar>b\<bar> \<le> 1" | "b = - 2" | "b = 2" using assms(3) by linarith
  then show ?thesis
  proof cases
    case 1
    have "rebuilt t C (rings (Br l tw b r)) (max (ht l) (ht r) + 1) (hd tw) t"
      using t(1) 1 LR by (intro rebuiltI [of _ _ "Br l tw b r"]) auto
    then show ?thesis using 1 by (auto simp: rebalance_def bal LR(5,6) abs_le_iff)
  next
    case 2
    have h: "ht l = ht r + 2" using LR(2) 2 by simp
    show ?thesis using heavy [OF t(1) LR(3,4) h] by (auto simp: rebalance_def bal LR(5,6) 2 h)
  next
    case 3
    have h: "ht r = ht l + 2" using LR(2) 3 by simp
    show ?thesis using heavy [OF t(2) LR(4,3) h] by (auto simp: rebalance_def bal LR(5,6) 3 h)
  qed
qed

section \<open>Walking up\<close>

text \<open>A path whose nodes are balanced when the hole at its end has height \<open>h\<close>.\<close>

fun ctx_avl :: "frame list \<Rightarrow> int \<Rightarrow> bool" where
  "ctx_avl [] h \<longleftrightarrow> True"
| "ctx_avl ((d, tw, b, s) # C) h \<longleftrightarrow> b = side d * (h - ht s) \<and> \<bar>b\<bar> \<le> 1 \<and> avl s \<and> ctx_avl C (max h (ht s) + 1)"

lemma avl_plug: "avl (plug C T) \<longleftrightarrow> avl T \<and> ctx_avl C (ht T)"
  by (induction C T rule: plug.induct) (auto simp: avl_mk)

fun ctx_rings :: "frame list \<Rightarrow> nat list list \<Rightarrow> nat list list" where
  "ctx_rings [] R = R"
| "ctx_rings ((d, tw, b, s) # C) R = ctx_rings C (if d = LEFT then R @ tw # rings s else rings s @ tw # R)"

lemma rings_mk: "rings (mk d T tw b s) = (if d = LEFT then rings T @ tw # rings s else rings s @ tw # rings T)"
  by (cases d) auto

lemma rings_plug: "rings (plug C T) = ctx_rings C (rings T)"
  by (induction C T rule: plug.induct) (auto simp: rings_mk)

text \<open>The node above a subtree gets the balance \<open>b'\<close>.\<close>

lemma rep_set_balance:
  assumes "rep t C (mk d T tw b S)"
  shows "rep (set_balance (hd tw) b' t) C (mk d T tw b' S)"
  using assms by (auto simp: rep_def)

lemma relationToParent_frame:
  assumes "rep t ((d, tw, b, s) # C) T" "ptr T = Some n"
  shows "relationToParent n t = side d" "av_parent (heap t n) = Some (hd tw)" "av_balance (heap t (hd tw)) = b"
proof -
  obtain l tw' b' r where T: "T = Br l tw' b' r" "n = hd tw'" using assms(2) by (cases T) auto
  have "uplinkDirFrom n (hd tw) t = d"
    by (rule uplinkDirFrom_frame) (use assms(1) in \<open>auto simp: rep_def T\<close>)
  then show "relationToParent n t = side d" "av_parent (heap t n) = Some (hd tw)" "av_balance (heap t (hd tw)) = b"
    using assms(1) by (cases d; simp add: rep_def T relationToParent_def)+
qed

lemma rebuilt_trans: "rebuilt t1 C R h n t2 \<Longrightarrow> same_twins t1 t \<Longrightarrow> rebuilt t C R h n t2"
  by (auto simp: rebuilt_def intro: same_twins_trans)

lemma grow_up_correct:
  assumes "rep t C T" "ptr T = Some n" "avl T" "ctx_avl C (ht T - inc)" "inc \<in> {0, 1}"
  shows "\<exists>t' T'. grow_up n inc t = Some t' \<and> rep t' [] T' \<and> avl T' \<and> rings T' = ctx_rings C (rings T) \<and> same_twins t' t"
  using assms
proof (induction C arbitrary: t T n inc)
  case Nil
  then have "av_parent (heap t n) = None" by (cases T) (auto simp: rep_def)
  then show ?case using Nil by (subst grow_up.simps) auto
next
  case (Cons f C)
  obtain d tw b s where f: "f = (d, tw, b, s)" by (cases f) auto
  note par = relationToParent_frame [OF Cons.prems(1) [unfolded f] Cons.prems(2)]
  have rp: "rep t C (mk d T tw b s)" using Cons.prems(1) by (simp add: f rep_frame)
  have b: "b = side d * (ht T - inc - ht s)" "\<bar>b\<bar> \<le> 1" "avl s" "ctx_avl C (max (ht T - inc) (ht s) + 1)"
    using Cons.prems(4) by (auto simp: f)
  show ?case
  proof (cases "inc = 0")
    case True
    have "avl (plug (f # C) T)" using Cons.prems True by (simp add: avl_plug)
    moreover have "rep t [] (plug (f # C) T)" using Cons.prems(1) rep_plug by blast
    ultimately show ?thesis using par True by (subst grow_up.simps) (auto simp: rings_plug)
  next
    case False
    then have inc: "inc = 1" using Cons.prems(5) by simp
    let ?b = "b + side d"
    let ?t = "set_balance (hd tw) ?b t"
    have rp': "rep ?t C (mk d T tw ?b s)" by (rule rep_set_balance [OF rp])
    have b': "?b = side d * (ht T - ht s)" using b(1) inc by (cases d) auto
    have st: "same_twins ?t t" by simp
    have rings: "ctx_rings C (rings (mk d T tw x s)) = ctx_rings (f # C) (rings T)" for x by (simp add: f rings_mk)
    show ?thesis
    proof (cases "?b = 0")
      case True
      have step: "grow_up n inc t = grow_up (hd tw) 0 ?t" by (subst grow_up.simps) (simp add: par inc True)
      have "ctx_avl C (ht (mk d T tw ?b s) - 0)" using b True b' inc by (cases d) (auto simp: max_def)
      moreover have "avl (mk d T tw ?b s)" using b(3) b' True Cons.prems(3) by (simp add: avl_mk)
      ultimately show ?thesis
        using Cons.IH [OF rp', of "hd tw" 0] st same_twins_trans unfolding step rings by (simp, blast)
    next
      case nz: False
      have "\<bar>?b\<bar> \<le> 2" using b(2) by (cases d) auto
      from rebalance_rebuilt [OF rp' b' this Cons.prems(3) b(3)] obtain hc m t1 T1 where
        r: "rebalance (hd tw) ?t = Some (hc, m, t1)" "hc \<in> {0, 1}" "rep t1 C T1" "ptr T1 = Some m" "avl T1"
          "rings T1 = rings (mk d T tw ?b s)" "ht T1 = max (ht T) (ht s) + 1 - hc" "same_twins t1 ?t"
        unfolding rebuilt_def by blast
      have step: "grow_up n inc t = grow_up m (1 - hc) t1"
        using r(1) nz by (subst grow_up.simps) (simp add: par inc)
      have "ht T1 - (1 - hc) = max (ht T - inc) (ht s) + 1"
        using b(1,2) nz b' inc r(7) by (cases d) (auto simp: max_def)
      then have "ctx_avl C (ht T1 - (1 - hc))" using b(4) by (simp only:)
      moreover have "1 - hc \<in> {0, 1}" using r(2) by auto
      moreover have "same_twins t1 t" by (rule same_twins_trans [OF r(8) st])
      ultimately show ?thesis
        using Cons.IH [OF r(3-5)] r(6) rings same_twins_trans unfolding step by metis
    qed
  qed
qed

lemma shrink_node_rebuilt:
  assumes "rep t ((d, tw, b, s) # C) T" "avl T" "ctx_avl ((d, tw, b, s) # C) (ht T + 1)"
  shows "\<exists>dec n t'. shrink_node (hd tw) (side d) t = Some (dec, n, t') \<and> dec \<in> {0, 1} \<and>
    (\<exists>T'. rep t' C T' \<and> ptr T' = Some n \<and> avl T' \<and> rings T' = rings (mk d T tw b s) \<and> ctx_avl C (ht T' + dec) \<and> same_twins t' t)"
proof -
  let ?b = "b - side d"
  let ?t = "set_balance (hd tw) ?b t"
  have b: "b = side d * (ht T + 1 - ht s)" "\<bar>b\<bar> \<le> 1" "avl s" "ctx_avl C (max (ht T + 1) (ht s) + 1)"
    using assms(3) by auto
  have rp: "rep ?t C (mk d T tw ?b s)" using assms(1) by (intro rep_set_balance) (simp add: rep_frame)
  have b': "?b = side d * (ht T - ht s)" using b(1) by (cases d) auto
  have bal: "av_balance (heap t (hd tw)) = b" using assms(1) by (simp add: rep_def)
  have rings: "rings (mk d T tw x s) = rings (mk d T tw b s)" for x by (simp add: rings_mk)
  show ?thesis
  proof (cases "?b = 0")
    case True
    have "avl (mk d T tw ?b s)" using b(3) b' True assms(2) by (simp add: avl_mk)
    moreover have "ht (mk d T tw ?b s) + 1 = max (ht T + 1) (ht s) + 1" using b' True by (cases d) (auto simp: max_def)
    then have "ctx_avl C (ht (mk d T tw ?b s) + 1)" using b(4) by (simp only:)
    ultimately have "\<exists>T'. rep ?t C T' \<and> ptr T' = Some (hd tw) \<and> avl T' \<and> rings T' = rings (mk d T tw b s) \<and>
        ctx_avl C (ht T' + 1) \<and> same_twins ?t t"
      using rp by (intro exI [of _ "mk d T tw ?b s"] conjI) (assumption | rule rings | simp)+
    moreover have "shrink_node (hd tw) (side d) t = Some (1, hd tw, ?t)" using True by (simp add: shrink_node_def bal Let_def)
    ultimately show ?thesis by blast
  next
    case nz: False
    have "\<bar>?b\<bar> \<le> 2" using b(2) by (cases d) auto
    from rebalance_rebuilt [OF rp b' this assms(2) b(3)] obtain hc m t1 T1 where
      r: "rebalance (hd tw) ?t = Some (hc, m, t1)" "hc \<in> {0, 1}" "rep t1 C T1" "ptr T1 = Some m" "avl T1"
        "rings T1 = rings (mk d T tw ?b s)" "ht T1 = max (ht T) (ht s) + 1 - hc" "same_twins t1 ?t"
      unfolding rebuilt_def by blast
    have "ht T1 + hc = max (ht T + 1) (ht s) + 1"
      using b(1,2) nz b' r(7) by (cases d) (auto simp: max_def)
    then have "ctx_avl C (ht T1 + hc)" using b(4) by (simp only:)
    moreover have "same_twins t1 t" by (rule same_twins_trans [OF r(8)]) simp
    moreover have "shrink_node (hd tw) (side d) t = Some (hc, m, t1)" using r(1) nz by (simp add: shrink_node_def bal Let_def)
    ultimately show ?thesis using r rings by metis
  qed
qed

lemma shrink_step:
  assumes "rep t ((d, tw, b, s) # C) T" "avl T" "ctx_avl ((d, tw, b, s) # C) (ht T + dec)" "dec \<in> {0, 1}"
  shows "\<exists>dec' n t' T'. (if dec * side d \<noteq> 0 then shrink_node (hd tw) (dec * side d) t else Some (0, hd tw, t)) = Some (dec', n, t') \<and>
    dec' \<in> {0, 1} \<and> rep t' C T' \<and> ptr T' = Some n \<and> avl T' \<and> rings T' = rings (mk d T tw b s) \<and>
    ctx_avl C (ht T' + dec') \<and> same_twins t' t"
proof (cases "dec = 0")
  case True
  have "rep t C (mk d T tw b s)" using assms(1) by (simp add: rep_frame)
  moreover have "avl (mk d T tw b s)" "ctx_avl C (ht (mk d T tw b s) + 0)" using assms(2,3) True by (auto simp: avl_mk)
  ultimately show ?thesis using True by (intro exI [of _ 0] exI [of _ "hd tw"] exI [of _ t] exI [of _ "mk d T tw b s"]) simp
next
  case False
  then have d: "dec = 1" using assms(4) by simp
  have "dec * side d = side d" "side d \<noteq> 0" using d by (cases d; simp)+
  then have e: "(if dec * side d \<noteq> 0 then shrink_node (hd tw) (dec * side d) t else Some (0, hd tw, t)) = shrink_node (hd tw) (side d) t"
    by simp
  obtain dec' n t' T' where "shrink_node (hd tw) (side d) t = Some (dec', n, t')" "dec' \<in> {0, 1}" "rep t' C T'" "ptr T' = Some n" "avl T'"
    "rings T' = rings (mk d T tw b s)" "ctx_avl C (ht T' + dec')" "same_twins t' t"
    using shrink_node_rebuilt [OF assms(1,2)] assms(3) unfolding d by blast
  then show ?thesis unfolding e by blast
qed

lemma shrink_up_correct:
  assumes "rep t C T" "ptr T = Some n" "avl T" "ctx_avl C (ht T + dec)" "dec \<in> {0, 1}"
  shows "\<exists>t' T'. shrink_up n dec t = Some t' \<and> rep t' [] T' \<and> avl T' \<and> rings T' = ctx_rings C (rings T) \<and> same_twins t' t"
  using assms
proof (induction C arbitrary: t T n dec)
  case Nil
  then have "av_parent (heap t n) = None" by (cases T) (auto simp: rep_def)
  then show ?case using Nil by (subst shrink_up.simps) auto
next
  case (Cons f C)
  obtain d tw b s where f: "f = (d, tw, b, s)" by (cases f) auto
  note par = relationToParent_frame [OF Cons.prems(1) [unfolded f] Cons.prems(2)]
  show ?case
  proof (cases "dec = 0")
    case True
    have "avl (plug (f # C) T)" using Cons.prems True by (simp add: avl_plug)
    moreover have "rep t [] (plug (f # C) T)" using Cons.prems(1) rep_plug by blast
    ultimately show ?thesis using par True by (subst shrink_up.simps) (auto simp: rings_plug)
  next
    case False
    then have dec: "dec = 1" using Cons.prems(5) by simp
    from shrink_node_rebuilt [of t d tw b s C T] Cons.prems(1,3,4) obtain dec' m t1 T1 where
      r: "shrink_node (hd tw) (side d) t = Some (dec', m, t1)" "dec' \<in> {0, 1}" "rep t1 C T1" "ptr T1 = Some m" "avl T1"
        "rings T1 = rings (mk d T tw b s)" "ctx_avl C (ht T1 + dec')" "same_twins t1 t"
      unfolding f dec by blast
    have step: "shrink_up n dec t = shrink_up m dec' t1" using r(1) by (subst shrink_up.simps) (simp add: par dec)
    have "ctx_rings C (rings T1) = ctx_rings (f # C) (rings T)" by (simp add: f rings_mk r(6))
    then show ?thesis using Cons.IH [OF r(3-5,7,2)] r(8) same_twins_trans unfolding step by metis
  qed
qed

text \<open>The loop of \<open>erase\<close> from the hole that the successor left, a path to the left below the node \<open>dangling\<close>.\<close>

lemma shrink_to_correct:
  assumes "rep t (D @ (RIGHT, dt, b, l) # C) T" "avl T" "ctx_avl (D @ (RIGHT, dt, b, l) # C) (ht T + dec)" "dec \<in> {0, 1}"
    "\<forall>f \<in> set D. fst f = LEFT" "ctx_ptr (D @ (RIGHT, dt, b, l) # C) = Some p"
  shows "\<exists>dec' n t' T'. shrink_to (hd dt) p dec t = Some (dec', n, t') \<and> dec' \<in> {0, 1} \<and> rep t' C T' \<and> ptr T' = Some n \<and>
    avl T' \<and> ctx_avl C (ht T' + dec') \<and> ctx_rings C (rings T') = ctx_rings (D @ (RIGHT, dt, b, l) # C) (rings T) \<and> same_twins t' t"
  using assms
proof (induction D arbitrary: t T dec p)
  case Nil
  from shrink_step [of t RIGHT dt b l C T dec] Nil obtain dec' n t1 T1 where
    r: "(if dec * side RIGHT \<noteq> 0 then shrink_node (hd dt) (dec * side RIGHT) t else Some (0, hd dt, t)) = Some (dec', n, t1)"
      "dec' \<in> {0, 1}" "rep t1 C T1" "ptr T1 = Some n" "avl T1" "rings T1 = rings (mk RIGHT T dt b l)" "ctx_avl C (ht T1 + dec')"
      "same_twins t1 t" by auto
  have "shrink_to (hd dt) p dec t = Some (dec', n, t1)"
    using r(1) Nil.prems(6) by (subst shrink_to.simps) (simp split: if_splits)
  then show ?case using r by (auto simp: rings_mk)
next
  case (Cons f D)
  let ?C = "D @ (RIGHT, dt, b, l) # C"
  obtain tw b' s where f: "f = (LEFT, tw, b', s)" using Cons.prems(5) by (cases f) auto
  have p: "p = hd tw" using Cons.prems(6) by (simp add: f)
  have "hd dt \<in> ctx_heads ?C" by (induction D) auto
  then have ne: "p \<noteq> hd dt" using Cons.prems(1) by (auto simp: rep_def f p)
  from shrink_step [of t LEFT tw b' s ?C T dec] Cons.prems obtain dec' n t1 T1 where
    r: "(if dec * side LEFT \<noteq> 0 then shrink_node (hd tw) (dec * side LEFT) t else Some (0, hd tw, t)) = Some (dec', n, t1)"
      "dec' \<in> {0, 1}" "rep t1 ?C T1" "ptr T1 = Some n" "avl T1" "rings T1 = rings (mk LEFT T tw b' s)" "ctx_avl ?C (ht T1 + dec')"
      "same_twins t1 t" unfolding f append_Cons by blast
  obtain q where q: "ctx_ptr ?C = Some q" by (cases D) auto
  have "av_parent (heap t1 n) = Some q" using r(3,4) q by (cases T1) (auto simp: rep_def)
  then have step: "shrink_to (hd dt) p dec t = shrink_to (hd dt) q dec' t1"
    using r(1) ne p by (subst shrink_to.simps) (simp split: if_splits)
  have "ctx_rings ?C (rings T1) = ctx_rings ((f # D) @ (RIGHT, dt, b, l) # C) (rings T)" by (simp add: f r(6))
  moreover have "\<forall>f \<in> set D. fst f = LEFT" using Cons.prems(5) by simp
  ultimately show ?case using Cons.IH [OF r(3,5,7,2) _ q] same_twins_trans [OF _ r(8)] unfolding step by metis
qed

end
