(* ===== verification/RTAVLTreeTwins.thy ===== *)
theory RTAVLTreeTwins
  imports RTAVLTreeBalance
begin

text \<open>
  The rings of twins of \<open>src/src/common/RTAVLTree.h\<close>: the elements of equal key, linked in a ring whose head is
  the node in the tree, in the order in which they were inserted.
\<close>

section \<open>Chains\<close>

fun chain :: "(nat \<Rightarrow> RTAVLNode) \<Rightarrow> nat \<Rightarrow> nat list \<Rightarrow> nat \<Rightarrow> bool" where
  "chain h p [] n \<longleftrightarrow> True"
| "chain h p (x # xs) n \<longleftrightarrow> av_prevTwin (h x) = p \<and> av_nextTwin (h x) = hd (xs @ [n]) \<and> chain h x xs n"

lemma chain_append: "chain h p (xs @ ys) n \<longleftrightarrow> chain h p xs (hd (ys @ [n])) \<and> chain h (last (p # xs)) ys n"
  by (induction xs arbitrary: p) auto

definition ring :: "(nat \<Rightarrow> RTAVLNode) \<Rightarrow> nat list \<Rightarrow> bool" where
  "ring h tw \<longleftrightarrow> chain h (last tw) tw (hd tw)"

lemma ring_rotate: "ring h (xs @ ys) \<longleftrightarrow> ring h (ys @ xs)"
proof (cases "xs = [] \<or> ys = []")
  case False
  then have "hd (ys @ [x]) = hd ys" "hd (xs @ [x]) = hd xs" "last (x # xs) = last xs" "last (x # ys) = last ys" for x by simp_all
  then show ?thesis using False by (auto simp: ring_def chain_append)
qed auto

lemma chain_cong:
  "\<forall>x \<in> set xs. av_prevTwin (h' x) = av_prevTwin (h x) \<and> av_nextTwin (h' x) = av_nextTwin (h x) \<Longrightarrow> chain h' p xs n = chain h p xs n"
  by (induction xs arbitrary: p) auto

text \<open>A chain is opened and closed again at its two ends.\<close>

lemma chain_ends:
  assumes "chain h p ws n" "distinct ws"
    "\<forall>x \<in> set ws. av_prevTwin (h' x) = (if x = hd ws then p' else av_prevTwin (h x)) \<and>
      av_nextTwin (h' x) = (if x = last ws then n' else av_nextTwin (h x))"
  shows "chain h' p' ws n'"
  using assms
proof (induction ws arbitrary: p p')
  case (Cons w ws)
  show ?case
  proof (cases ws)
    case Nil
    then show ?thesis using Cons.prems by simp
  next
    case (Cons v vs)
    have "chain h' w ws n'"
    proof (rule Cons.IH)
      show "chain h w ws n" "distinct ws" using Cons.prems by simp_all
      show "\<forall>x \<in> set ws. av_prevTwin (h' x) = (if x = hd ws then w else av_prevTwin (h x)) \<and>
          av_nextTwin (h' x) = (if x = last ws then n' else av_nextTwin (h x))"
        using Cons.prems Cons by auto
    qed
    moreover have "w \<noteq> last ws" using Cons.prems(2) Cons by (metis distinct.simps(2) last_in_set list.discI)
    ultimately show ?thesis using Cons.prems Cons by auto
  qed
qed simp

lemma ring_ends:
  assumes "ring h tw" "x \<in> set tw" "distinct tw" "tw \<noteq> [x]"
  obtains ys zs where "tw = ys @ x # zs" "av_prevTwin (h x) = last (zs @ ys)" "av_nextTwin (h x) = hd (zs @ ys)"
    "chain h x (zs @ ys) x" "zs @ ys \<noteq> []"
proof -
  obtain ys zs where tw: "tw = ys @ x # zs" using assms(2) split_list by fast
  then have ne: "zs @ ys \<noteq> []" using assms(4) by auto
  have "ring h ((zs @ ys) @ [x])" using ring_rotate [of h "ys @ [x]" zs] ring_rotate [of h "x # zs" ys] assms(1) tw
    ring_rotate [of h "[x]" "zs @ ys"] by simp
  then have "chain h x (zs @ ys) x" "av_prevTwin (h x) = last (zs @ ys)" "av_nextTwin (h x) = hd (zs @ ys)"
    using ne unfolding ring_def chain_append by (auto simp: hd_append split: if_splits)
  then show thesis using that tw ne by blast
qed

text \<open>Taking an element out, and putting one in before the head.\<close>

lemma unlink_twin_ring:
  assumes "ring (heap t) (ys @ x # zs)" "distinct (ys @ x # zs)" "ys @ zs \<noteq> []"
  shows "ring (heap (unlink_twin x t)) (ys @ zs)"
    "\<forall>m. m \<notin> set (ys @ zs) \<longrightarrow> heap (unlink_twin x t) m = heap t m"
    "av_parent (heap (unlink_twin x t) m) = av_parent (heap t m)" "av_children (heap (unlink_twin x t) m) = av_children (heap t m)"
    "av_balance (heap (unlink_twin x t) m) = av_balance (heap t m)" "av_twinHead (heap (unlink_twin x t) m) = av_twinHead (heap t m)"
    "av_tree (heap (unlink_twin x t) m) = av_tree (heap t m)"
    "root (unlink_twin x t) = root t" "self (unlink_twin x t) = self t" "nodesCount (unlink_twin x t) = nodesCount t"
proof -
  let ?w = "zs @ ys"
  have w: "?w \<noteq> []" "distinct ?w" "x \<notin> set ?w" using assms(2,3) by auto
  have "ring (heap t) (?w @ [x])" using ring_rotate [of "heap t" "ys @ [x]" zs] ring_rotate [of "heap t" "x # zs" ys] assms(1)
    ring_rotate [of "heap t" "[x]" ?w] by simp
  then have c: "chain (heap t) x ?w x" "av_prevTwin (heap t x) = last ?w" "av_nextTwin (heap t x) = hd ?w"
    using w unfolding ring_def chain_append by (auto simp: hd_append split: if_splits)
  have neq: "last ?w \<noteq> x" "hd ?w \<noteq> x" using w last_in_set hd_in_set by metis+
  have u: "unlink_twin x t = upd (hd ?w) (av_prevTwin_update (\<lambda>_. last ?w)) (upd (last ?w) (av_nextTwin_update (\<lambda>_. hd ?w)) t)"
    using c(2,3) neq by (simp add: unlink_twin_def Let_def)
  have "chain (heap (unlink_twin x t)) (last ?w) ?w (hd ?w)"
    by (rule chain_ends [OF c(1) w(2)]) (auto simp: u)
  then have "ring (heap (unlink_twin x t)) ?w" by (simp add: ring_def)
  then show "ring (heap (unlink_twin x t)) (ys @ zs)" using ring_rotate by blast
  have "last ?w \<in> set ?w" "hd ?w \<in> set ?w" using w(1) last_in_set hd_in_set by blast+
  then show "\<forall>m. m \<notin> set (ys @ zs) \<longrightarrow> heap (unlink_twin x t) m = heap t m" by (auto simp: u)
  show "av_parent (heap (unlink_twin x t) m) = av_parent (heap t m)" "av_children (heap (unlink_twin x t) m) = av_children (heap t m)"
    "av_balance (heap (unlink_twin x t) m) = av_balance (heap t m)" "av_twinHead (heap (unlink_twin x t) m) = av_twinHead (heap t m)"
    "av_tree (heap (unlink_twin x t) m) = av_tree (heap t m)"
    "root (unlink_twin x t) = root t" "self (unlink_twin x t) = self t" "nodesCount (unlink_twin x t) = nodesCount t"
    by (simp_all add: u)
qed

lemma add_twin_eq:
  assumes "ring (heap t) tw" "distinct tw" "tw \<noteq> []" "x \<notin> set tw"
  shows "ring (heap (add_twin (hd tw) x t)) (tw @ [x])"
    "heap (add_twin (hd tw) x t) x = \<lparr>av_parent = None, av_children = (\<lambda>_. None), av_prevTwin = last tw, av_nextTwin = hd tw,
      av_balance = 0, av_twinHead = False, av_tree = Some (self t)\<rparr>"
    "\<forall>m. m \<notin> insert x (set tw) \<longrightarrow> heap (add_twin (hd tw) x t) m = heap t m"
    "m \<noteq> x \<Longrightarrow> av_parent (heap (add_twin (hd tw) x t) m) = av_parent (heap t m)"
    "m \<noteq> x \<Longrightarrow> av_children (heap (add_twin (hd tw) x t) m) = av_children (heap t m)"
    "m \<noteq> x \<Longrightarrow> av_balance (heap (add_twin (hd tw) x t) m) = av_balance (heap t m)"
    "m \<noteq> x \<Longrightarrow> av_twinHead (heap (add_twin (hd tw) x t) m) = av_twinHead (heap t m)"
    "m \<noteq> x \<Longrightarrow> av_tree (heap (add_twin (hd tw) x t) m) = av_tree (heap t m)"
    "root (add_twin (hd tw) x t) = root t" "self (add_twin (hd tw) x t) = self t"
    "nodesCount (add_twin (hd tw) x t) = nodesCount t + 1"
proof -
  let ?t = "add_twin (hd tw) x t"
  have ne: "hd tw \<noteq> x" "last tw \<noteq> x" "hd tw \<in> set tw" "last tw \<in> set tw" using assms(3,4) hd_in_set last_in_set by metis+
  have prev: "av_prevTwin (heap t (hd tw)) = last tw" using assms(1,3) by (cases tw) (auto simp: ring_def)
  have h: "heap ?t m = (if m = x then \<lparr>av_parent = None, av_children = (\<lambda>_. None), av_prevTwin = last tw, av_nextTwin = hd tw,
      av_balance = 0, av_twinHead = False, av_tree = Some (self t)\<rparr>
    else (heap t m)\<lparr>av_nextTwin := (if m = last tw then x else av_nextTwin (heap t m)),
      av_prevTwin := (if m = hd tw then x else av_prevTwin (heap t m))\<rparr>)" for m
    by (cases "hd tw = last tw") (use ne prev in \<open>simp_all add: add_twin_def mark_inserted_def node_reset_def reset_node_def Let_def\<close>)
  then show "heap ?t x = \<lparr>av_parent = None, av_children = (\<lambda>_. None), av_prevTwin = last tw, av_nextTwin = hd tw,
      av_balance = 0, av_twinHead = False, av_tree = Some (self t)\<rparr>"
    "\<forall>m. m \<notin> insert x (set tw) \<longrightarrow> heap ?t m = heap t m"
    "m \<noteq> x \<Longrightarrow> av_parent (heap ?t m) = av_parent (heap t m)" "m \<noteq> x \<Longrightarrow> av_children (heap ?t m) = av_children (heap t m)"
    "m \<noteq> x \<Longrightarrow> av_balance (heap ?t m) = av_balance (heap t m)" "m \<noteq> x \<Longrightarrow> av_twinHead (heap ?t m) = av_twinHead (heap t m)"
    "m \<noteq> x \<Longrightarrow> av_tree (heap ?t m) = av_tree (heap t m)"
    using ne by (auto simp: h)
  show "root ?t = root t" "self ?t = self t" "nodesCount ?t = nodesCount t + 1"
    using ne by (simp_all add: add_twin_def mark_inserted_def node_reset_def Let_def)
  have "chain (heap ?t) x tw x"
    by (rule chain_ends [OF assms(1) [unfolded ring_def] assms(2)]) (use assms(4) in \<open>auto simp: h\<close>)
  moreover have "chain (heap ?t) (last tw) [x] (hd tw)" using h by simp
  ultimately have "chain (heap ?t) (last (tw @ [x])) (tw @ [x]) (hd (tw @ [x]))"
    unfolding chain_append using assms(3) by simp
  then show "ring (heap ?t) (tw @ [x])" by (simp add: ring_def)
qed

section \<open>All rings of a tree\<close>

definition twins_at :: "(nat \<Rightarrow> RTAVLNode) \<Rightarrow> nat list \<Rightarrow> bool" where
  "twins_at h tw \<longleftrightarrow> tw \<noteq> [] \<and> ring h tw \<and> (\<forall>x \<in> set tw. av_twinHead (h x) \<longleftrightarrow> x = hd tw)"

definition twins_inv :: "RTAVLTree \<Rightarrow> nat list list \<Rightarrow> bool" where
  "twins_inv t R \<longleftrightarrow> (\<forall>tw \<in> set R. twins_at (heap t) tw) \<and> distinct (concat R) \<and> nodesCount t = int (length (concat R)) \<and>
     (\<forall>n. av_tree (heap t n) = Some (self t) \<longleftrightarrow> n \<in> set (concat R))"

lemma twins_at_cong:
  assumes "\<forall>x \<in> set tw. av_prevTwin (h' x) = av_prevTwin (h x) \<and> av_nextTwin (h' x) = av_nextTwin (h x) \<and>
    av_twinHead (h' x) = av_twinHead (h x)"
  shows "twins_at h' tw = twins_at h tw"
  using assms chain_cong [of tw h' h] by (auto simp: twins_at_def ring_def)

lemma twins_inv_same: "same_twins t' t \<Longrightarrow> twins_inv t' R = twins_inv t R"
  by (simp add: twins_inv_def same_twins_def twins_at_cong [of _ "heap t'" "heap t"])

lemma heads_rings: "\<forall>tw \<in> set (rings T). tw \<noteq> [] \<Longrightarrow> set (heads T) \<subseteq> set (concat (rings T))"
  by (induction T) (auto simp: hd_in_set)

end
