(* ===== verification/RTAVLTreeInsert.thy ===== *)
theory RTAVLTreeInsert
  imports RTAVLTreeTwins
begin

text \<open>
  \<open>RTAVLTree::insert\<close>: the element joins the ring of its key, or becomes a new leaf; the tree stays balanced.
\<close>

section \<open>The invariant of a tree\<close>

text \<open>The rings from left to right have increasing keys, and the elements of a ring have the same one.\<close>

definition ordered :: "(nat \<Rightarrow> 'k::linorder) \<Rightarrow> nat list list \<Rightarrow> bool" where
  "ordered key R \<longleftrightarrow> sorted_wrt (\<lambda>a b. key (hd a) < key (hd b)) R \<and> (\<forall>tw \<in> set R. \<forall>x \<in> set tw. key x = key (hd tw))"

definition avl_inv :: "(nat \<Rightarrow> 'k::linorder) \<Rightarrow> RTAVLTree \<Rightarrow> nat list list \<Rightarrow> bool" where
  "avl_inv key t R \<longleftrightarrow> (\<exists>T. rep t [] T \<and> avl T \<and> rings T = R) \<and> twins_inv t R \<and> ordered key R"

lemma ordered_append: "ordered key (A @ B) \<longleftrightarrow> ordered key A \<and> ordered key B \<and> (\<forall>a \<in> set A. \<forall>b \<in> set B. key (hd a) < key (hd b))"
  by (auto simp: ordered_def sorted_wrt_append)

lemma ordered_Cons: "ordered key (tw # B) \<longleftrightarrow> (\<forall>x \<in> set tw. key x = key (hd tw)) \<and> ordered key B \<and> (\<forall>b \<in> set B. key (hd tw) < key (hd b))"
  by (auto simp: ordered_def)

lemma ordered_Nil [simp]: "ordered key []" by (simp add: ordered_def)

fun ins_ring :: "(nat \<Rightarrow> 'k::linorder) \<Rightarrow> nat \<Rightarrow> nat list list \<Rightarrow> nat list list" where
  "ins_ring key x [] = [[x]]"
| "ins_ring key x (tw # R) = (if key x = key (hd tw) then (tw @ [x]) # R
     else if key x < key (hd tw) then [x] # tw # R else tw # ins_ring key x R)"

lemma ins_ring_parts:
  assumes "ordered key (A @ tw # B)"
  shows "key x < key (hd tw) \<Longrightarrow> ins_ring key x (A @ tw # B) = ins_ring key x A @ tw # B"
    "key (hd tw) < key x \<Longrightarrow> ins_ring key x (A @ tw # B) = A @ tw # ins_ring key x B"
    "key x = key (hd tw) \<Longrightarrow> ins_ring key x (A @ tw # B) = A @ (tw @ [x]) # B"
proof -
  have less: "\<forall>a \<in> set A. key (hd a) < key (hd tw)" using assms by (auto simp: ordered_append)
  show "ins_ring key x (A @ tw # B) = ins_ring key x A @ tw # B" if "key x < key (hd tw)"
    using that by (induction A) simp_all
  have skip: "ins_ring key x (A @ R) = A @ ins_ring key x R" if "\<forall>a \<in> set A. key (hd a) < key x" for R
    using that by (induction A) auto
  show "ins_ring key x (A @ tw # B) = A @ tw # ins_ring key x B" if "key (hd tw) < key x"
  proof -
    have "\<forall>a \<in> set A. key (hd a) < key x" using less that by (meson order.strict_trans)
    moreover have "key x \<noteq> key (hd tw)" "\<not> key x < key (hd tw)" using that by auto
    ultimately show ?thesis using skip [of "tw # B"] by simp
  qed
  show "ins_ring key x (A @ tw # B) = A @ (tw @ [x]) # B" if "key x = key (hd tw)"
    using skip [of "tw # B"] less that by simp
qed

lemma ctx_rings_split: "\<exists>A B. \<forall>X. ctx_rings C X = A @ X @ B"
proof (induction C)
  case (Cons f C)
  obtain d tw b s where f: "f = (d, tw, b, s)" by (cases f) auto
  obtain A B where "\<forall>X. ctx_rings C X = A @ X @ B" using Cons.IH by blast
  then have "\<forall>X. ctx_rings (f # C) X = (if d = LEFT then A @ X @ (tw # rings s @ B) else (A @ rings s @ [tw]) @ X @ B)"
    by (simp add: f)
  then show ?case by (cases d) (metis Dir_t.distinct(1))+
next
  case Nil
  have "\<forall>X. ctx_rings [] X = [] @ X @ []" by simp
  then show ?case by blast
qed

lemma heads_plug: "set (heads (plug C T)) = set (heads T) \<union> ctx_heads C"
  by (induction C T rule: plug.induct) auto

section \<open>Walking down\<close>

definition hung :: "nat \<Rightarrow> Dir_t \<Rightarrow> nat \<Rightarrow> RTAVLTree \<Rightarrow> RTAVLTree" where
  "hung x d n t = (let t = set_parent x (Some n) (set_child n d (Some x) (mark_inserted x t))
     in t\<lparr>nodesCount := nodesCount t + 1\<rparr>)"

text \<open>A fresh leaf takes the place of a tip.\<close>

lemma hung_rep:
  assumes "rep t ((d, tw, b, s) # C) Tip" "x \<notin> ctx_heads ((d, tw, b, s) # C)"
  shows "rep (hung x d (hd tw) t) ((d, tw, b, s) # C) (Br Tip [x] 0 Tip)"
  using assms by (auto simp: rep_def hung_def mark_inserted_def node_reset_def reset_node_def Let_def)

lemma hung_twins:
  assumes "n \<noteq> x"
  shows "self (hung x d n t) = self t" "nodesCount (hung x d n t) = nodesCount t + 1"
    "av_prevTwin (heap (hung x d n t) m) = (if m = x then x else av_prevTwin (heap t m))"
    "av_nextTwin (heap (hung x d n t) m) = (if m = x then x else av_nextTwin (heap t m))"
    "av_twinHead (heap (hung x d n t) m) = (if m = x then True else av_twinHead (heap t m))"
    "av_tree (heap (hung x d n t) m) = (if m = x then Some (self t) else av_tree (heap t m))"
  using assms by (simp_all add: hung_def mark_inserted_def node_reset_def reset_node_def Let_def)

lemma attach_correct:
  assumes "rep t C T" "ptr T = Some n" "ordered key (rings T)"
  shows "(\<exists>d tw b s C1. attach key x n t = Some (True, hung x d (hd tw) t) \<and> plug ((d, tw, b, s) # C1) Tip = plug C T \<and>
      ctx_rings ((d, tw, b, s) # C1) [[x]] = ctx_rings C (ins_ring key x (rings T))) \<or>
    (\<exists>l tw b r C1. attach key x n t = Some (False, add_twin (hd tw) x t) \<and> plug C1 (Br l tw b r) = plug C T \<and>
      ctx_rings C1 (rings l @ (tw @ [x]) # rings r) = ctx_rings C (ins_ring key x (rings T)))"
  using assms
proof (induction T arbitrary: C n)
  case (Br l tw b r)
  have n: "n = hd tw" and ch: "av_children (heap t n) LEFT = ptr l" "av_children (heap t n) RIGHT = ptr r"
    using Br.prems(1,2) by (auto simp: rep_def)
  note parts = ins_ring_parts [OF Br.prems(3) [unfolded rings.simps], of x]
  have ord: "ordered key (rings l)" "ordered key (rings r)" using Br.prems(3) by (simp_all add: ordered_append ordered_Cons)
  consider "key x = key (hd tw)" | "key x < key (hd tw)" | "key (hd tw) < key x" by (rule linorder_cases [of "key x" "key (hd tw)"]) auto
  then show ?case
  proof cases
    case 1
    have "attach key x n t = Some (False, add_twin (hd tw) x t)" using 1 by (subst attach.simps) (simp add: avl_compare_def n)
    then show ?thesis using parts(3) [OF 1] by (intro disjI2 exI [of _ l] exI [of _ tw] exI [of _ b] exI [of _ r] exI [of _ C]) simp
  next
    case 2
    let ?f = "(LEFT, tw, b, r)"
    have cr: "ctx_rings (?f # C) X = ctx_rings C (X @ tw # rings r)" for X by simp
    show ?thesis
    proof (cases l)
      case Tip
      have "attach key x n t = Some (True, hung x LEFT n t)"
        using 2 ch Tip n by (subst attach.simps) (simp add: avl_compare_def hung_def Let_def)
      then show ?thesis using parts(1) [OF 2] Tip n
        by (intro disjI1 exI [of _ LEFT] exI [of _ tw] exI [of _ b] exI [of _ r] exI [of _ C]) simp
    next
      case (Br l1 tw1 b1 r1)
      have "rep t (?f # C) l" using \<open>rep t C (Br l tw b r)\<close> by (simp add: rep_frame)
      moreover have "attach key x n t = attach key x (hd tw1) t"
        using 2 ch Br n less_imp_neq [OF 2] by (subst attach.simps) (simp add: avl_compare_def)
      ultimately show ?thesis using "Br.IH"(1) [of "?f # C" "hd tw1"] ord(1) parts(1) [OF 2] Br
        unfolding cr plug.simps mk.simps by simp
    qed
  next
    case 3
    let ?f = "(RIGHT, tw, b, l)"
    have cr: "ctx_rings (?f # C) X = ctx_rings C (rings l @ tw # X)" for X by simp
    have ne: "key x \<noteq> key n" "\<not> key x < key n" using 3 n by auto
    show ?thesis
    proof (cases r)
      case Tip
      have "attach key x n t = Some (True, hung x RIGHT n t)"
        using ne ch Tip n by (subst attach.simps) (simp add: avl_compare_def hung_def Let_def)
      then show ?thesis using parts(2) [OF 3] Tip n
        by (intro disjI1 exI [of _ RIGHT] exI [of _ tw] exI [of _ b] exI [of _ l] exI [of _ C]) simp
    next
      case (Br l1 tw1 b1 r1)
      have "rep t (?f # C) r" using \<open>rep t C (Br l tw b r)\<close> by (simp add: rep_frame)
      moreover have "attach key x n t = attach key x (hd tw1) t"
        using ne ch Br n by (subst attach.simps) (simp add: avl_compare_def)
      ultimately show ?thesis using "Br.IH"(2) [of "?f # C" "hd tw1"] ord(2) parts(2) [OF 3] Br
        unfolding cr plug.simps mk.simps by simp
    qed
  qed
qed simp

section \<open>Rings after an insertion\<close>

lemma hung_twins_inv:
  assumes "twins_inv t (A @ B)" "x \<notin> set (concat (A @ B))" "n \<noteq> x"
  shows "twins_inv (hung x d n t) (A @ [x] # B)"
proof -
  note h = hung_twins [OF assms(3), of d t]
  have "twins_at (heap (hung x d n t)) tw" if "tw \<in> set (A @ B)" for tw
  proof -
    have "x \<notin> set tw" using that assms(2) by auto
    then have "twins_at (heap (hung x d n t)) tw = twins_at (heap t) tw" by (intro twins_at_cong) (auto simp: h)
    then show ?thesis using assms(1) that by (simp add: twins_inv_def)
  qed
  moreover have "twins_at (heap (hung x d n t)) [x]" by (simp add: twins_at_def ring_def h)
  ultimately have "\<forall>tw \<in> set (A @ [x] # B). twins_at (heap (hung x d n t)) tw" by auto
  moreover have "distinct (concat (A @ [x] # B))" using assms(1,2) by (auto simp: twins_inv_def)
  moreover have "av_tree (heap (hung x d n t) m) = Some (self (hung x d n t)) \<longleftrightarrow> m \<in> set (concat (A @ [x] # B))" for m
    using assms(1) by (cases "m = x") (simp_all add: twins_inv_def h)
  ultimately show ?thesis using assms(1) by (simp add: twins_inv_def h)
qed

lemma add_twin_twins_inv:
  assumes "twins_inv t (A @ tw # B)" "x \<notin> set (concat (A @ tw # B))"
  shows "twins_inv (add_twin (hd tw) x t) (A @ (tw @ [x]) # B)"
proof -
  let ?t = "add_twin (hd tw) x t"
  have tw: "twins_at (heap t) tw" "distinct tw" "x \<notin> set tw" using assms by (auto simp: twins_inv_def)
  then have r: "ring (heap t) tw" "tw \<noteq> []" by (auto simp: twins_at_def)
  note a = add_twin_eq [OF r(1) tw(2) r(2) tw(3)]
  have "twins_at (heap ?t) tw'" if "tw' \<in> set (A @ B)" for tw'
  proof -
    have "set tw' \<inter> insert x (set tw) = {}" using that assms by (auto simp: twins_inv_def)
    then have "\<forall>m \<in> set tw'. heap ?t m = heap t m" using a(3) by blast
    then have "twins_at (heap ?t) tw' = twins_at (heap t) tw'" by (intro twins_at_cong) simp
    then show ?thesis using assms(1) that by (auto simp: twins_inv_def)
  qed
  moreover have "twins_at (heap ?t) (tw @ [x])"
    unfolding twins_at_def
  proof (intro conjI ballI)
    show "tw @ [x] \<noteq> []" "ring (heap ?t) (tw @ [x])" using a(1) by simp_all
    fix m assume m: "m \<in> set (tw @ [x])"
    have "hd tw \<noteq> x" using tw(3) r(2) hd_in_set by metis
    then show "av_twinHead (heap ?t m) \<longleftrightarrow> m = hd (tw @ [x])"
      using m tw(1) r(2) a(2,7) by (cases "m = x") (auto simp: twins_at_def)
  qed
  ultimately have "\<forall>tw' \<in> set (A @ (tw @ [x]) # B). twins_at (heap ?t) tw'" by auto
  moreover have "distinct (concat (A @ (tw @ [x]) # B))" using assms by (auto simp: twins_inv_def)
  moreover have "av_tree (heap ?t m) = Some (self ?t) \<longleftrightarrow> m \<in> set (concat (A @ (tw @ [x]) # B))" for m
    using a(2,8,10) assms(1) by (cases "m = x") (simp_all add: twins_inv_def)
  ultimately show ?thesis using assms(1) a(11) by (simp add: twins_inv_def)
qed

lemma ins_ring_ordered:
  assumes "ordered key R" "\<forall>tw \<in> set R. tw \<noteq> []"
  shows "ordered key (ins_ring key x R)"
proof -
  have "ordered key (ins_ring key x R) \<and> (\<forall>k. k < key x \<longrightarrow> (\<forall>tw \<in> set R. k < key (hd tw)) \<longrightarrow> (\<forall>tw \<in> set (ins_ring key x R). k < key (hd tw)))"
    using assms
  proof (induction R)
    case (Cons tw R)
    then have IH: "ordered key (ins_ring key x R)" "\<And>k. k < key x \<Longrightarrow> \<forall>tw \<in> set R. k < key (hd tw) \<Longrightarrow> \<forall>tw \<in> set (ins_ring key x R). k < key (hd tw)"
      by (simp_all add: ordered_Cons)
    have hd: "hd (tw @ [x]) = hd tw" using Cons.prems(2) by simp
    consider "key x = key (hd tw)" | "key x < key (hd tw)" | "key (hd tw) < key x" by (rule linorder_cases [of "key x" "key (hd tw)"]) auto
    then show ?case
    proof cases
      case 1
      then have e: "ins_ring key x (tw # R) = (tw @ [x]) # R" by simp
      have k: "\<forall>y \<in> set tw. key y = key (hd tw)" "\<forall>tw' \<in> set R. key (hd tw) < key (hd tw')" "ordered key R"
        using Cons.prems(1) unfolding ordered_Cons by blast+
      have "\<forall>y \<in> set (tw @ [x]). key y = key (hd tw)" using k(1) 1 by (metis Un_iff empty_iff empty_set insert_iff list.simps(15) set_append)
      then show ?thesis unfolding e ordered_Cons hd using k by (auto simp del: append_is_Nil_conv set_append simp: hd)
    next
      case 2
      then have "\<forall>tw \<in> set R. key x < key (hd tw)" using Cons.prems(1) by (auto simp: ordered_Cons intro: order.strict_trans)
      then show ?thesis using 2 less_imp_neq [OF 2] Cons.prems(1) by (auto simp: ordered_Cons)
    next
      case 3
      then have e: "ins_ring key x (tw # R) = tw # ins_ring key x R" by auto
      have "\<forall>tw' \<in> set (ins_ring key x R). key (hd tw) < key (hd tw')" using IH(2) [OF 3] Cons.prems(1) by (simp add: ordered_Cons)
      then show ?thesis unfolding e using IH Cons.prems(1) by (simp add: ordered_Cons)
    qed
  qed (simp add: ordered_Cons)
  then show ?thesis by simp
qed

lemma ins_ring_concat:
  assumes "ordered key R" "\<forall>tw \<in> set R. tw \<noteq> []"
  shows "concat (ins_ring key x R) = takeWhile (\<lambda>y. key y \<le> key x) (concat R) @ x # dropWhile (\<lambda>y. key y \<le> key x) (concat R)"
  using assms
proof (induction R)
  case (Cons tw R)
  have k: "\<forall>y \<in> set tw. key y = key (hd tw)" and R: "\<forall>tw' \<in> set R. key (hd tw) < key (hd tw')" "ordered key R"
    using Cons.prems(1) by (auto simp: ordered_Cons)
  have later: "takeWhile (\<lambda>y. key y \<le> key x) (concat R) = [] \<and> dropWhile (\<lambda>y. key y \<le> key x) (concat R) = concat R"
    if "key x \<le> key (hd tw)"
  proof (cases R)
    case (Cons tw1 R1)
    then obtain y ys where "tw1 = y # ys" using \<open>\<forall>tw \<in> set (tw # R). tw \<noteq> []\<close> by (cases tw1) auto
    moreover have "\<not> key (hd tw1) \<le> key x" using R(1) Cons that by auto
    ultimately show ?thesis using Cons by simp
  qed simp
  consider "key x = key (hd tw)" | "key x < key (hd tw)" | "key (hd tw) < key x" by (rule linorder_cases [of "key x" "key (hd tw)"]) auto
  then show ?case
  proof cases
    case 1
    then have "\<forall>y \<in> set tw. key y \<le> key x" using k by (metis order_refl)
    moreover have "takeWhile (\<lambda>y. key y \<le> key x) (concat R) = []" "dropWhile (\<lambda>y. key y \<le> key x) (concat R) = concat R" using later 1 by simp_all
    ultimately show ?thesis using 1 by (simp add: takeWhile_append2 dropWhile_append2)
  next
    case 2
    obtain y ys where "tw = y # ys" using Cons.prems(2) by (cases tw) auto
    moreover have "\<not> key (hd tw) \<le> key x" using 2 by simp
    ultimately show ?thesis using 2 less_imp_neq [OF 2] by simp
  next
    case 3
    have "\<forall>y \<in> set tw. key y \<le> key x" using k 3 by (metis less_imp_le)
    moreover have "key x \<noteq> key (hd tw)" "\<not> key x < key (hd tw)" using 3 by auto
    ultimately show ?thesis using Cons.IH R(2) Cons.prems(2) by (simp add: takeWhile_append2 dropWhile_append2)
  qed
qed simp

section \<open>insert\<close>

lemma rep_root: "rep t [] T \<Longrightarrow> root t = ptr T" by (simp add: rep_def)

lemma avl_inv_parts:
  assumes "avl_inv key t R"
  shows "\<forall>tw \<in> set R. tw \<noteq> []" "distinct (concat R)" "nodesCount t = int (length (concat R))"
    "av_tree (heap t n) = Some (self t) \<longleftrightarrow> n \<in> set (concat R)" "ordered key R"
  using assms by (auto simp: avl_inv_def twins_inv_def twins_at_def)

lemma RTAVLTree_insert_rings:
  assumes inv: "avl_inv key t R" and x: "x \<notin> set (concat R)"
  shows "\<exists>t'. RTAVLTree_insert key x t = Some t' \<and> avl_inv key t' (ins_ring key x R) \<and> self t' = self t"
proof -
  obtain T where T: "rep t [] T" "avl T" "rings T = R" "twins_inv t R" "ordered key R" using inv by (auto simp: avl_inv_def)
  note parts = avl_inv_parts [OF inv]
  have new: "av_tree (heap t x) \<noteq> Some (self t)" using parts(4) x by blast
  have ord: "ordered key (ins_ring key x R)" using ins_ring_ordered parts(1,5) by blast
  have fresh: "x \<notin> set (heads T)" using heads_rings [of T] T(3) parts(1) x by auto
  show ?thesis
  proof (cases T)
    case Tip
    then have R: "R = []" "root t = None" using T(1,3) by (auto simp: rep_def)
    let ?t = "(mark_inserted x t)\<lparr>root := Some x, nodesCount := nodesCount t + 1\<rparr>"
    have "RTAVLTree_insert key x t = Some ?t" using new R by (simp add: RTAVLTree_insert_def)
    moreover have "rep ?t [] (Br Tip [x] 0 Tip)" by (simp add: rep_def mark_inserted_def node_reset_def reset_node_def)
    then have "\<exists>T. rep ?t [] T \<and> avl T \<and> rings T = [[x]]" by (intro exI [of _ "Br Tip [x] 0 Tip"]) simp
    moreover have "twins_inv ?t [[x]]" using parts(3,4) R
      by (auto simp: twins_inv_def twins_at_def ring_def mark_inserted_def node_reset_def reset_node_def)
    ultimately show ?thesis using ord by (auto simp: avl_inv_def R mark_inserted_def node_reset_def)
  next
    case (Br l0 tw0 b0 r0)
    then have root: "root t = Some (hd tw0)" "ptr T = Some (hd tw0)" using T(1) by (simp_all add: rep_def)
    have ins: "RTAVLTree_insert key x t = Option.bind (attach key x (hd tw0) t) (\<lambda>(asChild, t). if asChild then grow_up x 1 t else Some t)"
      using new root by (simp add: RTAVLTree_insert_def)
    from attach_correct [OF T(1) root(2) T(5) [folded T(3)], of x] show ?thesis
    proof (elim disjE exE conjE, goal_cases)
      case (1 d tw b s C)
      let ?f = "(d, tw, b, s)"
      have pl: "plug (?f # C) Tip = T" using 1(2) T(1) by simp
      have rp: "rep t (?f # C) Tip" using T(1) pl rep_plug by metis
      have fr: "x \<notin> ctx_heads (?f # C)" using heads_plug [of "?f # C" Tip] pl fresh by simp
      have "avl (plug (?f # C) Tip)" using T(2) pl by simp
      then have ca: "ctx_avl (?f # C) (ht (Br Tip [x] 0 Tip) - 1)" by (simp add: avl_plug del: plug.simps ctx_avl.simps)
      from grow_up_correct [OF hung_rep [OF rp fr] _ _ ca] obtain t' T' where
        g: "grow_up x 1 (hung x d (hd tw) t) = Some t'" "rep t' [] T'" "avl T'" "rings T' = ctx_rings (?f # C) [[x]]" "same_twins t' (hung x d (hd tw) t)"
        by auto
      have R': "rings T' = ins_ring key x R" using g(4) 1(3) T(3) by simp
      obtain A B where AB: "\<forall>X. ctx_rings (?f # C) X = A @ X @ B" using ctx_rings_split by blast
      have "R = A @ B" using pl T(3) rings_plug [of "?f # C" Tip] AB by simp
      moreover have "ins_ring key x R = A @ [x] # B" using AB R' g(4) by simp
      moreover have "hd tw \<noteq> x" using fr by auto
      ultimately have "twins_inv (hung x d (hd tw) t) (ins_ring key x R)" using hung_twins_inv T(4) x by simp
      then have "twins_inv t' (ins_ring key x R)" using twins_inv_same [OF g(5)] by simp
      moreover have "self t' = self t" using g(5) \<open>hd tw \<noteq> x\<close> by (simp add: same_twins_def hung_twins)
      ultimately show ?case using 1(1) ins g(1-3) R' ord by (auto simp: avl_inv_def)
    next
      case (2 l tw b r C)
      let ?t = "add_twin (hd tw) x t"
      have pl: "plug C (Br l tw b r) = T" using 2(2) T(1) by simp
      have rp: "rep t C (Br l tw b r)" using T(1) pl rep_plug by metis
      obtain A0 B0 where AB: "\<forall>X. ctx_rings C X = A0 @ X @ B0" using ctx_rings_split by blast
      let ?A = "A0 @ rings l" and ?B = "rings r @ B0"
      have R: "R = ?A @ tw # ?B" using pl T(3) rings_plug [of C "Br l tw b r"] AB by simp
      have R': "ins_ring key x R = ?A @ (tw @ [x]) # ?B" using AB 2(3) T(3) by simp
      have tw: "twins_at (heap t) tw" "distinct tw" "x \<notin> set tw" using T(4) x by (auto simp: twins_inv_def R)
      then have rt: "ring (heap t) tw" "tw \<noteq> []" by (auto simp: twins_at_def)
      note a = add_twin_eq [OF rt(1) tw(2) rt(2) tw(3)]
      have "x \<notin> set (heads (Br l tw b r)) \<union> ctx_heads C" using fresh pl heads_plug [of C "Br l tw b r"] by simp
      then have "\<forall>n \<in> set (heads (Br l tw b r)) \<union> ctx_heads C. same_links (heap ?t n) (heap t n)"
        using a(4-6) unfolding same_links_def by metis
      then have "rep ?t C (Br l tw b r)" by (rule rep_links [OF rp a(9)])
      then have "rep ?t C (Br l (tw @ [x]) b r)" using rt(2) by (simp add: rep_def)
      then have "rep ?t [] (plug C (Br l (tw @ [x]) b r))" using rep_plug by blast
      moreover have "avl (plug C (Br l (tw @ [x]) b r))" using T(2) pl by (auto simp: avl_plug)
      moreover have "rings (plug C (Br l (tw @ [x]) b r)) = ins_ring key x R" using AB R' by (simp add: rings_plug)
      moreover have "twins_inv ?t (ins_ring key x R)" unfolding R' using add_twin_twins_inv T(4) [unfolded R] x [unfolded R] .
      ultimately have "avl_inv key ?t (ins_ring key x R)" using ord by (auto simp: avl_inv_def)
      then show ?case using ins 2(1) a(10) by simp
    qed
  qed
qed

end
