(* ===== verification/RTAVLTreeErase.thy ===== *)
theory RTAVLTreeErase
  imports RTAVLTreeInsert
begin

text \<open>
  \<open>RTAVLTree::erase\<close> (\<open>src/src/common/RTAVLTree.h\<close>): an element leaves its ring; the last one of a ring leaves the
  tree, replaced by its only child or by its successor, and the tree stays balanced.
\<close>

section \<open>Changes of the links\<close>

text \<open>A node with one child is replaced by that child, or by nothing.\<close>

lemma rep_lift:
  assumes "rep t C (Br l tw b r)" "c = r \<and> l = Tip \<or> c = l \<and> r = Tip"
  defines "t' \<equiv> set_parent_opt (ptr c) (ctx_ptr C) (set_downLink (hd tw) (ptr c) t)"
  shows "rep t' C c" "same_twins t' t" "heap t' (hd tw) = heap t (hd tw)"
    "m \<notin> set (heads c) \<union> ctx_heads C \<Longrightarrow> heap t' m = heap t m"
proof -
  let ?t1 = "set_downLink (hd tw) (ptr c) t"
  note dl = rep_downLink [OF assms(1) ptr.simps(2) refl, where p = "ptr c"]
  have c: "distinct (heads c)" "hd tw \<notin> set (heads c)" "set (heads c) \<inter> ctx_heads C = {}" "ctx_distinct C" "hd tw \<notin> ctx_heads C"
    using assms(1,2) by (auto simp: rep_def)
  have off: "ptr c \<noteq> Some m" if "m \<notin> set (heads c)" for m using that ptr_heads by blast
  have "tree_at (heap ?t1) (Some (hd tw)) c" using dl(2) assms(2) by auto
  then have "tree_at (heap t') (ctx_ptr C) c" unfolding t'_def by (rule set_parent_opt_reparent [OF _ c(1)])
  moreover have "ctx_at (heap t') (root t') C (ptr c)"
  proof -
    have "\<forall>m \<in> ctx_heads C. heap t' m = heap ?t1 m"
    proof
      fix m assume "m \<in> ctx_heads C"
      then have "m \<notin> set (heads c)" using c(3) by blast
      then show "heap t' m = heap ?t1 m" using off by (simp add: t'_def)
    qed
    moreover have "root t' = root ?t1" by (simp add: t'_def)
    ultimately show ?thesis using dl(1) ctx_at_cong [of C "heap t'" "heap ?t1"] by simp
  qed
  ultimately show "rep t' C c" using c by (simp add: rep_def)
  show "same_twins t' t" by (simp add: t'_def same_twins_update_trans)
  show h: "heap t' m = heap t m" if "m \<notin> set (heads c) \<union> ctx_heads C" for m
    using that off dl(3) by (simp add: t'_def)
  show "heap t' (hd tw) = heap t (hd tw)" using c by (intro h) simp
qed

text \<open>Another node takes the place of a node.\<close>

lemma rep_replace:
  assumes "rep t C (Br l tw b r)" "hd tw' \<notin> set (heads l) \<union> set (heads r) \<union> ctx_heads C"
    and "root t4 = root t" "\<forall>m \<in> ctx_heads C. same_links (heap t4 m) (heap t m)"
    "av_parent (heap t4 (hd tw)) = ctx_ptr C"
    and "tree_at (heap t4) (Some (hd tw')) l" "tree_at (heap t4) (Some (hd tw')) r"
    and "av_parent (heap t4 (hd tw')) = ctx_ptr C" "av_children (heap t4 (hd tw')) LEFT = ptr l"
    "av_children (heap t4 (hd tw')) RIGHT = ptr r" "av_balance (heap t4 (hd tw')) = b"
  shows "rep (set_downLink (hd tw) (Some (hd tw')) t4) C (Br l tw' b r)"
proof -
  let ?t = "set_downLink (hd tw) (Some (hd tw')) t4"
  have d: "ctx_distinct C" "hd tw \<notin> ctx_heads C" "distinct (heads l)" "distinct (heads r)" "set (heads l) \<inter> set (heads r) = {}"
    "(set (heads l) \<union> set (heads r)) \<inter> ctx_heads C = {}"
    using assms(1) by (auto simp: rep_def)
  have "ctx_at (heap t4) (root t4) C (Some (hd tw))"
    using assms(1,3) ctx_at_links [OF assms(4)] by (simp add: rep_def)
  note dl = set_downLink_ctx [OF this assms(5) d(1,2), where p = "Some (hd tw')"]
  have off: "heap ?t m = heap t4 m" if "m \<in> insert (hd tw') (set (heads l) \<union> set (heads r))" for m
    using that d(6) assms(2) by (intro dl(2)) auto
  then have "tree_at (heap ?t) (Some (hd tw')) l" "tree_at (heap ?t) (Some (hd tw')) r"
    using assms(6,7) tree_at_cong [of _ "heap ?t" "heap t4"] by auto
  then show ?thesis using assms(2,8-11) off [of "hd tw'"] d dl(1) by (auto simp: rep_def)
qed

text \<open>Two subtrees get another parent.\<close>

lemma reparent_both:
  assumes "tree_at (heap t) p l" "tree_at (heap t) q r" "distinct (heads l)" "distinct (heads r)" "set (heads l) \<inter> set (heads r) = {}"
    and "t1 = set_parent_opt (ptr l) (Some n) t" "\<forall>m. m \<noteq> n \<longrightarrow> heap t2 m = heap t1 m" "n \<notin> set (heads l) \<union> set (heads r)"
    and "t3 = set_parent_opt (ptr r) (Some n) t2"
  shows "tree_at (heap t3) (Some n) l" "tree_at (heap t3) (Some n) r"
    "m \<notin> set (heads l) \<union> set (heads r) \<Longrightarrow> m \<noteq> n \<Longrightarrow> heap t3 m = heap t m"
    "heap t3 n = heap t2 n" "root t2 = root t1 \<Longrightarrow> root t3 = root t" "same_twins t2 t1 \<Longrightarrow> same_twins t3 t"
proof -
  have off: "ptr l \<noteq> Some m" if "m \<notin> set (heads l)" for m using that ptr_heads by blast
  have off': "ptr r \<noteq> Some m" if "m \<notin> set (heads r)" for m using that ptr_heads by blast
  have "tree_at (heap t1) (Some n) l" unfolding assms(6) by (rule set_parent_opt_reparent [OF assms(1,3)])
  moreover have "heap t3 m = heap t1 m" if "m \<in> set (heads l)" for m
  proof -
    have "m \<noteq> n" "m \<notin> set (heads r)" using that assms(5,8) by auto
    then show ?thesis using assms(7,9) off' by simp
  qed
  ultimately show "tree_at (heap t3) (Some n) l" by (simp add: tree_at_cong [of l "heap t3" "heap t1"])
  have "heap t2 m = heap t m" if "m \<in> set (heads r)" for m
  proof -
    have "m \<noteq> n" "m \<notin> set (heads l)" using that assms(5,8) by auto
    then show ?thesis using assms(6,7) off by simp
  qed
  then have "tree_at (heap t2) q r" using assms(2) by (simp add: tree_at_cong [of r "heap t2" "heap t"])
  then show "tree_at (heap t3) (Some n) r" unfolding assms(9) by (rule set_parent_opt_reparent [OF _ assms(4)])
  show "m \<notin> set (heads l) \<union> set (heads r) \<Longrightarrow> m \<noteq> n \<Longrightarrow> heap t3 m = heap t m" using off off' assms(6,7,9) by simp
  show "heap t3 n = heap t2 n" using off' assms(8,9) by simp
  show "root t2 = root t1 \<Longrightarrow> root t3 = root t" using assms(6,9) by simp
  have "same_twins t1 t" by (simp add: assms(6))
  then show "same_twins t2 t1 \<Longrightarrow> same_twins t3 t" unfolding assms(9) by (intro same_twins_update_trans(2)) (rule same_twins_trans)
qed

section \<open>Rings after a removal\<close>

definition del_ring :: "nat \<Rightarrow> nat list list \<Rightarrow> nat list list" where
  "del_ring x R = filter (\<lambda>tw. tw \<noteq> []) (map (remove1 x) R)"

lemma del_ring_mid:
  assumes "\<forall>tw \<in> set (A @ B). tw \<noteq> []" "x \<notin> set (concat (A @ B))"
  shows "del_ring x (A @ tw # B) = A @ (if remove1 x tw = [] then [] else [remove1 x tw]) @ B"
proof -
  have "filter (\<lambda>tw. tw \<noteq> []) (map (remove1 x) X) = X" if "set X \<subseteq> set (A @ B)" for X
    using that assms
  proof (induction X)
    case (Cons a X)
    then have "remove1 x a = a" "a \<noteq> []" by (auto intro: remove1_idem)
    then show ?case using Cons by simp
  qed simp
  then show ?thesis by (simp add: del_ring_def)
qed

lemma concat_del_ring: "distinct (concat R) \<Longrightarrow> concat (del_ring x R) = remove1 x (concat R)"
proof (induction R)
  case (Cons tw R)
  have "concat (filter (\<lambda>tw. tw \<noteq> []) xs) = concat xs" for xs :: "nat list list" by (induction xs) auto
  moreover have "x \<in> set tw \<Longrightarrow> remove1 x (concat R) = concat R" using Cons.prems by (intro remove1_idem) auto
  ultimately show ?case using Cons by (auto simp: del_ring_def remove1_append remove1_idem)
qed (simp add: del_ring_def)

lemma del_ring_ordered:
  assumes "ordered key R"
  shows "ordered key (del_ring x R)"
proof -
  have k: "key (hd (remove1 x tw)) = key (hd tw) \<and> (\<forall>y \<in> set (remove1 x tw). key y = key (hd (remove1 x tw)))"
    if eq: "\<forall>y \<in> set tw. key y = key (hd tw)" and ne: "remove1 x tw \<noteq> []" for tw
  proof -
    have sub: "\<forall>y \<in> set (remove1 x tw). key y = key (hd tw)" using eq notin_set_remove1 by metis
    then have "key (hd (remove1 x tw)) = key (hd tw)" using ne hd_in_set by blast
    then show ?thesis using sub by simp
  qed
  have "ordered key (del_ring x R) \<and> (\<forall>k. (\<forall>tw \<in> set R. k < key (hd tw)) \<longrightarrow> (\<forall>tw \<in> set (del_ring x R). k < key (hd tw)))"
    using assms
  proof (induction R)
    case (Cons tw R)
    have c: "del_ring x (tw # R) = (if remove1 x tw = [] then [] else [remove1 x tw]) @ del_ring x R" by (simp add: del_ring_def)
    have IH: "ordered key (del_ring x R)" "\<And>k. \<forall>tw \<in> set R. k < key (hd tw) \<Longrightarrow> \<forall>tw \<in> set (del_ring x R). k < key (hd tw)"
      using Cons unfolding ordered_Cons by blast+
    have tw: "\<forall>y \<in> set tw. key y = key (hd tw)" "\<forall>b \<in> set R. key (hd tw) < key (hd b)" using Cons.prems unfolding ordered_Cons by blast+
    show ?case
    proof (cases "remove1 x tw = []")
      case True
      then show ?thesis using IH by (simp add: c)
    next
      case False
      note k' = k [OF tw(1) False]
      have "ordered key (remove1 x tw # del_ring x R)" unfolding ordered_Cons
        using conjunct2 [OF k'] IH(1) IH(2) [OF tw(2)] unfolding conjunct1 [OF k'] by blast
      moreover have "\<forall>tw' \<in> set (remove1 x tw # del_ring x R). z < key (hd tw')" if "\<forall>tw' \<in> set (tw # R). z < key (hd tw')" for z
        using that IH(2) [of z] by (simp add: conjunct1 [OF k'])
      moreover have "del_ring x (tw # R) = remove1 x tw # del_ring x R" using False c by simp
      ultimately show ?thesis by metis
    qed
  qed (simp add: del_ring_def)
  then show ?thesis by blast
qed

text \<open>One ring loses an element; nothing else changes.\<close>

lemma twins_removed:
  assumes "twins_inv t (A @ tw # B)" "x \<in> set tw" "W = A @ (if remove1 x tw = [] then [] else [remove1 x tw]) @ B"
    and "self t' = self t" "nodesCount t' = nodesCount t - 1" "\<And>m. av_tree (heap t' m) = (if m = x then None else av_tree (heap t m))"
    and "\<And>m. m \<notin> set tw \<Longrightarrow> av_prevTwin (heap t' m) = av_prevTwin (heap t m) \<and> av_nextTwin (heap t' m) = av_nextTwin (heap t m) \<and>
      av_twinHead (heap t' m) = av_twinHead (heap t m)"
    and "remove1 x tw \<noteq> [] \<Longrightarrow> twins_at (heap t') (remove1 x tw)"
  shows "twins_inv t' W"
proof -
  have d: "distinct (concat (A @ tw # B))" "\<forall>n. av_tree (heap t n) = Some (self t) \<longleftrightarrow> n \<in> set (concat (A @ tw # B))"
    "nodesCount t = int (length (concat (A @ tw # B)))"
    using assms(1) by (simp_all add: twins_inv_def)
  then have x: "x \<notin> set (concat (A @ B))" "distinct tw" using assms(2) by auto
  have W: "concat W = concat A @ remove1 x tw @ concat B" by (simp add: assms(3))
  have "twins_at (heap t') tw'" if "tw' \<in> set (A @ B)" for tw'
  proof -
    have "set tw' \<inter> set tw = {}" using that d(1) by auto
    then have "twins_at (heap t') tw' = twins_at (heap t) tw'" using assms(7) by (intro twins_at_cong) blast
    then show ?thesis using assms(1) that by (auto simp: twins_inv_def)
  qed
  then have "\<forall>tw' \<in> set W. twins_at (heap t') tw'" using assms(3,8) by auto
  moreover have "distinct (concat W)" using d(1) x(2) unfolding W by auto
  moreover have "int (length (concat W)) = nodesCount t'"
  proof -
    have "int (length (remove1 x tw)) = int (length tw) - 1" using assms(2) by (cases "length tw") (simp_all add: length_remove1)
    then show ?thesis using assms(5) d(3) unfolding W by simp
  qed
  moreover have "av_tree (heap t' n) = Some (self t') \<longleftrightarrow> n \<in> set (concat W)" for n
    using d(2) x assms(2,4,6) unfolding W by auto
  ultimately show ?thesis by (simp add: twins_inv_def)
qed

end
