(* ===== verification/RTAVLTreeEraseRings.thy ===== *)
theory RTAVLTreeEraseRings
  imports RTAVLTreeErase
begin

text \<open>
  \<open>RTAVLTree::erase\<close> case by case: an element of a ring that is not its head, a head with further twins, and a
  node without twins that is a leaf, has one child, or has two.
\<close>

lemma node_reset_heap [simp]:
  "heap (node_reset x t) m = (if m = x then reset_node x else heap t m)" "root (node_reset x t) = root t"
  "self (node_reset x t) = self t" "nodesCount (node_reset x t) = nodesCount t"
  by (simp_all add: node_reset_def)

lemma reset_fields [simp]: "av_tree (reset_node x) = None" by (simp add: reset_node_def)

lemma rep_reset:
  assumes "rep t C T" "x \<notin> set (heads T) \<union> ctx_heads C"
  shows "rep ((node_reset x t)\<lparr>nodesCount := k\<rparr>) C T"
  by (rule rep_links [OF assms(1)]) (use assms(2) in auto)

text \<open>A place of the tree with the ring that holds an element.\<close>

lemma plug_at: "tw \<in> set (rings T) \<Longrightarrow> \<exists>C l b r. T = plug C (Br l tw b r)"
proof (induction T)
  case (Br l tw' b r)
  consider "tw = tw'" | "tw \<in> set (rings l)" | "tw \<in> set (rings r)" using Br.prems by auto
  then show ?case
  proof cases
    case 1
    then show ?thesis by (intro exI [of _ "[]"]) auto
  next
    case 2
    then obtain C l1 b1 r1 where "l = plug C (Br l1 tw b1 r1)" using Br.IH(1) by blast
    moreover have "plug (C @ D) X = plug D (plug C X)" for C D :: "frame list" and X by (induction C X rule: plug.induct) auto
    ultimately have "Br l tw' b r = plug (C @ [(LEFT, tw', b, r)]) (Br l1 tw b1 r1)" by simp
    then show ?thesis by blast
  next
    case 3
    then obtain C l1 b1 r1 where "r = plug C (Br l1 tw b1 r1)" using Br.IH(2) by blast
    moreover have "plug (C @ D) X = plug D (plug C X)" for C D :: "frame list" and X by (induction C X rule: plug.induct) auto
    ultimately have "Br l tw' b r = plug (C @ [(RIGHT, tw', b, l)]) (Br l1 tw b1 r1)" by simp
    then show ?thesis by blast
  qed
qed simp

section \<open>An element with twins\<close>

lemma erase_twin:
  assumes inv: "twins_inv t (A @ tw # B)" and x: "tw = ys @ x # zs" "ys \<noteq> []" and T: "rep t C T" "x \<notin> set (heads T) \<union> ctx_heads C"
  defines "t' \<equiv> (node_reset x (unlink_twin x t))\<lparr>nodesCount := nodesCount t - 1\<rparr>"
  shows "rep t' C T" "twins_inv t' (A @ [ys @ zs] @ B)"
proof -
  have tw: "twins_at (heap t) tw" "distinct tw" using inv by (auto simp: twins_inv_def)
  then have r: "ring (heap t) (ys @ x # zs)" "distinct (ys @ x # zs)" by (auto simp: twins_at_def x)
  have ne: "ys @ zs \<noteq> []" using x(2) by simp
  note u = unlink_twin_ring [OF r ne]
  have "rep (unlink_twin x t) C T" by (rule rep_links [OF T(1)]) (auto simp: u ne same_links_def)
  then show "rep t' C T" unfolding t'_def by (rule rep_reset [OF _ T(2)])
  have rm: "remove1 x tw = ys @ zs" using r(2) by (simp add: x remove1_append)
  have h: "heap t' m = (if m = x then reset_node x else heap (unlink_twin x t) m)" for m by (simp add: t'_def)
  have "twins_at (heap t') (ys @ zs)"
  proof -
    have "ring (heap t') (ys @ zs) = ring (heap (unlink_twin x t)) (ys @ zs)"
      unfolding ring_def using r(2) by (intro chain_cong) (auto simp: h)
    moreover have "av_twinHead (heap t' m) \<longleftrightarrow> m = hd (ys @ zs)" if "m \<in> set (ys @ zs)" for m
      using that tw(1) r(2) ne x by (auto simp: twins_at_def h u)
    ultimately show ?thesis using u(1) ne by (simp add: twins_at_def)
  qed
  moreover have "av_tree (heap t' m) = (if m = x then None else av_tree (heap t m))" for m by (simp add: h u ne)
  moreover have "heap t' m = heap t m" if "m \<notin> set tw" for m
    using that u(2) ne by (auto simp: h x)
  ultimately show "twins_inv t' (A @ [ys @ zs] @ B)"
    using ne rm by (intro twins_removed [OF inv, of x]) (simp_all add: t'_def u(9,10), simp add: x(1))
qed

lemma erase_head_eq:
  assumes "rep t C (Br l (x # y # ys) b r)" "ring (heap t) (x # y # ys)" "distinct (x # y # ys)"
    "y \<notin> set (heads (Br l (x # y # ys) b r)) \<union> ctx_heads C"
  shows "rep (erase_head x t) C (Br l (y # ys) b r)" "ring (heap (erase_head x t)) (y # ys)"
    "self (erase_head x t) = self t" "nodesCount (erase_head x t) = nodesCount t"
    "av_tree (heap (erase_head x t) m) = av_tree (heap t m)"
    "av_twinHead (heap (erase_head x t) m) = (m = y \<or> av_twinHead (heap t m))"
    "m \<notin> set (x # y # ys) \<Longrightarrow> av_prevTwin (heap (erase_head x t) m) = av_prevTwin (heap t m) \<and>
       av_nextTwin (heap (erase_head x t) m) = av_nextTwin (heap t m)"
proof -
  let ?i = "heap t x"
  define t1 where "t1 = upd y (\<lambda>z. z\<lparr>av_parent := av_parent ?i, av_children := av_children ?i, av_balance := av_balance ?i, av_twinHead := True\<rparr>) t"
  have "ring (heap t1) (x # y # ys) = ring (heap t) (x # y # ys)" unfolding ring_def by (rule chain_cong) (simp add: t1_def)
  then have "ring (heap t1) ([] @ x # y # ys)" "distinct ([] @ x # y # ys)" "[] @ y # ys \<noteq> []" using assms(2,3) by simp_all
  note u0 = unlink_twin_ring [OF this]
  define t2 where "t2 = unlink_twin x t1"
  note u = u0 [folded t2_def]
  have nx: "av_nextTwin ?i = y" using assms(2) by (simp add: ring_def)
  have i: "av_parent ?i = ctx_ptr C" "av_children ?i LEFT = ptr l" "av_children ?i RIGHT = ptr r" "av_balance ?i = b"
    "tree_at (heap t) (Some x) l" "tree_at (heap t) (Some x) r" using assms(1) by (simp_all add: rep_def)
  have ne: "x \<noteq> y" "y \<notin> set (heads l) \<union> set (heads r) \<union> ctx_heads C" "x \<notin> set (heads l) \<union> set (heads r) \<union> ctx_heads C"
    "distinct (heads l)" "distinct (heads r)" "set (heads l) \<inter> set (heads r) = {}" "(set (heads l) \<union> set (heads r)) \<inter> ctx_heads C = {}"
    using assms(1,3,4) by (auto simp: rep_def)
  have l2: "same_links (heap t2 m) (heap t m)" if "m \<noteq> y" for m using that u by (simp add: same_links_def u t1_def)
  have at2: "tree_at (heap t2) (Some x) l" "tree_at (heap t2) (Some x) r"
    using i(5,6) tree_at_links [of _ "heap t2" "heap t"] l2 ne(2) by (metis UnI1 UnI2)+
  define t3 where "t3 = set_parent_opt (ptr l) (Some y) t2"
  define t4 where "t4 = set_parent_opt (ptr r) (Some y) t3"
  note rb = reparent_both [OF at2 ne(4-6) t3_def, of t3, OF _ _ t4_def]
  have x2: "same_links (heap t2 x) ?i" using l2 ne(1) by simp
  have off: "ptr l \<noteq> Some x" "ptr r \<noteq> Some x" "ptr l \<noteq> Some y" "ptr r \<noteq> Some y" using ptr_heads ne(2,3) by blast+
  have eh: "erase_head x t = set_downLink x (Some y) t4"
  proof -
    have x3: "av_children (heap t2 x) LEFT = ptr l" "av_children (heap t3 x) RIGHT = ptr r"
      using x2 off i(2,3) by (simp_all add: same_links_def t3_def)
    show ?thesis unfolding erase_head_def Let_def nx t1_def [symmetric] t2_def [symmetric] x3(1) t3_def [symmetric] x3(2)
      t4_def [symmetric] ..
  qed
  have y: "heap t4 y = heap t2 y" using off by (simp add: t4_def t3_def)
  have y2: "av_parent (heap t2 y) = ctx_ptr C" "av_children (heap t2 y) LEFT = ptr l" "av_children (heap t2 y) RIGHT = ptr r"
    "av_balance (heap t2 y) = b" using i by (simp_all add: u t1_def)
  have r24: "root t4 = root t" "same_twins t4 t2" by (simp_all add: t4_def t3_def u t1_def same_twins_update_trans)
  have "rep (set_downLink (hd (x # y # ys)) (Some (hd (y # ys))) t4) C (Br l (y # ys) b r)"
  proof (rule rep_replace [OF assms(1)])
    show "hd (y # ys) \<notin> set (heads l) \<union> set (heads r) \<union> ctx_heads C" using ne(2) by simp
    show "root t4 = root t" by (rule r24)
    show "\<forall>m \<in> ctx_heads C. same_links (heap t4 m) (heap t m)"
    proof
      fix m assume m: "m \<in> ctx_heads C"
      then have "m \<notin> set (heads l) \<union> set (heads r)" "m \<noteq> y" using ne(2,7) by blast+
      then show "same_links (heap t4 m) (heap t m)" using rb(3) l2 ne(2) by simp
    qed
    show "av_parent (heap t4 (hd (x # y # ys))) = ctx_ptr C" using x2 off i by (simp add: t4_def t3_def same_links_def)
    show "tree_at (heap t4) (Some (hd (y # ys))) l" "tree_at (heap t4) (Some (hd (y # ys))) r" using rb(1,2) ne(2) by simp_all
    show "av_parent (heap t4 (hd (y # ys))) = ctx_ptr C" "av_children (heap t4 (hd (y # ys))) LEFT = ptr l"
      "av_children (heap t4 (hd (y # ys))) RIGHT = ptr r" "av_balance (heap t4 (hd (y # ys))) = b"
      using y2 y by simp_all
  qed
  then show "rep (erase_head x t) C (Br l (y # ys) b r)" by (simp add: eh)
  have st: "same_twins (erase_head x t) t2" unfolding eh using r24(2) by (rule same_twins_update_trans)
  show "self (erase_head x t) = self t" "nodesCount (erase_head x t) = nodesCount t"
    "av_tree (heap (erase_head x t) m) = av_tree (heap t m)"
    "av_twinHead (heap (erase_head x t) m) = (m = y \<or> av_twinHead (heap t m))"
    using st by (simp_all add: same_twins_def u t1_def)
  have "ring (heap (erase_head x t)) (y # ys) = ring (heap t2) (y # ys)"
    unfolding ring_def using st by (intro chain_cong) (simp add: same_twins_def)
  then show "ring (heap (erase_head x t)) (y # ys)" using u(1) by simp
  show "m \<notin> set (x # y # ys) \<Longrightarrow> av_prevTwin (heap (erase_head x t) m) = av_prevTwin (heap t m) \<and>
       av_nextTwin (heap (erase_head x t) m) = av_nextTwin (heap t m)"
    using st u(2) by (simp add: same_twins_def t1_def)
qed

lemma erase_head:
  assumes inv: "twins_inv t (A @ tw # B)" and tw: "tw = x # y # ys" and T: "rep t C (Br l tw b r)"
    "y \<notin> set (heads (Br l tw b r)) \<union> ctx_heads C"
  defines "t' \<equiv> (node_reset x (erase_head x t))\<lparr>nodesCount := nodesCount t - 1\<rparr>"
  shows "rep t' C (Br l (y # ys) b r)" "twins_inv t' (A @ [y # ys] @ B)"
proof -
  have at: "twins_at (heap t) tw" "distinct tw" using inv by (auto simp: twins_inv_def)
  then have r: "ring (heap t) (x # y # ys)" "distinct (x # y # ys)" by (auto simp: twins_at_def tw)
  note e = erase_head_eq [OF T(1) [unfolded tw] r T(2) [unfolded tw]]
  have "x \<notin> set (heads (Br l (y # ys) b r)) \<union> ctx_heads C" using T(1) r(2) by (auto simp: rep_def tw)
  then show "rep t' C (Br l (y # ys) b r)" unfolding t'_def by (intro rep_reset e(1))
  have h: "heap t' m = (if m = x then reset_node x else heap (erase_head x t) m)" for m by (simp add: t'_def)
  have "twins_at (heap t') (y # ys)"
  proof -
    have "ring (heap t') (y # ys) = ring (heap (erase_head x t)) (y # ys)"
      unfolding ring_def using r(2) by (intro chain_cong) (auto simp: h)
    moreover have "av_twinHead (heap t' m) \<longleftrightarrow> m = y" if "m \<in> set (y # ys)" for m
      using that at(1) r(2) by (auto simp: twins_at_def h e tw)
    ultimately show ?thesis using e(2) by (simp add: twins_at_def)
  qed
  moreover have "av_tree (heap t' m) = (if m = x then None else av_tree (heap t m))" for m by (simp add: h e)
  moreover have "av_prevTwin (heap t' m) = av_prevTwin (heap t m) \<and> av_nextTwin (heap t' m) = av_nextTwin (heap t m) \<and>
      av_twinHead (heap t' m) = av_twinHead (heap t m)" if "m \<notin> set tw" for m
    using that e(7) by (auto simp: h e tw)
  ultimately show "twins_inv t' (A @ [y # ys] @ B)"
    by (intro twins_removed [OF inv, of x]) (auto simp: tw t'_def e(3))
qed

end
