(* ===== verification/RTAVLTreeEraseNode.thy ===== *)
theory RTAVLTreeEraseNode
  imports RTAVLTreeEraseRings
begin

text \<open>
  The part of \<open>RTAVLTree::erase\<close> that takes a node out of the tree, and \<open>erase\<close> as a whole.
\<close>

lemma ctx_rings_append: "ctx_rings (C @ D) X = ctx_rings D (ctx_rings C X)"
  by (induction C X rule: ctx_rings.induct) auto

lemma plug_append: "plug (C @ D) X = plug D (plug C X)"
  by (induction C X rule: plug.induct) auto

lemma left_rings: "\<forall>f \<in> set D. fst f = LEFT \<Longrightarrow> \<exists>P. \<forall>X. ctx_rings D X = X @ P"
proof (induction D)
  case (Cons f D)
  obtain tw b s where f: "f = (LEFT, tw, b, s)" using Cons.prems by (cases f) auto
  obtain P where "\<forall>X. ctx_rings D X = X @ P" using Cons by auto
  then have "\<forall>X. ctx_rings (f # D) X = X @ (tw # rings s @ P)" by (simp add: f)
  then show ?case by blast
qed simp

text \<open>The walk to the lowest node of a subtree.\<close>

lemma lowest_from_path:
  assumes "rep t C T" "ptr T = Some n"
  shows "\<exists>D dt db dr. T = plug D (Br Tip dt db dr) \<and> (\<forall>f \<in> set D. fst f = LEFT) \<and> lowest_from n t = Some (hd dt)"
  using assms
proof (induction T arbitrary: C n)
  case (Br l tw b r)
  have n: "n = hd tw" "av_children (heap t n) LEFT = ptr l" using Br.prems by (auto simp: rep_def)
  show ?case
  proof (cases l)
    case Tip
    have "lowest_from n t = Some n" using n(2) Tip by (subst lowest_from.simps) simp
    then show ?thesis using Tip n(1) by (intro exI [of _ "[]"] exI [of _ tw] exI [of _ b] exI [of _ r]) simp
  next
    case (Br l1 tw1 b1 r1)
    have "rep t ((LEFT, tw, b, r) # C) l" using Br.prems(1) by (simp add: rep_frame)
    from Br.IH(1) [OF this] Br obtain D dt db dr where D: "l = plug D (Br Tip dt db dr)" "\<forall>f \<in> set D. fst f = LEFT"
      "lowest_from (hd tw1) t = Some (hd dt)" by auto
    have "lowest_from n t = Some (hd dt)" using n(2) Br D(3) by (subst lowest_from.simps) simp
    moreover have "Br l tw b r = plug (D @ [(LEFT, tw, b, r)]) (Br Tip dt db dr)" using D(1) by (simp add: plug_append)
    ultimately show ?thesis using D(2) by (intro exI [of _ "D @ [(LEFT, tw, b, r)]"]) auto
  qed
qed simp

lemma root_ctx: "rep t C T \<Longrightarrow> C \<noteq> [] \<Longrightarrow> \<exists>m \<in> ctx_heads C. root t = Some m"
proof -
  have "ctx_at h rt C p \<Longrightarrow> C \<noteq> [] \<Longrightarrow> \<exists>m \<in> ctx_heads C. rt = Some m" for h rt p
  proof (induction C arbitrary: p)
    case (Cons f C)
    obtain d tw b s where f: "f = (d, tw, b, s)" by (cases f) auto
    show ?case using Cons by (cases C) (auto simp: f)
  qed simp
  then show "rep t C T \<Longrightarrow> C \<noteq> [] \<Longrightarrow> \<exists>m \<in> ctx_heads C. root t = Some m" by (auto simp: rep_def)
qed

text \<open>The link to the node, whichever way the code sets it.\<close>

lemma downLink_root:
  assumes "rep t C (Br l tw b r)"
  shows "(if root t = Some (hd tw) then t\<lparr>root := p\<rparr> else set_downLink (hd tw) p t) = set_downLink (hd tw) p t"
proof (cases C)
  case Nil
  then show ?thesis using assms by (simp add: rep_def set_downLink_def)
next
  case (Cons f C')
  have "hd tw \<notin> ctx_heads C" using assms by (simp add: rep_def)
  then show ?thesis using root_ctx [OF assms] Cons by auto
qed

section \<open>One child or none\<close>

abbreviation erased :: "RTAVLTree \<Rightarrow> frame list \<Rightarrow> nat list list \<Rightarrow> RTAVLTree \<Rightarrow> bool" where
  "erased t C R t' \<equiv> \<exists>T'. rep t' [] T' \<and> avl T' \<and> rings T' = ctx_rings C R \<and> same_twins t' t"

lemma shrink_up_erased:
  assumes "rep t1 C T" "ptr T = Some n" "avl T" "ctx_avl C (ht T + dec)" "dec \<in> {0, 1}" "same_twins t1 t"
  shows "\<exists>t'. shrink_up n dec t1 = Some t' \<and> erased t C (rings T) t'"
  using shrink_up_correct [OF assms(1-5)] same_twins_trans [OF _ assms(6)] by metis

lemma erase_leaf:
  assumes "rep t C (Br Tip [x] b Tip)" "ctx_avl C 1" "C \<noteq> []"
  shows "\<exists>t'. erase_node x t = Some t' \<and> erased t C [] t'"
proof -
  obtain d tw b' s C' where C: "C = (d, tw, b', s) # C'" using assms(3) by (cases C) auto
  have links: "av_children (heap t x) LEFT = None" "av_children (heap t x) RIGHT = None" "av_parent (heap t x) = Some (hd tw)"
    using assms(1) by (simp_all add: rep_def C)
  have "relationToParent x t = side d" using relationToParent_frame(1) assms(1) unfolding C by fastforce
  then have dir: "uplinkDirFrom x (hd tw) t = d" using links(3) by (cases d) (auto simp: relationToParent_def split: if_splits, simp add: uplinkDirFrom_def split: if_splits)
  let ?t = "set_child (hd tw) d None t"
  have "set_parent_opt (ptr Tip) (ctx_ptr C) (set_downLink (hd [x]) (ptr Tip) t) = ?t"
    using links(3) dir by (simp add: set_downLink_def)
  then have rp: "rep ?t C Tip" "same_twins ?t t" using rep_lift(1,2) [OF assms(1), of Tip] by simp_all
  have "ctx_avl ((d, tw, b', s) # C') (ht Tip + 1)" using assms(2) by (auto simp: C)
  from shrink_node_rebuilt [OF rp(1) [unfolded C] _ this] obtain dec n t1 T1 where
    s: "shrink_node (hd tw) (side d) ?t = Some (dec, n, t1)" "dec \<in> {0, 1}" "rep t1 C' T1" "ptr T1 = Some n" "avl T1"
      "rings T1 = rings (mk d Tip tw b' s)" "ctx_avl C' (ht T1 + dec)" "same_twins t1 ?t" by auto
  obtain t' where t': "shrink_up n dec t1 = Some t'" "erased t C' (rings T1) t'"
    using shrink_up_erased [OF s(3-5,7,2) same_twins_trans [OF s(8) rp(2)]] by blast
  have "ctx_rings C' (rings T1) = ctx_rings C []" by (simp add: C s(6) rings_mk)
  moreover have "(if d = LEFT then - 1 else 1) = side d" by (cases d) simp_all
  then have "erase_node x t = Some t'" using links dir s(1) t'(1) by (simp add: erase_node_def)
  ultimately show ?thesis using t'(2) by auto
qed

lemma erase_one_child:
  assumes "rep t C (Br l [x] b r)" "c = r \<and> l = Tip \<or> c = l \<and> r = Tip" "c \<noteq> Tip" "avl c" "ctx_avl C (ht c + 1)"
  shows "\<exists>t'. erase_node x t = Some t' \<and> erased t C (rings c) t'"
proof -
  obtain l1 tw1 b1 r1 where c: "c = Br l1 tw1 b1 r1" using assms(3) by (cases c) auto
  have links: "av_children (heap t x) LEFT = ptr l" "av_children (heap t x) RIGHT = ptr r" "av_parent (heap t x) = ctx_ptr C" "x \<notin> ctx_heads C"
    using assms(1) by (simp_all add: rep_def)
  let ?t1 = "set_downLink x (ptr c) t"
  note lift = rep_lift [OF assms(1,2)]
  have par: "av_parent (heap ?t1 x) = ctx_ptr C"
    using rep_downLink(3) [OF assms(1), of "hd [x]"] links(3,4) by simp
  obtain t' where t': "shrink_up (hd tw1) 1 (set_parent (hd tw1) (ctx_ptr C) ?t1) = Some t'" "erased t C (rings c) t'"
    using shrink_up_erased [OF lift(1) _ assms(4,5) _ lift(2), of "hd tw1"] by (auto simp: c)
  have dl: "(if root t = Some x then t\<lparr>root := p\<rparr> else set_downLink x p t) = set_downLink x p t" for p
    using downLink_root [OF assms(1), of p] unfolding list.sel .
  have "erase_node x t = Some t'" using links(1,2) t'(1) assms(2) par by (auto simp: erase_node_def c dl)
  then show ?thesis using t'(2) by blast
qed

section \<open>Two children\<close>

lemma ctx_avl_head: "ctx_avl (D @ (d, tw, b, s) # C) h = ctx_avl (D @ (d, tw', b, s) # C) h"
  by (induction D h rule: ctx_avl.induct) auto

lemma ctx_heads_append: "ctx_heads (C @ D) = ctx_heads C \<union> ctx_heads D"
  by (induction C rule: ctx_heads.induct) auto

lemma ptr_plug_heads: "C \<noteq> [] \<Longrightarrow> \<exists>m \<in> ctx_heads C. ptr (plug C T) = Some m"
proof (induction C T rule: plug.induct)
  case (2 d tw b s C t)
  then show ?case by (cases C) auto
qed simp

lemma ctx_ptr_snoc: "D \<noteq> [] \<Longrightarrow> ctx_ptr (D @ C) = ctx_ptr D" by (cases D rule: ctx_ptr.cases) auto

lemma replace_by_dangling_rep:
  assumes T: "rep t C (Br l [x] b (plug D (Br Tip dt db dr)))" and l: "l \<noteq> Tip"
  defines "C' \<equiv> D @ (RIGHT, dt, b, l) # C"
  shows "\<exists>t'. replace_by_dangling x (hd dt) t = (ctx_ptr C', t') \<and> rep t' C' dr \<and> same_twins t' t"
proof -
  let ?d = "hd dt" and ?C = "D @ (RIGHT, [x], b, l) # C"
  have T1: "rep t ?C (Br Tip dt db dr)" using T rep_plug plug_append by (metis mk.simps(2) plug.simps(2))
  define t2 where "t2 = set_parent_opt (ptr dr) (ctx_ptr ?C) (set_downLink ?d (ptr dr) t)"
  note lift = rep_lift [OF T1, of dr, folded t2_def]
  have t2: "rep t2 ?C dr" "same_twins t2 t" "heap t2 ?d = heap t ?d" using lift(1-3) by simp_all
  have rp: "rep t2 C (Br l [x] b (plug D dr))" using t2(1) rep_plug plug_append by (metis mk.simps(2) plug.simps(2))
  have dx: "?d \<noteq> x" and dh: "?d \<notin> set (heads l) \<union> set (heads (plug D dr)) \<union> ctx_heads C" "?d \<notin> ctx_heads ?C"
    using T1 unfolding rep_def heads_plug ctx_heads_append by auto
  have x: "av_parent (heap t2 x) = ctx_ptr C" "av_children (heap t2 x) LEFT = ptr l" "av_children (heap t2 x) RIGHT = ptr (plug D dr)"
    "av_balance (heap t2 x) = b" "tree_at (heap t2) (Some x) l" "tree_at (heap t2) (Some x) (plug D dr)"
    "distinct (heads l)" "distinct (heads (plug D dr))" "set (heads l) \<inter> set (heads (plug D dr)) = {}" "x \<notin> set (heads l)"
    "x \<notin> set (heads (plug D dr))" "(set (heads l) \<union> set (heads (plug D dr))) \<inter> ctx_heads C = {}" "x \<notin> ctx_heads C"
    using rp by (auto simp: rep_def)
  have first: "av_children (heap t x) RIGHT = Some ?d \<longleftrightarrow> D = []"
  proof -
    have "av_children (heap t x) RIGHT = ptr (plug D (Br Tip dt db dr))" using T by (simp add: rep_def)
    moreover have "ptr (plug D (Br Tip dt db dr)) \<noteq> Some ?d" if "D \<noteq> []"
      using ptr_plug_heads [OF that, of "Br Tip dt db dr"] dh(2) by (auto simp: ctx_heads_append)
    ultimately show ?thesis by (cases "D = []") simp_all
  qed
  have d: "av_children (heap t ?d) RIGHT = ptr dr" "av_parent (heap t ?d) = ctx_ptr ?C" using T1 by (simp_all add: rep_def)
  have d1: "heap (set_downLink ?d (ptr dr) t) ?d = heap t ?d" by (rule rep_downLink(3) [OF T1 ptr.simps(2) refl dh(2)])
  define t3 where "t3 = set_parent_opt (ptr l) (Some ?d) t2"
  define t3' where "t3' = (if D = [] then t3 else set_child ?d RIGHT (ptr (plug D dr)) t3)"
  define t4 where "t4 = set_parent_opt (ptr (plug D dr)) (Some ?d) t3'"
  have "\<forall>m. m \<noteq> ?d \<longrightarrow> heap t3' m = heap t3 m" by (simp add: t3'_def)
  note rb = reparent_both [OF x(5-9) t3_def this _ t4_def]
  have rb: "tree_at (heap t4) (Some ?d) l" "tree_at (heap t4) (Some ?d) (plug D dr)" "heap t4 ?d = heap t3' ?d"
    "\<And>m. m \<notin> set (heads l) \<union> set (heads (plug D dr)) \<Longrightarrow> m \<noteq> ?d \<Longrightarrow> heap t4 m = heap t2 m" "root t4 = root t2" "same_twins t4 t2"
    using rb dh(1) by (auto simp: t3'_def)
  define t5 where "t5 = upd ?d (\<lambda>y. y\<lparr>av_parent := av_parent (heap t4 x), av_balance := av_balance (heap t4 x),
            av_children := (av_children y)(LEFT := av_children (heap t4 x) LEFT)\<rparr>) t4"
  have x4: "heap t4 x = heap t2 x" using rb(4) x(10,11) dx by simp
  have x3: "av_children (heap t3 x) RIGHT = ptr (plug D dr)" "av_children (heap t3' x) RIGHT = ptr (plug D dr)"
  proof -
    have "ptr l \<noteq> Some x" using ptr_heads [of l x] x(10) by blast
    then show "av_children (heap t3 x) RIGHT = ptr (plug D dr)" "av_children (heap t3' x) RIGHT = ptr (plug D dr)"
      using x(3) dx by (simp_all add: t3_def t3'_def)
  qed
  have eq: "replace_by_dangling x ?d t = (ctx_ptr C', set_downLink x (Some ?d) t5)"
  proof -
    have "(if D = [] then Some ?d else ctx_ptr ?C) = ctx_ptr C'" by (cases D) (auto simp: C'_def)
    then show ?thesis
      unfolding replace_by_dangling_def Let_def d(1) d1 first d(2) t2_def [symmetric] x(2) t3_def [symmetric] x3(1)
        t3'_def [symmetric] x3(2) t4_def [symmetric] t5_def [symmetric] t2(3) by simp
  qed
  have "rep (set_downLink (hd [x]) (Some (hd dt)) t5) C (Br l dt b (plug D dr))"
  proof (rule rep_replace [OF rp dh(1)])
    show "root t5 = root t2" using rb(5) by (simp add: t5_def)
    show "\<forall>m \<in> ctx_heads C. same_links (heap t5 m) (heap t2 m)"
    proof
      fix m assume m: "m \<in> ctx_heads C"
      then have "m \<notin> set (heads l) \<union> set (heads (plug D dr))" "m \<noteq> ?d" using x(12) dh(1) by auto
      then show "same_links (heap t5 m) (heap t2 m)" using rb(4) by (simp add: t5_def)
    qed
    show "av_parent (heap t5 (hd [x])) = ctx_ptr C" using x4 x(1) dx by (simp add: t5_def)
    show "tree_at (heap t5) (Some (hd dt)) l" "tree_at (heap t5) (Some (hd dt)) (plug D dr)"
      using rb(1,2) dh(1) by (simp_all add: t5_def)
    have "av_children (heap t4 ?d) RIGHT = ptr (plug D dr)"
    proof -
      have "heap t3 ?d = heap t2 ?d" using dh(1) ptr_heads [of l ?d] by (auto simp: t3_def intro!: set_parent_opt_other)
      then show ?thesis using rb(3) t2(3) d(1) by (simp add: t3'_def)
    qed
    then show "av_parent (heap t5 (hd dt)) = ctx_ptr C" "av_children (heap t5 (hd dt)) LEFT = ptr l"
      "av_children (heap t5 (hd dt)) RIGHT = ptr (plug D dr)" "av_balance (heap t5 (hd dt)) = b"
      using x4 x(1,2,4) by (simp_all add: t5_def)
  qed
  then have "rep (set_downLink x (Some ?d) t5) C' dr"
    unfolding C'_def list.sel by (metis mk.simps(2) plug.simps(2) plug_append rep_plug)
  moreover have "same_twins (set_downLink x (Some ?d) t5) t"
  proof -
    have "same_twins t5 t4" by (simp add: t5_def same_twins_def)
    then have "same_twins t5 t" using rb(6) t2(2) same_twins_trans by blast
    then show ?thesis by (rule same_twins_update_trans)
  qed
  ultimately show ?thesis using eq by blast
qed

lemma erase_two_children:
  assumes T: "rep t C (Br l [x] b r)" "l \<noteq> Tip" "r \<noteq> Tip" and avl: "avl (Br l [x] b r)" "ctx_avl C (ht (Br l [x] b r))"
  shows "\<exists>t'. erase_node x t = Some t' \<and> erased t C (rings l @ rings r) t'"
proof -
  have links: "av_children (heap t x) LEFT = ptr l" "av_children (heap t x) RIGHT = ptr r" using T(1) by (simp_all add: rep_def)
  obtain n k where ptrs: "ptr l = Some k" "ptr r = Some n" using T(2,3) by (cases l; cases r) auto
  have "rep t ((RIGHT, [x], b, l) # C) r" using T(1) by (simp add: rep_frame)
  from lowest_from_path [OF this ptrs(2)] obtain D dt db dr where D: "r = plug D (Br Tip dt db dr)" "\<forall>f \<in> set D. fst f = LEFT"
    "lowest_from n t = Some (hd dt)" by blast
  let ?C = "D @ (RIGHT, dt, b, l) # C"
  obtain t1 where t1: "replace_by_dangling x (hd dt) t = (ctx_ptr ?C, t1)" "rep t1 ?C dr" "same_twins t1 t"
    using replace_by_dangling_rep [OF T(1) [unfolded D(1)] T(2)] by blast
  obtain p where p: "ctx_ptr ?C = Some p" by (cases D) auto
  have "avl (plug (D @ (RIGHT, [x], b, l) # C) (Br Tip dt db dr))"
    using avl unfolding plug_append plug.simps mk.simps D(1) [symmetric] avl_plug [of C] by blast
  then have "avl dr" "ctx_avl (D @ (RIGHT, [x], b, l) # C) (ht dr + 1)"
    using ht_pos [of dr] unfolding avl_plug by (simp_all add: max_def)
  then have a: "avl dr" "ctx_avl ?C (ht dr + 1)" using ctx_avl_head [of D RIGHT "[x]" b l C "ht dr + 1" dt] by simp_all
  from shrink_to_correct [OF t1(2) a _ D(2) p] obtain dec m t2 T2 where
    s: "shrink_to (hd dt) p 1 t1 = Some (dec, m, t2)" "dec \<in> {0, 1}" "rep t2 C T2" "ptr T2 = Some m" "avl T2" "ctx_avl C (ht T2 + dec)"
      "ctx_rings C (rings T2) = ctx_rings ?C (rings dr)" "same_twins t2 t1" by auto
  obtain t' where t': "shrink_up m dec t2 = Some t'" "erased t C (rings T2) t'"
    using shrink_up_erased [OF s(3-6,2) same_twins_trans [OF s(8) t1(3)]] by blast
  have "ctx_rings ?C (rings dr) = ctx_rings C (rings l @ rings r)"
  proof -
    obtain P where P: "\<forall>X. ctx_rings D X = X @ P" using left_rings [OF D(2)] by blast
    have "rings r = dt # rings dr @ P" using P by (simp add: D(1) rings_plug)
    then show ?thesis using P by (simp add: ctx_rings_append)
  qed
  moreover have "erase_node x t = Some t'"
    using links ptrs D(3) t1(1) p s(1) t'(1) by (simp add: erase_node_def)
  ultimately show ?thesis using t'(2) s(7) by simp
qed

section \<open>erase\<close>

lemma erase_node_correct:
  assumes T: "rep t C (Br l [x] b r)" and avl: "avl (Br l [x] b r)" "ctx_avl C (ht (Br l [x] b r))"
    and "\<not> (l = Tip \<and> r = Tip \<and> C = [])"
  shows "\<exists>t'. erase_node x t = Some t' \<and> erased t C (rings l @ rings r) t'"
proof -
  consider "l = Tip" "r = Tip" | "l = Tip" "r \<noteq> Tip" | "l \<noteq> Tip" "r = Tip" | "l \<noteq> Tip" "r \<noteq> Tip" by blast
  then show ?thesis
  proof cases
    case 1
    then show ?thesis using erase_leaf [of t C x b] assms by simp
  next
    case 2
    then show ?thesis using erase_one_child [OF T, of r] avl ht_pos [of r] by (simp add: max_def)
  next
    case 3
    then show ?thesis using erase_one_child [OF T, of l] avl ht_pos [of l] by (simp add: max_def)
  next
    case 4
    show ?thesis by (rule erase_two_children [OF T 4 avl])
  qed
qed

lemma erase_single:
  assumes inv: "twins_inv t (A @ [x] # B)" and t1: "same_twins t1 t"
  defines "t' \<equiv> node_reset x (t1\<lparr>nodesCount := nodesCount t1 - 1\<rparr>)"
  shows "twins_inv t' (A @ B)"
proof (rule twins_removed [OF inv, of x])
  have h: "heap t' m = (if m = x then reset_node x else heap t1 m)" for m by (simp add: t'_def)
  show "self t' = self t" "nodesCount t' = nodesCount t - 1" using t1 by (simp_all add: t'_def same_twins_def)
  show "av_tree (heap t' m) = (if m = x then None else av_tree (heap t m))" for m using t1 by (simp add: h same_twins_def)
  show "av_prevTwin (heap t' m) = av_prevTwin (heap t m) \<and> av_nextTwin (heap t' m) = av_nextTwin (heap t m) \<and>
      av_twinHead (heap t' m) = av_twinHead (heap t m)" if "m \<notin> set [x]" for m using that t1 by (simp add: h same_twins_def)
qed simp_all

lemma node_reset_count: "node_reset x (t\<lparr>nodesCount := k\<rparr>) = (node_reset x t)\<lparr>nodesCount := k\<rparr>"
  by (simp add: node_reset_def upd_def)

lemma heads_map: "heads T = map hd (rings T)" by (induction T) auto

lemma RTAVLTree_erase_rings:
  assumes inv: "avl_inv key t R" and x: "x \<in> set (concat R)"
  shows "\<exists>t'. RTAVLTree_erase x t = Some t' \<and> avl_inv key t' (del_ring x R) \<and> self t' = self t \<and> heap t' x = reset_node x"
proof -
  obtain T where T: "rep t [] T" "avl T" "rings T = R" "twins_inv t R" "ordered key R" using inv by (auto simp: avl_inv_def)
  note parts = avl_inv_parts [OF inv]
  have mem: "av_tree (heap t x) = Some (self t)" using parts(4) x by blast
  obtain tw where tw: "tw \<in> set R" "x \<in> set tw" using x by auto
  obtain C l b r where pl: "T = plug C (Br l tw b r)" using plug_at tw(1) T(3) by blast
  have rp: "rep t C (Br l tw b r)" using T(1) pl rep_plug by metis
  have a: "avl (Br l tw b r)" "ctx_avl C (ht (Br l tw b r))" using T(2) unfolding pl avl_plug by blast+
  obtain A0 B0 where AB: "\<forall>X. ctx_rings C X = A0 @ X @ B0" using ctx_rings_split by blast
  let ?A = "A0 @ rings l" and ?B = "rings r @ B0"
  have R: "R = ?A @ tw # ?B" using pl T(3) rings_plug [of C "Br l tw b r"] AB by simp
  have tinv: "twins_inv t (?A @ tw # ?B)" using T(4) R by simp
  have at: "twins_at (heap t) tw" "distinct tw" using tinv by (auto simp: twins_inv_def)
  have "\<forall>tw \<in> set (?A @ ?B). tw \<noteq> []" "x \<notin> set (concat (?A @ ?B))" using parts(1,2) tw(2) unfolding R by auto
  note del = del_ring_mid [OF this, of tw, folded R]
  have ord: "ordered key (del_ring x R)" by (rule del_ring_ordered [OF T(5)])
  have hs: "set (heads (Br l tw b r)) \<union> ctx_heads C = set (heads T)" using heads_plug pl by simp
  have root: "root t \<noteq> None"
  proof -
    have "set (heads T) \<noteq> {}" using hs by auto
    then show ?thesis using T(1) by (cases T) (auto simp: rep_def)
  qed
  have notin: "y \<notin> set (heads T)" if y: "y \<in> set tw" "y \<noteq> hd tw" for y
  proof
    assume "y \<in> set (heads T)"
    then obtain tw' where tw': "tw' \<in> set R" "y = hd tw'" using T(3) heads_map [of T] by auto
    then have "y \<in> set tw'" using parts(1) by simp
    then have "tw' = tw" using y(1) tw(1) tw'(1) parts(2) by (auto simp: distinct_concat_iff)
    then show False using y(2) tw'(2) by simp
  qed
  have start: "RTAVLTree_erase x t = (if \<not> av_twinHead (heap t x) then
        (let t = node_reset x (unlink_twin x t) in Some (t\<lparr>nodesCount := nodesCount t - 1\<rparr>))
      else if av_nextTwin (heap t x) \<noteq> x then
        (let t = node_reset x (erase_head x t) in Some (t\<lparr>nodesCount := nodesCount t - 1\<rparr>))
      else if av_children (heap t x) LEFT = None \<and> av_children (heap t x) RIGHT = None \<and> root t = Some x
      then Some (node_reset x (t\<lparr>root := None, nodesCount := 0\<rparr>))
      else do {
        t \<leftarrow> erase_node x t;
        Some (node_reset x (t\<lparr>nodesCount := nodesCount t - 1\<rparr>)) })"
    unfolding RTAVLTree_erase_def using mem root by (simp only: simp_thms if_False)
  consider (twin) "x \<noteq> hd tw" | (head) y ys where "tw = x # y # ys" | (single) "tw = [x]"
    using tw(2) by (cases tw rule: remdups_adj.cases) auto
  then show ?thesis
  proof cases
    case twin
    obtain ys zs where s: "tw = ys @ x # zs" using tw(2) split_list by fast
    then have ne: "ys \<noteq> []" using twin by auto
    have "x \<notin> set (heads (Br l tw b r)) \<union> ctx_heads C" using notin tw(2) twin hs by simp
    note e = erase_twin [OF tinv s ne rp this]
    let ?t = "(node_reset x (unlink_twin x t))\<lparr>nodesCount := nodesCount t - 1\<rparr>"
    have ring: "ring (heap t) (ys @ x # zs)" "distinct (ys @ x # zs)" "ys @ zs \<noteq> []"
      using at ne by (simp_all add: twins_at_def s)
    have "RTAVLTree_erase x t = Some ?t"
      using at(1) tw(2) twin unlink_twin_ring(10) [OF ring] by (simp add: start twins_at_def)
    moreover have "rep ?t C (Br l (ys @ zs) b r)" using e(1) ne by (simp add: rep_def s)
    then have "rep ?t [] (plug C (Br l (ys @ zs) b r))" using rep_plug by blast
    moreover have "avl (plug C (Br l (ys @ zs) b r))" using a unfolding avl_plug by auto
    moreover have "remove1 x tw = ys @ zs" using ring(2) by (simp add: s remove1_append)
    then have "del_ring x R = ?A @ [ys @ zs] @ ?B" using del ring(3) by simp
    moreover have "rings (plug C (Br l (ys @ zs) b r)) = ?A @ [ys @ zs] @ ?B" using AB by (simp add: rings_plug)
    moreover have "self ?t = self t" using unlink_twin_ring(9) [OF ring] by simp
    ultimately show ?thesis using e(2) ord by (auto simp: avl_inv_def)
  next
    case head
    have d: "distinct (x # y # ys)" using at(2) head by simp
    have "y \<notin> set (heads (Br l tw b r)) \<union> ctx_heads C" using notin [of y] head hs d by simp
    note e = erase_head [OF tinv head rp this] and q = erase_head_eq(3,4) [OF rp [unfolded head] _ d this [unfolded head]]
    let ?t = "(node_reset x (erase_head x t))\<lparr>nodesCount := nodesCount t - 1\<rparr>"
    have ring: "ring (heap t) (x # y # ys)" using at(1) by (simp add: twins_at_def head)
    then have "av_nextTwin (heap t x) = y" by (simp add: ring_def)
    then have "RTAVLTree_erase x t = Some ?t"
      using at(1) d q(2) [OF ring] by (simp add: start twins_at_def head)
    moreover have "rep ?t [] (plug C (Br l (y # ys) b r))" using e(1) rep_plug by blast
    moreover have "avl (plug C (Br l (y # ys) b r))" using a unfolding avl_plug by auto
    moreover have "del_ring x R = ?A @ [y # ys] @ ?B" using del by (simp add: head)
    moreover have "rings (plug C (Br l (y # ys) b r)) = ?A @ [y # ys] @ ?B" using AB by (simp add: rings_plug)
    moreover have "self ?t = self t" using q(1) [OF ring] by simp
    ultimately show ?thesis using e(2) ord by (auto simp: avl_inv_def)
  next
    case single
    have R': "del_ring x R = ?A @ ?B" using del by (simp add: single)
    have tinv': "twins_inv t (?A @ [x] # ?B)" using tinv single by simp
    have tw': "av_twinHead (heap t x)" "av_nextTwin (heap t x) = x" using at(1) by (simp_all add: single twins_at_def ring_def)
    have links: "av_children (heap t x) LEFT = ptr l" "av_children (heap t x) RIGHT = ptr r" using rp by (simp_all add: rep_def single)
    show ?thesis
    proof (cases "l = Tip \<and> r = Tip \<and> C = []")
      case True
      have "[] = A0 @ [] @ B0" using AB True by (metis ctx_rings.simps(1))
      then have e: "R = [[x]]" "?A @ ?B = []" "root t = Some x" using True R rp by (simp_all add: single rep_def)
      let ?t = "node_reset x (t\<lparr>root := None, nodesCount := 0\<rparr>)"
      have "nodesCount t - 1 = 0" using parts(3) e(1) by simp
      moreover have "twins_inv (node_reset x ((t\<lparr>root := None\<rparr>)\<lparr>nodesCount := nodesCount (t\<lparr>root := None\<rparr>) - 1\<rparr>)) (?A @ ?B)"
        by (rule erase_single [OF tinv']) (simp add: same_twins_def)
      ultimately have "twins_inv ?t (del_ring x R)" unfolding R' by simp
      moreover have "rep ?t [] Tip" by (simp add: rep_def)
      moreover have "RTAVLTree_erase x t = Some ?t" using tw' links True e(3) by (simp add: start)
      ultimately show ?thesis using ord R' e(2) by (auto simp: avl_inv_def)
    next
      case False
      from erase_node_correct [OF rp [unfolded single] a [unfolded single] False] obtain t1 T1 where
        t1: "erase_node x t = Some t1" "rep t1 [] T1" "avl T1" "rings T1 = ctx_rings C (rings l @ rings r)" "same_twins t1 t"
        by blast
      let ?t = "node_reset x (t1\<lparr>nodesCount := nodesCount t1 - 1\<rparr>)"
      have rings: "rings T1 = del_ring x R" using t1(4) AB R' by simp
      have "x \<notin> set (concat (?A @ ?B))" using parts(2) unfolding R single by auto
      moreover have "\<forall>tw \<in> set (?A @ ?B). tw \<noteq> []" using parts(1) unfolding R by auto
      ultimately have "x \<notin> set (heads T1)" using heads_rings [of T1] rings R' by auto
      then have "rep ?t [] T1" unfolding node_reset_count by (intro rep_reset [OF t1(2)]) simp
      moreover have "twins_inv ?t (del_ring x R)" unfolding R' by (rule erase_single [OF tinv' t1(5)])
      moreover have "\<not> (av_children (heap t x) LEFT = None \<and> av_children (heap t x) RIGHT = None \<and> root t = Some x)"
      proof
        assume n: "av_children (heap t x) LEFT = None \<and> av_children (heap t x) RIGHT = None \<and> root t = Some x"
        then have "l = Tip" "r = Tip" using links by (cases l; cases r; simp)+
        then have "C \<noteq> []" using False by simp
        from root_ctx [OF rp this] show False using n rp by (auto simp: rep_def single)
      qed
      then have "RTAVLTree_erase x t = Some ?t" using tw' t1(1) by (auto simp: start)
      moreover have "self ?t = self t" using t1(5) by (simp add: same_twins_def)
      ultimately show ?thesis using t1(3) rings ord by (auto simp: avl_inv_def)
    qed
  qed
qed

end
