(* ===== verification/RTAVLTreeLookup.thy ===== *)
theory RTAVLTreeLookup
  imports RTAVLTreeEraseNode
begin

text \<open>
  Lookup, traversal and the self checks of \<open>src/src/common/RTAVLTree.h\<close> on trees that satisfy the invariant, and
  the height of such trees.
\<close>

section \<open>Height\<close>

lemma height_at_eq: "tree_at (heap t) p T \<Longrightarrow> height_at (ptr T) t = Some (ht T)"
proof (induction T arbitrary: p)
  case (Br l tw b r)
  then have "height_at (ptr l) t = Some (ht l)" "height_at (ptr r) t = Some (ht r)" by auto
  then show ?case using Br.prems by (subst height_at.simps) simp
qed (subst height_at.simps, simp)

lemma avl_size_bound: "avl T \<Longrightarrow> 2 ^ (nat (ht T) div 2) \<le> length (heads T) + 1"
proof (induction T)
  case (Br l tw b r)
  have pow: "(2::nat) ^ (m div 2) \<le> 2 ^ (k div 2)" if "m \<le> k" for m k :: nat
    using div_le_mono [OF that, of 2] by (simp add: power_increasing)
  let ?h = "nat (ht (Br l tw b r))"
  have h: "?h \<le> nat (ht l) + 2" "?h \<le> nat (ht r) + 2" "0 < ?h" using Br.prems ht_pos [of l] ht_pos [of r] by (auto simp: max_def)
  have "2 ^ ((?h - 2) div 2) \<le> length (heads l) + 1" "2 ^ ((?h - 2) div 2) \<le> length (heads r) + 1"
  proof -
    have "2 ^ (nat (ht l) div 2) \<le> length (heads l) + 1" "2 ^ (nat (ht r) div 2) \<le> length (heads r) + 1" using Br by simp_all
    moreover have "?h - 2 \<le> nat (ht l)" "?h - 2 \<le> nat (ht r)" using h by linarith+
    ultimately show "2 ^ ((?h - 2) div 2) \<le> length (heads l) + 1" "2 ^ ((?h - 2) div 2) \<le> length (heads r) + 1"
      using pow order_trans by blast+
  qed
  moreover have "(2::nat) ^ (?h div 2) \<le> 2 * 2 ^ ((?h - 2) div 2)"
  proof (cases "?h = 1")
    case False
    then have "?h div 2 = Suc ((?h - 2) div 2)" using h(3) by linarith
    then show ?thesis by simp
  qed simp
  ultimately show ?case by simp
qed simp

section \<open>Counting and checking\<close>

lemma count_ring_eq:
  assumes "chain (heap t) p ws x" "x \<notin> set ws"
  shows "count_ring x (hd (ws @ [x])) n t = Some (n + int (length ws))"
  using assms
proof (induction ws arbitrary: n p)
  case (Cons w ws)
  have "count_ring x w n t = count_ring x (hd (ws @ [x])) (n + 1) t" using Cons.prems by (subst count_ring.simps) auto
  also have "\<dots> = Some (n + 1 + int (length ws))" by (rule Cons.IH) (use Cons.prems in auto)
  finally show ?case by simp
qed (subst count_ring.simps, simp)

lemma countTwins_eq:
  assumes "twins_at (heap t) tw" "distinct tw"
  shows "countTwins (hd tw) t = Some (int (length tw))"
proof -
  obtain x ws where tw: "tw = x # ws" using assms(1) by (cases tw) (auto simp: twins_at_def)
  then have "chain (heap t) x ws x" "av_nextTwin (heap t x) = hd (ws @ [x])" "x \<notin> set ws"
    using assms by (auto simp: twins_at_def ring_def)
  then show ?thesis using count_ring_eq [of t x ws x 1] by (simp add: countTwins_def tw)
qed

lemma count_at_eq:
  assumes "tree_at (heap t) p T" "\<forall>tw \<in> set (rings T). twins_at (heap t) tw \<and> distinct tw"
  shows "count_at (ptr T) n t = Some (n + int (length (concat (rings T))))"
  using assms
proof (induction T arbitrary: p n)
  case (Br l tw b r)
  have "count_at (ptr l) k t = Some (k + int (length (concat (rings l))))" "count_at (ptr r) k t = Some (k + int (length (concat (rings r))))"
    for k using Br.IH Br.prems by auto
  then show ?case using Br.prems by (subst count_at.simps) (simp add: countTwins_eq)
qed (subst count_at.simps, simp)

lemma downLink_rep:
  assumes "rep t C (Br l tw b r)"
  shows "downLink (hd tw) t = Some (hd tw)"
proof (cases C rule: ctx_ptr.cases)
  case 1
  then show ?thesis using assms by (simp add: rep_def downLink_def)
next
  case (2 d tw' b' s C')
  have "uplinkDirFrom (hd tw) (hd tw') t = d"
    by (rule uplinkDirFrom_frame) (use assms in \<open>auto simp: rep_def 2\<close>)
  then show ?thesis using assms by (auto simp: rep_def 2 downLink_def uplinkDirFrom_def split: if_splits)
qed

lemma assertLinks_eq: "rep t C T \<Longrightarrow> assertLinks_at (ptr T) t = Some None"
proof (induction T arbitrary: C)
  case (Br l tw b r)
  have "rep t ((LEFT, tw, b, r) # C) l" "rep t ((RIGHT, tw, b, l) # C) r" using Br.prems by (simp_all add: rep_frame)
  then have "assertLinks_at (ptr l) t = Some None" "assertLinks_at (ptr r) t = Some None" using Br.IH by blast+
  moreover have "av_children (heap t (hd tw)) LEFT = ptr l" "av_children (heap t (hd tw)) RIGHT = ptr r"
    using Br.prems by (simp_all add: rep_def)
  ultimately show ?case using downLink_rep [OF Br.prems] by (subst assertLinks_at.simps) simp
qed (subst assertLinks_at.simps, simp)

lemma assertBalance_eq: "tree_at (heap t) p T \<Longrightarrow> avl T \<Longrightarrow> assertBalance_at (ptr T) t = Some None"
proof (induction T arbitrary: p)
  case (Br l tw b r)
  then have "height_at (ptr l) t = Some (ht l)" "height_at (ptr r) t = Some (ht r)" by (auto simp: height_at_eq)
  then show ?case using Br by (subst assertBalance_at.simps) (auto simp: abs_le_iff)
qed (subst assertBalance_at.simps, simp)

section \<open>The ends of the tree\<close>

lemma lowest_rings: "rep t C T \<Longrightarrow> ptr T = Some n \<Longrightarrow> lowest_from n t = Some (hd (hd (rings T)))"
proof -
  assume T: "rep t C T" "ptr T = Some n"
  obtain D dt db dr where D: "T = plug D (Br Tip dt db dr)" "\<forall>f \<in> set D. fst f = LEFT" "lowest_from n t = Some (hd dt)"
    using lowest_from_path [OF T] by blast
  obtain P where "\<forall>X. ctx_rings D X = X @ P" using left_rings [OF D(2)] by blast
  then show ?thesis using D by (simp add: rings_plug)
qed

lemma highest_rings: "rep t C T \<Longrightarrow> ptr T = Some n \<Longrightarrow> highest_from n t = Some (hd (last (rings T)))"
proof (induction T arbitrary: C n)
  case (Br l tw b r)
  have n: "n = hd tw" "av_children (heap t n) RIGHT = ptr r" using Br.prems by (auto simp: rep_def)
  show ?case
  proof (cases r)
    case Tip
    then show ?thesis using n by (subst highest_from.simps) simp
  next
    case (Br l1 tw1 b1 r1)
    have "rep t ((RIGHT, tw, b, l) # C) r" using Br.prems(1) by (simp add: rep_frame)
    from Br.IH(2) [OF this] Br have "highest_from (hd tw1) t = Some (hd (last (rings r)))" by simp
    then show ?thesis using n(2) Br by (subst highest_from.simps) simp
  qed
qed simp

section \<open>after\<close>

text \<open>The rings before and behind a place in the tree.\<close>

fun ctx_pre :: "frame list \<Rightarrow> nat list list" where
  "ctx_pre [] = []"
| "ctx_pre ((LEFT, tw, b, s) # C) = ctx_pre C"
| "ctx_pre ((RIGHT, tw, b, s) # C) = ctx_pre C @ rings s @ [tw]"

fun ctx_post :: "frame list \<Rightarrow> nat list list" where
  "ctx_post [] = []"
| "ctx_post ((LEFT, tw, b, s) # C) = tw # rings s @ ctx_post C"
| "ctx_post ((RIGHT, tw, b, s) # C) = ctx_post C"

lemma ctx_rings_pre_post: "ctx_rings C X = ctx_pre C @ X @ ctx_post C"
  by (induction C arbitrary: X rule: ctx_post.induct) simp_all

lemma first_above_post:
  assumes "rep t C T" "ptr T = Some n"
  shows "first_above LEFT n t = Some (case ctx_post C of [] \<Rightarrow> None | tw # _ \<Rightarrow> Some (hd tw))"
  using assms
proof (induction C arbitrary: T n rule: ctx_post.induct)
  case 1
  then have "av_parent (heap t n) = None" by (cases T) (auto simp: rep_def)
  then show ?case by (subst first_above.simps) simp
next
  case (2 tw b s C)
  have "av_children (heap t (hd tw)) LEFT = Some n" using 2(2,3) by (simp add: rep_def)
  then show ?case using relationToParent_frame(2) [OF 2(2,3)] by (subst first_above.simps) simp
next
  case (3 tw b s C)
  have "n \<notin> set (heads s)" using 3(2,3) ptr_heads [of T n] by (auto simp: rep_def)
  then have "av_children (heap t (hd tw)) LEFT \<noteq> Some n" using 3(2,3) \<open>n \<notin> set (heads s)\<close> ptr_heads [of s n] by (auto simp: rep_def)
  then have "first_above LEFT n t = first_above LEFT (hd tw) t"
    using relationToParent_frame(2) [OF 3(2,3)] by (subst first_above.simps) simp
  moreover have "rep t C (mk RIGHT T tw b s)" using 3(2) by (simp only: rep_frame)
  ultimately show ?case using "3.IH" [of "mk RIGHT T tw b s" "hd tw"] by simp
qed

lemma RTAVLTree_after_rings:
  assumes inv: "avl_inv key t R" and R: "R = A @ (ys @ x # zs) # B" and tw: "zs \<noteq> [] \<or> ys = []"
  shows "RTAVLTree_after x t = Some (case zs @ concat B of [] \<Rightarrow> None | y # _ \<Rightarrow> Some y)"
proof -
  let ?tw = "ys @ x # zs"
  obtain T where T: "rep t [] T" "rings T = R" "twins_inv t R" using inv by (auto simp: avl_inv_def)
  have at: "twins_at (heap t) ?tw" "distinct ?tw" "?tw \<in> set R" using T(3) by (auto simp: twins_inv_def R)
  have ring: "chain (heap t) (last ?tw) ?tw (hd ?tw)" using at(1) by (simp add: twins_at_def ring_def)
  show ?thesis
  proof (cases zs)
    case (Cons z zs')
    have "chain (heap t) (last (last ?tw # ys)) (x # zs) (hd ?tw)" using ring unfolding chain_append by blast
    then have "av_nextTwin (heap t x) = z" by (simp add: Cons)
    moreover have "z \<noteq> hd ?tw" using at(2) Cons by (cases ys) auto
    then have "\<not> av_twinHead (heap t z)" using at(1) Cons by (simp add: twins_at_def)
    ultimately show ?thesis by (simp add: RTAVLTree_after_def Cons)
  next
    case Nil
    then have s: "?tw = [x]" "ys = []" using tw by simp_all
    have n: "av_nextTwin (heap t x) = x" "av_twinHead (heap t x)" using at(1) by (simp_all add: s Nil twins_at_def ring_def)
    obtain C l b r where pl: "T = plug C (Br l [x] b r)" using plug_at at(3) T(2) unfolding s(1) by metis
    have rp: "rep t C (Br l [x] b r)" using T(1) pl rep_plug by metis
    have eq: "A @ [x] # B = (ctx_pre C @ rings l) @ [x] # (rings r @ ctx_post C)"
      using T(2) pl by (simp add: rings_plug ctx_rings_pre_post R s Nil)
    have d: "distinct (concat (A @ [x] # B))" using T(3) by (simp add: twins_inv_def R s Nil)
    have B: "B = rings r @ ctx_post C"
    proof -
      have "[x] \<notin> set A" "[x] \<notin> set B" using d by auto
      from append_Cons_eq_iff [OF this, of "ctx_pre C @ rings l"] eq show ?thesis by blast
    qed
    have ne: "\<forall>tw \<in> set B. tw \<noteq> []" using avl_inv_parts(1) [OF inv] by (simp add: R)
    have right: "av_children (heap t x) RIGHT = ptr r" using rp by (simp add: rep_def)
    show ?thesis
    proof (cases r)
      case Tip
      have "RTAVLTree_after x t = first_above LEFT x t" using n right Tip by (simp add: RTAVLTree_after_def)
      also have "\<dots> = Some (case B of [] \<Rightarrow> None | tw # _ \<Rightarrow> Some (hd tw))" using first_above_post [OF rp] B Tip by simp
      finally show ?thesis using ne Nil by (cases B; cases "hd B") auto
    next
      case (Br l1 tw1 b1 r1)
      have "rep t ((RIGHT, [x], b, l) # C) r" using rp by (simp add: rep_frame)
      from lowest_rings [OF this] Br have "RTAVLTree_after x t = Some (Some (hd (hd (rings r))))"
        using n right by (simp add: RTAVLTree_after_def)
      moreover obtain tw2 Z where "rings r = tw2 # Z" using Br by (cases "rings r") auto
      ultimately show ?thesis using ne Nil by (cases tw2) (auto simp: B)
    qed
  qed
qed

section \<open>clear\<close>

lemma avl_inv_root:
  assumes "avl_inv key t R"
  shows "root t = None \<longleftrightarrow> R = []" "root t = Some n \<Longrightarrow> n \<in> set (concat R)"
proof -
  obtain T where T: "rep t [] T" "rings T = R" using assms by (auto simp: avl_inv_def)
  show "root t = None \<longleftrightarrow> R = []" using T by (cases T) (auto simp: rep_def)
  assume "root t = Some n"
  then have "n \<in> set (heads T)" using T(1) ptr_heads by (simp add: rep_def)
  then show "n \<in> set (concat R)" using heads_rings [of T] avl_inv_parts(1) [OF assms] T(2) by blast
qed

lemma clear_loop_correct:
  assumes "avl_inv key t R"
  shows "\<exists>t'. clear_loop t = Some t' \<and> avl_inv key t' [] \<and> self t' = self t"
  using assms
proof (induction "length (concat R)" arbitrary: t R)
  case 0
  then have "R = []" using avl_inv_parts(1) [OF 0(2)] by (cases R) auto
  then show ?case using 0 avl_inv_root(1) [OF 0(2)] by (subst clear_loop.simps) simp
next
  case (Suc k)
  then have "R \<noteq> []" by auto
  then obtain n where n: "root t = Some n" "n \<in> set (concat R)" using avl_inv_root [OF Suc(3)] by blast
  from RTAVLTree_erase_rings [OF Suc(3) n(2)] obtain t1 where
    t1: "RTAVLTree_erase n t = Some t1" "avl_inv key t1 (del_ring n R)" "self t1 = self t" by blast
  have "k = length (concat (del_ring n R))"
    using Suc(2) n(2) concat_del_ring [OF avl_inv_parts(2) [OF Suc(3)], of n] by (simp add: length_remove1)
  from Suc(1) [OF this t1(2)] show ?case using n(1) t1 by (subst clear_loop.simps) simp
qed

end
