(* ===== verification/EventQueue.thy ===== *)
theory EventQueue
  imports RTAVLTreeLookup ChannelProps
begin

text \<open>
  The tree of \<open>src/src/common/RTAVLTree.h\<close> as the queue of scheduled events: what the engines rely on is stated as a
  locale, over the sequence of the elements that a queue holds. The tree provides it, with the in-order sequence of
  its rings, and so do the sequences with which \<open>EngineChannel\<close> models a queue.
\<close>

section \<open>The interface of a queue of scheduled events\<close>

text \<open>All elements are put into a queue one after the other; the earliest is taken until none is left.\<close>

primrec insert_all :: "(nat \<Rightarrow> 'q \<Rightarrow> 'q option) \<Rightarrow> nat list \<Rightarrow> 'q \<Rightarrow> 'q option" where
  "insert_all ins [] q = Some q"
| "insert_all ins (n # ns) q = Option.bind (ins n q) (insert_all ins ns)"

partial_function (option) take_all ::
  "('q \<Rightarrow> bool) \<Rightarrow> ('q \<Rightarrow> nat option) \<Rightarrow> (nat \<Rightarrow> 'q \<Rightarrow> 'q option) \<Rightarrow> 'q \<Rightarrow> (nat list \<times> 'q) option" where
  "take_all emp low er q =
     (if emp q then Some ([], q)
      else do {
        n \<leftarrow> low q;
        q \<leftarrow> er n q;
        (ns, q) \<leftarrow> take_all emp low er q;
        Some (n # ns, q) })"

locale event_queue =
  fixes time :: "nat \<Rightarrow> sched_time_t"
    and ins er :: "nat \<Rightarrow> 'q \<Rightarrow> 'q option"
    and emp :: "'q \<Rightarrow> bool"
    and low :: "'q \<Rightarrow> nat option"
    and holds :: "'q \<Rightarrow> nat list \<Rightarrow> bool"
  assumes insert_law: "holds q Q \<Longrightarrow> \<exists>q'. ins n q = Some q' \<and> holds q' (queue_insert time n Q)"
    and erase_law: "holds q Q \<Longrightarrow> \<exists>q'. er n q = Some q' \<and> holds q' (queue_erase n Q)"
    and empty_law: "holds q Q \<Longrightarrow> emp q \<longleftrightarrow> Q = []"
    and lowest_law: "holds q (n # Q) \<Longrightarrow> low q = Some n"
begin

lemma insert_all_holds: "holds q Q \<Longrightarrow> \<exists>q'. insert_all ins ns q = Some q' \<and> holds q' (fold (queue_insert time) ns Q)"
proof (induction ns arbitrary: q Q)
  case (Cons n ns)
  obtain q1 where "ins n q = Some q1" "holds q1 (queue_insert time n Q)" using insert_law [OF Cons.prems] by blast
  then show ?case using Cons.IH [of q1] by simp
qed simp

lemma take_all_holds: "holds q Q \<Longrightarrow> \<exists>q'. take_all emp low er q = Some (Q, q') \<and> holds q' []"
proof (induction Q arbitrary: q)
  case Nil
  then show ?case using empty_law by (subst take_all.simps) simp
next
  case (Cons n Q)
  obtain q1 where q1: "er n q = Some q1" "holds q1 Q" using erase_law [OF Cons.prems, of n] by (auto simp: queue_erase_def)
  then show ?case using empty_law [OF Cons.prems] lowest_law [OF Cons.prems] Cons.IH [OF q1(2)]
    by (subst take_all.simps) auto
qed

lemma inserted_taken_sorted:
  assumes "holds q []" "distinct ns"
  shows "\<exists>q1 q2. insert_all ins ns q = Some q1 \<and> take_all emp low er q1 = Some (sort_key time ns, q2) \<and> holds q2 []"
proof -
  obtain q1 where q1: "insert_all ins ns q = Some q1" "holds q1 (fold (queue_insert time) ns [])"
    using insert_all_holds [OF assms(1)] by blast
  then show ?thesis using take_all_holds [OF q1(2)] queue_is_stable_sort [OF assms(2)] by auto
qed

end

text \<open>The sequences of the model of the engine channel.\<close>

definition first_of :: "nat list \<Rightarrow> nat option" where
  "first_of q = (case q of [] \<Rightarrow> None | n # _ \<Rightarrow> Some n)"

interpretation list_queue: event_queue time "\<lambda>n q. Some (queue_insert time n q)" "\<lambda>n q. Some (queue_erase n q)"
    "\<lambda>q. q = []" first_of "\<lambda>q Q. q = Q" for time
  by unfold_locales (auto simp: first_of_def)

section \<open>The tree as a queue\<close>

definition avl_queue :: "(nat \<Rightarrow> 'k::linorder) \<Rightarrow> RTAVLTree \<Rightarrow> nat list \<Rightarrow> bool" where
  "avl_queue key t Q \<longleftrightarrow> (\<exists>R. avl_inv key t R \<and> Q = concat R)"

lemma avl_queue_insert:
  assumes "avl_queue time t Q"
  shows "\<exists>t'. RTAVLTree_insert time n t = Some t' \<and> avl_queue time t' (queue_insert time n Q) \<and> self t' = self t"
proof -
  obtain R where R: "avl_inv time t R" "Q = concat R" using assms by (auto simp: avl_queue_def)
  note parts = avl_inv_parts [OF R(1)]
  show ?thesis
  proof (cases "n \<in> set Q")
    case True
    then have "av_tree (heap t n) = Some (self t)" using parts(4) R(2) by simp
    then show ?thesis using True assms by (simp add: RTAVLTree_insert_def queue_insert_def)
  next
    case False
    then obtain t' where t': "RTAVLTree_insert time n t = Some t'" "avl_inv time t' (ins_ring time n R)" "self t' = self t"
      using RTAVLTree_insert_rings [OF R(1), of n] R(2) by blast
    have "concat (ins_ring time n R) = queue_insert time n Q"
      using ins_ring_concat [OF parts(5,1), of n] False R(2) by (simp add: queue_insert_def)
    then show ?thesis using t' by (metis avl_queue_def)
  qed
qed

lemma avl_queue_erase:
  assumes "avl_queue key t Q"
  shows "\<exists>t'. RTAVLTree_erase n t = Some t' \<and> avl_queue key t' (queue_erase n Q) \<and> self t' = self t \<and>
    (n \<in> set Q \<longrightarrow> heap t' n = reset_node n)"
proof -
  obtain R where R: "avl_inv key t R" "Q = concat R" using assms by (auto simp: avl_queue_def)
  note parts = avl_inv_parts [OF R(1)]
  show ?thesis
  proof (cases "n \<in> set Q")
    case True
    then obtain t' where t': "RTAVLTree_erase n t = Some t'" "avl_inv key t' (del_ring n R)" "self t' = self t" "heap t' n = reset_node n"
      using RTAVLTree_erase_rings [OF R(1), of n] R(2) by blast
    have "concat (del_ring n R) = queue_erase n Q" using concat_del_ring [OF parts(2), of n] R(2) by (simp add: queue_erase_def)
    then show ?thesis using t' by (metis avl_queue_def)
  next
    case False
    then have "av_tree (heap t n) \<noteq> Some (self t)" using parts(4) R(2) by simp
    then show ?thesis using False assms by (simp add: RTAVLTree_erase_def queue_erase_def remove1_idem)
  qed
qed

lemma avl_queue_ends:
  assumes "avl_queue key t Q"
  shows "avl_isEmpty t \<longleftrightarrow> Q = []" "avl_size t = int (length Q)" "RTAVLTree_lowest t = first_of Q"
    "RTAVLTree_highest t = first_of (filter (\<lambda>n. key n = key (last Q)) Q)"
proof -
  obtain R where R: "avl_inv key t R" "Q = concat R" using assms by (auto simp: avl_queue_def)
  obtain T where T: "rep t [] T" "rings T = R" using R(1) by (auto simp: avl_inv_def)
  note parts = avl_inv_parts [OF R(1)]
  have empty: "Q = [] \<longleftrightarrow> R = []" using parts(1) R(2) by (cases R) auto
  then show "avl_isEmpty t \<longleftrightarrow> Q = []" using avl_inv_root(1) [OF R(1)] by (simp add: avl_isEmpty_def)
  show "avl_size t = int (length Q)" using parts(3) R(2) by (simp add: avl_size_def)
  show "RTAVLTree_lowest t = first_of Q"
  proof (cases "root t")
    case None
    then show ?thesis using avl_inv_root(1) [OF R(1)] R(2) by (simp add: RTAVLTree_lowest_def first_of_def)
  next
    case (Some n)
    then obtain tw R' where "R = tw # R'" "tw \<noteq> []" using avl_inv_root(1) [OF R(1)] parts(1) by (cases R) auto
    moreover have "lowest_from n t = Some (hd (hd R))" using lowest_rings [OF T(1)] T Some by (simp add: rep_root)
    ultimately show ?thesis using Some R(2) by (cases tw) (auto simp: RTAVLTree_lowest_def first_of_def)
  qed
  show "RTAVLTree_highest t = first_of (filter (\<lambda>n. key n = key (last Q)) Q)"
  proof (cases "root t")
    case None
    then show ?thesis using avl_inv_root(1) [OF R(1)] R(2) by (simp add: RTAVLTree_highest_def first_of_def)
  next
    case (Some n)
    then have "R \<noteq> []" using avl_inv_root(1) [OF R(1)] by auto
    then obtain R' tw where tw: "R = R' @ [tw]" by (cases R rule: rev_cases) auto
    have ne: "tw \<noteq> []" using parts(1) tw by simp
    have ord: "\<forall>x \<in> set tw. key x = key (hd tw)" "\<forall>a \<in> set R'. key (hd a) < key (hd tw)" "ordered key R'"
      using parts(5) unfolding tw ordered_append ordered_Cons by auto
    have q: "filter (\<lambda>n. key n = key (last Q)) Q = tw"
    proof -
      have "last Q = last tw" using ne tw R(2) by simp
      then have k: "key (last Q) = key (hd tw)" using ord(1) ne last_in_set by metis
      have "key x \<noteq> key (hd tw)" if x: "x \<in> set (concat R')" for x
      proof -
        obtain a where a: "a \<in> set R'" "x \<in> set a" using x by auto
        then have "key x = key (hd a)" using ord(3) unfolding ordered_def by blast
        then show ?thesis using ord(2) a(1) by force
      qed
      then have "filter (\<lambda>n. key n = key (hd tw)) (concat R') = []" by (simp add: filter_empty_conv)
      moreover have "filter (\<lambda>n. key n = key (hd tw)) tw = tw" using ord(1) by (intro filter_True) blast
      ultimately show ?thesis unfolding k by (simp add: R(2) tw)
    qed
    have "highest_from n t = Some (hd tw)" using highest_rings [OF T(1)] T Some tw by (simp add: rep_root)
    then show ?thesis unfolding q using Some ne by (cases tw) (simp_all add: RTAVLTree_highest_def first_of_def)
  qed
qed

interpretation tree_queue: event_queue time "RTAVLTree_insert time" RTAVLTree_erase avl_isEmpty RTAVLTree_lowest "avl_queue time" for time
proof unfold_locales
  fix q Q n assume h: "avl_queue time q Q"
  show "\<exists>q'. RTAVLTree_insert time n q = Some q' \<and> avl_queue time q' (queue_insert time n Q)" using avl_queue_insert [OF h] by blast
  show "\<exists>q'. RTAVLTree_erase n q = Some q' \<and> avl_queue time q' (queue_erase n Q)" using avl_queue_erase [OF h] by blast
  show "avl_isEmpty q \<longleftrightarrow> Q = []" by (rule avl_queue_ends(1) [OF h])
qed (use avl_queue_ends(3) in \<open>force simp: first_of_def\<close>)

text \<open>A new tree is empty, when no node claims to be in it.\<close>

lemma avl_queue_new: "\<forall>n. av_tree (h n) \<noteq> Some this \<Longrightarrow> avl_queue key (RTAVLTree_new this h) []"
proof -
  assume "\<forall>n. av_tree (h n) \<noteq> Some this"
  then have "twins_inv (RTAVLTree_new this h) []" by (simp add: twins_inv_def RTAVLTree_new_def)
  moreover have "rep (RTAVLTree_new this h) [] Tip" by (simp add: rep_def RTAVLTree_new_def)
  ultimately have "avl_inv key (RTAVLTree_new this h) []" unfolding avl_inv_def by (metis avl.simps(1) ordered_Nil rings.simps(1))
  then show ?thesis unfolding avl_queue_def by (intro exI [of _ "[]"]) simp
qed

end
