(* ===== verification/EventQueueProps.thy ===== *)
theory EventQueueProps
  imports EventQueue
begin

text \<open>
  The properties of the balanced tree of \<open>src/src/common/RTAVLTree.h\<close> as the queue of scheduled events, with an
  application of each at a small tree.
\<close>

section \<open>Properties\<close>

text \<open>C15: \<open>insert\<close> returns and puts the element behind all that are not later; an element that is in the tree stays where it is.\<close>

theorem tree_insert_in_order:
  fixes time :: "nat \<Rightarrow> sched_time_t"
  assumes "avl_queue time t Q"
  shows "\<exists>t'. RTAVLTree_insert time n t = Some t' \<and> self t' = self t \<and>
    avl_queue time t' (if n \<in> set Q then Q else takeWhile (\<lambda>m. time m \<le> time n) Q @ n # dropWhile (\<lambda>m. time m \<le> time n) Q)"
  using avl_queue_insert [OF assms, of n] unfolding queue_insert_def by blast

text \<open>C16: \<open>erase\<close> returns, takes out the element it is called for and no other, and resets its node.\<close>

theorem tree_erase_removes:
  assumes "avl_queue key t Q"
  shows "\<exists>t'. RTAVLTree_erase n t = Some t' \<and> self t' = self t \<and> avl_queue key t' (remove1 n Q) \<and>
    (n \<in> set Q \<longrightarrow> heap t' n = reset_node n)"
  using avl_queue_erase [OF assms, of n] unfolding queue_erase_def by blast

text \<open>C20: What \<open>isEmpty\<close>, \<open>size\<close>, \<open>lowest\<close> and \<open>highest\<close> return: of equal elements both ends give the one that was inserted first.\<close>

theorem tree_ends:
  assumes "avl_queue key t Q"
  shows "(avl_isEmpty t \<longleftrightarrow> Q = []) \<and> avl_size t = int (length Q) \<and> RTAVLTree_lowest t = first_of Q \<and>
    RTAVLTree_highest t = first_of (filter (\<lambda>n. key n = key (last Q)) Q)"
  using avl_queue_ends [OF assms] by blast


text \<open>C19: \<open>clear\<close> ends and leaves an empty tree that no node claims to be in.\<close>

theorem tree_clear_ends:
  assumes "avl_queue key t Q"
  shows "\<exists>t'. RTAVLTree_clear t = Some t' \<and> avl_queue key t' [] \<and> (\<forall>n. av_tree (heap t' n) \<noteq> Some (self t))"
proof -
  obtain R where R: "avl_inv key t R" using assms by (auto simp: avl_queue_def)
  obtain t' where t': "clear_loop t = Some t'" "avl_inv key t' []" "self t' = self t" using clear_loop_correct [OF R] by blast
  have "t'\<lparr>root := None, nodesCount := 0\<rparr> = t'"
    using avl_inv_root(1) [OF t'(2)] avl_inv_parts(3) [OF t'(2)] by simp
  moreover have "avl_queue key t' []" using t'(2) by (force simp: avl_queue_def)
  moreover have "av_tree (heap t' n) \<noteq> Some (self t)" for n using avl_inv_parts(4) [OF t'(2)] t'(3) by simp
  ultimately show ?thesis using t'(1) by (simp add: RTAVLTree_clear_def)
qed

text \<open>C18: Elements that are put into a new tree and taken out again, always the lowest one, come in the stable order of their keys.\<close>

theorem tree_sorts_stably:
  fixes time :: "nat \<Rightarrow> sched_time_t"
  assumes "\<forall>n. av_tree (h n) \<noteq> Some this" "distinct ns"
  shows "\<exists>t t'. insert_all (RTAVLTree_insert time) ns (RTAVLTree_new this h) = Some t \<and>
    take_all avl_isEmpty RTAVLTree_lowest RTAVLTree_erase t = Some (sort_key time ns, t') \<and> avl_isEmpty t'"
  using tree_queue.inserted_taken_sorted [OF avl_queue_new [OF assms(1)] assms(2), of time]
    avl_queue_ends(1) [of time _ "[]"] by blast

text \<open>C36: 
  \<open>after\<close> gives the next element, NULL behind the highest one, for every element that has an equal one behind it
  or none at all.
\<close>

theorem tree_after_next:
  assumes inv: "avl_queue key t (us @ x # vs)"
    and x: "(\<exists>y \<in> set vs. key y = key x) \<or> (\<forall>y \<in> set us. key y \<noteq> key x)"
  shows "RTAVLTree_after x t = Some (case vs of [] \<Rightarrow> None | y # _ \<Rightarrow> Some y)"
proof -
  obtain R where R: "avl_inv key t R" "us @ x # vs = concat R" using inv by (auto simp: avl_queue_def)
  have "x \<in> set (concat R)" unfolding R(2) [symmetric] by simp
  then obtain tw where "tw \<in> set R" "x \<in> set tw" by auto
  then obtain A B ys zs where s: "R = A @ (ys @ x # zs) # B" using split_list by metis
  have d: "distinct (us @ x # vs)" using avl_inv_parts(2) [OF R(1)] R(2) by simp
  have "us @ x # vs = (concat A @ ys) @ x # (zs @ concat B)" using R(2) s by simp
  moreover have "x \<notin> set us" "x \<notin> set vs" using d by auto
  ultimately have eq: "us = concat A @ ys" "vs = zs @ concat B" using append_Cons_eq_iff [of x us vs] by blast+
  have ord: "\<forall>y \<in> set (ys @ x # zs). key y = key (hd (ys @ x # zs))" "ordered key B"
    "\<forall>b \<in> set B. key (hd (ys @ x # zs)) < key (hd b)"
    using avl_inv_parts(5) [OF R(1)] unfolding s ordered_append ordered_Cons by blast+
  have "key y \<noteq> key x" if y: "y \<in> set (concat B)" for y
  proof -
    obtain b where b: "b \<in> set B" "y \<in> set b" using y by auto
    then have "key y = key (hd b)" using ord(2) unfolding ordered_def by blast
    moreover have "key x = key (hd (ys @ x # zs))" using ord(1) by (metis in_set_conv_decomp)
    ultimately show ?thesis using ord(3) b(1) by force
  qed
  moreover have "key y = key x" if "y \<in> set ys" for y
    using ord(1) that by (metis in_set_conv_decomp Un_iff set_append)
  ultimately have "zs \<noteq> [] \<or> ys = []" using x unfolding eq by (cases ys) auto
  from RTAVLTree_after_rings [OF R(1) s this] show ?thesis by (simp add: eq(2))
qed

definition example_time :: "nat \<Rightarrow> sched_time_t" where
  "example_time n = (if n < 2 then 5 else 7)"

declare attach.simps [code] grow_up.simps [code] highest_from.simps [code] first_above.simps [code]


section \<open>Applications\<close>

lemma fresh_nodes: "\<forall>n. av_tree (reset_node n) \<noteq> Some 9" by simp

lemma example_tree:
  obtains t where "insert_all (RTAVLTree_insert example_time) [2, 1, 0] (RTAVLTree_new 9 reset_node) = Some t"
    "avl_queue example_time t [1, 0, 2]"
proof -
  obtain t where t: "insert_all (RTAVLTree_insert example_time) [2, 1, 0] (RTAVLTree_new 9 reset_node) = Some t"
    "avl_queue example_time t (fold (queue_insert example_time) [2, 1, 0] [])"
    using tree_queue.insert_all_holds [OF avl_queue_new [OF fresh_nodes]] by blast
  moreover have "fold (queue_insert example_time) [2, 1, 0] [] = [1, 0, 2]" by (simp add: queue_insert_def example_time_def)
  ultimately show thesis using that by simp
qed

lemma tree_insert_in_order_witness:
  "\<exists>t t'. insert_all (RTAVLTree_insert example_time) [2, 1, 0] (RTAVLTree_new 9 reset_node) = Some t \<and>
    RTAVLTree_insert example_time 3 t = Some t' \<and> avl_queue example_time t' [1, 0, 2, 3]"
proof -
  obtain t where t: "insert_all (RTAVLTree_insert example_time) [2, 1, 0] (RTAVLTree_new 9 reset_node) = Some t"
    "avl_queue example_time t [1, 0, 2]" by (rule example_tree)
  then show ?thesis using tree_insert_in_order [OF t(2), of 3] by (auto simp: example_time_def)
qed

lemma tree_erase_removes_witness:
  "\<exists>t t'. insert_all (RTAVLTree_insert example_time) [2, 1, 0] (RTAVLTree_new 9 reset_node) = Some t \<and>
    RTAVLTree_erase 1 t = Some t' \<and> avl_queue example_time t' [0, 2] \<and> heap t' 1 = reset_node 1"
proof -
  obtain t where t: "insert_all (RTAVLTree_insert example_time) [2, 1, 0] (RTAVLTree_new 9 reset_node) = Some t"
    "avl_queue example_time t [1, 0, 2]" by (rule example_tree)
  then show ?thesis using tree_erase_removes [OF t(2), of 1] by auto
qed

lemma tree_ends_witness:
  "\<exists>t. insert_all (RTAVLTree_insert example_time) [2, 1, 0] (RTAVLTree_new 9 reset_node) = Some t \<and>
    avl_size t = 3 \<and> RTAVLTree_lowest t = Some 1 \<and> RTAVLTree_highest t = Some 2"
proof -
  obtain t where t: "insert_all (RTAVLTree_insert example_time) [2, 1, 0] (RTAVLTree_new 9 reset_node) = Some t"
    "avl_queue example_time t [1, 0, 2]" by (rule example_tree)
  then show ?thesis using tree_ends [OF t(2)] by (simp add: first_of_def example_time_def)
qed


lemma tree_clear_ends_witness:
  "\<exists>t t'. insert_all (RTAVLTree_insert example_time) [2, 1, 0] (RTAVLTree_new 9 reset_node) = Some t \<and>
    RTAVLTree_clear t = Some t' \<and> avl_queue example_time t' []"
proof -
  obtain t where t: "insert_all (RTAVLTree_insert example_time) [2, 1, 0] (RTAVLTree_new 9 reset_node) = Some t"
    "avl_queue example_time t [1, 0, 2]" by (rule example_tree)
  then show ?thesis using tree_clear_ends [OF t(2)] by auto
qed

lemma tree_sorts_stably_witness:
  "\<exists>t t'. insert_all (RTAVLTree_insert example_time) [2, 1, 0] (RTAVLTree_new 9 reset_node) = Some t \<and>
    take_all avl_isEmpty RTAVLTree_lowest RTAVLTree_erase t = Some ([1, 0, 2], t')"
proof -
  have "sort_key example_time [2, 1, 0] = [1, 0, 2]" by (simp add: example_time_def)
  then show ?thesis using tree_sorts_stably [OF fresh_nodes, of "[2, 1, 0]" example_time] by auto
qed

lemma tree_after_next_witness:
  "\<exists>t. insert_all (RTAVLTree_insert example_time) [2, 1, 0] (RTAVLTree_new 9 reset_node) = Some t \<and>
    RTAVLTree_after 1 t = Some (Some 0) \<and> RTAVLTree_after 2 t = Some None"
proof -
  obtain t where t: "insert_all (RTAVLTree_insert example_time) [2, 1, 0] (RTAVLTree_new 9 reset_node) = Some t"
    "avl_queue example_time t [1, 0, 2]" by (rule example_tree)
  then show ?thesis
    using tree_after_next [of example_time t "[]" 1 "[0, 2]"] tree_after_next [of example_time t "[1, 0]" 2 "[]"]
    by (simp add: example_time_def)
qed

end
