(* ===== verification/Spec2Isabelle.thy ===== *)
theory Spec2Isabelle
  imports CoreFunctionProps VMExprProps ScriptLoadProps VMExec RingBufferThreads DiskThreadOrders PoolIds
    ScriptFnProps DelayedEvents ScriptRun EventQueueProps
begin

text \<open>
  A verification development for LinuxSampler, a modular streaming audio sampler. LinuxSampler has
  MIDI and audio drivers (\<open>src/src/drivers\<close>), engines for the Gigasampler, SoundFont and SFZ formats
  (\<open>src/src/engines\<close>), a control protocol over TCP (LSCP, \<open>src/src/network\<close>), an instruments data
  base (\<open>src/src/db\<close>), effect plugins (\<open>src/src/effects\<close>) and a real-time script engine, NKSP
  (\<open>src/src/scriptvm\<close>). The engines load an instrument's script, run its handlers on MIDI events and
  let a handler suspend itself, which is why the script engine has to return to the audio thread in
  bounded time and without touching memory it does not own. Voices play the beginning of a sample from
  memory and the rest from disk streams, which a disk thread fills; the two threads share ring buffers
  only. Everything the audio thread allocates comes from pools of a fixed size.

  This development models the script engine (the objects a parsed script consists of, the evaluation of
  expressions, the built-in functions every script has, the virtual machine, the parser context, and the
  loading of a script with patch variables), the ring buffer, the disk streams and the disk thread, the
  pools with their lists, and what the sampler engines add to scripts: events and notes, their scheduling,
  the built-in functions that work on them, and the life of a script event. Names of files of the script engine are relative to \<open>src/src/scriptvm\<close>.

  \<^bold>\<open>Theories, in the order of import.\<close>

  \<^item> \<open>Prelude\<close>: the integer types, shifts as the machine does them, list updates, \<open>named_theorems\<close>.
  \<^item> \<open>Float32\<close>: \<open>vmfloat\<close>, IEEE 754 single precision with round to nearest even, conversions, and
    the ULP comparison of \<open>src/src/common/RTMath.cpp\<close>.
  \<^item> \<open>VMTypes\<close> (\<open>common.h\<close>, \<open>common.cpp\<close>): enumerations, statement flags, metric prefixes and units.
  \<^item> \<open>VMTree\<close> (\<open>tree.h\<close>, \<open>common.h\<close>): \<open>expr\<close> and \<open>stmt\<close>, one constructor per class; \<open>ExecContext\<close>;
    \<open>vm\<close>, everything a running script can read or write.
  \<^item> \<open>VMExprs\<close>, \<open>VMVariables\<close>, \<open>VMOperators\<close> (\<open>tree.h\<close>, \<open>tree.cpp\<close>): the expression classes. A C++
    object with virtual methods is a record \<open>node\<close> of functions; the override of a class is a
    definition \<open>Class_method\<close>, and \<open>Class_node\<close> is the object with all its overrides. A method that
    a class does not override keeps the base class's behaviour in \<open>base_node\<close>.
  \<^item> \<open>VMFunctions\<close> (\<open>VMFunction\<close>, \<open>VMIntResult\<close> and so on) and \<open>CoreFunctions\<close>
    (\<open>CoreVMFunctions.h\<close>, \<open>.cpp\<close>): the 35 built-in functions with argument checks, return types,
    unit handling and \<open>exec\<close>.
  \<^item> \<open>VMDenote\<close>: \<open>FunctionCall\<close>, and \<open>denote\<close>, which gives the object of a parsed expression.
  \<^item> \<open>ScriptVM\<close> (\<open>ScriptVM.cpp\<close>): statements, stack, main loop, \<open>exec\<close>, \<open>forkTo\<close>, abort.
  \<^item> \<open>ParserCtx\<close> (\<open>ParserContext\<close>, variable constructors) and \<open>ScriptLoad\<close> (\<open>ScriptVM::loadScript\<close>,
    \<open>createExecContext\<close>, the tables of functions and constants).
  \<^item> \<open>VMFrame\<close>, \<open>VMStack\<close>, \<open>VMExec\<close>: lemmas about the virtual machine; \<open>VMArrays\<close>, \<open>VMCells\<close>: about
    arrays and variables; \<open>CoreFunctionProps\<close>, \<open>VMExprProps\<close>, \<open>ScriptLoadProps\<close>: what the parts
    guarantee. \<open>VMExample\<close> holds the concrete inputs that show the properties' hypotheses can hold.
  \<^item> \<open>RingBuffer\<close> (\<open>src/src/common/RingBuffer.h\<close>): the methods; \<open>RingBufferProps\<close>: the queue that a
    buffer stands for (\<open>rb_queue\<close>) and what the methods do to it; \<open>RingBufferThreads\<close>: one writer and one
    reader whose steps interleave.
  \<^item> \<open>DiskStream\<close> (\<open>Stream.h\<close>, \<open>StreamBase.h\<close> of \<open>src/src/engines/common\<close>, \<open>src/src/engines/sf2/Stream.cpp\<close>) with
    \<open>DiskStreamProps\<close> (fills and the wrap space) and \<open>DiskStreamMethods\<close> (invariant \<open>stream_ok\<close>).
  \<^item> \<open>DiskThread\<close> (\<open>DiskThreadBase.h\<close>, \<open>.cpp\<close>): command queues, order slots, main loop; \<open>DiskThreadProps\<close>: the
    invariant \<open>thread_ok\<close> of every loop; \<open>DiskThreadOrders\<close>: order IDs, the way of an order, sessions.
  \<^item> \<open>Pool\<close> (\<open>src/src/common/Pool.h\<close>): nodes, lists, iterators, pools, element IDs; \<open>PoolLists\<close>: simulation of
    the pointer operations by operations on lists (\<open>pool_rel\<close>); \<open>PoolIds\<close>: clearing, sequences, IDs.
  \<^item> \<open>EventGroups\<close> (\<open>src/src/common/ConstCapacityArray.h\<close>, \<open>EventGroup\<close>): arrays of constant capacity, marks.
  \<^item> \<open>EventModel\<close> (\<open>Event.h\<close>, \<open>Event.cpp\<close>, \<open>Note.h\<close> of \<open>src/src/engines/common\<close>): events, times, notes, script
    IDs, script events. \<open>EngineChannel\<close> (\<open>AbstractEngineChannel.cpp\<close>, \<open>EngineBase.h\<close>): the state \<open>chan\<close> of an
    engine with one channel, its pools and queues; scheduling, notes, callbacks, the merge of delayed events.
  \<^item> \<open>RTAVLTree\<close> (\<open>src/src/common/RTAVLTree.h\<close>): the balanced tree with its links, that is the queue of scheduled
    events; \<open>RTAVLTreeShape\<close>: the binary tree of rings that the links stand for (\<open>rep\<close>, a path to the root and a
    subtree); \<open>RTAVLTreeRotate\<close>, \<open>RTAVLTreeBalance\<close>: rotations and the walks upwards; \<open>RTAVLTreeTwins\<close>: the rings
    of equal elements; \<open>RTAVLTreeInsert\<close> (invariant \<open>avl_inv\<close>), \<open>RTAVLTreeErase\<close>, \<open>RTAVLTreeEraseRings\<close>,
    \<open>RTAVLTreeEraseNode\<close>, \<open>RTAVLTreeLookup\<close>: the operations; \<open>EventQueue\<close>: the tree as a queue, in place of the
    sequences of \<open>EngineChannel\<close>; \<open>EventQueueProps\<close>: its properties.
  \<^item> \<open>ScriptFunctions\<close>, \<open>ChangeFunctions\<close>, \<open>ScriptFnTable\<close> (\<open>InstrumentScriptVMFunctions.cpp\<close>, \<open>.h\<close>): the 48
    functions of the engines and what they tell the parser; \<open>ScriptRun\<close> (\<open>InstrumentScriptVM.cpp\<close>, \<open>EngineBase.h\<close>):
    spawning, suspending and resuming of script events.
  \<^item> \<open>ChannelPools\<close>, \<open>ChannelInv\<close> (invariant \<open>chan_inv\<close>), \<open>ChannelSteps\<close>, \<open>CallSteps\<close>, \<open>ScriptFnSound\<close>: what each
    operation and function keeps, by rules for the predicate \<open>runs\<close> (a run returns, and its result satisfies a
    condition); \<open>ChannelProps\<close>, \<open>DelayedEvents\<close>, \<open>ScriptFnProps\<close>: the properties; \<open>ChannelExample\<close>: a small channel.

  \<^bold>\<open>Results.\<close> An evaluation has type \<open>'a eval\<close>, from a state to an optional pair of a value and a
  state. None is a trap: undefined behaviour of the C++ code (null pointer, access outside of a
  vector, signed division overflow, conversion of a float out of range to an index), which on the
  modelled machine ends the process. Errors that the code reports are values: flags of \<open>ExecContext\<close>,
  parser issues, the value 0 of an element out of range. \<open>exec_loop\<close> tells \<open>OutOfFuel\<close> from
  \<open>Crashed\<close>.

  \<^bold>\<open>Interfaces.\<close> \<open>vm_frame\<close> (VMFrame) is the contract of a relation between the states before and
  after an evaluation; it is proved once that every expression respects such a relation, and the
  three interpretations give that evaluation does not touch the control state (stack, flags),
  the sizes of the memories, and the function bindings. \<open>stack_discipline\<close> (VMStack) is the contract
  of an invariant of the main loop. \<open>num_array\<close> and \<open>num_array_pair\<close> (VMArrays) are the interface of
  number arrays which the array functions use, with interpretations on integer, real and byte arrays;
  \<open>array_element\<close> (VMExprProps) extends it by the element objects. \<open>number_cell\<close> (VMCells) is the
  contract of a variable: read after write, and independence of cells that do not overlap.
  \<open>bounded_queue\<close> (RingBufferProps) is the contract of a queue of limited size, interpreted on the ring
  buffer by \<open>ring\<close>. \<open>event_queue\<close> (EventQueue) is the contract of a queue of scheduled events over the
  sequence of its elements, interpreted on the balanced tree and on sequences.

  \<^bold>\<open>Fuel.\<close> The body of the main loop is \<open>exec_iteration\<close>, and \<open>exec_loop\<close> passes through it as often
  as its fuel allows. With automatic suspension and no \<open>sync\<close> block, 212 is enough for every script
  (\<open>exec_terminates\<close>): \<open>exec\<close> counts its passes, and the pass that starts with the counter at 211,
  one more than \<open>SCRIPTVM_MAX_INSTR_PER_CYCLE_HARD\<close>, sets the suspension flag. Scripts with \<open>sync\<close>
  blocks may run forever, which \<open>sync_wait_never_returns\<close> shows for one.

  \<^bold>\<open>Choices.\<close> Where C++ leaves the order of evaluating operands open, the model goes from left to
  right, as GCC and Clang do here. Shifts use the low six bits of the count and conversions of an out
  of range float to an integer give the least integer, as the x86-64 instructions do. \<open>std::sort\<close> is
  a stable insertion sort; what is shown of it holds for every sorting function up to the order of
  equal elements. \<open>printf("%f")\<close>, \<open>ToString(vmfloat)\<close>, the transcendental functions and \<open>RAND_MAX\<close> are
  parameters (\<open>clib\<close>), random numbers and clocks are streams of the state.
  Indices and sizes of ring buffers are integers, as the code keeps them far below the limit of \<open>int\<close>.
  Commands of the two threads of a disk thread are atomic steps in \<open>exec_event\<close>; that their ring buffers
  allow for this is what \<open>spsc_fifo\<close> shows. The memory orders of atomic accesses are taken as
  sequentially consistent. \<open>qsort\<close> is an insertion sort. The files of samples are the parameter
  \<open>samples\<close>, with the hypothesis \<open>samples_ok\<close>: a read gives at most the frames that were asked for, each
  of the size of a frame. A node of a list is an \<open>addr\<close>, the boundary nodes of list number \<open>l\<close>
  are \<open>Begin l\<close> and \<open>End l\<close>, and the pool's free list is a number of its own. \<open>1 << bits\<close> in \<open>int\<close> takes
  its count modulo 32.

  \<^bold>\<open>Properties.\<close> C1 to C7: the virtual machine (no stack overflow, the context stays valid,
  bounded run time, abort, fork, and a script that never returns). C8 to C13: ring buffer, disk thread,
  pools and disk streams. C14: calls of the engines' script functions. C15 to C20: the balanced
  tree. C21 to C25: scheduling, the merge of delayed events, changes of notes, script IDs. C26 to C28: loading of a
  script. C29 to C35: variables, built-in functions, operators and constant expressions. C36 to C40: traversal of
  the tree, accepted calls that crash, final values that are lost, events that were ignored.

  \<^bold>\<open>Not modelled.\<close> The generated scanner and parser (\<open>scanner.l\<close>, \<open>parser.y\<close>) are the parameter
  \<open>parse\<close> of \<open>loadScript\<close>. The methods \<open>dump\<close> only print. \<open>exec\<close>'s checks that its two context
  arguments are not null have no counterpart, as the model passes the contexts themselves; the
  prefix \<open>[ScriptVM ...]\<close> of printed messages and their time stamps are left out; array results of
  functions (\<open>FunctionCall::asIntArray\<close>) do not occur with the built-in functions of this directory.
  The checks of \<open>CONFIG_DEVMODE\<close> builds in \<open>Pool.h\<close>, destructors, and the texts about the buffer fill of
  the disk thread are left out. Of the engines, voices, MIDI dispatch, rendering, the loading of
  instrument scripts and the dynamic variables of \<open>InstrumentScriptVMDynVars.cpp\<close> are left out; running one
  handler is the parameter \<open>run\<close> of \<open>ScriptRun\<close>, and \<open>RTMath\<close>'s functions in double precision are parameters
  (\<open>rtmath\<close>). One channel per engine is modelled. The syntax highlighting in \<open>editor/\<close> and the other parts of the
  sampler are not covered yet. Candidates for the next extensions are the types of the source language (trap
  freedom of a script the parser accepts), and the MIDI mapping.
\<close>

end
